(* ===== verification/Prelude.thy ===== *)
theory Prelude
  imports Main "HOL-Library.Multiset" "HOL-Library.Char_ord" "HOL-Library.List_Lexorder"
begin

text \<open>
  Shared vocabulary of the development: results that may throw, the dynamic JavaScript
  values that the validators inspect, character classes of the regular expressions of the
  code, the language's stable sort, and decimal printing and reading.

  A JavaScript string is modelled by \<open>string\<close>: a sequence of UTF-16 code units below
  256. Ordering of strings is then the language's own, code unit by code unit.
\<close>

named_theorems js_simps \<open>evaluation rules of the JavaScript operations of the model\<close>
named_theorems res_simps \<open>inversion rules of results that may throw\<close>

section \<open>Results that may throw\<close>

text \<open>
  A call that throws returns \<open>Inl\<close> of the error, a call that returns gives \<open>Inr\<close>.
  \<open>bindE\<close> is sequencing: the rest of the function body runs only when the call returned.
  \<open>failIf c e\<close> is the statement \<open>if (c) { throw e; }\<close>.
\<close>

fun bindE :: "'e + 'a \<Rightarrow> ('a \<Rightarrow> 'e + 'b) \<Rightarrow> 'e + 'b" where
  "bindE (Inl e) f = Inl e"
| "bindE (Inr x) f = f x"

definition failIf :: "bool \<Rightarrow> 'e \<Rightarrow> 'e + unit" where
  "failIf c e = (if c then Inl e else Inr ())"

fun mapE :: "('a \<Rightarrow> 'e + 'b) \<Rightarrow> 'a list \<Rightarrow> 'e + 'b list" where
  "mapE f [] = Inr []"
| "mapE f (x # xs) = bindE (f x) (\<lambda>y. bindE (mapE f xs) (\<lambda>ys. Inr (y # ys)))"

fun eachE :: "('a \<Rightarrow> 'e + unit) \<Rightarrow> 'a list \<Rightarrow> 'e + unit" where
  "eachE f [] = Inr ()"
| "eachE f (x # xs) = bindE (f x) (\<lambda>_. eachE f xs)"

lemma bindE_Inr_iff [res_simps]:
  "bindE m f = Inr y \<longleftrightarrow> (\<exists>x. m = Inr x \<and> f x = Inr y)"
  by (cases m) auto

lemma bindE_Inl_iff:
  "bindE m f = Inl e \<longleftrightarrow> m = Inl e \<or> (\<exists>x. m = Inr x \<and> f x = Inl e)"
  by (cases m) auto

lemma failIf_Inr_iff [simp]: "failIf c e = Inr u \<longleftrightarrow> \<not> c"
  by (simp add: failIf_def)

lemma failIf_consts [simp]: "failIf False e = Inr ()" "failIf True e = Inl e"
  by (simp_all add: failIf_def)

lemma failIf_Inl_iff [simp]: "failIf c e = Inl e' \<longleftrightarrow> c \<and> e' = e"
  by (auto simp add: failIf_def)

lemma mapE_Inr_iff [res_simps]:
  "mapE f xs = Inr ys \<longleftrightarrow> list_all2 (\<lambda>x y. f x = Inr y) xs ys"
proof (induction xs arbitrary: ys)
  case Nil
  then show ?case by auto
next
  case (Cons x xs)
  then show ?case by (cases ys) (auto simp: bindE_Inr_iff)
qed

lemma eachE_Inr_iff [res_simps]:
  "eachE f xs = Inr u \<longleftrightarrow> (\<forall>x\<in>set xs. f x = Inr ())"
  by (induction xs) (auto simp: bindE_Inr_iff)

lemma eachE_Inl_iff:
  "eachE f xs = Inl e \<longleftrightarrow>
     (\<exists>pre x post. xs = pre @ x # post \<and> (\<forall>y\<in>set pre. f y = Inr ()) \<and> f x = Inl e)"
proof (induction xs)
  case Nil
  then show ?case by simp
next
  case (Cons a xs)
  show ?case (is "?L \<longleftrightarrow> ?R")
  proof
    assume ?L
    then consider "f a = Inl e" | "f a = Inr ()" "eachE f xs = Inl e"
      by (auto simp: bindE_Inl_iff)
    then show ?R
    proof cases
      case 1
      then show ?thesis by (intro exI[of _ "[]"]) auto
    next
      case 2
      then obtain pre x post where "xs = pre @ x # post" "\<forall>y\<in>set pre. f y = Inr ()" "f x = Inl e"
        using Cons.IH by blast
      with 2 show ?thesis by (intro exI[of _ "a # pre"]) auto
    qed
  next
    assume ?R
    then obtain pre x post where *: "a # xs = pre @ x # post" "\<forall>y\<in>set pre. f y = Inr ()" "f x = Inl e"
      by blast
    show ?L
    proof (cases pre)
      case Nil
      with * show ?thesis by simp
    next
      case (Cons b pre')
      with * have "eachE f xs = Inl e" using Cons.IH by auto
      with * Cons show ?thesis by simp
    qed
  qed
qed

text \<open>\<open>throwsOnly S m\<close>: when \<open>m\<close> throws, it throws an error of \<open>S\<close>.\<close>

definition throwsOnly :: "'e set \<Rightarrow> 'e + 'a \<Rightarrow> bool" where
  "throwsOnly S m \<longleftrightarrow> (\<forall>e. m = Inl e \<longrightarrow> e \<in> S)"

named_theorems throws_intros \<open>errors a computation may throw\<close>

lemma throwsOnly_bind [throws_intros]:
  "throwsOnly S m \<Longrightarrow> (\<And>x. m = Inr x \<Longrightarrow> throwsOnly S (f x)) \<Longrightarrow> throwsOnly S (bindE m f)"
  by (cases m) (auto simp: throwsOnly_def)

lemma throwsOnly_Inr [throws_intros]: "throwsOnly S (Inr x)"
  by (simp add: throwsOnly_def)

lemma throwsOnly_failIf [throws_intros]: "(c \<Longrightarrow> e \<in> S) \<Longrightarrow> throwsOnly S (failIf c e)"
  by (simp add: throwsOnly_def)

lemma throwsOnly_each [throws_intros]:
  "(\<And>x. x \<in> set xs \<Longrightarrow> throwsOnly S (f x)) \<Longrightarrow> throwsOnly S (eachE f xs)"
  by (induction xs) (auto intro: throws_intros)

lemma throwsOnly_mapE [throws_intros]:
  "(\<And>x. x \<in> set xs \<Longrightarrow> throwsOnly S (f x)) \<Longrightarrow> throwsOnly S (mapE f xs)"
  by (induction xs) (auto intro!: throws_intros)

lemma throwsOnly_Inl: "throwsOnly S (Inl e) \<longleftrightarrow> e \<in> S"
  by (simp add: throwsOnly_def)

text \<open>
  Thrown errors: \<open>RangeError\<close>, \<open>TypeError\<close> and \<open>Error\<close> with their message, and the
  deployment planner's \<open>DeploymentPlanError\<close> with its code (its message is prose).
\<close>

datatype js_error = RangeErr string | TypeErr string | Err string | PlanErr string | SyntaxErr string

lemma mapE_cong [fundef_cong]:
  "xs = ys \<Longrightarrow> (\<And>x. x \<in> set ys \<Longrightarrow> f x = g x) \<Longrightarrow> mapE f xs = mapE g ys"
  by (induction ys arbitrary: xs) auto

lemma bindE_cong [fundef_cong]:
  "m = n \<Longrightarrow> (\<And>x. n = Inr x \<Longrightarrow> f x = g x) \<Longrightarrow> bindE m f = bindE n g"
  by (cases n) auto

section \<open>JavaScript values\<close>

text \<open>
  \<open>Plain\<close> objects have the prototype \<open>Object.prototype\<close> or none, \<open>Plain\<close> arrays
  the prototype \<open>Array.prototype\<close>, and both hold own enumerable data properties only
  (arrays: no holes and no extra keys). Everything \<open>JSON.parse\<close> builds is \<open>Plain\<close>.
  \<open>ForeignProto\<close> has another prototype. \<open>Irregular\<close> has an own accessor, hidden or
  symbol property, or is an array with a hole or an extra key. (An object that is both
  counts as \<open>ForeignProto\<close>, an array that is both as \<open>Irregular\<close>.) The list of an
  object holds, in insertion order and with distinct keys, what \<open>Object.keys\<close> and
  property reads see.
  \<open>JNum\<close> is a number with an integral value, \<open>JFrac\<close> every other number
  (fractions, \<open>NaN\<close>, infinities) with its text, \<open>JOther\<close> a function, symbol or bigint.
\<close>

datatype shape = Plain | ForeignProto | Irregular

datatype jsval =
    JUndef
  | JNull
  | JBool bool
  | JNum int
  | JFrac string
  | JStr string
  | JArr shape "jsval list"
  | JObj shape "(string \<times> jsval) list"
  | JOther

type_synonym jsrecord = "(string \<times> jsval) list"

text \<open>Property read: \<open>undefined\<close> for an absent key.\<close>

definition getP :: "jsrecord \<Rightarrow> string \<Rightarrow> jsval" where
  "getP r k = (case map_of r k of None \<Rightarrow> JUndef | Some v \<Rightarrow> v)"

definition hasKey :: "jsrecord \<Rightarrow> string \<Rightarrow> bool" where
  "hasKey r k = (k \<in> set (map fst r))"

text \<open>\<open>value !== null && typeof value === "object" && !Array.isArray(value)\<close>.\<close>

fun asRecord :: "jsval \<Rightarrow> jsrecord option" where
  "asRecord (JObj _ r) = Some r"
| "asRecord _ = None"

fun asString :: "jsval \<Rightarrow> string option" where
  "asString (JStr s) = Some s"
| "asString _ = None"

text \<open>A TypeScript cast to \<open>string\<close> of a value that a check has found to be one.\<close>

fun theStr :: "jsval \<Rightarrow> string" where
  "theStr (JStr s) = s"
| "theStr _ = []"

fun theArr :: "jsval \<Rightarrow> jsval list" where
  "theArr (JArr _ xs) = xs"
| "theArr _ = []"

fun theObj :: "jsval \<Rightarrow> jsrecord" where
  "theObj (JObj _ r) = r"
| "theObj _ = []"

fun isInteger :: "jsval \<Rightarrow> bool" where
  "isInteger (JNum _) = True"
| "isInteger _ = False"

definition MAX_SAFE_INTEGER :: int where
  "MAX_SAFE_INTEGER = 2 ^ 53 - 1"

fun isSafeInteger :: "jsval \<Rightarrow> bool" where
  "isSafeInteger (JNum n) = (\<bar>n\<bar> \<le> MAX_SAFE_INTEGER)"
| "isSafeInteger _ = False"

lemma asRecord_Some_iff [simp]: "asRecord v = Some r \<longleftrightarrow> (\<exists>s. v = JObj s r)"
  by (cases v) auto

lemma asString_Some_iff [simp]: "asString v = Some s \<longleftrightarrow> v = JStr s"
  by (cases v) auto

lemma getP_Cons [js_simps]: "getP ((k, v) # r) k' = (if k = k' then v else getP r k')"
  by (simp add: getP_def)

lemma getP_Nil [js_simps]: "getP [] k = JUndef"
  by (simp add: getP_def)

lemma hasKey_Cons [js_simps]: "hasKey ((k, v) # r) k' \<longleftrightarrow> k = k' \<or> hasKey r k'"
  by (auto simp: hasKey_def)

lemma hasKey_Nil [js_simps]: "\<not> hasKey [] k"
  by (simp add: hasKey_def)

text \<open>Children of a value are smaller: for recursion over values.\<close>

lemma size_snd_less: "kv \<in> set r \<Longrightarrow> size (snd kv) < Suc (size_list (size_prod (\<lambda>_. 0) size) r)"
  by (induction r) auto

lemma size_pair_less: "(k, v) \<in> set r \<Longrightarrow> size v < Suc (size_list (size_prod (\<lambda>_. 0) size) r)"
  by (auto dest: size_snd_less)

lemma size_elem_less: "x \<in> set xs \<Longrightarrow> size x < Suc (size_list size xs)"
  by (induction xs) auto

section \<open>Character classes\<close>

definition isDigit :: "char \<Rightarrow> bool" where
  "isDigit c \<longleftrightarrow> CHR ''0'' \<le> c \<and> c \<le> CHR ''9''"

definition isLower :: "char \<Rightarrow> bool" where
  "isLower c \<longleftrightarrow> CHR ''a'' \<le> c \<and> c \<le> CHR ''z''"

definition isUpper :: "char \<Rightarrow> bool" where
  "isUpper c \<longleftrightarrow> CHR ''A'' \<le> c \<and> c \<le> CHR ''Z''"

definition isHexLower :: "char \<Rightarrow> bool" where
  "isHexLower c \<longleftrightarrow> isDigit c \<or> CHR ''a'' \<le> c \<and> c \<le> CHR ''f''"

definition isHex :: "char \<Rightarrow> bool" where
  "isHex c \<longleftrightarrow> isHexLower c \<or> CHR ''A'' \<le> c \<and> c \<le> CHR ''F''"

text \<open>\<open>/^0x[0-9a-f]{n}$/\<close>\<close>

definition matchesHex :: "nat \<Rightarrow> string \<Rightarrow> bool" where
  "matchesHex n s \<longleftrightarrow> length s = n + 2 \<and> take 2 s = ''0x'' \<and> list_all isHexLower (drop 2 s)"

text \<open>\<open>/^0x0{n}$/\<close>\<close>

definition zeroHex :: "nat \<Rightarrow> string" where
  "zeroHex n = ''0x'' @ replicate n (CHR ''0'')"

text \<open>\<open>String.prototype.trim\<close>, on the white space below code unit 256.\<close>

definition isSpace :: "char \<Rightarrow> bool" where
  "isSpace c \<longleftrightarrow> c \<in> {CHR 0x09, CHR 0x0A, CHR 0x0B, CHR 0x0C, CHR 0x0D, CHR 0x20, CHR 0xA0}"

definition trim :: "string \<Rightarrow> string" where
  "trim s = rev (dropWhile isSpace (rev (dropWhile isSpace s)))"

section \<open>The language's Map\<close>

text \<open>
  \<open>Map\<close> keeps insertion order; setting a present key keeps its place. Look-up is
  \<open>map_of\<close>.
\<close>

fun mapSet :: "'k \<Rightarrow> 'v \<Rightarrow> ('k \<times> 'v) list \<Rightarrow> ('k \<times> 'v) list" where
  "mapSet k v [] = [(k, v)]"
| "mapSet k v ((k', v') # m) = (if k' = k then (k, v) # m else (k', v') # mapSet k v m)"

lemma map_of_mapSet [simp]: "map_of (mapSet k v m) = (map_of m)(k \<mapsto> v)"
  by (induction k v m rule: mapSet.induct) auto

lemma keys_mapSet [simp]: "set (map fst (mapSet k v m)) = insert k (set (map fst m))"
  by (induction k v m rule: mapSet.induct) auto

lemma distinct_mapSet [simp]: "distinct (map fst m) \<Longrightarrow> distinct (map fst (mapSet k v m))"
  by (induction k v m rule: mapSet.induct) (auto dest: arg_cong[where f = "\<lambda>X. _ \<in> X"],
      metis fst_conv image_eqI insert_iff keys_mapSet list.set_map)

lemma set_mapSet:
  "distinct (map fst m) \<Longrightarrow> set (mapSet k v m) = insert (k, v) {x \<in> set m. fst x \<noteq> k}"
  by (induction k v m rule: mapSet.induct) (auto simp: image_iff)

section \<open>Sets of a list\<close>

text \<open>\<open>new Set(xs).size\<close>\<close>

definition setSize :: "'a list \<Rightarrow> nat" where
  "setSize xs = length (remdups xs)"

lemma setSize_eq_length_iff [simp]: "setSize xs = length xs \<longleftrightarrow> distinct xs"
  by (simp add: setSize_def)

lemma setSize_card: "setSize xs = card (set xs)"
  by (simp add: setSize_def length_remdups_card_conv)

end
