(* ===== verification/Supply.thy ===== *)
theory Supply
  imports Prelude
begin

text \<open>
  \<open>packages/domain/src/supply.ts\<close>: reconciliation of the fixed supply with what is locked
  on Ethereum, circulating on Solana and in flight between the two. All amounts are
  bigints, so no width bounds them.
\<close>

record supplySnapshot =
  fixedSupply :: int
  lockedOnEthereum :: int
  supplyOnSolana :: int
  pendingEthereumToSolana :: int
  pendingSolanaToEthereum :: int

datatype backingStatus = UnderBacked | Exact | Surplus

record supplyReconciliation =
  adjustedGlobalSupply :: int
  backingSurplus :: int
  backingStatusOf :: backingStatus

definition assertNonNegative :: "string \<Rightarrow> int \<Rightarrow> js_error + unit" where
  "assertNonNegative label value = failIf (value < 0) (RangeErr (label @ '' must not be negative''))"

text \<open>The named fields in the order the loop visits them.\<close>

definition snapshotFields :: "supplySnapshot \<Rightarrow> (string \<times> int) list" where
  "snapshotFields s =
     [(''fixedSupply'', fixedSupply s), (''lockedOnEthereum'', lockedOnEthereum s),
      (''supplyOnSolana'', supplyOnSolana s),
      (''pendingEthereumToSolana'', pendingEthereumToSolana s),
      (''pendingSolanaToEthereum'', pendingSolanaToEthereum s)]"

definition statusOfSurplus :: "int \<Rightarrow> backingStatus" where
  "statusOfSurplus n = (if n < 0 then UnderBacked else if n > 0 then Surplus else Exact)"

definition reconcileSupply :: "supplySnapshot \<Rightarrow> js_error + supplyReconciliation" where
  "reconcileSupply snapshot =
     bindE (eachE (\<lambda>(label, value). assertNonNegative label value) (snapshotFields snapshot)) (\<lambda>_.
       let pending = pendingEthereumToSolana snapshot + pendingSolanaToEthereum snapshot;
           surplus = lockedOnEthereum snapshot - supplyOnSolana snapshot - pending;
           adjusted = fixedSupply snapshot - lockedOnEthereum snapshot + supplyOnSolana snapshot + pending
       in Inr \<lparr>adjustedGlobalSupply = adjusted, backingSurplus = surplus,
               backingStatusOf = statusOfSurplus surplus\<rparr>)"

definition snapshotNonNegative :: "supplySnapshot \<Rightarrow> bool" where
  "snapshotNonNegative s \<longleftrightarrow> 0 \<le> fixedSupply s \<and> 0 \<le> lockedOnEthereum s \<and> 0 \<le> supplyOnSolana s
     \<and> 0 \<le> pendingEthereumToSolana s \<and> 0 \<le> pendingSolanaToEthereum s"

lemma fields_nonneg:
  "eachE (\<lambda>(label, value). assertNonNegative label value) (snapshotFields s) = Inr u
     \<longleftrightarrow> snapshotNonNegative s"
  by (simp add: res_simps snapshotFields_def snapshotNonNegative_def assertNonNegative_def not_less)

lemma reconcileSupply_Inr_iff:
  "reconcileSupply s = Inr r \<longleftrightarrow> snapshotNonNegative s \<and>
     r = \<lparr>adjustedGlobalSupply = fixedSupply s - lockedOnEthereum s + supplyOnSolana s
            + (pendingEthereumToSolana s + pendingSolanaToEthereum s),
          backingSurplus = lockedOnEthereum s - supplyOnSolana s
            - (pendingEthereumToSolana s + pendingSolanaToEthereum s),
          backingStatusOf = statusOfSurplus (lockedOnEthereum s - supplyOnSolana s
            - (pendingEthereumToSolana s + pendingSolanaToEthereum s))\<rparr>"
  by (auto simp: reconcileSupply_def bindE_Inr_iff fields_nonneg Let_def)

lemma reconcileSupply_Inl_iff:
  "reconcileSupply s = Inl e \<longleftrightarrow>
     (\<exists>pre label v post. snapshotFields s = pre @ (label, v) # post \<and> (\<forall>(_, w)\<in>set pre. 0 \<le> w)
        \<and> v < 0 \<and> e = RangeErr (label @ '' must not be negative''))"
proof -
  have "reconcileSupply s = Inl e \<longleftrightarrow>
      eachE (\<lambda>(label, value). assertNonNegative label value) (snapshotFields s) = Inl e"
    by (auto simp: reconcileSupply_def bindE_Inl_iff Let_def)
  also have "\<dots> \<longleftrightarrow> (\<exists>pre label v post. snapshotFields s = pre @ (label, v) # post
        \<and> (\<forall>(_, w)\<in>set pre. 0 \<le> w) \<and> v < 0 \<and> e = RangeErr (label @ '' must not be negative''))"
    by (simp add: eachE_Inl_iff assertNonNegative_def split_def not_less)
  finally show ?thesis .
qed

text \<open>
  Accounting identity: a snapshot with a negative amount is refused, the error naming the
  first negative field; otherwise the adjusted global supply and the backing surplus add up to
  the fixed supply, and the status says whether the tokens in circulation exceed, equal or stay
  below it.
\<close>

lemma reconcileSupply_identity:
  "case reconcileSupply s of
     Inl e \<Rightarrow> \<exists>pre label v post. snapshotFields s = pre @ (label, v) # post
       \<and> list_all (\<lambda>(_, w). 0 \<le> w) pre \<and> v < 0 \<and> e = RangeErr (label @ '' must not be negative'')
   | Inr r \<Rightarrow> snapshotNonNegative s
       \<and> adjustedGlobalSupply r + backingSurplus r = fixedSupply s
       \<and> (backingStatusOf r = UnderBacked \<longleftrightarrow> fixedSupply s < adjustedGlobalSupply r)
       \<and> (backingStatusOf r = Exact \<longleftrightarrow> adjustedGlobalSupply r = fixedSupply s)
       \<and> (backingStatusOf r = Surplus \<longleftrightarrow> adjustedGlobalSupply r < fixedSupply s)"
proof (cases "reconcileSupply s")
  case (Inl e)
  with iffD1[OF reconcileSupply_Inl_iff Inl] show ?thesis by (simp only: sum.case list_all_iff)
next
  case (Inr r)
  then have "snapshotNonNegative s \<and> backingStatusOf r = statusOfSurplus (backingSurplus r)
      \<and> adjustedGlobalSupply r + backingSurplus r = fixedSupply s"
    by (simp add: reconcileSupply_Inr_iff)
  with Inr show ?thesis by (auto simp: statusOfSurplus_def)
qed

section \<open>The bridge's life cycle as a specification\<close>

text \<open>
  What each of the four events of a transfer does to a snapshot that accounts for it: a lock
  or burn moves the amount into the pending column of its direction, a mint or release takes
  it out again.
\<close>

datatype bridgeMove = LockMove int | MintMove int | BurnMove int | ReleaseMove int

fun bridgeStep :: "bridgeMove \<Rightarrow> supplySnapshot \<Rightarrow> supplySnapshot" where
  "bridgeStep (LockMove a) s = s\<lparr>lockedOnEthereum := lockedOnEthereum s + a,
     pendingEthereumToSolana := pendingEthereumToSolana s + a\<rparr>"
| "bridgeStep (MintMove a) s = s\<lparr>supplyOnSolana := supplyOnSolana s + a,
     pendingEthereumToSolana := pendingEthereumToSolana s - a\<rparr>"
| "bridgeStep (BurnMove a) s = s\<lparr>supplyOnSolana := supplyOnSolana s - a,
     pendingSolanaToEthereum := pendingSolanaToEthereum s + a\<rparr>"
| "bridgeStep (ReleaseMove a) s = s\<lparr>lockedOnEthereum := lockedOnEthereum s - a,
     pendingSolanaToEthereum := pendingSolanaToEthereum s - a\<rparr>"

definition surplusOf :: "supplySnapshot \<Rightarrow> int" where
  "surplusOf s = lockedOnEthereum s - supplyOnSolana s
     - (pendingEthereumToSolana s + pendingSolanaToEthereum s)"

lemma bridgeStep_fixed [simp]: "fixedSupply (bridgeStep m s) = fixedSupply s"
  by (cases m) auto

lemma bridgeStep_surplus [simp]: "surplusOf (bridgeStep m s) = surplusOf s"
  by (cases m) (auto simp: surplusOf_def)

lemma bridgeRun_frame:
  "fixedSupply (fold bridgeStep ms s) = fixedSupply s \<and> surplusOf (fold bridgeStep ms s) = surplusOf s"
  by (induction ms arbitrary: s) auto

lemma reconcile_by_surplus:
  "reconcileSupply s = Inr r \<Longrightarrow> adjustedGlobalSupply r = fixedSupply s - surplusOf s
     \<and> backingSurplus r = surplusOf s \<and> backingStatusOf r = statusOfSurplus (surplusOf s)"
  by (auto simp: reconcileSupply_Inr_iff surplusOf_def)

text \<open>
  C13. Conservation: whatever transfers are locked, minted, burned and released in between, two
  reconciliations of the same bridge report the same adjusted supply, surplus and status.
\<close>

theorem reconcileSupply_conserved:
  assumes "reconcileSupply s = Inr r" and "reconcileSupply (fold bridgeStep ms s) = Inr r'"
  shows "r' = r"
  using reconcile_by_surplus[OF assms(1)] reconcile_by_surplus[OF assms(2)] bridgeRun_frame[of ms s]
  by simp

theorem reconcileSupply_conserved_witness:
  "\<exists>r. reconcileSupply \<lparr>fixedSupply = 100, lockedOnEthereum = 10, supplyOnSolana = 10,
          pendingEthereumToSolana = 0, pendingSolanaToEthereum = 0\<rparr> = Inr r \<and>
       reconcileSupply (fold bridgeStep [LockMove 5, MintMove 5, BurnMove 3]
        \<lparr>fixedSupply = 100, lockedOnEthereum = 10, supplyOnSolana = 10,
          pendingEthereumToSolana = 0, pendingSolanaToEthereum = 0\<rparr>) = Inr r"
proof -
  let ?s = "\<lparr>fixedSupply = 100, lockedOnEthereum = 10, supplyOnSolana = 10,
          pendingEthereumToSolana = 0, pendingSolanaToEthereum = 0\<rparr> :: supplySnapshot"
  obtain r where r: "reconcileSupply ?s = Inr r"
    by (simp add: reconcileSupply_Inr_iff snapshotNonNegative_def)
  obtain r' where r': "reconcileSupply (fold bridgeStep [LockMove 5, MintMove 5, BurnMove 3] ?s) = Inr r'"
    by (simp add: reconcileSupply_Inr_iff snapshotNonNegative_def)
  have "r' = r" by (rule reconcileSupply_conserved[OF r r'])
  with r r' show ?thesis by blast
qed

end
