(* ===== verification/Decimal.thy ===== *)
theory Decimal
  imports Prelude
begin

text \<open>
  Decimal text of a bigint: \<open>String(n)\<close> and the canonical form the code accepts,
  \<open>/^(0|[1-9][0-9]*)$/\<close>, with the interface \<open>decimal_codec\<close> that every decimal
  reader of the code provides to its callers.
\<close>

definition digitChar :: "nat \<Rightarrow> char" where
  "digitChar d = char_of (48 + d)"

definition digitVal :: "char \<Rightarrow> nat" where
  "digitVal c = of_char c - 48"

fun dec :: "nat \<Rightarrow> string" where
  "dec n = (if n < 10 then [digitChar n] else dec (n div 10) @ [digitChar (n mod 10)])"

declare dec.simps [simp del]

definition undec :: "string \<Rightarrow> nat" where
  "undec s = foldl (\<lambda>a c. 10 * a + digitVal c) 0 s"

definition decInt :: "int \<Rightarrow> string" where
  "decInt i = (if i < 0 then CHR ''-'' # dec (nat (- i)) else dec (nat i))"

definition canonicalDec :: "string \<Rightarrow> bool" where
  "canonicalDec s \<longleftrightarrow>
     s = ''0'' \<or> (s \<noteq> [] \<and> isDigit (hd s) \<and> hd s \<noteq> CHR ''0'' \<and> list_all isDigit (tl s))"

lemma isDigit_iff: "isDigit c \<longleftrightarrow> 48 \<le> (of_char c :: nat) \<and> (of_char c :: nat) \<le> 57"
  by (simp add: isDigit_def less_eq_char_def)

lemma digit_roundtrip [simp]: "isDigit c \<Longrightarrow> digitChar (digitVal c) = c"
  by (auto simp: isDigit_iff digitChar_def digitVal_def)

lemma char_of_48 [simp]: "char_of (48::nat) = CHR ''0''"
  by code_simp

lemma digitChar_numerals:
  "digitChar 0 = CHR ''0''" "digitChar (Suc 0) = CHR ''1''" "digitChar 1 = CHR ''1''" "digitChar 2 = CHR ''2''"
  "digitChar 3 = CHR ''3''" "digitChar 4 = CHR ''4''" "digitChar 5 = CHR ''5''" "digitChar 6 = CHR ''6''"
  "digitChar 7 = CHR ''7''" "digitChar 8 = CHR ''8''" "digitChar 9 = CHR ''9''"
  by code_simp+

lemma of_char_digitChar: "d < 10 \<Longrightarrow> (of_char (digitChar d) :: nat) = 48 + d"
  by (simp add: digitChar_def of_char_of)

lemma digitVal_digitChar [simp]: "d < 10 \<Longrightarrow> digitVal (digitChar d) = d"
  by (simp add: digitVal_def of_char_digitChar)

lemma isDigit_digitChar [simp]: "d < 10 \<Longrightarrow> isDigit (digitChar d)"
  by (simp add: isDigit_iff of_char_digitChar)

lemma digitVal_less [simp]: "isDigit c \<Longrightarrow> digitVal c < 10"
  by (auto simp: isDigit_iff digitVal_def)

lemma digitVal_zero_iff: "isDigit c \<Longrightarrow> digitVal c = 0 \<longleftrightarrow> c = CHR ''0''"
  using digit_roundtrip[of c] by (auto simp: digitChar_def digitVal_def)

lemma digitChar_zero_iff: "d < 10 \<Longrightarrow> digitChar d = CHR ''0'' \<longleftrightarrow> d = 0"
  by (metis digitVal_digitChar digitVal_zero_iff isDigit_digitChar)

lemma dec_nonempty [simp]: "dec n \<noteq> []"
  by (subst dec.simps) simp

lemma dec_digits: "list_all isDigit (dec n)"
proof (induction n rule: dec.induct)
  case (1 n)
  then show ?case by (cases "n < 10") (auto simp: dec.simps[of n])
qed

lemma undec_snoc [simp]: "undec (s @ [c]) = 10 * undec s + digitVal c"
  by (simp add: undec_def)

lemma undec_Nil [simp]: "undec [] = 0"
  by (simp add: undec_def)

lemma undec_dec [simp]: "undec (dec n) = n"
proof (induction n rule: dec.induct)
  case (1 n)
  then show ?case
  proof (cases "n < 10")
    case True
    then show ?thesis by (simp add: dec.simps[of n] undec_def)
  next
    case False
    with 1 show ?thesis by (simp add: dec.simps[of n])
  qed
qed

lemma dec_inj [simp]: "dec m = dec n \<longleftrightarrow> m = n"
  by (metis undec_dec)

lemma hd_dec: "0 < n \<Longrightarrow> hd (dec n) \<noteq> CHR ''0''"
proof (induction n rule: dec.induct)
  case (1 n)
  then show ?case
    by (cases "n < 10") (auto simp: dec.simps[of n] digitChar_zero_iff hd_append)
qed

lemma dec_0: "dec 0 = ''0''"
  by (simp add: dec.simps digitChar_def)

lemma canonicalDec_dec [simp]: "canonicalDec (dec n)"
proof (cases "n = 0")
  case True
  then show ?thesis by (simp add: canonicalDec_def dec_0)
next
  case False
  have "isDigit (hd (dec n))" "list_all isDigit (tl (dec n))"
    using dec_digits[of n] by (cases "dec n"; simp)+
  with False show ?thesis by (simp add: canonicalDec_def hd_dec)
qed

lemma undec_pos: "list_all isDigit s \<Longrightarrow> s \<noteq> [] \<Longrightarrow> hd s \<noteq> CHR ''0'' \<Longrightarrow> 0 < undec s"
proof (induction s rule: rev_induct)
  case Nil
  then show ?case by simp
next
  case (snoc c s)
  then show ?case
    by (cases "s = []") (auto simp: undec_def digitVal_zero_iff, metis digitVal_zero_iff neq0_conv)
qed

lemma dec_undec_digits:
  "list_all isDigit s \<Longrightarrow> s \<noteq> [] \<Longrightarrow> hd s \<noteq> CHR ''0'' \<Longrightarrow> dec (undec s) = s"
proof (induction s rule: rev_induct)
  case Nil
  then show ?case by simp
next
  case (snoc c s)
  show ?case
  proof (cases "s = []")
    case True
    with snoc.prems show ?thesis by (simp add: undec_def dec.simps)
  next
    case False
    with snoc have IH: "dec (undec s) = s" and pos: "0 < undec s"
      by (auto intro: undec_pos)
    from snoc.prems have c: "isDigit c" "digitVal c < 10" by auto
    have "(10 * undec s + digitVal c) div 10 = undec s"
      and "(10 * undec s + digitVal c) mod 10 = digitVal c"
      using c(2) by simp_all
    with IH pos c show ?thesis
      by (simp add: dec.simps[of "10 * undec s + digitVal c"])
  qed
qed

lemma dec_undec [simp]:
  assumes "canonicalDec s"
  shows "dec (undec s) = s"
proof (cases "s = ''0''")
  case True
  then show ?thesis by (simp add: undec_def digitVal_def dec_0)
next
  case False
  with assms have "list_all isDigit s \<and> s \<noteq> [] \<and> hd s \<noteq> CHR ''0''"
    by (cases s) (auto simp: canonicalDec_def)
  then show ?thesis by (simp add: dec_undec_digits)
qed

lemma canonicalDec_iff: "canonicalDec s \<longleftrightarrow> (\<exists>n. s = dec n)"
  by (metis canonicalDec_dec dec_undec)

lemma length_dec_le: "n < 10 ^ k \<Longrightarrow> 0 < k \<Longrightarrow> length (dec n) \<le> k"
proof (induction n arbitrary: k rule: dec.induct)
  case (1 n)
  show ?case
  proof (cases "n < 10")
    case True
    with 1 show ?thesis by (simp add: dec.simps[of n])
  next
    case False
    with "1.prems" obtain j where k: "k = Suc j" "0 < j"
      by (cases k; cases "k - 1") (auto simp: not_less)
    with "1.prems" have "n div 10 < 10 ^ j" by (auto simp: less_mult_imp_div_less mult.commute)
    with False k "1.IH"[of j] show ?thesis by (simp add: dec.simps[of n])
  qed
qed

section \<open>The interface of a decimal reader\<close>

text \<open>
  What the callers of \<open>parseCanonicalUint\<close> and \<open>parseUint\<close> rely on: the reader
  accepts exactly the decimal text of the numbers up to its bound.
\<close>

locale decimal_codec =
  fixes read :: "string \<Rightarrow> int option" and bound :: int
  assumes read_decInt: "0 \<le> n \<Longrightarrow> n \<le> bound \<Longrightarrow> read (decInt n) = Some n"
    and read_Some: "read s = Some n \<Longrightarrow> 0 \<le> n \<and> n \<le> bound \<and> s = decInt n"
begin

lemma read_nonneg: "read s = Some n \<Longrightarrow> 0 \<le> n"
  by (auto dest: read_Some)

lemma read_bound: "read s = Some n \<Longrightarrow> n \<le> bound"
  by (auto dest: read_Some)

lemma read_text: "read s = Some n \<Longrightarrow> decInt n = s"
  by (auto dest: read_Some)

lemma read_inj: "read s = Some n \<Longrightarrow> read t = Some n \<Longrightarrow> s = t"
  by (auto dest: read_Some)

lemma read_iff: "read s = Some n \<longleftrightarrow> 0 \<le> n \<and> n \<le> bound \<and> s = decInt n"
  using read_decInt read_Some by blast

end

lemma decInt_inj_nonneg: "0 \<le> m \<Longrightarrow> 0 \<le> n \<Longrightarrow> decInt m = decInt n \<longleftrightarrow> m = n"
  by (auto simp: decInt_def)

lemma canonicalDec_decInt [simp]: "0 \<le> n \<Longrightarrow> canonicalDec (decInt n)"
  by (simp add: decInt_def)

lemma undec_decInt [simp]: "0 \<le> n \<Longrightarrow> undec (decInt n) = nat n"
  by (simp add: decInt_def)

lemma decInt_undec [simp]: "canonicalDec s \<Longrightarrow> decInt (int (undec s)) = s"
  by (simp add: decInt_def)

lemma length_decInt_le: "0 \<le> n \<Longrightarrow> n < 10 ^ k \<Longrightarrow> 0 < k \<Longrightarrow> length (decInt n) \<le> k"
  using length_dec_le[of "nat n" k] by (simp add: decInt_def nat_less_iff)

text \<open>Evaluation of decimal texts of large numerals.\<close>

lemmas dec_eval = decInt_def dec.simps digitChar_numerals

end
