(* ===== verification/JsSort.thy ===== *)
theory JsSort
  imports Prelude
begin

text \<open>
  The language's stable sort (\<open>toSorted\<close> with a comparator) and the interface a
  comparator owes it. The laws are stated once as a locale; every comparator the code
  passes is shown to satisfy them where it is defined.
\<close>

fun insertBy :: "('a \<Rightarrow> 'a \<Rightarrow> int) \<Rightarrow> 'a \<Rightarrow> 'a list \<Rightarrow> 'a list" where
  "insertBy cmp x [] = [x]"
| "insertBy cmp x (y # ys) = (if cmp x y \<le> 0 then x # y # ys else y # insertBy cmp x ys)"

fun toSorted :: "('a \<Rightarrow> 'a \<Rightarrow> int) \<Rightarrow> 'a list \<Rightarrow> 'a list" where
  "toSorted cmp [] = []"
| "toSorted cmp (x # xs) = insertBy cmp x (toSorted cmp xs)"

text \<open>\<open>left < right ? -1 : left > right ? 1 : 0\<close>\<close>

definition compareText :: "'a::linorder \<Rightarrow> 'a \<Rightarrow> int" where
  "compareText left right = (if left < right then -1 else if left > right then 1 else 0)"

text \<open>\<open>toSorted()\<close> without a comparator on strings: code unit order.\<close>

abbreviation sortText :: "string list \<Rightarrow> string list" where
  "sortText \<equiv> toSorted compareText"

lemma mset_insertBy [simp]: "mset (insertBy cmp x xs) = add_mset x (mset xs)"
  by (induction xs) auto

lemma mset_toSorted [simp]: "mset (toSorted cmp xs) = mset xs"
  by (induction xs) auto

lemma set_insertBy [simp]: "set (insertBy cmp x xs) = insert x (set xs)"
  by (induction xs) auto

lemma set_toSorted [simp]: "set (toSorted cmp xs) = set xs"
  by (induction xs) auto

lemma length_toSorted [simp]: "length (toSorted cmp xs) = length xs"
  by (metis mset_toSorted size_mset)

lemma distinct_toSorted [simp]: "distinct (toSorted cmp xs) = distinct xs"
  by (metis distinct_count_atmost_1 mset_toSorted set_mset_mset)

lemma toSorted_eq_Nil [simp]: "toSorted cmp xs = [] \<longleftrightarrow> xs = []"
  by (metis length_0_conv length_toSorted)

section \<open>The interface of a comparator\<close>

definition below :: "('a \<Rightarrow> 'a \<Rightarrow> int) \<Rightarrow> 'a \<Rightarrow> 'a \<Rightarrow> bool" where
  "below cmp x y \<longleftrightarrow> cmp x y \<le> 0"

locale comparator =
  fixes cmp :: "'a \<Rightarrow> 'a \<Rightarrow> int"
  assumes cmp_total: "0 < cmp x y \<Longrightarrow> cmp y x \<le> 0"
    and cmp_trans: "cmp x y \<le> 0 \<Longrightarrow> cmp y z \<le> 0 \<Longrightarrow> cmp x z \<le> 0"
begin

lemma below_trans: "below cmp x y \<Longrightarrow> below cmp y z \<Longrightarrow> below cmp x z"
  unfolding below_def by (rule cmp_trans)

lemma not_below: "\<not> below cmp x y \<Longrightarrow> below cmp y x"
  unfolding below_def using cmp_total by force

lemma sorted_insertBy:
  "sorted_wrt (below cmp) ys \<Longrightarrow> sorted_wrt (below cmp) (insertBy cmp x ys)"
proof (induction ys)
  case Nil
  then show ?case by simp
next
  case (Cons y ys)
  show ?case
  proof (cases "below cmp x y")
    case True
    with Cons.prems show ?thesis by (auto simp: below_def intro: cmp_trans)
  next
    case False
    then have "below cmp y x" by (rule not_below)
    with False Cons show ?thesis by (auto simp: below_def)
  qed
qed

lemma sorted_toSorted: "sorted_wrt (below cmp) (toSorted cmp xs)"
  by (induction xs) (auto intro: sorted_insertBy)

text \<open>Two orders of the same distinct keys sort to the same list.\<close>

lemma sorted_unique:
  assumes "mset xs = mset ys" "sorted_wrt (below cmp) xs" "sorted_wrt (below cmp) ys"
    and "\<And>x y. x \<in> set xs \<Longrightarrow> y \<in> set xs \<Longrightarrow> below cmp x y \<Longrightarrow> below cmp y x \<Longrightarrow> x = y"
  shows "xs = ys"
  using assms
proof (induction xs arbitrary: ys)
  case Nil
  then show ?case by simp
next
  case (Cons x xs ys')
  then obtain y ys where ys': "ys' = y # ys" by (cases ys') auto
  have sets: "set ys' = set (x # xs)"
    using Cons.prems(1) by (metis set_mset_mset)
  have "x = y"
  proof (rule ccontr)
    assume ne: "x \<noteq> y"
    from sets ys' have yin: "y \<in> set (x # xs)" by auto
    with ne Cons.prems(2) have "below cmp x y" by simp
    moreover from sets ys' ne have "x \<in> set ys" by auto
    with Cons.prems(3) ys' have "below cmp y x" by simp
    ultimately show False using ne yin Cons.prems(4)[of x y] by simp
  qed
  moreover have "xs = ys"
  proof (rule Cons.IH)
    show "mset xs = mset ys" using Cons.prems(1) ys' \<open>x = y\<close> by simp
    show "sorted_wrt (below cmp) xs" "sorted_wrt (below cmp) ys"
      using Cons.prems(2,3) ys' by simp_all
  qed (use Cons.prems(4) in simp)
  ultimately show ?case using ys' by simp
qed

lemma toSorted_perm:
  assumes "mset xs = mset ys"
    and "\<And>x y. x \<in> set xs \<Longrightarrow> y \<in> set xs \<Longrightarrow> below cmp x y \<Longrightarrow> below cmp y x \<Longrightarrow> x = y"
  shows "toSorted cmp xs = toSorted cmp ys"
  using assms by (intro sorted_unique sorted_toSorted) simp_all

lemma insertBy_is_Cons: "\<forall>y\<in>set ys. below cmp x y \<Longrightarrow> insertBy cmp x ys = x # ys"
  by (cases ys) (auto simp: below_def)

lemma toSorted_sorted: "sorted_wrt (below cmp) xs \<Longrightarrow> toSorted cmp xs = xs"
  by (induction xs) (auto simp: insertBy_is_Cons)

lemma toSorted_idem [simp]: "toSorted cmp (toSorted cmp xs) = toSorted cmp xs"
  by (rule toSorted_sorted) (rule sorted_toSorted)

end

interpretation text_order: comparator "compareText :: 'a::linorder \<Rightarrow> 'a \<Rightarrow> int"
  by unfold_locales (auto simp: compareText_def split: if_splits)

lemma below_compareText [simp]: "below compareText x y \<longleftrightarrow> x \<le> y"
  by (auto simp: below_def compareText_def)

lemma sortText_perm: "mset xs = mset ys \<Longrightarrow> toSorted compareText xs = toSorted compareText ys"
  by (rule text_order.toSorted_perm) auto

lemma sortText_eq_iff:
  "toSorted compareText xs = toSorted compareText ys \<longleftrightarrow> mset xs = mset ys"
  by (metis mset_toSorted sortText_perm)

lemma sorted_sortText: "sorted (toSorted compareText xs)"
  using text_order.sorted_toSorted[of xs] by (simp add: sorted_wrt_iff_nth_less sorted_iff_nth_mono_less)

text \<open>Comparators derived from a key.\<close>

definition compareKey :: "('a \<Rightarrow> 'k::linorder) \<Rightarrow> 'a \<Rightarrow> 'a \<Rightarrow> int" where
  "compareKey f x y = compareText (f x) (f y)"

interpretation key_order: comparator "compareKey f" for f :: "'a \<Rightarrow> 'k::linorder"
  by unfold_locales (auto simp: compareKey_def compareText_def split: if_splits)

lemma below_compareKey [simp]: "below (compareKey f) x y \<longleftrightarrow> f x \<le> f y"
  by (auto simp: below_def compareKey_def compareText_def)

lemma compareKey_perm:
  "mset xs = mset ys \<Longrightarrow> inj_on f (set xs) \<Longrightarrow>
   toSorted (compareKey f) xs = toSorted (compareKey f) ys"
  by (rule key_order.toSorted_perm) (auto dest: inj_onD)

lemma map_toSorted_compareKey:
  "map f (toSorted (compareKey f) xs) = toSorted compareText (map f xs)"
proof -
  have "map f (insertBy (compareKey f) x ys) = insertBy compareText (f x) (map f ys)" for x ys
    by (induction ys) (auto simp: compareKey_def)
  then show ?thesis by (induction xs) auto
qed

end
