(* ===== verification/JsonText.thy ===== *)
theory JsonText
  imports Decimal JsSort
begin

text \<open>
  \<open>JSON.stringify\<close> on JSON values, and the fact every digest and every comparison of
  serialised values in the code rests on: the text determines the value. Then
  \<open>canonicalJson\<close> of the genesis-manifest feature (\<open>application/canonical.ts\<close>),
  whose text determines the value up to the order of object keys.
\<close>

section \<open>String literals\<close>

definition hexDigit :: "nat \<Rightarrow> char" where
  "hexDigit d = (if d < 10 then char_of (48 + d) else char_of (87 + d))"

definition backslash :: char where "backslash = CHR 0x5C"
definition quoteMark :: char where "quoteMark = CHR 0x22"

definition escapeChar :: "char \<Rightarrow> string" where
  "escapeChar c =
     (if c = quoteMark then [backslash, quoteMark]
      else if c = backslash then [backslash, backslash]
      else if c = CHR 0x08 then [backslash, CHR ''b'']
      else if c = CHR 0x0C then [backslash, CHR ''f'']
      else if c = CHR 0x0A then [backslash, CHR ''n'']
      else if c = CHR 0x0D then [backslash, CHR ''r'']
      else if c = CHR 0x09 then [backslash, CHR ''t'']
      else if of_char c < (32::nat) then
        backslash # ''u00'' @ [hexDigit (of_char c div 16), hexDigit (of_char c mod 16)]
      else [c])"

definition jsonQuote :: "string \<Rightarrow> string" where
  "jsonQuote s = quoteMark # concat (map escapeChar s) @ [quoteMark]"

text \<open>Reading one escaped character back off the front of a text.\<close>

definition hexVal :: "char \<Rightarrow> nat" where
  "hexVal c = (if of_char c < (58::nat) then of_char c - 48 else of_char c - 87)"

fun unescape :: "string \<Rightarrow> (char \<times> string) option" where
  "unescape [] = None"
| "unescape (c # s) =
     (if c \<noteq> backslash then (if c = quoteMark then None else Some (c, s))
      else case s of
        [] \<Rightarrow> None
      | d # t \<Rightarrow>
          if d = CHR ''b'' then Some (CHR 0x08, t)
          else if d = CHR ''f'' then Some (CHR 0x0C, t)
          else if d = CHR ''n'' then Some (CHR 0x0A, t)
          else if d = CHR ''r'' then Some (CHR 0x0D, t)
          else if d = CHR ''t'' then Some (CHR 0x09, t)
          else if d = CHR ''u'' then
            (case t of _ # _ # h # l # t' \<Rightarrow> Some (char_of (16 * hexVal h + hexVal l), t') | _ \<Rightarrow> None)
          else Some (d, t))"

lemma hexVal_hexDigit [simp]: "d < 16 \<Longrightarrow> hexVal (hexDigit d) = d"
  by (auto simp: hexVal_def hexDigit_def of_char_of)

lemma char_of_hex: "char_of (16 * (of_char c div 16) + of_char c mod 16 :: nat) = c"
  by (simp only: mult_div_mod_eq char_of_char)

lemma unescape_u:
  "h < 16 \<Longrightarrow> l < 16 \<Longrightarrow>
   unescape (backslash # CHR ''u'' # CHR ''0'' # CHR ''0'' # hexDigit h # hexDigit l # r)
     = Some (char_of (16 * h + l), r)"
  by (simp add: backslash_def)

lemma unescape_escapeChar: "unescape (escapeChar c @ r) = Some (c, r)"
proof (cases "c \<in> {quoteMark, backslash, CHR 0x08, CHR 0x0C, CHR 0x0A, CHR 0x0D, CHR 0x09}")
  case True
  then show ?thesis by (elim insertE) (simp_all add: escapeChar_def backslash_def quoteMark_def)
next
  case plain: False
  show ?thesis
  proof (cases "of_char c < (32::nat)")
    case True
    then have "of_char c div 16 < (16::nat)" by (simp add: less_mult_imp_div_less)
    with plain True show ?thesis
      by (simp add: escapeChar_def unescape_u char_of_hex del: unescape.simps)
  next
    case False
    with plain show ?thesis by (simp add: escapeChar_def)
  qed
qed

lemma unescape_quote: "unescape (quoteMark # r) = None"
  by (simp add: backslash_def quoteMark_def)

lemma escapeChar_not_quote: "escapeChar c @ r \<noteq> quoteMark # r'"
  by (metis unescape_escapeChar unescape_quote option.distinct(1))

declare unescape.simps [simp del]

lemma escapes_unambiguous:
  "concat (map escapeChar s) @ quoteMark # x = concat (map escapeChar t) @ quoteMark # y
    \<Longrightarrow> s = t \<and> x = y"
proof (induction s arbitrary: t)
  case Nil
  then show ?case
    by (cases t) (auto dest: sym[of "quoteMark # _"] simp: escapeChar_not_quote)
next
  case (Cons c s)
  show ?case
  proof (cases t)
    case Nil
    with Cons.prems show ?thesis by (simp add: escapeChar_not_quote)
  next
    case (Cons d t')
    with Cons.prems have eq: "escapeChar c @ (concat (map escapeChar s) @ quoteMark # x)
        = escapeChar d @ (concat (map escapeChar t') @ quoteMark # y)" by simp
    then have "c = d" and "concat (map escapeChar s) @ quoteMark # x
        = concat (map escapeChar t') @ quoteMark # y"
      by (metis option.inject prod.inject unescape_escapeChar)+
    with Cons.IH \<open>t = d # t'\<close> show ?thesis by blast
  qed
qed

lemma jsonQuote_unambiguous: "jsonQuote s @ x = jsonQuote t @ y \<Longrightarrow> s = t \<and> x = y"
  by (rule escapes_unambiguous) (simp add: jsonQuote_def)

lemma jsonQuote_inj [simp]: "jsonQuote s = jsonQuote t \<longleftrightarrow> s = t"
  by (metis jsonQuote_unambiguous)

section \<open>JSON text of a value\<close>

fun joinComma :: "string list \<Rightarrow> string" where
  "joinComma [] = []"
| "joinComma [x] = x"
| "joinComma (x # y # ys) = x @ CHR '','' # joinComma (y # ys)"

text \<open>\<open>JSON.stringify\<close>, for values without \<open>undefined\<close> and functions.\<close>

function stringify :: "jsval \<Rightarrow> string" where
  "stringify JNull = ''null''"
| "stringify (JBool b) = (if b then ''true'' else ''false'')"
| "stringify (JNum n) = decInt n"
| "stringify (JFrac t) = (if t \<in> {''NaN'', ''Infinity'', ''-Infinity''} then ''null'' else t)"
| "stringify (JStr s) = jsonQuote s"
| "stringify (JArr _ xs) = CHR ''['' # joinComma (map stringify xs) @ '']''"
| "stringify (JObj _ r) =
     CHR ''{'' # joinComma (map (\<lambda>kv. jsonQuote (fst kv) @ CHR '':'' # stringify (snd kv)) r) @ ''}''"
| "stringify JUndef = ''undefined''"
| "stringify JOther = ''undefined''"
  by pat_completeness auto
termination
  by (relation "measure size") (auto dest: size_elem_less size_snd_less)

text \<open>The values JSON can express: what the theorems on texts are about.\<close>

function isJson :: "jsval \<Rightarrow> bool" where
  "isJson JNull = True"
| "isJson (JBool b) = True"
| "isJson (JNum n) = True"
| "isJson (JFrac t) = False"
| "isJson (JStr s) = True"
| "isJson (JArr sh xs) = (sh = Plain \<and> (\<forall>x\<in>set xs. isJson x))"
| "isJson (JObj sh r) = (sh = Plain \<and> distinct (map fst r) \<and> (\<forall>kv\<in>set r. isJson (snd kv)))"
| "isJson JUndef = False"
| "isJson JOther = False"
  by pat_completeness auto
termination
  by (relation "measure size") (auto dest: size_elem_less size_snd_less)

definition endsToken :: "string \<Rightarrow> bool" where
  "endsToken r \<longleftrightarrow> r = [] \<or> hd r \<in> {CHR '','', CHR '']'', CHR ''}''}"


section \<open>The text determines the value\<close>

lemma decInt_inj [simp]: "decInt m = decInt n \<longleftrightarrow> m = n"
proof -
  have no_minus: "dec k \<noteq> CHR ''-'' # t" for k t
    using dec_digits[of k] by (auto simp: isDigit_def less_eq_char_def)
  show ?thesis by (auto simp: decInt_def no_minus no_minus[symmetric] eq_nat_nat_iff)
qed

definition isNumChar :: "char \<Rightarrow> bool" where
  "isNumChar c \<longleftrightarrow> isDigit c \<or> c = CHR ''-''"

lemma decInt_numChars: "list_all isNumChar (decInt n)"
  using dec_digits[of "nat n"] dec_digits[of "nat (- n)"]
  by (auto simp: decInt_def isNumChar_def list_all_iff)

lemma endsToken_not_num: "endsToken r \<Longrightarrow> takeWhile isNumChar r = []"
  by (cases r) (auto simp: endsToken_def isNumChar_def isDigit_def less_eq_char_def)

lemma decInt_unambiguous:
  assumes "decInt m @ x = decInt n @ y" "endsToken x" "endsToken y"
  shows "m = n \<and> x = y"
proof -
  have take: "takeWhile isNumChar (decInt k @ z) = decInt k" if "endsToken z" for k z
    using decInt_numChars[of k] endsToken_not_num[OF that]
    by (simp add: takeWhile_append list_all_iff)
  have "decInt m = decInt n"
    using assms take by metis
  with assms(1) show ?thesis by simp
qed

definition delimiter :: "char \<Rightarrow> bool" where
  "delimiter c \<longleftrightarrow> c \<in> {CHR '','', CHR '']'', CHR ''}''}"

lemma endsToken_Cons [simp]: "endsToken (c # r) \<longleftrightarrow> delimiter c"
  by (simp add: endsToken_def delimiter_def)

lemma endsToken_Nil [simp]: "endsToken []"
  by (simp add: endsToken_def)

text \<open>A comma-separated list of unambiguous items is unambiguous.\<close>

lemma joinComma_Cons:
  "joinComma (t # ts) = t @ (if ts = [] then [] else CHR '','' # joinComma ts)"
  by (cases ts) auto

lemma joinComma_unambiguous:
  assumes items: "\<And>a b x y. a \<in> set as \<Longrightarrow> b \<in> set bs \<Longrightarrow> endsToken x \<Longrightarrow> endsToken y \<Longrightarrow>
        f a @ x = f b @ y \<Longrightarrow> a = b \<and> x = y"
    and heads: "\<And>a. a \<in> set as \<union> set bs \<Longrightarrow> f a \<noteq> [] \<and> \<not> delimiter (hd (f a))"
    and close: "close \<in> {CHR '']'', CHR ''}''}"
    and eq: "joinComma (map f as) @ close # x = joinComma (map f bs) @ close # y"
  shows "as = bs \<and> x = y"
  using items heads eq
proof (induction as arbitrary: bs)
  case Nil
  have "bs = []"
  proof (rule ccontr)
    assume "bs \<noteq> []"
    then obtain b bs' where b: "bs = b # bs'" by (cases bs) auto
    with Nil.prems(2)[of b] Nil.prems(3) have "delimiter (hd (f b))"
      using close by (cases "f b") (auto simp: joinComma_Cons delimiter_def)
    with Nil.prems(2)[of b] b show False by simp
  qed
  with Nil.prems(3) show ?case by simp
next
  case (Cons a as)
  have "bs \<noteq> []"
  proof
    assume "bs = []"
    with Cons.prems(2)[of a] Cons.prems(3) have "delimiter (hd (f a))"
      using close by (cases "f a") (auto simp: joinComma_Cons delimiter_def)
    with Cons.prems(2)[of a] show False by simp
  qed
  then obtain b bs' where b: "bs = b # bs'" by (cases bs) auto
  let ?tl = "\<lambda>ts z. (if ts = [] then close # z else CHR '','' # joinComma (map f ts) @ close # z)"
  have heads_eq: "f a @ ?tl as x = f b @ ?tl bs' y"
    using Cons.prems(3) b by (simp add: joinComma_Cons split: if_splits)
  have ends: "endsToken (?tl ts z)" for ts z
    using close by (auto simp: delimiter_def)
  have "a = b \<and> ?tl as x = ?tl bs' y"
    by (rule Cons.prems(1)[OF _ _ ends ends heads_eq]) (simp_all add: b)
  then have ab: "a = b" and tails: "?tl as x = ?tl bs' y" by blast+
  show ?case
  proof (cases "as = [] \<or> bs' = []")
    case True
    with tails close have "as = [] \<and> bs' = [] \<and> x = y" by (auto split: if_splits)
    with ab b show ?thesis by simp
  next
    case False
    with tails have "joinComma (map f as) @ close # x = joinComma (map f bs') @ close # y"
      by simp
    then have "as = bs' \<and> x = y"
      using Cons.prems(1,2) b by (intro Cons.IH) auto
    with ab b show ?thesis by simp
  qed
qed

lemma hd_decInt: "isNumChar (hd (decInt n)) \<and> decInt n \<noteq> []"
  using decInt_numChars[of n] by (cases "decInt n") (auto simp: decInt_def split: if_splits)

definition kindChar :: "jsval \<Rightarrow> char \<Rightarrow> bool" where
  "kindChar v c = (case v of
     JNull \<Rightarrow> c = CHR ''n'' | JBool b \<Rightarrow> c = (if b then CHR ''t'' else CHR ''f'')
   | JNum _ \<Rightarrow> isNumChar c | JStr _ \<Rightarrow> c = quoteMark | JArr _ _ \<Rightarrow> c = CHR ''[''
   | JObj _ _ \<Rightarrow> c = CHR ''{'' | _ \<Rightarrow> False)"

lemma stringify_head: "isJson v \<Longrightarrow> stringify v \<noteq> [] \<and> kindChar v (hd (stringify v))"
  by (cases v) (auto simp: kindChar_def jsonQuote_def hd_decInt)

lemma isNumChar_not [simp]:
  "\<not> isNumChar CHR ''n''" "\<not> isNumChar CHR ''t''" "\<not> isNumChar CHR ''f''" "\<not> isNumChar CHR ''[''"
  "\<not> isNumChar CHR ''{''" "\<not> isNumChar CHR ''}''" "\<not> isNumChar CHR '']''" "\<not> isNumChar CHR '',''"
  "\<not> isNumChar quoteMark"
  by (auto simp: isNumChar_def isDigit_def less_eq_char_def quoteMark_def)

lemma stringify_not_delimiter: "isJson v \<Longrightarrow> \<not> delimiter (hd (stringify v))"
  using stringify_head[of v]
  by (cases v) (auto simp: kindChar_def delimiter_def quoteMark_def split: if_splits)


lemma stringify_same_kind:
  assumes "isJson v" "isJson w" "stringify v @ x = stringify w @ y"
  shows "\<exists>c. kindChar v c \<and> kindChar w c"
proof -
  have "hd (stringify v) = hd (stringify w)"
    using assms stringify_head[of v] stringify_head[of w] by (metis hd_append2)
  with assms stringify_head show ?thesis by metis
qed

lemma kindChar_simps [simp]:
  "kindChar JNull c \<longleftrightarrow> c = CHR ''n''"
  "kindChar (JBool b) c \<longleftrightarrow> c = (if b then CHR ''t'' else CHR ''f'')"
  "kindChar (JNum n) c \<longleftrightarrow> isNumChar c"
  "kindChar (JStr s) c \<longleftrightarrow> c = quoteMark"
  "kindChar (JArr sh xs) c \<longleftrightarrow> c = CHR ''[''"
  "kindChar (JObj sh r) c \<longleftrightarrow> c = CHR ''{''"
  by (simp_all add: kindChar_def)

lemma quoteMark_neq [simp]:
  "quoteMark \<noteq> CHR ''n''" "quoteMark \<noteq> CHR ''t''" "quoteMark \<noteq> CHR ''f''"
  "quoteMark \<noteq> CHR ''[''" "quoteMark \<noteq> CHR ''{''"
  by (simp_all add: quoteMark_def)

lemmas neq_quoteMark [simp] = quoteMark_neq [symmetric]

lemma stringify_unambiguous:
  "isJson v \<Longrightarrow> isJson w \<Longrightarrow> endsToken x \<Longrightarrow> endsToken y \<Longrightarrow>
   stringify v @ x = stringify w @ y \<Longrightarrow> v = w \<and> x = y"
proof (induction v arbitrary: w x y rule: isJson.induct)
  case 1
  then show ?case
    using stringify_same_kind[of JNull w x y] by (cases w) (auto split: if_splits)
next
  case (2 b)
  then show ?case
    using stringify_same_kind[of "JBool b" w x y] by (cases w) (auto split: if_splits)
next
  case (3 n)
  then obtain m where "w = JNum m"
    using stringify_same_kind[of "JNum n" w x y] by (cases w) (auto split: if_splits)
  with 3 show ?case by (auto dest: decInt_unambiguous)
next
  case (5 s)
  then obtain t where "w = JStr t"
    using stringify_same_kind[of "JStr s" w x y] by (cases w) (auto split: if_splits)
  with 5 show ?case by (auto dest: jsonQuote_unambiguous)
next
  case (6 sh xs)
  then obtain ys where w: "w = JArr Plain ys"
    using stringify_same_kind[of "JArr sh xs" w x y] by (cases w) (auto split: if_splits)
  have "xs = ys \<and> x = y"
  proof (rule joinComma_unambiguous[where f = stringify and close = "CHR '']''"])
    fix a b u z assume "a \<in> set xs" "b \<in> set ys" "endsToken u" "endsToken z"
      and "stringify a @ u = stringify b @ z"
    with "6.IH"[of a b u z] "6.prems" w show "a = b \<and> u = z" by auto
  next
    show "joinComma (map stringify xs) @ CHR '']'' # x = joinComma (map stringify ys) @ CHR '']'' # y"
      using "6.prems"(5) w by simp
  qed (use "6.prems" w in \<open>auto simp: stringify_head stringify_not_delimiter\<close>)
  with w "6.prems" show ?case by simp
next
  case (7 sh r)
  let ?f = "\<lambda>kv. jsonQuote (fst kv) @ CHR '':'' # stringify (snd kv)"
  from 7 obtain q where w: "w = JObj Plain q"
    using stringify_same_kind[of "JObj sh r" w x y] by (cases w) (auto split: if_splits)
  have "r = q \<and> x = y"
  proof (rule joinComma_unambiguous[where f = ?f and close = "CHR ''}''"])
    fix a b u z assume ab: "a \<in> set r" "b \<in> set q" and ends: "endsToken u" "endsToken z"
      and eq: "?f a @ u = ?f b @ z"
    then have "fst a = fst b \<and> CHR '':'' # stringify (snd a) @ u = CHR '':'' # stringify (snd b) @ z"
      by (intro jsonQuote_unambiguous) simp
    with ab ends "7.IH"[of a "snd b" u z] "7.prems" w show "a = b \<and> u = z"
      by (auto simp: prod_eq_iff)
  next
    show "joinComma (map ?f r) @ CHR ''}'' # x = joinComma (map ?f q) @ CHR ''}'' # y"
      using "7.prems"(5) w by simp
  qed (auto simp: jsonQuote_def delimiter_def quoteMark_def)
  with w "7.prems" show ?case by simp
qed auto

lemma stringify_inj:
  "isJson v \<Longrightarrow> isJson w \<Longrightarrow> stringify v = stringify w \<longleftrightarrow> v = w"
  using stringify_unambiguous[of v w "[]" "[]"] by auto


section \<open>canonicalJson\<close>

text \<open>
  \<open>canonical.ts\<close>: keys in code unit order, safe integers only, plain values only. The
  entries of an object are sorted before they are printed, so the first entry in that order
  that throws decides the error.
\<close>

definition notSafe :: js_error where
  "notSafe = TypeErr ''canonical JSON only accepts safe integers; wide integers must be strings''"
definition notRegularArray :: js_error where
  "notRegularArray = TypeErr ''canonical JSON rejects sparse or extended arrays''"
definition notPlain :: js_error where
  "notPlain = TypeErr ''canonical JSON requires plain JSON values; wide integers must be strings''"

function canonicalJson :: "jsval \<Rightarrow> js_error + string" where
  "canonicalJson JNull = Inr (stringify JNull)"
| "canonicalJson (JBool b) = Inr (stringify (JBool b))"
| "canonicalJson (JStr s) = Inr (stringify (JStr s))"
| "canonicalJson (JNum n) = (if isSafeInteger (JNum n) then Inr (stringify (JNum n)) else Inl notSafe)"
| "canonicalJson (JFrac t) = Inl notSafe"
| "canonicalJson (JArr sh xs) =
     (if sh = Irregular then Inl notRegularArray
      else bindE (mapE canonicalJson xs) (\<lambda>ts. Inr (CHR ''['' # joinComma ts @ '']'')))"
| "canonicalJson (JObj sh r) =
     (if sh = ForeignProto then Inl notPlain
      else bindE (mapE (\<lambda>kv. bindE (canonicalJson (snd kv))
                    (\<lambda>t. Inr (jsonQuote (fst kv) @ CHR '':'' # t))) (toSorted (compareKey fst) r))
        (\<lambda>ts. Inr (CHR ''{'' # joinComma ts @ ''}'')))"
| "canonicalJson JUndef = Inl notPlain"
| "canonicalJson JOther = Inl notPlain"
  by pat_completeness auto
termination
  by (relation "measure size") (auto dest: size_elem_less size_pair_less)

text \<open>The value whose \<open>stringify\<close> the canonical text is: keys sorted at every level.\<close>

function sortKeys :: "jsval \<Rightarrow> jsval" where
  "sortKeys (JArr sh xs) = JArr Plain (map sortKeys xs)"
| "sortKeys (JObj sh r) = JObj Plain (map (\<lambda>kv. (fst kv, sortKeys (snd kv))) (toSorted (compareKey fst) r))"
| "sortKeys JNull = JNull"
| "sortKeys (JBool b) = JBool b"
| "sortKeys (JNum n) = JNum n"
| "sortKeys (JFrac t) = JFrac t"
| "sortKeys (JStr s) = JStr s"
| "sortKeys JUndef = JUndef"
| "sortKeys JOther = JOther"
  by pat_completeness auto
termination
  by (relation "measure size") (auto dest: size_elem_less size_pair_less)

text \<open>Objects of the language have distinct keys.\<close>

function distinctKeys :: "jsval \<Rightarrow> bool" where
  "distinctKeys (JArr sh xs) = (\<forall>x\<in>set xs. distinctKeys x)"
| "distinctKeys (JObj sh r) = (distinct (map fst r) \<and> (\<forall>kv\<in>set r. distinctKeys (snd kv)))"
| "distinctKeys JNull = True"
| "distinctKeys (JBool b) = True"
| "distinctKeys (JNum n) = True"
| "distinctKeys (JFrac t) = True"
| "distinctKeys (JStr s) = True"
| "distinctKeys JUndef = True"
| "distinctKeys JOther = True"
  by pat_completeness auto
termination
  by (relation "measure size") (auto dest: size_elem_less size_snd_less)

lemma list_all2_in_set1: "list_all2 P xs ys \<Longrightarrow> x \<in> set xs \<Longrightarrow> \<exists>y\<in>set ys. P x y"
  by (metis in_set_conv_nth list_all2_conv_all_nth)

lemma list_all2_eq_map: "list_all2 (\<lambda>x y. y = f x) xs ys \<longleftrightarrow> ys = map f xs"
  by (auto simp: list_all2_conv_all_nth list_eq_iff_nth_eq)

lemma canonicalJson_stringify:
  "canonicalJson v = Inr s \<Longrightarrow> s = stringify (sortKeys v)"
proof (induction v arbitrary: s rule: canonicalJson.induct)
  case (6 sh xs)
  then obtain ts where ts: "list_all2 (\<lambda>x t. canonicalJson x = Inr t) xs ts" "sh \<noteq> Irregular"
    and s: "s = CHR ''['' # joinComma ts @ '']''"
    by (auto simp: res_simps split: if_splits)
  from ts "6.IH" have "list_all2 (\<lambda>x t. t = stringify (sortKeys x)) xs ts"
    by (auto simp: list_all2_conv_all_nth)
  with s show ?case by (simp add: list_all2_eq_map comp_def)
next
  case (7 sh r)
  let ?q = "toSorted (compareKey fst) r"
  from 7 obtain ts where ts: "list_all2 (\<lambda>kv t. \<exists>u. canonicalJson (snd kv) = Inr u \<and>
        jsonQuote (fst kv) @ CHR '':'' # u = t) ?q ts" "sh \<noteq> ForeignProto"
    and s: "s = CHR ''{'' # joinComma ts @ ''}''"
    by (auto simp: res_simps split: if_splits)
  have "list_all2 (\<lambda>kv t. t = jsonQuote (fst kv) @ CHR '':'' # stringify (sortKeys (snd kv))) ?q ts"
    by (rule list.rel_mono_strong[OF ts(1)]) (use "7.IH" ts(2) in auto)
  with s show ?case by (simp add: list_all2_eq_map comp_def)
qed (auto split: if_splits)

lemma canonicalJson_isJson:
  "canonicalJson v = Inr s \<Longrightarrow> distinctKeys v \<Longrightarrow> isJson (sortKeys v)"
proof (induction v arbitrary: s rule: canonicalJson.induct)
  case (6 sh xs)
  then show ?case
    by (fastforce simp: res_simps list_all2_conv_all_nth in_set_conv_nth split: if_splits)
next
  case (7 sh r)
  let ?q = "toSorted (compareKey fst) r"
  from 7 obtain ts where ts: "list_all2 (\<lambda>kv t. \<exists>u. canonicalJson (snd kv) = Inr u \<and>
        jsonQuote (fst kv) @ CHR '':'' # u = t) ?q ts" "sh \<noteq> ForeignProto"
    by (auto simp: res_simps split: if_splits)
  have all: "\<exists>u. canonicalJson (snd kv) = Inr u" if "kv \<in> set ?q" for kv
    using list_all2_in_set1[OF ts(1) that] by blast
  have "distinct (map fst ?q)"
    using "7.prems"(2) by (simp add: map_toSorted_compareKey)
  moreover have "isJson (sortKeys (snd kv))" if "kv \<in> set r" for kv
    using all[of kv] that ts(2) "7.IH"[of kv] "7.prems"(2) by auto
  ultimately show ?case by (auto simp: comp_def)
qed (auto split: if_splits)


lemma canonicalJson_text_iff:
  assumes "canonicalJson v = Inr s" "canonicalJson w = Inr t" "distinctKeys v" "distinctKeys w"
  shows "s = t \<longleftrightarrow> sortKeys v = sortKeys w"
  using assms by (simp add: canonicalJson_stringify[OF assms(1)] canonicalJson_stringify[OF assms(2)]
      stringify_inj canonicalJson_isJson)

text \<open>
  C29. The canonical text is a faithful name of a value: two values the function accepts have
  the same text exactly when they agree up to the order of object keys, at every depth.
\<close>

theorem canonicalJson_injective:
  assumes "canonicalJson v = Inr s" "canonicalJson w = Inr t" "distinctKeys v" "distinctKeys w"
  shows "s = t \<longleftrightarrow> sortKeys v = sortKeys w"
  using assms by (rule canonicalJson_text_iff)

theorem canonicalJson_injective_witness:
  "canonicalJson (JObj Plain [(''b'', JNum 1), (''a'', JNull)])
     = canonicalJson (JObj Plain [(''a'', JNull), (''b'', JNum 1)])"
proof -
  let ?v = "JObj Plain [(''b'', JNum 1), (''a'', JNull)]"
  let ?w = "JObj Plain [(''a'', JNull), (''b'', JNum 1)]"
  obtain s t where st: "canonicalJson ?v = Inr s" "canonicalJson ?w = Inr t"
    by (simp add: compareKey_def compareText_def MAX_SAFE_INTEGER_def)
  have "s = t"
    using canonicalJson_injective[OF st] by (simp add: compareKey_def compareText_def)
  with st show ?thesis by simp
qed

end
