(* ===== verification/CcipMessage.thy ===== *)
theory CcipMessage
  imports JsonText
begin

text \<open>
  \<open>packages/domain/src/features/ccip-status/message.ts\<close>: the status of one cross-chain
  transfer, projected from the observations of its events. Fields the code checks at run time
  (\<open>direction\<close>, \<open>finality\<close>, \<open>eventIndex\<close>) are dynamic here too; \<open>chain\<close> and
  \<open>kind\<close>, which only the type system restricts, are datatypes.
\<close>

datatype chain = Ethereum | Solana
datatype eventKind = Lock | Mint | Burn | Release

fun chainName :: "chain \<Rightarrow> string" where
  "chainName Ethereum = ''ethereum''"
| "chainName Solana = ''solana''"

fun kindName :: "eventKind \<Rightarrow> string" where
  "kindName Lock = ''lock''"
| "kindName Mint = ''mint''"
| "kindName Burn = ''burn''"
| "kindName Release = ''release''"

record transferIdentity =
  messageId :: string
  direction :: string
  amount :: int
  sourceToken :: string
  destinationToken :: string
  recipient :: string

record transferEvent = transferIdentity +
  eventChain :: chain
  eventKindOf :: eventKind
  transactionId :: string
  eventIndex :: jsval
  blockHash :: string
  blockHeight :: int
  finality :: string

datatype transferStatus = Pending | ManualExecution | Settled | Unknown | Inconsistent

record messageState =
  identityOf :: transferIdentity
  status :: transferStatus
  pendingAmount :: "int option"
  reasons :: "string list"

definition fingerprint :: "transferEvent \<Rightarrow> string" where
  "fingerprint event = stringify (JObj Plain
     [(''messageId'', JStr (messageId event)), (''direction'', JStr (direction event)),
      (''amount'', JStr (decInt (amount event))), (''sourceToken'', JStr (sourceToken event)),
      (''destinationToken'', JStr (destinationToken event)), (''recipient'', JStr (recipient event)),
      (''chain'', JStr (chainName (eventChain event))), (''kind'', JStr (kindName (eventKindOf event))),
      (''transactionId'', JStr (transactionId event)), (''eventIndex'', eventIndex event),
      (''blockHash'', JStr (blockHash event)), (''blockHeight'', JStr (decInt (blockHeight event)))])"

definition matches :: "'a transferIdentity_scheme \<Rightarrow> 'b transferIdentity_scheme \<Rightarrow> bool" where
  "matches a b \<longleftrightarrow> messageId a = messageId b \<and> direction a = direction b \<and> amount a = amount b \<and>
     sourceToken a = sourceToken b \<and> destinationToken a = destinationToken b \<and>
     recipient a = recipient b"

definition directions :: "string list" where
  "directions = [''ethereum-to-solana'', ''solana-to-ethereum'']"

definition validIdentity :: "transferIdentity \<Rightarrow> bool" where
  "validIdentity i \<longleftrightarrow> amount i > 0 \<and> messageId i \<noteq> [] \<and> sourceToken i \<noteq> [] \<and>
     destinationToken i \<noteq> [] \<and> recipient i \<noteq> [] \<and> direction i \<in> set directions"

fun nonNegativeIndex :: "jsval \<Rightarrow> bool" where
  "nonNegativeIndex (JNum n) = (n \<ge> 0)"
| "nonNegativeIndex _ = False"

definition validEvent :: "transferEvent \<Rightarrow> transferIdentity \<Rightarrow> bool" where
  "validEvent event identity \<longleftrightarrow> matches identity event \<and> transactionId event \<noteq> [] \<and>
     blockHash event \<noteq> [] \<and> isSafeInteger (eventIndex event) \<and>
     nonNegativeIndex (eventIndex event) \<and> blockHeight event \<ge> 0 \<and>
     finality event \<in> {''unfinalized'', ''finalized'', ''reorged''}"

text \<open>The roles of the two directions: chain and kind of source and destination event.\<close>

definition sourceRole :: "string \<Rightarrow> chain \<times> eventKind" where
  "sourceRole dir = (if dir = ''ethereum-to-solana'' then (Ethereum, Lock) else (Solana, Burn))"

definition destinationRole :: "string \<Rightarrow> chain \<times> eventKind" where
  "destinationRole dir = (if dir = ''ethereum-to-solana'' then (Solana, Mint) else (Ethereum, Release))"

definition rank :: "string \<Rightarrow> nat" where
  "rank f = (if f = ''unfinalized'' then 0 else if f = ''finalized'' then 1 else 2)"

text \<open>\<open>`${event.chain}:${event.transactionId}:${event.eventIndex}`\<close>\<close>

definition eventKey :: "transferEvent \<Rightarrow> string" where
  "eventKey event = chainName (eventChain event) @ '':'' @ transactionId event @ '':''
     @ stringify (eventIndex event)"

fun collectLoop :: "transferIdentity \<Rightarrow> transferEvent list \<Rightarrow> (string \<times> transferEvent) list
    \<Rightarrow> string + transferEvent list" where
  "collectLoop identity [] unique = Inr (map snd unique)"
| "collectLoop identity (event # events) unique =
     (if \<not> validEvent event identity then Inl ''event-identity-mismatch''
      else case map_of unique (eventKey event) of
        None \<Rightarrow> collectLoop identity events (mapSet (eventKey event) event unique)
      | Some previous \<Rightarrow>
          if fingerprint previous \<noteq> fingerprint event then Inl ''conflicting-event-observation''
          else if rank (finality event) > rank (finality previous)
          then collectLoop identity events (mapSet (eventKey event) event unique)
          else collectLoop identity events unique)"

definition collectEvents :: "transferIdentity \<Rightarrow> transferEvent list \<Rightarrow> string + transferEvent list" where
  "collectEvents identity events = collectLoop identity events []"

definition inRole :: "chain \<times> eventKind \<Rightarrow> transferEvent \<Rightarrow> bool" where
  "inRole role event \<longleftrightarrow> eventChain event = fst role \<and> eventKindOf event = snd role"

definition projectMessage :: "transferIdentity \<Rightarrow> transferEvent list \<Rightarrow> bool \<Rightarrow> messageState" where
  "projectMessage identity events manualExecutionRequired =
    (let result = (\<lambda>st reason pendingAmt. \<lparr>identityOf = identity, status = st,
                     pendingAmount = pendingAmt, reasons = [reason]\<rparr>) in
     if \<not> validIdentity identity then result Inconsistent ''invalid-transfer-identity'' None
     else case collectEvents identity events of
       Inl err \<Rightarrow> result Inconsistent err None
     | Inr observed \<Rightarrow>
         if list_ex (\<lambda>e. finality e = ''reorged'') observed
         then result Unknown ''reorg-reconciliation-required'' None
         else let source = filter (inRole (sourceRole (direction identity))) observed;
                  destination = filter (inRole (destinationRole (direction identity))) observed in
           if length source + length destination \<noteq> length observed
           then result Inconsistent ''unexpected-event-kind-or-chain'' None
           else if length source > 1 \<or> length destination > 1
           then result Inconsistent ''duplicate-source-or-settlement'' None
           else case source of
             [] \<Rightarrow> if destination \<noteq> [] then result Inconsistent ''orphan-settlement'' None
                   else result Unknown ''source-not-observed'' None
           | src # _ \<Rightarrow>
               if finality src \<noteq> ''finalized'' then result Unknown ''source-not-finalized'' None
               else if (case destination of [] \<Rightarrow> False | d # _ \<Rightarrow> finality d = ''finalized'')
               then result Settled ''both-events-finalized'' (Some 0)
               else if manualExecutionRequired
               then result ManualExecution ''manual-execution-required'' (Some (amount identity))
               else result Pending ''awaiting-finalized-destination'' (Some (amount identity)))"

section \<open>What the key and the fingerprint identify\<close>

definition sameEvent :: "transferEvent \<Rightarrow> transferEvent \<Rightarrow> bool" where
  "sameEvent a b \<longleftrightarrow> eventChain a = eventChain b \<and> transactionId a = transactionId b \<and>
     eventIndex a = eventIndex b"

definition sameFacts :: "transferEvent \<Rightarrow> transferEvent \<Rightarrow> bool" where
  "sameFacts a b \<longleftrightarrow> a\<lparr>finality := []\<rparr> = b\<lparr>finality := []\<rparr>"

lemma chainName_inj [simp]: "chainName c = chainName d \<longleftrightarrow> c = d"
  by (cases c; cases d) auto

lemma kindName_inj [simp]: "kindName k = kindName l \<longleftrightarrow> k = l"
  by (cases k; cases l) auto

lemma validEvent_index:
  "validEvent e i \<Longrightarrow> \<exists>n. eventIndex e = JNum n \<and> 0 \<le> n"
  unfolding validEvent_def by (cases "eventIndex e") auto

lemma fingerprint_eq_iff:
  assumes "validEvent a i" "validEvent b j"
  shows "fingerprint a = fingerprint b \<longleftrightarrow> sameFacts a b"
proof -
  obtain m n where "eventIndex a = JNum m" "eventIndex b = JNum n"
    using assms validEvent_index by blast
  then have "fingerprint a = fingerprint b \<longleftrightarrow>
      messageId a = messageId b \<and> direction a = direction b \<and> amount a = amount b \<and>
      sourceToken a = sourceToken b \<and> destinationToken a = destinationToken b \<and>
      recipient a = recipient b \<and> eventChain a = eventChain b \<and> eventKindOf a = eventKindOf b \<and>
      transactionId a = transactionId b \<and> eventIndex a = eventIndex b \<and>
      blockHash a = blockHash b \<and> blockHeight a = blockHeight b"
    unfolding fingerprint_def by (subst stringify_inj) auto
  then show ?thesis
    by (cases a; cases b) (auto simp: sameFacts_def)
qed

lemma last_colon_unambiguous:
  assumes "s @ CHR '':'' # x = t @ CHR '':'' # y" "CHR '':'' \<notin> set x" "CHR '':'' \<notin> set y"
  shows "s = t \<and> x = y"
proof -
  have take: "takeWhile (\<lambda>c. c \<noteq> CHR '':'') (rev (u @ CHR '':'' # z)) = rev z"
    if "CHR '':'' \<notin> set z" for u z
    using that by (auto simp: takeWhile_append takeWhile_eq_all_conv)
  have "rev x = rev y"
    using assms take by metis
  with assms(1) show ?thesis by simp
qed

lemma dec_no_colon: "CHR '':'' \<notin> set (dec n)"
  using dec_digits[of n] by (auto simp: list_all_iff isDigit_def less_eq_char_def)

lemma eventKey_eq_iff:
  assumes "validEvent a i" "validEvent b j"
  shows "eventKey a = eventKey b \<longleftrightarrow> sameEvent a b"
proof -
  obtain m n where idx: "eventIndex a = JNum m" "0 \<le> m" "eventIndex b = JNum n" "0 \<le> n"
    using assms validEvent_index by meson
  show ?thesis
  proof
    assume eq: "eventKey a = eventKey b"
    then have chains: "eventChain a = eventChain b"
      by (cases "eventChain a"; cases "eventChain b") (auto simp: eventKey_def)
    with eq have "transactionId a @ CHR '':'' # dec (nat m) = transactionId b @ CHR '':'' # dec (nat n)"
      using idx by (auto simp: eventKey_def decInt_def)
    then have "transactionId a = transactionId b \<and> dec (nat m) = dec (nat n)"
      by (rule last_colon_unambiguous) (rule dec_no_colon)+
    with chains idx show "sameEvent a b" by (auto simp: sameEvent_def)
  next
    assume "sameEvent a b"
    then show "eventKey a = eventKey b" by (simp add: sameEvent_def eventKey_def)
  qed
qed


section \<open>What collecting the observations keeps\<close>

text \<open>
  \<open>collected E m\<close>: the map \<open>m\<close> holds, for every event of the set \<open>E\<close>, one observation
  with the same facts and at least its finality.
\<close>

definition collected :: "transferIdentity \<Rightarrow> transferEvent set \<Rightarrow> (string \<times> transferEvent) list \<Rightarrow> bool" where
  "collected i E m \<longleftrightarrow> distinct (map fst m) \<and> (\<forall>e\<in>E. validEvent e i) \<and>
     (\<forall>(k, e)\<in>set m. e \<in> E \<and> k = eventKey e) \<and>
     (\<forall>e\<in>E. \<exists>e'. (eventKey e, e') \<in> set m \<and> sameFacts e' e \<and> rank (finality e) \<le> rank (finality e'))"

definition consistent :: "transferIdentity \<Rightarrow> transferEvent set \<Rightarrow> bool" where
  "consistent i E \<longleftrightarrow> (\<forall>e\<in>E. validEvent e i) \<and> (\<forall>a\<in>E. \<forall>b\<in>E. sameEvent a b \<longrightarrow> sameFacts a b)"

lemma sameFacts_refl [simp]: "sameFacts a a"
  and sameFacts_sym: "sameFacts a b \<Longrightarrow> sameFacts b a"
  and sameFacts_trans: "sameFacts a b \<Longrightarrow> sameFacts b c \<Longrightarrow> sameFacts a c"
  by (simp_all add: sameFacts_def)

lemma sameFacts_sameEvent: "sameFacts a b \<Longrightarrow> sameEvent a b"
  by (cases a; cases b) (auto simp: sameFacts_def sameEvent_def)

lemma sameFacts_inRole: "sameFacts a b \<Longrightarrow> inRole r a = inRole r b"
  by (cases a; cases b) (auto simp: sameFacts_def inRole_def)

lemma collected_empty: "collected i {} []"
  by (simp add: collected_def)

lemma collected_lookup:
  assumes "collected i E m"
  shows "map_of m k = Some e \<longleftrightarrow> (k, e) \<in> set m"
  using assms by (simp add: collected_def)

lemma collected_entry: "collected i E m \<Longrightarrow> (k, e) \<in> set m \<Longrightarrow> e \<in> E \<and> k = eventKey e \<and> validEvent e i"
  by (auto simp: collected_def)

lemma collected_cover:
  "collected i E m \<Longrightarrow> e \<in> E \<Longrightarrow>
   \<exists>e'. (eventKey e, e') \<in> set m \<and> sameFacts e' e \<and> rank (finality e) \<le> rank (finality e')"
  by (auto simp: collected_def)

text \<open>The three ways an event that passes its checks changes the map.\<close>

lemma collected_new:
  assumes "collected i E m" "validEvent ev i" "map_of m (eventKey ev) = None"
  shows "collected i (insert ev E) (mapSet (eventKey ev) ev m)"
proof -
  have d: "distinct (map fst m)" and "eventKey ev \<notin> fst ` set m"
    using assms by (auto simp: collected_def map_of_eq_None_iff)
  then have sm: "set (mapSet (eventKey ev) ev m) = insert (eventKey ev, ev) (set m)"
    by (auto simp: set_mapSet image_iff)
  have cov: "\<exists>e'. (eventKey e, e') \<in> set (mapSet (eventKey ev) ev m) \<and> sameFacts e' e
      \<and> rank (finality e) \<le> rank (finality e')" if "e \<in> insert ev E" for e
    using that collected_cover[OF assms(1)] by (auto simp: sm)
  show ?thesis
    unfolding collected_def using assms(1,2) d cov by (auto simp: sm collected_def)
qed

lemma collected_raise:
  assumes "collected i E m" "validEvent ev i" "map_of m (eventKey ev) = Some p"
    and "sameFacts p ev" "rank (finality p) < rank (finality ev)"
  shows "collected i (insert ev E) (mapSet (eventKey ev) ev m)"
proof -
  have d: "distinct (map fst m)" using assms(1) by (simp add: collected_def)
  then have sm: "set (mapSet (eventKey ev) ev m) = insert (eventKey ev, ev) {x \<in> set m. fst x \<noteq> eventKey ev}"
    by (rule set_mapSet)
  have cov: "\<exists>e'. (eventKey e, e') \<in> set (mapSet (eventKey ev) ev m) \<and> sameFacts e' e
      \<and> rank (finality e) \<le> rank (finality e')" if e: "e \<in> insert ev E" for e
  proof (cases "e = ev")
    case False
    with e collected_cover[OF assms(1)] obtain e' where
      e': "(eventKey e, e') \<in> set m" "sameFacts e' e" "rank (finality e) \<le> rank (finality e')" by blast
    show ?thesis
    proof (cases "eventKey e = eventKey ev")
      case True
      with e'(1) assms(3) d have "e' = p" by (metis map_of_is_SomeI option.inject)
      with True e' assms(4,5) show ?thesis
        by (auto simp: sm intro: sameFacts_trans sameFacts_sym)
    qed (use e' in \<open>auto simp: sm\<close>)
  qed (auto simp: sm)
  show ?thesis
    unfolding collected_def using assms(1,2) d cov by (auto simp: sm collected_def)
qed

lemma collected_keep:
  assumes "collected i E m" "validEvent ev i" "map_of m (eventKey ev) = Some p"
    and "sameFacts p ev" "\<not> rank (finality p) < rank (finality ev)"
  shows "collected i (insert ev E) m"
  using assms by (auto simp: collected_def dest: map_of_SomeD)

lemma collected_consistent:
  assumes "collected i E m"
  shows "consistent i E"
  unfolding consistent_def
proof (intro conjI ballI impI)
  show "validEvent e i" if "e \<in> E" for e
    using assms that by (simp add: collected_def)
  fix a b assume ab: "a \<in> E" "b \<in> E" "sameEvent a b"
  then have "eventKey a = eventKey b"
    using assms eventKey_eq_iff[of a i b i] by (simp add: collected_def)
  moreover obtain a' b' where "(eventKey a, a') \<in> set m" "sameFacts a' a"
    "(eventKey b, b') \<in> set m" "sameFacts b' b"
    using ab collected_cover[OF assms] by meson
  ultimately have "a' = b'" using assms by (metis collected_lookup option.inject)
  with \<open>sameFacts a' a\<close> \<open>sameFacts b' b\<close> show "sameFacts a b"
    by (blast intro: sameFacts_trans sameFacts_sym)
qed

lemma collectLoop_spec:
  "collected i E m \<Longrightarrow> F = E \<union> set evs \<Longrightarrow>
   (case collectLoop i evs m of
      Inl err \<Rightarrow> \<not> consistent i F
    | Inr out \<Rightarrow> \<exists>m'. out = map snd m' \<and> collected i F m')"
proof (induction evs arbitrary: E m)
  case Nil
  then show ?case by auto
next
  case (Cons ev evs)
  have union: "F = insert ev E \<union> set evs" using Cons.prems(2) by auto
  show ?case
  proof (cases "validEvent ev i")
    case False
    then show ?thesis by (auto simp: consistent_def union)
  next
    case valid: True
    show ?thesis
    proof (cases "map_of m (eventKey ev)")
      case None
      with Cons.IH[OF collected_new[OF Cons.prems(1) valid None] union] valid show ?thesis
        by simp
    next
      case (Some p)
      with Cons.prems(1) have p: "p \<in> E" "validEvent p i" "eventKey p = eventKey ev"
        using collected_entry by (fastforce dest: map_of_SomeD)+
      show ?thesis
      proof (cases "fingerprint p = fingerprint ev")
        case False
        with p valid have "\<not> consistent i F"
          using eventKey_eq_iff[of p i ev i] fingerprint_eq_iff[of p i ev i]
          by (auto simp: consistent_def union)
        with False Some valid show ?thesis by simp
      next
        case True
        with p valid have facts: "sameFacts p ev" by (simp add: fingerprint_eq_iff)
        show ?thesis
        proof (cases "rank (finality p) < rank (finality ev)")
          case up: True
          with Cons.IH[OF collected_raise[OF Cons.prems(1) valid Some facts up] union] True Some valid
          show ?thesis by simp
        next
          case keep: False
          with Cons.IH[OF collected_keep[OF Cons.prems(1) valid Some facts keep] union] True Some valid
          show ?thesis by simp
        qed
      qed
    qed
  qed
qed

lemma collectEvents_cases:
  obtains err where "collectEvents i evs = Inl err" "\<not> consistent i (set evs)"
    | m where "collectEvents i evs = Inr (map snd m)" "collected i (set evs) m"
  using collectLoop_spec[OF collected_empty, of "set evs" evs i]
  by (cases "collectEvents i evs") (auto simp: collectEvents_def)


section \<open>The specification: a status of the set of observations\<close>

definition isReorged :: "transferEvent \<Rightarrow> bool" where
  "isReorged e \<longleftrightarrow> finality e = ''reorged''"

definition isFinalized :: "transferEvent \<Rightarrow> bool" where
  "isFinalized e \<longleftrightarrow> finality e = ''finalized''"

text \<open>
  The decision on seven facts about the observations: is one reorged, has one neither role, has
  a role two events, is there a source, a destination, a finalized source, a finalized
  destination.
\<close>

definition decide :: "bool \<Rightarrow> bool \<Rightarrow> bool \<Rightarrow> bool \<Rightarrow> bool \<Rightarrow> bool \<Rightarrow> bool \<Rightarrow> bool \<Rightarrow> int
    \<Rightarrow> transferStatus \<times> int option" where
  "decide reorg outside twice src dst srcFinal dstFinal manual amt =
    (if reorg then (Unknown, None) else if outside \<or> twice then (Inconsistent, None)
     else if \<not> src then (if dst then (Inconsistent, None) else (Unknown, None))
     else if \<not> srcFinal then (Unknown, None)
     else if dstFinal then (Settled, Some 0)
     else (if manual then ManualExecution else Pending, Some amt))"

definition statusSpec :: "transferIdentity \<Rightarrow> transferEvent set \<Rightarrow> bool \<Rightarrow> transferStatus \<times> int option" where
  "statusSpec i E manual =
    (let src = inRole (sourceRole (direction i)); dst = inRole (destinationRole (direction i));
         twice = (\<lambda>P. \<exists>a\<in>E. \<exists>b\<in>E. P a \<and> P b \<and> \<not> sameEvent a b) in
     if validIdentity i \<and> consistent i E then
       decide (\<exists>e\<in>E. isReorged e) (\<exists>e\<in>E. \<not> src e \<and> \<not> dst e) (twice src \<or> twice dst)
         (\<exists>e\<in>E. src e) (\<exists>e\<in>E. dst e) (\<exists>e\<in>E. src e \<and> isFinalized e)
         (\<exists>e\<in>E. dst e \<and> isFinalized e) manual (amount i)
     else (Inconsistent, None))"

lemma collected_ex:
  assumes "collected i E m"
    and "\<And>e e'. P e \<Longrightarrow> sameFacts e' e \<Longrightarrow> rank (finality e) \<le> rank (finality e') \<Longrightarrow>
           validEvent e' i \<Longrightarrow> validEvent e i \<Longrightarrow> P e'"
  shows "(\<exists>e\<in>set (map snd m). P e) \<longleftrightarrow> (\<exists>e\<in>E. P e)"
proof
  assume "\<exists>e\<in>set (map snd m). P e"
  then show "\<exists>e\<in>E. P e" using collected_entry[OF assms(1)] by fastforce
next
  assume "\<exists>e\<in>E. P e"
  then obtain e e' where "e \<in> E" "P e" "(eventKey e, e') \<in> set m" "sameFacts e' e"
    "rank (finality e) \<le> rank (finality e')" using collected_cover[OF assms(1)] by meson
  moreover from this have "validEvent e i" "validEvent e' i"
    using assms(1) collected_entry[OF assms(1)] by (auto simp: collected_def)
  ultimately have "P e'" using assms(2) by blast
  with \<open>(eventKey e, e') \<in> set m\<close> show "\<exists>e\<in>set (map snd m). P e" by force
qed

lemma rank_finality:
  assumes "validEvent e i"
  shows "isReorged e \<longleftrightarrow> rank (finality e) = 2"
    and "isFinalized e \<longleftrightarrow> rank (finality e) = 1"
  using assms by (auto simp: isReorged_def isFinalized_def rank_def validEvent_def)

lemma rank_le_2: "rank f \<le> 2"
  by (simp add: rank_def)

lemma collected_reorged:
  "collected i E m \<Longrightarrow> (\<exists>e\<in>set (map snd m). isReorged e) \<longleftrightarrow> (\<exists>e\<in>E. isReorged e)"
  by (rule collected_ex) (auto simp: rank_finality le_antisym[OF rank_le_2])

lemma collected_inRole:
  "collected i E m \<Longrightarrow> (\<exists>e\<in>set (map snd m). inRole r e) \<longleftrightarrow> (\<exists>e\<in>E. inRole r e)"
  by (rule collected_ex) (auto simp: sameFacts_inRole)

lemma collected_outside:
  "collected i E m \<Longrightarrow> (\<exists>e\<in>set (map snd m). \<not> inRole r e \<and> \<not> inRole q e)
     \<longleftrightarrow> (\<exists>e\<in>E. \<not> inRole r e \<and> \<not> inRole q e)"
  by (rule collected_ex) (auto simp: sameFacts_inRole)

lemma collected_finalized:
  assumes "collected i E m" "\<not> (\<exists>e\<in>E. isReorged e)"
  shows "(\<exists>e\<in>set (map snd m). inRole r e \<and> isFinalized e) \<longleftrightarrow> (\<exists>e\<in>E. inRole r e \<and> isFinalized e)"
proof -
  let ?up = "\<lambda>e. inRole r e \<and> 1 \<le> rank (finality e)"
  have eq: "isFinalized e \<longleftrightarrow> 1 \<le> rank (finality e)" if "e \<in> E" for e
    using assms that rank_le_2[of "finality e"] rank_finality[of e i]
    by (auto simp: collected_def)
  have "(\<exists>e\<in>set (map snd m). ?up e) \<longleftrightarrow> (\<exists>e\<in>E. ?up e)"
    by (rule collected_ex[OF assms(1)]) (auto simp: sameFacts_inRole)
  moreover have "set (map snd m) \<subseteq> E" using collected_entry[OF assms(1)] by auto
  ultimately show ?thesis using eq by (metis (no_types, lifting) in_mono)
qed

lemma two_in_distinct: "distinct xs \<Longrightarrow> 1 < length xs \<longleftrightarrow> (\<exists>a\<in>set xs. \<exists>b\<in>set xs. a \<noteq> b)"
  by (cases xs rule: list.exhaust; cases "tl xs") auto

lemma collected_twice:
  assumes "collected i E m"
  shows "1 < length (filter (inRole r) (map snd m)) \<longleftrightarrow>
     (\<exists>a\<in>E. \<exists>b\<in>E. inRole r a \<and> inRole r b \<and> \<not> sameEvent a b)"
proof -
  let ?f = "filter (\<lambda>x. inRole r (snd x)) m"
  have valid: "validEvent e i" if "e \<in> E" for e using assms that by (simp add: collected_def)
  have "distinct ?f" using assms by (auto simp: collected_def distinct_map)
  have "length (filter (inRole r) (map snd m)) = length ?f"
    by (simp add: filter_map comp_def)
  also have "1 < length ?f \<longleftrightarrow> (\<exists>a\<in>set m. \<exists>b\<in>set m. inRole r (snd a) \<and> inRole r (snd b) \<and> a \<noteq> b)"
    unfolding two_in_distinct[OF \<open>distinct ?f\<close>] set_filter by blast
  also have "\<dots> \<longleftrightarrow> (\<exists>a\<in>E. \<exists>b\<in>E. inRole r a \<and> inRole r b \<and> \<not> sameEvent a b)" (is "?L \<longleftrightarrow> ?R")
  proof
    assume ?L
    then obtain k a l b where *: "(k, a) \<in> set m" "(l, b) \<in> set m" "inRole r a" "inRole r b"
      "(k, a) \<noteq> (l, b)" by (metis prod.collapse)
    then have "k \<noteq> l" using assms by (metis collected_lookup option.inject)
    with * have "\<not> sameEvent a b"
      using eventKey_eq_iff[of a i b i] collected_entry[OF assms] by metis
    with * collected_entry[OF assms] show ?R by blast
  next
    assume ?R
    then obtain a b where ab: "a \<in> E" "b \<in> E" "inRole r a" "inRole r b" "\<not> sameEvent a b" by blast
    then obtain a' b' where *: "(eventKey a, a') \<in> set m" "sameFacts a' a"
      "(eventKey b, b') \<in> set m" "sameFacts b' b" using collected_cover[OF assms] by meson
    moreover have "eventKey a \<noteq> eventKey b"
      using ab valid eventKey_eq_iff[of a i b i] by blast
    moreover have "inRole r a'" "inRole r b'"
      using ab *(2,4) sameFacts_inRole by blast+
    ultimately show ?L
      by (intro bexI[of _ "(eventKey a, a')"] bexI[of _ "(eventKey b, b')"]) auto
  qed
  finally show ?thesis .
qed

lemma filter_lengths_cover:
  assumes "\<And>x. \<not> (P x \<and> Q x)"
  shows "length (filter P xs) + length (filter Q xs) \<noteq> length xs \<longleftrightarrow> (\<exists>x\<in>set xs. \<not> P x \<and> \<not> Q x)"
proof -
  have le: "length (filter P ys) + length (filter Q ys) \<le> length ys" for ys
    using assms by (induction ys) auto
  show ?thesis
  proof (induction xs)
    case (Cons x xs)
    then show ?case using le[of xs] assms[of x] by auto
  qed simp
qed

lemma roles_disjoint: "\<not> (inRole (sourceRole d) e \<and> inRole (destinationRole d) e)"
  by (auto simp: inRole_def sourceRole_def destinationRole_def split: if_splits)

lemma first_finalized:
  "length (filter P xs) \<le> 1 \<Longrightarrow>
   (case filter P xs of [] \<Rightarrow> False | d # _ \<Rightarrow> Q d) \<longleftrightarrow> (\<exists>e\<in>set xs. P e \<and> Q e)"
proof -
  assume "length (filter P xs) \<le> 1"
  moreover have "(\<exists>e\<in>set xs. P e \<and> Q e) \<longleftrightarrow> (\<exists>e\<in>set (filter P xs). Q e)" by auto
  ultimately show ?thesis
    by (cases "filter P xs"; cases "tl (filter P xs)") auto
qed


definition startsFinal :: "transferEvent list \<Rightarrow> bool" where
  "startsFinal es = (case es of [] \<Rightarrow> False | e # _ \<Rightarrow> isFinalized e)"

lemma projectMessage_decide:
  assumes "validIdentity i" "collectEvents i evs = Inr obs"
    and "ss = filter (inRole (sourceRole (direction i))) obs"
    and "ds = filter (inRole (destinationRole (direction i))) obs"
  shows "(status (projectMessage i evs manual), pendingAmount (projectMessage i evs manual)) =
    decide (\<exists>e\<in>set obs. isReorged e) (length ss + length ds \<noteq> length obs)
      (1 < length ss \<or> 1 < length ds) (ss \<noteq> []) (ds \<noteq> []) (startsFinal ss) (startsFinal ds)
      manual (amount i)"
  using assms(1,2) unfolding assms(3,4)
  by (simp add: projectMessage_def decide_def Let_def list_ex_iff startsFinal_def isReorged_def
      isFinalized_def split: list.split)

lemma decide_cong:
  "reorg = reorg' \<Longrightarrow> outside = outside' \<Longrightarrow> twice = twice' \<Longrightarrow> src = src' \<Longrightarrow> dst = dst' \<Longrightarrow>
   (\<not> reorg \<Longrightarrow> \<not> twice \<Longrightarrow> srcFinal = srcFinal' \<and> dstFinal = dstFinal') \<Longrightarrow>
   decide reorg outside twice src dst srcFinal dstFinal manual amt
     = decide reorg' outside' twice' src' dst' srcFinal' dstFinal' manual amt"
  by (auto simp: decide_def)

lemma projectMessage_inconsistent:
  "\<not> validIdentity i \<or> \<not> consistent i (set evs) \<Longrightarrow>
   status (projectMessage i evs manual) = Inconsistent \<and> pendingAmount (projectMessage i evs manual) = None"
  by (cases rule: collectEvents_cases[of i evs])
    (auto simp: projectMessage_def Let_def dest: collected_consistent)

lemma collected_startsFinal:
  assumes "collected i E m" "\<not> (\<exists>e\<in>E. isReorged e)" "\<not> 1 < length (filter (inRole r) (map snd m))"
  shows "startsFinal (filter (inRole r) (map snd m)) \<longleftrightarrow> (\<exists>e\<in>E. inRole r e \<and> isFinalized e)"
  unfolding collected_finalized[OF assms(1,2), symmetric] startsFinal_def
  using assms(3) by (intro first_finalized) simp

lemma projectMessage_consistent:
  assumes "validIdentity i" "collectEvents i evs = Inr (map snd m)" "collected i (set evs) m"
  shows "(status (projectMessage i evs manual), pendingAmount (projectMessage i evs manual))
           = statusSpec i (set evs) manual"
proof -
  note col = assms(3)
  have some: "filter (inRole r) (map snd m) \<noteq> [] \<longleftrightarrow> (\<exists>e\<in>set evs. inRole r e)" for r
    unfolding collected_inRole[OF col, symmetric] by (auto simp: filter_empty_conv)
  let ?src = "sourceRole (direction i)" and ?dst = "destinationRole (direction i)"
  have spec: "statusSpec i (set evs) manual =
      decide (\<exists>e\<in>set (map snd m). isReorged e)
        (length (filter (inRole ?src) (map snd m)) + length (filter (inRole ?dst) (map snd m))
          \<noteq> length (map snd m))
        (1 < length (filter (inRole ?src) (map snd m)) \<or> 1 < length (filter (inRole ?dst) (map snd m)))
        (filter (inRole ?src) (map snd m) \<noteq> []) (filter (inRole ?dst) (map snd m) \<noteq> [])
        (\<exists>e\<in>set evs. inRole ?src e \<and> isFinalized e) (\<exists>e\<in>set evs. inRole ?dst e \<and> isFinalized e)
        manual (amount i)"
    unfolding filter_lengths_cover[OF roles_disjoint] some collected_twice[OF col]
      collected_reorged[OF col] collected_outside[OF col] statusSpec_def Let_def
    using assms(1) collected_consistent[OF col] by simp
  show ?thesis
    unfolding projectMessage_decide[OF assms(1,2) refl refl] spec
    by (rule decide_cong)
      (use collected_startsFinal[OF col] collected_reorged[OF col] in blast)+
qed

lemma projectMessage_spec:
  "(status (projectMessage i evs manual), pendingAmount (projectMessage i evs manual))
     = statusSpec i (set evs) manual"
proof (cases "validIdentity i \<and> consistent i (set evs)")
  case False
  then show ?thesis using projectMessage_inconsistent[of i evs manual]
    by (auto simp: statusSpec_def Let_def)
next
  case True
  then show ?thesis
    by (cases rule: collectEvents_cases[of i evs]) (auto intro: projectMessage_consistent)
qed

lemma projectMessage_status: "status (projectMessage i evs m) = fst (statusSpec i (set evs) m)"
  and projectMessage_pending: "pendingAmount (projectMessage i evs m) = snd (statusSpec i (set evs) m)"
  using projectMessage_spec[of i evs m] by (metis fst_conv, metis snd_conv)

lemma statusSpec_settled:
  "fst (statusSpec i E m) = Settled \<Longrightarrow> validIdentity i
     \<and> (\<exists>e\<in>E. inRole (sourceRole (direction i)) e \<and> isFinalized e)
     \<and> (\<exists>e\<in>E. inRole (destinationRole (direction i)) e \<and> isFinalized e)"
  by (simp add: statusSpec_def decide_def Let_def split: if_splits)

lemma statusSpec_both_final:
  "validIdentity i \<Longrightarrow> \<exists>e\<in>E. inRole (sourceRole (direction i)) e \<and> isFinalized e \<Longrightarrow>
   \<exists>e\<in>E. inRole (destinationRole (direction i)) e \<and> isFinalized e \<Longrightarrow>
   fst (statusSpec i E m) =
     (if \<not> consistent i E then Inconsistent else if \<exists>e\<in>E. isReorged e then Unknown
      else if fst (statusSpec i E m) = Settled then Settled else Inconsistent)"
  by (auto simp: statusSpec_def decide_def Let_def)

lemma statusSpec_reorged:
  "\<exists>e\<in>E. isReorged e \<Longrightarrow> statusSpec i E m \<in> {(Unknown, None), (Inconsistent, None)}"
  by (simp add: statusSpec_def decide_def Let_def)


section \<open>Properties\<close>

text \<open>
  C1. The projection implements its specification: the status and the pending amount are those of
  the set of observations, so replayed and reordered observations change nothing; a reorg makes
  the status unknown until the observation is replaced; both events finalized settle.
\<close>

theorem projectMessage_refines_spec:
  "(status (projectMessage i evs manual), pendingAmount (projectMessage i evs manual))
     = statusSpec i (set evs) manual"
  by (rule projectMessage_spec)

lemma settled_mono:
  assumes "set evs \<subseteq> set evs'" "status (projectMessage i evs m) = Settled"
  shows "status (projectMessage i evs' m) = Settled \<or> status (projectMessage i evs' m) = Inconsistent
    \<or> (status (projectMessage i evs' m) = Unknown \<and> (\<exists>e\<in>set evs'. isReorged e))"
proof -
  from assms(2) have "validIdentity i" and
    "\<exists>e\<in>set evs'. inRole (sourceRole (direction i)) e \<and> isFinalized e"
    "\<exists>e\<in>set evs'. inRole (destinationRole (direction i)) e \<and> isFinalized e"
    using statusSpec_settled assms(1) unfolding projectMessage_status by blast+
  from statusSpec_both_final[OF this, of m] show ?thesis
    unfolding projectMessage_status by (simp split: if_splits)
qed

text \<open>
  Observations only add up: however many further observations arrive, a settled transfer stays
  settled unless one of them contradicts the others or is a reorg; and once a reorg is observed
  no further observation makes the transfer settled, pending or ready for manual execution.
\<close>

lemma projectMessage_more_events:
  assumes "set evs \<subseteq> set evs'"
  shows "(status (projectMessage i evs m) = Settled \<longrightarrow>
            status (projectMessage i evs' m) = Settled \<or> status (projectMessage i evs' m) = Inconsistent
            \<or> (status (projectMessage i evs' m) = Unknown \<and> (\<exists>e\<in>set evs'. isReorged e)))
       \<and> ((\<exists>e\<in>set evs. isReorged e) \<longrightarrow>
            status (projectMessage i evs' m) \<in> {Unknown, Inconsistent}
            \<and> pendingAmount (projectMessage i evs' m) = None)"
proof (intro conjI impI)
  show "status (projectMessage i evs' m) = Settled \<or> status (projectMessage i evs' m) = Inconsistent
      \<or> (status (projectMessage i evs' m) = Unknown \<and> (\<exists>e\<in>set evs'. isReorged e))"
    if "status (projectMessage i evs m) = Settled"
    using assms that by (rule settled_mono)
  assume "\<exists>e\<in>set evs. isReorged e"
  with assms have "statusSpec i (set evs') m \<in> {(Unknown, None), (Inconsistent, None)}"
    by (intro statusSpec_reorged) blast
  then show "status (projectMessage i evs' m) \<in> {Unknown, Inconsistent}"
    and "pendingAmount (projectMessage i evs' m) = None"
    by (auto simp: projectMessage_status projectMessage_pending)
qed

text \<open>A transfer with its finalized lock, and the same with its finalized mint.\<close>

definition exampleIdentity :: transferIdentity where
  "exampleIdentity = \<lparr>messageId = ''m'', direction = ''ethereum-to-solana'', amount = 5,
     sourceToken = ''e'', destinationToken = ''s'', recipient = ''r''\<rparr>"

definition exampleEvent :: "chain \<Rightarrow> eventKind \<Rightarrow> string \<Rightarrow> transferEvent" where
  "exampleEvent c k f = \<lparr>messageId = ''m'', direction = ''ethereum-to-solana'', amount = 5,
     sourceToken = ''e'', destinationToken = ''s'', recipient = ''r'', eventChain = c,
     eventKindOf = k, transactionId = ''t'', eventIndex = JNum 0, blockHash = ''b'',
     blockHeight = 1, finality = f\<rparr>"

lemma example_settled:
  "status (projectMessage exampleIdentity
     [exampleEvent Ethereum Lock ''finalized'', exampleEvent Solana Mint ''finalized''] False) = Settled"
  by (simp add: projectMessage_def collectEvents_def exampleIdentity_def exampleEvent_def
      validIdentity_def validEvent_def matches_def directions_def MAX_SAFE_INTEGER_def Let_def
      eventKey_def inRole_def sourceRole_def destinationRole_def)

end
