(* ===== verification/HexText.thy ===== *)
theory HexText
  imports JsonText
begin

text \<open>
  Lower-case hexadecimal text of bytes, \<open>buffer.toString("hex")\<close>, a list of numbers below 256
  standing for a byte array.
\<close>

definition hexByte :: "nat \<Rightarrow> string" where
  "hexByte b = [hexDigit (b div 16), hexDigit (b mod 16)]"

definition hexBytes :: "nat list \<Rightarrow> string" where
  "hexBytes bs = concat (map hexByte bs)"

lemma hexDigit_of: "d < 16 \<Longrightarrow> isHexLower (hexDigit d)"
  by (cases "d < 10")
     (simp_all add: isHexLower_def isDigit_def less_eq_char_def hexDigit_def of_char_of take_bit_nat_eq_self)

lemma hexDigit_inj: "a < 16 \<Longrightarrow> b < 16 \<Longrightarrow> hexDigit a = hexDigit b \<longleftrightarrow> a = b"
  by (metis hexVal_hexDigit)

lemma hexByte_inj: "a < 256 \<Longrightarrow> b < 256 \<Longrightarrow> hexByte a = hexByte b \<longleftrightarrow> a = b"
proof
  assume *: "a < 256" "b < 256" "hexByte a = hexByte b"
  then have "a div 16 < 16" "b div 16 < 16" "a mod 16 < 16" "b mod 16 < 16" by simp_all
  with * have "a div 16 = b div 16" "a mod 16 = b mod 16" by (simp_all add: hexByte_def hexDigit_inj)
  then show "a = b" by (metis div_mult_mod_eq)
qed simp

lemma hexBytes_inj:
  "list_all (\<lambda>b. b < 256) as \<Longrightarrow> list_all (\<lambda>b. b < 256) bs \<Longrightarrow> hexBytes as = hexBytes bs \<Longrightarrow> as = bs"
proof (induction as arbitrary: bs)
  case Nil
  then show ?case by (cases bs) (auto simp: hexBytes_def hexByte_def)
next
  case (Cons a as)
  from Cons.prems obtain b bs' where bs: "bs = b # bs'"
    by (cases bs) (auto simp: hexBytes_def hexByte_def)
  with Cons.prems have "hexByte a @ hexBytes as = hexByte b @ hexBytes bs'"
    by (simp add: hexBytes_def)
  moreover have "length (hexByte a) = length (hexByte b)" by (simp add: hexByte_def)
  ultimately have "hexByte a = hexByte b" "hexBytes as = hexBytes bs'" by simp_all
  moreover have "as = bs'" using Cons.IH Cons.prems bs \<open>hexBytes as = hexBytes bs'\<close> by simp
  ultimately show ?case using Cons.prems bs by (simp add: hexByte_inj)
qed

lemma length_hexBytes [simp]: "length (hexBytes bs) = 2 * length bs"
  by (induction bs) (simp_all add: hexBytes_def hexByte_def)

lemma hexBytes_hex: "list_all (\<lambda>b. b < 256) bs \<Longrightarrow> list_all isHexLower (hexBytes bs)"
  by (induction bs) (auto simp: hexBytes_def hexByte_def intro!: hexDigit_of)

end
