(* ===== verification/GenesisModel.thy ===== *)
theory GenesisModel
  imports HexText
begin

text \<open>
  \<open>genesis-manifest/domain/model.ts\<close>: diagnostics, canonical unsigned integers, allocation
  ids, and the normalisation of a set of allocations, whose loop state is the record
  \<open>normState\<close>.
\<close>

section \<open>Constants and diagnostics\<close>

definition ALLOCATION_DOMAIN :: string where
  "ALLOCATION_DOMAIN = ''0x4147544d41495f414c4c4f434154494f4e5f5631000000000000000000000000''"

definition UINT256_MAX :: int where "UINT256_MAX = 2 ^ 256 - 1"
definition UINT64_MAX :: int where "UINT64_MAX = 2 ^ 64 - 1"

record tokenProfile =
  tokenName :: string
  tokenSymbol :: string
  tokenDecimals :: jsval

definition EXPECTED_TOKEN :: tokenProfile where
  "EXPECTED_TOKEN = \<lparr>tokenName = ''Agent Teams AI'', tokenSymbol = ''AGTMAI'', tokenDecimals = JNum 9\<rparr>"

record sourcePosition =
  posLine :: nat
  posColumn :: nat
  posOffset :: nat

record diagnostic =
  code :: string
  pointer :: string
  message :: string
  position :: "sourcePosition option"

definition diagError :: "string \<Rightarrow> string \<Rightarrow> string \<Rightarrow> diagnostic" where
  "diagError c p m = \<lparr>code = c, pointer = p, message = m, position = None\<rparr>"

fun offsetOf :: "sourcePosition option \<Rightarrow> int" where
  "offsetOf None = -1"
| "offsetOf (Some p) = int (posOffset p)"

text \<open>\<open>a || b\<close> on comparison results: the next criterion when this one is 0.\<close>

definition orElse :: "int \<Rightarrow> int \<Rightarrow> int" where
  "orElse a b = (if a \<noteq> 0 then a else b)"

definition compareDiagnostics :: "diagnostic \<Rightarrow> diagnostic \<Rightarrow> int" where
  "compareDiagnostics l r = orElse (compareText (pointer l) (pointer r))
     (orElse (compareText (code l) (code r))
       (orElse (offsetOf (position l) - offsetOf (position r))
         (compareText (message l) (message r))))"

section \<open>Canonical unsigned integers\<close>

fun parseCanonicalUint :: "jsval \<Rightarrow> int \<Rightarrow> int option" where
  "parseCanonicalUint (JStr text) mx =
     (if length text > 78 \<or> \<not> canonicalDec text then None
      else let value = int (undec text) in if value \<le> mx then Some value else None)"
| "parseCanonicalUint _ mx = None"

declare parseCanonicalUint.simps [simp del]

lemma parseCanonicalUint_Some_iff:
  assumes "mx \<le> UINT256_MAX"
  shows "parseCanonicalUint (JStr s) mx = Some n \<longleftrightarrow> 0 \<le> n \<and> n \<le> mx \<and> s = decInt n"
proof -
  have "length (decInt n) \<le> 78" if "0 \<le> n" "n \<le> mx"
  proof -
    have "n < 10 ^ 78" using that assms by (simp add: UINT256_MAX_def)
    with that show ?thesis using length_decInt_le[of n 78] by simp
  qed
  then show ?thesis by (auto simp: parseCanonicalUint.simps Let_def decInt_def canonicalDec_iff not_less)
qed

lemma parseCanonicalUint_string:
  "parseCanonicalUint v mx = Some n \<Longrightarrow> \<exists>s. v = JStr s"
  by (cases v) (auto simp: parseCanonicalUint.simps)

interpretation uint64: decimal_codec "\<lambda>s. parseCanonicalUint (JStr s) UINT64_MAX" UINT64_MAX
  by unfold_locales (simp_all add: parseCanonicalUint_Some_iff UINT64_MAX_def UINT256_MAX_def)

interpretation uint256: decimal_codec "\<lambda>s. parseCanonicalUint (JStr s) UINT256_MAX" UINT256_MAX
  by unfold_locales (simp_all add: parseCanonicalUint_Some_iff)

section \<open>Allocation ids\<close>

definition isIdChar :: "char \<Rightarrow> bool" where
  "isIdChar c \<longleftrightarrow> isLower c \<or> isDigit c"

text \<open>\<open>/^[a-z0-9](?:[a-z0-9-]{0,29}[a-z0-9])?$/\<close>\<close>

definition matchesId :: "string \<Rightarrow> bool" where
  "matchesId s \<longleftrightarrow> 1 \<le> length s \<and> length s \<le> 31 \<and> isIdChar (hd s) \<and> isIdChar (last s)
     \<and> list_all (\<lambda>c. isIdChar c \<or> c = CHR ''-'') s"

fun encodeAllocationId :: "jsval \<Rightarrow> string option" where
  "encodeAllocationId (JStr ident) =
     (if \<not> matchesId ident then None
      else if list_ex (\<lambda>c. of_char c > (127::nat) \<or> of_char c = (0::nat)) ident then None
      else Some (''0x'' @ hexBytes (map of_char ident @ replicate (32 - length ident) 0)))"
| "encodeAllocationId _ = None"

section \<open>Allocations\<close>

record sourceAllocation =
  srcId :: string
  srcRecipient :: string
  srcAmount :: string
  srcBps :: jsval

record normalizedAllocation =
  normId :: string
  idBytes32 :: string
  normRecipient :: string
  normAmount :: string
  normBps :: jsval

datatype recipientProfile = LocalFixture | Deployment

definition validateAllocationId :: "string \<Rightarrow> string \<Rightarrow> string set \<Rightarrow> diagnostic list
    \<Rightarrow> string option \<times> string set \<times> diagnostic list" where
  "validateAllocationId ident ptr seen ds =
    (case encodeAllocationId (JStr ident) of
       None \<Rightarrow> (None, seen, ds @ [diagError ''GENESIS_ID_INVALID'' (ptr @ ''/id'')
         ''must be 1-31 lowercase ASCII [a-z0-9-] and start/end alphanumeric''])
     | Some encoded \<Rightarrow>
         if encoded \<in> seen then (None, seen, ds @ [diagError ''GENESIS_ID_DUPLICATE'' (ptr @ ''/id'')
           ''duplicate encoded allocation id''])
         else (Some encoded, insert encoded seen, ds))"

text \<open>\<open>/^0x0{36}100[1-9]$/\<close>\<close>

definition localAllowlisted :: "string \<Rightarrow> bool" where
  "localAllowlisted s \<longleftrightarrow> length s = 42 \<and> take 41 s = ''0x'' @ replicate 36 (CHR ''0'') @ ''100''
     \<and> CHR ''1'' \<le> last s \<and> last s \<le> CHR ''9''"

definition validateRecipient :: "string \<Rightarrow> string \<Rightarrow> string set \<Rightarrow> diagnostic list \<Rightarrow> recipientProfile
    \<Rightarrow> string option \<times> string set \<times> diagnostic list" where
  "validateRecipient recipient ptr seen ds profile =
    (if \<not> matchesHex 40 recipient then
       (None, seen, ds @ [diagError ''GENESIS_RECIPIENT_INVALID'' (ptr @ ''/recipient'')
         ''must be lowercase 0x plus 40 hex digits''])
     else if recipient = zeroHex 40 then
       (None, seen, ds @ [diagError ''GENESIS_RECIPIENT_ZERO'' (ptr @ ''/recipient'')
         ''zero address is forbidden''])
     else if recipient \<in> seen then
       (None, seen, ds @ [diagError ''GENESIS_RECIPIENT_DUPLICATE'' (ptr @ ''/recipient'')
         ''duplicate 20-byte recipient''])
     else if profile = LocalFixture \<and> \<not> localAllowlisted recipient then
       (None, seen, ds @ [diagError ''GENESIS_RECIPIENT_NOT_ALLOWLISTED'' (ptr @ ''/recipient'')
         ''recipient is outside the local test address allowlist''])
     else (Some recipient, insert recipient seen, ds))"

definition validateAmount :: "string \<Rightarrow> string \<Rightarrow> diagnostic list \<Rightarrow> int option \<times> diagnostic list" where
  "validateAmount amountText ptr ds =
    (let amount = parseCanonicalUint (JStr amountText) UINT256_MAX in
     if amount = None \<or> amount = Some 0 then
       (None, ds @ [diagError ''GENESIS_AMOUNT_INVALID'' (ptr @ ''/amountBaseUnits'')
         ''must be a positive canonical uint256 decimal string''])
     else (amount, ds))"

definition bpsInRange :: "jsval \<Rightarrow> bool" where
  "bpsInRange v \<longleftrightarrow> (case v of JNum n \<Rightarrow> 0 \<le> n \<and> n \<le> 10000 | _ \<Rightarrow> False)"

fun theNum :: "jsval \<Rightarrow> int" where
  "theNum (JNum n) = n"
| "theNum _ = 0"

definition validateBps :: "jsval \<Rightarrow> int option \<Rightarrow> int option \<Rightarrow> string \<Rightarrow> diagnostic list
    \<Rightarrow> int option \<times> diagnostic list" where
  "validateBps bps supply amount ptr ds =
    (if bps = JUndef then (None, ds)
     else if \<not> bpsInRange bps then
       (None, ds @ [diagError ''GENESIS_BPS_INVALID'' (ptr @ ''/bps'') ''must be an integer from 0 through 10000''])
     else if supply \<noteq> None \<and> amount \<noteq> None \<and> the amount * 10000 \<noteq> the supply * theNum bps then
       (Some (theNum bps), ds @ [diagError ''GENESIS_BPS_AMOUNT_MISMATCH'' (ptr @ ''/bps'')
         ''bps verification does not exactly match the authoritative base-unit amount''])
     else (Some (theNum bps), ds))"

record normState =
  diags :: "diagnostic list"
  accepted :: "normalizedAllocation list"
  seenIds :: "string set"
  seenRecipients :: "string set"
  amountSum :: int
  bpsSum :: int
  hasBps :: bool

definition nullish :: "int option \<Rightarrow> int" where
  "nullish v = (case v of None \<Rightarrow> 0 | Some n \<Rightarrow> n)"

definition normalizeStep :: "recipientProfile \<Rightarrow> int option \<Rightarrow> nat \<times> sourceAllocation \<Rightarrow> normState \<Rightarrow> normState" where
  "normalizeStep profile supply entry st =
    (let allocation = snd entry; ptr = ''/allocations/'' @ dec (fst entry);
         (idB, ids, ds1) = validateAllocationId (srcId allocation) ptr (seenIds st) (diags st);
         (rcp, rcps, ds2) = validateRecipient (srcRecipient allocation) ptr (seenRecipients st) ds1 profile;
         (amt, ds3) = validateAmount (srcAmount allocation) ptr ds2;
         (bps, ds4) = validateBps (srcBps allocation) supply amt ptr ds3 in
     \<lparr>diags = ds4,
      accepted = (if idB \<noteq> None \<and> rcp \<noteq> None \<and> amt \<noteq> None \<and> amt \<noteq> Some 0
        then accepted st @ [\<lparr>normId = srcId allocation, idBytes32 = the idB, normRecipient = the rcp,
               normAmount = decInt (the amt), normBps = srcBps allocation\<rparr>]
        else accepted st),
      seenIds = ids, seenRecipients = rcps,
      amountSum = amountSum st + nullish amt,
      bpsSum = bpsSum st + nullish bps,
      hasBps = (hasBps st \<or> srcBps allocation \<noteq> JUndef)\<rparr>)"

definition amountInvalidSupply :: diagnostic where
  "amountInvalidSupply = diagError ''GENESIS_AMOUNT_INVALID'' ''/token/initialSupplyBaseUnits''
     ''must be a positive canonical uint64 decimal string''"

definition allocationCountInvalid :: diagnostic where
  "allocationCountInvalid = diagError ''GENESIS_ALLOCATION_COUNT_INVALID'' ''/allocations''
     ''must contain 1 through 32 allocations''"

text \<open>
  The second argument is \<open>None\<close> when the argument is not an array. The result is the ordered
  diagnostics and, when there are none, the allocations in the order of their encoded ids.
\<close>

definition normalizeAllocationSet :: "string \<Rightarrow> sourceAllocation list option \<Rightarrow> recipientProfile
    \<Rightarrow> diagnostic list \<times> normalizedAllocation list option" where
  "normalizeAllocationSet supplyText source profile =
    (case source of None \<Rightarrow> ([allocationCountInvalid], None)
     | Some allocs \<Rightarrow>
       let supply = parseCanonicalUint (JStr supplyText) UINT64_MAX;
           ds0 = (if supply = None \<or> supply = Some 0 then [amountInvalidSupply] else []);
           ds1 = (if length allocs < 1 \<or> length allocs > 32 then ds0 @ [allocationCountInvalid] else ds0);
           st = fold (normalizeStep profile supply) (enumerate 0 allocs)
             \<lparr>diags = ds1, accepted = [], seenIds = {}, seenRecipients = {}, amountSum = 0,
              bpsSum = 0, hasBps = False\<rparr>;
           ds2 = (if supply \<noteq> None \<and> amountSum st \<noteq> the supply
             then diags st @ [diagError ''GENESIS_ALLOCATION_SUM_MISMATCH'' ''/allocations''
               (''allocation sum '' @ decInt (amountSum st) @ '' does not equal initial supply '' @ decInt (the supply))]
             else diags st);
           ds3 = (if hasBps st \<and> (list_ex (\<lambda>a. srcBps a = JUndef) allocs \<or> bpsSum st \<noteq> 10000)
             then ds2 @ [diagError ''GENESIS_BPS_SUM_MISMATCH'' ''/allocations''
               ''when present, bps are required on every allocation and must sum to 10000'']
             else ds2);
           ordered = toSorted compareDiagnostics ds3
       in if length ordered > 0 then (ordered, None)
          else (ordered, Some (toSorted (compareKey idBytes32) (accepted st))))"

section \<open>Local fixtures\<close>

record localGenesisSource =
  lgPurpose :: string
  lgStatus :: string
  lgNetworkKind :: string
  lgChainId :: string
  lgToken :: tokenProfile
  lgInitialSupply :: string
  lgAllocations :: "sourceAllocation list"

definition validateSourceProfile :: "localGenesisSource \<Rightarrow> diagnostic list" where
  "validateSourceProfile value =
    (let supply = parseCanonicalUint (JStr (lgInitialSupply value)) UINT256_MAX in
     (if supply = None \<or> supply = Some 0 then
        [diagError ''GENESIS_AMOUNT_INVALID'' ''/token/initialSupplyBaseUnits''
          ''must be a positive canonical uint256 decimal string'']
      else if the supply > UINT64_MAX then
        [diagError ''GENESIS_SPL_SUPPLY_OVERFLOW'' ''/token/initialSupplyBaseUnits''
          ''must fit the selected SPL-compatible uint64 profile'']
      else [])
     @ (if parseCanonicalUint (JStr (lgChainId value)) UINT256_MAX = None then
          [diagError ''GENESIS_CHAIN_ID_INVALID'' ''/network/chainId'' ''must be a canonical uint256 decimal string'']
        else [])
     @ (if lgChainId value \<noteq> ''31337'' \<or> lgNetworkKind value \<noteq> ''local-evm'' then
          [diagError ''GENESIS_NETWORK_MISMATCH'' ''/network'' ''local fixtures are restricted to local-evm chain 31337'']
        else [])
     @ (if lgPurpose value \<noteq> ''local-fixture'' \<or> lgStatus value \<noteq> ''test-only'' then
          [diagError ''GENESIS_PURPOSE_STATUS_MISMATCH'' [] ''only purpose local-fixture with status test-only is compilable'']
        else [])
     @ (if lgToken value \<noteq> EXPECTED_TOKEN then
          [diagError ''GENESIS_TOKEN_PROFILE_MISMATCH'' ''/token'' ''token identity must match the AGTMAI local profile'']
        else []))"

definition normalizeLocalSource :: "localGenesisSource \<Rightarrow> diagnostic list \<times> normalizedAllocation list option" where
  "normalizeLocalSource value =
    (let ds = validateSourceProfile value;
         normalized = normalizeAllocationSet (lgInitialSupply value) (Some (lgAllocations value)) LocalFixture;
         all = toSorted compareDiagnostics (ds @ fst normalized)
     in if length all > 0 then (all, None) else normalized)"

section \<open>Encoded ids\<close>

lemma isIdChar_code: "isIdChar c \<or> c = CHR ''-'' \<Longrightarrow> 0 < (of_char c :: nat) \<and> (of_char c :: nat) \<le> 127"
  by (auto simp: isIdChar_def isLower_def isDigit_def less_eq_char_def)

text \<open>The two checks on character codes inside the encoding loop never fire.\<close>

lemma encodeAllocationId_Some_iff:
  "encodeAllocationId (JStr s) = Some e \<longleftrightarrow>
     matchesId s \<and> e = ''0x'' @ hexBytes (map of_char s @ replicate (32 - length s) 0)"
proof (cases "matchesId s")
  case True
  then have "\<not> list_ex (\<lambda>c. of_char c > (127::nat) \<or> of_char c = (0::nat)) s"
    using isIdChar_code by (fastforce simp: matchesId_def list_all_iff list_ex_iff not_less)
  with True show ?thesis by (subst encodeAllocationId.simps(1)) auto
next
  case False
  then show ?thesis by simp
qed

declare encodeAllocationId.simps(1) [simp del]

lemma encodeAllocationId_None_iff: "encodeAllocationId (JStr s) = None \<longleftrightarrow> \<not> matchesId s"
  using encodeAllocationId_Some_iff[of s] by (metis not_Some_eq)

lemma pad_inj:
  assumes "xs @ replicate m (0::nat) = ys @ replicate n 0" "0 \<notin> set xs" "0 \<notin> set ys"
  shows "xs = ys"
proof -
  have *: "filter (\<lambda>b. b \<noteq> 0) (zs @ replicate k (0::nat)) = zs" if "0 \<notin> set zs" for zs k
    using that by (induction zs) auto
  from assms show ?thesis by (metis *)
qed

lemma encodeAllocationId_inj:
  assumes "encodeAllocationId (JStr a) = Some e" "encodeAllocationId (JStr b) = Some e"
  shows "a = b"
proof -
  let ?p = "\<lambda>s. map of_char s @ replicate (32 - length s) (0::nat)"
  have bound: "list_all (\<lambda>b. b < 256) (?p s)" for s
    by (auto simp: list_all_iff)
  have nz: "0 \<notin> set (map of_char s :: nat list)" if "matchesId s" for s
    using that isIdChar_code by (fastforce simp: matchesId_def list_all_iff)
  from assms have m: "matchesId a" "matchesId b" and "hexBytes (?p a) = hexBytes (?p b)"
    by (auto simp: encodeAllocationId_Some_iff)
  then have "?p a = ?p b" using hexBytes_inj bound by blast
  then have "map (of_char :: char \<Rightarrow> nat) a = map of_char b" using pad_inj nz m by blast
  then show ?thesis by (simp add: inj_map_eq_map inj_on_def)
qed

lemma encodeAllocationId_bytes32:
  assumes "encodeAllocationId (JStr s) = Some e"
  shows "matchesHex 64 e"
proof -
  let ?p = "map of_char s @ replicate (32 - length s) (0::nat)"
  from assms have m: "matchesId s" and e: "e = ''0x'' @ hexBytes ?p"
    by (auto simp: encodeAllocationId_Some_iff)
  then have "length ?p = 32" by (simp add: matchesId_def)
  moreover have "list_all isHexLower (hexBytes ?p)"
    by (rule hexBytes_hex) (auto simp: list_all_iff)
  ultimately show ?thesis by (simp add: e matchesHex_def)
qed

section \<open>What a set of allocations must satisfy\<close>

definition amountOf :: "sourceAllocation \<Rightarrow> int" where
  "amountOf a = int (undec (srcAmount a))"

definition recipientOk :: "recipientProfile \<Rightarrow> string \<Rightarrow> bool" where
  "recipientOk profile r \<longleftrightarrow> matchesHex 40 r \<and> r \<noteq> zeroHex 40 \<and> (profile = LocalFixture \<longrightarrow> localAllowlisted r)"

definition amountOk :: "string \<Rightarrow> bool" where
  "amountOk s \<longleftrightarrow> canonicalDec s \<and> 0 < undec s \<and> int (undec s) \<le> UINT256_MAX"

definition bpsOk :: "int \<Rightarrow> sourceAllocation \<Rightarrow> bool" where
  "bpsOk supply a \<longleftrightarrow> bpsInRange (srcBps a) \<and> amountOf a * 10000 = supply * theNum (srcBps a)"

text \<open>
  The contract of a set: \<open>supply\<close> is its total, ids and recipients are well formed and
  pairwise different, amounts are positive and add up to the supply, and basis points, when
  given, are given everywhere and are exact shares of the supply.
\<close>

definition allocationsOk :: "recipientProfile \<Rightarrow> int \<Rightarrow> sourceAllocation list \<Rightarrow> bool" where
  "allocationsOk profile supply as \<longleftrightarrow>
     1 \<le> length as \<and> length as \<le> 32
   \<and> list_all (\<lambda>a. matchesId (srcId a) \<and> recipientOk profile (srcRecipient a) \<and> amountOk (srcAmount a)) as
   \<and> distinct (map srcId as) \<and> distinct (map srcRecipient as)
   \<and> sum_list (map amountOf as) = supply
   \<and> (list_all (\<lambda>a. srcBps a = JUndef) as \<or> list_all (bpsOk supply) as)"

definition encoded :: "sourceAllocation \<Rightarrow> string" where
  "encoded a = the (encodeAllocationId (JStr (srcId a)))"

definition normalizedOf :: "sourceAllocation \<Rightarrow> normalizedAllocation" where
  "normalizedOf a = \<lparr>normId = srcId a, idBytes32 = encoded a, normRecipient = srcRecipient a,
     normAmount = srcAmount a, normBps = srcBps a\<rparr>"

section \<open>The loop\<close>

text \<open>The checks of one turn of the loop that leaves no diagnostic.\<close>

definition turnClean :: "recipientProfile \<Rightarrow> int option \<Rightarrow> string set \<Rightarrow> string set \<Rightarrow> sourceAllocation \<Rightarrow> bool" where
  "turnClean profile supply ids rcps a \<longleftrightarrow>
     matchesId (srcId a) \<and> encoded a \<notin> ids
   \<and> recipientOk profile (srcRecipient a) \<and> srcRecipient a \<notin> rcps
   \<and> amountOk (srcAmount a)
   \<and> (srcBps a = JUndef \<or> (bpsInRange (srcBps a) \<and>
        (supply \<noteq> None \<longrightarrow> amountOf a * 10000 = the supply * theNum (srcBps a))))"

lemma parse_amount: "parseCanonicalUint (JStr s) UINT256_MAX =
    (if canonicalDec s \<and> int (undec s) \<le> UINT256_MAX then Some (int (undec s)) else None)"
proof (cases "parseCanonicalUint (JStr s) UINT256_MAX")
  case None
  then have "\<not> (canonicalDec s \<and> int (undec s) \<le> UINT256_MAX)"
    using uint256.read_decInt[of "int (undec s)"] by auto
  with None show ?thesis by auto
next
  case (Some n)
  then have "0 \<le> n" "n \<le> UINT256_MAX" "s = decInt n" using uint256.read_Some by blast+
  with Some show ?thesis by simp
qed

lemma validateAmount_eq:
  "validateAmount s ptr ds = (if amountOk s then (Some (int (undec s)), ds)
     else (None, ds @ [diagError ''GENESIS_AMOUNT_INVALID'' (ptr @ ''/amountBaseUnits'')
         ''must be a positive canonical uint256 decimal string'']))"
  by (simp add: validateAmount_def parse_amount amountOk_def Let_def)

lemma validateAllocationId_clean:
  "matchesId s \<Longrightarrow> the (encodeAllocationId (JStr s)) \<notin> ids \<Longrightarrow>
   validateAllocationId s ptr ids ds
     = (encodeAllocationId (JStr s), insert (the (encodeAllocationId (JStr s))) ids, ds)"
  using encodeAllocationId_None_iff[of s] by (auto simp: validateAllocationId_def split: option.splits)

lemma validateAllocationId_diags:
  "\<exists>new. snd (snd (validateAllocationId s ptr ids ds)) = ds @ new
     \<and> (new = [] \<longleftrightarrow> matchesId s \<and> the (encodeAllocationId (JStr s)) \<notin> ids)"
  using encodeAllocationId_None_iff[of s] by (auto simp: validateAllocationId_def split: option.splits)

lemma validateRecipient_clean:
  "recipientOk profile r \<Longrightarrow> r \<notin> rcps \<Longrightarrow> validateRecipient r ptr rcps ds profile = (Some r, insert r rcps, ds)"
  by (auto simp: validateRecipient_def recipientOk_def)

lemma validateRecipient_diags:
  "\<exists>new. snd (snd (validateRecipient r ptr rcps ds profile)) = ds @ new
     \<and> (new = [] \<longleftrightarrow> recipientOk profile r \<and> r \<notin> rcps)"
  by (auto simp: validateRecipient_def recipientOk_def)

lemma validateBps_diags:
  "\<exists>new. snd (validateBps b supply amt ptr ds) = ds @ new
     \<and> (new = [] \<longleftrightarrow> b = JUndef \<or> (bpsInRange b \<and>
          (supply \<noteq> None \<and> amt \<noteq> None \<longrightarrow> the amt * 10000 = the supply * theNum b)))"
  by (auto simp: validateBps_def)

lemma validateBps_clean:
  "b = JUndef \<or> (bpsInRange b \<and> (supply \<noteq> None \<longrightarrow> x * 10000 = the supply * theNum b)) \<Longrightarrow>
   validateBps b supply (Some x) ptr ds = (if b = JUndef then None else Some (theNum b), ds)"
  by (auto simp: validateBps_def)

lemma normalizeStep_diags:
  "\<exists>new. diags (normalizeStep profile supply e st) = diags st @ new
     \<and> (new = [] \<longleftrightarrow> turnClean profile supply (seenIds st) (seenRecipients st) (snd e))"
proof -
  let ?a = "snd e"
  define p where "p = ''/allocations/'' @ dec (fst e)"
  obtain i ids d1 where 1: "validateAllocationId (srcId ?a) p (seenIds st) (diags st) = (i, ids, d1)"
    by (metis prod_cases3)
  obtain r rs d2 where 2: "validateRecipient (srcRecipient ?a) p (seenRecipients st) d1 profile = (r, rs, d2)"
    by (metis prod_cases3)
  obtain m d3 where 3: "validateAmount (srcAmount ?a) p d2 = (m, d3)" by fastforce
  obtain b d4 where 4: "validateBps (srcBps ?a) supply m p d3 = (b, d4)" by fastforce
  obtain n1 where n1: "d1 = diags st @ n1"
      "n1 = [] \<longleftrightarrow> matchesId (srcId ?a) \<and> encoded ?a \<notin> seenIds st"
    using validateAllocationId_diags[of "srcId ?a" p "seenIds st" "diags st"] 1
    by (auto simp: encoded_def)
  obtain n2 where n2: "d2 = d1 @ n2"
      "n2 = [] \<longleftrightarrow> recipientOk profile (srcRecipient ?a) \<and> srcRecipient ?a \<notin> seenRecipients st"
    using validateRecipient_diags[of "srcRecipient ?a" p "seenRecipients st" d1 profile] 2 by auto
  obtain n3 where n3: "d3 = d2 @ n3" "n3 = [] \<longleftrightarrow> amountOk (srcAmount ?a)"
      "n3 = [] \<Longrightarrow> m = Some (amountOf ?a)"
    using 3 by (auto simp: validateAmount_eq amountOf_def split: if_splits)
  obtain n4 where n4: "d4 = d3 @ n4"
      "n4 = [] \<longleftrightarrow> srcBps ?a = JUndef \<or> (bpsInRange (srcBps ?a) \<and>
          (supply \<noteq> None \<and> m \<noteq> None \<longrightarrow> the m * 10000 = the supply * theNum (srcBps ?a)))"
    using validateBps_diags[of "srcBps ?a" "supply" m p d3] 4 by auto
  have "diags (normalizeStep profile supply e st) = d4"
    unfolding normalizeStep_def Let_def p_def[symmetric] by (simp add: 1 2 3 4)
  then have "diags (normalizeStep profile supply e st) = diags st @ (n1 @ n2 @ n3 @ n4)"
    using n1(1) n2(1) n3(1) n4(1) by simp
  moreover have "n1 @ n2 @ n3 @ n4 = [] \<longleftrightarrow> turnClean profile supply (seenIds st) (seenRecipients st) ?a"
    using n1(2) n2(2) n3(2,3) n4(2) unfolding turnClean_def by auto
  ultimately show ?thesis by blast
qed

lemma normalizeStep_clean:
  assumes "turnClean profile supply (seenIds st) (seenRecipients st) (snd e)"
  shows "normalizeStep profile supply e st = \<lparr>diags = diags st,
     accepted = accepted st @ [normalizedOf (snd e)],
     seenIds = insert (encoded (snd e)) (seenIds st),
     seenRecipients = insert (srcRecipient (snd e)) (seenRecipients st),
     amountSum = amountSum st + amountOf (snd e),
     bpsSum = bpsSum st + (if srcBps (snd e) = JUndef then 0 else theNum (srcBps (snd e))),
     hasBps = (hasBps st \<or> srcBps (snd e) \<noteq> JUndef)\<rparr>"
proof -
  have c: "turnClean profile supply (seenIds st) (seenRecipients st) (snd e)" by (rule assms)
  note c = c[unfolded turnClean_def encoded_def]
  from c have "encodeAllocationId (JStr (srcId (snd e))) \<noteq> None"
    by (simp add: encodeAllocationId_None_iff)
  moreover from c have "canonicalDec (srcAmount (snd e))" "undec (srcAmount (snd e)) \<noteq> 0"
    by (auto simp: amountOk_def)
  moreover from c have "decInt (amountOf (snd e)) = srcAmount (snd e)"
    by (simp add: amountOk_def amountOf_def)
  ultimately show ?thesis
    using c by (simp add: normalizeStep_def Let_def validateAllocationId_clean validateRecipient_clean
      validateAmount_eq validateBps_clean amountOf_def normalizedOf_def encoded_def nullish_def)
qed

fun allClean :: "recipientProfile \<Rightarrow> int option \<Rightarrow> string set \<Rightarrow> string set \<Rightarrow> sourceAllocation list \<Rightarrow> bool" where
  "allClean profile supply ids rcps [] = True"
| "allClean profile supply ids rcps (a # as) =
     (turnClean profile supply ids rcps a
      \<and> allClean profile supply (insert (encoded a) ids) (insert (srcRecipient a) rcps) as)"

lemma normalizeLoop_extends:
  "\<exists>new. diags (fold (normalizeStep profile supply) es st) = diags st @ new"
proof (induction es arbitrary: st)
  case Nil
  then show ?case by simp
next
  case (Cons e es)
  obtain n1 where "diags (normalizeStep profile supply e st) = diags st @ n1"
    using normalizeStep_diags by blast
  moreover obtain n2 where "diags (fold (normalizeStep profile supply) es (normalizeStep profile supply e st))
      = diags (normalizeStep profile supply e st) @ n2"
    using Cons.IH by blast
  ultimately show ?case by simp
qed

lemma normalizeLoop_clean:
  "diags (fold (normalizeStep profile supply) es st) = [] \<longleftrightarrow>
     diags st = [] \<and> allClean profile supply (seenIds st) (seenRecipients st) (map snd es)"
proof (induction es arbitrary: st)
  case Nil
  then show ?case by simp
next
  case (Cons e es)
  obtain new where new: "diags (normalizeStep profile supply e st) = diags st @ new"
      "new = [] \<longleftrightarrow> turnClean profile supply (seenIds st) (seenRecipients st) (snd e)"
    using normalizeStep_diags by blast
  show ?case
  proof (cases "turnClean profile supply (seenIds st) (seenRecipients st) (snd e)")
    case True
    then show ?thesis by (simp add: Cons.IH normalizeStep_clean)
  next
    case False
    with new show ?thesis by (simp add: Cons.IH)
  qed
qed

lemma normalizeLoop_result:
  "allClean profile supply (seenIds st) (seenRecipients st) (map snd es) \<Longrightarrow>
   accepted (fold (normalizeStep profile supply) es st) = accepted st @ map (normalizedOf \<circ> snd) es
 \<and> amountSum (fold (normalizeStep profile supply) es st) = amountSum st + sum_list (map (amountOf \<circ> snd) es)
 \<and> bpsSum (fold (normalizeStep profile supply) es st)
     = bpsSum st + sum_list (map (\<lambda>e. if srcBps (snd e) = JUndef then 0 else theNum (srcBps (snd e))) es)
 \<and> hasBps (fold (normalizeStep profile supply) es st)
     = (hasBps st \<or> list_ex (\<lambda>e. srcBps (snd e) \<noteq> JUndef) es)"
proof (induction es arbitrary: st)
  case Nil
  then show ?case by simp
next
  case (Cons e es)
  from Cons.prems have e: "turnClean profile supply (seenIds st) (seenRecipients st) (snd e)" by simp
  with Cons.prems have "allClean profile supply (seenIds (normalizeStep profile supply e st))
      (seenRecipients (normalizeStep profile supply e st)) (map snd es)"
    by (simp add: normalizeStep_clean)
  from Cons.IH[OF this] e show ?case by (simp add: normalizeStep_clean)
qed

lemma encoded_inj: "matchesId (srcId a) \<Longrightarrow> matchesId (srcId b) \<Longrightarrow> encoded a = encoded b \<longleftrightarrow> srcId a = srcId b"
  using encodeAllocationId_inj[of "srcId a" "encoded a" "srcId b"]
    encodeAllocationId_None_iff[of "srcId a"] encodeAllocationId_None_iff[of "srcId b"]
  by (cases "encodeAllocationId (JStr (srcId a))"; cases "encodeAllocationId (JStr (srcId b))")
     (simp_all add: encoded_def, metis option.sel)

lemma allClean_iff:
  "allClean profile supply ids rcps as \<longleftrightarrow>
     (\<forall>a\<in>set as. turnClean profile supply ids rcps a)
   \<and> distinct (map srcId as) \<and> distinct (map srcRecipient as)"
proof (induction as arbitrary: ids rcps)
  case Nil
  then show ?case by simp
next
  case (Cons a as)
  have *: "turnClean profile supply (insert (encoded a) ids) (insert (srcRecipient a) rcps) b \<longleftrightarrow>
      turnClean profile supply ids rcps b \<and> srcId b \<noteq> srcId a \<and> srcRecipient b \<noteq> srcRecipient a"
    if "matchesId (srcId a)" for b
    using that encoded_inj[of b a] unfolding turnClean_def by auto
  show ?case
  proof (cases "turnClean profile supply ids rcps a")
    case True
    then have "matchesId (srcId a)" by (simp add: turnClean_def)
    with True show ?thesis by (simp add: Cons.IH * image_iff) metis
  next
    case False
    then show ?thesis by simp
  qed
qed

text \<open>The final check of the sum of the basis points only ever rejects sets that leave some out.\<close>

lemma bps_sum_redundant:
  assumes "list_all (bpsOk supply) as" "sum_list (map amountOf as) = supply" "supply \<noteq> 0"
  shows "sum_list (map (theNum \<circ> srcBps) as) = 10000"
proof -
  have "sum_list (map amountOf as) * 10000 = supply * sum_list (map (theNum \<circ> srcBps) as)"
    using assms(1) by (induction as) (auto simp: bpsOk_def algebra_simps)
  with assms(2,3) show ?thesis by simp
qed


section \<open>The result of the normalisation\<close>

lemma parse_supply: "parseCanonicalUint (JStr s) UINT64_MAX = Some n \<longleftrightarrow> 0 \<le> n \<and> n \<le> UINT64_MAX \<and> s = decInt n"
  by (rule uint64.read_iff)

definition loopResult :: "recipientProfile \<Rightarrow> int option \<Rightarrow> sourceAllocation list \<Rightarrow> diagnostic list \<Rightarrow> normState" where
  "loopResult profile supply as ds = fold (normalizeStep profile supply) (enumerate 0 as)
     \<lparr>diags = ds, accepted = [], seenIds = {}, seenRecipients = {}, amountSum = 0, bpsSum = 0, hasBps = False\<rparr>"

lemma loopResult_clean: "diags (loopResult profile supply as ds) = [] \<longleftrightarrow> ds = [] \<and> allClean profile supply {} {} as"
  by (simp add: loopResult_def normalizeLoop_clean)

lemma list_ex_snd_enumerate: "list_ex (\<lambda>e. Q (snd e)) (enumerate n as) = list_ex Q as"
  by (induction as arbitrary: n) auto

lemma loopResult_fields:
  assumes "allClean profile supply {} {} as"
  shows "accepted (loopResult profile supply as ds) = map normalizedOf as"
    and "amountSum (loopResult profile supply as ds) = sum_list (map amountOf as)"
    and "bpsSum (loopResult profile supply as ds)
      = sum_list (map (\<lambda>a. if srcBps a = JUndef then 0 else theNum (srcBps a)) as)"
    and "hasBps (loopResult profile supply as ds) = list_ex (\<lambda>a. srcBps a \<noteq> JUndef) as"
proof -
  have m: "map (f \<circ> snd) (enumerate 0 as) = map f as" for f :: "sourceAllocation \<Rightarrow> 'z"
    by (metis map_map map_snd_enumerate)
  note * = normalizeLoop_result[of profile "supply" "\<lparr>diags = ds, accepted = [], seenIds = {}, seenRecipients = {},
      amountSum = 0, bpsSum = 0, hasBps = False\<rparr>" "enumerate 0 as", folded loopResult_def]
  show "accepted (loopResult profile supply as ds) = map normalizedOf as"
    using * assms m[of normalizedOf] by simp
  show "amountSum (loopResult profile supply as ds) = sum_list (map amountOf as)"
    using * assms m[of amountOf] by simp
  show "bpsSum (loopResult profile supply as ds)
      = sum_list (map (\<lambda>a. if srcBps a = JUndef then 0 else theNum (srcBps a)) as)"
    using * assms m[of "\<lambda>a. if srcBps a = JUndef then 0 else theNum (srcBps a)"] by (simp add: comp_def)
  show "hasBps (loopResult profile supply as ds) = list_ex (\<lambda>a. srcBps a \<noteq> JUndef) as"
    using * assms list_ex_snd_enumerate[of "\<lambda>a. srcBps a \<noteq> JUndef" 0 as] by simp
qed

lemma allClean_contract:
  assumes "0 < supply"
  shows "1 \<le> length as \<and> length as \<le> 32 \<and> allClean profile (Some supply) {} {} as
      \<and> sum_list (map amountOf as) = supply
      \<and> \<not> (list_ex (\<lambda>a. srcBps a \<noteq> JUndef) as \<and> (list_ex (\<lambda>a. srcBps a = JUndef) as \<or>
           sum_list (map (\<lambda>a. if srcBps a = JUndef then 0 else theNum (srcBps a)) as) \<noteq> 10000))
    \<longleftrightarrow> allocationsOk profile supply as" (is "?L \<longleftrightarrow> ?R")
proof
  assume L: ?L
  then have "list_all (\<lambda>a. srcBps a = JUndef) as \<or> list_all (bpsOk supply) as"
    by (fastforce simp: allClean_iff turnClean_def list_ex_iff list_all_iff bpsOk_def)
  with L show ?R
    by (simp add: allocationsOk_def allClean_iff turnClean_def list_all_iff)
next
  assume R: ?R
  have defined: "srcBps a \<noteq> JUndef" if "bpsOk supply a" for a
    using that by (auto simp: bpsOk_def bpsInRange_def)
  have bps: "list_all (\<lambda>a. srcBps a = JUndef) as \<or> list_all (bpsOk supply) as"
    using R by (simp add: allocationsOk_def)
  have clean: "allClean profile (Some supply) {} {} as"
    using R bps by (auto simp: allocationsOk_def allClean_iff turnClean_def list_all_iff bpsOk_def)
  have "\<not> (list_ex (\<lambda>a. srcBps a \<noteq> JUndef) as \<and> (list_ex (\<lambda>a. srcBps a = JUndef) as \<or>
           sum_list (map (\<lambda>a. if srcBps a = JUndef then 0 else theNum (srcBps a)) as) \<noteq> 10000))"
    using bps
  proof
    assume "list_all (\<lambda>a. srcBps a = JUndef) as"
    then show ?thesis by (auto simp: list_ex_iff list_all_iff)
  next
    assume all: "list_all (bpsOk supply) as"
    have "sum_list (map (theNum \<circ> srcBps) as) = 10000"
      by (rule bps_sum_redundant[OF all]) (use R assms in \<open>simp_all add: allocationsOk_def\<close>)
    moreover have "sum_list (map (\<lambda>a. if srcBps a = JUndef then 0 else theNum (srcBps a)) as)
        = sum_list (map (theNum \<circ> srcBps) as)"
      using all defined by (intro arg_cong[where f = sum_list] map_cong) (auto simp: list_all_iff)
    moreover have "\<not> list_ex (\<lambda>a. srcBps a = JUndef) as"
      using all defined by (auto simp: list_all_iff list_ex_iff)
    ultimately show ?thesis by simp
  qed
  with R clean show ?L by (simp add: allocationsOk_def)
qed

lemma normalizeAllocationSet_unfold:
  "normalizeAllocationSet supplyText (Some as) profile =
    (let supply = parseCanonicalUint (JStr supplyText) UINT64_MAX;
         ds0 = (if supply = None \<or> supply = Some 0 then [amountInvalidSupply] else []);
         ds1 = (if length as < 1 \<or> length as > 32 then ds0 @ [allocationCountInvalid] else ds0);
         st = loopResult profile supply as ds1;
         ds2 = (if supply \<noteq> None \<and> amountSum st \<noteq> the supply
             then diags st @ [diagError ''GENESIS_ALLOCATION_SUM_MISMATCH'' ''/allocations''
               (''allocation sum '' @ decInt (amountSum st) @ '' does not equal initial supply '' @ decInt (the supply))]
             else diags st);
         ds3 = (if hasBps st \<and> (list_ex (\<lambda>a. srcBps a = JUndef) as \<or> bpsSum st \<noteq> 10000)
             then ds2 @ [diagError ''GENESIS_BPS_SUM_MISMATCH'' ''/allocations''
               ''when present, bps are required on every allocation and must sum to 10000'']
             else ds2);
         ordered = toSorted compareDiagnostics ds3
       in if length ordered > 0 then (ordered, None)
          else (ordered, Some (toSorted (compareKey idBytes32) (accepted st))))"
  unfolding normalizeAllocationSet_def loopResult_def by simp

lemma normalizeAllocationSet_correct:
  "normalizeAllocationSet supplyText (Some as) profile = (ds, Some out) \<longleftrightarrow>
     ds = [] \<and> (\<exists>supply. 0 < supply \<and> supply \<le> UINT64_MAX \<and> supplyText = decInt supply
       \<and> allocationsOk profile supply as)
     \<and> out = toSorted (compareKey idBytes32) (map normalizedOf as)"
proof (cases "\<exists>supply. 0 < supply \<and> supply \<le> UINT64_MAX \<and> supplyText = decInt supply")
  case False
  then have bad: "parseCanonicalUint (JStr supplyText) UINT64_MAX = None
      \<or> parseCanonicalUint (JStr supplyText) UINT64_MAX = Some 0"
    by (metis not_Some_eq order_le_less parse_supply)
  then have "diags (loopResult profile (parseCanonicalUint (JStr supplyText) UINT64_MAX) as (amountInvalidSupply # xs)) \<noteq> []" for xs
    by (simp add: loopResult_clean)
  with False bad show ?thesis
    by (auto simp: normalizeAllocationSet_unfold Let_def)
next
  case True
  then obtain S where sup: "0 < S" "S \<le> UINT64_MAX" "supplyText = decInt S"
    and parsed: "parseCanonicalUint (JStr supplyText) UINT64_MAX = Some S"
    by (metis order_less_imp_le parse_supply)
  have uniq: "S' = S" if "0 < S'" "supplyText = decInt S'" for S'
    using that sup by (simp add: decInt_inj_nonneg)
  define ds1 where "ds1 = (if length as < 1 \<or> length as > 32 then [allocationCountInvalid] else [])"
  define st where "st = loopResult profile (Some S) as ds1"
  have clean: "diags st = [] \<longleftrightarrow> 1 \<le> length as \<and> length as \<le> 32 \<and> allClean profile (Some S) {} {} as"
    by (auto simp: st_def loopResult_clean ds1_def Suc_le_eq)
  have unf: "normalizeAllocationSet supplyText (Some as) profile = (ds, Some out) \<longleftrightarrow>
      diags st = [] \<and> amountSum st = S \<and> \<not> (hasBps st \<and> (list_ex (\<lambda>a. srcBps a = JUndef) as \<or> bpsSum st \<noteq> 10000))
      \<and> ds = [] \<and> out = toSorted (compareKey idBytes32) (accepted st)"
    unfolding normalizeAllocationSet_unfold parsed Let_def
    using sup by (auto simp: st_def ds1_def)
  show ?thesis
  proof (cases "diags st = []")
    case False
    then have "\<not> allocationsOk profile S as"
      using clean allClean_contract[OF sup(1), of as profile] by blast
    with False unf uniq show ?thesis by auto
  next
    case True
    with clean have "allClean profile (Some S) {} {} as" by simp
    note fields = loopResult_fields[OF this, of ds1, folded st_def]
    have ex: "(\<exists>supply. 0 < supply \<and> supply \<le> UINT64_MAX \<and> supplyText = decInt supply
        \<and> allocationsOk profile supply as) \<longleftrightarrow> allocationsOk profile S as"
      using sup uniq by blast
    show ?thesis
      unfolding unf fields ex
      using True clean allClean_contract[OF sup(1), of as profile] by blast
  qed
qed


section \<open>The order of diagnostics\<close>

lemma orElse_pos: "0 < orElse a b \<longleftrightarrow> 0 < a \<or> a = 0 \<and> 0 < b"
  by (auto simp: orElse_def)

lemma orElse_nonpos: "orElse a b \<le> 0 \<longleftrightarrow> a < 0 \<or> a = 0 \<and> b \<le> 0"
  by (auto simp: orElse_def)

lemma compareText_nonpos: "compareText a b \<le> 0 \<longleftrightarrow> a \<le> b"
  and compareText_neg: "compareText a b < 0 \<longleftrightarrow> a < b"
  and compareText_pos: "0 < compareText a b \<longleftrightarrow> b < a"
  and compareText_zero: "compareText a b = 0 \<longleftrightarrow> a = b"
  by (auto simp: compareText_def)

lemma compareDiagnostics_le:
  "compareDiagnostics l r \<le> 0 \<longleftrightarrow>
     pointer l < pointer r \<or> pointer l = pointer r \<and>
     (code l < code r \<or> code l = code r \<and>
     (offsetOf (position l) < offsetOf (position r) \<or> offsetOf (position l) = offsetOf (position r) \<and>
      message l \<le> message r))"
  by (simp add: compareDiagnostics_def orElse_nonpos compareText_nonpos compareText_neg compareText_zero)

interpretation diag_order: comparator compareDiagnostics
proof
  show "compareDiagnostics y x \<le> 0" if "0 < compareDiagnostics x y" for x y
    using that unfolding compareDiagnostics_le
    by (auto simp: compareDiagnostics_def orElse_pos compareText_pos compareText_zero)
  show "compareDiagnostics x z \<le> 0" if "compareDiagnostics x y \<le> 0" "compareDiagnostics y z \<le> 0" for x y z
    using that unfolding compareDiagnostics_le
    by (elim disjE conjE) (simp_all, (meson less_trans order_trans)+)
qed

section \<open>Local sources\<close>

text \<open>The header of a local fixture that \<open>validateSourceProfile\<close> accepts.\<close>

definition localHeaderOk :: "localGenesisSource \<Rightarrow> bool" where
  "localHeaderOk v \<longleftrightarrow> lgChainId v = ''31337'' \<and> lgNetworkKind v = ''local-evm''
     \<and> lgPurpose v = ''local-fixture'' \<and> lgStatus v = ''test-only'' \<and> lgToken v = EXPECTED_TOKEN"

lemma validateSourceProfile_clean:
  "validateSourceProfile v = [] \<longleftrightarrow> localHeaderOk v \<and>
     (\<exists>supply. 0 < supply \<and> supply \<le> UINT64_MAX \<and> lgInitialSupply v = decInt supply)"
proof -
  have chain: "parseCanonicalUint (JStr ''31337'') UINT256_MAX \<noteq> None"
    by code_simp
  have le: "UINT64_MAX \<le> UINT256_MAX" by code_simp
  have sup: "(let supply = parseCanonicalUint (JStr (lgInitialSupply v)) UINT256_MAX in
       supply \<noteq> None \<and> supply \<noteq> Some 0 \<and> the supply \<le> UINT64_MAX) \<longleftrightarrow>
     (\<exists>supply. 0 < supply \<and> supply \<le> UINT64_MAX \<and> lgInitialSupply v = decInt supply)"
  proof (cases "parseCanonicalUint (JStr (lgInitialSupply v)) UINT256_MAX")
    case None
    then show ?thesis
      using uint256.read_decInt le by (metis option.distinct(1) order_less_imp_le order_trans)
  next
    case (Some n)
    then have "0 \<le> n" "lgInitialSupply v = decInt n" using uint256.read_Some by blast+
    with Some show ?thesis by (auto simp: decInt_inj_nonneg)
  qed
  show ?thesis
    unfolding sup[symmetric] using chain
    by (auto simp: validateSourceProfile_def localHeaderOk_def Let_def)
qed

lemma normalizeLocalSource_correct:
  "normalizeLocalSource v = (ds, Some out) \<longleftrightarrow> ds = [] \<and> localHeaderOk v
     \<and> normalizeAllocationSet (lgInitialSupply v) (Some (lgAllocations v)) LocalFixture = ([], Some out)"
proof -
  obtain nd no where n: "normalizeAllocationSet (lgInitialSupply v) (Some (lgAllocations v)) LocalFixture = (nd, no)"
    by fastforce
  show ?thesis
    using normalizeAllocationSet_correct[of "lgInitialSupply v" "lgAllocations v" LocalFixture nd out]
    by (auto simp: normalizeLocalSource_def n Let_def validateSourceProfile_clean)
qed


section \<open>Properties\<close>

lemma normalizeAllocationSet_fst:
  "snd (normalizeAllocationSet supplyText (Some as) profile) = Some out \<longleftrightarrow>
   normalizeAllocationSet supplyText (Some as) profile = ([], Some out)"
  using normalizeAllocationSet_correct[of supplyText as profile _ out]
  by (metis prod.collapse snd_conv)

lemma sum_list_perm: "mset xs = mset ys \<Longrightarrow> sum_list (map f xs) = sum_list (map f ys)"
  for f :: "'a \<Rightarrow> int"
  by (metis mset_map sum_mset_sum_list)

lemma allocationsOk_perm:
  assumes "mset as = mset bs"
  shows "allocationsOk profile supply as = allocationsOk profile supply bs"
proof -
  have *: "list_all Q as = list_all Q bs" for Q
    using mset_eq_setD[OF assms] by (simp add: list_all_iff)
  have d: "distinct (map f as) = distinct (map f bs)" for f :: "sourceAllocation \<Rightarrow> string"
    by (rule mset_eq_imp_distinct_iff) (simp only: mset_map assms)
  have s: "sum_list (map amountOf as) = sum_list (map amountOf bs)"
    by (rule sum_list_perm[OF assms])
  have l: "length as = length bs" using assms by (rule mset_eq_length)
  show ?thesis
    unfolding allocationsOk_def by (simp only: * d s l)
qed

lemma inj_normalized:
  assumes "allocationsOk profile supply as"
  shows "inj_on idBytes32 (set (map normalizedOf as))"
proof (rule inj_onI)
  fix x y assume "x \<in> set (map normalizedOf as)" "y \<in> set (map normalizedOf as)" and eq: "idBytes32 x = idBytes32 y"
  then obtain a b where ab: "a \<in> set as" "x = normalizedOf a" "b \<in> set as" "y = normalizedOf b" by auto
  with eq have "encoded a = encoded b" by (simp add: normalizedOf_def)
  with ab assms have "srcId a = srcId b"
    by (auto simp: allocationsOk_def list_all_iff encoded_inj)
  with ab assms have "a = b"
    by (auto simp: allocationsOk_def distinct_map dest: inj_onD)
  with ab show "x = y" by simp
qed

lemma normalizeAllocationSet_perm:
  assumes "mset as = mset bs"
  shows "snd (normalizeAllocationSet supplyText (Some as) profile)
       = snd (normalizeAllocationSet supplyText (Some bs) profile)"
proof -
  have "(snd (normalizeAllocationSet supplyText (Some as) profile) = Some out) =
        (snd (normalizeAllocationSet supplyText (Some bs) profile) = Some out)" for out
  proof -
    have "toSorted (compareKey idBytes32) (map normalizedOf as)
        = toSorted (compareKey idBytes32) (map normalizedOf bs)" if "allocationsOk profile supply as" for "supply"
      by (rule compareKey_perm) (use assms inj_normalized[OF that] in simp_all)
    then show ?thesis
      unfolding normalizeAllocationSet_fst normalizeAllocationSet_correct
      using allocationsOk_perm[OF assms] by metis
  qed
  then show ?thesis by (metis not_None_eq)
qed

lemma strictly_sorted_key:
  "sorted (map f xs) \<Longrightarrow> distinct (map f xs) \<Longrightarrow> sorted_wrt (\<lambda>x y. f x < f y) xs"
  for f :: "'a \<Rightarrow> 'k::linorder"
  by (induction xs) (auto simp: order_less_le)

lemma normalizeAllocationSet_sorted:
  assumes "normalizeAllocationSet supplyText (Some as) profile = (ds, Some out)"
  shows "sorted_wrt (\<lambda>x y. idBytes32 x < idBytes32 y) out"
proof (rule strictly_sorted_key)
  from assms obtain s where ok: "allocationsOk profile s as"
    and out: "out = toSorted (compareKey idBytes32) (map normalizedOf as)"
    unfolding normalizeAllocationSet_correct by blast
  show "sorted (map idBytes32 out)"
    by (simp add: out map_toSorted_compareKey sorted_sortText)
  have "distinct (map normalizedOf as)"
    using ok by (auto simp: allocationsOk_def normalizedOf_def distinct_map inj_on_def)
  with inj_normalized[OF ok] have "distinct (map idBytes32 (map normalizedOf as))"
    unfolding distinct_map[of idBytes32] by blast
  then show "distinct (map idBytes32 out)"
    by (simp add: out map_toSorted_compareKey)
qed

lemma normalizeAllocationSet_sum:
  assumes "normalizeAllocationSet supplyText (Some as) profile = (ds, Some out)"
  shows "decInt (sum_list (map (\<lambda>a. int (undec (normAmount a))) out)) = supplyText"
proof -
  from assms obtain s where ok: "allocationsOk profile s as" "supplyText = decInt s"
    and out: "out = toSorted (compareKey idBytes32) (map normalizedOf as)"
    unfolding normalizeAllocationSet_correct by blast
  have "sum_list (map (\<lambda>a. int (undec (normAmount a))) out)
      = sum_list (map (\<lambda>a. int (undec (normAmount a))) (map normalizedOf as))"
    by (rule sum_list_perm) (simp add: out)
  also have "\<dots> = s"
    using ok(1) by (simp add: comp_def normalizedOf_def allocationsOk_def amountOf_def[abs_def])
  finally show ?thesis using ok(2) by simp
qed

text \<open>
  C9. The allocation contract: \<open>normalizeAllocationSet\<close> returns allocations for exactly the
  sets that satisfy \<open>allocationsOk\<close> for a supply text that is the decimal text of a positive
  64-bit number; it then reports no diagnostic, changes no id, recipient, amount or share, and
  orders the allocations by their encoded id.
\<close>

theorem normalizeAllocationSet_exact:
  "normalizeAllocationSet supplyText (Some as) profile = (ds, Some out) \<longleftrightarrow>
     ds = [] \<and> (\<exists>supply. 0 < supply \<and> supply \<le> UINT64_MAX \<and> supplyText = decInt supply
       \<and> allocationsOk profile supply as)
     \<and> out = toSorted (compareKey idBytes32) (map normalizedOf as)"
  by (rule normalizeAllocationSet_correct)

text \<open>
  The manifest does not depend on the order in which the source lists its allocations, and a
  returned list is strictly ascending in the encoded ids and moves no token: the amounts it holds
  add up to the supply.
\<close>

lemma normalizeAllocationSet_order:
  assumes "mset as = mset bs"
  shows "snd (normalizeAllocationSet supplyText (Some as) profile)
       = snd (normalizeAllocationSet supplyText (Some bs) profile)
    \<and> (normalizeAllocationSet supplyText (Some as) profile = (ds, Some out) \<longrightarrow>
      sorted_wrt (\<lambda>x y. idBytes32 x < idBytes32 y) out
      \<and> decInt (sum_list (map (\<lambda>a. int (undec (normAmount a))) out)) = supplyText)"
proof (intro conjI impI)
  show "snd (normalizeAllocationSet supplyText (Some as) profile)
       = snd (normalizeAllocationSet supplyText (Some bs) profile)"
    by (rule normalizeAllocationSet_perm[OF assms])
next
  assume r: "normalizeAllocationSet supplyText (Some as) profile = (ds, Some out)"
  then show "sorted_wrt (\<lambda>x y. idBytes32 x < idBytes32 y) out" by (rule normalizeAllocationSet_sorted)
  from r show "decInt (sum_list (map (\<lambda>a. int (undec (normAmount a))) out)) = supplyText"
    by (rule normalizeAllocationSet_sum)
qed

definition sampleAllocations :: "sourceAllocation list" where
  "sampleAllocations =
    [\<lparr>srcId = ''team'', srcRecipient = ''0x0000000000000000000000000000000000001002'', srcAmount = ''75'', srcBps = JNum 7500\<rparr>,
     \<lparr>srcId = ''dao'', srcRecipient = ''0x0000000000000000000000000000000000001001'', srcAmount = ''25'', srcBps = JNum 2500\<rparr>]"

text \<open>
  Allocation ids are names: the 32-byte encoding is a lower-case bytes32, and two ids with the
  same encoding are the same text.
\<close>

lemma encodeAllocationId_names:
  assumes "encodeAllocationId (JStr a) = Some e"
  shows "matchesHex 64 e \<and> (encodeAllocationId (JStr b) = Some e \<longrightarrow> b = a)"
  using assms encodeAllocationId_bytes32 encodeAllocationId_inj by blast+

text \<open>
  A local fixture compiles to allocations exactly when its header names the local EVM chain,
  purpose, status and the AGTMAI token, and its allocation set satisfies the contract of a local
  fixture, whose recipients all come from the test allowlist.
\<close>

lemma normalizeLocalSource_exact:
  "normalizeLocalSource v = (ds, Some out) \<longleftrightarrow> ds = [] \<and> localHeaderOk v
     \<and> (\<exists>supply. 0 < supply \<and> supply \<le> UINT64_MAX \<and> lgInitialSupply v = decInt supply
         \<and> allocationsOk LocalFixture supply (lgAllocations v))
     \<and> out = toSorted (compareKey idBytes32) (map normalizedOf (lgAllocations v))"
  unfolding normalizeLocalSource_correct normalizeAllocationSet_correct by blast

end
