(* ===== verification/GrantSchedule.thy ===== *)
theory GrantSchedule
  imports GenesisModel
begin

text \<open>
  \<open>genesis-manifest/domain/grant-schedule.ts\<close>: the instants of a grant's schedule. The
  calendar functions of the language that the code calls (\<open>Date\<close>, \<open>Date.UTC\<close>) are
  written out from the language's definition, in whole seconds and for years from 1970 on, the
  only ones the code reaches.
\<close>

section \<open>The language's calendar\<close>

definition isLeap :: "int \<Rightarrow> bool" where
  "isLeap y \<longleftrightarrow> y mod 4 = 0 \<and> (y mod 100 \<noteq> 0 \<or> y mod 400 = 0)"

text \<open>The day number of January 1 of a year, counted from 1970.\<close>

definition dayFromYear :: "int \<Rightarrow> int" where
  "dayFromYear y = 365 * (y - 1970) + (y - 1969) div 4 - (y - 1901) div 100 + (y - 1601) div 400"

function yearSearch :: "int \<Rightarrow> int \<Rightarrow> int" where
  "yearSearch y d = (if dayFromYear (y + 1) \<le> d then yearSearch (y + 1) d else y)"
  by pat_completeness auto

definition monthLengths :: "int \<Rightarrow> int list" where
  "monthLengths y = [31, if isLeap y then 29 else 28, 31, 30, 31, 30, 31, 31, 30, 31, 30, 31]"

fun splitMonth :: "nat \<Rightarrow> int list \<Rightarrow> int \<Rightarrow> nat \<times> int" where
  "splitMonth m [] d = (m, d)"
| "splitMonth m (l # ls) d = (if d < l then (m, d) else splitMonth (Suc m) ls (d - l))"

lemma div_step: "0 < n \<Longrightarrow> (z + 1) div n = z div n + (if n dvd z + 1 then 1 else 0)" for n :: int
proof -
  assume n: "0 < n"
  define q r where "q = z div n" and "r = z mod n"
  have z: "z = q * n + r" "0 \<le> r" "r < n" using n by (simp_all add: q_def r_def)
  show ?thesis
  proof (cases "r = n - 1")
    case True
    with z have "z + 1 = (q + 1) * n" by (simp add: algebra_simps)
    with n show ?thesis by (simp add: q_def)
  next
    case False
    with z have r: "r + 1 < n" by simp
    have e: "z + 1 = (r + 1) + q * n" using z by simp
    have "(z + 1) mod n = r + 1" unfolding e mod_mult_self1 using r z(2) by (simp add: mod_pos_pos_trivial)
    moreover have "(z + 1) div n = q"
      unfolding e using r z(2) n by (simp add: div_pos_pos_trivial del: mult.commute)
    ultimately show ?thesis using z(2) by (simp add: q_def dvd_eq_mod_eq_0)
  qed
qed

lemma isLeap_dvd: "isLeap y \<longleftrightarrow> 4 dvd y \<and> (\<not> 100 dvd y \<or> 400 dvd y)"
  by (simp add: isLeap_def dvd_eq_mod_eq_0)

lemma dayFromYear_Suc: "dayFromYear (y + 1) = dayFromYear y + (if isLeap y then 366 else 365)"
proof -
  have shift: "n dvd y - k \<longleftrightarrow> n dvd y" if "n dvd k" for n k :: int
    using that by (metis dvd_add_left_iff diff_add_cancel)
  have a: "(y + 1 - 1969) div 4 = (y - 1969) div 4 + (if 4 dvd y then 1 else 0)"
    using div_step[of 4 "y - 1969"] shift[of 4 1968] by (simp add: algebra_simps)
  have b: "(y + 1 - 1901) div 100 = (y - 1901) div 100 + (if 100 dvd y then 1 else 0)"
    using div_step[of 100 "y - 1901"] shift[of 100 1900] by (simp add: algebra_simps)
  have c: "(y + 1 - 1601) div 400 = (y - 1601) div 400 + (if 400 dvd y then 1 else 0)"
    using div_step[of 400 "y - 1601"] shift[of 400 1600] by (simp add: algebra_simps)
  have "(4::int) dvd 100" "(100::int) dvd 400" by simp_all
  then have m: "100 dvd y \<Longrightarrow> 4 dvd y" "400 dvd y \<Longrightarrow> 100 dvd y"
    using dvd_trans by blast+
  have shuffle: "365 * (y + 1 - 1970) + (A + p) - (B + q) + (C + r)
      = 365 * (y - 1970) + A - B + C + 365 + p - q + r" for A B C p q r :: int
    by simp
  have "dayFromYear (y + 1) = dayFromYear y + 365 + (if 4 dvd y then 1 else 0)
      - (if 100 dvd y then 1 else 0) + (if 400 dvd y then 1 else 0)"
    unfolding dayFromYear_def a b c by (rule shuffle)
  also have "\<dots> = dayFromYear y + (if isLeap y then 366 else 365)"
    unfolding isLeap_dvd using m by (cases "4 dvd y"; cases "100 dvd y"; cases "400 dvd y") (simp_all only: if_True if_False simp_thms)
  finally show ?thesis .
qed

termination yearSearch
  by (relation "measure (\<lambda>(y, d). nat (d - dayFromYear y))") (auto simp: dayFromYear_Suc split: if_splits)

declare yearSearch.simps [simp del]

definition secondsPerDay :: int where "secondsPerDay = 86400"

text \<open>\<open>getUTCFullYear\<close>, \<open>getUTCMonth\<close>, \<open>getUTCDate\<close> and the time of day of an instant.\<close>

definition utcFullYear :: "int \<Rightarrow> int" where
  "utcFullYear t = (let d = t div secondsPerDay in yearSearch (1970 + d div 366) d)"

definition utcMonthDate :: "int \<Rightarrow> nat \<times> int" where
  "utcMonthDate t = (let y = utcFullYear t; (m, d) = splitMonth 0 (monthLengths y) (t div secondsPerDay - dayFromYear y)
     in (m, d + 1))"

definition utcMonth :: "int \<Rightarrow> nat" where "utcMonth t = fst (utcMonthDate t)"
definition utcDate :: "int \<Rightarrow> int" where "utcDate t = snd (utcMonthDate t)"
definition utcHours :: "int \<Rightarrow> int" where "utcHours t = t mod secondsPerDay div 3600"
definition utcMinutes :: "int \<Rightarrow> int" where "utcMinutes t = t mod 3600 div 60"
definition utcSeconds :: "int \<Rightarrow> int" where "utcSeconds t = t mod 60"

text \<open>\<open>Date.UTC(year, month, day, hours, minutes, seconds) / 1000\<close>, for a month below 12.\<close>

definition dateUTC :: "int \<Rightarrow> nat \<Rightarrow> int \<Rightarrow> int \<Rightarrow> int \<Rightarrow> int \<Rightarrow> int" where
  "dateUTC y m d h mi s =
     (dayFromYear y + sum_list (take m (monthLengths y)) + (d - 1)) * secondsPerDay + h * 3600 + mi * 60 + s"

subsection \<open>Reading back a date\<close>

definition validDate :: "int \<Rightarrow> nat \<Rightarrow> int \<Rightarrow> bool" where
  "validDate y m d \<longleftrightarrow> m < 12 \<and> 1 \<le> d \<and> d \<le> monthLengths y ! m"

lemma length_monthLengths [simp]: "length (monthLengths y) = 12"
  by (simp add: monthLengths_def)

lemma monthLengths_pos: "l \<in> set (monthLengths y) \<Longrightarrow> 28 \<le> l \<and> l \<le> 31"
  by (auto simp: monthLengths_def split: if_splits)

lemma sum_monthLengths: "sum_list (monthLengths y) = (if isLeap y then 366 else 365)"
  by (simp add: monthLengths_def)

lemma splitMonth_start:
  "m < length ls \<Longrightarrow> 0 \<le> d \<Longrightarrow> d < ls ! m \<Longrightarrow> list_all (\<lambda>l. 0 \<le> l) ls \<Longrightarrow>
   splitMonth k ls (sum_list (take m ls) + d) = (k + m, d)"
proof (induction ls arbitrary: m k)
  case Nil
  then show ?case by simp
next
  case (Cons l ls)
  show ?case
  proof (cases m)
    case 0
    with Cons.prems show ?thesis by simp
  next
    case (Suc n)
    have "0 \<le> sum_list (take n ls)"
      by (rule sum_list_nonneg) (use Cons.prems(4) in \<open>auto simp: list_all_iff dest: in_set_takeD\<close>)
    moreover have "splitMonth (Suc k) ls (sum_list (take n ls) + d) = (Suc k + n, d)"
      using Cons.prems Suc by (intro Cons.IH) auto
    moreover have "l + sum_list (take n ls) + d - l = sum_list (take n ls) + d" by simp
    ultimately show ?thesis using Suc Cons.prems by simp
  qed
qed

lemma splitMonth_parts:
  "splitMonth k ls d = (k', e) \<Longrightarrow> 0 \<le> d \<Longrightarrow> d < sum_list ls \<Longrightarrow>
   k \<le> k' \<and> k' - k < length ls \<and> 0 \<le> e \<and> e < ls ! (k' - k) \<and> d = sum_list (take (k' - k) ls) + e"
proof (induction ls arbitrary: k d)
  case Nil
  then show ?case by simp
next
  case (Cons l ls)
  show ?case
  proof (cases "d < l")
    case True
    with Cons.prems show ?thesis by auto
  next
    case False
    with Cons.prems have "splitMonth (Suc k) ls (d - l) = (k', e)" by simp
    from Cons.IH[OF this] False Cons.prems
    have *: "Suc k \<le> k'" "k' - Suc k < length ls" "0 \<le> e" "e < ls ! (k' - Suc k)"
      "d - l = sum_list (take (k' - Suc k) ls) + e" by auto
    then have "k' - k = Suc (k' - Suc k)" by simp
    with * show ?thesis by auto
  qed
qed

lemma yearSearch_bounds:
  "dayFromYear y \<le> d \<Longrightarrow> dayFromYear (yearSearch y d) \<le> d \<and> d < dayFromYear (yearSearch y d + 1) \<and> y \<le> yearSearch y d"
proof (induction y d rule: yearSearch.induct)
  case (1 y d)
  then show ?case by (cases "dayFromYear (y + 1) \<le> d") (auto simp: yearSearch.simps[of y d])
qed

lemma dayFromYear_less: "y < z \<Longrightarrow> dayFromYear y + 365 * (z - y) \<le> dayFromYear z"
proof (induction "nat (z - y)" arbitrary: z)
  case 0
  then show ?case by simp
next
  case (Suc n)
  have step: "dayFromYear (z - 1) + 365 \<le> dayFromYear z"
    using dayFromYear_Suc[of "z - 1"] by (auto split: if_splits)
  show ?case
  proof (cases "y < z - 1")
    case True
    then have "dayFromYear y + 365 * (z - 1 - y) \<le> dayFromYear (z - 1)"
      using Suc by (intro Suc.hyps(1)) auto
    with step show ?thesis by (simp add: algebra_simps)
  next
    case False
    with Suc.prems have "z = y + 1" by simp
    with step show ?thesis by simp
  qed
qed

lemma year_unique:
  assumes "dayFromYear y \<le> d" "d < dayFromYear (y + 1)" "dayFromYear z \<le> d" "d < dayFromYear (z + 1)"
  shows "y = z"
  using assms dayFromYear_less[of "y + 1" z] dayFromYear_less[of "z + 1" y]
  by (cases "y + 1 < z \<or> z + 1 < y") (auto simp: not_less order_le_less)

lemma dayFromYear_estimate: "0 \<le> k \<Longrightarrow> dayFromYear (1970 + k) \<le> 366 * k"
proof (induction "nat k" arbitrary: k)
  case 0
  then show ?case by (simp add: dayFromYear_def)
next
  case (Suc n)
  then have "dayFromYear (1970 + (k - 1)) \<le> 366 * (k - 1)" by (intro Suc.hyps(1)) auto
  then show ?case using dayFromYear_Suc[of "1970 + (k - 1)"] by (auto split: if_splits simp: algebra_simps)
qed

lemma utcFullYear_bounds:
  assumes "0 \<le> t"
  shows "dayFromYear (utcFullYear t) \<le> t div secondsPerDay \<and> t div secondsPerDay < dayFromYear (utcFullYear t + 1)
    \<and> 1970 \<le> utcFullYear t"
proof -
  let ?d = "t div secondsPerDay"
  have d: "0 \<le> ?d" using assms by (simp add: secondsPerDay_def)
  have q1: "0 \<le> ?d div 366" using d by (simp add: pos_imp_zdiv_nonneg_iff)
  have "366 * (?d div 366) + ?d mod 366 = ?d" "0 \<le> ?d mod 366" by simp_all
  then have q2: "366 * (?d div 366) \<le> ?d" by linarith
  have "dayFromYear (1970 + ?d div 366) \<le> ?d"
    using dayFromYear_estimate[OF q1] q2 by linarith
  note b = yearSearch_bounds[OF this]
  have "1970 \<le> yearSearch (1970 + ?d div 366) ?d" using b q1 by linarith
  with b show ?thesis by (simp add: utcFullYear_def Let_def)
qed

lemma sum_take_le:
  "m < length ls \<Longrightarrow> list_all (\<lambda>l. 0 \<le> l) ls \<Longrightarrow> 0 \<le> sum_list (take m ls) \<and> sum_list (take m ls) + ls ! m \<le> sum_list ls"
  for ls :: "int list"
proof (induction ls arbitrary: m)
  case Nil
  then show ?case by simp
next
  case (Cons l ls)
  have "0 \<le> sum_list ls" by (rule sum_list_nonneg) (use Cons.prems in \<open>auto simp: list_all_iff\<close>)
  with Cons show ?case by (cases m) auto
qed

lemma monthLengths_nonneg: "list_all (\<lambda>l. 0 \<le> l) (monthLengths y)"
  by (simp add: monthLengths_def)

lemma dateUTC_day:
  assumes "validDate y m d" "0 \<le> h" "h < 24" "0 \<le> mi" "mi < 60" "0 \<le> s" "s < 60"
  shows "dateUTC y m d h mi s div secondsPerDay = dayFromYear y + sum_list (take m (monthLengths y)) + (d - 1)"
    and "dateUTC y m d h mi s mod secondsPerDay = h * 3600 + mi * 60 + s"
proof -
  let ?D = "dayFromYear y + sum_list (take m (monthLengths y)) + (d - 1)"
  let ?s = "h * 3600 + mi * 60 + s"
  have e: "dateUTC y m d h mi s = ?s + ?D * secondsPerDay" by (simp add: dateUTC_def)
  have b: "0 \<le> ?s" "?s < secondsPerDay" using assms by (auto simp: secondsPerDay_def)
  show "dateUTC y m d h mi s div secondsPerDay = ?D"
    unfolding e using b by (subst div_mult_self1) (simp_all add: div_pos_pos_trivial secondsPerDay_def)
  show "dateUTC y m d h mi s mod secondsPerDay = ?s"
    unfolding e using b by (simp only: mod_mult_self1 mod_pos_pos_trivial)
qed

lemma day_in_year:
  assumes "validDate y m d"
  shows "dayFromYear y \<le> dayFromYear y + sum_list (take m (monthLengths y)) + (d - 1)
    \<and> dayFromYear y + sum_list (take m (monthLengths y)) + (d - 1) < dayFromYear (y + 1)"
proof -
  have "m < length (monthLengths y)" using assms by (simp add: validDate_def)
  from sum_take_le[OF this monthLengths_nonneg] assms show ?thesis
    by (simp add: validDate_def dayFromYear_Suc sum_monthLengths)
qed

lemma dateUTC_nonneg:
  assumes "1970 \<le> y" "validDate y m d" "0 \<le> h" "0 \<le> mi" "0 \<le> s"
  shows "0 \<le> dateUTC y m d h mi s"
proof -
  have "0 \<le> dayFromYear y"
  proof (cases "y = 1970")
    case True
    then show ?thesis by (simp add: dayFromYear_def)
  next
    case False
    then have "dayFromYear 1970 + 365 * (y - 1970) \<le> dayFromYear y"
      using assms(1) by (intro dayFromYear_less) simp
    with assms(1) show ?thesis by (simp add: dayFromYear_def[of 1970])
  qed
  with day_in_year[OF assms(2)] have "0 \<le> dayFromYear y + sum_list (take m (monthLengths y)) + (d - 1)"
    by linarith
  with assms show ?thesis by (simp add: dateUTC_def secondsPerDay_def)
qed

lemma dateUTC_fields:
  assumes "1970 \<le> y" "validDate y m d" "0 \<le> h" "h < 24" "0 \<le> mi" "mi < 60" "0 \<le> s" "s < 60"
  shows "utcFullYear (dateUTC y m d h mi s) = y"
    and "utcMonthDate (dateUTC y m d h mi s) = (m, d)"
    and "utcHours (dateUTC y m d h mi s) = h"
    and "utcMinutes (dateUTC y m d h mi s) = mi"
    and "utcSeconds (dateUTC y m d h mi s) = s"
proof -
  let ?t = "dateUTC y m d h mi s"
  note day = dateUTC_day[OF assms(2-8)]
  have "0 \<le> ?t" using assms by (intro dateUTC_nonneg)
  from utcFullYear_bounds[OF this] day_in_year[OF assms(2)]
  show y: "utcFullYear ?t = y" unfolding day(1) by (intro year_unique) auto
  have "m < length (monthLengths y)" "0 \<le> d - 1" "d - 1 < monthLengths y ! m"
    using assms(2) by (auto simp: validDate_def)
  from splitMonth_start[OF this monthLengths_nonneg, of 0]
  have sp: "splitMonth 0 (monthLengths y) (sum_list (take m (monthLengths y)) + (d - 1)) = (m, d - 1)" by simp
  have "?t div secondsPerDay - dayFromYear y = sum_list (take m (monthLengths y)) + (d - 1)"
    unfolding day(1) by simp
  then show "utcMonthDate ?t = (m, d)" by (simp add: utcMonthDate_def y sp)
  show "utcHours ?t = h" unfolding utcHours_def day(2) using assms by simp
  have k: "(h * 3600 + mi * 60 + s) mod 3600 = mi * 60 + s"
  proof -
    have "(mi * 60 + s + h * 3600) mod 3600 = (mi * 60 + s) mod 3600" by (rule mod_mult_self1)
    with assms show ?thesis by (simp add: mod_pos_pos_trivial algebra_simps)
  qed
  have "?t mod 3600 = ?t mod secondsPerDay mod 3600"
    by (simp add: secondsPerDay_def mod_mod_cancel)
  then have "?t mod 3600 = mi * 60 + s" unfolding day(2) k .
  then show "utcMinutes ?t = mi" unfolding utcMinutes_def using assms by simp
  have "?t mod 60 = ?t mod 3600 mod 60" by (simp add: mod_mod_cancel)
  with \<open>?t mod 3600 = mi * 60 + s\<close> show "utcSeconds ?t = s" unfolding utcSeconds_def using assms by simp
qed

lemma fields_dateUTC:
  assumes "0 \<le> t"
  shows "validDate (utcFullYear t) (utcMonth t) (utcDate t)"
    and "dateUTC (utcFullYear t) (utcMonth t) (utcDate t) (utcHours t) (utcMinutes t) (utcSeconds t) = t"
proof -
  let ?y = "utcFullYear t"
  let ?r = "t div secondsPerDay - dayFromYear ?y"
  obtain m e where sp: "splitMonth 0 (monthLengths ?y) ?r = (m, e)" by fastforce
  have "0 \<le> ?r" "?r < sum_list (monthLengths ?y)"
    using utcFullYear_bounds[OF assms] by (simp_all add: sum_monthLengths dayFromYear_Suc)
  from splitMonth_parts[OF sp this]
  have p: "m < 12" "0 \<le> e" "e < monthLengths ?y ! m" "?r = sum_list (take m (monthLengths ?y)) + e" by auto
  have md: "utcMonth t = m" "utcDate t = e + 1"
    by (simp_all add: utcMonth_def utcDate_def utcMonthDate_def sp)
  show "validDate ?y (utcMonth t) (utcDate t)" using p by (simp add: md validDate_def)
  have "dayFromYear ?y + sum_list (take m (monthLengths ?y)) + (utcDate t - 1) = t div secondsPerDay"
    using p(4) by (simp add: md)
  then have "dateUTC ?y (utcMonth t) (utcDate t) (utcHours t) (utcMinutes t) (utcSeconds t)
      = t div secondsPerDay * secondsPerDay + (t mod secondsPerDay div 3600 * 3600 + (t mod 3600 div 60 * 60 + t mod 60))"
    by (simp add: dateUTC_def md utcHours_def utcMinutes_def utcSeconds_def)
  also have "t mod 3600 div 60 * 60 + t mod 60 = t mod 3600"
    using div_mult_mod_eq[of "t mod 3600" 60] by (simp add: mod_mod_cancel)
  also have "t mod secondsPerDay div 3600 * 3600 + t mod 3600 = t mod secondsPerDay"
    using div_mult_mod_eq[of "t mod secondsPerDay" 3600] by (simp add: mod_mod_cancel secondsPerDay_def)
  finally show "dateUTC ?y (utcMonth t) (utcDate t) (utcHours t) (utcMinutes t) (utcSeconds t) = t"
    by simp
qed

section \<open>Grant schedules\<close>

record grantSchedule =
  gsProfile :: string
  gsStart :: string
  gsCliff :: string
  gsEnd :: string
  gsRule :: "string option"

definition scheduleDiagnostic :: "string \<Rightarrow> string \<Rightarrow> diagnostic" where
  "scheduleDiagnostic c p =
     \<lparr>code = c, pointer = p, message = ''invalid or unresolved grant schedule'', position = None\<rparr>"

definition LAST_START :: int where
  "LAST_START = 253276070399"

text \<open>The text of the anniversary a number of years after an instant.\<close>

definition anniversaryTime :: "int \<Rightarrow> string option \<Rightarrow> int \<Rightarrow> int" where
  "anniversaryTime t rule years =
    (let leapDay = utcMonth t = 1 \<and> utcDate t = 29;
         targetYear = utcFullYear t + years;
         leapYear = targetYear mod 4 = 0 \<and> (targetYear mod 100 \<noteq> 0 \<or> targetYear mod 400 = 0);
         ambiguous = leapDay \<and> \<not> leapYear;
         month = if ambiguous \<and> rule = Some ''march-1'' then 2 else utcMonth t;
         day = if ambiguous then if rule = Some ''march-1'' then 1 else 28 else utcDate t
     in dateUTC targetYear month day (utcHours t) (utcMinutes t) (utcSeconds t))"

definition calendarSchedule :: "string \<Rightarrow> string option \<Rightarrow> js_error + grantSchedule" where
  "calendarSchedule start rule =
    (case parseCanonicalUint (JStr start) UINT64_MAX of
       None \<Rightarrow> Inl (Err ''DEPLOYMENT_CALENDAR_RANGE'')
     | Some t \<Rightarrow>
       if t > LAST_START then Inl (Err ''DEPLOYMENT_CALENDAR_RANGE'')
       else if rule \<noteq> None \<and> rule \<noteq> Some ''february-28'' \<and> rule \<noteq> Some ''march-1''
         then Inl (Err ''DEPLOYMENT_ANNIVERSARY_RULE'')
       else if utcMonth t = 1 \<and> utcDate t = 29 \<and> rule = None
         then Inl (Err ''DEPLOYMENT_ANNIVERSARY_RULE_REQUIRED'')
       else Inr \<lparr>gsProfile = ''calendar-12-48'', gsStart = start,
         gsCliff = decInt (anniversaryTime t rule 1), gsEnd = decInt (anniversaryTime t rule 4), gsRule = rule\<rparr>)"

fun errorMessage :: "js_error \<Rightarrow> string" where
  "errorMessage (RangeErr m) = m"
| "errorMessage (TypeErr m) = m"
| "errorMessage (Err m) = m"
| "errorMessage (PlanErr m) = m"
| "errorMessage (SyntaxErr m) = m"

definition validateGrantSchedule :: "grantSchedule \<Rightarrow> bool \<Rightarrow> string \<Rightarrow> diagnostic list" where
  "validateGrantSchedule g production ptr =
    (case (parseCanonicalUint (JStr (gsStart g)) UINT64_MAX, parseCanonicalUint (JStr (gsCliff g)) UINT64_MAX,
           parseCanonicalUint (JStr (gsEnd g)) UINT64_MAX) of
       (Some start, Some cliff, Some endd) \<Rightarrow>
         if start \<ge> cliff \<or> cliff \<ge> endd then [scheduleDiagnostic ''DEPLOYMENT_SCHEDULE_ORDER_OR_WIDTH'' ptr]
         else if gsProfile g = ''accelerated-test'' then
           (if production \<or> gsRule g \<noteq> None then [scheduleDiagnostic ''DEPLOYMENT_TEST_SCHEDULE_FORBIDDEN'' ptr] else [])
         else if gsProfile g = ''calendar-12-48'' then
           (case calendarSchedule (gsStart g) (gsRule g) of
              Inr expected \<Rightarrow>
                if gsCliff expected \<noteq> gsCliff g \<or> gsEnd expected \<noteq> gsEnd g
                then [scheduleDiagnostic ''DEPLOYMENT_CALENDAR_ANNIVERSARY'' ptr] else []
            | Inl e \<Rightarrow> [scheduleDiagnostic (errorMessage e) ptr])
         else [scheduleDiagnostic ''DEPLOYMENT_SCHEDULE_PROFILE'' ptr]
     | _ \<Rightarrow> [scheduleDiagnostic ''DEPLOYMENT_SCHEDULE_ORDER_OR_WIDTH'' ptr])"

definition acceleratedSchedule :: "string \<Rightarrow> string \<Rightarrow> string \<Rightarrow> js_error + grantSchedule" where
  "acceleratedSchedule start cliffOffset endOffset =
    (case (parseCanonicalUint (JStr start) UINT64_MAX, parseCanonicalUint (JStr cliffOffset) UINT64_MAX,
           parseCanonicalUint (JStr endOffset) UINT64_MAX) of
       (Some base, Some cliff, Some endd) \<Rightarrow>
         if cliff = 0 \<or> cliff \<ge> endd \<or> base + endd > UINT64_MAX
         then Inl (Err ''DEPLOYMENT_TEST_SCHEDULE_INVALID'')
         else Inr \<lparr>gsProfile = ''accelerated-test'', gsStart = start, gsCliff = decInt (base + cliff),
           gsEnd = decInt (base + endd), gsRule = None\<rparr>
     | _ \<Rightarrow> Inl (Err ''DEPLOYMENT_TEST_SCHEDULE_INVALID''))"

subsection \<open>Anniversaries\<close>

definition cumDays :: "nat \<Rightarrow> int" where
  "cumDays m = sum_list (take m [31, 28, 31, 30, 31, 30, 31, 31, 30, 31, 30, 31])"

lemma month_cases: "m < 12 \<Longrightarrow> m \<in> {0, 1, 2, 3, 4, 5, 6, 7, 8, 9, 10, 11}" for m :: nat
  unfolding insert_iff empty_iff by presburger

lemma cum_monthLengths:
  "m < 12 \<Longrightarrow> sum_list (take m (monthLengths y)) = cumDays m + (if 2 \<le> m \<and> isLeap y then 1 else 0)"
proof -
  assume "m < 12"
  then have "m \<in> {0, 1, 2, 3, 4, 5, 6, 7, 8, 9, 10, 11}" by (rule month_cases)
  then show ?thesis by (elim insertE emptyE) (simp_all add: monthLengths_def cumDays_def)
qed

text \<open>The day an anniversary falls on.\<close>

definition anniversaryDay :: "int \<Rightarrow> string option \<Rightarrow> int \<Rightarrow> nat \<times> int" where
  "anniversaryDay t rule years =
    (if utcMonth t = 1 \<and> utcDate t = 29 \<and> \<not> isLeap (utcFullYear t + years)
     then if rule = Some ''march-1'' then (2, 1) else (1, 28)
     else (utcMonth t, utcDate t))"

lemma anniversaryTime_eq:
  "anniversaryTime t rule years = dateUTC (utcFullYear t + years) (fst (anniversaryDay t rule years))
     (snd (anniversaryDay t rule years)) (utcHours t) (utcMinutes t) (utcSeconds t)"
  by (auto simp: anniversaryTime_def anniversaryDay_def isLeap_def Let_def)

lemma time_of_day: "0 \<le> utcHours t \<and> utcHours t < 24 \<and> 0 \<le> utcMinutes t \<and> utcMinutes t < 60
    \<and> 0 \<le> utcSeconds t \<and> utcSeconds t < 60"
proof -
  have div_less: "x div n < k" if "x < k * n" "0 < n" for x n k :: int
  proof (rule ccontr)
    assume "\<not> x div n < k"
    then have "k * n \<le> x div n * n" using that(2) by (intro mult_right_mono) simp_all
    moreover have "x div n * n + x mod n = x" "0 \<le> x mod n" using that(2) by simp_all
    ultimately show False using that(1) by linarith
  qed
  have "t mod 86400 < 24 * 3600" "t mod 3600 < 60 * 60" by simp_all
  then show ?thesis
    unfolding utcHours_def utcMinutes_def utcSeconds_def secondsPerDay_def
    using div_less[of "t mod 86400" 24 3600] div_less[of "t mod 3600" 60 60]
    by (simp add: pos_imp_zdiv_nonneg_iff)
qed

lemma monthLengths_nth:
  "validDate y m d \<Longrightarrow> \<not> (m = 1 \<and> d = 29) \<or> isLeap z \<Longrightarrow> validDate z m d"
proof -
  assume v: "validDate y m d" and n: "\<not> (m = 1 \<and> d = 29) \<or> isLeap z"
  then have "m < 12" by (simp add: validDate_def)
  then have "m \<in> {0, 1, 2, 3, 4, 5, 6, 7, 8, 9, 10, 11}" by (rule month_cases)
  then show ?thesis
    by (elim insertE emptyE) (use v n in \<open>auto simp: validDate_def monthLengths_def split: if_splits\<close>)
qed

lemma anniversaryDay_valid:
  assumes "0 \<le> t"
  shows "validDate (utcFullYear t + years) (fst (anniversaryDay t rule years)) (snd (anniversaryDay t rule years))"
proof (cases "utcMonth t = 1 \<and> utcDate t = 29 \<and> \<not> isLeap (utcFullYear t + years)")
  case True
  then show ?thesis by (simp add: anniversaryDay_def validDate_def monthLengths_def)
next
  case False
  then show ?thesis
    using monthLengths_nth[OF fields_dateUTC(1)[OF assms]] by (auto simp: anniversaryDay_def)
qed

lemma anniversary_fields:
  assumes "0 \<le> t" "0 \<le> years"
  shows "utcFullYear (anniversaryTime t rule years) = utcFullYear t + years"
    and "utcMonthDate (anniversaryTime t rule years) = anniversaryDay t rule years"
    and "utcHours (anniversaryTime t rule years) = utcHours t"
    and "utcMinutes (anniversaryTime t rule years) = utcMinutes t"
    and "utcSeconds (anniversaryTime t rule years) = utcSeconds t"
    and "0 \<le> anniversaryTime t rule years"
proof -
  have y: "1970 \<le> utcFullYear t + years" using utcFullYear_bounds[OF assms(1)] assms(2) by simp
  show "utcFullYear (anniversaryTime t rule years) = utcFullYear t + years"
    and "utcMonthDate (anniversaryTime t rule years) = anniversaryDay t rule years"
    and "utcHours (anniversaryTime t rule years) = utcHours t"
    and "utcMinutes (anniversaryTime t rule years) = utcMinutes t"
    and "utcSeconds (anniversaryTime t rule years) = utcSeconds t"
    unfolding anniversaryTime_eq by (simp_all add: dateUTC_fields[OF y anniversaryDay_valid[OF assms(1)]] time_of_day)
  show "0 \<le> anniversaryTime t rule years"
    unfolding anniversaryTime_eq
    by (rule dateUTC_nonneg[OF y anniversaryDay_valid[OF assms(1)]]) (simp_all add: time_of_day)
qed

lemma later_year:
  assumes "0 \<le> t" "0 \<le> u" "utcFullYear t < utcFullYear u"
  shows "t < u"
proof -
  have "dayFromYear (utcFullYear t + 1) \<le> dayFromYear (utcFullYear u)"
    using assms(3) dayFromYear_less[of "utcFullYear t + 1" "utcFullYear u"]
    by (cases "utcFullYear t + 1 = utcFullYear u") auto
  with utcFullYear_bounds[OF assms(1)] utcFullYear_bounds[OF assms(2)]
  have "t div secondsPerDay < u div secondsPerDay" by linarith
  then show ?thesis by (metis linorder_not_less zdiv_mono1 secondsPerDay_def zero_less_numeral)
qed

lemma first_anniversary:
  assumes "0 \<le> t"
  shows "anniversaryTime t rule 1 - t = 365 * secondsPerDay \<or> anniversaryTime t rule 1 - t = 366 * secondsPerDay"
proof -
  let ?y = "utcFullYear t" and ?m = "utcMonth t" and ?d = "utcDate t"
  let ?m' = "fst (anniversaryDay t rule 1)" and ?d' = "snd (anniversaryDay t rule 1)"
  have m: "?m < 12" using fields_dateUTC(1)[OF assms] by (simp add: validDate_def)
  have m': "?m' < 12" using anniversaryDay_valid[OF assms] by (simp add: validDate_def)
  define D where "D = dayFromYear (?y + 1) + sum_list (take ?m' (monthLengths (?y + 1))) + ?d'
      - (dayFromYear ?y + sum_list (take ?m (monthLengths ?y)) + ?d)"
  have "anniversaryTime t rule 1 - dateUTC ?y ?m ?d (utcHours t) (utcMinutes t) (utcSeconds t) = D * secondsPerDay"
    unfolding anniversaryTime_eq by (simp add: dateUTC_def D_def algebra_simps)
  moreover have "D = 365 \<or> D = 366"
  proof (cases "?m = 1 \<and> ?d = 29 \<and> \<not> isLeap (?y + 1)")
    case True
    then have "\<not> isLeap (?y + 1)" by simp
    have "isLeap ?y"
    proof (rule ccontr)
      assume "\<not> isLeap ?y"
      then show False using fields_dateUTC(1)[OF assms] True by (simp add: validDate_def monthLengths_def)
    qed
    with True show ?thesis
      by (cases "rule = Some ''march-1''")
         (simp_all add: D_def anniversaryDay_def dayFromYear_Suc cum_monthLengths cumDays_def)
  next
    case False
    then have a: "?m' = ?m" "?d' = ?d" by (auto simp: anniversaryDay_def)
    have "\<not> (isLeap ?y \<and> isLeap (?y + 1))"
      using isLeap_dvd by presburger
    then show ?thesis
      unfolding D_def a cum_monthLengths[OF m] by (auto simp: dayFromYear_Suc)
  qed
  ultimately show ?thesis unfolding fields_dateUTC(2)[OF assms] by auto
qed

lemma anniversaries_ordered:
  assumes "0 \<le> t"
  shows "t < anniversaryTime t rule 1 \<and> anniversaryTime t rule 1 < anniversaryTime t rule 4"
proof -
  have "t < anniversaryTime t rule 1"
    using assms by (rule later_year) (simp_all add: anniversary_fields assms)
  moreover have "anniversaryTime t rule 1 < anniversaryTime t rule 4"
    by (rule later_year) (simp_all add: anniversary_fields assms)
  ultimately show ?thesis ..
qed

lemma year_of_last_start:
  assumes "0 \<le> t" "t \<le> LAST_START"
  shows "utcFullYear t \<le> 9995"
proof (rule ccontr)
  assume "\<not> utcFullYear t \<le> 9995"
  then have "dayFromYear 9996 \<le> dayFromYear (utcFullYear t)"
    using dayFromYear_less[of 9996 "utcFullYear t"] by (cases "utcFullYear t = 9996") auto
  also have "\<dots> \<le> t div secondsPerDay" using utcFullYear_bounds[OF assms(1)] by simp
  also have "\<dots> \<le> LAST_START div secondsPerDay"
    using assms(2) by (intro zdiv_mono1) (simp_all add: secondsPerDay_def)
  finally show False by (simp add: dayFromYear_def LAST_START_def secondsPerDay_def)
qed

definition LAST_INSTANT :: int where
  "LAST_INSTANT = 253402300799"

lemma anniversary_bound:
  assumes "0 \<le> t" "t \<le> LAST_START" "0 \<le> years" "years \<le> 4"
  shows "anniversaryTime t rule years \<le> LAST_INSTANT"
proof -
  let ?u = "anniversaryTime t rule years"
  have u: "0 \<le> ?u" by (simp add: anniversary_fields assms)
  have "utcFullYear ?u \<le> 9999" using year_of_last_start[OF assms(1,2)] assms by (simp add: anniversary_fields)
  then have "dayFromYear (utcFullYear ?u + 1) \<le> dayFromYear 10000"
    using dayFromYear_less[of "utcFullYear ?u + 1" 10000] by (cases "utcFullYear ?u = 9999") auto
  with utcFullYear_bounds[OF u] have "?u div secondsPerDay < dayFromYear 10000" by linarith
  then have "?u div 86400 < 2932897" by (simp add: dayFromYear_def secondsPerDay_def)
  moreover have "?u div 86400 * 86400 + ?u mod 86400 = ?u" "?u mod 86400 < 86400" by simp_all
  ultimately show ?thesis unfolding LAST_INSTANT_def by linarith
qed

lemma calendarSchedule_Inr:
  "calendarSchedule start rule = Inr g \<longleftrightarrow>
    (\<exists>t. 0 \<le> t \<and> t \<le> LAST_START \<and> start = decInt t
      \<and> rule \<in> {None, Some ''february-28'', Some ''march-1''}
      \<and> \<not> (utcMonth t = 1 \<and> utcDate t = 29 \<and> rule = None)
      \<and> g = \<lparr>gsProfile = ''calendar-12-48'', gsStart = start, gsCliff = decInt (anniversaryTime t rule 1),
           gsEnd = decInt (anniversaryTime t rule 4), gsRule = rule\<rparr>)"
proof (cases "parseCanonicalUint (JStr start) UINT64_MAX")
  case None
  have "LAST_START \<le> UINT64_MAX" by code_simp
  with None have "\<not> (\<exists>t. 0 \<le> t \<and> t \<le> LAST_START \<and> start = decInt t)"
    using uint64.read_decInt by force
  with None show ?thesis by (auto simp: calendarSchedule_def)
next
  case (Some t)
  then have t: "0 \<le> t" "start = decInt t" using uint64.read_Some by blast+
  then have u: "0 \<le> t' \<and> start = decInt t' \<longleftrightarrow> t' = t" for t' by (auto simp: decInt_inj_nonneg)
  have chain: "(if a then Inl x else if b then Inl y else if c then Inl z else Inr r) = Inr g \<longleftrightarrow>
      \<not> a \<and> \<not> b \<and> \<not> c \<and> g = r" for a b c and x y z :: js_error and r
    by auto
  have known: "\<not> (rule \<noteq> None \<and> rule \<noteq> x \<and> rule \<noteq> y) \<longleftrightarrow> rule \<in> {None, x, y}" for x y by blast
  have ex: "(\<exists>t'. 0 \<le> t' \<and> t' \<le> LAST_START \<and> start = decInt t' \<and> Q t') \<longleftrightarrow> t \<le> LAST_START \<and> Q t" for Q
    by (metis u)
  show ?thesis
    unfolding ex unfolding calendarSchedule_def Some option.case chain not_less known by (rule refl)
qed

lemma calendarSchedule_valid:
  assumes "calendarSchedule start rule = Inr g"
  shows "validateGrantSchedule g production ptr = []"
proof -
  from assms obtain t where t: "0 \<le> t" "t \<le> LAST_START" "start = decInt t"
    and g: "g = \<lparr>gsProfile = ''calendar-12-48'', gsStart = start, gsCliff = decInt (anniversaryTime t rule 1),
           gsEnd = decInt (anniversaryTime t rule 4), gsRule = rule\<rparr>"
    unfolding calendarSchedule_Inr by blast
  have b: "LAST_INSTANT \<le> UINT64_MAX" "LAST_START \<le> UINT64_MAX" by code_simp+
  have p: "parseCanonicalUint (JStr (decInt u)) UINT64_MAX = Some u" if "0 \<le> u" "u \<le> LAST_INSTANT \<or> u \<le> LAST_START" for u
    using that b by (intro uint64.read_decInt) auto
  have "parseCanonicalUint (JStr (gsStart g)) UINT64_MAX = Some t"
      "parseCanonicalUint (JStr (gsCliff g)) UINT64_MAX = Some (anniversaryTime t rule 1)"
      "parseCanonicalUint (JStr (gsEnd g)) UINT64_MAX = Some (anniversaryTime t rule 4)"
    using t by (simp_all add: g p anniversary_fields anniversary_bound)
  moreover have "calendarSchedule (gsStart g) (gsRule g) = Inr g" using assms by (simp add: g)
  moreover have "gsProfile g = ''calendar-12-48''" by (simp add: g)
  ultimately show ?thesis
    using anniversaries_ordered[OF t(1), of rule] by (simp add: validateGrantSchedule_def)
qed

lemma validateGrantSchedule_clean:
  "validateGrantSchedule g production ptr = [] \<longleftrightarrow>
     calendarSchedule (gsStart g) (gsRule g) = Inr g
   \<or> (gsProfile g = ''accelerated-test'' \<and> \<not> production \<and> gsRule g = None
      \<and> (\<exists>s c e. 0 \<le> s \<and> s < c \<and> c < e \<and> e \<le> UINT64_MAX \<and> gsStart g = decInt s \<and> gsCliff g = decInt c
            \<and> gsEnd g = decInt e))" (is "?V \<longleftrightarrow> ?C \<or> ?A")
proof
  assume v: ?V
  then obtain s c e where p: "parseCanonicalUint (JStr (gsStart g)) UINT64_MAX = Some s"
      "parseCanonicalUint (JStr (gsCliff g)) UINT64_MAX = Some c"
      "parseCanonicalUint (JStr (gsEnd g)) UINT64_MAX = Some e" "s < c" "c < e"
    by (auto simp: validateGrantSchedule_def split: option.splits if_splits)
  show "?C \<or> ?A"
  proof (cases "gsProfile g = ''accelerated-test''")
    case True
    with v p have "\<not> production" "gsRule g = None"
      by (auto simp: validateGrantSchedule_def split: if_splits)
    with True p show ?thesis
      using uint64.read_Some[OF p(1)] uint64.read_Some[OF p(2)] uint64.read_Some[OF p(3)] by blast
  next
    case False
    with v p obtain x where "gsProfile g = ''calendar-12-48''"
      and x: "calendarSchedule (gsStart g) (gsRule g) = Inr x" "gsCliff x = gsCliff g" "gsEnd x = gsEnd g"
      by (auto simp: validateGrantSchedule_def split: if_splits sum.splits)
    moreover from x(1) have "gsProfile x = ''calendar-12-48''" "gsStart x = gsStart g" "gsRule x = gsRule g"
      unfolding calendarSchedule_Inr by auto
    ultimately have "x = g" by (cases x; cases g) simp
    with x(1) show ?thesis by simp
  qed
next
  assume "?C \<or> ?A"
  then show ?V
  proof
    assume ?C
    then show ?V by (rule calendarSchedule_valid)
  next
    assume A: ?A
    then obtain s c e where b: "0 \<le> s" "s < c" "c < e" "e \<le> UINT64_MAX" "gsStart g = decInt s"
        "gsCliff g = decInt c" "gsEnd g = decInt e" by blast
    then have "parseCanonicalUint (JStr (gsStart g)) UINT64_MAX = Some s"
      "parseCanonicalUint (JStr (gsCliff g)) UINT64_MAX = Some c"
      "parseCanonicalUint (JStr (gsEnd g)) UINT64_MAX = Some e"
      by (auto intro!: uint64.read_decInt)
    with A b show ?V by (simp add: validateGrantSchedule_def)
  qed
qed

section \<open>Properties\<close>

text \<open>
  C30. Calendar schedules: the schedule exists for the canonical texts up to the last start, with
  one of the two leap-day rules given when the start is a leap day. The cliff falls 365 or 366
  days after the start, the end after the cliff and before the year 10000; both are one and
  four years later at the same time of day and, unless the start is a leap day and the target
  year has none, on the same day of the year, in which case the rule names the day.
\<close>

theorem calendarSchedule_anniversaries:
  assumes "calendarSchedule start rule = Inr g"
  shows "\<exists>t c e. 0 \<le> t \<and> t \<le> LAST_START \<and> start = decInt t \<and> gsCliff g = decInt c \<and> gsEnd g = decInt e
    \<and> (c - t = 365 * secondsPerDay \<or> c - t = 366 * secondsPerDay) \<and> c < e \<and> e \<le> LAST_INSTANT
    \<and> list_all (\<lambda>(u, k). utcFullYear u = utcFullYear t + k \<and> utcHours u = utcHours t
        \<and> utcMinutes u = utcMinutes t \<and> utcSeconds u = utcSeconds t
        \<and> utcMonthDate u = (if utcMonthDate t \<noteq> (1, 29) \<or> isLeap (utcFullYear u) then utcMonthDate t
             else if rule = Some ''march-1'' then (2, 1) else (1, 28))) [(c, 1), (e, 4)]"
proof -
  from assms obtain t where t: "0 \<le> t" "t \<le> LAST_START" "start = decInt t"
    and g: "g = \<lparr>gsProfile = ''calendar-12-48'', gsStart = start, gsCliff = decInt (anniversaryTime t rule 1),
           gsEnd = decInt (anniversaryTime t rule 4), gsRule = rule\<rparr>"
    unfolding calendarSchedule_Inr by blast
  have md: "utcMonthDate t = (utcMonth t, utcDate t)" by (simp add: utcMonth_def utcDate_def)
  show ?thesis
    by (intro exI[of _ t] exI[of _ "anniversaryTime t rule 1"] exI[of _ "anniversaryTime t rule 4"])
       (use t first_anniversary[OF t(1)] anniversaries_ordered[OF t(1)] in
         \<open>auto simp: g anniversary_fields anniversary_bound anniversaryDay_def md\<close>)
qed

lemma leap_day_2000: "utcMonthDate 951827696 = (1, 29)" "decInt 951827696 = ''951827696''"
  by (simp_all add: utcMonthDate_def utcFullYear_def secondsPerDay_def yearSearch.simps dayFromYear_def
      monthLengths_def isLeap_def dec_eval)

lemma calendarSchedule_anniversaries_witness:
  "utcMonthDate 951827696 = (1, 29) \<and> (\<exists>g t c e. calendarSchedule ''951827696'' (Some ''march-1'') = Inr g
    \<and> ''951827696'' = decInt t \<and> gsCliff g = decInt c \<and> gsEnd g = decInt e
    \<and> (c - t = 365 * secondsPerDay \<or> c - t = 366 * secondsPerDay) \<and> c < e \<and> e \<le> LAST_INSTANT)"
proof -
  have "\<exists>g. calendarSchedule ''951827696'' (Some ''march-1'') = Inr g"
    unfolding calendarSchedule_Inr using leap_day_2000(2)[symmetric]
    by (intro exI[of _ 951827696] exI conjI refl) (simp_all add: LAST_START_def)
  then obtain g where g: "calendarSchedule ''951827696'' (Some ''march-1'') = Inr g" ..
  show ?thesis
    using calendarSchedule_anniversaries[OF g] g leap_day_2000(1) by blast
qed

text \<open>
  The schedule check accepts exactly two kinds of schedule: those \<open>calendarSchedule\<close>
  computes from the start and the rule, and, outside production and without a rule, accelerated
  ones whose three instants are canonical 64-bit numbers in ascending order.
\<close>

lemma validateGrantSchedule_exact:
  "validateGrantSchedule g production ptr = [] \<longleftrightarrow>
     calendarSchedule (gsStart g) (gsRule g) = Inr g
   \<or> (gsProfile g = ''accelerated-test'' \<and> \<not> production \<and> gsRule g = None
      \<and> (\<exists>s c e. 0 \<le> s \<and> s < c \<and> c < e \<and> e \<le> UINT64_MAX \<and> gsStart g = decInt s \<and> gsCliff g = decInt c
            \<and> gsEnd g = decInt e))"
  by (rule validateGrantSchedule_clean)

text \<open>
  Accelerated schedules pass the check outside production and are refused in production.
\<close>

lemma acceleratedSchedule_checked:
  assumes "acceleratedSchedule start cliffOffset endOffset = Inr g"
  shows "validateGrantSchedule g production ptr =
     (if production then [scheduleDiagnostic ''DEPLOYMENT_TEST_SCHEDULE_FORBIDDEN'' ptr] else [])"
proof -
  from assms obtain b c e where p: "parseCanonicalUint (JStr start) UINT64_MAX = Some b"
      "parseCanonicalUint (JStr cliffOffset) UINT64_MAX = Some c" "parseCanonicalUint (JStr endOffset) UINT64_MAX = Some e"
    and g: "c \<noteq> 0" "c < e" "b + e \<le> UINT64_MAX"
      "g = \<lparr>gsProfile = ''accelerated-test'', gsStart = start, gsCliff = decInt (b + c), gsEnd = decInt (b + e), gsRule = None\<rparr>"
    by (auto simp: acceleratedSchedule_def split: option.splits if_splits)
  have n: "0 \<le> b" "0 \<le> c" using p uint64.read_nonneg by blast+
  have "parseCanonicalUint (JStr (decInt (b + c))) UINT64_MAX = Some (b + c)"
      "parseCanonicalUint (JStr (decInt (b + e))) UINT64_MAX = Some (b + e)"
    using n g by (auto intro!: uint64.read_decInt)
  with p g n show ?thesis by (simp add: validateGrantSchedule_def)
qed

lemma acceleratedSchedule_checked_witness:
  "validateGrantSchedule \<lparr>gsProfile = ''accelerated-test'', gsStart = ''1000'', gsCliff = ''1060'', gsEnd = ''1120'',
      gsRule = None\<rparr> False ''/s'' = []"
proof -
  have "acceleratedSchedule ''1000'' ''60'' ''120'' = Inr \<lparr>gsProfile = ''accelerated-test'', gsStart = ''1000'',
      gsCliff = ''1060'', gsEnd = ''1120'', gsRule = None\<rparr>" by code_simp
  from acceleratedSchedule_checked[OF this, of False] show ?thesis by simp
qed

end
