(* ===== verification/Keccak.thy ===== *)
theory Keccak
  imports HexText "HOL-Library.Word"
begin

unbundle bit_operations_syntax

text \<open>
  \<open>rotateLeft64\<close>, \<open>keccakPermutation\<close> and \<open>keccak256\<close> of
  \<open>tooling/deployment-plan/src/domain/identity.ts\<close>, on unbounded integers as the code has
  them, and the permutation and sponge of the Keccak standard (FIPS 202, with the original
  padding) on 64-bit words, whose tables are computed from the standard's own recurrences. The
  code is shown to implement the standard.
\<close>

section \<open>The code\<close>

definition MASK_64 :: int where "MASK_64 = 2 ^ 64 - 1"

definition KECCAK_ROUND_CONSTANTS :: "int list" where
  "KECCAK_ROUND_CONSTANTS = [
    0x0000000000000001, 0x0000000000008082, 0x800000000000808a, 0x8000000080008000,
    0x000000000000808b, 0x0000000080000001, 0x8000000080008081, 0x8000000000008009,
    0x000000000000008a, 0x0000000000000088, 0x0000000080008009, 0x000000008000000a,
    0x000000008000808b, 0x800000000000008b, 0x8000000000008089, 0x8000000000008003,
    0x8000000000008002, 0x8000000000000080, 0x000000000000800a, 0x800000008000000a,
    0x8000000080008081, 0x8000000000008080, 0x0000000080000001, 0x8000000080008008]"

definition KECCAK_ROTATIONS :: "nat list" where
  "KECCAK_ROTATIONS = [
    0, 1, 62, 28, 27, 36, 44, 6, 55, 20, 3, 10, 43, 25, 39, 41, 45, 15, 21, 8,
    18, 2, 61, 56, 14]"

definition rotateLeft64 :: "int \<Rightarrow> nat \<Rightarrow> int" where
  "rotateLeft64 value bits =
    (if bits = 0 then value AND MASK_64
     else (push_bit bits value OR drop_bit (64 - bits) value) AND MASK_64)"

text \<open>The pairs a double loop over \<open>y\<close> and then \<open>x\<close> visits, in order.\<close>

definition pairs :: "(nat \<times> nat) list" where
  "pairs = concat (map (\<lambda>y. map (\<lambda>x. (x, y)) [0..<5]) [0..<5])"

definition keccakRound :: "int \<Rightarrow> int list \<Rightarrow> int list" where
  "keccakRound roundConstant state =
    (let column = map (\<lambda>x. state ! x XOR state ! (x + 5) XOR state ! (x + 10) XOR state ! (x + 15) XOR state ! (x + 20)) [0..<5];
         delta = map (\<lambda>x. column ! ((x + 4) mod 5) XOR rotateLeft64 (column ! ((x + 1) mod 5)) 1) [0..<5];
         mixed = fold (\<lambda>(x, y) s. s[x + 5 * y := s ! (x + 5 * y) XOR delta ! x]) pairs state;
         moved = fold (\<lambda>(x, y) m. m[y + 5 * ((2 * x + 3 * y) mod 5) :=
             rotateLeft64 (mixed ! (x + 5 * y)) (KECCAK_ROTATIONS ! (x + 5 * y))]) pairs (replicate 25 0);
         nonlinear = fold (\<lambda>(x, y) s. s[x + 5 * y := moved ! (x + 5 * y)
             XOR (NOT (moved ! ((x + 1) mod 5 + 5 * y)) AND moved ! ((x + 2) mod 5 + 5 * y))]) pairs mixed
     in nonlinear[0 := nonlinear ! 0 XOR roundConstant])"

definition keccakPermutation :: "int list \<Rightarrow> int list" where
  "keccakPermutation state = fold keccakRound KECCAK_ROUND_CONSTANTS state"

text \<open>\<open>buffer.readBigUInt64LE(offset)\<close> and \<open>buffer.writeBigUInt64LE\<close>.\<close>

definition readUInt64LE :: "nat list \<Rightarrow> nat \<Rightarrow> int" where
  "readUInt64LE buf off = (\<Sum>k\<leftarrow>[0..<8]. int (buf ! (off + k)) * 256 ^ k)"

definition uint64LEBytes :: "int \<Rightarrow> nat list" where
  "uint64LEBytes v = map (\<lambda>k. nat (v div 256 ^ k mod 256)) [0..<8]"

definition keccakRate :: nat where "keccakRate = 136"

definition keccakPadded :: "nat list \<Rightarrow> nat list" where
  "keccakPadded input =
    (let paddedLength = (length input + 1 + (keccakRate - 1)) div keccakRate * keccakRate;
         padded = (input @ replicate (paddedLength - length input) 0)[length input := 1]
     in padded[length padded - 1 := padded ! (length padded - 1) OR 0x80])"

definition absorbBlock :: "nat list \<Rightarrow> nat \<Rightarrow> int list \<Rightarrow> int list" where
  "absorbBlock padded off state =
    keccakPermutation (fold (\<lambda>lane s. s[lane := s ! lane XOR readUInt64LE padded (off + lane * 8)])
      [0..<keccakRate div 8] state)"

definition keccak256 :: "nat list \<Rightarrow> string" where
  "keccak256 bytes =
    (let padded = keccakPadded bytes;
         state = fold (\<lambda>block s. absorbBlock padded (block * keccakRate) s) [0..<length padded div keccakRate]
           (replicate 25 0)
     in ''0x'' @ hexBytes (concat (map (\<lambda>lane. uint64LEBytes (state ! lane AND MASK_64)) [0..<4])))"

section \<open>The standard\<close>

type_synonym lanes = "nat \<Rightarrow> nat \<Rightarrow> 64 word"

definition specTheta :: "lanes \<Rightarrow> lanes" where
  "specTheta A = (let C = (\<lambda>x. A x 0 XOR A x 1 XOR A x 2 XOR A x 3 XOR A x 4);
       D = (\<lambda>x. C ((x + 4) mod 5) XOR word_rotl 1 (C ((x + 1) mod 5)))
     in (\<lambda>x y. A x y XOR D x))"

text \<open>
  The offsets: the lane of step \<open>t\<close> of the walk \<open>(x, y) \<mapsto> (y, 2x + 3y)\<close> from \<open>(1, 0)\<close>
  rotates by the triangular number of \<open>t + 1\<close>.
\<close>

fun rhoTable :: "nat list \<Rightarrow> nat \<times> nat \<Rightarrow> ((nat \<times> nat) \<times> nat) list" where
  "rhoTable [] p = []"
| "rhoTable (t # ts) (x, y) = ((x, y), (t + 1) * (t + 2) div 2 mod 64) # rhoTable ts (y, (2 * x + 3 * y) mod 5)"

definition rhoOffset :: "nat \<Rightarrow> nat \<Rightarrow> nat" where
  "rhoOffset x y = (case map_of (rhoTable [0..<24] (1, 0)) (x, y) of None \<Rightarrow> 0 | Some r \<Rightarrow> r)"

definition specRho :: "lanes \<Rightarrow> lanes" where
  "specRho A = (\<lambda>x y. word_rotl (rhoOffset x y) (A x y))"

definition specPi :: "lanes \<Rightarrow> lanes" where
  "specPi A = (\<lambda>x y. A ((x + 3 * y) mod 5) x)"

definition specChi :: "lanes \<Rightarrow> lanes" where
  "specChi A = (\<lambda>x y. A x y XOR (NOT (A ((x + 1) mod 5) y) AND A ((x + 2) mod 5) y))"

text \<open>The round constants: bits of a linear feedback shift register of eight bits.\<close>

definition lfsrStep :: "bool list \<Rightarrow> bool list" where
  "lfsrStep R = (let R = False # R; h = R ! 8 in
     take 8 (R[0 := R ! 0 \<noteq> h, 4 := R ! 4 \<noteq> h, 5 := R ! 5 \<noteq> h, 6 := R ! 6 \<noteq> h]))"

fun lfsrBits :: "nat list \<Rightarrow> bool list \<Rightarrow> bool list" where
  "lfsrBits [] R = []"
| "lfsrBits (t # ts) R = R ! 0 # lfsrBits ts (lfsrStep R)"

definition rcBits :: "bool list" where
  "rcBits = lfsrBits [0..<168] [True, False, False, False, False, False, False, False]"

definition specRC :: "nat \<Rightarrow> int" where
  "specRC i = (\<Sum>j\<leftarrow>[0..<7]. if rcBits ! (j + 7 * i) then 2 ^ (2 ^ j - 1) else 0)"

definition specIota :: "nat \<Rightarrow> lanes \<Rightarrow> lanes" where
  "specIota i A = (\<lambda>x y. if x = 0 \<and> y = 0 then A x y XOR word_of_int (specRC i) else A x y)"

definition specRound :: "nat \<Rightarrow> lanes \<Rightarrow> lanes" where
  "specRound i A = specIota i (specChi (specPi (specRho (specTheta A))))"

definition specPermutation :: "lanes \<Rightarrow> lanes" where
  "specPermutation A = fold specRound [0..<24] A"

definition specPad :: "nat list \<Rightarrow> nat list" where
  "specPad M = (let q = 136 - length M mod 136 in
     M @ (if q = 1 then [0x81] else 0x01 # replicate (q - 2) 0 @ [0x80]))"

fun specLane :: "nat list \<Rightarrow> 64 word" where
  "specLane [] = 0"
| "specLane (b # bs) = of_nat b + 256 * specLane bs"

definition specAbsorb :: "nat list \<Rightarrow> lanes \<Rightarrow> lanes" where
  "specAbsorb block A = specPermutation (\<lambda>x y.
     if x + 5 * y < 17 then A x y XOR specLane (take 8 (drop (8 * (x + 5 * y)) block)) else A x y)"

function specBlocks :: "nat list \<Rightarrow> nat list list" where
  "specBlocks bs = (if bs = [] then [] else take 136 bs # specBlocks (drop 136 bs))"
  by pat_completeness auto
termination by (relation "measure length") auto

declare specBlocks.simps [simp del]

definition specBytes :: "64 word \<Rightarrow> nat list" where
  "specBytes w = map (\<lambda>k. unat (drop_bit (8 * k) w AND 0xFF)) [0..<8]"

definition specKeccak256 :: "nat list \<Rightarrow> nat list" where
  "specKeccak256 M = (let A = fold specAbsorb (specBlocks (specPad M)) (\<lambda>x y. 0)
     in concat (map (\<lambda>x. specBytes (A x 0)) [0..<4]))"

section \<open>The tables\<close>

lemma rc_bits: "rcBits = [True, False, False, False, False, False, False, False, True, False, True, True, False, False,
     False, True, True, True, True, False, True, False, False, False, False, True, True, True, True,
     True, True, True, True, False, False, True, False, False, False, False, True, False, True, False,
     False, True, True, True, True, True, False, True, False, True, False, True, False, True, True, True,
     False, False, False, False, False, True, True, False, False, False, True, False, True, False, True,
     True, False, False, True, True, False, False, True, False, True, True, True, True, True, True,
     False, True, True, True, True, False, False, True, True, False, True, True, True, False, True, True,
     True, False, False, True, False, True, False, True, False, False, True, False, True, False, False,
     False, True, False, False, True, False, True, True, False, True, False, False, False, True, True,
     False, False, True, True, True, False, False, True, True, True, True, False, False, False, True,
     True, False, True, True, False, False, False, False, True, False, False, False, True, False, True,
     True, True]"
  by (simp add: rcBits_def lfsrStep_def upt_conv_Cons)

lemma round_constants: "KECCAK_ROUND_CONSTANTS = map specRC [0..<24]"
  by (simp add: KECCAK_ROUND_CONSTANTS_def specRC_def rc_bits upt_conv_Cons)

lemma rho_table:
  "rhoTable [0..<24] (1, 0) =
    [((1,0),1), ((0,2),3), ((2,1),6), ((1,2),10), ((2,3),15), ((3,3),21), ((3,0),28), ((0,1),36),
     ((1,3),45), ((3,1),55), ((1,4),2), ((4,4),14), ((4,0),27), ((0,3),41), ((3,4),56), ((4,3),8),
     ((3,2),25), ((2,2),43), ((2,0),62), ((0,4),18), ((4,2),39), ((2,4),61), ((4,1),20), ((1,1),44)]"
  by (simp add: upt_conv_Cons)

lemma pairs_eq:
  "pairs = [(0,0), (1,0), (2,0), (3,0), (4,0), (0,1), (1,1), (2,1), (3,1), (4,1), (0,2), (1,2), (2,2), (3,2), (4,2),
     (0,3), (1,3), (2,3), (3,3), (4,3), (0,4), (1,4), (2,4), (3,4), (4,4)]"
  by code_simp

lemma rotations: "KECCAK_ROTATIONS = map (\<lambda>(x, y). rhoOffset x y) pairs"
  unfolding rhoOffset_def rho_table pairs_eq KECCAK_ROTATIONS_def by simp

section \<open>One round\<close>

lemma fold_update:
  assumes "distinct (map f ps)" "\<forall>p\<in>set ps. f p < length s"
  shows "length (fold (\<lambda>p s. s[f p := g p (s ! f p)]) ps s) = length s"
    and "p \<in> set ps \<Longrightarrow> fold (\<lambda>p s. s[f p := g p (s ! f p)]) ps s ! f p = g p (s ! f p)"
    and "i \<notin> f ` set ps \<Longrightarrow> fold (\<lambda>p s. s[f p := g p (s ! f p)]) ps s ! i = s ! i"
proof -
  have "length (fold (\<lambda>p s. s[f p := g p (s ! f p)]) ps s) = length s
    \<and> (\<forall>p\<in>set ps. fold (\<lambda>p s. s[f p := g p (s ! f p)]) ps s ! f p = g p (s ! f p))
    \<and> (\<forall>i. i \<notin> f ` set ps \<longrightarrow> fold (\<lambda>p s. s[f p := g p (s ! f p)]) ps s ! i = s ! i)"
    using assms
  proof (induction ps arbitrary: s)
    case Nil
    then show ?case by simp
  next
    case (Cons a ps)
    let ?s = "s[f a := g a (s ! f a)]"
    have IH: "length (fold (\<lambda>p s. s[f p := g p (s ! f p)]) ps ?s) = length ?s
      \<and> (\<forall>p\<in>set ps. fold (\<lambda>p s. s[f p := g p (s ! f p)]) ps ?s ! f p = g p (?s ! f p))
      \<and> (\<forall>i. i \<notin> f ` set ps \<longrightarrow> fold (\<lambda>p s. s[f p := g p (s ! f p)]) ps ?s ! i = ?s ! i)"
      using Cons.prems by (intro Cons.IH) auto
    have "f p \<noteq> f a" if "p \<in> set ps" for p using Cons.prems that by (auto simp: image_iff)
    with IH Cons.prems show ?case by (auto simp: nth_list_update)
  qed
  then show "length (fold (\<lambda>p s. s[f p := g p (s ! f p)]) ps s) = length s"
    and "p \<in> set ps \<Longrightarrow> fold (\<lambda>p s. s[f p := g p (s ! f p)]) ps s ! f p = g p (s ! f p)"
    and "i \<notin> f ` set ps \<Longrightarrow> fold (\<lambda>p s. s[f p := g p (s ! f p)]) ps s ! i = s ! i"
    by blast+
qed

lemma set_pairs: "(x, y) \<in> set pairs \<longleftrightarrow> x < 5 \<and> y < 5"
  by (auto simp: pairs_def image_iff)

lemma pairs_bound: "\<forall>p\<in>set pairs. (\<lambda>(x, y). x + 5 * y) p < (25::nat)"
  "\<forall>p\<in>set pairs. (\<lambda>(x, y). y + 5 * ((2 * x + 3 * y) mod 5)) p < (25::nat)"
  by (simp_all add: pairs_eq)

lemma pairs_distinct: "distinct (map (\<lambda>(x, y). x + 5 * y) pairs)"
  "distinct (map (\<lambda>(x, y). y + 5 * ((2 * x + 3 * y) mod 5)) pairs)"
  by (simp_all add: pairs_eq)

lemma loop_update:
  assumes "length s = 25"
  shows "length (fold (\<lambda>(x, y) s. s[x + 5 * y := g x y (s ! (x + 5 * y))]) pairs s) = 25"
    and "x < 5 \<Longrightarrow> y < 5 \<Longrightarrow> fold (\<lambda>(x, y) s. s[x + 5 * y := g x y (s ! (x + 5 * y))]) pairs s ! (x + 5 * y)
      = g x y (s ! (x + 5 * y))"
proof -
  have e: "(\<lambda>(x, y) s. s[x + 5 * y := g x y (s ! (x + 5 * y))]) =
      (\<lambda>p s. s[(\<lambda>(x, y). x + 5 * y) p := (\<lambda>(x, y). g x y) p (s ! (\<lambda>(x, y). x + 5 * y) p)])"
    by (auto simp: fun_eq_iff)
  note f = fold_update[OF pairs_distinct(1), where s = s and g = "\<lambda>(x, y). g x y", unfolded assms, OF pairs_bound(1)]
  show "length (fold (\<lambda>(x, y) s. s[x + 5 * y := g x y (s ! (x + 5 * y))]) pairs s) = 25"
    unfolding e by (rule f(1))
  show "fold (\<lambda>(x, y) s. s[x + 5 * y := g x y (s ! (x + 5 * y))]) pairs s ! (x + 5 * y) = g x y (s ! (x + 5 * y))"
    if "x < 5" "y < 5"
    unfolding e using f(2)[of "(x, y)"] that by (simp add: set_pairs)
qed

lemma loop_move:
  assumes "length s = 25"
  shows "length (fold (\<lambda>(x, y) s. s[y + 5 * ((2 * x + 3 * y) mod 5) := g x y]) pairs s) = 25"
    and "x < 5 \<Longrightarrow> y < 5 \<Longrightarrow> fold (\<lambda>(x, y) s. s[y + 5 * ((2 * x + 3 * y) mod 5) := g x y]) pairs s
      ! (y + 5 * ((2 * x + 3 * y) mod 5)) = g x y"
proof -
  have e: "(\<lambda>(x, y) s. s[y + 5 * ((2 * x + 3 * y) mod 5) := g x y]) =
      (\<lambda>p s. s[(\<lambda>(x, y). y + 5 * ((2 * x + 3 * y) mod 5)) p :=
        (\<lambda>p _. case p of (x, y) \<Rightarrow> g x y) p (s ! (\<lambda>(x, y). y + 5 * ((2 * x + 3 * y) mod 5)) p)])"
    by (auto simp: fun_eq_iff)
  note f = fold_update[OF pairs_distinct(2), where s = s and g = "\<lambda>p _. case p of (x, y) \<Rightarrow> g x y", unfolded assms, OF pairs_bound(2)]
  show "length (fold (\<lambda>(x, y) s. s[y + 5 * ((2 * x + 3 * y) mod 5) := g x y]) pairs s) = 25"
    unfolding e by (rule f(1))
  show "fold (\<lambda>(x, y) s. s[y + 5 * ((2 * x + 3 * y) mod 5) := g x y]) pairs s
      ! (y + 5 * ((2 * x + 3 * y) mod 5)) = g x y" if "x < 5" "y < 5"
    unfolding e using f(2)[of "(x, y)"] that by (simp add: set_pairs)
qed

text \<open>The 25 integers of the code hold the words of a state.\<close>

definition holds :: "int list \<Rightarrow> lanes \<Rightarrow> bool" where
  "holds S A \<longleftrightarrow> length S = 25 \<and> (\<forall>x<5. \<forall>y<5. S ! (x + 5 * y) = uint (A x y))"

lemma holds_nth: "holds S A \<Longrightarrow> x < 5 \<Longrightarrow> y < 5 \<Longrightarrow> S ! (x + 5 * y) = uint (A x y)"
  by (simp add: holds_def)

lemma uint_xor: "uint a XOR uint b = uint (a XOR b)" for a b :: "64 word"
  by (simp add: unsigned_xor_eq)

lemma uint_nand: "NOT (uint a) AND uint b = uint (NOT a AND b)" for a b :: "64 word"
  by (rule bit_eqI) (auto simp: bit_simps dest: bit_imp_le_length)

lemma rotateLeft64_uint: "n < 64 \<Longrightarrow> rotateLeft64 (uint w) n = uint (word_rotl n w)" for w :: "64 word"
proof (rule bit_eqI)
  fix k assume n: "n < 64"
  have m: "MASK_64 = mask 64" by (simp add: MASK_64_def mask_eq_exp_minus_1)
  show "bit (rotateLeft64 (uint w) n) k = bit (uint (word_rotl n w)) k"
  proof (cases "k < 64")
    case False
    then show ?thesis by (auto simp: rotateLeft64_def m bit_simps)
  next
    case True
    show ?thesis
    proof (cases "n = 0")
      case True
      with \<open>k < 64\<close> show ?thesis by (auto simp: rotateLeft64_def m bit_simps)
    next
      case False
      have L: "bit (rotateLeft64 (uint w) n) k \<longleftrightarrow> n \<le> k \<and> bit w (k - n) \<or> \<not> n \<le> k \<and> bit w (64 - n + k)"
        using False \<open>k < 64\<close> n by (auto simp: rotateLeft64_def m bit_simps dest: bit_imp_le_length)
      have R: "bit (uint (word_rotl n w)) k \<longleftrightarrow> bit w ((k + (64 - n)) mod 64)"
        using \<open>k < 64\<close> n by (simp add: bit_simps)
      show ?thesis
      proof (cases "n \<le> k")
        case True
        then have e: "k + (64 - n) = k - n + 64" using n by simp
        have "(k + (64 - n)) mod 64 = k - n" unfolding e using \<open>k < 64\<close> by simp
        with L R True show ?thesis by simp
      next
        case False
        then have "(k + (64 - n)) mod 64 = 64 - n + k" using n by simp
        with L R False show ?thesis by simp
      qed
    qed
  qed
qed

lemma rotation_offset:
  assumes "x < 5" "y < 5"
  shows "KECCAK_ROTATIONS ! (x + 5 * y) = rhoOffset x y" and "rhoOffset x y < 64"
proof -
  have "\<forall>(x, y)\<in>set pairs. KECCAK_ROTATIONS ! (x + 5 * y) = rhoOffset x y \<and> rhoOffset x y < 64"
    unfolding KECCAK_ROTATIONS_def rhoOffset_def rho_table pairs_eq by simp
  with assms show "KECCAK_ROTATIONS ! (x + 5 * y) = rhoOffset x y" "rhoOffset x y < 64"
    using set_pairs[of x y] by blast+
qed


lemma mod5: "(x::nat) mod 5 < 5" by simp

lemma round_column:
  assumes "holds S A" "x < 5"
  shows "S ! x XOR S ! (x + 5) XOR S ! (x + 10) XOR S ! (x + 15) XOR S ! (x + 20)
    = uint (A x 0 XOR A x 1 XOR A x 2 XOR A x 3 XOR A x 4)"
  using holds_nth[OF assms, of 0] holds_nth[OF assms, of 1] holds_nth[OF assms, of 2]
    holds_nth[OF assms, of 3] holds_nth[OF assms, of 4] by (simp add: uint_xor)

definition themeC :: "lanes \<Rightarrow> nat \<Rightarrow> 64 word" where
  "themeC A x = A x 0 XOR A x 1 XOR A x 2 XOR A x 3 XOR A x 4"

definition themeD :: "lanes \<Rightarrow> nat \<Rightarrow> 64 word" where
  "themeD A x = themeC A ((x + 4) mod 5) XOR word_rotl 1 (themeC A ((x + 1) mod 5))"

lemma specTheta_eq: "specTheta A x y = A x y XOR themeD A x"
  by (simp add: specTheta_def themeD_def themeC_def Let_def)

lemma keccakRound_holds:
  assumes h: "holds S A" and rc: "0 \<le> rc" "rc < 2 ^ 64"
  shows "holds (keccakRound rc S)
    (\<lambda>x y. if x = 0 \<and> y = 0 then specChi (specPi (specRho (specTheta A))) x y XOR word_of_int rc
       else specChi (specPi (specRho (specTheta A))) x y)"
proof -
  let ?B = "specPi (specRho (specTheta A))"
  define column where "column = map (\<lambda>x. S ! x XOR S ! (x + 5) XOR S ! (x + 10) XOR S ! (x + 15) XOR S ! (x + 20)) [0..<5]"
  define delta where "delta = map (\<lambda>x. column ! ((x + 4) mod 5) XOR rotateLeft64 (column ! ((x + 1) mod 5)) 1) [0..<5]"
  define mixed where "mixed = fold (\<lambda>(x, y) s. s[x + 5 * y := s ! (x + 5 * y) XOR delta ! x]) pairs S"
  define moved where "moved = fold (\<lambda>(x, y) m. m[y + 5 * ((2 * x + 3 * y) mod 5) :=
             rotateLeft64 (mixed ! (x + 5 * y)) (KECCAK_ROTATIONS ! (x + 5 * y))]) pairs (replicate 25 0)"
  define nonlinear where "nonlinear = fold (\<lambda>(x, y) s. s[x + 5 * y := moved ! (x + 5 * y)
             XOR (NOT (moved ! ((x + 1) mod 5 + 5 * y)) AND moved ! ((x + 2) mod 5 + 5 * y))]) pairs mixed"
  have len: "length S = 25" using h by (simp add: holds_def)
  have column: "column ! x = uint (themeC A x)" if "x < 5" for x
    using that round_column[OF h that] by (simp add: column_def themeC_def)
  have delta: "delta ! x = uint (themeD A x)" if "x < 5" for x
    using that by (simp add: delta_def column rotateLeft64_uint uint_xor themeD_def)
  have mixed: "length mixed = 25" "mixed ! (x + 5 * y) = uint (specTheta A x y)" if "x < 5" "y < 5" for x y
    using loop_update[OF len, where g = "\<lambda>x y v. v XOR delta ! x"] that holds_nth[OF h that] delta[OF that(1)]
    by (simp_all add: mixed_def uint_xor specTheta_eq)
  have moved: "moved ! (y + 5 * ((2 * x + 3 * y) mod 5)) = uint (specRho (specTheta A) x y)"
    if "x < 5" "y < 5" for x y
    using loop_move(2)[of "replicate 25 0" x y "\<lambda>x y. rotateLeft64 (mixed ! (x + 5 * y)) (KECCAK_ROTATIONS ! (x + 5 * y))"] that
    by (simp add: moved_def[symmetric] mixed rotation_offset rotateLeft64_uint specRho_def)
  have pi: "moved ! (x + 5 * y) = uint (?B x y)" if "x < 5" "y < 5" for x y
  proof -
    have "(2 * ((x + 3 * y) mod 5) + 3 * x) mod 5 = (2 * (x + 3 * y) + 3 * x) mod 5"
      by (metis mod_add_left_eq mod_mult_right_eq)
    also have "2 * (x + 3 * y) + 3 * x = y + 5 * (x + y)" by simp
    also have "\<dots> mod 5 = y" using that by (simp only: mod_mult_self2 mod_less)
    finally have "(2 * ((x + 3 * y) mod 5) + 3 * x) mod 5 = y" .
    then show ?thesis using moved[of "(x + 3 * y) mod 5" x] that by (simp add: specPi_def)
  qed
  have nl: "length nonlinear = 25" "nonlinear ! (x + 5 * y) = uint (specChi ?B x y)" if "x < 5" "y < 5" for x y
    using loop_update[OF mixed(1)[OF that], where g = "\<lambda>x y v. moved ! (x + 5 * y)
             XOR (NOT (moved ! ((x + 1) mod 5 + 5 * y)) AND moved ! ((x + 2) mod 5 + 5 * y))"] that
    by (simp_all add: nonlinear_def pi uint_xor uint_nand specChi_def)
  have r: "keccakRound rc S = nonlinear[0 := nonlinear ! 0 XOR rc]"
    by (simp add: keccakRound_def Let_def column_def delta_def mixed_def moved_def nonlinear_def)
  have l: "length nonlinear = 25" using nl(1)[of 0 0] by simp
  have z: "nonlinear ! 0 = uint (specChi ?B 0 0)" using nl(2)[of 0 0] by simp
  have rc': "rc = uint (word_of_int rc :: 64 word)"
    using rc by (simp add: uint_word_of_int take_bit_int_eq_self)
  have "keccakRound rc S ! (x + 5 * y) = uint (if x = 0 \<and> y = 0 then specChi ?B x y XOR word_of_int rc
       else specChi ?B x y)" if "x < 5" "y < 5" for x y
  proof (cases "x = 0 \<and> y = 0")
    case True
    then show ?thesis using l z by (simp add: r) (metis rc' uint_xor)
  next
    case False
    then have "x + 5 * y \<noteq> 0" by simp
    with False show ?thesis using nl(2)[OF that] by (auto simp: r)
  qed
  then show ?thesis using l by (simp add: holds_def r)
qed

lemma specRC_range: "i < 24 \<Longrightarrow> 0 \<le> specRC i \<and> specRC i < 2 ^ 64"
proof -
  assume i: "i < 24"
  have "list_all (\<lambda>c. 0 \<le> c \<and> c < 2 ^ 64) KECCAK_ROUND_CONSTANTS" by (simp add: KECCAK_ROUND_CONSTANTS_def)
  then have "list_all (\<lambda>i. 0 \<le> specRC i \<and> specRC i < 2 ^ 64) [0..<24]"
    unfolding round_constants by (simp only: list_all_iff list.set_map ball_simps)
  with i show ?thesis by (simp only: list_all_iff atLeastLessThan_iff set_upt) simp
qed

lemma keccakPermutation_holds:
  assumes "holds S A"
  shows "holds (keccakPermutation S) (specPermutation A)"
proof -
  have "holds (fold keccakRound (map specRC ns) S) (fold specRound ns A)" if "set ns \<subseteq> {0..<24}" "holds S A" for ns S A
    using that
  proof (induction ns arbitrary: S A)
    case Nil
    then show ?case by simp
  next
    case (Cons n ns)
    then have "holds (keccakRound (specRC n) S) (specRound n A)"
      using keccakRound_holds[of S A "specRC n"] specRC_range[of n]
      by (simp add: specRound_def specIota_def[abs_def])
    with Cons show ?case by simp
  qed
  from this[of "[0..<24]", OF _ assms] show ?thesis
    unfolding keccakPermutation_def specPermutation_def round_constants by simp
qed

section \<open>The sponge\<close>

lemma keccakPadded_spec: "keccakPadded M = specPad M"
proof -
  let ?q = "136 - length M mod 136"
  have q: "1 \<le> ?q" "?q \<le> 136" by (simp_all add: Suc_le_eq)
  define d r where "d = length M div 136" and "r = length M mod 136"
  have M: "length M = 136 * d + r" "r < 136" by (simp_all add: d_def r_def)
  have "length M + 1 + 135 = r + (d + 1) * 136" using M(1) by simp
  then have "(length M + 1 + 135) div 136 = d + 1" using M(2) by simp
  then have "(length M + 1 + 135) div 136 * 136 = length M + ?q"
    unfolding r_def[symmetric] using M by simp
  then have len: "(length M + 1 + (keccakRate - 1)) div keccakRate * keccakRate - length M = ?q"
    by (simp add: keccakRate_def)
  show ?thesis
  proof (cases "?q = 1")
    case True
    have "(M @ [0])[length M := Suc 0] = M @ [Suc 0]" by simp
    with True show ?thesis
      unfolding keccakPadded_def Let_def len specPad_def True by (simp add: nth_append)
  next
    case False
    with q obtain m where m: "?q = Suc (Suc m)" by (metis One_nat_def Suc_le_D not_less_eq_eq le_SucE le0 antisym_conv1 not0_implies_Suc)
    have z: "replicate (Suc (Suc m)) (0::nat) = 0 # replicate m 0 @ [0]"
      by (simp add: replicate_append_same)
    show ?thesis
      unfolding keccakPadded_def Let_def len specPad_def m z
      by (simp add: nth_append list_update_append)
  qed
qed


fun leValue :: "nat list \<Rightarrow> int" where
  "leValue [] = 0"
| "leValue (b # bs) = int b + 256 * leValue bs"

lemma leValue_bounds: "list_all (\<lambda>b. b < 256) bs \<Longrightarrow> 0 \<le> leValue bs \<and> leValue bs < 256 ^ length bs"
  by (induction bs) auto

lemma specLane_uint:
  "list_all (\<lambda>b. b < 256) bs \<Longrightarrow> length bs \<le> 8 \<Longrightarrow> uint (specLane bs) = leValue bs"
proof (induction bs)
  case Nil
  then show ?case by simp
next
  case (Cons b bs)
  have "leValue (b # bs) < 256 ^ length (b # bs)" "0 \<le> leValue (b # bs)"
    using leValue_bounds[OF Cons.prems(1)] by auto
  moreover have "(256::int) ^ length (b # bs) \<le> 256 ^ 8"
    by (rule power_increasing) (use Cons.prems in simp_all)
  ultimately have "0 \<le> leValue (b # bs)" "leValue (b # bs) < 2 ^ 64" by simp_all
  moreover have "uint (specLane (b # bs)) = (int b + 256 * uint (specLane bs)) mod 2 ^ 64"
    by (simp add: uint_word_ariths uint_word_of_int unsigned_of_nat take_bit_eq_mod of_nat_mod mod_simps)
  ultimately show ?case using Cons by simp
qed

lemma eight: "[0..<8] = [0, 1, 2, 3, 4, 5, 6, 7]"
  by (simp add: upt_conv_Cons)

lemma take8_drop:
  assumes "off + 8 \<le> length buf"
  shows "take 8 (drop off buf) = map (\<lambda>k. buf ! (off + k)) [0..<8]"
  by (rule nth_equalityI) (use assms in simp_all)

lemma readUInt64LE_leValue:
  "off + 8 \<le> length buf \<Longrightarrow> readUInt64LE buf off = leValue (take 8 (drop off buf))"
  by (simp add: take8_drop eight readUInt64LE_def)

lemma readUInt64LE_uint:
  assumes "off + 8 \<le> length buf" "list_all (\<lambda>b. b < 256) buf"
  shows "readUInt64LE buf off = uint (specLane (take 8 (drop off buf)))"
  using assms by (subst specLane_uint)
    (auto simp: readUInt64LE_leValue list_all_iff dest!: in_set_takeD in_set_dropD)

lemma holds_cong: "holds S A \<Longrightarrow> (\<And>x y. x < 5 \<Longrightarrow> y < 5 \<Longrightarrow> A x y = B x y) \<Longrightarrow> holds S B"
  by (simp add: holds_def)

lemma absorbBlock_holds:
  assumes h: "holds S A" and len: "off + 136 \<le> length buf" and bytes: "list_all (\<lambda>b. b < 256) buf"
  shows "holds (absorbBlock buf off S) (specAbsorb (take 136 (drop off buf)) A)"
proof -
  let ?f = "\<lambda>lane s. s[lane := s ! lane XOR readUInt64LE buf (off + lane * 8)]"
  have lS: "length S = 25" using h by (simp add: holds_def)
  note u = fold_update[where f = "\<lambda>l. l" and ps = "[0..<17]" and s = S
      and g = "\<lambda>l v. v XOR readUInt64LE buf (off + l * 8)", simplified, unfolded lS, simplified]
  have nth: "fold ?f [0..<17] S ! i = S ! i XOR uint (specLane (take 8 (drop (8 * i) (take 136 (drop off buf)))))"
    if "i < 17" for i
  proof -
    have "take 8 (drop (8 * i) (take 136 (drop off buf))) = take 8 (drop (off + i * 8) buf)"
      using that by (simp add: drop_take min_def add.commute mult.commute)
    then show ?thesis using u(2)[OF that] readUInt64LE_uint[of "off + i * 8" buf] that len bytes by simp
  qed
  have "holds (fold ?f [0..<17] S) (\<lambda>x y. if x + 5 * y < 17
      then A x y XOR specLane (take 8 (drop (8 * (x + 5 * y)) (take 136 (drop off buf)))) else A x y)"
    unfolding holds_def using u(1) u(3) nth holds_nth[OF h] by (auto simp: uint_xor)
  then show ?thesis
    unfolding absorbBlock_def specAbsorb_def keccakRate_def by (auto intro: keccakPermutation_holds)
qed

lemma specBlocks_map:
  "length P = 136 * n \<Longrightarrow> specBlocks P = map (\<lambda>k. take 136 (drop (k * 136) P)) [0..<n]"
proof (induction n arbitrary: P)
  case 0
  then show ?case by (subst specBlocks.simps) simp
next
  case (Suc n)
  then have "P \<noteq> []" by auto
  moreover have "specBlocks (drop 136 P) = map (\<lambda>k. take 136 (drop (k * 136) (drop 136 P))) [0..<n]"
    using Suc by simp
  moreover have "[0..<Suc n] = 0 # map Suc [0..<n]" by (simp add: map_Suc_upt upt_conv_Cons)
  ultimately show ?case by (simp add: specBlocks.simps[of P] comp_def add.commute)
qed

lemma uint64LEBytes_spec: "uint64LEBytes (uint w AND MASK_64) = specBytes w" for w :: "64 word"
proof -
  have mask: "MASK_64 = mask 64" by (simp add: MASK_64_def mask_eq_exp_minus_1)
  have m: "uint w AND MASK_64 = uint w"
  proof (rule bit_eqI)
    fix n
    show "bit (uint w AND MASK_64) n = bit (uint w) n"
      using bit_imp_le_length[of w n] by (auto simp: mask bit_simps)
  qed
  have "nat (uint w div 256 ^ k mod 256) = unat (drop_bit (8 * k) w AND 0xFF)" for k
  proof -
    have ff: "(0xFF :: 64 word) = mask 8" by (simp add: mask_eq_exp_minus_1)
    have "unat (drop_bit (8 * k) w AND 0xFF) = take_bit 8 (drop_bit (8 * k) (unat w))"
      unfolding ff take_bit_eq_mask[symmetric]
      by (rule bit_eqI) (use bit_imp_le_length[of w] in \<open>auto simp: bit_simps\<close>)
    also have "\<dots> = unat w div 256 ^ k mod 256"
      by (simp add: take_bit_eq_mod drop_bit_eq_div power_mult)
    also have "\<dots> = nat (uint w div 256 ^ k mod 256)"
    proof -
      have "int (unat w div 256 ^ k mod 256) = uint w div 256 ^ k mod 256" by (simp add: zdiv_int zmod_int)
      then show ?thesis by (metis nat_int)
    qed
    finally show ?thesis by simp
  qed
  then show ?thesis by (simp add: uint64LEBytes_def specBytes_def m)
qed

lemma specPad_length: "\<exists>n. length (specPad M) = 136 * n"
proof -
  let ?r = "length M mod 136" and ?d = "length M div 136"
  have regroup: "136 * d + r + (136 - r) = 136 * (d + 1)" if "r < 136" for d r :: nat
    using that by simp
  have r: "?r < 136" by simp
  then have "length (specPad M) = length M + (136 - ?r)"
    by (auto simp: specPad_def Let_def)
  also have "\<dots> = 136 * ?d + ?r + (136 - ?r)" by simp
  also have "\<dots> = 136 * (?d + 1)" using r by (rule regroup)
  finally show ?thesis ..
qed

lemma specPad_bytes: "list_all (\<lambda>b. b < 256) M \<Longrightarrow> list_all (\<lambda>b. b < 256) (specPad M)"
  by (auto simp: specPad_def Let_def list_all_iff)

lemma keccak256_spec:
  assumes "list_all (\<lambda>b. b < 256) M"
  shows "keccak256 M = ''0x'' @ hexBytes (specKeccak256 M)"
proof -
  obtain n where n: "length (specPad M) = 136 * n" using specPad_length by blast
  have b: "list_all (\<lambda>b. b < 256) (specPad M)" using assms by (rule specPad_bytes)
  have "holds (fold (\<lambda>block s. absorbBlock (specPad M) (block * 136) s) ks S)
      (fold specAbsorb (map (\<lambda>k. take 136 (drop (k * 136) (specPad M))) ks) A)"
    if "set ks \<subseteq> {0..<n}" "holds S A" for ks S A
    using that
  proof (induction ks arbitrary: S A)
    case Nil
    then show ?case by simp
  next
    case (Cons k ks)
    then have "k * 136 + 136 \<le> length (specPad M)" using n by simp
    from absorbBlock_holds[OF Cons.prems(2) this b] Cons show ?case by simp
  qed
  from this[of "[0..<n]" "replicate 25 0" "\<lambda>x y. 0"]
  have "holds (fold (\<lambda>block s. absorbBlock (specPad M) (block * 136) s) [0..<n] (replicate 25 0))
      (fold specAbsorb (specBlocks (specPad M)) (\<lambda>x y. 0))"
    by (simp add: specBlocks_map[OF n] holds_def)
  then have lanes: "fold (\<lambda>block s. absorbBlock (specPad M) (block * 136) s) [0..<n] (replicate 25 0) ! x
      = uint (fold specAbsorb (specBlocks (specPad M)) (\<lambda>x y. 0) x 0)" if "x < 4" for x
    using holds_nth[of _ _ x 0] that by simp
  have out: "map (\<lambda>x. uint64LEBytes (fold (\<lambda>block s. absorbBlock (specPad M) (block * 136) s) [0..<n] (replicate 25 0) ! x
        AND MASK_64)) [0..<4]
      = map (\<lambda>x. specBytes (fold specAbsorb (specBlocks (specPad M)) (\<lambda>x y. 0) x 0)) [0..<4]"
    by (rule map_cong) (simp_all add: lanes uint64LEBytes_spec)
  have blocks: "length (specPad M) div 136 = n" using n by simp
  show ?thesis
    unfolding keccak256_def specKeccak256_def Let_def keccakPadded_spec keccakRate_def blocks out ..
qed

section \<open>Properties\<close>

text \<open>
  C16. The permutation of the code is the permutation of the standard: on a state whose 25
  integers hold 64-bit words, the 24 rounds of the code with its two literal tables leave what the
  five steps of the standard leave, with rotation offsets and round constants computed from the
  walk over the lanes and the shift register of the standard.
\<close>

theorem keccakPermutation_standard:
  assumes "holds S A"
  shows "holds (keccakPermutation S) (specPermutation A)"
  using assms by (rule keccakPermutation_holds)

lemma keccakPermutation_standard_witness:
  "holds (keccakPermutation (replicate 25 0)) (specPermutation (\<lambda>x y. 0))"
  by (rule keccakPermutation_standard) (simp add: holds_def)

text \<open>
  C28. Padding, absorption and output: for every byte array the function returns the lower-case
  hexadecimal text of the sponge's 32 bytes.
\<close>

theorem keccak256_standard:
  assumes "list_all (\<lambda>b. b < 256) M"
  shows "keccak256 M = ''0x'' @ hexBytes (specKeccak256 M)"
  using assms by (rule keccak256_spec)

lemma keccak256_standard_witness: "keccak256 [97, 98, 99] = ''0x'' @ hexBytes (specKeccak256 [97, 98, 99])"
  by (rule keccak256_standard) simp

end
