(* ===== verification/PlanModel.thy ===== *)
theory PlanModel
  imports Decimal
begin

text \<open>
  \<open>tooling/deployment-plan/src/domain/model.ts\<close>: decimal parsing, checked uint256
  arithmetic and the cost computation of the deployment planner. \<open>fail(code, message)\<close>
  is \<open>Inl (PlanErr code)\<close>.
\<close>

definition PLAN_UINT256_MAX :: int where "PLAN_UINT256_MAX = 2 ^ 256 - 1"
definition LOCAL_CHAIN_ID :: string where "LOCAL_CHAIN_ID = ''31337''"

record costInput =
  gasEstimate :: int
  bufferBps :: int
  baseFeePerGas :: int
  maxPriorityFeePerGas :: int
  maxFeePerGas :: int
  costValue :: int
  blockGasLimit :: int
  maximumWorstCaseWei :: int

record costResult =
  gasLimit :: int
  effectiveFee :: int
  estimatedWei :: int
  worstCaseWei :: int

definition failPlan :: "string \<Rightarrow> js_error + 'a" where
  "failPlan c = Inl (PlanErr c)"

fun parseUint :: "jsval \<Rightarrow> bool \<Rightarrow> js_error + int" where
  "parseUint (JStr value) allowZero =
     (if \<not> canonicalDec value then failPlan ''INVALID_DECIMAL''
      else if length value > 78 then failPlan ''DECIMAL_TOO_LONG''
      else let parsed = int (undec value) in
        if (\<not> allowZero \<and> parsed = 0) \<or> parsed > PLAN_UINT256_MAX then failPlan ''UINT256_RANGE''
        else Inr parsed)"
| "parseUint _ allowZero = failPlan ''INVALID_DECIMAL''"

definition checkedAdd :: "int \<Rightarrow> int \<Rightarrow> js_error + int" where
  "checkedAdd left right =
    (let r = left + right in
     if left < 0 \<or> right < 0 \<or> r > PLAN_UINT256_MAX then failPlan ''UINT256_OVERFLOW'' else Inr r)"

definition checkedMul :: "int \<Rightarrow> int \<Rightarrow> js_error + int" where
  "checkedMul left right =
    (let r = left * right in
     if left < 0 \<or> right < 0 \<or> r > PLAN_UINT256_MAX then failPlan ''UINT256_OVERFLOW'' else Inr r)"

text \<open>The division of the code is of non-negative numbers, where it agrees with \<open>div\<close>.\<close>

definition ceilDiv :: "int \<Rightarrow> int \<Rightarrow> js_error + int" where
  "ceilDiv numerator denominator =
    (if numerator < 0 \<or> denominator \<le> 0 then failPlan ''INVALID_ARITHMETIC''
     else Inr (if numerator = 0 then 0 else (numerator - 1) div denominator + 1))"

text \<open>The fields in the order \<open>Object.entries\<close> lists them.\<close>

definition costEntries :: "costInput \<Rightarrow> int list" where
  "costEntries i = [gasEstimate i, bufferBps i, baseFeePerGas i, maxPriorityFeePerGas i, maxFeePerGas i,
     costValue i, blockGasLimit i, maximumWorstCaseWei i]"

definition validateCostInput :: "costInput \<Rightarrow> js_error + unit" where
  "validateCostInput i =
    bindE (eachE (\<lambda>v. failIf (v < 0 \<or> v > PLAN_UINT256_MAX) (PlanErr ''UINT256_RANGE'')) (costEntries i)) (\<lambda>_.
    bindE (failIf (gasEstimate i = 0) (PlanErr ''GAS_ESTIMATE_ZERO'')) (\<lambda>_.
    bindE (failIf (bufferBps i > 100000) (PlanErr ''GAS_BUFFER_ABSURD'')) (\<lambda>_.
    bindE (failIf (maxFeePerGas i < baseFeePerGas i) (PlanErr ''MAX_FEE_BELOW_BASE'')) (\<lambda>_.
    failIf (maxPriorityFeePerGas i > maxFeePerGas i) (PlanErr ''PRIORITY_ABOVE_MAX'')))))"

definition calculateCosts :: "costInput \<Rightarrow> js_error + costResult" where
  "calculateCosts i =
    bindE (validateCostInput i) (\<lambda>_.
    bindE (checkedAdd 10000 (bufferBps i)) (\<lambda>bufferFactor.
    bindE (checkedMul (gasEstimate i) bufferFactor) (\<lambda>bufferedGas.
    bindE (ceilDiv bufferedGas 10000) (\<lambda>limit.
    bindE (failIf (limit < gasEstimate i) (PlanErr ''GAS_LIMIT_BELOW_ESTIMATE'')) (\<lambda>_.
    bindE (failIf (limit > blockGasLimit i) (PlanErr ''GAS_LIMIT_ABOVE_BLOCK'')) (\<lambda>_.
    bindE (checkedAdd (baseFeePerGas i) (maxPriorityFeePerGas i)) (\<lambda>basePlusPriority.
    let fee = (if maxFeePerGas i < basePlusPriority then maxFeePerGas i else basePlusPriority) in
    bindE (checkedMul (gasEstimate i) fee) (\<lambda>gasWei.
    bindE (checkedAdd gasWei (costValue i)) (\<lambda>estimated.
    bindE (checkedMul limit (maxFeePerGas i)) (\<lambda>limitWei.
    bindE (checkedAdd limitWei (costValue i)) (\<lambda>worst.
    bindE (failIf (worst > maximumWorstCaseWei i) (PlanErr ''COST_CAP_EXCEEDED'')) (\<lambda>_.
    Inr \<lparr>gasLimit = limit, effectiveFee = fee, estimatedWei = estimated, worstCaseWei = worst\<rparr>))))))))))))"

section \<open>Reading decimals\<close>

lemma parseUint_JStr:
  "parseUint v allowZero = Inr n \<longleftrightarrow>
     0 \<le> n \<and> n \<le> PLAN_UINT256_MAX \<and> (n = 0 \<longrightarrow> allowZero) \<and> v = JStr (decInt n)"
proof (cases v)
  case (JStr s)
  have len: "length (decInt n) \<le> 78" if "0 \<le> n" "n \<le> PLAN_UINT256_MAX"
  proof -
    have "n < 10 ^ 78" using that by (simp add: PLAN_UINT256_MAX_def)
    with that show ?thesis using length_decInt_le[of n 78] by simp
  qed
  show ?thesis
  proof (cases "canonicalDec s")
    case True
    then have s: "s = decInt (int (undec s))" by simp
    have n: "0 \<le> n \<and> s = decInt n \<longleftrightarrow> n = int (undec s)" using s by (metis decInt_inj_nonneg of_nat_0_le_iff)
    show ?thesis
    proof (cases "n = int (undec s)")
      case True
      with \<open>canonicalDec s\<close> len n JStr show ?thesis
        by (auto simp: failPlan_def Let_def)
    next
      case False
      with n JStr show ?thesis by (auto simp: failPlan_def Let_def)
    qed
  next
    case False
    then have "\<not> (0 \<le> n \<and> s = decInt n)" by auto
    with False JStr show ?thesis by (auto simp: failPlan_def)
  qed
qed (auto simp: failPlan_def)

declare parseUint.simps(1) [simp del]

definition readUint :: "string \<Rightarrow> int option" where
  "readUint s = (case parseUint (JStr s) True of Inl _ \<Rightarrow> None | Inr n \<Rightarrow> Some n)"

lemma readUint_Some: "readUint s = Some n \<longleftrightarrow> parseUint (JStr s) True = Inr n"
  by (simp add: readUint_def split: sum.split)

interpretation plan_uint: decimal_codec readUint PLAN_UINT256_MAX
  by unfold_locales (simp_all add: readUint_Some parseUint_JStr)

section \<open>Costs\<close>

lemma checkedAdd_Inr: "checkedAdd a b = Inr r \<longleftrightarrow> 0 \<le> a \<and> 0 \<le> b \<and> a + b \<le> PLAN_UINT256_MAX \<and> r = a + b"
  by (auto simp: checkedAdd_def failPlan_def Let_def)

lemma checkedMul_Inr: "checkedMul a b = Inr r \<longleftrightarrow> 0 \<le> a \<and> 0 \<le> b \<and> a * b \<le> PLAN_UINT256_MAX \<and> r = a * b"
  by (auto simp: checkedMul_def failPlan_def Let_def)

lemma ceilDiv_Inr:
  "ceilDiv n d = Inr r \<longleftrightarrow> 0 \<le> n \<and> 0 < d \<and> d * (r - 1) < n \<and> n \<le> d * r"
proof (cases "0 \<le> n \<and> 0 < d")
  case True
  have u: "d * (r - 1) < n \<and> n \<le> d * r \<longleftrightarrow> r = (n - 1) div d + 1" 
  proof
    assume *: "d * (r - 1) < n \<and> n \<le> d * r"
    then have "0 \<le> n - 1 - d * (r - 1)" "n - 1 - d * (r - 1) < d" by (simp_all add: algebra_simps)
    moreover have "n - 1 = (n - 1 - d * (r - 1)) + (r - 1) * d" by (simp add: algebra_simps)
    ultimately have "(n - 1) div d = r - 1"
      using True by (metis add.commute div_pos_pos_trivial div_mult_self1 less_irrefl add.right_neutral)
    then show "r = (n - 1) div d + 1" by simp
  next
    assume r: "r = (n - 1) div d + 1"
    have "d * ((n - 1) div d) + (n - 1) mod d = n - 1" by simp
    moreover have "0 \<le> (n - 1) mod d" "(n - 1) mod d < d"
      using True by simp_all
    ultimately show "d * (r - 1) < n \<and> n \<le> d * r"
      unfolding r distrib_left mult_1_right add_diff_cancel_right' by linarith
  qed
  have "(-1) div d = -1" using True by (simp add: div_eq_minus1)
  with True u show ?thesis by (auto simp: ceilDiv_def)
next
  case False
  then show ?thesis by (auto simp: ceilDiv_def failPlan_def)
qed

definition inUint256 :: "int \<Rightarrow> bool" where
  "inUint256 v \<longleftrightarrow> 0 \<le> v \<and> v \<le> PLAN_UINT256_MAX"

text \<open>
  The contract of the cost computation. The gas limit is the estimate with the buffer in basis
  points, rounded up; the fee paid is the smaller of the cap and base plus priority.
\<close>

definition costOk :: "costInput \<Rightarrow> costResult \<Rightarrow> bool" where
  "costOk i r \<longleftrightarrow> list_all inUint256 (costEntries i)
     \<and> 0 < gasEstimate i \<and> bufferBps i \<le> 100000
     \<and> baseFeePerGas i \<le> maxFeePerGas i \<and> maxPriorityFeePerGas i \<le> maxFeePerGas i
     \<and> gasEstimate i * (10000 + bufferBps i) \<le> PLAN_UINT256_MAX
     \<and> baseFeePerGas i + maxPriorityFeePerGas i \<le> PLAN_UINT256_MAX
     \<and> 10000 * (gasLimit r - 1) < gasEstimate i * (10000 + bufferBps i)
     \<and> gasEstimate i * (10000 + bufferBps i) \<le> 10000 * gasLimit r
     \<and> gasLimit r \<le> blockGasLimit i
     \<and> effectiveFee r = min (maxFeePerGas i) (baseFeePerGas i + maxPriorityFeePerGas i)
     \<and> estimatedWei r = gasEstimate i * effectiveFee r + costValue i
     \<and> worstCaseWei r = gasLimit r * maxFeePerGas i + costValue i
     \<and> worstCaseWei r \<le> maximumWorstCaseWei i"

lemma failIf_bind: "bindE (failIf c e) f = Inr r \<longleftrightarrow> \<not> c \<and> f () = Inr r"
  by (simp add: failIf_def)

lemma validateCostInput_Inr:
  "validateCostInput i = Inr () \<longleftrightarrow> list_all inUint256 (costEntries i)
     \<and> 0 < gasEstimate i \<and> bufferBps i \<le> 100000
     \<and> baseFeePerGas i \<le> maxFeePerGas i \<and> maxPriorityFeePerGas i \<le> maxFeePerGas i"
proof -
  have "eachE (\<lambda>v. failIf (v < 0 \<or> v > PLAN_UINT256_MAX) (PlanErr ''UINT256_RANGE'')) (costEntries i) = Inr ()
      \<longleftrightarrow> list_all inUint256 (costEntries i)"
    by (auto simp: eachE_Inr_iff list_all_iff inUint256_def not_less)
  then show ?thesis
    unfolding validateCostInput_def bindE_Inr_iff failIf_Inr_iff
    by (auto simp: costEntries_def inUint256_def not_less)
qed

lemma buffered_above:
  fixes g b l :: int
  assumes "0 \<le> g" "0 \<le> b" "g * (10000 + b) \<le> 10000 * l"
  shows "g \<le> l"
proof -
  have "0 \<le> g * b" using assms by simp
  with assms(3) show ?thesis by (simp add: distrib_left)
qed

lemma fee_products:
  fixes g l f m v c :: int
  assumes "0 \<le> g" "g \<le> l" "0 \<le> f" "f \<le> m" "0 \<le> v" "l * m + v \<le> c"
  shows "g * f + v \<le> l * m + v" "g * f \<le> c" "l * m \<le> c" "0 \<le> g * f" "0 \<le> l * m"
proof -
  have "g * f \<le> l * m" using assms by (intro mult_mono) auto
  moreover have "0 \<le> g * f" "0 \<le> l * m" using assms by auto
  ultimately show "g * f + v \<le> l * m + v" "g * f \<le> c" "l * m \<le> c" "0 \<le> g * f" "0 \<le> l * m"
    using assms by linarith+
qed

lemma calculateCosts_unfold:
  "calculateCosts i = Inr r \<longleftrightarrow> validateCostInput i = Inr () \<and>
    (\<exists>limit worst estimated. let fee = min (maxFeePerGas i) (baseFeePerGas i + maxPriorityFeePerGas i) in
       0 \<le> bufferBps i \<and> 10000 + bufferBps i \<le> PLAN_UINT256_MAX
     \<and> 0 \<le> gasEstimate i \<and> 0 \<le> 10000 + bufferBps i
     \<and> gasEstimate i * (10000 + bufferBps i) \<le> PLAN_UINT256_MAX
     \<and> 0 \<le> gasEstimate i * (10000 + bufferBps i)
     \<and> 10000 * (limit - 1) < gasEstimate i * (10000 + bufferBps i)
     \<and> gasEstimate i * (10000 + bufferBps i) \<le> 10000 * limit
     \<and> gasEstimate i \<le> limit \<and> limit \<le> blockGasLimit i
     \<and> 0 \<le> baseFeePerGas i \<and> 0 \<le> maxPriorityFeePerGas i
     \<and> baseFeePerGas i + maxPriorityFeePerGas i \<le> PLAN_UINT256_MAX
     \<and> 0 \<le> fee \<and> gasEstimate i * fee \<le> PLAN_UINT256_MAX
     \<and> 0 \<le> gasEstimate i * fee \<and> 0 \<le> costValue i \<and> gasEstimate i * fee + costValue i \<le> PLAN_UINT256_MAX
     \<and> estimated = gasEstimate i * fee + costValue i
     \<and> 0 \<le> limit \<and> 0 \<le> maxFeePerGas i \<and> limit * maxFeePerGas i \<le> PLAN_UINT256_MAX
     \<and> 0 \<le> limit * maxFeePerGas i \<and> limit * maxFeePerGas i + costValue i \<le> PLAN_UINT256_MAX
     \<and> worst = limit * maxFeePerGas i + costValue i
     \<and> worst \<le> maximumWorstCaseWei i
     \<and> r = \<lparr>gasLimit = limit, effectiveFee = fee, estimatedWei = estimated, worstCaseWei = worst\<rparr>)"
proof -
  have m: "(if maxFeePerGas i < b then maxFeePerGas i else b) = min (maxFeePerGas i) b" for b
    by (simp add: min_def)
  show ?thesis
    unfolding calculateCosts_def bindE_Inr_iff Let_def m checkedAdd_Inr checkedMul_Inr ceilDiv_Inr failIf_Inr_iff
    by (auto simp: not_less)
qed

lemma calculateCosts_contract: "calculateCosts i = Inr r \<longleftrightarrow> costOk i r"
proof
  assume "calculateCosts i = Inr r"
  then show "costOk i r"
    unfolding calculateCosts_unfold Let_def validateCostInput_Inr by (auto simp: costOk_def)
next
  assume ok: "costOk i r"
  let ?fee = "min (maxFeePerGas i) (baseFeePerGas i + maxPriorityFeePerGas i)"
  from ok have range: "0 \<le> gasEstimate i" "0 \<le> bufferBps i" "0 \<le> baseFeePerGas i" "0 \<le> maxPriorityFeePerGas i"
      "0 \<le> maxFeePerGas i" "0 \<le> costValue i" "maximumWorstCaseWei i \<le> PLAN_UINT256_MAX" "bufferBps i \<le> 100000"
    by (auto simp: costOk_def costEntries_def inUint256_def)
  have f: "0 \<le> ?fee" "?fee \<le> maxFeePerGas i" using range by auto
  have g: "gasEstimate i \<le> gasLimit r"
    by (rule buffered_above[of _ "bufferBps i"]) (use ok range in \<open>auto simp: costOk_def\<close>)
  have w: "gasLimit r * maxFeePerGas i + costValue i \<le> maximumWorstCaseWei i"
    using ok by (auto simp: costOk_def)
  note p = fee_products[OF range(1) g f range(6) w]
  have b: "10000 + bufferBps i \<le> PLAN_UINT256_MAX"
    using range(8) by (simp add: PLAN_UINT256_MAX_def)
  have nn: "0 \<le> gasEstimate i * (10000 + bufferBps i)" using range by simp
  have v: "validateCostInput i = Inr ()" using ok by (auto simp: costOk_def validateCostInput_Inr)
  have r: "r = \<lparr>gasLimit = gasLimit r, effectiveFee = ?fee, estimatedWei = gasEstimate i * ?fee + costValue i,
      worstCaseWei = gasLimit r * maxFeePerGas i + costValue i\<rparr>"
    using ok by (cases r) (auto simp: costOk_def)
  from ok have c: "gasEstimate i * (10000 + bufferBps i) \<le> PLAN_UINT256_MAX"
      "10000 * (gasLimit r - 1) < gasEstimate i * (10000 + bufferBps i)"
      "gasEstimate i * (10000 + bufferBps i) \<le> 10000 * gasLimit r" "gasLimit r \<le> blockGasLimit i"
      "baseFeePerGas i + maxPriorityFeePerGas i \<le> PLAN_UINT256_MAX"
    by (simp_all add: costOk_def)
  have d: "0 \<le> 10000 + bufferBps i" "0 \<le> gasLimit r" "gasEstimate i * ?fee \<le> PLAN_UINT256_MAX"
      "gasEstimate i * ?fee + costValue i \<le> PLAN_UINT256_MAX" "gasLimit r * maxFeePerGas i \<le> PLAN_UINT256_MAX"
      "gasLimit r * maxFeePerGas i + costValue i \<le> PLAN_UINT256_MAX"
    using range g p w by linarith+
  show "calculateCosts i = Inr r"
    unfolding calculateCosts_unfold Let_def
    by (intro conjI exI[of _ "gasLimit r"] exI[of _ "gasLimit r * maxFeePerGas i + costValue i"]
          exI[of _ "gasEstimate i * ?fee + costValue i"] v r range b nn c g f p d w refl)
qed

lemma throws_checkedAdd [throws_intros]: "PlanErr ''UINT256_OVERFLOW'' \<in> S \<Longrightarrow> throwsOnly S (checkedAdd a b)"
  by (simp add: checkedAdd_def failPlan_def Let_def throwsOnly_def)

lemma throws_checkedMul [throws_intros]: "PlanErr ''UINT256_OVERFLOW'' \<in> S \<Longrightarrow> throwsOnly S (checkedMul a b)"
  by (simp add: checkedMul_def failPlan_def Let_def throwsOnly_def)

text \<open>Two of the error codes in the code are never thrown.\<close>

lemma calculateCosts_throws:
  "throwsOnly (- {PlanErr ''GAS_LIMIT_BELOW_ESTIMATE'', PlanErr ''INVALID_ARITHMETIC''}) (calculateCosts i)"
proof -
  let ?S = "- {PlanErr ''GAS_LIMIT_BELOW_ESTIMATE'', PlanErr ''INVALID_ARITHMETIC''}"
  have v: "throwsOnly ?S (validateCostInput i)"
    unfolding validateCostInput_def by (intro throws_intros) simp_all
  have ceil: "throwsOnly ?S (ceilDiv b 10000)"
    if "validateCostInput i = Inr x" "checkedAdd 10000 (bufferBps i) = Inr f"
      "checkedMul (gasEstimate i) f = Inr b" for x f b
    proof -
    from that(3) have "0 \<le> gasEstimate i" "0 \<le> f" "b = gasEstimate i * f" unfolding checkedMul_Inr by auto
    then have "\<not> b < 0" by (simp add: mult_nonneg_nonneg not_less)
    then show ?thesis by (simp add: ceilDiv_def throwsOnly_def)
  qed
  have limit: "\<not> l < gasEstimate i"
    if "validateCostInput i = Inr x" "checkedAdd 10000 (bufferBps i) = Inr f"
      "checkedMul (gasEstimate i) f = Inr b" "ceilDiv b 10000 = Inr l" for x f b l
  proof -
    have "gasEstimate i \<le> l"
      by (rule buffered_above[of _ "bufferBps i"]) (use that in \<open>auto simp: checkedAdd_Inr checkedMul_Inr ceilDiv_Inr\<close>)
    then show ?thesis by simp
  qed
  show ?thesis
    unfolding calculateCosts_def Let_def
    by (intro v throws_intros ceil) (simp_all add: limit)
qed

lemma calculateCosts_error:
  "calculateCosts i = Inl e \<Longrightarrow> e \<noteq> PlanErr ''GAS_LIMIT_BELOW_ESTIMATE'' \<and> e \<noteq> PlanErr ''INVALID_ARITHMETIC''"
  using calculateCosts_throws[of i] by (simp add: throwsOnly_def)

section \<open>Properties\<close>

text \<open>
  C14. The planner's costs are exact: a result is returned for exactly the inputs that satisfy
  \<open>costOk\<close>, with the gas limit, fee, estimate and worst case that it states, so no other
  input is ever quoted.
\<close>

theorem calculateCosts_exact: "calculateCosts i = Inr r \<longleftrightarrow> costOk i r"
  by (rule calculateCosts_contract)

text \<open>
  A quoted result is within every limit: the gas limit lies between the estimate and the
  block's limit, the fee between the base fee and the cap, and the estimate is no more than the
  worst case, which fits the caller's cap and the 256 bits. The check that the limit is not below
  the estimate never fires.
\<close>

lemma calculateCosts_bounds:
  "(case calculateCosts i of
      Inr r \<Rightarrow> gasEstimate i \<le> gasLimit r \<and> gasLimit r \<le> blockGasLimit i
        \<and> gasLimit r \<le> 11 * gasEstimate i
        \<and> baseFeePerGas i \<le> effectiveFee r \<and> effectiveFee r \<le> maxFeePerGas i
        \<and> estimatedWei r \<le> worstCaseWei r \<and> worstCaseWei r \<le> maximumWorstCaseWei i
        \<and> worstCaseWei r \<le> PLAN_UINT256_MAX
    | Inl e \<Rightarrow> e \<noteq> PlanErr ''GAS_LIMIT_BELOW_ESTIMATE'' \<and> e \<noteq> PlanErr ''INVALID_ARITHMETIC'')"
proof (cases "calculateCosts i")
  case (Inr r)
  then have ok: "costOk i r" by (simp add: calculateCosts_contract)
  then have range: "0 \<le> gasEstimate i" "0 \<le> bufferBps i" "0 \<le> baseFeePerGas i" "0 \<le> maxPriorityFeePerGas i"
      "0 \<le> maxFeePerGas i" "0 \<le> costValue i" "maximumWorstCaseWei i \<le> PLAN_UINT256_MAX" "bufferBps i \<le> 100000"
    by (auto simp: costOk_def costEntries_def inUint256_def)
  have g: "gasEstimate i \<le> gasLimit r"
    by (rule buffered_above[of _ "bufferBps i"]) (use ok range in \<open>auto simp: costOk_def\<close>)
  have "gasEstimate i * (10000 + bufferBps i) \<le> gasEstimate i * 110000"
    using range by (intro mult_left_mono) auto
  then have "10000 * (gasLimit r - 1) < 10000 * (11 * gasEstimate i)" using ok unfolding costOk_def by linarith
  then have "gasLimit r \<le> 11 * gasEstimate i" by simp
  moreover have fee: "0 \<le> effectiveFee r" "effectiveFee r \<le> maxFeePerGas i" "baseFeePerGas i \<le> effectiveFee r"
    using ok range by (auto simp: costOk_def)
  moreover have w: "gasLimit r * maxFeePerGas i + costValue i \<le> maximumWorstCaseWei i"
    using ok by (simp add: costOk_def)
  moreover note fee_products(1)[OF range(1) g fee(1,2) range(6) w]
  ultimately show ?thesis using ok g range(7) Inr by (simp add: costOk_def)
next
  case (Inl e)
  have "e \<noteq> PlanErr ''GAS_LIMIT_BELOW_ESTIMATE'' \<and> e \<noteq> PlanErr ''INVALID_ARITHMETIC''"
    using calculateCosts_error[OF Inl] .
  with Inl show ?thesis by simp
qed

end
