(* ===== verification/PlanIdentity.thy ===== *)
theory PlanIdentity
  imports Keccak PlanModel
begin

text \<open>
  The rest of \<open>tooling/deployment-plan/src/domain/identity.ts\<close>: canonical JSON with keys in
  code point order, plan ids and CREATE addresses. SHA-256 is the platform's and a parameter: a
  function from bytes to the hexadecimal text of the digest.
\<close>

section \<open>Canonical JSON\<close>

fun comparePoints :: "nat list \<Rightarrow> nat list \<Rightarrow> int" where
  "comparePoints (a # as) (b # bs) = (if a \<noteq> b then if a < b then -1 else 1 else comparePoints as bs)"
| "comparePoints as bs = int (length as) - int (length bs)"

definition compareCodePoints :: "string \<Rightarrow> string \<Rightarrow> int" where
  "compareCodePoints left right = comparePoints (map of_char left) (map of_char right)"

definition compareEntries :: "string \<times> jsval \<Rightarrow> string \<times> jsval \<Rightarrow> int" where
  "compareEntries l r = compareCodePoints (fst l) (fst r)"

function planJson :: "jsval \<Rightarrow> js_error + string" where
  "planJson JNull = Inr ''null''"
| "planJson (JBool b) = Inr (if b then ''true'' else ''false'')"
| "planJson (JStr s) = Inr (jsonQuote s)"
| "planJson (JNum n) = (if \<not> isSafeInteger (JNum n) then failPlan ''UNSAFE_NUMBER'' else Inr (decInt n))"
| "planJson (JFrac t) = failPlan ''UNSAFE_NUMBER''"
| "planJson (JArr sh xs) = bindE (mapE planJson xs) (\<lambda>ts. Inr (CHR ''['' # joinComma ts @ '']''))"
| "planJson (JObj sh r) =
     bindE (mapE (\<lambda>kv. bindE (planJson (snd kv)) (\<lambda>t. Inr (jsonQuote (fst kv) @ CHR '':'' # t)))
         (toSorted compareEntries r))
       (\<lambda>ts. Inr (CHR ''{'' # joinComma ts @ ''}''))"
| "planJson JUndef = failPlan ''CANONICAL_TYPE''"
| "planJson JOther = failPlan ''CANONICAL_TYPE''"
  by pat_completeness auto
termination
  by (relation "measure size") (auto dest: size_elem_less size_pair_less)

lemma of_char_less_iff: "(of_char a :: nat) < of_char b \<longleftrightarrow> a < b"
  by (simp add: less_char_def)

lemma comparePoints_le:
  "comparePoints (map of_char l) (map of_char r) \<le> 0 \<longleftrightarrow> l \<le> (r :: string)"
proof (induction l arbitrary: r)
  case Nil
  then show ?case by simp
next
  case (Cons a l)
  show ?case
  proof (cases r)
    case Nil
    then show ?thesis by simp
  next
    case r: (Cons b r')
    show ?thesis
    proof (cases "a = b")
      case True
      then show ?thesis using Cons r by simp
    next
      case False
      then have "(of_char a :: nat) \<noteq> of_char b" by simp
      with False r show ?thesis by (auto simp: of_char_less_iff Cons_le_Cons)
    qed
  qed
qed

text \<open>Sorting looks at a comparator only to ask whether it is positive.\<close>

lemma toSorted_same:
  assumes "\<And>x y. c x y \<le> 0 \<longleftrightarrow> c' x y \<le> 0"
  shows "toSorted c xs = toSorted c' xs"
proof -
  have "insertBy c x ys = insertBy c' x ys" for x ys by (induction ys) (auto simp: assms)
  then show ?thesis by (induction xs) auto
qed

lemma entries_sorted: "toSorted compareEntries r = toSorted (compareKey fst) r"
  by (rule toSorted_same)
    (auto simp: compareEntries_def compareCodePoints_def comparePoints_le compareKey_def compareText_def)

interpretation entry_order: comparator compareEntries
proof
  have le: "compareEntries x y \<le> 0 \<longleftrightarrow> fst x \<le> fst y" for x y
    by (simp add: compareEntries_def compareCodePoints_def comparePoints_le)
  show "compareEntries y x \<le> 0" if "0 < compareEntries x y" for x y
    using that le[of x y] le[of y x] by auto
  show "compareEntries x z \<le> 0" if "compareEntries x y \<le> 0" "compareEntries y z \<le> 0" for x y z
    using that by (simp add: le)
qed

lemma planJson_stringify: "planJson v = Inr s \<Longrightarrow> s = stringify (sortKeys v)"
proof (induction v arbitrary: s rule: planJson.induct)
  case (6 sh xs)
  then obtain ts where ts: "list_all2 (\<lambda>x t. planJson x = Inr t) xs ts"
    and s: "s = CHR ''['' # joinComma ts @ '']''"
    by (auto simp: res_simps)
  from ts "6.IH" have "list_all2 (\<lambda>x t. t = stringify (sortKeys x)) xs ts"
    by (auto simp: list_all2_conv_all_nth)
  with s show ?case by (simp add: list_all2_eq_map comp_def)
next
  case (7 sh r)
  let ?q = "toSorted (compareKey fst) r"
  from 7 obtain ts where ts: "list_all2 (\<lambda>kv t. \<exists>u. planJson (snd kv) = Inr u \<and>
        jsonQuote (fst kv) @ CHR '':'' # u = t) ?q ts"
    and s: "s = CHR ''{'' # joinComma ts @ ''}''"
    by (auto simp: res_simps entries_sorted)
  have "list_all2 (\<lambda>kv t. t = jsonQuote (fst kv) @ CHR '':'' # stringify (sortKeys (snd kv))) ?q ts"
    by (rule list.rel_mono_strong[OF ts(1)]) (use "7.IH" in \<open>auto simp: entries_sorted\<close>)
  with s show ?case by (simp add: list_all2_eq_map comp_def)
qed (auto simp: failPlan_def split: if_splits)

lemma planJson_isJson: "planJson v = Inr s \<Longrightarrow> distinctKeys v \<Longrightarrow> isJson (sortKeys v)"
proof (induction v arbitrary: s rule: planJson.induct)
  case (6 sh xs)
  then show ?case
    by (fastforce simp: res_simps list_all2_conv_all_nth in_set_conv_nth)
next
  case (7 sh r)
  let ?q = "toSorted (compareKey fst) r"
  from 7 obtain ts where ts: "list_all2 (\<lambda>kv t. \<exists>u. planJson (snd kv) = Inr u \<and>
        jsonQuote (fst kv) @ CHR '':'' # u = t) ?q ts"
    by (auto simp: res_simps entries_sorted)
  have all: "\<exists>u. planJson (snd kv) = Inr u" if "kv \<in> set ?q" for kv
    using list_all2_in_set1[OF ts(1) that] by blast
  have "distinct (map fst ?q)"
    using "7.prems"(2) by (simp add: map_toSorted_compareKey)
  moreover have "isJson (sortKeys (snd kv))" if "kv \<in> set r" for kv
    using all[of kv] that "7.IH"[of kv] "7.prems"(2) by (auto simp: entries_sorted)
  ultimately show ?case by (auto simp: comp_def)
qed (auto simp: failPlan_def split: if_splits)

lemma planJson_text_iff:
  assumes "planJson v = Inr s" "planJson w = Inr t" "distinctKeys v" "distinctKeys w"
  shows "s = t \<longleftrightarrow> sortKeys v = sortKeys w"
  using assms by (simp add: planJson_stringify[OF assms(1)] planJson_stringify[OF assms(2)]
      stringify_inj planJson_isJson)

section \<open>Plan ids\<close>

definition PLAN_ID_DOMAIN :: string where "PLAN_ID_DOMAIN = ''AGTMAI_UNSIGNED_DEPLOYMENT_PLAN_V2''"

text \<open>The UTF-8 bytes of a string, as hashing a string takes them.\<close>

fun utf8 :: "string \<Rightarrow> nat list" where
  "utf8 [] = []"
| "utf8 (c # s) = (if of_char c < (128::nat) then [of_char c]
     else [192 + of_char c div 64, 128 + of_char c mod 64]) @ utf8 s"

definition sha256Hex :: "(nat list \<Rightarrow> string) \<Rightarrow> nat list \<Rightarrow> string" where
  "sha256Hex sha256 value = ''0x'' @ sha256 value"

definition planPreimage :: "string \<Rightarrow> nat list" where
  "planPreimage json = utf8 (PLAN_ID_DOMAIN @ [CHR 0x00] @ json)"

definition computePlanId :: "(nat list \<Rightarrow> string) \<Rightarrow> jsrecord \<Rightarrow> js_error + string" where
  "computePlanId sha256 identity =
    bindE (planJson (JObj Plain identity)) (\<lambda>json. Inr (sha256Hex sha256 (planPreimage json)))"

lemma utf8_unit:
  fixes a b :: nat
  assumes "(if a < 128 then [a] else [192 + a div 64, 128 + a mod 64]) @ x
    = (if b < 128 then [b] else [192 + b div 64, 128 + b mod 64]) @ y"
  shows "a = b \<and> x = y"
proof (cases "a < 128"; cases "b < 128")
  assume "\<not> a < 128" "\<not> b < 128"
  with assms have "a div 64 = b div 64" "a mod 64 = b mod 64" "x = y" by simp_all
  then show ?thesis by (metis div_mult_mod_eq)
qed (use assms in auto)

lemma utf8_inj: "utf8 s = utf8 t \<Longrightarrow> s = t"
proof (induction s arbitrary: t)
  case Nil
  then show ?case by (cases t) (auto split: if_splits)
next
  case (Cons c s)
  show ?case
  proof (cases t)
    case Nil
    with Cons.prems show ?thesis by (auto split: if_splits)
  next
    case t: (Cons d t')
    from Cons.prems have "(of_char c :: nat) = of_char d \<and> utf8 s = utf8 t'"
      unfolding t utf8.simps by (rule utf8_unit)
    with t Cons.IH show ?thesis by auto
  qed
qed

section \<open>CREATE addresses\<close>

text \<open>\<open>nonce.toString(16)\<close> and \<open>Buffer.from(text, "hex")\<close> of well formed text.\<close>

fun toHex :: "nat \<Rightarrow> string" where
  "toHex n = (if n < 16 then [hexDigit n] else toHex (n div 16) @ [hexDigit (n mod 16)])"

declare toHex.simps [simp del]

fun fromHex :: "string \<Rightarrow> nat list" where
  "fromHex (a # b # s) = (16 * hexVal a + hexVal b) # fromHex s"
| "fromHex _ = []"

definition encodeRlpNonce :: "int \<Rightarrow> nat list" where
  "encodeRlpNonce nonce =
    (if nonce = 0 then [0x80]
     else let hex = toHex (nat nonce);
              hex = (if length hex mod 2 \<noteq> 0 then CHR ''0'' # hex else hex);
              bytes = fromHex hex
          in if length bytes = 1 \<and> bytes ! 0 < 0x80 then bytes else (0x80 + length bytes) # bytes)"

definition createPreimage :: "string \<Rightarrow> int \<Rightarrow> nat list" where
  "createPreimage sender nonce =
    (let senderBytes = fromHex (drop 2 sender);
         encodedSender = (0x80 + length senderBytes) # senderBytes;
         payload = encodedSender @ encodeRlpNonce nonce
     in (0xc0 + length payload) # payload)"

definition deriveCreateAddress :: "string \<Rightarrow> int \<Rightarrow> js_error + string" where
  "deriveCreateAddress sender nonce =
    (if \<not> matchesHex 40 sender then failPlan ''CREATE_SENDER_INVALID''
     else if nonce < 0 \<or> nonce \<ge> 2 ^ 256 then failPlan ''CREATE_NONCE_INVALID''
     else let hash = keccak256 (createPreimage sender nonce)
       in Inr (''0x'' @ drop (length hash - 40) hash))"

subsection \<open>The encoding\<close>

text \<open>Big-endian bytes without leading zeros, and RLP of a short byte string.\<close>

fun bigEndian :: "nat \<Rightarrow> nat list" where
  "bigEndian n = (if n = 0 then [] else bigEndian (n div 256) @ [n mod 256])"

declare bigEndian.simps [simp del]

definition rlpString :: "nat list \<Rightarrow> nat list" where
  "rlpString bs = (if length bs = 1 \<and> hd bs < 128 then bs else (128 + length bs) # bs)"

definition padHex :: "string \<Rightarrow> string" where
  "padHex s = (if length s mod 2 \<noteq> 0 then CHR ''0'' # s else s)"

lemma hexDigit_0: "hexDigit 0 = CHR ''0''"
  by code_simp

lemma padHex_toHex: "0 < n \<Longrightarrow> padHex (toHex n) = hexBytes (bigEndian n)"
proof (induction n rule: bigEndian.induct)
  case (1 n)
  have h: "hexBytes (bs @ [b]) = hexBytes bs @ [hexDigit (b div 16), hexDigit (b mod 16)]" for bs b
    by (simp add: hexBytes_def hexByte_def)
  consider "n < 16" | "16 \<le> n" "n < 256" | "256 \<le> n" by linarith
  then show ?case
  proof cases
    case 1
    with \<open>0 < n\<close> show ?thesis
      by (simp add: toHex.simps[of n] bigEndian.simps[of n] bigEndian.simps[of 0] h padHex_def hexBytes_def hexByte_def hexDigit_0)
  next
    case 2
    then have "n div 16 < 16" by (simp add: less_mult_imp_div_less)
    with 2 show ?thesis
      by (simp add: toHex.simps[of n] toHex.simps[of "n div 16"] bigEndian.simps[of n] bigEndian.simps[of 0]
         padHex_def hexBytes_def hexByte_def)
  next
    case 3
    then have d: "16 \<le> n div 16" "0 < n div 256" "n \<noteq> 0" by simp_all
    have dd: "n div 16 div 16 = n div 256" by (simp add: div_mult2_eq[symmetric])
    have m: "n mod 256 div 16 = n div 16 mod 16" "n mod 256 mod 16 = n mod 16"
      using mod_mult2_eq[of n 16 16] by (simp_all add: mod_mod_cancel)
    have "toHex n = toHex (n div 256) @ [hexDigit (n div 16 mod 16), hexDigit (n mod 16)]"
      using 3 d dd by (simp add: toHex.simps[of n] toHex.simps[of "n div 16"])
    moreover have "padHex (toHex (n div 256)) = hexBytes (bigEndian (n div 256))"
      using "1.IH" d by simp
    ultimately show ?thesis
      using d m by (simp add: bigEndian.simps[of n] h padHex_def split: if_splits)
  qed
qed

lemma rlp_tail: "fromHex (hexBytes bs) = bs" if "list_all (\<lambda>b. b < 256) bs"
  using that
proof (induction bs)
  case Nil
  then show ?case by (simp add: hexBytes_def)
next
  case (Cons b bs)
  then have "b div 16 < 16" by (simp add: less_mult_imp_div_less)
  moreover have "hexBytes (b # bs) = hexDigit (b div 16) # hexDigit (b mod 16) # hexBytes bs"
    by (simp add: hexBytes_def hexByte_def)
  ultimately show ?case using Cons by simp
qed

lemma bigEndian_bytes: "list_all (\<lambda>b. b < 256) (bigEndian n)"
  by (induction n rule: bigEndian.induct) (subst bigEndian.simps, auto)

lemma bigEndian_value: "foldl (\<lambda>a b. 256 * a + b) 0 (bigEndian n) = n"
  by (induction n rule: bigEndian.induct) (subst bigEndian.simps, auto)

lemma bigEndian_inj: "bigEndian m = bigEndian n \<Longrightarrow> m = n"
  by (metis bigEndian_value)

lemma bigEndian_length: "n < 256 ^ k \<Longrightarrow> length (bigEndian n) \<le> k"
proof (induction n arbitrary: k rule: bigEndian.induct)
  case (1 n)
  show ?case
  proof (cases "n = 0")
    case True
    then show ?thesis by (simp add: bigEndian.simps[of 0])
  next
    case False
    with "1.prems" obtain j where k: "k = Suc j" by (cases k) auto
    with "1.prems" have "n div 256 < 256 ^ j" by (simp add: less_mult_imp_div_less mult.commute)
    with False k "1.IH" show ?thesis by (simp add: bigEndian.simps[of n])
  qed
qed

lemma encodeRlpNonce_rlp: "0 \<le> nonce \<Longrightarrow> encodeRlpNonce nonce = rlpString (bigEndian (nat nonce))"
proof (cases "nonce = 0")
  case True
  then show ?thesis by (simp add: encodeRlpNonce_def rlpString_def bigEndian.simps[of 0])
next
  case False
  assume "0 \<le> nonce"
  with False have n: "0 < nat nonce" by simp
  then have ne: "bigEndian (nat nonce) \<noteq> []" by (subst bigEndian.simps) simp
  have "fromHex (padHex (toHex (nat nonce))) = bigEndian (nat nonce)"
    by (simp add: padHex_toHex[OF n] rlp_tail bigEndian_bytes)
  with False ne show ?thesis
    by (simp add: encodeRlpNonce_def padHex_def Let_def rlpString_def hd_conv_nth)
qed

text \<open>Two short RLP strings that start two sequences: the sequences tell them apart.\<close>

lemma rlpString_unambiguous:
  assumes "length as < 56" "length bs < 56" "list_all (\<lambda>b. b < 256) as" "list_all (\<lambda>b. b < 256) bs"
    and eq: "rlpString as @ x = rlpString bs @ y"
  shows "as = bs \<and> x = y"
proof -
  consider "length as = 1 \<and> hd as < 128" "length bs = 1 \<and> hd bs < 128"
    | "\<not> (length as = 1 \<and> hd as < 128)" "\<not> (length bs = 1 \<and> hd bs < 128)"
    | "length as = 1 \<and> hd as < 128" "\<not> (length bs = 1 \<and> hd bs < 128)"
    | "\<not> (length as = 1 \<and> hd as < 128)" "length bs = 1 \<and> hd bs < 128" by blast
  then show ?thesis
  proof cases
    case 1
    with eq show ?thesis by (cases as; cases bs) (auto simp: rlpString_def)
  next
    case 2
    then have "rlpString as = (128 + length as) # as" "rlpString bs = (128 + length bs) # bs"
      by (simp_all only: rlpString_def if_False)
    with eq have "128 + length as = 128 + length bs \<and> as @ x = bs @ y" by simp
    then show ?thesis using append_eq_append_conv by auto
  next
    case 3
    with eq show ?thesis by (cases as) (auto simp: rlpString_def)
  next
    case 4
    with eq show ?thesis by (cases bs) (auto simp: rlpString_def)
  qed
qed

lemma fromHex_length: "length (fromHex s) = length s div 2"
  by (induction s rule: fromHex.induct) auto

lemma hexVal_less: "isHexLower c \<Longrightarrow> hexVal c < 16"
  by (auto simp: hexVal_def isHexLower_def isDigit_def less_eq_char_def)

lemma fromHex_bytes: "list_all isHexLower s \<Longrightarrow> list_all (\<lambda>b. b < 256) (fromHex s)"
proof (induction s rule: fromHex.induct)
  case (1 a b s)
  then show ?case using hexVal_less[of a] hexVal_less[of b] by simp
qed auto

lemma hexDigit_hexVal: "isHexLower c \<Longrightarrow> hexDigit (hexVal c) = c"
  by (cases "isDigit c") (auto simp: hexDigit_def hexVal_def isHexLower_def isDigit_def less_eq_char_def)

lemma hexBytes_fromHex:
  "list_all isHexLower s \<Longrightarrow> even (length s) \<Longrightarrow> hexBytes (fromHex s) = s"
proof (induction s rule: fromHex.induct)
  case (1 a b s)
  then have "hexVal b < 16" by (simp add: hexVal_less)
  then have "(16 * hexVal a + hexVal b) div 16 = hexVal a" "(16 * hexVal a + hexVal b) mod 16 = hexVal b" by simp_all
  with 1 show ?case by (simp add: hexBytes_def hexByte_def hexDigit_hexVal)
qed (auto simp: hexBytes_def)

lemma matchesHex_bytes:
  assumes "matchesHex 40 s"
  shows "length (fromHex (drop 2 s)) = 20" "list_all (\<lambda>b. b < 256) (fromHex (drop 2 s))"
    "''0x'' @ hexBytes (fromHex (drop 2 s)) = s"
proof -
  have l: "length s = 42" "list_all isHexLower (drop 2 s)" "take 2 s = ''0x''"
    using assms by (auto simp: matchesHex_def)
  then show "length (fromHex (drop 2 s)) = 20" "list_all (\<lambda>b. b < 256) (fromHex (drop 2 s))"
    by (auto simp: fromHex_length fromHex_bytes)
  have "hexBytes (fromHex (drop 2 s)) = drop 2 s" using l by (intro hexBytes_fromHex) simp_all
  with l(3) show "''0x'' @ hexBytes (fromHex (drop 2 s)) = s" by (metis append_take_drop_id)
qed

definition createRlp :: "nat list \<Rightarrow> nat list \<Rightarrow> nat list" where
  "createRlp sender nonce = (let payload = rlpString sender @ rlpString nonce in (192 + length payload) # payload)"

lemma createPreimage_rlp:
  assumes "matchesHex 40 sender" "0 \<le> nonce"
  shows "createPreimage sender nonce = createRlp (fromHex (drop 2 sender)) (bigEndian (nat nonce))"
  using matchesHex_bytes(1)[OF assms(1)]
  by (simp add: createPreimage_def createRlp_def encodeRlpNonce_rlp[OF assms(2)] rlpString_def[of "fromHex (drop 2 sender)"] Let_def)

lemma nonce_bytes: "0 \<le> nonce \<Longrightarrow> nonce < 2 ^ 256 \<Longrightarrow> length (bigEndian (nat nonce)) \<le> 32"
  by (rule bigEndian_length) (simp add: nat_less_iff)

lemma createPreimage_bytes:
  assumes "matchesHex 40 sender" "0 \<le> nonce" "nonce < 2 ^ 256"
  shows "list_all (\<lambda>b. b < 256) (createPreimage sender nonce)"
proof -
  have len: "length (bigEndian (nat nonce)) \<le> 32" using assms by (intro nonce_bytes)
  then have "length (rlpString (bigEndian (nat nonce))) \<le> 33" by (auto simp: rlpString_def)
  moreover have "list_all (\<lambda>b. b < 256) (rlpString (bigEndian (nat nonce)))"
    using len bigEndian_bytes[of "nat nonce"] by (auto simp: rlpString_def)
  ultimately show ?thesis
    using matchesHex_bytes[OF assms(1)] assms by (auto simp: createPreimage_rlp createRlp_def Let_def rlpString_def)
qed

lemma createPreimage_inj:
  assumes "matchesHex 40 s" "0 \<le> m" "m < 2 ^ 256" "matchesHex 40 t" "0 \<le> n" "n < 2 ^ 256"
    and eq: "createPreimage s m = createPreimage t n"
  shows "s = t \<and> m = n"
proof -
  have a: "length (bigEndian (nat m)) < 56" "length (bigEndian (nat n)) < 56"
    using nonce_bytes[of m] nonce_bytes[of n] assms by auto
  from eq have "rlpString (fromHex (drop 2 s)) @ rlpString (bigEndian (nat m))
      = rlpString (fromHex (drop 2 t)) @ rlpString (bigEndian (nat n))"
    using assms by (simp add: createPreimage_rlp createRlp_def Let_def)
  then have "fromHex (drop 2 s) = fromHex (drop 2 t) \<and> rlpString (bigEndian (nat m)) = rlpString (bigEndian (nat n))"
    by (rule rlpString_unambiguous[rotated 4]) (use matchesHex_bytes assms in auto)
  moreover from this have "rlpString (bigEndian (nat m)) @ [] = rlpString (bigEndian (nat n)) @ []" by simp
  then have "bigEndian (nat m) = bigEndian (nat n)"
    by (rule rlpString_unambiguous[rotated 4, THEN conjunct1]) (use a bigEndian_bytes in auto)
  then have "m = n" using bigEndian_inj assms by (metis nat_eq_iff2)
  ultimately show ?thesis using matchesHex_bytes(3)[OF assms(1)] matchesHex_bytes(3)[OF assms(4)] by metis
qed

lemma length_specKeccak256: "length (specKeccak256 M) = 32"
  by (simp add: specKeccak256_def Let_def specBytes_def length_concat upt_conv_Cons)

lemma specKeccak256_bytes: "list_all (\<lambda>b. b < 256) (specKeccak256 M)"
proof -
  have "unat (w AND 0xFF) < 256" for w :: "64 word"
  proof -
    have "w AND 0xFF \<le> 0xFF" by (rule word_and_le1)
    then show ?thesis by (simp add: word_le_nat_alt)
  qed
  then show ?thesis by (auto simp: specKeccak256_def Let_def specBytes_def list_all_iff)
qed

lemma hexBytes_drop: "drop (2 * k) (hexBytes bs) = hexBytes (drop k bs)"
proof (induction k arbitrary: bs)
  case 0
  then show ?case by simp
next
  case (Suc k)
  then show ?case by (cases bs) (simp_all add: hexBytes_def hexByte_def)
qed

lemma deriveCreateAddress_Inr:
  "deriveCreateAddress sender nonce = Inr a \<longleftrightarrow> matchesHex 40 sender \<and> 0 \<le> nonce \<and> nonce < 2 ^ 256
     \<and> a = ''0x'' @ hexBytes (drop 12 (specKeccak256 (createRlp (fromHex (drop 2 sender)) (bigEndian (nat nonce)))))"
proof (cases "matchesHex 40 sender \<and> 0 \<le> nonce \<and> nonce < 2 ^ 256")
  case True
  let ?M = "createPreimage sender nonce"
  have k: "keccak256 ?M = ''0x'' @ hexBytes (specKeccak256 ?M)"
    using True by (intro keccak256_spec createPreimage_bytes) auto
  have "drop (length (keccak256 ?M) - 40) (keccak256 ?M) = drop (2 * 12) (hexBytes (specKeccak256 ?M))"
    unfolding k by (simp add: length_specKeccak256)
  then have "drop (length (keccak256 ?M) - 40) (keccak256 ?M) = hexBytes (drop 12 (specKeccak256 ?M))"
    by (simp only: hexBytes_drop)
  with True show ?thesis by (auto simp: deriveCreateAddress_def Let_def createPreimage_rlp not_le)
next
  case False
  then show ?thesis by (auto simp: deriveCreateAddress_def failPlan_def)
qed

section \<open>Properties\<close>

text \<open>
  C32. Plan ids name plans: when SHA-256 does not collide on the two texts that are hashed, two
  identities with the same plan id are the same record up to the order of keys.
\<close>

theorem computePlanId_injective:
  assumes "computePlanId sha256 a = Inr p" "computePlanId sha256 b = Inr p"
    and "distinctKeys (JObj Plain a)" "distinctKeys (JObj Plain b)"
    and no_collision: "\<And>s t. planJson (JObj Plain a) = Inr s \<Longrightarrow> planJson (JObj Plain b) = Inr t \<Longrightarrow>
      sha256 (planPreimage s) = sha256 (planPreimage t) \<Longrightarrow> planPreimage s = planPreimage t"
  shows "sortKeys (JObj Plain a) = sortKeys (JObj Plain b)"
proof -
  from assms(1,2) obtain s t where st: "planJson (JObj Plain a) = Inr s" "planJson (JObj Plain b) = Inr t"
    and "sha256 (planPreimage s) = sha256 (planPreimage t)"
    unfolding computePlanId_def bindE_Inr_iff sha256Hex_def by (metis append_eq_append_conv sum.inject(2))
  then have "planPreimage s = planPreimage t" using no_collision by blast
  then have "s = t" unfolding planPreimage_def by (metis utf8_inj same_append_eq)
  then show ?thesis using planJson_text_iff[OF st assms(3,4)] by simp
qed

lemma computePlanId_injective_witness:
  "computePlanId hexBytes [(''b'', JNum 1), (''a'', JNum 2)] = computePlanId hexBytes [(''a'', JNum 2), (''b'', JNum 1)]
   \<and> sortKeys (JObj Plain [(''b'', JNum 1), (''a'', JNum 2)]) = sortKeys (JObj Plain [(''a'', JNum 2), (''b'', JNum 1)])"
proof -
  let ?a = "[(''b'', JNum 1), (''a'', JNum 2)]" and ?b = "[(''a'', JNum 2), (''b'', JNum 1)]"
  have same: "toSorted compareEntries ?a = toSorted compareEntries ?b"
    by (simp add: compareEntries_def compareCodePoints_def)
  then have eq: "planJson (JObj Plain ?a) = planJson (JObj Plain ?b)" by simp
  then have ids: "computePlanId hexBytes ?a = computePlanId hexBytes ?b" by (simp only: computePlanId_def)
  obtain j where j: "planJson (JObj Plain ?a) = Inr j"
    by (simp add: compareEntries_def compareCodePoints_def MAX_SAFE_INTEGER_def)
  then have p: "computePlanId hexBytes ?a = Inr (sha256Hex hexBytes (planPreimage j))"
    by (simp only: computePlanId_def bindE.simps)
  have "sortKeys (JObj Plain ?a) = sortKeys (JObj Plain ?b)"
    by (rule computePlanId_injective[OF p p[unfolded ids]]) (use j eq in simp_all)
  with ids show ?thesis ..
qed

text \<open>
  C31. CREATE addresses: for a lower-case sender address and a 256-bit nonce, and for no other
  input, the result is the last 20 bytes of the Keccak-256 of the RLP list of the sender's bytes
  and the nonce's big-endian bytes.
\<close>

theorem deriveCreateAddress_exact:
  "deriveCreateAddress sender nonce = Inr a \<longleftrightarrow> matchesHex 40 sender \<and> 0 \<le> nonce \<and> nonce < 2 ^ 256
     \<and> a = ''0x'' @ hexBytes (drop 12 (specKeccak256 (createRlp (fromHex (drop 2 sender)) (bigEndian (nat nonce)))))"
  by (rule deriveCreateAddress_Inr)

text \<open>
  What is hashed determines the deployment: the encoded lists of two sender and nonce pairs
  are equal only when the pairs are.
\<close>

lemma createPreimage_injective:
  assumes "matchesHex 40 s" "0 \<le> m" "m < 2 ^ 256" "matchesHex 40 t" "0 \<le> n" "n < 2 ^ 256"
  shows "createPreimage s m = createPreimage t n \<longleftrightarrow> s = t \<and> m = n"
  using assms createPreimage_inj by blast

lemma createPreimage_injective_witness:
  "createPreimage ''0x00000000000000000000000000000000000000ff'' 127
     \<noteq> createPreimage ''0x00000000000000000000000000000000000000ff'' 128"
proof -
  have m: "matchesHex 40 ''0x00000000000000000000000000000000000000ff''" by code_simp
  show ?thesis using createPreimage_injective[OF m _ _ m, of 127 128] by simp
qed

end
