(* ===== verification/PlanPorts.thy ===== *)
theory PlanPorts
  imports PlanIdentity
begin

text \<open>
  The data that the deployment planner's parts exchange
  (\<open>tooling/deployment-plan/src/application/ports.ts\<close> and the records of
  \<open>builder.ts\<close> and \<open>verifier.ts\<close>). Fields the type system fixes to one literal are kept where
  the code tests them. \<open>compilerSettings\<close> and \<open>sourceDependencyClosure\<close> are JSON objects, a
  plan's identity is one too.
\<close>

record rawArtifactInputs =
  raiBuildInfo :: "nat list"
  raiArtifact :: "nat list"
  raiAbi :: "nat list"
  raiFixture :: "nat list"

text \<open>The JSON parser port: bytes and the name of the input, to a value.\<close>

type_synonym jsonParser = "nat list \<Rightarrow> string \<Rightarrow> js_error + jsval"

record trustRoots =
  trSchemaVersion :: int
  trTestOnly :: bool
  trProductionApproved :: bool
  trMainnetAllowed :: bool
  trChainId :: string
  trContractFqn :: string
  trBuildProfile :: string
  trFrom :: string
  trMaximumWorstCaseWei :: string
  trGasBufferBps :: string
  trQuoteTtlSeconds :: string
  trMaximumHeadLag :: string
  trBuildInfoSolcVersion :: string
  trCanonicalBuildInfoSha256 :: string
  trCompilerInputSha256 :: string
  trCompilerSettings :: jsrecord
  trArtifactSha256 :: string
  trAbiSha256 :: string
  trFixtureSha256 :: string
  trFixtureReadySha256 :: string
  trConstructorArgumentsHash :: string
  trCreationInputHash :: string
  trSourceDependencyClosure :: jsrecord

record approvedArtifact =
  aaRawBuildInfoSha256 :: string
  aaCanonicalBuildInfoSha256 :: string
  aaArtifactSha256 :: string
  aaAbiSha256 :: string
  aaFixtureSha256 :: string
  aaSourceDependencyClosure :: jsrecord
  aaBuildInfoSolcVersion :: string
  aaCompilerInputSha256 :: string
  aaCompilerSettings :: jsrecord
  aaCreationBytecode :: string
  aaCreationBytecodeHash :: string
  aaConstructorAbiBytes :: string
  aaConstructorAbiHash :: string
  aaConstructorArguments :: string
  aaConstructorArgumentsHash :: string
  aaCreationInput :: string
  aaCreationInputHash :: string

text \<open>An approved artifact as the JSON object whose canonical text the code compares.\<close>

definition approvedJson :: "approvedArtifact \<Rightarrow> jsrecord" where
  "approvedJson a = [
    (''rawBuildInfoSha256'', JStr (aaRawBuildInfoSha256 a)),
    (''canonicalBuildInfoSha256'', JStr (aaCanonicalBuildInfoSha256 a)),
    (''artifactSha256'', JStr (aaArtifactSha256 a)),
    (''abiSha256'', JStr (aaAbiSha256 a)),
    (''fixtureSha256'', JStr (aaFixtureSha256 a)),
    (''sourceDependencyClosure'', JObj Plain (aaSourceDependencyClosure a)),
    (''buildInfoSolcVersion'', JStr (aaBuildInfoSolcVersion a)),
    (''compilerInputSha256'', JStr (aaCompilerInputSha256 a)),
    (''compilerSettings'', JObj Plain (aaCompilerSettings a)),
    (''creationBytecode'', JStr (aaCreationBytecode a)),
    (''creationBytecodeHash'', JStr (aaCreationBytecodeHash a)),
    (''constructorAbiBytes'', JStr (aaConstructorAbiBytes a)),
    (''constructorAbiHash'', JStr (aaConstructorAbiHash a)),
    (''constructorArguments'', JStr (aaConstructorArguments a)),
    (''constructorArgumentsHash'', JStr (aaConstructorArgumentsHash a)),
    (''creationInput'', JStr (aaCreationInput a)),
    (''creationInputHash'', JStr (aaCreationInputHash a))]"

record nativeTuple =
  ntCompilerPath :: string
  ntCompilerSha256 :: string
  ntExecutableSha256 :: string

record nativeEvidence =
  nePlatform :: string
  neSourcePath :: string
  neSourceSha256 :: string
  neCompileProfile :: string
  neCompilerExecution :: string
  neCompilerPath :: string
  neCompilerSha256 :: string
  neExecutableSha256 :: string
  neApprovalSha256 :: string

record stablePlan =
  spSchemaVersion :: int
  spKind :: string
  spPlanId :: string
  spIdentity :: jsrecord
  spBroadcastAllowed :: bool
  spTestOnly :: bool
  spProductionApproved :: bool
  spMainnetAllowed :: bool

record quoteObservation =
  qoChainId :: string
  qoBlockNumber :: string
  qoBlockHash :: string
  qoBlockTimestamp :: string
  qoCurrentHeadNumber :: string
  qoCurrentHeadHash :: string
  qoFeeHistoryNewestBlock :: string
  qoSenderNonce :: string
  qoExpectedCreateAddress :: string
  qoGasEstimate :: string
  qoBlockGasLimit :: string
  qoBaseFeePerGas :: string
  qoMaxPriorityFeePerGas :: string
  qoMaxFeePerGas :: string
  qoObservedAt :: string

record feeQuote =
  fqPlanId :: string
  fqCreationInputHash :: string
  fqObservation :: quoteObservation
  fqBufferBps :: string
  fqGasLimit :: string
  fqEffectiveFeePerGas :: string
  fqEstimatedWei :: string
  fqWorstCaseWei :: string
  fqExpiresAt :: string

record readyMarker =
  rmPlanSha256 :: string
  rmQuoteSha256 :: string
  rmNativeEvidenceSha256 :: string
  rmPlanId :: string
  rmCreationInputHash :: string

text \<open>\<open>value === null || typeof value !== "object" || Array.isArray(value)\<close> fails with a code.\<close>

definition objectOr :: "string \<Rightarrow> jsval \<Rightarrow> js_error + jsrecord" where
  "objectOr failure v = (case asRecord v of None \<Rightarrow> failPlan failure | Some r \<Rightarrow> Inr r)"

lemma objectOr_Inr [simp]: "objectOr failure v = Inr r \<longleftrightarrow> (\<exists>sh. v = JObj sh r)"
  by (cases v) (auto simp: objectOr_def failPlan_def)

text \<open>\<open>{...r, k: v}\<close>: a present key keeps its place.\<close>

abbreviation setKey :: "jsrecord \<Rightarrow> string \<Rightarrow> jsval \<Rightarrow> jsrecord" where
  "setKey r k v \<equiv> mapSet k v r"

end
