(* ===== verification/PlanBuilder.thy ===== *)
theory PlanBuilder
  imports PlanPorts
begin

text \<open>
  \<open>tooling/deployment-plan/src/application/builder.ts\<close>: stable plans and fee quotes.
\<close>

section \<open>Trust roots\<close>

definition rootHashes :: "trustRoots \<Rightarrow> string list" where
  "rootHashes roots = [trCanonicalBuildInfoSha256 roots, trArtifactSha256 roots, trAbiSha256 roots, trFixtureSha256 roots,
     trFixtureReadySha256 roots, trCompilerInputSha256 roots, trConstructorArgumentsHash roots, trCreationInputHash roots]"

definition validateTrustRootSafety :: "trustRoots \<Rightarrow> js_error + unit" where
  "validateTrustRootSafety roots =
    bindE (failIf (trSchemaVersion roots \<noteq> 2 \<or> trChainId roots \<noteq> LOCAL_CHAIN_ID \<or> \<not> trTestOnly roots
        \<or> trProductionApproved roots \<or> trMainnetAllowed roots) (PlanErr ''TRUST_ROOTS_UNSAFE'')) (\<lambda>_.
    bindE (eachE (\<lambda>value. failIf (\<not> matchesHex 64 value) (PlanErr ''TRUST_ROOTS_INVALID'')) (rootHashes roots)) (\<lambda>_.
    bindE (failIf (\<not> matchesHex 40 (trFrom roots)) (PlanErr ''TRUST_ROOTS_INVALID'')) (\<lambda>_.
    bindE (parseUint (JStr (trMaximumWorstCaseWei roots)) True) (\<lambda>_.
    bindE (parseUint (JStr (trGasBufferBps roots)) True) (\<lambda>_.
    bindE (parseUint (JStr (trQuoteTtlSeconds roots)) False) (\<lambda>_.
    bindE (parseUint (JStr (trMaximumHeadLag roots)) True) (\<lambda>_. Inr ())))))))"

section \<open>Plans\<close>

definition planIdentity :: "approvedArtifact \<Rightarrow> trustRoots \<Rightarrow> jsrecord" where
  "planIdentity approved roots = [
    (''contractFqn'', JStr (trContractFqn roots)),
    (''buildProfile'', JStr (trBuildProfile roots)),
    (''sourceDependencyClosure'', JObj Plain (aaSourceDependencyClosure approved)),
    (''rawBuildInfoSha256'', JStr (aaRawBuildInfoSha256 approved)),
    (''canonicalBuildInfoSha256'', JStr (aaCanonicalBuildInfoSha256 approved)),
    (''artifactSha256'', JStr (aaArtifactSha256 approved)),
    (''abiSha256'', JStr (aaAbiSha256 approved)),
    (''fixtureSha256'', JStr (aaFixtureSha256 approved)),
    (''fixtureReadySha256'', JStr (trFixtureReadySha256 roots)),
    (''buildInfoSolcVersion'', JStr (aaBuildInfoSolcVersion approved)),
    (''compilerInputSha256'', JStr (aaCompilerInputSha256 approved)),
    (''compilerSettings'', JObj Plain (aaCompilerSettings approved)),
    (''creationBytecodeHash'', JStr (aaCreationBytecodeHash approved)),
    (''constructorAbiBytes'', JStr (aaConstructorAbiBytes approved)),
    (''constructorAbiHash'', JStr (aaConstructorAbiHash approved)),
    (''constructorArguments'', JStr (aaConstructorArguments approved)),
    (''constructorArgumentsHash'', JStr (aaConstructorArgumentsHash approved)),
    (''creationInput'', JStr (aaCreationInput approved)),
    (''creationInputHash'', JStr (aaCreationInputHash approved)),
    (''chainId'', JStr (trChainId roots)),
    (''from'', JStr (trFrom roots)),
    (''value'', JStr ''0''),
    (''capPolicy'', JObj Plain [(''maximumWorstCaseWei'', JStr (trMaximumWorstCaseWei roots)), (''testOnly'', JBool True)]),
    (''broadcastAllowed'', JBool False)]"

definition buildStablePlan :: "(nat list \<Rightarrow> string) \<Rightarrow> approvedArtifact \<Rightarrow> trustRoots \<Rightarrow> js_error + stablePlan" where
  "buildStablePlan sha256 approved roots =
    bindE (validateTrustRootSafety roots) (\<lambda>_.
    bindE (failIf (aaConstructorArgumentsHash approved \<noteq> trConstructorArgumentsHash roots
        \<or> aaCreationInputHash approved \<noteq> trCreationInputHash roots) (PlanErr ''GOLDEN_INPUT_MISMATCH'')) (\<lambda>_.
    bindE (computePlanId sha256 (planIdentity approved roots)) (\<lambda>planId.
    Inr \<lparr>spSchemaVersion = 2, spKind = ''deployment-plan'', spPlanId = planId,
      spIdentity = planIdentity approved roots, spBroadcastAllowed = False, spTestOnly = True,
      spProductionApproved = False, spMainnetAllowed = False\<rparr>)))"

section \<open>Quotes\<close>

record quoteTimes =
  qtBlock :: int
  qtHead :: int
  qtNewest :: int
  qtTimestamp :: int
  qtObservedAt :: int
  qtTtl :: int

definition parseQuoteTimes :: "quoteObservation \<Rightarrow> trustRoots \<Rightarrow> js_error + quoteTimes" where
  "parseQuoteTimes observation roots =
    bindE (parseUint (JStr (qoBlockNumber observation)) True) (\<lambda>block.
    bindE (parseUint (JStr (qoCurrentHeadNumber observation)) True) (\<lambda>head.
    bindE (parseUint (JStr (qoFeeHistoryNewestBlock observation)) True) (\<lambda>newest.
    bindE (parseUint (JStr (qoBlockTimestamp observation)) True) (\<lambda>timestamp.
    bindE (parseUint (JStr (qoObservedAt observation)) True) (\<lambda>observedAt.
    bindE (parseUint (JStr (trQuoteTtlSeconds roots)) False) (\<lambda>ttl.
    Inr \<lparr>qtBlock = block, qtHead = head, qtNewest = newest, qtTimestamp = timestamp,
      qtObservedAt = observedAt, qtTtl = ttl\<rparr>))))))"

definition validateBlockHashes :: "quoteObservation \<Rightarrow> quoteTimes \<Rightarrow> js_error + unit" where
  "validateBlockHashes observation ts =
    bindE (failIf (\<not> matchesHex 64 (qoBlockHash observation) \<or> \<not> matchesHex 64 (qoCurrentHeadHash observation))
      (PlanErr ''BLOCK_HASH_INVALID'')) (\<lambda>_.
    failIf (qtBlock ts = qtHead ts \<and> qoBlockHash observation \<noteq> qoCurrentHeadHash observation)
      (PlanErr ''REORGED_BLOCK''))"

definition validateQuoteBinding :: "quoteObservation \<Rightarrow> trustRoots \<Rightarrow> quoteTimes \<Rightarrow> js_error + unit" where
  "validateQuoteBinding observation roots ts =
    bindE (failIf (qtBlock ts > qtHead ts \<or> qtNewest ts > qtHead ts) (PlanErr ''FUTURE_BLOCK'')) (\<lambda>_.
    bindE (parseUint (JStr (trMaximumHeadLag roots)) True) (\<lambda>lag.
    bindE (failIf (qtHead ts - qtBlock ts > lag) (PlanErr ''HEAD_LAG'')) (\<lambda>_.
    bindE (failIf (qtNewest ts \<noteq> qtBlock ts) (PlanErr ''FEE_HISTORY_BLOCK_MISMATCH'')) (\<lambda>_.
    bindE (failIf (qtTimestamp ts > qtObservedAt ts) (PlanErr ''FUTURE_TIMESTAMP'')) (\<lambda>_.
    bindE (failIf (qtObservedAt ts - qtTimestamp ts > qtTtl ts) (PlanErr ''STALE_QUOTE'')) (\<lambda>_.
    validateBlockHashes observation ts))))))"

text \<open>
  The input of the cost computation, the same for the builder and the verifier but for the source
  of the buffer.
\<close>

definition quoteCosts :: "quoteObservation \<Rightarrow> string \<Rightarrow> trustRoots \<Rightarrow> js_error + costResult" where
  "quoteCosts observation buffer roots =
    bindE (parseUint (JStr (qoGasEstimate observation)) False) (\<lambda>gas.
    bindE (parseUint (JStr buffer) True) (\<lambda>bps.
    bindE (parseUint (JStr (qoBaseFeePerGas observation)) True) (\<lambda>base.
    bindE (parseUint (JStr (qoMaxPriorityFeePerGas observation)) True) (\<lambda>priority.
    bindE (parseUint (JStr (qoMaxFeePerGas observation)) True) (\<lambda>maxFee.
    bindE (parseUint (JStr (qoBlockGasLimit observation)) False) (\<lambda>blockLimit.
    bindE (parseUint (JStr (trMaximumWorstCaseWei roots)) True) (\<lambda>cap.
    calculateCosts \<lparr>gasEstimate = gas, bufferBps = bps, baseFeePerGas = base, maxPriorityFeePerGas = priority,
      maxFeePerGas = maxFee, costValue = 0, blockGasLimit = blockLimit, maximumWorstCaseWei = cap\<rparr>)))))))"

text \<open>\<open>String(value)\<close>; functions and symbols do not occur in a plan.\<close>

fun stringOf :: "jsval \<Rightarrow> string" where
  "stringOf (JStr s) = s"
| "stringOf JUndef = ''undefined''"
| "stringOf JNull = ''null''"
| "stringOf (JBool b) = (if b then ''true'' else ''false'')"
| "stringOf (JNum n) = decInt n"
| "stringOf (JFrac t) = t"
| "stringOf (JObj _ _) = ''[object Object]''"
| "stringOf (JArr _ xs) = joinComma (map (\<lambda>x. if x = JUndef \<or> x = JNull then [] else stringOf x) xs)"
| "stringOf JOther = ''[object Function]''"

definition buildFeeQuote :: "stablePlan \<Rightarrow> quoteObservation \<Rightarrow> trustRoots \<Rightarrow> js_error + feeQuote" where
  "buildFeeQuote plan observation roots =
    bindE (failIf (qoChainId observation \<noteq> trChainId roots) (PlanErr ''WRONG_CHAIN'')) (\<lambda>_.
    bindE (parseUint (JStr (qoSenderNonce observation)) True) (\<lambda>senderNonce.
    bindE (deriveCreateAddress (trFrom roots) senderNonce) (\<lambda>address.
    bindE (failIf (qoExpectedCreateAddress observation \<noteq> address) (PlanErr ''CREATE_ADDRESS_MISMATCH'')) (\<lambda>_.
    bindE (parseQuoteTimes observation roots) (\<lambda>ts.
    bindE (validateQuoteBinding observation roots ts) (\<lambda>_.
    bindE (quoteCosts observation (trGasBufferBps roots) roots) (\<lambda>costs.
    bindE (checkedAdd (qtObservedAt ts) (qtTtl ts)) (\<lambda>expires.
    Inr \<lparr>fqPlanId = spPlanId plan, fqCreationInputHash = stringOf (getP (spIdentity plan) ''creationInputHash''),
      fqObservation = observation, fqBufferBps = trGasBufferBps roots, fqGasLimit = decInt (gasLimit costs),
      fqEffectiveFeePerGas = decInt (effectiveFee costs), fqEstimatedWei = decInt (estimatedWei costs),
      fqWorstCaseWei = decInt (worstCaseWei costs), fqExpiresAt = decInt expires\<rparr>))))))))"

end
