(* ===== verification/RawArtifact.thy ===== *)
theory RawArtifact
  imports PlanPorts
begin

text \<open>
  \<open>tooling/deployment-plan/src/application/raw-artifact-verifier.ts\<close>: the independent reading of
  the four raw inputs of a deployment, the digests they are pinned by, and the encoding of the
  constructor's arguments.
\<close>

definition SOURCE :: string where "SOURCE = ''src/features/token-genesis/AGTMAIToken.sol''"
definition CONTRACT :: string where "CONTRACT = ''AGTMAIToken''"
definition PORTABLE_ROOT :: string where "PORTABLE_ROOT = ''$AGTMAI_EVM_ROOT''"
definition PORTABLE_FORGE_BUILD_ID :: string where "PORTABLE_FORGE_BUILD_ID = ''$FORGE_BUILD_ID''"

record parsedInputs =
  piBuild :: jsrecord
  piArtifact :: jsrecord
  piAbi :: "jsval list"
  piFixture :: jsrecord
  piArtifactSha256 :: string
  piAbiSha256 :: string
  piFixtureSha256 :: string
  piRawBuildInfoSha256 :: string
  piCanonicalBuildInfoSha256 :: string

record buildContract =
  bcOutputContract :: jsrecord
  bcCompilerInputSha256 :: string
  bcNormalizedSettings :: jsrecord
  bcSourceClosure :: jsrecord

record rawAllocation =
  raId :: string
  raRecipient :: string
  raAmount :: string

record constructorValues =
  cvInitialSupply :: string
  cvAllocations :: "rawAllocation list"

section \<open>Portable compiler input\<close>

definition includesText :: "string \<Rightarrow> string \<Rightarrow> bool" where
  "includesText s t = list_ex (\<lambda>k. take (length t) (drop k s) = t) [0..<Suc (length s)]"

fun splitOn :: "char \<Rightarrow> string \<Rightarrow> string list" where
  "splitOn c [] = [[]]"
| "splitOn c (x # s) = (if x = c then [] # splitOn c s
     else case splitOn c s of [] \<Rightarrow> [[x]] | seg # segs \<Rightarrow> (x # seg) # segs)"

definition isCanonicalAbsolutePosixPath :: "string \<Rightarrow> bool" where
  "isCanonicalAbsolutePosixPath value \<longleftrightarrow>
     take 1 value = ''/'' \<and> value \<noteq> ''/'' \<and> last value \<noteq> CHR ''/''
   \<and> \<not> includesText value ''//'' \<and> backslash \<notin> set value
   \<and> \<not> list_ex (\<lambda>segment. segment = ''.'' \<or> segment = ''..'') (splitOn (CHR ''/'') value)"

definition exactStringArray :: "jsval \<Rightarrow> string list \<Rightarrow> bool" where
  "exactStringArray value expected = (case value of JArr _ xs \<Rightarrow> xs = map JStr expected | _ \<Rightarrow> False)"

definition portableCompilerInput :: "jsrecord \<Rightarrow> js_error + jsrecord" where
  "portableCompilerInput input =
    (case getP input ''basePath'' of
       JStr basePath \<Rightarrow>
         if \<not> isCanonicalAbsolutePosixPath basePath
           \<or> \<not> exactStringArray (getP input ''allowPaths'') [basePath, basePath @ ''/lib'']
           \<or> \<not> exactStringArray (getP input ''includePaths'') [basePath]
         then failPlan ''COMPILER_INPUT_PATHS_INVALID''
         else Inr (setKey (setKey (setKey input
             ''allowPaths'' (JArr Plain [JStr PORTABLE_ROOT, JStr (PORTABLE_ROOT @ ''/lib'')]))
             ''basePath'' (JStr PORTABLE_ROOT))
             ''includePaths'' (JArr Plain [JStr PORTABLE_ROOT]))
     | _ \<Rightarrow> failPlan ''COMPILER_INPUT_PATHS_INVALID'')"

definition portableCompilerInputSha256 :: "(nat list \<Rightarrow> string) \<Rightarrow> jsrecord \<Rightarrow> js_error + string" where
  "portableCompilerInputSha256 sha256 input =
    bindE (portableCompilerInput input) (\<lambda>portable.
    bindE (planJson (JObj Plain portable)) (\<lambda>json. Inr (sha256Hex sha256 (utf8 json))))"

definition isBuildId :: "jsval \<Rightarrow> bool" where
  "isBuildId v = (case v of JStr s \<Rightarrow> length s = 16 \<and> list_all isHexLower s | _ \<Rightarrow> False)"

definition canonicalBuildInfoSha256 :: "(nat list \<Rightarrow> string) \<Rightarrow> jsrecord \<Rightarrow> js_error + string" where
  "canonicalBuildInfoSha256 sha256 build =
    bindE (failIf (\<not> isBuildId (getP build ''id'')) (PlanErr ''BUILD_INFO_ID_INVALID'')) (\<lambda>_.
    bindE (objectOr ''BUILD_INPUT_INVALID'' (getP build ''input'')) (\<lambda>raw.
    bindE (portableCompilerInput raw) (\<lambda>input.
    bindE (planJson (JObj Plain (setKey (setKey build ''id'' (JStr PORTABLE_FORGE_BUILD_ID))
        ''input'' (JObj Plain input)))) (\<lambda>json.
    Inr (sha256Hex sha256 (utf8 json))))))"

section \<open>Reading the build\<close>

text \<open>
  An assignment to the key \<open>__proto__\<close> of an ordinary object sets no own property.
\<close>

definition closureStep :: "(nat list \<Rightarrow> string) \<Rightarrow> string \<times> jsval \<Rightarrow> jsrecord \<Rightarrow> js_error + jsrecord" where
  "closureStep sha256 entry closure =
    bindE (objectOr ''BUILD_SOURCE_INVALID'' (snd entry)) (\<lambda>source.
    case getP source ''content'' of
      JStr content \<Rightarrow> Inr (if fst entry = ''__proto__'' then closure
        else setKey closure (fst entry) (JStr (sha256Hex sha256 (utf8 content))))
    | _ \<Rightarrow> failPlan ''BUILD_SOURCE_INVALID'')"

fun closureLoop :: "(nat list \<Rightarrow> string) \<Rightarrow> jsrecord \<Rightarrow> jsrecord \<Rightarrow> js_error + jsrecord" where
  "closureLoop sha256 [] closure = Inr closure"
| "closureLoop sha256 (e # es) closure = bindE (closureStep sha256 e closure) (closureLoop sha256 es)"

definition readSourceClosure :: "(nat list \<Rightarrow> string) \<Rightarrow> jsval \<Rightarrow> js_error + jsrecord" where
  "readSourceClosure sha256 value =
    bindE (objectOr ''BUILD_SOURCES_INVALID'' value) (\<lambda>sources. closureLoop sha256 sources [])"

definition normalizeSettings :: "jsrecord \<Rightarrow> js_error + jsrecord" where
  "normalizeSettings settings =
    bindE (objectOr ''BUILD_OPTIMIZER_INVALID'' (getP settings ''optimizer'')) (\<lambda>optimizer.
    bindE (objectOr ''BUILD_METADATA_INVALID'' (getP settings ''metadata'')) (\<lambda>metadata.
    Inr [(''optimizer'', JObj Plain [(''enabled'', getP optimizer ''enabled''), (''runs'', getP optimizer ''runs'')]),
         (''evmVersion'', getP settings ''evmVersion''),
         (''metadata'', JObj Plain [(''bytecodeHash'', getP metadata ''bytecodeHash''),
            (''appendCBOR'', getP metadata ''appendCBOR'')])]))"

text \<open>\<open>canonicalJson(left) !== canonicalJson(right)\<close> fails with a code.\<close>

definition sameJson :: "string \<Rightarrow> jsval \<Rightarrow> jsval \<Rightarrow> js_error + unit" where
  "sameJson failure left right =
    bindE (planJson left) (\<lambda>l. bindE (planJson right) (\<lambda>r. failIf (l \<noteq> r) (PlanErr failure)))"

definition readBuildContract :: "(nat list \<Rightarrow> string) \<Rightarrow> jsrecord \<Rightarrow> trustRoots \<Rightarrow> js_error + buildContract" where
  "readBuildContract sha256 build roots =
    bindE (objectOr ''BUILD_INPUT_INVALID'' (getP build ''input'')) (\<lambda>input.
    bindE (portableCompilerInputSha256 sha256 input) (\<lambda>inputSha.
    bindE (failIf (inputSha \<noteq> trCompilerInputSha256 roots) (PlanErr ''COMPILER_INPUT_MISMATCH'')) (\<lambda>_.
    bindE (objectOr ''BUILD_SETTINGS_INVALID'' (getP input ''settings'')) (\<lambda>settings.
    bindE (normalizeSettings settings) (\<lambda>normalized.
    bindE (sameJson ''SETTINGS_MISMATCH'' (JObj Plain normalized) (JObj Plain (trCompilerSettings roots))) (\<lambda>_.
    bindE (readSourceClosure sha256 (getP input ''sources'')) (\<lambda>closure.
    bindE (sameJson ''SOURCE_CLOSURE_MISMATCH'' (JObj Plain closure) (JObj Plain (trSourceDependencyClosure roots))) (\<lambda>_.
    bindE (objectOr ''BUILD_OUTPUT_INVALID'' (getP build ''output'')) (\<lambda>output.
    bindE (objectOr ''BUILD_CONTRACTS_INVALID'' (getP output ''contracts'')) (\<lambda>contracts.
    bindE (objectOr ''BUILD_SOURCE_CONTRACT_INVALID'' (getP contracts SOURCE)) (\<lambda>sourceContracts.
    bindE (objectOr ''BUILD_CONTRACT_INVALID'' (getP sourceContracts CONTRACT)) (\<lambda>outputContract.
    Inr \<lparr>bcOutputContract = outputContract, bcCompilerInputSha256 = inputSha,
      bcNormalizedSettings = normalized, bcSourceClosure = closure\<rparr>))))))))))))"

section \<open>Interfaces and bytecode\<close>

text \<open>
  The comparator takes the canonical texts of the elements, so they are computed first; an element
  without one makes the function throw either way.
\<close>

definition compareKeyed :: "string \<times> jsval \<Rightarrow> string \<times> jsval \<Rightarrow> int" where
  "compareKeyed l r = compareCodePoints (fst l) (fst r)"

fun canonicalAbi :: "jsval \<Rightarrow> js_error + string" where
  "canonicalAbi (JArr sh xs) =
     bindE (mapE planJson xs) (\<lambda>texts.
     planJson (JArr Plain (map snd (toSorted compareKeyed (zip texts xs)))))"
| "canonicalAbi _ = failPlan ''ABI_BUILD_MISMATCH''"

definition validateAbis :: "jsrecord \<Rightarrow> jsrecord \<Rightarrow> jsval list \<Rightarrow> js_error + unit" where
  "validateAbis outputContract artifact abi =
    bindE (canonicalAbi (JArr Plain abi)) (\<lambda>approvedAbi.
    bindE (canonicalAbi (getP outputContract ''abi'')) (\<lambda>outputAbi.
    if outputAbi \<noteq> approvedAbi then failPlan ''ABI_BUILD_MISMATCH''
    else bindE (canonicalAbi (getP artifact ''abi'')) (\<lambda>artifactAbi.
      failIf (artifactAbi \<noteq> approvedAbi) (PlanErr ''ABI_BUILD_MISMATCH''))))"

fun findConstructor :: "jsval list \<Rightarrow> js_error + jsrecord" where
  "findConstructor [] = failPlan ''CONSTRUCTOR_ABI_MISSING''"
| "findConstructor (entry # abi) =
     bindE (objectOr ''ABI_ENTRY_INVALID'' entry) (\<lambda>r.
     if getP r ''type'' = JStr ''constructor'' then Inr r else findConstructor abi)"

text \<open>\<open>Object.values\<close> of an object or array.\<close>

fun valuesOf :: "jsval \<Rightarrow> jsval list" where
  "valuesOf (JArr _ xs) = xs"
| "valuesOf (JObj _ r) = map snd r"
| "valuesOf _ = []"

fun nonEmptyArray :: "jsval \<Rightarrow> bool" where
  "nonEmptyArray (JArr _ xs) = (xs \<noteq> [])"
| "nonEmptyArray _ = False"

definition hasFileLinks :: "jsval \<Rightarrow> bool" where
  "hasFileLinks value = list_ex nonEmptyArray (valuesOf value)"

definition hasLinks :: "jsval \<Rightarrow> bool" where
  "hasLinks value = list_ex hasFileLinks (valuesOf value)"

definition readCreationBytecode :: "jsrecord \<Rightarrow> jsrecord \<Rightarrow> js_error + string" where
  "readCreationBytecode outputContract artifact =
    bindE (objectOr ''BUILD_EVM_INVALID'' (getP outputContract ''evm'')) (\<lambda>evm.
    bindE (objectOr ''BUILD_BYTECODE_INVALID'' (getP evm ''bytecode'')) (\<lambda>bytecode.
    bindE (failIf (hasLinks (getP bytecode ''linkReferences'')) (PlanErr ''LINK_REFERENCES_UNSUPPORTED'')) (\<lambda>_.
    case getP bytecode ''object'' of
      JStr raw \<Rightarrow>
        if raw = [] \<or> \<not> list_all isHexLower raw \<or> length raw mod 2 \<noteq> 0 then failPlan ''BYTECODE_INVALID''
        else bindE (objectOr ''ARTIFACT_BYTECODE_INVALID'' (getP artifact ''bytecode'')) (\<lambda>ab.
          if getP ab ''object'' \<noteq> JStr raw \<and> getP ab ''object'' \<noteq> JStr (''0x'' @ raw)
          then failPlan ''ARTIFACT_BUILD_MISMATCH'' else Inr (''0x'' @ raw))
    | _ \<Rightarrow> failPlan ''BYTECODE_INVALID'')))"

section \<open>Constructor arguments\<close>

definition nullishOr :: "jsval \<Rightarrow> jsval \<Rightarrow> jsval" where
  "nullishOr a b = (if a = JUndef \<or> a = JNull then b else a)"

definition parseAllocation :: "jsval \<Rightarrow> js_error + rawAllocation" where
  "parseAllocation value =
    bindE (objectOr ''CONSTRUCTOR_INVALID'' value) (\<lambda>parsed.
    case (nullishOr (getP parsed ''id'') (getP parsed ''idBytes32''), getP parsed ''recipient'',
          nullishOr (getP parsed ''amount'') (getP parsed ''amountBaseUnits'')) of
      (JStr i, JStr r, JStr a) \<Rightarrow> Inr \<lparr>raId = i, raRecipient = r, raAmount = a\<rparr>
    | _ \<Rightarrow> failPlan ''CONSTRUCTOR_INVALID'')"

definition parseConstructor :: "jsrecord \<Rightarrow> js_error + constructorValues" where
  "parseConstructor parsed =
    (case (nullishOr (getP parsed ''initialSupply'') (getP parsed ''initialSupplyBaseUnits''), getP parsed ''allocations'') of
       (JStr s, JArr _ xs) \<Rightarrow>
         bindE (mapE parseAllocation xs) (\<lambda>as. Inr \<lparr>cvInitialSupply = s, cvAllocations = as\<rparr>)
     | _ \<Rightarrow> failPlan ''CONSTRUCTOR_INVALID'')"

definition padStart :: "nat \<Rightarrow> string \<Rightarrow> string" where
  "padStart n s = replicate (n - length s) (CHR ''0'') @ s"

definition wordHex :: "string \<Rightarrow> js_error + string" where
  "wordHex value = (case parseUint (JStr value) True of
     Inr n \<Rightarrow> Inr (padStart 64 (toHex (nat n))) | Inl _ \<Rightarrow> failPlan ''CONSTRUCTOR_INVALID'')"

definition encodeAllocation :: "rawAllocation \<Rightarrow> js_error + string" where
  "encodeAllocation item =
    bindE (failIf (\<not> matchesHex 64 (raId item) \<or> \<not> matchesHex 40 (raRecipient item)) (PlanErr ''CONSTRUCTOR_INVALID'')) (\<lambda>_.
    bindE (wordHex (raAmount item)) (\<lambda>amount.
    Inr (drop 2 (raId item) @ padStart 64 (drop 2 (raRecipient item)) @ amount)))"

definition encodeConstructor :: "constructorValues \<Rightarrow> js_error + string" where
  "encodeConstructor value =
    bindE (wordHex (cvInitialSupply value)) (\<lambda>supplyWord.
    bindE (wordHex ''64'') (\<lambda>offsetWord.
    bindE (wordHex (dec (length (cvAllocations value)))) (\<lambda>lengthWord.
    bindE (mapE encodeAllocation (cvAllocations value)) (\<lambda>items.
    Inr (''0x'' @ supplyWord @ offsetWord @ lengthWord @ concat items)))))"

section \<open>The approval\<close>

definition utf8Hex :: "string \<Rightarrow> string" where
  "utf8Hex value = ''0x'' @ hexBytes (utf8 value)"

definition hashHex :: "(nat list \<Rightarrow> string) \<Rightarrow> string \<Rightarrow> string" where
  "hashHex sha256 value = sha256Hex sha256 (fromHex (drop 2 value))"

definition arrayOr :: "string \<Rightarrow> jsval \<Rightarrow> js_error + jsval list" where
  "arrayOr failure v = (case v of JArr _ xs \<Rightarrow> Inr xs | _ \<Rightarrow> failPlan failure)"

definition parseArtifactInputs :: "(nat list \<Rightarrow> string) \<Rightarrow> jsonParser \<Rightarrow> rawArtifactInputs \<Rightarrow> js_error + parsedInputs" where
  "parseArtifactInputs sha256 parse inputs =
    bindE (parse (raiBuildInfo inputs) ''build-info'') (\<lambda>b.
    bindE (objectOr ''BUILD_INFO_INVALID'' b) (\<lambda>build.
    bindE (parse (raiArtifact inputs) ''artifact'') (\<lambda>a.
    bindE (objectOr ''ARTIFACT_INVALID'' a) (\<lambda>artifact.
    bindE (parse (raiAbi inputs) ''abi'') (\<lambda>i.
    bindE (arrayOr ''ABI_INVALID'' i) (\<lambda>abi.
    bindE (parse (raiFixture inputs) ''fixture'') (\<lambda>f.
    bindE (objectOr ''FIXTURE_INVALID'' f) (\<lambda>fixture.
    bindE (canonicalBuildInfoSha256 sha256 build) (\<lambda>canonical.
    Inr \<lparr>piBuild = build, piArtifact = artifact, piAbi = abi, piFixture = fixture,
      piArtifactSha256 = sha256Hex sha256 (raiArtifact inputs), piAbiSha256 = sha256Hex sha256 (raiAbi inputs),
      piFixtureSha256 = sha256Hex sha256 (raiFixture inputs), piRawBuildInfoSha256 = sha256Hex sha256 (raiBuildInfo inputs),
      piCanonicalBuildInfoSha256 = canonical\<rparr>)))))))))"

definition validateInputDigests :: "parsedInputs \<Rightarrow> trustRoots \<Rightarrow> js_error + unit" where
  "validateInputDigests parsed roots =
    bindE (failIf (piCanonicalBuildInfoSha256 parsed \<noteq> trCanonicalBuildInfoSha256 roots)
      (PlanErr ''CANONICAL_BUILD_INFO_DIGEST_MISMATCH'')) (\<lambda>_.
    bindE (failIf (piArtifactSha256 parsed \<noteq> trArtifactSha256 roots) (PlanErr ''ARTIFACT_DIGEST_MISMATCH'')) (\<lambda>_.
    bindE (failIf (piAbiSha256 parsed \<noteq> trAbiSha256 roots) (PlanErr ''ABI_DIGEST_MISMATCH'')) (\<lambda>_.
    failIf (piFixtureSha256 parsed \<noteq> trFixtureSha256 roots) (PlanErr ''FIXTURE_DIGEST_MISMATCH''))))"

definition validateBuildInfoCompiler :: "jsrecord \<Rightarrow> trustRoots \<Rightarrow> js_error + unit" where
  "validateBuildInfoCompiler build roots =
    failIf (getP build ''solcVersion'' \<noteq> JStr (trBuildInfoSolcVersion roots)) (PlanErr ''SOLC_MISMATCH'')"

definition independentlyApproveRawArtifact :: "(nat list \<Rightarrow> string) \<Rightarrow> jsonParser \<Rightarrow> rawArtifactInputs \<Rightarrow> trustRoots
    \<Rightarrow> js_error + approvedArtifact" where
  "independentlyApproveRawArtifact sha256 parse inputs roots =
    bindE (parseArtifactInputs sha256 parse inputs) (\<lambda>parsed.
    bindE (validateInputDigests parsed roots) (\<lambda>_.
    bindE (validateBuildInfoCompiler (piBuild parsed) roots) (\<lambda>_.
    bindE (readBuildContract sha256 (piBuild parsed) roots) (\<lambda>contract.
    bindE (validateAbis (bcOutputContract contract) (piArtifact parsed) (piAbi parsed)) (\<lambda>_.
    bindE (findConstructor (piAbi parsed)) (\<lambda>ctor.
    bindE (readCreationBytecode (bcOutputContract contract) (piArtifact parsed)) (\<lambda>creationBytecode.
    bindE (parseConstructor (piFixture parsed)) (\<lambda>vals.
    bindE (encodeConstructor vals) (\<lambda>constructorArguments.
    bindE (planJson (JObj Plain ctor)) (\<lambda>ctorJson.
    let creationInput = creationBytecode @ drop 2 constructorArguments;
        constructorAbiBytes = utf8Hex ctorJson;
        approved = \<lparr>aaRawBuildInfoSha256 = piRawBuildInfoSha256 parsed,
          aaCanonicalBuildInfoSha256 = piCanonicalBuildInfoSha256 parsed,
          aaArtifactSha256 = piArtifactSha256 parsed,
          aaAbiSha256 = piAbiSha256 parsed,
          aaFixtureSha256 = piFixtureSha256 parsed,
          aaSourceDependencyClosure = bcSourceClosure contract,
          aaBuildInfoSolcVersion = trBuildInfoSolcVersion roots,
          aaCompilerInputSha256 = bcCompilerInputSha256 contract,
          aaCompilerSettings = bcNormalizedSettings contract,
          aaCreationBytecode = creationBytecode,
          aaCreationBytecodeHash = hashHex sha256 creationBytecode,
          aaConstructorAbiBytes = constructorAbiBytes,
          aaConstructorAbiHash = hashHex sha256 constructorAbiBytes,
          aaConstructorArguments = constructorArguments,
          aaConstructorArgumentsHash = hashHex sha256 constructorArguments,
          aaCreationInput = creationInput,
          aaCreationInputHash = hashHex sha256 creationInput\<rparr>
    in if aaConstructorArgumentsHash approved \<noteq> trConstructorArgumentsHash roots
         \<or> aaCreationInputHash approved \<noteq> trCreationInputHash roots
       then failPlan ''GOLDEN_INPUT_MISMATCH'' else Inr approved))))))))))"

section \<open>The ABI encoding\<close>

text \<open>
  The contract's encoding of \<open>(uint256, (bytes32, address, uint256)[])\<close>: words of 32 bytes, a head
  with the offset of the array, its length and its items.
\<close>

definition abiWord :: "int \<Rightarrow> nat list" where
  "abiWord n = (let bs = bigEndian (nat n) in replicate (32 - length bs) 0 @ bs)"

definition abiItem :: "rawAllocation \<Rightarrow> nat list" where
  "abiItem a = fromHex (drop 2 (raId a)) @ replicate 12 0 @ fromHex (drop 2 (raRecipient a))
     @ abiWord (int (undec (raAmount a)))"

definition abiConstructor :: "constructorValues \<Rightarrow> nat list" where
  "abiConstructor v = abiWord (int (undec (cvInitialSupply v))) @ abiWord 64
     @ abiWord (int (length (cvAllocations v))) @ concat (map abiItem (cvAllocations v))"

definition uint256Text :: "string \<Rightarrow> bool" where
  "uint256Text s \<longleftrightarrow> canonicalDec s \<and> int (undec s) \<le> PLAN_UINT256_MAX"

definition itemOk :: "rawAllocation \<Rightarrow> bool" where
  "itemOk a \<longleftrightarrow> matchesHex 64 (raId a) \<and> matchesHex 40 (raRecipient a) \<and> uint256Text (raAmount a)"

definition constructorOk :: "constructorValues \<Rightarrow> bool" where
  "constructorOk v \<longleftrightarrow> uint256Text (cvInitialSupply v)
     \<and> int (length (cvAllocations v)) \<le> PLAN_UINT256_MAX \<and> list_all itemOk (cvAllocations v)"

lemma hexBytes_append: "hexBytes (as @ bs) = hexBytes as @ hexBytes bs"
  by (simp add: hexBytes_def)

lemma hexBytes_zeros: "hexBytes (replicate k 0) = replicate (2 * k) (CHR ''0'')"
  by (induction k) (simp_all add: hexBytes_def hexByte_def hexDigit_0)

lemma hexBytes_concat: "hexBytes (concat bss) = concat (map hexBytes bss)"
  by (induction bss) (simp_all add: hexBytes_append, simp add: hexBytes_def)

lemma padStart_word:
  assumes "0 \<le> n" "n \<le> PLAN_UINT256_MAX"
  shows "padStart 64 (toHex (nat n)) = hexBytes (abiWord n)"
proof (cases "n = 0")
  case True
  then show ?thesis
    by (simp add: padStart_def toHex.simps abiWord_def bigEndian.simps[of 0] hexBytes_zeros hexDigit_0 replicate_append_same)
      (simp add: numeral_eq_Suc)
next
  case False
  with assms have n: "0 < nat n" by simp
  have len: "length (bigEndian (nat n)) \<le> 32"
    using assms by (intro nonce_bytes) (simp_all add: PLAN_UINT256_MAX_def)
  let ?h = "toHex (nat n)" and ?b = "hexBytes (bigEndian (nat n))"
  have p: "padHex ?h = ?b" by (rule padHex_toHex[OF n])
  have b: "hexBytes (abiWord n) = replicate (64 - length ?b) (CHR ''0'') @ ?b"
    by (simp add: abiWord_def Let_def hexBytes_append hexBytes_zeros right_diff_distrib')
  show ?thesis
  proof (cases "even (length ?h)")
    case True
    with p b show ?thesis by (simp add: padStart_def padHex_def even_iff_mod_2_eq_zero)
  next
    case False
    then have h: "CHR ''0'' # ?h = ?b" using p by (simp add: padHex_def odd_iff_mod_2_eq_one)
    have "length ?b \<le> 64" using len by simp
    with h have l: "64 - length ?h = Suc (64 - length ?b)" by (metis Suc_diff_le diff_Suc_Suc length_Cons)
    have "padStart 64 ?h = replicate (64 - length ?b) (CHR ''0'') @ CHR ''0'' # ?h"
      unfolding padStart_def l by (metis append.assoc append_Cons append_Nil replicate_Suc replicate_append_same)
    with h b show ?thesis by simp
  qed
qed

lemma wordHex_Inr: "wordHex s = Inr w \<longleftrightarrow> uint256Text s \<and> w = hexBytes (abiWord (int (undec s)))"
proof (cases "parseUint (JStr s) True")
  case (Inl e)
  then have "\<not> uint256Text s"
    using parseUint_JStr[of "JStr s" True "int (undec s)"] by (auto simp: uint256Text_def)
  with Inl show ?thesis by (simp add: wordHex_def failPlan_def)
next
  case (Inr n)
  then have n: "0 \<le> n" "n \<le> PLAN_UINT256_MAX" "s = decInt n" by (simp_all add: parseUint_JStr)
  then have "uint256Text s" "int (undec s) = n" by (simp_all add: uint256Text_def)
  with Inr n show ?thesis by (auto simp: wordHex_def padStart_word)
qed

lemma hex_body:
  assumes "matchesHex n s" "even n"
  shows "hexBytes (fromHex (drop 2 s)) = drop 2 s" "length (drop 2 s) = n"
  using assms by (auto simp: matchesHex_def intro!: hexBytes_fromHex)

lemma encodeAllocation_Inr:
  "encodeAllocation a = Inr w \<longleftrightarrow> itemOk a \<and> w = hexBytes (abiItem a)"
proof (cases "matchesHex 64 (raId a) \<and> matchesHex 40 (raRecipient a)")
  case True
  have "padStart 64 (drop 2 (raRecipient a)) = hexBytes (replicate 12 0 @ fromHex (drop 2 (raRecipient a)))"
    using hex_body[of 40 "raRecipient a"] True
    by (simp add: padStart_def hexBytes_append hexBytes_zeros)
  moreover have "drop 2 (raId a) = hexBytes (fromHex (drop 2 (raId a)))"
    using hex_body[of 64 "raId a"] True by simp
  ultimately show ?thesis
    using True by (auto simp: encodeAllocation_def bindE_Inr_iff wordHex_Inr itemOk_def abiItem_def hexBytes_append)
next
  case False
  then show ?thesis by (auto simp: encodeAllocation_def bindE_Inr_iff itemOk_def)
qed

lemma mapE_iff_map:
  assumes "\<And>x y. f x = Inr y \<longleftrightarrow> P x \<and> y = g x"
  shows "mapE f xs = Inr ys \<longleftrightarrow> list_all P xs \<and> ys = map g xs"
  by (induction xs arbitrary: ys) (auto simp: bindE_Inr_iff assms)

lemma encodeConstructor_Inr:
  "encodeConstructor v = Inr t \<longleftrightarrow> constructorOk v \<and> t = ''0x'' @ hexBytes (abiConstructor v)"
proof -
  have k64: "uint256Text ''64''" "undec ''64'' = 64"
    by (simp_all add: uint256Text_def canonicalDec_def isDigit_def less_eq_char_def undec_def digitVal_def PLAN_UINT256_MAX_def)
  show ?thesis
    unfolding encodeConstructor_def bindE_Inr_iff wordHex_Inr mapE_iff_map[OF encodeAllocation_Inr]
    using k64 by (auto simp: constructorOk_def abiConstructor_def uint256Text_def hexBytes_append hexBytes_concat comp_def)
qed

subsection \<open>The encoding determines the values\<close>

lemma abiWord_length: "0 \<le> n \<Longrightarrow> n \<le> PLAN_UINT256_MAX \<Longrightarrow> length (abiWord n) = 32"
  using nonce_bytes[of n] by (simp add: abiWord_def Let_def PLAN_UINT256_MAX_def)

lemma abiWord_value: "foldl (\<lambda>a b. 256 * a + b) 0 (abiWord n) = nat n"
proof -
  have "foldl (\<lambda>a b. 256 * a + b) 0 (replicate k 0) = (0::nat)" for k by (induction k) auto
  then show ?thesis by (simp add: abiWord_def Let_def bigEndian_value)
qed

lemma abiWord_inj: "0 \<le> m \<Longrightarrow> 0 \<le> n \<Longrightarrow> abiWord m = abiWord n \<Longrightarrow> m = n"
  by (metis abiWord_value nat_eq_iff2)

lemma abiItem_length: "itemOk a \<Longrightarrow> length (abiItem a) = 96"
  using abiWord_length[of "int (undec (raAmount a))"] hex_body(2)[of 64 "raId a"] hex_body(2)[of 40 "raRecipient a"]
  by (simp add: itemOk_def uint256Text_def abiItem_def fromHex_length matchesHex_def)

lemma matchesHex_from: "matchesHex n s \<Longrightarrow> even n \<Longrightarrow> ''0x'' @ hexBytes (fromHex (drop 2 s)) = s"
  by (metis append_take_drop_id hex_body(1) matchesHex_def)

lemma abiItem_inj:
  assumes "itemOk a" "itemOk b" "abiItem a = abiItem b"
  shows "a = b"
proof -
  have l: "length (fromHex (drop 2 (raId x))) = 32" "length (fromHex (drop 2 (raRecipient x))) = 20" if "itemOk x" for x
    using that by (simp_all add: itemOk_def fromHex_length matchesHex_def)
  from assms l have "fromHex (drop 2 (raId a)) = fromHex (drop 2 (raId b))"
    "fromHex (drop 2 (raRecipient a)) = fromHex (drop 2 (raRecipient b))"
    "abiWord (int (undec (raAmount a))) = abiWord (int (undec (raAmount b)))"
    by (simp_all add: abiItem_def)
  then have "raId a = raId b" "raRecipient a = raRecipient b" "undec (raAmount a) = undec (raAmount b)"
    using assms matchesHex_from[of 64 "raId a"] matchesHex_from[of 64 "raId b"]
      matchesHex_from[of 40 "raRecipient a"] matchesHex_from[of 40 "raRecipient b"]
      abiWord_inj[of "int (undec (raAmount a))" "int (undec (raAmount b))"]
    by (auto simp: itemOk_def)
  moreover from this(3) have "raAmount a = raAmount b"
    using assms dec_undec by (metis itemOk_def uint256Text_def)
  ultimately show ?thesis by (cases a; cases b) simp
qed

lemma abiItems_inj:
  "list_all itemOk as \<Longrightarrow> list_all itemOk bs \<Longrightarrow> concat (map abiItem as) = concat (map abiItem bs) \<Longrightarrow> as = bs"
proof (induction as arbitrary: bs)
  case Nil
  then show ?case using abiItem_length by (cases bs) force+
next
  case (Cons a as)
  then obtain b bs' where bs: "bs = b # bs'" using abiItem_length[of a] by (cases bs) force+
  with Cons.prems have "abiItem a = abiItem b" "concat (map abiItem as) = concat (map abiItem bs')"
    using abiItem_length[of a] abiItem_length[of b] by simp_all
  with Cons bs show ?case using abiItem_inj by auto
qed

lemma abiConstructor_inj:
  assumes "constructorOk v" "constructorOk w" "abiConstructor v = abiConstructor w"
  shows "v = w"
proof -
  have l: "length (abiWord (int (undec (cvInitialSupply x)))) = 32"
    "length (abiWord (int (length (cvAllocations x)))) = 32" if "constructorOk x" for x
    using that abiWord_length by (simp_all add: constructorOk_def uint256Text_def)
  from assms l have "abiWord (int (undec (cvInitialSupply v))) = abiWord (int (undec (cvInitialSupply w)))"
    "concat (map abiItem (cvAllocations v)) = concat (map abiItem (cvAllocations w))"
    by (simp_all add: abiConstructor_def)
  then have "undec (cvInitialSupply v) = undec (cvInitialSupply w)" "cvAllocations v = cvAllocations w"
    using assms abiItems_inj abiWord_inj[of "int (undec (cvInitialSupply v))" "int (undec (cvInitialSupply w))"]
    by (auto simp: constructorOk_def)
  moreover from this(1) have "cvInitialSupply v = cvInitialSupply w"
    using assms dec_undec by (metis constructorOk_def uint256Text_def)
  ultimately show ?thesis by (cases v; cases w) simp
qed

section \<open>The digests do not depend on the checkout\<close>

text \<open>The same build made from another directory, with another build id.\<close>

definition relocateInput :: "string \<Rightarrow> jsrecord \<Rightarrow> jsrecord" where
  "relocateInput root input = setKey (setKey (setKey input
     ''allowPaths'' (JArr Plain [JStr root, JStr (root @ ''/lib'')]))
     ''basePath'' (JStr root))
     ''includePaths'' (JArr Plain [JStr root])"

definition relocateBuild :: "string \<Rightarrow> string \<Rightarrow> jsrecord \<Rightarrow> jsrecord" where
  "relocateBuild buildId root build = setKey (setKey build ''id'' (JStr buildId))
     ''input'' (JObj Plain (relocateInput root (theObj (getP build ''input''))))"

lemma mapSet_twice [simp]: "mapSet k v (mapSet k w m) = mapSet k v m"
  by (induction m rule: mapSet.induct) auto

lemma mapSet_commute:
  "k \<noteq> l \<Longrightarrow> k \<in> set (map fst m) \<Longrightarrow> l \<in> set (map fst m) \<Longrightarrow>
   mapSet k v (mapSet l w m) = mapSet l w (mapSet k v m)"
proof (induction m)
  case Nil
  then show ?case by simp
next
  case (Cons x m)
  obtain a b where x: "x = (a, b)" by fastforce
  show ?case
  proof (cases "a = k \<or> a = l")
    case True
    with Cons.prems x show ?thesis by auto
  next
    case False
    with Cons x show ?thesis by auto
  qed
qed

lemma getP_mapSet: "getP (mapSet k v m) l = (if l = k then v else getP m l)"
  by (simp add: getP_def)

lemma getP_defined: "getP r k \<noteq> JUndef \<Longrightarrow> k \<in> set (map fst r)"
proof (rule ccontr)
  assume "getP r k \<noteq> JUndef" "k \<notin> set (map fst r)"
  moreover from this(2) have "map_of r k = None" by (simp add: map_of_eq_None_iff)
  ultimately show False by (simp add: getP_def)
qed

lemma portableCompilerInput_Inr:
  "portableCompilerInput input = Inr p \<longleftrightarrow>
    (\<exists>root. getP input ''basePath'' = JStr root \<and> isCanonicalAbsolutePosixPath root
      \<and> exactStringArray (getP input ''allowPaths'') [root, root @ ''/lib'']
      \<and> exactStringArray (getP input ''includePaths'') [root])
    \<and> p = relocateInput PORTABLE_ROOT input"
  by (auto simp: portableCompilerInput_def failPlan_def relocateInput_def split: jsval.splits if_splits)

lemma exactStringArray_defined: "exactStringArray v xs \<Longrightarrow> v \<noteq> JUndef"
  by (auto simp: exactStringArray_def)

lemma mapSet_thrice:
  assumes "k \<noteq> l" "k \<noteq> n" "l \<noteq> n" "k \<in> set (map fst m)" "l \<in> set (map fst m)" "n \<in> set (map fst m)"
  shows "mapSet n z (mapSet l y (mapSet k x (mapSet n c (mapSet l b (mapSet k a m)))))
    = mapSet n z (mapSet l y (mapSet k x m))"
proof -
  have "mapSet k x (mapSet n c (mapSet l b (mapSet k a m))) = mapSet n c (mapSet k x (mapSet l b (mapSet k a m)))"
    by (rule mapSet_commute) (use assms in \<open>simp_all del: set_map\<close>)
  also have "mapSet k x (mapSet l b (mapSet k a m)) = mapSet l b (mapSet k x (mapSet k a m))"
    by (rule mapSet_commute) (use assms in \<open>simp_all del: set_map\<close>)
  also have "mapSet k x (mapSet k a m) = mapSet k x m" by simp
  finally have 1: "mapSet k x (mapSet n c (mapSet l b (mapSet k a m))) = mapSet n c (mapSet l b (mapSet k x m))" .
  have "mapSet l y (mapSet n c (mapSet l b (mapSet k x m))) = mapSet n c (mapSet l y (mapSet l b (mapSet k x m)))"
    by (rule mapSet_commute) (use assms in \<open>simp_all del: set_map\<close>)
  then show ?thesis unfolding 1 by simp
qed

lemma relocate_twice:
  assumes "''allowPaths'' \<in> set (map fst input)" "''basePath'' \<in> set (map fst input)" "''includePaths'' \<in> set (map fst input)"
  shows "relocateInput q (relocateInput root input) = relocateInput q input"
  unfolding relocateInput_def by (rule mapSet_thrice) (use assms in simp_all)

lemma portableCompilerInput_relocate:
  assumes "portableCompilerInput input = Inr p" "isCanonicalAbsolutePosixPath root"
  shows "portableCompilerInput (relocateInput root input) = Inr p"
proof -
  from assms(1) have keys: "''allowPaths'' \<in> set (map fst input)" "''basePath'' \<in> set (map fst input)"
      "''includePaths'' \<in> set (map fst input)" and p: "p = relocateInput PORTABLE_ROOT input"
    unfolding portableCompilerInput_Inr using exactStringArray_defined getP_defined by (metis jsval.distinct(9))+
  have "getP (relocateInput root input) ''basePath'' = JStr root"
    "getP (relocateInput root input) ''allowPaths'' = JArr Plain [JStr root, JStr (root @ ''/lib'')]"
    "getP (relocateInput root input) ''includePaths'' = JArr Plain [JStr root]"
    by (simp_all add: relocateInput_def getP_mapSet)
  then show ?thesis
    unfolding portableCompilerInput_Inr using assms(2) relocate_twice[OF keys] p
    by (simp add: exactStringArray_def)
qed

lemma canonicalBuildInfo_relocate:
  assumes "canonicalBuildInfoSha256 sha256 build = Inr d" "isCanonicalAbsolutePosixPath root" "isBuildId (JStr buildId)"
  shows "canonicalBuildInfoSha256 sha256 (relocateBuild buildId root build) = Inr d"
proof -
  from assms(1) obtain sh raw input json where i: "isBuildId (getP build ''id'')" "getP build ''input'' = JObj sh raw"
      "portableCompilerInput raw = Inr input"
      "planJson (JObj Plain (setKey (setKey build ''id'' (JStr PORTABLE_FORGE_BUILD_ID)) ''input'' (JObj Plain input))) = Inr json"
      "d = sha256Hex sha256 (utf8 json)"
    unfolding canonicalBuildInfoSha256_def bindE_Inr_iff by auto
  let ?b = "relocateBuild buildId root build"
  have k1: "''id'' \<in> set (map fst build)" by (rule getP_defined) (use i(1) in \<open>auto simp: isBuildId_def\<close>)
  have k2: "''input'' \<in> set (map fst build)" by (rule getP_defined) (simp add: i(2))
  note keys = k1 k2
  have g: "getP ?b ''id'' = JStr buildId" "getP ?b ''input'' = JObj Plain (relocateInput root raw)"
    using i(2) by (simp_all add: relocateBuild_def getP_mapSet)
  have "mapSet ''id'' v (mapSet ''input'' w m) = mapSet ''input'' w (mapSet ''id'' v m)"
    if "''id'' \<in> set (map fst m)" "''input'' \<in> set (map fst m)" for v w and m :: jsrecord
    by (rule mapSet_commute) (use that in simp_all)
  then have "setKey (setKey ?b ''id'' x) ''input'' y = setKey (setKey build ''id'' x) ''input'' y" for x y
    using keys i(2) by (simp add: relocateBuild_def del: set_map)
  with g i assms(2,3) show ?thesis
    unfolding canonicalBuildInfoSha256_def
    by (simp add: portableCompilerInput_relocate objectOr_def)
qed

section \<open>What an approval binds\<close>

declare planJson.simps(6,7) [simp del]

lemma sameJson_Inr: "sameJson c l r = Inr u \<longleftrightarrow> (\<exists>t. planJson l = Inr t \<and> planJson r = Inr t)"
  by (auto simp: sameJson_def bindE_Inr_iff)

lemma readBuildContract_Inr:
  assumes "readBuildContract sha256 build roots = Inr c"
  shows "bcCompilerInputSha256 c = trCompilerInputSha256 roots"
    and "\<exists>t. planJson (JObj Plain (bcNormalizedSettings c)) = Inr t \<and> planJson (JObj Plain (trCompilerSettings roots)) = Inr t"
    and "\<exists>t. planJson (JObj Plain (bcSourceClosure c)) = Inr t \<and> planJson (JObj Plain (trSourceDependencyClosure roots)) = Inr t"
  using assms unfolding readBuildContract_def bindE_Inr_iff sameJson_Inr by auto

definition boundToRoots :: "(nat list \<Rightarrow> string) \<Rightarrow> rawArtifactInputs \<Rightarrow> trustRoots \<Rightarrow> approvedArtifact \<Rightarrow> bool" where
  "boundToRoots sha256 inputs roots a \<longleftrightarrow>
     aaRawBuildInfoSha256 a = sha256Hex sha256 (raiBuildInfo inputs)
   \<and> aaArtifactSha256 a = sha256Hex sha256 (raiArtifact inputs) \<and> aaArtifactSha256 a = trArtifactSha256 roots
   \<and> aaAbiSha256 a = sha256Hex sha256 (raiAbi inputs) \<and> aaAbiSha256 a = trAbiSha256 roots
   \<and> aaFixtureSha256 a = sha256Hex sha256 (raiFixture inputs) \<and> aaFixtureSha256 a = trFixtureSha256 roots
   \<and> aaCanonicalBuildInfoSha256 a = trCanonicalBuildInfoSha256 roots
   \<and> aaCompilerInputSha256 a = trCompilerInputSha256 roots
   \<and> aaBuildInfoSolcVersion a = trBuildInfoSolcVersion roots
   \<and> (\<exists>t. planJson (JObj Plain (aaCompilerSettings a)) = Inr t \<and> planJson (JObj Plain (trCompilerSettings roots)) = Inr t)
   \<and> (\<exists>t. planJson (JObj Plain (aaSourceDependencyClosure a)) = Inr t
        \<and> planJson (JObj Plain (trSourceDependencyClosure roots)) = Inr t)
   \<and> aaConstructorArgumentsHash a = trConstructorArgumentsHash roots
   \<and> aaCreationInputHash a = trCreationInputHash roots
   \<and> aaCreationInput a = aaCreationBytecode a @ drop 2 (aaConstructorArguments a)
   \<and> (\<exists>v. constructorOk v \<and> aaConstructorArguments a = ''0x'' @ hexBytes (abiConstructor v))
   \<and> aaCreationBytecodeHash a = hashHex sha256 (aaCreationBytecode a)
   \<and> aaConstructorAbiHash a = hashHex sha256 (aaConstructorAbiBytes a)
   \<and> aaConstructorArgumentsHash a = hashHex sha256 (aaConstructorArguments a)
   \<and> aaCreationInputHash a = hashHex sha256 (aaCreationInput a)"

lemma approval_bound:
  assumes "independentlyApproveRawArtifact sha256 parse inputs roots = Inr a"
  shows "boundToRoots sha256 inputs roots a"
proof -
  from assms obtain parsed contract creation args json vals where
      p: "parseArtifactInputs sha256 parse inputs = Inr parsed"
      and d: "validateInputDigests parsed roots = Inr ()"
      and c: "readBuildContract sha256 (piBuild parsed) roots = Inr contract"
      and e: "encodeConstructor vals = Inr args"
      and h: "hashHex sha256 args = trConstructorArgumentsHash roots"
        "hashHex sha256 (creation @ drop 2 args) = trCreationInputHash roots"
      and a: "a = \<lparr>aaRawBuildInfoSha256 = piRawBuildInfoSha256 parsed,
          aaCanonicalBuildInfoSha256 = piCanonicalBuildInfoSha256 parsed,
          aaArtifactSha256 = piArtifactSha256 parsed,
          aaAbiSha256 = piAbiSha256 parsed,
          aaFixtureSha256 = piFixtureSha256 parsed,
          aaSourceDependencyClosure = bcSourceClosure contract,
          aaBuildInfoSolcVersion = trBuildInfoSolcVersion roots,
          aaCompilerInputSha256 = bcCompilerInputSha256 contract,
          aaCompilerSettings = bcNormalizedSettings contract,
          aaCreationBytecode = creation,
          aaCreationBytecodeHash = hashHex sha256 creation,
          aaConstructorAbiBytes = utf8Hex json,
          aaConstructorAbiHash = hashHex sha256 (utf8Hex json),
          aaConstructorArguments = args,
          aaConstructorArgumentsHash = hashHex sha256 args,
          aaCreationInput = creation @ drop 2 args,
          aaCreationInputHash = hashHex sha256 (creation @ drop 2 args)\<rparr>"
    unfolding independentlyApproveRawArtifact_def bindE_Inr_iff Let_def
    by (auto simp: failPlan_def split: if_splits)
  from p have r: "piRawBuildInfoSha256 parsed = sha256Hex sha256 (raiBuildInfo inputs)"
      "piArtifactSha256 parsed = sha256Hex sha256 (raiArtifact inputs)"
      "piAbiSha256 parsed = sha256Hex sha256 (raiAbi inputs)"
      "piFixtureSha256 parsed = sha256Hex sha256 (raiFixture inputs)"
    unfolding parseArtifactInputs_def bindE_Inr_iff by auto
  from d have q: "piCanonicalBuildInfoSha256 parsed = trCanonicalBuildInfoSha256 roots"
      "piArtifactSha256 parsed = trArtifactSha256 roots" "piAbiSha256 parsed = trAbiSha256 roots"
      "piFixtureSha256 parsed = trFixtureSha256 roots"
    unfolding validateInputDigests_def bindE_Inr_iff by auto
  show ?thesis
    unfolding boundToRoots_def a
    using r q h readBuildContract_Inr[OF c] e[unfolded encodeConstructor_Inr] by auto
qed

section \<open>Properties\<close>

text \<open>
  Constructor arguments: exactly the values with 256-bit decimal amounts, 32-byte ids and
  lower-case addresses are encoded, as the hexadecimal text of the contract's ABI encoding.
\<close>

lemma encodeConstructor_abi:
  "encodeConstructor v = Inr t \<longleftrightarrow> constructorOk v \<and> t = ''0x'' @ hexBytes (abiConstructor v)"
  by (rule encodeConstructor_Inr)

lemma abiConstructor_bytes:
  assumes "constructorOk v"
  shows "list_all (\<lambda>b. b < 256) (abiConstructor v)"
proof -
  have "list_all (\<lambda>b. b < 256) (abiWord n)" for n
    using bigEndian_bytes[of "nat n"] by (auto simp: abiWord_def Let_def list_all_iff)
  moreover have "list_all (\<lambda>b. b < 256) (abiItem a)" if "itemOk a" for a
    using calculation[of "int (undec (raAmount a))"] that
      fromHex_bytes[of "drop 2 (raId a)"] fromHex_bytes[of "drop 2 (raRecipient a)"]
    by (simp add: abiItem_def itemOk_def matchesHex_def list_all_iff ball_Un)
  ultimately show ?thesis using assms by (auto simp: abiConstructor_def constructorOk_def list_all_iff)
qed

text \<open>
  No two sets of constructor values share their encoding.
\<close>

lemma encodeConstructor_injective:
  assumes "encodeConstructor v = Inr t" "encodeConstructor w = Inr t"
  shows "v = w"
proof -
  from assms have "constructorOk v" "constructorOk w" "hexBytes (abiConstructor v) = hexBytes (abiConstructor w)"
    by (auto simp: encodeConstructor_Inr)
  then show ?thesis using hexBytes_inj abiConstructor_bytes abiConstructor_inj by blast
qed

text \<open>
  The pinned digest of a build does not depend on where it was made: a build with an accepted
  shape keeps its digest when the checkout's path and Forge's build id change.
\<close>

lemma canonicalBuildInfo_portable:
  assumes "canonicalBuildInfoSha256 sha256 build = Inr d" "isCanonicalAbsolutePosixPath root" "isBuildId (JStr buildId)"
  shows "canonicalBuildInfoSha256 sha256 (relocateBuild buildId root build) = Inr d"
  using assms by (rule canonicalBuildInfo_relocate)

definition sampleBuild :: jsrecord where
  "sampleBuild = [(''id'', JStr ''0123456789abcdef''), (''input'', JObj Plain [
     (''allowPaths'', JArr Plain [JStr ''/a'', JStr ''/a/lib'']), (''basePath'', JStr ''/a''),
     (''includePaths'', JArr Plain [JStr ''/a''])])]"

text \<open>A digest function for the samples.\<close>

definition sampleDigest :: "nat list \<Rightarrow> string" where
  "sampleDigest bytes = replicate 64 (CHR ''a'')"

text \<open>
  C35. An approval is bound on both sides: every digest in it is the digest of the raw input or of
  the value beside it, every pinned one equals the trust root, the settings and sources have the
  canonical text of the trust roots', and the creation input is the bytecode followed by the ABI
  encoding of well formed constructor values.
\<close>

theorem approval_bound_to_roots:
  assumes "independentlyApproveRawArtifact sha256 parse inputs roots = Inr a"
  shows "boundToRoots sha256 inputs roots a"
  using assms by (rule approval_bound)

text \<open>
  A small deployment: one source, one constructor, one allocation, and a parser that knows the four
  raw inputs by their first byte.
\<close>

definition sampleHash :: string where
  "sampleHash = ''0x'' @ replicate 64 (CHR ''a'')"

definition sampleAbi :: jsval where
  "sampleAbi = JArr Plain [JObj Plain [(''type'', JStr ''function''), (''name'', JStr ''f'')],
     JObj Plain [(''type'', JStr ''constructor'')]]"

definition sampleSettings :: jsrecord where
  "sampleSettings = [(''optimizer'', JObj Plain [(''enabled'', JBool True), (''runs'', JNum 200)]),
     (''evmVersion'', JStr ''paris''),
     (''metadata'', JObj Plain [(''bytecodeHash'', JStr ''none''), (''appendCBOR'', JBool False)])]"

definition sampleBuildInfo :: jsrecord where
  "sampleBuildInfo = [(''id'', JStr ''0123456789abcdef''), (''solcVersion'', JStr ''0.8.24''),
     (''input'', JObj Plain [
       (''allowPaths'', JArr Plain [JStr ''/a'', JStr ''/a/lib'']), (''basePath'', JStr ''/a''),
       (''includePaths'', JArr Plain [JStr ''/a'']), (''settings'', JObj Plain sampleSettings),
       (''sources'', JObj Plain [(''A.sol'', JObj Plain [(''content'', JStr ''x'')])])]),
     (''output'', JObj Plain [(''contracts'', JObj Plain [(SOURCE, JObj Plain [(CONTRACT, JObj Plain [
       (''abi'', sampleAbi),
       (''evm'', JObj Plain [(''bytecode'', JObj Plain [(''object'', JStr ''60ff''),
          (''linkReferences'', JObj Plain [])])])])])])])]"

definition sampleArtifact :: jsval where
  "sampleArtifact = JObj Plain [(''abi'', sampleAbi), (''bytecode'', JObj Plain [(''object'', JStr ''0x60ff'')])]"

definition sampleFixture :: jsval where
  "sampleFixture = JObj Plain [(''initialSupply'', JStr ''9''), (''allocations'', JArr Plain [
     JObj Plain [(''id'', JStr sampleHash), (''recipient'', JStr (take 42 sampleHash)), (''amount'', JStr ''9'')]])]"

definition sampleParse :: jsonParser where
  "sampleParse bytes what = Inr (if bytes = [0] then JObj Plain sampleBuildInfo
     else if bytes = [1] then sampleArtifact else if bytes = [2] then sampleAbi else sampleFixture)"

definition sampleInputs :: rawArtifactInputs where
  "sampleInputs = \<lparr>raiBuildInfo = [0], raiArtifact = [1], raiAbi = [2], raiFixture = [3]\<rparr>"

definition sampleRoots :: trustRoots where
  "sampleRoots = \<lparr>trSchemaVersion = 2, trTestOnly = True, trProductionApproved = False, trMainnetAllowed = False,
     trChainId = LOCAL_CHAIN_ID, trContractFqn = SOURCE @ '':'' @ CONTRACT, trBuildProfile = ''default'',
     trFrom = take 42 sampleHash, trMaximumWorstCaseWei = ''99'', trGasBufferBps = ''0'', trQuoteTtlSeconds = ''9'',
     trMaximumHeadLag = ''2'', trBuildInfoSolcVersion = ''0.8.24'', trCanonicalBuildInfoSha256 = sampleHash,
     trCompilerInputSha256 = sampleHash, trCompilerSettings = sampleSettings, trArtifactSha256 = sampleHash,
     trAbiSha256 = sampleHash, trFixtureSha256 = sampleHash, trFixtureReadySha256 = sampleHash,
     trConstructorArgumentsHash = sampleHash, trCreationInputHash = sampleHash,
     trSourceDependencyClosure = [(''A.sol'', JStr sampleHash)]\<rparr>"

definition sampleApproved :: approvedArtifact where
  "sampleApproved = (let zeros = (\<lambda>n. replicate n (CHR ''0''));
       args = zeros 63 @ ''9'' @ zeros 62 @ ''40'' @ zeros 63 @ ''1''
         @ replicate 64 (CHR ''a'') @ zeros 24 @ replicate 40 (CHR ''a'') @ zeros 63 @ ''9''
     in \<lparr>aaRawBuildInfoSha256 = sampleHash, aaCanonicalBuildInfoSha256 = sampleHash, aaArtifactSha256 = sampleHash,
       aaAbiSha256 = sampleHash, aaFixtureSha256 = sampleHash,
       aaSourceDependencyClosure = [(''A.sol'', JStr sampleHash)], aaBuildInfoSolcVersion = ''0.8.24'',
       aaCompilerInputSha256 = sampleHash, aaCompilerSettings = sampleSettings, aaCreationBytecode = ''0x60ff'',
       aaCreationBytecodeHash = sampleHash, aaConstructorAbiBytes = ''0x7b2274797065223a22636f6e7374727563746f72227d'',
       aaConstructorAbiHash = sampleHash, aaConstructorArguments = ''0x'' @ args, aaConstructorArgumentsHash = sampleHash,
       aaCreationInput = ''0x60ff'' @ args, aaCreationInputHash = sampleHash\<rparr>)"

lemma sample_approved: "independentlyApproveRawArtifact sampleDigest sampleParse sampleInputs sampleRoots = Inr sampleApproved"
  by code_simp

lemma approval_bound_to_roots_witness: "boundToRoots sampleDigest sampleInputs sampleRoots sampleApproved"
  by (rule approval_bound_to_roots[OF sample_approved])

end
