(* ===== verification/PlanVerifier.thy ===== *)
theory PlanVerifier
  imports PlanBuilder RawArtifact
begin

text \<open>
  \<open>tooling/deployment-plan/src/application/verifier.ts\<close>: the independent verification of a plan,
  its quote, the native evidence and the answers of an RPC node.
\<close>

section \<open>Plans against trust roots\<close>

definition validatePlanSafety :: "(nat list \<Rightarrow> string) \<Rightarrow> stablePlan \<Rightarrow> js_error + unit" where
  "validatePlanSafety sha256 plan =
    bindE (failIf (spSchemaVersion plan \<noteq> 2 \<or> spKind plan \<noteq> ''deployment-plan'' \<or> spBroadcastAllowed plan
        \<or> \<not> spTestOnly plan \<or> spProductionApproved plan \<or> spMainnetAllowed plan) (PlanErr ''PLAN_UNSAFE'')) (\<lambda>_.
    bindE (computePlanId sha256 (spIdentity plan)) (\<lambda>planId.
    failIf (planId \<noteq> spPlanId plan) (PlanErr ''PLAN_ID_MISMATCH'')))"

definition validateCapPolicy :: "jsval \<Rightarrow> trustRoots \<Rightarrow> js_error + unit" where
  "validateCapPolicy value roots =
    bindE (objectOr ''PLAN_CAP_POLICY_MISMATCH'' value) (\<lambda>capPolicy.
    failIf (getP capPolicy ''maximumWorstCaseWei'' \<noteq> JStr (trMaximumWorstCaseWei roots)
        \<or> getP capPolicy ''testOnly'' \<noteq> JBool True) (PlanErr ''PLAN_CAP_POLICY_MISMATCH''))"

definition identityMatches :: "jsrecord \<Rightarrow> (string \<times> string) list \<Rightarrow> bool" where
  "identityMatches identity kvs = list_all (\<lambda>(key, value). getP identity key = JStr value) kvs"

definition validatePlanTrust :: "stablePlan \<Rightarrow> trustRoots \<Rightarrow> js_error + unit" where
  "validatePlanTrust plan roots =
    (let identity = spIdentity plan; mismatch = PlanErr ''PLAN_TRUST_MISMATCH'' in
    bindE (failIf (\<not> identityMatches identity [(''chainId'', trChainId roots), (''from'', trFrom roots), (''value'', ''0''),
        (''contractFqn'', trContractFqn roots), (''buildProfile'', trBuildProfile roots),
        (''canonicalBuildInfoSha256'', trCanonicalBuildInfoSha256 roots)]) mismatch) (\<lambda>_.
    bindE (sameJson ''PLAN_TRUST_MISMATCH'' (getP identity ''sourceDependencyClosure'')
        (JObj Plain (trSourceDependencyClosure roots))) (\<lambda>_.
    bindE (failIf (\<not> identityMatches identity [(''buildInfoSolcVersion'', trBuildInfoSolcVersion roots)]) mismatch) (\<lambda>_.
    bindE (sameJson ''PLAN_TRUST_MISMATCH'' (getP identity ''compilerSettings'')
        (JObj Plain (trCompilerSettings roots))) (\<lambda>_.
    bindE (failIf (getP identity ''broadcastAllowed'' \<noteq> JBool False) mismatch) (\<lambda>_.
    bindE (validateCapPolicy (getP identity ''capPolicy'') roots) (\<lambda>_.
    failIf (\<not> identityMatches identity [(''artifactSha256'', trArtifactSha256 roots), (''abiSha256'', trAbiSha256 roots),
        (''fixtureSha256'', trFixtureSha256 roots), (''fixtureReadySha256'', trFixtureReadySha256 roots),
        (''compilerInputSha256'', trCompilerInputSha256 roots),
        (''constructorArgumentsHash'', trConstructorArgumentsHash roots),
        (''creationInputHash'', trCreationInputHash roots)]) (PlanErr ''PLAN_ARTIFACT_MISMATCH''))))))))"

definition buildBindings :: "approvedArtifact \<Rightarrow> jsrecord" where
  "buildBindings expected = [
    (''rawBuildInfoSha256'', JStr (aaRawBuildInfoSha256 expected)),
    (''canonicalBuildInfoSha256'', JStr (aaCanonicalBuildInfoSha256 expected)),
    (''artifactSha256'', JStr (aaArtifactSha256 expected)),
    (''abiSha256'', JStr (aaAbiSha256 expected)),
    (''fixtureSha256'', JStr (aaFixtureSha256 expected)),
    (''sourceDependencyClosure'', JObj Plain (aaSourceDependencyClosure expected)),
    (''buildInfoSolcVersion'', JStr (aaBuildInfoSolcVersion expected)),
    (''compilerInputSha256'', JStr (aaCompilerInputSha256 expected)),
    (''compilerSettings'', JObj Plain (aaCompilerSettings expected)),
    (''creationBytecodeHash'', JStr (aaCreationBytecodeHash expected)),
    (''constructorAbiBytes'', JStr (aaConstructorAbiBytes expected)),
    (''constructorAbiHash'', JStr (aaConstructorAbiHash expected)),
    (''constructorArguments'', JStr (aaConstructorArguments expected)),
    (''constructorArgumentsHash'', JStr (aaConstructorArgumentsHash expected)),
    (''creationInput'', JStr (aaCreationInput expected)),
    (''creationInputHash'', JStr (aaCreationInputHash expected))]"

definition validateBuildBindings :: "stablePlan \<Rightarrow> approvedArtifact \<Rightarrow> js_error + unit" where
  "validateBuildBindings plan expected =
    eachE (\<lambda>(key, value). sameJson ''PLAN_BUILD_BINDING_MISMATCH'' (getP (spIdentity plan) key) value)
      (buildBindings expected)"

definition validateBuilderAgreement :: "approvedArtifact \<Rightarrow> approvedArtifact \<Rightarrow> js_error + unit" where
  "validateBuilderAgreement expected independent =
    sameJson ''BUILDER_VERIFICATION_MISMATCH'' (JObj Plain (approvedJson expected)) (JObj Plain (approvedJson independent))"

section \<open>Quotes\<close>

definition validateQuoteFreshness :: "feeQuote \<Rightarrow> trustRoots \<Rightarrow> int \<Rightarrow> js_error + unit" where
  "validateQuoteFreshness quote roots nowSeconds =
    (let observation = fqObservation quote in
    bindE (parseUint (JStr (qoBlockNumber observation)) True) (\<lambda>block.
    bindE (parseUint (JStr (qoCurrentHeadNumber observation)) True) (\<lambda>head.
    bindE (parseUint (JStr (qoFeeHistoryNewestBlock observation)) True) (\<lambda>newest.
    bindE (failIf (block > head \<or> newest \<noteq> block) (PlanErr ''QUOTE_HEAD_INVALID'')) (\<lambda>_.
    bindE (parseUint (JStr (trMaximumHeadLag roots)) True) (\<lambda>lag.
    bindE (failIf (head - block > lag) (PlanErr ''QUOTE_HEAD_INVALID'')) (\<lambda>_.
    bindE (failIf (block = head \<and> qoBlockHash observation \<noteq> qoCurrentHeadHash observation) (PlanErr ''REORGED_BLOCK'')) (\<lambda>_.
    bindE (parseUint (JStr (qoBlockTimestamp observation)) True) (\<lambda>blockTime.
    bindE (parseUint (JStr (qoObservedAt observation)) True) (\<lambda>observedAt.
    bindE (parseUint (JStr (trQuoteTtlSeconds roots)) False) (\<lambda>ttl.
    bindE (parseUint (JStr (fqExpiresAt quote)) True) (\<lambda>expires.
    bindE (checkedAdd observedAt ttl) (\<lambda>expectedExpires.
    bindE (failIf (expires \<noteq> expectedExpires) (PlanErr ''QUOTE_EXPIRY_FORGED'')) (\<lambda>_.
    failIf (nowSeconds \<ge> expires \<or> blockTime > observedAt \<or> observedAt > nowSeconds
        \<or> observedAt - blockTime > ttl) (PlanErr ''STALE_QUOTE'')))))))))))))))"

definition validateQuoteTotals :: "feeQuote \<Rightarrow> trustRoots \<Rightarrow> js_error + unit" where
  "validateQuoteTotals quote roots =
    bindE (quoteCosts (fqObservation quote) (fqBufferBps quote) roots) (\<lambda>totals.
    failIf (decInt (gasLimit totals) \<noteq> fqGasLimit quote \<or> decInt (effectiveFee totals) \<noteq> fqEffectiveFeePerGas quote
        \<or> decInt (estimatedWei totals) \<noteq> fqEstimatedWei quote \<or> decInt (worstCaseWei totals) \<noteq> fqWorstCaseWei quote)
      (PlanErr ''QUOTE_TOTALS_FORGED''))"

definition validateQuote :: "stablePlan \<Rightarrow> feeQuote \<Rightarrow> trustRoots \<Rightarrow> int \<Rightarrow> js_error + unit" where
  "validateQuote plan quote roots nowSeconds =
    bindE (failIf (fqPlanId quote \<noteq> spPlanId plan
        \<or> getP (spIdentity plan) ''creationInputHash'' \<noteq> JStr (fqCreationInputHash quote)) (PlanErr ''QUOTE_PLAN_MISMATCH'')) (\<lambda>_.
    bindE (parseUint (JStr (qoSenderNonce (fqObservation quote))) True) (\<lambda>nonce.
    bindE (deriveCreateAddress (trFrom roots) nonce) (\<lambda>address.
    bindE (failIf (qoExpectedCreateAddress (fqObservation quote) \<noteq> address) (PlanErr ''CREATE_ADDRESS_MISMATCH'')) (\<lambda>_.
    bindE (failIf (qoChainId (fqObservation quote) \<noteq> trChainId roots) (PlanErr ''WRONG_CHAIN'')) (\<lambda>_.
    bindE (failIf (fqBufferBps quote \<noteq> trGasBufferBps roots) (PlanErr ''QUOTE_BUFFER_MISMATCH'')) (\<lambda>_.
    bindE (validateQuoteFreshness quote roots nowSeconds) (\<lambda>_.
    validateQuoteTotals quote roots)))))))"

section \<open>READY marker and native evidence\<close>

definition validateReadyBinding :: "stablePlan \<Rightarrow> feeQuote \<Rightarrow> readyMarker \<Rightarrow> js_error + unit" where
  "validateReadyBinding plan quote ready =
    failIf (rmPlanId ready \<noteq> spPlanId plan \<or> rmCreationInputHash ready \<noteq> fqCreationInputHash quote)
      (PlanErr ''READY_BINDING_INVALID'')"

definition verifyReadyDigests :: "(nat list \<Rightarrow> string) \<Rightarrow> nat list \<Rightarrow> nat list \<Rightarrow> nat list \<Rightarrow> readyMarker \<Rightarrow> js_error + unit" where
  "verifyReadyDigests sha256 planBytes quoteBytes evidenceBytes ready =
    failIf (sha256Hex sha256 planBytes \<noteq> rmPlanSha256 ready \<or> sha256Hex sha256 quoteBytes \<noteq> rmQuoteSha256 ready
        \<or> sha256Hex sha256 evidenceBytes \<noteq> rmNativeEvidenceSha256 ready) (PlanErr ''READY_DIGEST_MISMATCH'')"

definition policyInvalid :: js_error where "policyInvalid = PlanErr ''NATIVE_EVIDENCE_POLICY_INVALID''"

definition exactNativePolicyObject :: "jsval \<Rightarrow> string list \<Rightarrow> js_error + jsrecord" where
  "exactNativePolicyObject value expectedKeys =
    bindE (objectOr ''NATIVE_EVIDENCE_POLICY_INVALID'' value) (\<lambda>r.
    bindE (failIf (sortText (map fst r) \<noteq> sortText expectedKeys) policyInvalid) (\<lambda>_. Inr r))"

definition isHashValue :: "jsval \<Rightarrow> bool" where
  "isHashValue v = (case v of JStr s \<Rightarrow> matchesHex 64 s | _ \<Rightarrow> False)"

text \<open>Neighbours of a list in strictly ascending order.\<close>

fun ascendingTexts :: "string list \<Rightarrow> bool" where
  "ascendingTexts (x # y # ys) = (x < y \<and> ascendingTexts (y # ys))"
| "ascendingTexts _ = True"

definition validateNativePolicyPlatform :: "jsval \<Rightarrow> string \<Rightarrow> js_error + unit" where
  "validateNativePolicyPlatform candidate strategy =
    bindE (exactNativePolicyObject candidate [''strategy'', ''tuples'']) (\<lambda>platform.
    case getP platform ''tuples'' of
      JArr _ xs \<Rightarrow>
        if getP platform ''strategy'' \<noteq> JStr strategy \<or> length xs < 1 \<or> length xs > 2 then Inl policyInvalid
        else bindE (mapE (\<lambda>v. exactNativePolicyObject v [''compilerPath'', ''compilerSha256'', ''executableSha256'']) xs) (\<lambda>tuples.
          bindE (mapE (\<lambda>t. planJson (JObj Plain t)) tuples) (\<lambda>serialized.
          let compilers = map (\<lambda>t. stringOf (getP t ''compilerPath'') @ ''|'' @ stringOf (getP t ''compilerSha256'')) tuples;
              compilerPath = (if strategy = ''verified-path'' then ''/usr/bin/cc'' else ''/usr/bin/x86_64-linux-gnu-gcc-13'')
          in failIf (list_ex (\<lambda>t. getP t ''compilerPath'' \<noteq> JStr compilerPath \<or> \<not> isHashValue (getP t ''compilerSha256'')
                  \<or> \<not> isHashValue (getP t ''executableSha256'')) tuples
              \<or> setSize serialized \<noteq> length serialized \<or> setSize compilers \<noteq> length compilers
              \<or> \<not> ascendingTexts serialized) policyInvalid))
    | _ \<Rightarrow> Inl policyInvalid)"

definition validateNativePolicy :: "jsval \<Rightarrow> js_error + jsrecord" where
  "validateNativePolicy value =
    bindE (exactNativePolicyObject value [''schemaVersion'', ''kind'', ''sourcePath'', ''sourceSha256'', ''compileProfile'', ''platforms'']) (\<lambda>policy.
    bindE (failIf (getP policy ''schemaVersion'' \<noteq> JNum 1 \<or> getP policy ''kind'' \<noteq> JStr ''native-no-replace-build-policy''
        \<or> getP policy ''sourcePath'' \<noteq> JStr ''tooling/deployment-plan/native/no-replace.c''
        \<or> getP policy ''sourceSha256'' \<noteq> JStr ''0xf3bd0279809e011933eb6ed92d55c2c7ee3bb28dedb2294ea47fe49a25483f09''
        \<or> getP policy ''compileProfile'' \<noteq> JStr ''c11-o2-werror-stdin-v1'') policyInvalid) (\<lambda>_.
    bindE (exactNativePolicyObject (getP policy ''platforms'') [''darwin-arm64'', ''linux-x64'']) (\<lambda>platforms.
    bindE (validateNativePolicyPlatform (getP platforms ''darwin-arm64'') ''verified-path'') (\<lambda>_.
    bindE (validateNativePolicyPlatform (getP platforms ''linux-x64'') ''snapshot-fd'') (\<lambda>_. Inr policy)))))"

definition nativeFields :: "nativeEvidence \<Rightarrow> jsrecord" where
  "nativeFields e = [(''platform'', JStr (nePlatform e)), (''sourcePath'', JStr (neSourcePath e)),
    (''sourceSha256'', JStr (neSourceSha256 e)), (''compileProfile'', JStr (neCompileProfile e)),
    (''compilerExecution'', JStr (neCompilerExecution e)), (''compilerPath'', JStr (neCompilerPath e)),
    (''compilerSha256'', JStr (neCompilerSha256 e)), (''executableSha256'', JStr (neExecutableSha256 e))]"

definition tupleOf :: "nativeEvidence \<Rightarrow> jsval \<Rightarrow> bool" where
  "tupleOf e t \<longleftrightarrow> (let r = theObj t in getP r ''compilerPath'' = JStr (neCompilerPath e)
     \<and> getP r ''compilerSha256'' = JStr (neCompilerSha256 e) \<and> getP r ''executableSha256'' = JStr (neExecutableSha256 e))"

text \<open>
  The platform of the evidence is one of the two keys of the policy by its type; for another name
  the code would fail reading \<open>strategy\<close> of \<open>undefined\<close>.
\<close>

definition verifyNativeNoReplaceEvidence :: "(nat list \<Rightarrow> string) \<Rightarrow> nativeEvidence \<Rightarrow> jsval \<Rightarrow> js_error + unit" where
  "verifyNativeNoReplaceEvidence sha256 evidence candidatePolicy =
    bindE (validateNativePolicy candidatePolicy) (\<lambda>policy.
    let platform = getP (theObj (getP policy ''platforms'')) (nePlatform evidence) in
    bindE (failIf (getP policy ''sourcePath'' \<noteq> JStr (neSourcePath evidence)
        \<or> getP policy ''sourceSha256'' \<noteq> JStr (neSourceSha256 evidence)
        \<or> getP policy ''compileProfile'' \<noteq> JStr (neCompileProfile evidence)) (PlanErr ''NATIVE_EVIDENCE_POLICY_MISMATCH'')) (\<lambda>_.
    bindE (failIf (platform = JUndef) (TypeErr ''strategy of undefined'')) (\<lambda>_.
    bindE (failIf (getP (theObj platform) ''strategy'' \<noteq> JStr (neCompilerExecution evidence))
        (PlanErr ''NATIVE_EVIDENCE_POLICY_MISMATCH'')) (\<lambda>_.
    bindE (failIf (\<not> list_ex (tupleOf evidence) (theArr (getP (theObj platform) ''tuples'')))
        (PlanErr ''NATIVE_EVIDENCE_TUPLE_UNAPPROVED'')) (\<lambda>_.
    bindE (planJson (JObj Plain (nativeFields evidence))) (\<lambda>json.
    failIf (sha256Hex sha256 (utf8 (''AGTMAI_NATIVE_NO_REPLACE_APPROVAL_V1'' @ [CHR 0x00]) @ utf8 json)
        \<noteq> neApprovalSha256 evidence) (PlanErr ''NATIVE_EVIDENCE_APPROVAL_FORGED'')))))))"

section \<open>The verification\<close>

record verificationRequest =
  vrPlan :: stablePlan
  vrQuote :: feeQuote
  vrRoots :: trustRoots
  vrExpected :: approvedArtifact
  vrArtifactInputs :: rawArtifactInputs
  vrReady :: readyMarker
  vrNowSeconds :: int
  vrNativeEvidence :: nativeEvidence
  vrNativePolicy :: jsval

definition independentlyVerify :: "(nat list \<Rightarrow> string) \<Rightarrow> jsonParser \<Rightarrow> verificationRequest \<Rightarrow> js_error + unit" where
  "independentlyVerify sha256 parse request =
    bindE (validateTrustRootSafety (vrRoots request)) (\<lambda>_.
    bindE (validatePlanSafety sha256 (vrPlan request)) (\<lambda>_.
    bindE (validatePlanTrust (vrPlan request) (vrRoots request)) (\<lambda>_.
    bindE (independentlyApproveRawArtifact sha256 parse (vrArtifactInputs request) (vrRoots request)) (\<lambda>independent.
    bindE (validateBuildBindings (vrPlan request) independent) (\<lambda>_.
    bindE (validateBuilderAgreement (vrExpected request) independent) (\<lambda>_.
    bindE (validateQuote (vrPlan request) (vrQuote request) (vrRoots request) (vrNowSeconds request)) (\<lambda>_.
    bindE (verifyNativeNoReplaceEvidence sha256 (vrNativeEvidence request) (vrNativePolicy request)) (\<lambda>_.
    validateReadyBinding (vrPlan request) (vrQuote request) (vrReady request)))))))))"

section \<open>What an accepted quote satisfies\<close>

definition uintText :: "string \<Rightarrow> int \<Rightarrow> bool" where
  "uintText s n \<longleftrightarrow> 0 \<le> n \<and> n \<le> PLAN_UINT256_MAX \<and> s = decInt n"

lemma parseUint_text: "parseUint (JStr s) True = Inr n \<longleftrightarrow> uintText s n"
  "parseUint (JStr s) False = Inr n \<longleftrightarrow> uintText s n \<and> n \<noteq> 0"
  by (auto simp: parseUint_JStr uintText_def)

lemma uintText_fun: "uintText s m \<Longrightarrow> uintText s n \<Longrightarrow> m = n"
  by (auto simp: uintText_def)

lemma uintText_decInt: "uintText (decInt m) n \<longleftrightarrow> 0 \<le> n \<and> n \<le> PLAN_UINT256_MAX \<and> m = n"
  by (auto simp: uintText_def)

definition freshAt :: "feeQuote \<Rightarrow> trustRoots \<Rightarrow> int \<Rightarrow> bool" where
  "freshAt quote roots now \<longleftrightarrow> (\<exists>block head lag time seen ttl.
     uintText (qoBlockNumber (fqObservation quote)) block \<and> uintText (qoFeeHistoryNewestBlock (fqObservation quote)) block
   \<and> uintText (qoCurrentHeadNumber (fqObservation quote)) head \<and> uintText (trMaximumHeadLag roots) lag
   \<and> uintText (qoBlockTimestamp (fqObservation quote)) time \<and> uintText (qoObservedAt (fqObservation quote)) seen
   \<and> uintText (trQuoteTtlSeconds roots) ttl \<and> ttl \<noteq> 0 \<and> uintText (fqExpiresAt quote) (seen + ttl)
   \<and> block \<le> head \<and> head - block \<le> lag
   \<and> (block \<noteq> head \<or> qoBlockHash (fqObservation quote) = qoCurrentHeadHash (fqObservation quote))
   \<and> time \<le> seen \<and> seen - time \<le> ttl \<and> seen \<le> now \<and> now < seen + ttl)"

definition pricedBy :: "feeQuote \<Rightarrow> trustRoots \<Rightarrow> costInput \<Rightarrow> costResult \<Rightarrow> bool" where
  "pricedBy quote roots i r \<longleftrightarrow>
     uintText (qoGasEstimate (fqObservation quote)) (gasEstimate i) \<and> uintText (fqBufferBps quote) (bufferBps i)
   \<and> uintText (qoBaseFeePerGas (fqObservation quote)) (baseFeePerGas i)
   \<and> uintText (qoMaxPriorityFeePerGas (fqObservation quote)) (maxPriorityFeePerGas i)
   \<and> uintText (qoMaxFeePerGas (fqObservation quote)) (maxFeePerGas i) \<and> costValue i = 0
   \<and> uintText (qoBlockGasLimit (fqObservation quote)) (blockGasLimit i)
   \<and> uintText (trMaximumWorstCaseWei roots) (maximumWorstCaseWei i) \<and> costOk i r
   \<and> fqGasLimit quote = decInt (gasLimit r) \<and> fqEffectiveFeePerGas quote = decInt (effectiveFee r)
   \<and> fqEstimatedWei quote = decInt (estimatedWei r) \<and> fqWorstCaseWei quote = decInt (worstCaseWei r)"

definition quoteSpec :: "stablePlan \<Rightarrow> feeQuote \<Rightarrow> trustRoots \<Rightarrow> int \<Rightarrow> bool" where
  "quoteSpec plan quote roots now \<longleftrightarrow>
     fqPlanId quote = spPlanId plan \<and> getP (spIdentity plan) ''creationInputHash'' = JStr (fqCreationInputHash quote)
   \<and> (\<exists>nonce. uintText (qoSenderNonce (fqObservation quote)) nonce
        \<and> deriveCreateAddress (trFrom roots) nonce = Inr (qoExpectedCreateAddress (fqObservation quote)))
   \<and> qoChainId (fqObservation quote) = trChainId roots \<and> fqBufferBps quote = trGasBufferBps roots
   \<and> freshAt quote roots now \<and> (\<exists>i r. pricedBy quote roots i r)"

lemma freshness_exact: "validateQuoteFreshness quote roots now = Inr u \<longleftrightarrow> freshAt quote roots now"
proof
  assume "validateQuoteFreshness quote roots now = Inr u"
  then obtain block head lag time seen ttl where
      "uintText (qoBlockNumber (fqObservation quote)) block" "uintText (qoFeeHistoryNewestBlock (fqObservation quote)) block"
      "uintText (qoCurrentHeadNumber (fqObservation quote)) head" "uintText (trMaximumHeadLag roots) lag"
      "uintText (qoBlockTimestamp (fqObservation quote)) time" "uintText (qoObservedAt (fqObservation quote)) seen"
      "uintText (trQuoteTtlSeconds roots) ttl" "ttl \<noteq> 0" "uintText (fqExpiresAt quote) (seen + ttl)"
      "block \<le> head" "head - block \<le> lag"
      "block \<noteq> head \<or> qoBlockHash (fqObservation quote) = qoCurrentHeadHash (fqObservation quote)"
      "time \<le> seen" "seen - time \<le> ttl" "seen \<le> now" "now < seen + ttl"
    unfolding validateQuoteFreshness_def Let_def bindE_Inr_iff parseUint_text checkedAdd_Inr failIf_Inr_iff
    by (auto simp: not_less not_le)
  then show "freshAt quote roots now"
    unfolding freshAt_def
    by (intro exI[of _ block] exI[of _ head] exI[of _ lag] exI[of _ time] exI[of _ seen] exI[of _ ttl] conjI)
next
  assume "freshAt quote roots now"
  then obtain block head lag time seen ttl where f:
      "uintText (qoBlockNumber (fqObservation quote)) block" "uintText (qoFeeHistoryNewestBlock (fqObservation quote)) block"
      "uintText (qoCurrentHeadNumber (fqObservation quote)) head" "uintText (trMaximumHeadLag roots) lag"
      "uintText (qoBlockTimestamp (fqObservation quote)) time" "uintText (qoObservedAt (fqObservation quote)) seen"
      "uintText (trQuoteTtlSeconds roots) ttl" "ttl \<noteq> 0" "uintText (fqExpiresAt quote) (seen + ttl)"
      "block \<le> head" "head - block \<le> lag"
      "block \<noteq> head \<or> qoBlockHash (fqObservation quote) = qoCurrentHeadHash (fqObservation quote)"
      "time \<le> seen" "seen - time \<le> ttl" "seen \<le> now" "now < seen + ttl"
    unfolding freshAt_def by blast
  have p: "parseUint (JStr s) True = Inr n" if "uintText s n" for s n using that by (simp add: parseUint_text)
  have q: "parseUint (JStr (trQuoteTtlSeconds roots)) False = Inr ttl" using f by (simp add: parseUint_text)
  have "checkedAdd seen ttl = Inr (seen + ttl)"
    using f by (auto simp: checkedAdd_Inr uintText_def)
  then show "validateQuoteFreshness quote roots now = Inr u"
    using f(10-16) by (auto simp: validateQuoteFreshness_def p[OF f(1)] p[OF f(2)] p[OF f(3)] p[OF f(4)] p[OF f(5)]
      p[OF f(6)] p[OF f(9)] q failIf_def)
qed

lemma totals_exact: "validateQuoteTotals quote roots = Inr u \<longleftrightarrow> (\<exists>i r. pricedBy quote roots i r)"
proof
  assume "validateQuoteTotals quote roots = Inr u"
  then obtain r gas bps base priority maxFee blockLimit cap where
      t: "uintText (qoGasEstimate (fqObservation quote)) gas" "uintText (fqBufferBps quote) bps"
        "uintText (qoBaseFeePerGas (fqObservation quote)) base" "uintText (qoMaxPriorityFeePerGas (fqObservation quote)) priority"
        "uintText (qoMaxFeePerGas (fqObservation quote)) maxFee" "uintText (qoBlockGasLimit (fqObservation quote)) blockLimit"
        "uintText (trMaximumWorstCaseWei roots) cap"
      and c: "costOk \<lparr>gasEstimate = gas, bufferBps = bps, baseFeePerGas = base, maxPriorityFeePerGas = priority,
        maxFeePerGas = maxFee, costValue = 0, blockGasLimit = blockLimit, maximumWorstCaseWei = cap\<rparr> r"
      and o: "fqGasLimit quote = decInt (gasLimit r)" "fqEffectiveFeePerGas quote = decInt (effectiveFee r)"
        "fqEstimatedWei quote = decInt (estimatedWei r)" "fqWorstCaseWei quote = decInt (worstCaseWei r)"
    unfolding validateQuoteTotals_def quoteCosts_def bindE_Inr_iff parseUint_text calculateCosts_contract failIf_Inr_iff
    by auto
  then have "pricedBy quote roots \<lparr>gasEstimate = gas, bufferBps = bps, baseFeePerGas = base, maxPriorityFeePerGas = priority,
        maxFeePerGas = maxFee, costValue = 0, blockGasLimit = blockLimit, maximumWorstCaseWei = cap\<rparr> r"
    by (simp add: pricedBy_def)
  then show "\<exists>i r. pricedBy quote roots i r" by blast
next
  assume "\<exists>i r. pricedBy quote roots i r"
  then obtain i r where p: "pricedBy quote roots i r" by blast
  have i: "i = \<lparr>gasEstimate = gasEstimate i, bufferBps = bufferBps i, baseFeePerGas = baseFeePerGas i,
      maxPriorityFeePerGas = maxPriorityFeePerGas i, maxFeePerGas = maxFeePerGas i, costValue = 0,
      blockGasLimit = blockGasLimit i, maximumWorstCaseWei = maximumWorstCaseWei i\<rparr>"
    using p by (cases i) (simp add: pricedBy_def)
  have pos: "0 < gasEstimate i" "gasLimit r \<le> blockGasLimit i" "gasEstimate i \<le> gasLimit r"
  proof -
    from p have ok: "costOk i r" by (simp add: pricedBy_def)
    then show "0 < gasEstimate i" "gasLimit r \<le> blockGasLimit i" by (simp_all add: costOk_def)
    show "gasEstimate i \<le> gasLimit r"
      by (rule buffered_above[of _ "bufferBps i"]) (use ok in \<open>auto simp: costOk_def costEntries_def inUint256_def\<close>)
  qed
  then have "gasEstimate i \<noteq> 0" "blockGasLimit i \<noteq> 0" by auto
  with p have t: "parseUint (JStr (qoGasEstimate (fqObservation quote))) False = Inr (gasEstimate i)"
      "parseUint (JStr (fqBufferBps quote)) True = Inr (bufferBps i)"
      "parseUint (JStr (qoBaseFeePerGas (fqObservation quote))) True = Inr (baseFeePerGas i)"
      "parseUint (JStr (qoMaxPriorityFeePerGas (fqObservation quote))) True = Inr (maxPriorityFeePerGas i)"
      "parseUint (JStr (qoMaxFeePerGas (fqObservation quote))) True = Inr (maxFeePerGas i)"
      "parseUint (JStr (qoBlockGasLimit (fqObservation quote))) False = Inr (blockGasLimit i)"
      "parseUint (JStr (trMaximumWorstCaseWei roots)) True = Inr (maximumWorstCaseWei i)"
      "calculateCosts i = Inr r"
    by (simp_all add: pricedBy_def parseUint_text calculateCosts_contract)
  have "quoteCosts (fqObservation quote) (fqBufferBps quote) roots = Inr r"
    unfolding quoteCosts_def t bindE.simps i[symmetric] ..
  with p show "validateQuoteTotals quote roots = Inr u"
    by (simp add: validateQuoteTotals_def pricedBy_def failIf_def)
qed

lemma validateQuote_spec: "validateQuote plan quote roots now = Inr u \<longleftrightarrow> quoteSpec plan quote roots now"
  unfolding validateQuote_def bindE_Inr_iff freshness_exact totals_exact parseUint_text failIf_Inr_iff quoteSpec_def
  by auto

text \<open>A quote between its observation and its expiry.\<close>

definition liveAt :: "feeQuote \<Rightarrow> int \<Rightarrow> bool" where
  "liveAt quote now \<longleftrightarrow> (\<exists>seen expires. uintText (qoObservedAt (fqObservation quote)) seen
     \<and> uintText (fqExpiresAt quote) expires \<and> seen \<le> now \<and> now < expires)"

lemma built_quote_valid:
  assumes b: "buildFeeQuote plan observation roots = Inr quote"
    and h: "getP (spIdentity plan) ''creationInputHash'' = JStr h" and live: "liveAt quote now"
  shows "validateQuote plan quote roots now = Inr ()"
proof -
  from b obtain nonce ts costs where
      q: "qoChainId observation = trChainId roots" "uintText (qoSenderNonce observation) nonce"
        "deriveCreateAddress (trFrom roots) nonce = Inr (qoExpectedCreateAddress observation)"
      and t: "parseQuoteTimes observation roots = Inr ts" "validateQuoteBinding observation roots ts = Inr ()"
      and c: "quoteCosts observation (trGasBufferBps roots) roots = Inr costs"
      and e: "checkedAdd (qtObservedAt ts) (qtTtl ts) = Inr (qtObservedAt ts + qtTtl ts)"
      and quote: "quote = \<lparr>fqPlanId = spPlanId plan, fqCreationInputHash = stringOf (getP (spIdentity plan) ''creationInputHash''),
      fqObservation = observation, fqBufferBps = trGasBufferBps roots, fqGasLimit = decInt (gasLimit costs),
      fqEffectiveFeePerGas = decInt (effectiveFee costs), fqEstimatedWei = decInt (estimatedWei costs),
      fqWorstCaseWei = decInt (worstCaseWei costs), fqExpiresAt = decInt (qtObservedAt ts + qtTtl ts)\<rparr>"
    unfolding buildFeeQuote_def bindE_Inr_iff parseUint_text failIf_Inr_iff by (auto simp: checkedAdd_Inr)
  from t(1) have ts: "uintText (qoBlockNumber observation) (qtBlock ts)" "uintText (qoCurrentHeadNumber observation) (qtHead ts)"
      "uintText (qoFeeHistoryNewestBlock observation) (qtNewest ts)" "uintText (qoBlockTimestamp observation) (qtTimestamp ts)"
      "uintText (qoObservedAt observation) (qtObservedAt ts)" "uintText (trQuoteTtlSeconds roots) (qtTtl ts)" "qtTtl ts \<noteq> 0"
    unfolding parseQuoteTimes_def bindE_Inr_iff parseUint_text by auto
  from t(2) obtain lag where bind: "qtBlock ts \<le> qtHead ts" "uintText (trMaximumHeadLag roots) lag"
      "qtHead ts - qtBlock ts \<le> lag" "qtNewest ts = qtBlock ts" "qtTimestamp ts \<le> qtObservedAt ts"
      "qtObservedAt ts - qtTimestamp ts \<le> qtTtl ts"
      "qtBlock ts \<noteq> qtHead ts \<or> qoBlockHash observation = qoCurrentHeadHash observation"
    unfolding validateQuoteBinding_def validateBlockHashes_def bindE_Inr_iff parseUint_text failIf_Inr_iff
    by (auto simp: not_less)
  from live have now: "qtObservedAt ts \<le> now" "now < qtObservedAt ts + qtTtl ts"
    using ts(5) by (auto simp: liveAt_def quote uintText_decInt dest: uintText_fun)
  have "uintText (decInt (qtObservedAt ts + qtTtl ts)) (qtObservedAt ts + qtTtl ts)"
    using e by (simp add: uintText_decInt checkedAdd_Inr)
  then have "freshAt quote roots now"
    unfolding freshAt_def quote feeQuote.select_convs using ts bind now by metis
  moreover have "validateQuoteTotals quote roots = Inr ()"
    using c by (simp add: validateQuoteTotals_def quote)
  ultimately show ?thesis
    unfolding validateQuote_spec quoteSpec_def totals_exact using q by (auto simp: quote h)
qed

section \<open>Built plans are accepted\<close>

declare planJson.simps(6,7) [simp del]

lemma built_plan:
  assumes "buildStablePlan sha256 a roots = Inr plan"
  shows "validateTrustRootSafety roots = Inr ()" "spIdentity plan = planIdentity a roots"
    "computePlanId sha256 (planIdentity a roots) = Inr (spPlanId plan)"
    "spSchemaVersion plan = 2" "spKind plan = ''deployment-plan''" "\<not> spBroadcastAllowed plan" "spTestOnly plan"
    "\<not> spProductionApproved plan" "\<not> spMainnetAllowed plan"
proof -
  from assms obtain i where p: "validateTrustRootSafety roots = Inr ()" "computePlanId sha256 (planIdentity a roots) = Inr i"
      "plan = \<lparr>spSchemaVersion = 2, spKind = ''deployment-plan'', spPlanId = i,
        spIdentity = planIdentity a roots, spBroadcastAllowed = False, spTestOnly = True,
        spProductionApproved = False, spMainnetAllowed = False\<rparr>"
    unfolding buildStablePlan_def bindE_Inr_iff by auto
  show "validateTrustRootSafety roots = Inr ()" by (rule p(1))
  show "spIdentity plan = planIdentity a roots" "computePlanId sha256 (planIdentity a roots) = Inr (spPlanId plan)"
    "spSchemaVersion plan = 2" "spKind plan = ''deployment-plan''" "\<not> spBroadcastAllowed plan" "spTestOnly plan"
    "\<not> spProductionApproved plan" "\<not> spMainnetAllowed plan"
    unfolding p(3) stablePlan.select_convs by (rule refl p(2) TrueI not_False_eq_True[THEN iffD2] notI | assumption)+
qed

lemma mapE_total: "(\<And>x. x \<in> set xs \<Longrightarrow> \<exists>y. f x = Inr y) \<Longrightarrow> \<exists>ys. mapE f xs = Inr ys"
proof (induction xs)
  case Nil
  then show ?case by simp
next
  case (Cons x xs)
  obtain y where "f x = Inr y" using Cons.prems[of x] by auto
  moreover obtain ys where "mapE f xs = Inr ys" using Cons by auto
  ultimately show ?case by simp
qed

lemma planJson_object_total:
  assumes "\<And>kv. kv \<in> set r \<Longrightarrow> \<exists>t. planJson (snd kv) = Inr t"
  shows "\<exists>t. planJson (JObj sh r) = Inr t"
proof -
  have "\<exists>ts. mapE (\<lambda>kv. bindE (planJson (snd kv)) (\<lambda>t. Inr (jsonQuote (fst kv) @ CHR '':'' # t)))
      (toSorted compareEntries r) = Inr ts"
    by (rule mapE_total) (use assms in force)
  then show ?thesis by (auto simp: planJson.simps)
qed

lemma bindings_text: "kv \<in> set (approvedJson a) \<Longrightarrow>
    (\<exists>s. snd kv = JStr s) \<or> snd kv = JObj Plain (aaSourceDependencyClosure a) \<or> snd kv = JObj Plain (aaCompilerSettings a)"
  by (auto simp: approvedJson_def)

lemma bound_total:
  assumes "boundToRoots sha256 inputs roots a"
  shows "\<exists>t. planJson (JObj Plain (aaSourceDependencyClosure a)) = Inr t"
    "\<exists>t. planJson (JObj Plain (aaCompilerSettings a)) = Inr t"
  using assms unfolding boundToRoots_def by blast+

lemma bound_roots:
  assumes "boundToRoots sha256 inputs roots a"
  shows "aaArtifactSha256 a = trArtifactSha256 roots" "aaAbiSha256 a = trAbiSha256 roots"
    "aaFixtureSha256 a = trFixtureSha256 roots" "aaCanonicalBuildInfoSha256 a = trCanonicalBuildInfoSha256 roots"
    "aaCompilerInputSha256 a = trCompilerInputSha256 roots" "aaBuildInfoSolcVersion a = trBuildInfoSolcVersion roots"
    "aaConstructorArgumentsHash a = trConstructorArgumentsHash roots" "aaCreationInputHash a = trCreationInputHash roots"
    "\<exists>t. planJson (JObj Plain (aaCompilerSettings a)) = Inr t \<and> planJson (JObj Plain (trCompilerSettings roots)) = Inr t"
    "\<exists>t. planJson (JObj Plain (aaSourceDependencyClosure a)) = Inr t
      \<and> planJson (JObj Plain (trSourceDependencyClosure roots)) = Inr t"
  using assms unfolding boundToRoots_def by blast+

lemma approvedJson_total:
  assumes "boundToRoots sha256 inputs roots a"
  shows "\<exists>t. planJson (JObj Plain (approvedJson a)) = Inr t"
proof (rule planJson_object_total)
  fix kv assume "kv \<in> set (approvedJson a)"
  from bindings_text[OF this] bound_total[OF assms] show "\<exists>t. planJson (snd kv) = Inr t"
    by (elim disjE exE) simp_all
qed

lemma identity_lookup:
  "getP (planIdentity a roots) ''capPolicy'' =
     JObj Plain [(''maximumWorstCaseWei'', JStr (trMaximumWorstCaseWei roots)), (''testOnly'', JBool True)]"
  "getP (planIdentity a roots) ''creationInputHash'' = JStr (aaCreationInputHash a)"
  "getP (planIdentity a roots) ''sourceDependencyClosure'' = JObj Plain (aaSourceDependencyClosure a)"
  "getP (planIdentity a roots) ''compilerSettings'' = JObj Plain (aaCompilerSettings a)"
  "getP (planIdentity a roots) ''broadcastAllowed'' = JBool False"
  by (simp_all add: planIdentity_def getP_def)

lemma built_plan_trusted:
  assumes "boundToRoots sha256 inputs roots a" "spIdentity plan = planIdentity a roots"
  shows "validatePlanTrust plan roots = Inr ()"
proof -
  have "identityMatches (planIdentity a roots) [(''chainId'', trChainId roots), (''from'', trFrom roots), (''value'', ''0''),
        (''contractFqn'', trContractFqn roots), (''buildProfile'', trBuildProfile roots),
        (''canonicalBuildInfoSha256'', trCanonicalBuildInfoSha256 roots)]"
    "identityMatches (planIdentity a roots) [(''buildInfoSolcVersion'', trBuildInfoSolcVersion roots)]"
    "identityMatches (planIdentity a roots) [(''artifactSha256'', trArtifactSha256 roots), (''abiSha256'', trAbiSha256 roots),
        (''fixtureSha256'', trFixtureSha256 roots), (''fixtureReadySha256'', trFixtureReadySha256 roots),
        (''compilerInputSha256'', trCompilerInputSha256 roots),
        (''constructorArgumentsHash'', trConstructorArgumentsHash roots),
        (''creationInputHash'', trCreationInputHash roots)]"
    by (simp_all add: identityMatches_def planIdentity_def getP_def bound_roots[OF assms(1)])
  moreover have "sameJson c (JObj Plain (aaSourceDependencyClosure a)) (JObj Plain (trSourceDependencyClosure roots)) = Inr ()"
      "sameJson c (JObj Plain (aaCompilerSettings a)) (JObj Plain (trCompilerSettings roots)) = Inr ()" for c
    by (simp_all add: sameJson_Inr bound_roots(9,10)[OF assms(1)])
  moreover have "validateCapPolicy (getP (planIdentity a roots) ''capPolicy'') roots = Inr ()"
    unfolding identity_lookup validateCapPolicy_def by (simp add: objectOr_def getP_def)
  ultimately show ?thesis
    unfolding validatePlanTrust_def Let_def assms(2) identity_lookup by simp
qed

lemma built_plan_bound:
  assumes "boundToRoots sha256 inputs roots a" "spIdentity plan = planIdentity a roots"
  shows "validateBuildBindings plan a = Inr ()"
proof -
  have same: "sameJson c v v = Inr ()" if "\<exists>t. planJson v = Inr t" for c v
    using that by (simp add: sameJson_Inr)
  have ok: "\<exists>t. planJson (JObj Plain (aaSourceDependencyClosure a)) = Inr t"
      "\<exists>t. planJson (JObj Plain (aaCompilerSettings a)) = Inr t" "\<exists>t. planJson (JStr s) = Inr t" for s
    using bound_total[OF assms(1)] by simp_all
  have "list_all (\<lambda>(k, v). getP (planIdentity a roots) k = v) (buildBindings a)"
    by (simp add: buildBindings_def planIdentity_def getP_def)
  moreover have "list_all (\<lambda>(k, v). \<exists>t. planJson v = Inr t) (buildBindings a)"
    unfolding buildBindings_def list.pred_inject case_prod_conv by (intro conjI ok list.pred_inject(1))
  ultimately have look: "getP (planIdentity a roots) k = v \<and> (\<exists>t. planJson v = Inr t)"
    if "(k, v) \<in> set (buildBindings a)" for k v
    using that unfolding list_all_iff by (simp add: case_prod_unfold) (metis fst_conv snd_conv)
  show ?thesis
    unfolding validateBuildBindings_def eachE_Inr_iff assms(2)
  proof (intro ballI, clarsimp)
    fix k v assume "(k, v) \<in> set (buildBindings a)"
    from look[OF this] show "sameJson ''PLAN_BUILD_BINDING_MISMATCH'' (getP (planIdentity a roots) k) v = Inr ()"
      using same by simp
  qed
qed

definition builtRequest :: "(nat list \<Rightarrow> string) \<Rightarrow> jsonParser \<Rightarrow> verificationRequest \<Rightarrow> bool" where
  "builtRequest sha256 parse request \<longleftrightarrow>
     independentlyApproveRawArtifact sha256 parse (vrArtifactInputs request) (vrRoots request) = Inr (vrExpected request)
   \<and> buildStablePlan sha256 (vrExpected request) (vrRoots request) = Inr (vrPlan request)
   \<and> buildFeeQuote (vrPlan request) (fqObservation (vrQuote request)) (vrRoots request) = Inr (vrQuote request)
   \<and> rmPlanId (vrReady request) = spPlanId (vrPlan request)
   \<and> rmCreationInputHash (vrReady request) = fqCreationInputHash (vrQuote request)
   \<and> verifyNativeNoReplaceEvidence sha256 (vrNativeEvidence request) (vrNativePolicy request) = Inr ()"

lemma built_accepted:
  assumes b: "builtRequest sha256 parse request" and live: "liveAt (vrQuote request) (vrNowSeconds request)"
  shows "independentlyVerify sha256 parse request = Inr ()"
proof -
  let ?roots = "vrRoots request" and ?plan = "vrPlan request" and ?a = "vrExpected request"
  from b have bound: "boundToRoots sha256 (vrArtifactInputs request) ?roots ?a"
    by (auto simp: builtRequest_def intro: approval_bound)
  from b have native: "verifyNativeNoReplaceEvidence sha256 (vrNativeEvidence request) (vrNativePolicy request) = Inr ()"
    by (simp add: builtRequest_def)
  from b have plan: "validateTrustRootSafety ?roots = Inr ()" "spIdentity ?plan = planIdentity ?a ?roots"
      "computePlanId sha256 (planIdentity ?a ?roots) = Inr (spPlanId ?plan)"
      "spSchemaVersion ?plan = 2" "spKind ?plan = ''deployment-plan''" "\<not> spBroadcastAllowed ?plan" "spTestOnly ?plan"
      "\<not> spProductionApproved ?plan" "\<not> spMainnetAllowed ?plan"
    using built_plan[OF b[unfolded builtRequest_def, THEN conjunct2, THEN conjunct1]] by blast+
  then have safe: "validatePlanSafety sha256 ?plan = Inr ()"
    by (simp add: validatePlanSafety_def failIf_def)
  have "getP (spIdentity ?plan) ''creationInputHash'' = JStr (aaCreationInputHash ?a)"
    unfolding plan(2) by (rule identity_lookup)
  then have "validateQuote ?plan (vrQuote request) ?roots (vrNowSeconds request) = Inr ()"
    using b live by (intro built_quote_valid) (auto simp: builtRequest_def)
  moreover have "validateBuilderAgreement ?a ?a = Inr ()"
    using approvedJson_total[OF bound] by (simp add: validateBuilderAgreement_def sameJson_Inr)
  moreover have "validateReadyBinding ?plan (vrQuote request) (vrReady request) = Inr ()"
    using b by (simp add: builtRequest_def validateReadyBinding_def)
  ultimately show ?thesis
    unfolding independentlyVerify_def plan(1) safe built_plan_trusted[OF bound plan(2)]
      b[unfolded builtRequest_def, THEN conjunct1] native by (simp add: built_plan_bound[OF bound plan(2)])
qed

section \<open>Accepted plans are the built ones\<close>

definition capOk :: "jsval \<Rightarrow> trustRoots \<Rightarrow> bool" where
  "capOk v roots \<longleftrightarrow> (\<exists>sh r. v = JObj sh r \<and> getP r ''maximumWorstCaseWei'' = JStr (trMaximumWorstCaseWei roots)
     \<and> getP r ''testOnly'' = JBool True)"

text \<open>
  A plan agrees with the one built from an approval: every member the builder writes has the same
  canonical text, and the cap policy the same two members.
\<close>

definition agreesWithBuilt :: "jsrecord \<Rightarrow> approvedArtifact \<Rightarrow> trustRoots \<Rightarrow> bool" where
  "agreesWithBuilt identity a roots \<longleftrightarrow> capOk (getP identity ''capPolicy'') roots
     \<and> list_all (\<lambda>(k, v). k = ''capPolicy'' \<or> planJson (getP identity k) = planJson v) (planIdentity a roots)"

lemma accepted_plan:
  assumes "independentlyVerify sha256 parse request = Inr ()"
  shows "\<exists>a. independentlyApproveRawArtifact sha256 parse (vrArtifactInputs request) (vrRoots request) = Inr a
    \<and> boundToRoots sha256 (vrArtifactInputs request) (vrRoots request) a
    \<and> agreesWithBuilt (spIdentity (vrPlan request)) a (vrRoots request)
    \<and> computePlanId sha256 (spIdentity (vrPlan request)) = Inr (spPlanId (vrPlan request))
    \<and> quoteSpec (vrPlan request) (vrQuote request) (vrRoots request) (vrNowSeconds request)
    \<and> rmPlanId (vrReady request) = spPlanId (vrPlan request)
    \<and> \<not> spBroadcastAllowed (vrPlan request) \<and> \<not> spMainnetAllowed (vrPlan request)"
proof -
  let ?roots = "vrRoots request" and ?plan = "vrPlan request"
  from assms obtain a where
      s: "validatePlanSafety sha256 ?plan = Inr ()" "validatePlanTrust ?plan ?roots = Inr ()"
      and a: "independentlyApproveRawArtifact sha256 parse (vrArtifactInputs request) ?roots = Inr a"
      and b: "validateBuildBindings ?plan a = Inr ()"
      and q: "validateQuote ?plan (vrQuote request) ?roots (vrNowSeconds request) = Inr ()"
      and r: "validateReadyBinding ?plan (vrQuote request) (vrReady request) = Inr ()"
    unfolding independentlyVerify_def bindE_Inr_iff by auto
  note bound = approval_bound[OF a]
  let ?id = "spIdentity ?plan"
  from s(2) have t: "identityMatches ?id [(''chainId'', trChainId ?roots), (''from'', trFrom ?roots), (''value'', ''0''),
        (''contractFqn'', trContractFqn ?roots), (''buildProfile'', trBuildProfile ?roots),
        (''canonicalBuildInfoSha256'', trCanonicalBuildInfoSha256 ?roots)]"
      "getP ?id ''broadcastAllowed'' = JBool False"
      "validateCapPolicy (getP ?id ''capPolicy'') ?roots = Inr ()"
      "identityMatches ?id [(''artifactSha256'', trArtifactSha256 ?roots), (''abiSha256'', trAbiSha256 ?roots),
        (''fixtureSha256'', trFixtureSha256 ?roots), (''fixtureReadySha256'', trFixtureReadySha256 ?roots),
        (''compilerInputSha256'', trCompilerInputSha256 ?roots),
        (''constructorArgumentsHash'', trConstructorArgumentsHash ?roots),
        (''creationInputHash'', trCreationInputHash ?roots)]"
    unfolding validatePlanTrust_def Let_def bindE_Inr_iff failIf_Inr_iff by auto
  have "\<forall>(k, v)\<in>set (buildBindings a). sameJson ''PLAN_BUILD_BINDING_MISMATCH'' (getP ?id k) v = Inr ()"
    using b unfolding validateBuildBindings_def eachE_Inr_iff by (simp add: case_prod_unfold)
  then have m: "list_all (\<lambda>(k, v). planJson (getP ?id k) = planJson v) (buildBindings a)"
    unfolding list_all_iff sameJson_Inr by fastforce
  note same = bound_roots[OF bound]
  note t' = t(1,4)[unfolded identityMatches_def list.pred_inject case_prod_conv]
  have agree: "list_all (\<lambda>(k, v). k = ''capPolicy'' \<or> planJson (getP ?id k) = planJson v) (planIdentity a ?roots)"
    unfolding planIdentity_def list.pred_inject case_prod_conv
    by (simp only: m[unfolded buildBindings_def list.pred_inject case_prod_conv] t' t(2)
        same(1-8) simp_thms list.pred_inject(1))
  moreover have "capOk (getP ?id ''capPolicy'') ?roots"
    using t(3) by (auto simp: validateCapPolicy_def bindE_Inr_iff capOk_def)
  moreover have "computePlanId sha256 ?id = Inr (spPlanId ?plan)" "\<not> spBroadcastAllowed ?plan" "\<not> spMainnetAllowed ?plan"
    using s(1) unfolding validatePlanSafety_def bindE_Inr_iff by auto
  ultimately show ?thesis
    using a bound q r by (auto simp: agreesWithBuilt_def validateQuote_spec validateReadyBinding_def)
qed

section \<open>Properties\<close>

text \<open>
  C33. The verifier's quote check is exact: a quote is accepted at a time for exactly the plans and
  roots for which \<open>quoteSpec\<close> holds, that is when it names the plan, its CREATE address, chain and
  buffer, is observed no later and expires no earlier than the time with the age and head lag the
  roots allow, and its totals are the costs of its own observation.
\<close>

theorem validateQuote_exact: "validateQuote plan quote roots now = Inr u \<longleftrightarrow> quoteSpec plan quote roots now"
  by (rule validateQuote_spec)

text \<open>
  C11. Builder and verifier agree: a plan and a quote that the builder makes from an independently
  approved artifact, with a bound READY marker and accepted native evidence, pass the whole
  independent verification at every time from the observation until before the expiry.
\<close>

theorem independentlyVerify_accepts_built:
  assumes "builtRequest sha256 parse request" "liveAt (vrQuote request) (vrNowSeconds request)"
  shows "independentlyVerify sha256 parse request = Inr ()"
  using assms by (rule built_accepted)

text \<open>
  C10. Nothing else is accepted: an accepted request has raw inputs that the trust roots pin, a plan
  that agrees with the one built from them in every member, whose id is computed from it and
  which allows no broadcast, and a quote that satisfies the specification.
\<close>

theorem independentlyVerify_sound:
  assumes "independentlyVerify sha256 parse request = Inr ()"
  shows "\<exists>a. independentlyApproveRawArtifact sha256 parse (vrArtifactInputs request) (vrRoots request) = Inr a
    \<and> boundToRoots sha256 (vrArtifactInputs request) (vrRoots request) a
    \<and> agreesWithBuilt (spIdentity (vrPlan request)) a (vrRoots request)
    \<and> computePlanId sha256 (spIdentity (vrPlan request)) = Inr (spPlanId (vrPlan request))
    \<and> quoteSpec (vrPlan request) (vrQuote request) (vrRoots request) (vrNowSeconds request)
    \<and> rmPlanId (vrReady request) = spPlanId (vrPlan request)
    \<and> \<not> spBroadcastAllowed (vrPlan request) \<and> \<not> spMainnetAllowed (vrPlan request)"
  using assms by (rule accepted_plan)

section \<open>A sample\<close>

definition samplePolicy :: jsval where
  "samplePolicy = (let tuple = (\<lambda>path. JObj Plain [(''compilerPath'', JStr path), (''compilerSha256'', JStr sampleHash),
       (''executableSha256'', JStr sampleHash)]);
     platform = (\<lambda>strategy path. JObj Plain [(''strategy'', JStr strategy), (''tuples'', JArr Plain [tuple path])])
   in JObj Plain [(''schemaVersion'', JNum 1), (''kind'', JStr ''native-no-replace-build-policy''),
     (''sourcePath'', JStr ''tooling/deployment-plan/native/no-replace.c''),
     (''sourceSha256'', JStr ''0xf3bd0279809e011933eb6ed92d55c2c7ee3bb28dedb2294ea47fe49a25483f09''),
     (''compileProfile'', JStr ''c11-o2-werror-stdin-v1''),
     (''platforms'', JObj Plain [(''darwin-arm64'', platform ''verified-path'' ''/usr/bin/cc''),
        (''linux-x64'', platform ''snapshot-fd'' ''/usr/bin/x86_64-linux-gnu-gcc-13'')])])"

definition sampleEvidence :: nativeEvidence where
  "sampleEvidence = \<lparr>nePlatform = ''linux-x64'', neSourcePath = ''tooling/deployment-plan/native/no-replace.c'',
     neSourceSha256 = ''0xf3bd0279809e011933eb6ed92d55c2c7ee3bb28dedb2294ea47fe49a25483f09'',
     neCompileProfile = ''c11-o2-werror-stdin-v1'', neCompilerExecution = ''snapshot-fd'',
     neCompilerPath = ''/usr/bin/x86_64-linux-gnu-gcc-13'', neCompilerSha256 = sampleHash,
     neExecutableSha256 = sampleHash, neApprovalSha256 = sampleHash\<rparr>"

definition samplePlan :: stablePlan where
  "samplePlan = \<lparr>spSchemaVersion = 2, spKind = ''deployment-plan'', spPlanId = sampleHash,
     spIdentity = planIdentity sampleApproved sampleRoots, spBroadcastAllowed = False, spTestOnly = True,
     spProductionApproved = False, spMainnetAllowed = False\<rparr>"

definition sampleObservation :: "string \<Rightarrow> quoteObservation" where
  "sampleObservation address = \<lparr>qoChainId = LOCAL_CHAIN_ID, qoBlockNumber = ''5'', qoBlockHash = sampleHash,
     qoBlockTimestamp = ''7'', qoCurrentHeadNumber = ''6'', qoCurrentHeadHash = sampleHash,
     qoFeeHistoryNewestBlock = ''5'', qoSenderNonce = ''0'', qoExpectedCreateAddress = address,
     qoGasEstimate = ''3'', qoBlockGasLimit = ''30'', qoBaseFeePerGas = ''2'', qoMaxPriorityFeePerGas = ''1'',
     qoMaxFeePerGas = ''5'', qoObservedAt = ''8''\<rparr>"

lemma sample_plan: "buildStablePlan sampleDigest sampleApproved sampleRoots = Inr samplePlan"
proof -
  have "\<exists>t. planJson (JObj Plain (planIdentity sampleApproved sampleRoots)) = Inr t"
  proof (rule planJson_object_total)
    fix kv assume kv: "kv \<in> set (planIdentity sampleApproved sampleRoots)"
    have "\<exists>t. planJson (JObj Plain [(''maximumWorstCaseWei'', JStr s), (''testOnly'', JBool True)]) = Inr t" for s
      by (rule planJson_object_total) auto
    with kv show "\<exists>t. planJson (snd kv) = Inr t"
      using bound_total[OF approval_bound[OF sample_approved]]
      by (auto simp: planIdentity_def)
  qed
  moreover have "sampleHash = ''0x'' @ sampleDigest bytes" for bytes by (simp add: sampleHash_def sampleDigest_def)
  ultimately have "computePlanId sampleDigest (planIdentity sampleApproved sampleRoots) = Inr sampleHash"
    by (auto simp: computePlanId_def sha256Hex_def)
  moreover have
    "validateTrustRootSafety sampleRoots = Inr ()" "aaConstructorArgumentsHash sampleApproved = sampleHash"
    "aaCreationInputHash sampleApproved = sampleHash" "trConstructorArgumentsHash sampleRoots = sampleHash"
    "trCreationInputHash sampleRoots = sampleHash"
    by code_simp+
  ultimately show ?thesis by (simp add: buildStablePlan_def samplePlan_def)
qed

lemma sample_evidence: "verifyNativeNoReplaceEvidence sampleDigest sampleEvidence samplePolicy = Inr ()"
  by code_simp

lemma sample_observation:
  assumes "deriveCreateAddress (trFrom sampleRoots) 0 = Inr address"
  shows "buildFeeQuote plan (sampleObservation address) sampleRoots = Inr \<lparr>fqPlanId = spPlanId plan,
    fqCreationInputHash = stringOf (getP (spIdentity plan) ''creationInputHash''),
    fqObservation = sampleObservation address, fqBufferBps = ''0'', fqGasLimit = ''3'', fqEffectiveFeePerGas = ''3'',
    fqEstimatedWei = ''9'', fqWorstCaseWei = ''15'', fqExpiresAt = ''17''\<rparr>"
proof -
  let ?ts = "\<lparr>qtBlock = 5, qtHead = 6, qtNewest = 5, qtTimestamp = 7, qtObservedAt = 8, qtTtl = 9\<rparr>"
    and ?costs = "\<lparr>gasLimit = 3, effectiveFee = 3, estimatedWei = 9, worstCaseWei = 15\<rparr>"
  have "parseUint (JStr (qoSenderNonce (sampleObservation address))) True = Inr 0"
      "parseQuoteTimes (sampleObservation address) sampleRoots = Inr ?ts"
      "validateQuoteBinding (sampleObservation address) sampleRoots ?ts = Inr ()"
      "quoteCosts (sampleObservation address) (trGasBufferBps sampleRoots) sampleRoots = Inr ?costs"
      "checkedAdd (qtObservedAt ?ts) (qtTtl ?ts) = Inr 17"
      "qoChainId (sampleObservation address) = trChainId sampleRoots" "trGasBufferBps sampleRoots = ''0''"
      "qoExpectedCreateAddress (sampleObservation address) = address"
      "decInt (gasLimit ?costs) = ''3''" "decInt (effectiveFee ?costs) = ''3''" "decInt (estimatedWei ?costs) = ''9''"
      "decInt (worstCaseWei ?costs) = ''15''" "decInt 17 = ''17''"
    by code_simp+
  then show ?thesis
    unfolding buildFeeQuote_def assms by (simp only: bindE.simps failIf_consts assms HOL.simp_thms not_True_eq_False)
qed

definition sampleQuote :: "string \<Rightarrow> feeQuote" where
  "sampleQuote address = \<lparr>fqPlanId = sampleHash, fqCreationInputHash = sampleHash,
    fqObservation = sampleObservation address, fqBufferBps = ''0'', fqGasLimit = ''3'', fqEffectiveFeePerGas = ''3'',
    fqEstimatedWei = ''9'', fqWorstCaseWei = ''15'', fqExpiresAt = ''17''\<rparr>"

definition sampleRequest :: "string \<Rightarrow> verificationRequest" where
  "sampleRequest address = \<lparr>vrPlan = samplePlan, vrQuote = sampleQuote address, vrRoots = sampleRoots,
    vrExpected = sampleApproved, vrArtifactInputs = sampleInputs,
    vrReady = \<lparr>rmPlanSha256 = sampleHash, rmQuoteSha256 = sampleHash, rmNativeEvidenceSha256 = sampleHash,
      rmPlanId = sampleHash, rmCreationInputHash = sampleHash\<rparr>,
    vrNowSeconds = 9, vrNativeEvidence = sampleEvidence, vrNativePolicy = samplePolicy\<rparr>"

lemma sample_request:
  assumes "deriveCreateAddress (trFrom sampleRoots) 0 = Inr address"
  shows "builtRequest sampleDigest sampleParse (sampleRequest address)"
    "liveAt (vrQuote (sampleRequest address)) (vrNowSeconds (sampleRequest address))"
proof -
  have "getP (spIdentity samplePlan) ''creationInputHash'' = JStr sampleHash" "spPlanId samplePlan = sampleHash"
    by (simp_all add: samplePlan_def identity_lookup sampleApproved_def Let_def)
  then have "buildFeeQuote samplePlan (sampleObservation address) sampleRoots = Inr (sampleQuote address)"
    by (simp add: sample_observation[OF assms] sampleQuote_def)
  then show "builtRequest sampleDigest sampleParse (sampleRequest address)"
    by (simp add: builtRequest_def sampleRequest_def sample_approved sample_plan sample_evidence)
      (simp add: sampleQuote_def samplePlan_def)
  have "uintText ''8'' 8" "uintText ''17'' 17" by (simp_all add: uintText_def PLAN_UINT256_MAX_def dec_eval)
  then show "liveAt (vrQuote (sampleRequest address)) (vrNowSeconds (sampleRequest address))"
    unfolding liveAt_def sampleRequest_def sampleQuote_def sampleObservation_def
      verificationRequest.select_convs feeQuote.select_convs quoteObservation.select_convs
    by (intro exI[of _ 8] exI[of _ 17]) simp
qed

lemma sample_address: "\<exists>address. deriveCreateAddress (trFrom sampleRoots) 0 = Inr address"
proof -
  have "matchesHex 40 (trFrom sampleRoots)" by code_simp
  then show ?thesis by (simp add: deriveCreateAddress_Inr)
qed

lemma independentlyVerify_accepts_built_witness:
  "\<exists>request. builtRequest sampleDigest sampleParse request \<and> independentlyVerify sampleDigest sampleParse request = Inr ()"
proof -
  obtain address where a: "deriveCreateAddress (trFrom sampleRoots) 0 = Inr address" using sample_address ..
  show ?thesis
    using sample_request[OF a] independentlyVerify_accepts_built[OF sample_request[OF a]] by blast
qed

lemma independentlyVerify_sound_witness:
  "\<exists>address. agreesWithBuilt (spIdentity (vrPlan (sampleRequest address))) sampleApproved sampleRoots
     \<and> quoteSpec samplePlan (sampleQuote address) sampleRoots 9"
proof -
  obtain address where a: "deriveCreateAddress (trFrom sampleRoots) 0 = Inr address" using sample_address ..
  have v: "vrRoots (sampleRequest address) = sampleRoots" "vrArtifactInputs (sampleRequest address) = sampleInputs"
      "vrPlan (sampleRequest address) = samplePlan" "vrQuote (sampleRequest address) = sampleQuote address"
      "vrNowSeconds (sampleRequest address) = 9"
    by (simp_all add: sampleRequest_def)
  from independentlyVerify_sound[OF built_accepted[OF sample_request[OF a]]] show ?thesis
    unfolding v sample_approved by (intro exI[of _ address]) (auto simp: v)
qed

end
