(* ===== verification/Quantity.thy ===== *)
theory Quantity
  imports PlanIdentity
begin

text \<open>
  Integers of JSON-RPC, \<open>/^0x(?:0|[1-9a-f][0-9a-f]*)$/\<close>, as the planner's RPC check and the EVM
  adapters read them, and the language's \<open>BigInt(text)\<close>.
\<close>

section \<open>Hexadecimal numbers\<close>

definition hexNat :: "string \<Rightarrow> nat" where
  "hexNat s = foldl (\<lambda>n c. 16 * n + hexVal c) 0 s"

definition canonicalHex :: "string \<Rightarrow> bool" where
  "canonicalHex s \<longleftrightarrow> s = ''0'' \<or> (s \<noteq> [] \<and> hd s \<noteq> CHR ''0'' \<and> list_all isHexLower s)"

definition quantityText :: "nat \<Rightarrow> string" where
  "quantityText n = ''0x'' @ toHex n"

lemma hexNat_snoc [simp]: "hexNat (s @ [c]) = 16 * hexNat s + hexVal c"
  by (simp add: hexNat_def)

lemma hexNat_single [simp]: "hexNat [c] = hexVal c"
  by (simp add: hexNat_def)

lemma toHex_nonempty [simp]: "toHex n \<noteq> []"
  by (subst toHex.simps) simp

lemma hexNat_toHex [simp]: "hexNat (toHex n) = n"
proof (induction n rule: toHex.induct)
  case (1 n)
  show ?case
  proof (cases "n < 16")
    case True
    then show ?thesis by (simp add: toHex.simps[of n])
  next
    case False
    then have "toHex n = toHex (n div 16) @ [hexDigit (n mod 16)]" by (simp add: toHex.simps[of n])
    then show ?thesis using 1 False by simp
  qed
qed

lemma toHex_inj [simp]: "toHex m = toHex n \<longleftrightarrow> m = n"
  by (metis hexNat_toHex)

lemma toHex_digits: "list_all isHexLower (toHex n)"
proof (induction n rule: toHex.induct)
  case (1 n)
  then show ?case by (cases "n < 16") (simp_all add: toHex.simps[of n] hexDigit_of)
qed

lemma hexVal_0_iff: "isHexLower c \<Longrightarrow> hexVal c = 0 \<longleftrightarrow> c = CHR ''0''"
  by (metis hexDigit_0 hexDigit_hexVal hexVal_hexDigit zero_less_numeral)

lemma hd_toHex: "0 < n \<Longrightarrow> hd (toHex n) \<noteq> CHR ''0''"
proof (induction n rule: toHex.induct)
  case (1 n)
  show ?case
  proof (cases "n < 16")
    case True
    then show ?thesis using 1 hexVal_0_iff[of "hexDigit n"] by (simp add: toHex.simps[of n] hexDigit_of)
  next
    case False
    then show ?thesis using 1 by (simp add: toHex.simps[of n])
  qed
qed

lemma canonicalHex_toHex [simp]: "canonicalHex (toHex n)"
proof (cases "n = 0")
  case True
  then show ?thesis by (simp add: canonicalHex_def toHex.simps[of 0] hexDigit_0)
next
  case False
  then show ?thesis by (simp add: canonicalHex_def hd_toHex toHex_digits)
qed

lemma hexNat_pos: "list_all isHexLower s \<Longrightarrow> s \<noteq> [] \<Longrightarrow> hd s \<noteq> CHR ''0'' \<Longrightarrow> 0 < hexNat s"
proof (induction s rule: rev_induct)
  case (snoc c s)
  then have "isHexLower c" "s = [] \<Longrightarrow> c \<noteq> CHR ''0''" "s \<noteq> [] \<Longrightarrow> 0 < hexNat s" by auto
  then show ?case using hexVal_0_iff[of c] by (cases "s = []") simp_all
qed simp

lemma toHex_hexNat: "canonicalHex s \<Longrightarrow> toHex (hexNat s) = s"
proof (cases "s = ''0''")
  case True
  then show ?thesis by (simp add: hexVal_def toHex.simps[of 0] hexDigit_0)
next
  case False
  assume "canonicalHex s"
  with False have "list_all isHexLower s" "s \<noteq> []" "hd s \<noteq> CHR ''0''" by (auto simp: canonicalHex_def)
  then show ?thesis
  proof (induction s rule: rev_induct)
    case (snoc c s)
    then have c: "hexVal c < 16" "hexDigit (hexVal c) = c" by (simp_all add: hexVal_less hexDigit_hexVal)
    show ?case
    proof (cases "s = []")
      case True
      then show ?thesis using c by (simp add: toHex.simps[of "hexVal c"])
    next
      case False
      then have "0 < hexNat s" "toHex (hexNat s) = s" using snoc by (auto intro: hexNat_pos)
      then show ?thesis using c by (simp add: toHex.simps[of "16 * hexNat s + hexVal c"])
    qed
  qed simp
qed

section \<open>Quantities\<close>

definition isQuantity :: "jsval \<Rightarrow> bool" where
  "isQuantity v = (case v of JStr s \<Rightarrow> take 2 s = ''0x'' \<and> canonicalHex (drop 2 s) | _ \<Rightarrow> False)"

text \<open>\<open>BigInt(value)\<close> of a quantity.\<close>

definition quantityValue :: "jsval \<Rightarrow> int" where
  "quantityValue v = int (hexNat (drop 2 (theStr v)))"

lemma isQuantity_iff: "isQuantity v \<longleftrightarrow> (\<exists>n. v = JStr (quantityText n))"
proof
  assume "isQuantity v"
  then obtain s where s: "v = JStr s" "take 2 s = ''0x''" "canonicalHex (drop 2 s)"
    by (auto simp: isQuantity_def split: jsval.splits)
  then have "s = quantityText (hexNat (drop 2 s))"
    unfolding quantityText_def toHex_hexNat[OF s(3)] by (metis append_take_drop_id)
  with s(1) show "\<exists>n. v = JStr (quantityText n)" by blast
qed (auto simp: isQuantity_def quantityText_def)

lemma quantityValue_text [simp]: "quantityValue (JStr (quantityText n)) = int n"
  by (simp add: quantityValue_def quantityText_def)

lemma quantityText_inj [simp]: "quantityText m = quantityText n \<longleftrightarrow> m = n"
  by (simp add: quantityText_def)

section \<open>BigInt of a text\<close>

fun upperHexVal :: "char \<Rightarrow> nat" where
  "upperHexVal c = (if CHR ''A'' \<le> c \<and> c \<le> CHR ''F'' then of_char c - 55 else hexVal c)"

definition radixValue :: "nat \<Rightarrow> string \<Rightarrow> nat" where
  "radixValue b s = foldl (\<lambda>n c. b * n + upperHexVal c) 0 s"

definition isRadix :: "nat \<Rightarrow> string \<Rightarrow> bool" where
  "isRadix b s \<longleftrightarrow> s \<noteq> [] \<and> list_all (\<lambda>c. isHex c \<and> upperHexVal c < b) s"

text \<open>
  \<open>StringToBigInt\<close>: white space at both ends is dropped, nothing is zero, a prefix selects
  base 16, 8 or 2, and a decimal may have a sign and leading zeros; anything else is a
  \<open>SyntaxError\<close>.
\<close>

definition bigIntOf :: "string \<Rightarrow> js_error + int" where
  "bigIntOf text =
    (let s = trim text; pre = take 2 s; body = drop 2 s;
         radix = (\<lambda>b. if isRadix b body then Inr (int (radixValue b body)) else Inl (SyntaxErr ''BigInt''))
     in if s = [] then Inr 0
        else if pre = ''0x'' \<or> pre = ''0X'' then radix 16
        else if pre = ''0o'' \<or> pre = ''0O'' then radix 8
        else if pre = ''0b'' \<or> pre = ''0B'' then radix 2
        else if hd s = CHR ''-'' \<and> isRadix 10 (tl s) then Inr (- int (radixValue 10 (tl s)))
        else if hd s = CHR ''+'' \<and> isRadix 10 (tl s) then Inr (int (radixValue 10 (tl s)))
        else if isRadix 10 s then Inr (int (radixValue 10 s)) else Inl (SyntaxErr ''BigInt''))"

lemma dropWhile_none: "list_all (\<lambda>c. \<not> P c) s \<Longrightarrow> dropWhile P s = s"
  by (cases s) simp_all

lemma trim_no_space: "list_all (\<lambda>c. \<not> isSpace c) s \<Longrightarrow> trim s = s"
  by (simp add: trim_def dropWhile_none)

lemma digit_radix:
  assumes "isDigit c"
  shows "isHex c" "upperHexVal c = digitVal c" "\<not> isSpace c" "c \<noteq> CHR ''-''" "c \<noteq> CHR ''+''"
    "c \<noteq> CHR ''x''" "c \<noteq> CHR ''X''" "c \<noteq> CHR ''o''" "c \<noteq> CHR ''O''" "c \<noteq> CHR ''b''" "c \<noteq> CHR ''B''"
  using assms
  by (auto simp: isDigit_def isHex_def isHexLower_def isSpace_def less_eq_char_def hexVal_def digitVal_def)

lemma radixValue_dec: "list_all isDigit s \<Longrightarrow> radixValue 10 s = undec s"
proof (induction s rule: rev_induct)
  case (snoc c s)
  then show ?case by (simp add: radixValue_def undec_def digit_radix(2) del: upperHexVal.simps)
qed (simp add: radixValue_def undec_def)

lemma isRadix_dec: "isRadix 10 (dec n)"
  using dec_digits[of n] by (auto simp: isRadix_def list_all_iff digit_radix simp del: upperHexVal.simps)

lemma bigIntOf_decInt [simp]:
  assumes "0 \<le> n"
  shows "bigIntOf (decInt n) = Inr n"
proof -
  let ?s = "dec (nat n)"
  have d: "list_all isDigit ?s" by (rule dec_digits)
  then have t: "trim ?s = ?s" by (auto intro!: trim_no_space simp: list_all_iff digit_radix)
  have h: "isDigit (hd ?s)" using d dec_nonempty[of "nat n"] by (cases ?s) simp_all
  have "list_all isDigit (take 2 ?s)" using d by (auto simp: list_all_iff dest: in_set_takeD)
  then have pre: "take 2 ?s = [a, b] \<Longrightarrow> isDigit b" for a b by simp
  have "take 2 ?s \<notin> {''0x'', ''0X'', ''0o'', ''0O'', ''0b'', ''0B''}"
    using pre digit_radix(6-11) by fastforce
  then show ?thesis
    using assms h by (simp add: bigIntOf_def decInt_def t isRadix_dec radixValue_dec[OF d] digit_radix(4,5)[OF h])
qed

end
