(* ===== verification/PlanRpc.thy ===== *)
theory PlanRpc
  imports PlanVerifier Quantity
begin

text \<open>
  \<open>independentlyVerifyRpc\<close> of \<open>tooling/deployment-plan/src/application/verifier.ts\<close>: the check of a
  quote against the answers of an RPC node. The node is a parameter, a function from a method and
  its parameters to the answer of one snapshot of the chain.
\<close>

type_synonym planRpc = "string \<Rightarrow> jsval list \<Rightarrow> js_error + jsval"

text \<open>\<open>Buffer.from(text, "hex")\<close>: decoding stops at the first pair that is not hexadecimal.\<close>

fun bufferFromHex :: "string \<Rightarrow> nat list" where
  "bufferFromHex (a # b # s) =
     (if isHex a \<and> isHex b then (16 * upperHexVal a + upperHexVal b) # bufferFromHex s else [])"
| "bufferFromHex _ = []"

definition rpcRecord :: "jsval \<Rightarrow> js_error + jsrecord" where
  "rpcRecord value = objectOr ''RPC_VERIFY_INVALID'' value"

definition quantity :: "jsval \<Rightarrow> js_error + int" where
  "quantity value = (if isQuantity value then Inr (quantityValue value) else failPlan ''RPC_VERIFY_INVALID'')"

text \<open>\<open>quantity(value).toString() !== expected\<close> fails with a code.\<close>

definition sameQuantity :: "string \<Rightarrow> jsval \<Rightarrow> string \<Rightarrow> js_error + unit" where
  "sameQuantity failure value expected =
    bindE (quantity value) (\<lambda>n. failIf (decInt n \<noteq> expected) (PlanErr failure))"

definition validateRpcBlocks :: "jsrecord \<Rightarrow> jsrecord \<Rightarrow> feeQuote \<Rightarrow> js_error + unit" where
  "validateRpcBlocks bound head quote =
    (let o' = fqObservation quote; changed = ''RPC_BLOCK_CHANGED'' in
    bindE (sameQuantity changed (getP bound ''number'') (qoBlockNumber o')) (\<lambda>_.
    bindE (failIf (getP bound ''hash'' \<noteq> JStr (qoBlockHash o')) (PlanErr changed)) (\<lambda>_.
    bindE (sameQuantity changed (getP bound ''timestamp'') (qoBlockTimestamp o')) (\<lambda>_.
    bindE (sameQuantity changed (getP bound ''gasLimit'') (qoBlockGasLimit o')) (\<lambda>_.
    bindE (sameQuantity changed (getP bound ''baseFeePerGas'') (qoBaseFeePerGas o')) (\<lambda>_.
    bindE (failIf (getP head ''hash'' \<noteq> JStr (qoCurrentHeadHash o')) (PlanErr changed)) (\<lambda>_.
    sameQuantity changed (getP head ''number'') (qoCurrentHeadNumber o'))))))))"

definition validateRpcFeeHistory :: "jsrecord \<Rightarrow> feeQuote \<Rightarrow> js_error + unit" where
  "validateRpcFeeHistory history quote =
    (let o' = fqObservation quote; changed = ''RPC_FEE_HISTORY_CHANGED'' in
    case getP history ''baseFeePerGas'' of
      JArr _ [first, second] \<Rightarrow>
        bindE (sameQuantity changed (getP history ''oldestBlock'') (qoFeeHistoryNewestBlock o')) (\<lambda>_.
        bindE (failIf (qoFeeHistoryNewestBlock o' \<noteq> qoBlockNumber o') (PlanErr changed)) (\<lambda>_.
        bindE (sameQuantity changed first (qoBaseFeePerGas o')) (\<lambda>_.
        bindE (quantity second) (\<lambda>_. Inr ()))))
    | _ \<Rightarrow> failPlan ''RPC_VERIFY_INVALID'')"

text \<open>\<open>`0x${n.toString(16)}`\<close>\<close>

definition blockTag :: "int \<Rightarrow> string" where
  "blockTag n = ''0x'' @ (if n < 0 then CHR ''-'' # toHex (nat (- n)) else toHex (nat n))"

definition callObject :: "stablePlan \<Rightarrow> string \<Rightarrow> jsval" where
  "callObject plan creationInput = JObj Plain [(''from'', getP (spIdentity plan) ''from''),
     (''data'', JStr creationInput), (''value'', JStr ''0x0'')]"

definition independentlyVerifyRpc :: "(nat list \<Rightarrow> string) \<Rightarrow> planRpc \<Rightarrow> stablePlan \<Rightarrow> feeQuote \<Rightarrow> string
    \<Rightarrow> js_error + unit" where
  "independentlyVerifyRpc sha256 rpc plan quote creationInput =
    (let o' = fqObservation quote; inputHash = sha256Hex sha256 (bufferFromHex (drop 2 creationInput)) in
    bindE (failIf (getP (spIdentity plan) ''creationInput'' \<noteq> JStr creationInput
        \<or> getP (spIdentity plan) ''creationInputHash'' \<noteq> JStr inputHash) (PlanErr ''CREATION_INPUT_MISMATCH'')) (\<lambda>_.
    bindE (rpc ''eth_chainId'' []) (\<lambda>chain.
    bindE (sameQuantity ''RPC_CHAIN_CHANGED'' chain (qoChainId o')) (\<lambda>_.
    bindE (bigIntOf (qoBlockNumber o')) (\<lambda>n. let tag = JStr (blockTag n) in
    bindE (rpc ''eth_getBlockByNumber'' [tag, JBool False]) (\<lambda>b.
    bindE (rpcRecord b) (\<lambda>bound.
    bindE (rpc ''eth_getBlockByNumber'' [JStr ''latest'', JBool False]) (\<lambda>h.
    bindE (rpcRecord h) (\<lambda>head.
    bindE (validateRpcBlocks bound head quote) (\<lambda>_.
    bindE (rpc ''eth_feeHistory'' [JStr ''0x1'', tag, JArr Plain []]) (\<lambda>f.
    bindE (rpcRecord f) (\<lambda>history.
    bindE (validateRpcFeeHistory history quote) (\<lambda>_.
    bindE (rpc ''eth_getTransactionCount'' [getP (spIdentity plan) ''from'', tag]) (\<lambda>nonce.
    bindE (sameQuantity ''RPC_NONCE_CHANGED'' nonce (qoSenderNonce o')) (\<lambda>_.
    bindE (rpc ''eth_estimateGas'' [callObject plan creationInput, tag]) (\<lambda>gas.
    sameQuantity ''RPC_ESTIMATE_CHANGED'' gas (qoGasEstimate o')))))))))))))))))"

section \<open>What the node must answer\<close>

lemma quantity_Inr: "quantity v = Inr i \<longleftrightarrow> (\<exists>n. v = JStr (quantityText n) \<and> i = int n)"
  by (auto simp: quantity_def isQuantity_iff failPlan_def)

text \<open>A fact of the quote and the node's answer for it denote the same number.\<close>

definition agree :: "jsval \<Rightarrow> string \<Rightarrow> bool" where
  "agree v s \<longleftrightarrow> (\<exists>n. v = JStr (quantityText n) \<and> s = dec n)"

lemma sameQuantity_Inr: "sameQuantity e v s = Inr u \<longleftrightarrow> agree v s"
proof -
  have "decInt (int n) = dec n" for n by (simp add: decInt_def)
  then show ?thesis by (force simp: sameQuantity_def bindE_Inr_iff quantity_Inr agree_def)
qed

definition nodeAgrees :: "planRpc \<Rightarrow> stablePlan \<Rightarrow> quoteObservation \<Rightarrow> string \<Rightarrow> bool" where
  "nodeAgrees rpc plan ob creationInput \<longleftrightarrow> (\<exists>number chain nonce gas bound head history first second sh sb sh' sf.
     qoBlockNumber ob = dec number
   \<and> rpc ''eth_chainId'' [] = Inr chain \<and> agree chain (qoChainId ob)
   \<and> rpc ''eth_getBlockByNumber'' [JStr (quantityText number), JBool False] = Inr (JObj sb bound)
   \<and> getP bound ''number'' = JStr (quantityText number) \<and> getP bound ''hash'' = JStr (qoBlockHash ob)
   \<and> agree (getP bound ''timestamp'') (qoBlockTimestamp ob) \<and> agree (getP bound ''gasLimit'') (qoBlockGasLimit ob)
   \<and> agree (getP bound ''baseFeePerGas'') (qoBaseFeePerGas ob)
   \<and> rpc ''eth_getBlockByNumber'' [JStr ''latest'', JBool False] = Inr (JObj sh head)
   \<and> getP head ''hash'' = JStr (qoCurrentHeadHash ob) \<and> agree (getP head ''number'') (qoCurrentHeadNumber ob)
   \<and> rpc ''eth_feeHistory'' [JStr ''0x1'', JStr (quantityText number), JArr Plain []] = Inr (JObj sf history)
   \<and> getP history ''baseFeePerGas'' = JArr sh' [first, second] \<and> getP history ''oldestBlock'' = JStr (quantityText number)
   \<and> qoFeeHistoryNewestBlock ob = qoBlockNumber ob \<and> agree first (qoBaseFeePerGas ob) \<and> isQuantity second
   \<and> rpc ''eth_getTransactionCount'' [getP (spIdentity plan) ''from'', JStr (quantityText number)] = Inr nonce
   \<and> agree nonce (qoSenderNonce ob)
   \<and> rpc ''eth_estimateGas'' [callObject plan creationInput, JStr (quantityText number)] = Inr gas
   \<and> agree gas (qoGasEstimate ob))"

lemma blocks_Inr: "validateRpcBlocks bound head quote = Inr u \<longleftrightarrow>
    agree (getP bound ''number'') (qoBlockNumber (fqObservation quote))
  \<and> getP bound ''hash'' = JStr (qoBlockHash (fqObservation quote))
  \<and> agree (getP bound ''timestamp'') (qoBlockTimestamp (fqObservation quote))
  \<and> agree (getP bound ''gasLimit'') (qoBlockGasLimit (fqObservation quote))
  \<and> agree (getP bound ''baseFeePerGas'') (qoBaseFeePerGas (fqObservation quote))
  \<and> getP head ''hash'' = JStr (qoCurrentHeadHash (fqObservation quote))
  \<and> agree (getP head ''number'') (qoCurrentHeadNumber (fqObservation quote))"
  unfolding validateRpcBlocks_def Let_def bindE_Inr_iff sameQuantity_Inr failIf_Inr_iff by blast

lemma history_Inr: "validateRpcFeeHistory history quote = Inr u \<longleftrightarrow>
    (\<exists>sh first second. getP history ''baseFeePerGas'' = JArr sh [first, second]
      \<and> agree (getP history ''oldestBlock'') (qoFeeHistoryNewestBlock (fqObservation quote))
      \<and> qoFeeHistoryNewestBlock (fqObservation quote) = qoBlockNumber (fqObservation quote)
      \<and> agree first (qoBaseFeePerGas (fqObservation quote)) \<and> isQuantity second)"
  unfolding validateRpcFeeHistory_def Let_def
  by (auto simp: bindE_Inr_iff sameQuantity_Inr quantity_Inr isQuantity_iff failPlan_def split: jsval.splits list.splits)

lemma blockTag_nat: "blockTag (int n) = quantityText n"
  by (simp add: blockTag_def quantityText_def)

lemma agree_dec: "agree v (dec n) \<longleftrightarrow> v = JStr (quantityText n)"
  by (auto simp: agree_def)

lemma agree_text: "agree v s \<Longrightarrow> \<exists>n. s = dec n"
  by (auto simp: agree_def)

lemma bigIntOf_dec: "bigIntOf (dec n) = Inr (int n)"
  using bigIntOf_decInt[of "int n"] by (simp add: decInt_def)

lemma rpc_steps: "independentlyVerifyRpc sha256 rpc plan quote creationInput = Inr u \<longleftrightarrow>
    getP (spIdentity plan) ''creationInput'' = JStr creationInput
  \<and> getP (spIdentity plan) ''creationInputHash'' = JStr (sha256Hex sha256 (bufferFromHex (drop 2 creationInput)))
  \<and> nodeAgrees rpc plan (fqObservation quote) creationInput" (is "?code \<longleftrightarrow> ?spec")
proof
  assume ?code
  then obtain chain n b sb h sh f sf nonce gas v w where
      i: "getP (spIdentity plan) ''creationInput'' = JStr creationInput"
        "getP (spIdentity plan) ''creationInputHash'' = JStr (sha256Hex sha256 (bufferFromHex (drop 2 creationInput)))"
      and c: "rpc ''eth_chainId'' [] = Inr chain" "agree chain (qoChainId (fqObservation quote))"
      and n: "bigIntOf (qoBlockNumber (fqObservation quote)) = Inr n"
      and b: "rpc ''eth_getBlockByNumber'' [JStr (blockTag n), JBool False] = Inr (JObj sb b)"
      and h: "rpc ''eth_getBlockByNumber'' [JStr ''latest'', JBool False] = Inr (JObj sh h)"
      and v: "validateRpcBlocks b h quote = Inr v"
      and f: "rpc ''eth_feeHistory'' [JStr ''0x1'', JStr (blockTag n), JArr Plain []] = Inr (JObj sf f)"
        "validateRpcFeeHistory f quote = Inr w"
      and t: "rpc ''eth_getTransactionCount'' [getP (spIdentity plan) ''from'', JStr (blockTag n)] = Inr nonce"
        "agree nonce (qoSenderNonce (fqObservation quote))"
      and g: "rpc ''eth_estimateGas'' [callObject plan creationInput, JStr (blockTag n)] = Inr gas"
        "agree gas (qoGasEstimate (fqObservation quote))"
    unfolding independentlyVerifyRpc_def Let_def bindE_Inr_iff sameQuantity_Inr failIf_Inr_iff rpcRecord_def objectOr_Inr
      de_Morgan_disj not_not
    apply (elim exE conjE)
    apply hypsubst
    apply (rule that)
                   apply assumption+
    done
  from v obtain number where number: "qoBlockNumber (fqObservation quote) = dec number"
    unfolding blocks_Inr using agree_text by blast
  with n have "n = int number" by (simp add: bigIntOf_dec)
  then show ?spec
    using i c b h v f t g number unfolding nodeAgrees_def blocks_Inr history_Inr by (auto simp: blockTag_nat agree_dec)
next
  assume ?spec
  then show ?code
    unfolding independentlyVerifyRpc_def Let_def bindE_Inr_iff sameQuantity_Inr failIf_Inr_iff rpcRecord_def objectOr_Inr
      nodeAgrees_def blocks_Inr history_Inr
    by (clarsimp simp: bigIntOf_dec blockTag_nat agree_dec)
qed

section \<open>Properties\<close>

text \<open>
  C34. The check against the node is exact: a quote passes for exactly the nodes whose answers, at
  the quote's block, are the quote's facts, each as the canonical quantity of the number that the
  quote has in decimal, with the plan's creation input and its digest.
\<close>

theorem independentlyVerifyRpc_exact:
  "independentlyVerifyRpc sha256 rpc plan quote creationInput = Inr u \<longleftrightarrow>
     getP (spIdentity plan) ''creationInput'' = JStr creationInput
   \<and> getP (spIdentity plan) ''creationInputHash'' = JStr (sha256Hex sha256 (bufferFromHex (drop 2 creationInput)))
   \<and> nodeAgrees rpc plan (fqObservation quote) creationInput"
  by (rule rpc_steps)

end
