(* ===== verification/EvmIntent.thy ===== *)
theory EvmIntent
  imports JsonText Decimal
begin

text \<open>
  \<open>tooling/testnet-ccip/src/domain/evm-intent.ts\<close>: Sepolia transaction intents, their normal form,
  and the comparison of an intent with the expected one.
\<close>

section \<open>Lower case\<close>

text \<open>\<open>toLowerCase\<close> on code units below 256.\<close>

definition lowerChar :: "char \<Rightarrow> char" where
  "lowerChar c = (if isUpper c \<or> CHR 0xC0 \<le> c \<and> c \<le> CHR 0xDE \<and> c \<noteq> CHR 0xD7
     then char_of (of_char c + (32::nat)) else c)"

definition toLowerCase :: "string \<Rightarrow> string" where
  "toLowerCase s = map lowerChar s"

lemma lowerChar_idem [simp]: "lowerChar (lowerChar c) = lowerChar c"
proof (cases "isUpper c \<or> CHR 0xC0 \<le> c \<and> c \<le> CHR 0xDE \<and> c \<noteq> CHR 0xD7")
  case True
  let ?n = "of_char c :: nat"
  from True have "65 \<le> ?n \<and> ?n \<le> 90 \<or> 192 \<le> ?n \<and> ?n \<le> 222" by (auto simp: isUpper_def less_eq_char_def)
  then have "(?n + 32) mod 256 = ?n + 32" by (intro mod_less) auto
  then have "(of_char (char_of (?n + 32) :: char) :: nat) = ?n + 32" by (simp add: of_char_of)
  with True \<open>65 \<le> ?n \<and> ?n \<le> 90 \<or> 192 \<le> ?n \<and> ?n \<le> 222\<close> show ?thesis
    by (auto simp: lowerChar_def isUpper_def less_eq_char_def)
next
  case False
  then have "lowerChar c = c" by (simp only: lowerChar_def if_False)
  then show ?thesis by simp
qed

lemma toLowerCase_idem [simp]: "toLowerCase (toLowerCase s) = toLowerCase s"
  by (simp add: toLowerCase_def)

lemma length_toLowerCase [simp]: "length (toLowerCase s) = length s"
  by (simp add: toLowerCase_def)

lemma lowerChar_hex: "isHexLower c \<Longrightarrow> lowerChar c = c"
  by (auto simp: lowerChar_def isUpper_def isHexLower_def isDigit_def less_eq_char_def)

lemma isHex_cases: "isHex c \<Longrightarrow> isHexLower c \<or> (CHR ''A'' \<le> c \<and> c \<le> CHR ''F'')"
  by (simp add: isHex_def)

lemma lower_hex: "isHex c \<Longrightarrow> isHexLower (lowerChar c)"
proof (cases "isHexLower c")
  case False
  assume "isHex c"
  with False have "65 \<le> (of_char c :: nat)" "(of_char c :: nat) \<le> 70" by (auto simp: isHex_def less_eq_char_def)
  then show ?thesis
    by (auto simp: lowerChar_def isUpper_def isHexLower_def less_eq_char_def of_char_of)
qed (simp add: lowerChar_hex)

section \<open>Intents\<close>

datatype decimalInput = BigIntInput int | TextInput string

record deploymentBinding =
  dbArtifactId :: string
  dbArtifactSha256 :: string
  dbCreationBytecode :: string
  dbConstructorBytes :: string
  dbAdministrator :: string
  dbAdministratorBinding :: string

record intentInput =
  inChainId :: decimalInput
  inKind :: string
  inFrom :: string
  inNonce :: decimalInput
  inValue :: decimalInput
  inData :: string
  inTo :: "string option"
  inDeployment :: "deploymentBinding option"

text \<open>The fields of every journalled intent, and those of a Sepolia envelope.\<close>

record journalIntent =
  jiChainId :: string
  jiFrom :: string
  jiTo :: "string option"
  jiData :: string
  jiValue :: string
  jiNonce :: string

record intentEnvelope = journalIntent +
  ieSchema :: string
  ieKind :: string
  ieDeployment :: "deploymentBinding option"

definition EVM_UINT256_MAX :: int where "EVM_UINT256_MAX = 2 ^ 256 - 1"

definition intentErr :: "string \<Rightarrow> js_error" where
  "intentErr field = Err (''Invalid Sepolia intent: '' @ field)"

definition evmDecimal :: "decimalInput \<Rightarrow> string \<Rightarrow> int \<Rightarrow> js_error + string" where
  "evmDecimal value field maximum =
    (let check = (\<lambda>n. if n < 0 \<or> n > maximum then Inl (intentErr field) else Inr (decInt n))
     in case value of BigIntInput n \<Rightarrow> check n
      | TextInput s \<Rightarrow> if canonicalDec s then check (int (undec s)) else Inl (intentErr field))"

text \<open>\<open>/^0x(?:[0-9a-fA-F]{2})*$/\<close>\<close>

definition isHexBytes :: "string \<Rightarrow> bool" where
  "isHexBytes s \<longleftrightarrow> take 2 s = ''0x'' \<and> list_all isHex (drop 2 s) \<and> even (length s)"

definition evmHex :: "string \<Rightarrow> string \<Rightarrow> bool \<Rightarrow> js_error + string" where
  "evmHex value field mayBeEmpty =
    (if \<not> isHexBytes value \<or> \<not> mayBeEmpty \<and> value = ''0x'' then Inl (intentErr field) else Inr (toLowerCase value))"

definition evmAddress :: "string \<Rightarrow> string \<Rightarrow> js_error + string" where
  "evmAddress value field =
    bindE (evmHex value field False) (\<lambda>result.
    if length result \<noteq> 42 \<or> list_all (\<lambda>c. c = CHR ''0'') (drop 2 result) then Inl (intentErr field) else Inr result)"

text \<open>\<open>/^[A-Za-z0-9_./:@-]{1,256}$/\<close> and \<open>/^[0-9a-f]{64}$/\<close>\<close>

definition isArtifactId :: "string \<Rightarrow> bool" where
  "isArtifactId s \<longleftrightarrow> 1 \<le> length s \<and> length s \<le> 256
     \<and> list_all (\<lambda>c. isUpper c \<or> isLower c \<or> isDigit c \<or> c \<in> set ''_./:@-'') s"

definition isHexDigest :: "string \<Rightarrow> bool" where
  "isHexDigest s \<longleftrightarrow> length s = 64 \<and> list_all isHexLower s"

definition normalizeBinding :: "deploymentBinding \<Rightarrow> string \<Rightarrow> string \<Rightarrow> js_error + deploymentBinding" where
  "normalizeBinding binding sender calldata =
    bindE (failIf (\<not> isArtifactId (dbArtifactId binding)) (intentErr ''artifactId'')) (\<lambda>_.
    bindE (failIf (\<not> isHexDigest (dbArtifactSha256 binding)) (intentErr ''artifactSha256'')) (\<lambda>_.
    bindE (evmHex (dbCreationBytecode binding) ''creationBytecode'' False) (\<lambda>creationBytecode.
    bindE (evmHex (dbConstructorBytes binding) ''constructorBytes'' True) (\<lambda>constructorBytes.
    bindE (evmAddress (dbAdministrator binding) ''administrator'') (\<lambda>administrator.
    bindE (failIf (calldata \<noteq> creationBytecode @ drop 2 constructorBytes) (intentErr ''deployment calldata'')) (\<lambda>_.
    bindE (if dbAdministratorBinding binding = ''sender''
             then failIf (administrator \<noteq> sender) (intentErr ''deployer administrator'')
           else if dbAdministratorBinding binding = ''constructor-word-2''
             then failIf (take 64 (drop 130 constructorBytes) \<noteq> replicate 24 (CHR ''0'') @ drop 2 administrator)
               (intentErr ''constructor administrator'')
           else Inl (intentErr ''administratorBinding'')) (\<lambda>_.
    Inr \<lparr>dbArtifactId = dbArtifactId binding, dbArtifactSha256 = dbArtifactSha256 binding,
      dbCreationBytecode = creationBytecode, dbConstructorBytes = constructorBytes,
      dbAdministrator = administrator, dbAdministratorBinding = dbAdministratorBinding binding\<rparr>)))))))"

definition normalizeIntent :: "intentInput \<Rightarrow> js_error + intentEnvelope" where
  "normalizeIntent input =
    bindE (evmDecimal (inChainId input) ''chainId'' EVM_UINT256_MAX) (\<lambda>chain.
    bindE (failIf (chain \<noteq> ''11155111'') (intentErr ''chainId'')) (\<lambda>_.
    bindE (evmAddress (inFrom input) ''from'') (\<lambda>sender.
    bindE (evmDecimal (inNonce input) ''nonce'' (2 ^ 64 - 2)) (\<lambda>nonce.
    bindE (evmDecimal (inValue input) ''value'' EVM_UINT256_MAX) (\<lambda>amount.
    bindE (evmHex (inData input) ''data'' False) (\<lambda>calldata.
    bindE (if inKind input = ''deploy'' then
             (case (inTo input, inDeployment input) of
                (None, Some binding) \<Rightarrow>
                  bindE (normalizeBinding binding sender calldata) (\<lambda>b. Inr (None, Some b))
              | _ \<Rightarrow> Inl (intentErr ''deployment shape''))
           else if inKind input = ''call'' then
             (case (inTo input, inDeployment input) of
                (Some t, None) \<Rightarrow>
                  if length calldata < 10 then Inl (intentErr ''call shape'')
                  else bindE (evmAddress t ''to'') (\<lambda>a. Inr (Some a, None))
              | _ \<Rightarrow> Inl (intentErr ''call shape''))
           else Inl (intentErr ''kind'')) (\<lambda>(target, deployment).
    Inr \<lparr>jiChainId = ''11155111'', jiFrom = sender, jiTo = target, jiData = calldata, jiValue = amount, jiNonce = nonce,
      ieSchema = ''agtmai-sepolia-intent-v1'', ieKind = inKind input, ieDeployment = deployment\<rparr>)))))))"

text \<open>The envelope as the object that \<open>JSON.stringify\<close> prints, in the order of the literal.\<close>

definition bindingJson :: "deploymentBinding \<Rightarrow> jsval" where
  "bindingJson b = JObj Plain [(''artifactId'', JStr (dbArtifactId b)), (''artifactSha256'', JStr (dbArtifactSha256 b)),
     (''creationBytecode'', JStr (dbCreationBytecode b)), (''constructorBytes'', JStr (dbConstructorBytes b)),
     (''administrator'', JStr (dbAdministrator b)), (''administratorBinding'', JStr (dbAdministratorBinding b))]"

definition envelopeJson :: "intentEnvelope \<Rightarrow> jsval" where
  "envelopeJson e = JObj Plain [(''schema'', JStr (ieSchema e)), (''chainId'', JStr (jiChainId e)), (''kind'', JStr (ieKind e)),
     (''from'', JStr (jiFrom e)), (''nonce'', JStr (jiNonce e)), (''value'', JStr (jiValue e)), (''data'', JStr (jiData e)),
     (''to'', case jiTo e of None \<Rightarrow> JNull | Some t \<Rightarrow> JStr t),
     (''deployment'', case ieDeployment e of None \<Rightarrow> JNull | Some b \<Rightarrow> bindingJson b)]"

definition inputOf :: "intentEnvelope \<Rightarrow> intentInput" where
  "inputOf e = \<lparr>inChainId = TextInput (jiChainId e), inKind = ieKind e, inFrom = jiFrom e, inNonce = TextInput (jiNonce e),
     inValue = TextInput (jiValue e), inData = jiData e, inTo = jiTo e, inDeployment = ieDeployment e\<rparr>"

definition canonicalIntentJson :: "intentEnvelope \<Rightarrow> js_error + string" where
  "canonicalIntentJson envelope =
    (if ieSchema envelope \<noteq> ''agtmai-sepolia-intent-v1'' then Inl (intentErr ''schema'')
     else bindE (normalizeIntent (inputOf envelope)) (\<lambda>e. Inr (stringify (envelopeJson e))))"

definition validateSepoliaIntent :: "intentInput \<Rightarrow> intentInput \<Rightarrow> js_error + intentEnvelope" where
  "validateSepoliaIntent input expected =
    bindE (normalizeIntent input) (\<lambda>actual.
    bindE (canonicalIntentJson actual) (\<lambda>left.
    bindE (normalizeIntent expected) (\<lambda>wanted.
    bindE (canonicalIntentJson wanted) (\<lambda>right.
    if left \<noteq> right then Inl (intentErr ''expected intent mismatch'') else Inr actual))))"

section \<open>Normal forms\<close>

lemma evmDecimal_text: "evmDecimal v f m = Inr s \<Longrightarrow> evmDecimal (TextInput s) f m = Inr s"
  by (cases v) (auto simp: evmDecimal_def Let_def split: if_splits)

lemma take2_lower: "take 2 s = ''0x'' \<Longrightarrow> take 2 (toLowerCase s) = ''0x''"
proof -
  assume "take 2 s = ''0x''"
  then have "take 2 (toLowerCase s) = toLowerCase ''0x''" by (simp add: toLowerCase_def take_map)
  then show ?thesis by (simp add: toLowerCase_def lowerChar_def isUpper_def less_eq_char_def)
qed

lemma isHexBytes_lower: "isHexBytes s \<Longrightarrow> isHexBytes (toLowerCase s)"
proof -
  assume h: "isHexBytes s"
  have "list_all isHex (map lowerChar (drop 2 s))"
    using h lower_hex by (auto simp: isHexBytes_def list_all_iff isHex_def[of "lowerChar c" for c])
  with h show ?thesis by (simp add: isHexBytes_def take2_lower) (simp add: toLowerCase_def drop_map)
qed

lemma lower_0x: "isHexBytes s \<Longrightarrow> toLowerCase s = ''0x'' \<Longrightarrow> s = ''0x''"
proof -
  assume h: "isHexBytes s" "toLowerCase s = ''0x''"
  from h(2) have "length s = 2" using length_toLowerCase[of s] by simp
  then have "s = take 2 s" by simp
  then show ?thesis using h(1) by (simp add: isHexBytes_def)
qed

lemma evmHex_Inr: "evmHex v f b = Inr s \<longleftrightarrow> isHexBytes v \<and> (b \<or> v \<noteq> ''0x'') \<and> s = toLowerCase v"
  by (auto simp: evmHex_def)

lemma evmHex_again: "evmHex v f b = Inr s \<Longrightarrow> evmHex s g b = Inr s"
  using lower_0x[of v] by (auto simp: evmHex_Inr isHexBytes_lower)

lemma evmAddress_again: "evmAddress v f = Inr s \<Longrightarrow> evmAddress s g = Inr s"
  unfolding evmAddress_def bindE_Inr_iff by (auto split: if_splits dest: evmHex_again)

lemma normalizeBinding_again:
  assumes "normalizeBinding b s c = Inr n"
  shows "normalizeBinding n s c = Inr n"
proof -
  from assms obtain creation ctor admin where
      v: "isArtifactId (dbArtifactId b)" "isHexDigest (dbArtifactSha256 b)"
        "evmHex (dbCreationBytecode b) ''creationBytecode'' False = Inr creation"
        "evmHex (dbConstructorBytes b) ''constructorBytes'' True = Inr ctor"
        "evmAddress (dbAdministrator b) ''administrator'' = Inr admin" "c = creation @ drop 2 ctor"
      and a: "(if dbAdministratorBinding b = ''sender''
             then failIf (admin \<noteq> s) (intentErr ''deployer administrator'')
           else if dbAdministratorBinding b = ''constructor-word-2''
             then failIf (take 64 (drop 130 ctor) \<noteq> replicate 24 (CHR ''0'') @ drop 2 admin)
               (intentErr ''constructor administrator'')
           else Inl (intentErr ''administratorBinding'')) = Inr ()"
      and n: "n = \<lparr>dbArtifactId = dbArtifactId b, dbArtifactSha256 = dbArtifactSha256 b,
      dbCreationBytecode = creation, dbConstructorBytes = ctor,
      dbAdministrator = admin, dbAdministratorBinding = dbAdministratorBinding b\<rparr>"
    unfolding normalizeBinding_def bindE_Inr_iff failIf_Inr_iff by auto
  show ?thesis
    unfolding normalizeBinding_def n deploymentBinding.select_convs evmHex_again[OF v(3)] evmHex_again[OF v(4)]
      evmAddress_again[OF v(5)] bindE.simps a by (simp add: v)
qed

lemma normalize_shape:
  assumes "normalizeIntent input = Inr e"
  shows "ieSchema e = ''agtmai-sepolia-intent-v1''" "normalizeIntent (inputOf e) = Inr e"
proof -
  from assms obtain chain sender nonce amount calldata target deployment where
      v: "evmDecimal (inChainId input) ''chainId'' EVM_UINT256_MAX = Inr chain" "chain = ''11155111''"
        "evmAddress (inFrom input) ''from'' = Inr sender"
        "evmDecimal (inNonce input) ''nonce'' (2 ^ 64 - 2) = Inr nonce"
        "evmDecimal (inValue input) ''value'' EVM_UINT256_MAX = Inr amount"
        "evmHex (inData input) ''data'' False = Inr calldata"
      and k: "inKind input = ''deploy'' \<and> inTo input = None \<and> target = None
            \<and> (\<exists>b n. inDeployment input = Some b \<and> normalizeBinding b sender calldata = Inr n \<and> deployment = Some n)
          \<or> inKind input = ''call'' \<and> inDeployment input = None \<and> deployment = None \<and> \<not> length calldata < 10
            \<and> (\<exists>t a. inTo input = Some t \<and> evmAddress t ''to'' = Inr a \<and> target = Some a)"
      and e: "e = \<lparr>jiChainId = ''11155111'', jiFrom = sender, jiTo = target, jiData = calldata, jiValue = amount, jiNonce = nonce,
      ieSchema = ''agtmai-sepolia-intent-v1'', ieKind = inKind input, ieDeployment = deployment\<rparr>"
    unfolding normalizeIntent_def bindE_Inr_iff failIf_Inr_iff
    by (auto simp: bindE_Inr_iff split: if_splits option.splits)
  then show "ieSchema e = ''agtmai-sepolia-intent-v1''" by simp
  note again = evmDecimal_text[OF v(1)] evmAddress_again[OF v(3)] evmDecimal_text[OF v(4)] evmDecimal_text[OF v(5)]
    evmHex_again[OF v(6)]
  from k show "normalizeIntent (inputOf e) = Inr e"
    unfolding normalizeIntent_def inputOf_def e intentEnvelope.select_convs journalIntent.select_convs intentInput.select_convs
      again[unfolded v(2)] bindE.simps
    by (elim disjE conjE exE) (simp_all add: normalizeBinding_again evmAddress_again)
qed

lemma envelopeJson_inj:
  assumes "ieSchema d = ieSchema e" "stringify (envelopeJson d) = stringify (envelopeJson e)"
  shows "d = e"
proof -
  have "isJson (envelopeJson x)" for x by (simp add: envelopeJson_def bindingJson_def split: option.split)
  then have "envelopeJson d = envelopeJson e" using assms(2) by (simp add: stringify_inj)
  then show ?thesis
    by (auto simp: envelopeJson_def bindingJson_def intro!: intentEnvelope.equality deploymentBinding.equality split: option.splits)
qed

lemma canonicalIntent_normal:
  "normalizeIntent input = Inr e \<Longrightarrow> canonicalIntentJson e = Inr (stringify (envelopeJson e))"
  by (simp add: canonicalIntentJson_def normalize_shape)

section \<open>Properties\<close>

text \<open>
  Authorisation is an exact comparison: an intent is accepted for exactly the inputs that have
  the same normal form as the expected intent, and what is returned is that form.
\<close>

lemma validateSepoliaIntent_exact:
  "validateSepoliaIntent input expected = Inr e \<longleftrightarrow> normalizeIntent input = Inr e \<and> normalizeIntent expected = Inr e"
proof
  assume "validateSepoliaIntent input expected = Inr e"
  then obtain w where n: "normalizeIntent input = Inr e" "normalizeIntent expected = Inr w"
      and "canonicalIntentJson e = canonicalIntentJson w"
    unfolding validateSepoliaIntent_def bindE_Inr_iff by (auto split: if_splits)
  then have "stringify (envelopeJson e) = stringify (envelopeJson w)" by (simp add: canonicalIntent_normal)
  then have "e = w" by (intro envelopeJson_inj) (simp_all add: normalize_shape(1)[OF n(1)] normalize_shape(1)[OF n(2)])
  with n show "normalizeIntent input = Inr e \<and> normalizeIntent expected = Inr e" by simp
next
  assume n: "normalizeIntent input = Inr e \<and> normalizeIntent expected = Inr e"
  then have "canonicalIntentJson e = Inr (stringify (envelopeJson e))" by (auto intro: canonicalIntent_normal)
  with n show "validateSepoliaIntent input expected = Inr e" by (simp add: validateSepoliaIntent_def)
qed

text \<open>
  Normalisation is a normal form: an envelope read back as an input gives itself, so its
  canonical text is stable and determines it.
\<close>

lemma canonicalIntentJson_stable:
  assumes "normalizeIntent input = Inr d" "normalizeIntent other = Inr e"
  shows "normalizeIntent (inputOf d) = Inr d \<and> (canonicalIntentJson d = canonicalIntentJson e \<longleftrightarrow> d = e)"
  using assms envelopeJson_inj[of d e]
  by (auto simp: normalize_shape canonicalIntent_normal)

end
