(* ===== verification/Journal.thy ===== *)
theory Journal
  imports Prelude
begin

text \<open>
  The effects of a transaction journal and its safety contract. A journal of
  \<open>tooling/testnet-ccip/src/application\<close> runs under an exclusive lock, reads one durable record,
  and may write it, and may send the bytes of a signed transaction. The state is the durable record
  and the log of the send attempts. A write may take effect, may take effect and still throw, or may
  throw without effect; what a run leaves behind when the process dies between two effects is what it
  leaves behind when the next effect throws.
\<close>

section \<open>Effects\<close>

datatype writeOutcome = Kept | KeptThrown | LostThrown

record 'r journalState =
  jsStore :: "'r option"
  jsSent :: "string list"
  jsWrites :: "writeOutcome list"

type_synonym ('r, 'a) journalM = "'r journalState \<Rightarrow> (js_error + 'a) \<times> 'r journalState"

definition returnJ :: "'a \<Rightarrow> ('r, 'a) journalM" where
  "returnJ x s = (Inr x, s)"

definition liftJ :: "js_error + 'a \<Rightarrow> ('r, 'a) journalM" where
  "liftJ m s = (m, s)"

definition bindJ :: "('r, 'a) journalM \<Rightarrow> ('a \<Rightarrow> ('r, 'b) journalM) \<Rightarrow> ('r, 'b) journalM" where
  "bindJ m f s = (case m s of (Inl e, t) \<Rightarrow> (Inl e, t) | (Inr x, t) \<Rightarrow> f x t)"

definition readJ :: "('r, 'r option) journalM" where
  "readJ s = (Inr (jsStore s), s)"

text \<open>The outcomes of a run's writes, in order; a write beyond the list takes effect.\<close>

definition writeJ :: "'r \<Rightarrow> ('r, unit) journalM" where
  "writeJ r s = (case jsWrites s of
     [] \<Rightarrow> (Inr (), s\<lparr>jsStore := Some r\<rparr>)
   | Kept # ws \<Rightarrow> (Inr (), s\<lparr>jsStore := Some r, jsWrites := ws\<rparr>)
   | KeptThrown # ws \<Rightarrow> (Inl (Err ''write''), s\<lparr>jsStore := Some r, jsWrites := ws\<rparr>)
   | LostThrown # ws \<Rightarrow> (Inl (Err ''write''), s\<lparr>jsWrites := ws\<rparr>))"

definition sendJ :: "string \<Rightarrow> ('r, unit) journalM" where
  "sendJ bytes s = (Inr (), s\<lparr>jsSent := jsSent s @ [bytes]\<rparr>)"

section \<open>Weakest preconditions of runs\<close>

text \<open>
  \<open>wp m Q E s\<close>: from the state \<open>s\<close>, the action ends with a value and a state related by
  \<open>Q\<close>, or throws in a state with \<open>E\<close>.
\<close>

definition wp :: "('r, 'a) journalM \<Rightarrow> ('a \<Rightarrow> 'r journalState \<Rightarrow> bool) \<Rightarrow> ('r journalState \<Rightarrow> bool)
    \<Rightarrow> 'r journalState \<Rightarrow> bool" where
  "wp m Q E s \<longleftrightarrow> (case m s of (Inl e, t) \<Rightarrow> E t | (Inr x, t) \<Rightarrow> Q x t)"

named_theorems wp_simps

lemma wp_bind [wp_simps]: "wp (bindJ m f) Q E s \<longleftrightarrow> wp m (\<lambda>x. wp (f x) Q E) E s"
  by (auto simp: wp_def bindJ_def split: prod.splits sum.splits)

lemma wp_return [wp_simps]: "wp (returnJ x) Q E s \<longleftrightarrow> Q x s"
  by (simp add: wp_def returnJ_def)

lemma wp_lift [wp_simps]: "wp (liftJ m) Q E s \<longleftrightarrow> (case m of Inl e \<Rightarrow> E s | Inr x \<Rightarrow> Q x s)"
  by (simp add: wp_def liftJ_def)

lemma wp_read [wp_simps]: "wp readJ Q E s \<longleftrightarrow> Q (jsStore s) s"
  by (simp add: wp_def readJ_def)

lemma wp_send [wp_simps]: "wp (sendJ b) Q E s \<longleftrightarrow> Q () (s\<lparr>jsSent := jsSent s @ [b]\<rparr>)"
  by (simp add: wp_def sendJ_def)

text \<open>A write is sound for what holds whatever its outcome.\<close>

lemma wp_write: "wp (writeJ r) Q E s \<longleftrightarrow>
    (case jsWrites s of [] \<Rightarrow> Q () (s\<lparr>jsStore := Some r\<rparr>)
     | w # ws \<Rightarrow> (case w of Kept \<Rightarrow> Q () (s\<lparr>jsStore := Some r, jsWrites := ws\<rparr>)
         | KeptThrown \<Rightarrow> E (s\<lparr>jsStore := Some r, jsWrites := ws\<rparr>) | LostThrown \<Rightarrow> E (s\<lparr>jsWrites := ws\<rparr>)))"
  by (simp add: wp_def writeJ_def split: list.split writeOutcome.split)

lemma wp_any_write:
  assumes "\<And>ws. Q () (s\<lparr>jsStore := Some r, jsWrites := ws\<rparr>)" "\<And>ws. E (s\<lparr>jsStore := Some r, jsWrites := ws\<rparr>)"
    "\<And>ws. E (s\<lparr>jsWrites := ws\<rparr>)"
  shows "wp (writeJ r) Q E s"
proof -
  have "s\<lparr>jsStore := Some r\<rparr> = s\<lparr>jsStore := Some r, jsWrites := jsWrites s\<rparr>" by simp
  then have "Q () (s\<lparr>jsStore := Some r\<rparr>)" using assms(1)[of "jsWrites s"] by metis
  with assms show ?thesis unfolding wp_write by (auto split: list.split writeOutcome.split)
qed

lemma wp_mono: "wp m Q E s \<Longrightarrow> (\<And>x t. Q x t \<Longrightarrow> Q' x t) \<Longrightarrow> (\<And>t. E t \<Longrightarrow> E' t) \<Longrightarrow> wp m Q' E' s"
  by (auto simp: wp_def split: prod.splits sum.splits)

lemma wp_state: "wp m (\<lambda>_. Q) Q s \<Longrightarrow> Q (snd (m s))"
  by (cases "m s") (auto simp: wp_def split: sum.splits)

lemma wp_result: "wp m Q E s \<Longrightarrow> m s = (Inr x, t) \<Longrightarrow> Q x t"
  by (auto simp: wp_def)

section \<open>One send\<close>

text \<open>
  A run starts with the state that the last one left and its own sequence of write outcomes.
\<close>

inductive runs :: "('e \<Rightarrow> 'r journalState \<Rightarrow> 'r journalState) \<Rightarrow> 'r journalState \<Rightarrow> 'r journalState \<Rightarrow> bool"
  for run :: "'e \<Rightarrow> 'r journalState \<Rightarrow> 'r journalState" where
  none: "runs run s s"
| more: "runs run s t \<Longrightarrow> runs run s (run e t)"

definition newJournal :: "'r journalState" where
  "newJournal = \<lparr>jsStore = None, jsSent = [], jsWrites = []\<rparr>"

text \<open>
  The contract of a journal: the bytes of a stored record never change, a record past the signed
  phase stays past it, only a run that finds no record or a signed one sends, it sends the bytes of
  the record once, and it has left the signed phase before it sends.
\<close>

locale send_once =
  fixes run :: "'e \<Rightarrow> 'r journalState \<Rightarrow> 'r journalState"
    and unsent :: "'r \<Rightarrow> bool"
    and payload :: "'r \<Rightarrow> string"
  assumes stays: "jsStore s = Some r \<Longrightarrow> \<not> unsent r \<Longrightarrow>
      \<exists>r'. jsStore (run e s) = Some r' \<and> \<not> unsent r' \<and> payload r' = payload r \<and> jsSent (run e s) = jsSent s"
    and first: "(\<And>r. jsStore s = Some r \<Longrightarrow> unsent r) \<Longrightarrow>
      jsSent (run e s) = jsSent s \<or> (\<exists>r. jsStore (run e s) = Some r \<and> \<not> unsent r \<and> jsSent (run e s) = jsSent s @ [payload r])"
    and keeps: "jsStore s = Some r \<Longrightarrow> \<exists>r'. jsStore (run e s) = Some r' \<and> payload r' = payload r"
begin

definition logged :: "'r journalState \<Rightarrow> bool" where
  "logged s \<longleftrightarrow> jsSent s = [] \<or> (\<exists>r. jsStore s = Some r \<and> \<not> unsent r \<and> jsSent s = [payload r])"

lemma logged_run: "logged s \<Longrightarrow> logged (run e s)"
proof (cases "\<exists>r. jsStore s = Some r \<and> \<not> unsent r")
  case True
  then obtain r where r: "jsStore s = Some r" "\<not> unsent r" by blast
  assume "logged s"
  with r stays[OF r, of e] show ?thesis by (auto simp: logged_def)
next
  case False
  assume l: "logged s"
  with False have "jsSent s = []" by (auto simp: logged_def)
  with False first[of s e] show ?thesis by (auto simp: logged_def)
qed

lemma runs_logged: "runs run s t \<Longrightarrow> logged s \<Longrightarrow> logged t"
  by (induction rule: runs.induct) (simp_all add: logged_run)

lemma at_most_one:
  assumes "runs run newJournal t"
  shows "jsSent t = [] \<or> (\<exists>r. jsStore t = Some r \<and> jsSent t = [payload r])"
proof -
  have "logged (newJournal :: 'r journalState)" by (simp add: logged_def newJournal_def)
  with assms have "logged t" by (rule runs_logged)
  then show ?thesis by (auto simp: logged_def)
qed

lemma runs_keep:
  "runs run s t \<Longrightarrow> jsStore s = Some r \<Longrightarrow> \<exists>r'. jsStore t = Some r' \<and> payload r' = payload r"
proof (induction rule: runs.induct)
  case (more s t e)
  then obtain r' where "jsStore t = Some r'" "payload r' = payload r" by blast
  with keeps[of t r' e] show ?case by auto
qed simp

end

end
