(* ===== verification/EvmJournal.thy ===== *)
theory EvmJournal
  imports EvmIntent Journal
begin

text \<open>
  \<open>tooling/testnet-ccip/src/application/evm-journal.ts\<close>: the journal of one exact EVM transaction.
  The ports are parameters: the signer, the independent inspection of signed bytes, the observer and
  the broadcaster, each the answer (or exception) of one run.
\<close>

section \<open>Data\<close>

record signedTransaction =
  sgBytes :: string
  sgHash :: string

record observedTransaction =
  otHash :: string
  otChainId :: string
  otFrom :: string
  otTo :: "string option"
  otData :: string
  otValue :: string
  otNonce :: string

record receiptEvidence =
  reTransactionHash :: string
  reBlockHash :: string
  reBlockNumber :: string
  reStatus :: int

record finalizedBlock =
  fbHash :: string
  fbNumber :: string

datatype evmObservation = UnknownTx | NotFoundTx
  | ObservedTx observedTransaction "receiptEvidence option" "finalizedBlock option"

text \<open>The phase is checked when a record is read, so it is a text.\<close>

record 'i journalRecord =
  jrSchema :: string
  jrIntent :: 'i
  jrSigned :: signedTransaction
  jrPhase :: string
  jrReceipt :: "receiptEvidence option"

record 'i journalResult =
  resStatus :: string
  resRecord :: "'i journalRecord"
  resReason :: string

record 'i journalPorts =
  jpReadFails :: "js_error option"
  jpSign :: "'i \<Rightarrow> js_error + signedTransaction"
  jpInspectSigned :: "string \<Rightarrow> js_error + observedTransaction"
  jpObserve :: "string \<Rightarrow> js_error + evmObservation"
  jpBroadcast :: "string \<Rightarrow> js_error + string"

section \<open>Checks\<close>

definition equalHex :: "string \<Rightarrow> string \<Rightarrow> bool" where
  "equalHex a b \<longleftrightarrow> toLowerCase a = toLowerCase b"

text \<open>\<open>/^0x[0-9a-fA-F]{64}$/\<close>\<close>

definition isTxHash :: "string \<Rightarrow> bool" where
  "isTxHash s \<longleftrightarrow> length s = 66 \<and> take 2 s = ''0x'' \<and> list_all isHex (drop 2 s)"

definition exactTransaction :: "observedTransaction \<Rightarrow> ('m journalIntent_scheme) journalRecord \<Rightarrow> bool" where
  "exactTransaction tx record \<longleftrightarrow>
     (let intent = jrIntent record in
        equalHex (otHash tx) (sgHash (jrSigned record)) \<and> otChainId tx = jiChainId intent
      \<and> equalHex (otFrom tx) (jiFrom intent)
      \<and> (case jiTo intent of None \<Rightarrow> otTo tx = None
         | Some t \<Rightarrow> (case otTo tx of None \<Rightarrow> False | Some t' \<Rightarrow> equalHex t' t))
      \<and> equalHex (otData tx) (jiData intent) \<and> otValue tx = jiValue intent \<and> otNonce tx = jiNonce intent)"

definition validReceipt :: "receiptEvidence \<Rightarrow> string \<Rightarrow> bool" where
  "validReceipt receipt h \<longleftrightarrow> equalHex (reTransactionHash receipt) h \<and> isTxHash (reBlockHash receipt)
     \<and> canonicalDec (reBlockNumber receipt) \<and> (reStatus receipt = 0 \<or> reStatus receipt = 1)"

definition validateRecord :: "'i journalRecord \<Rightarrow> 'i \<Rightarrow> string \<Rightarrow> ('i \<Rightarrow> js_error + string) \<Rightarrow> js_error + unit" where
  "validateRecord record intent schema canonical =
    bindE (failIf (jrSchema record \<noteq> schema) (Err ''Conflicting journal intent'')) (\<lambda>_.
    bindE (canonical (jrIntent record)) (\<lambda>stored.
    bindE (canonical intent) (\<lambda>wanted.
    bindE (failIf (stored \<noteq> wanted) (Err ''Conflicting journal intent'')) (\<lambda>_.
    bindE (failIf (\<not> isHexBytes (sgBytes (jrSigned record)) \<or> sgBytes (jrSigned record) = ''0x''
        \<or> \<not> isTxHash (sgHash (jrSigned record))
        \<or> jrPhase record \<notin> set [''signed'', ''submitting'', ''submitted'', ''succeeded'', ''reverted'']) (Err ''Invalid journal record'')) (\<lambda>_.
    failIf ((jrPhase record = ''succeeded'' \<or> jrPhase record = ''reverted'') \<and>
        (case jrReceipt record of None \<Rightarrow> True
         | Some r \<Rightarrow> \<not> validReceipt r (sgHash (jrSigned record))
             \<or> reStatus r \<noteq> (if jrPhase record = ''succeeded'' then 1 else 0)))
      (Err ''Invalid terminal journal receipt''))))))"

definition receiptMatchesBlock :: "receiptEvidence \<Rightarrow> finalizedBlock \<Rightarrow> string \<Rightarrow> bool" where
  "receiptMatchesBlock receipt block h \<longleftrightarrow> validReceipt receipt h
     \<and> equalHex (reBlockHash receipt) (fbHash block) \<and> reBlockNumber receipt = fbNumber block"

definition conflictsWithPrevious :: "receiptEvidence option \<Rightarrow> receiptEvidence \<Rightarrow> bool" where
  "conflictsWithPrevious previous new \<longleftrightarrow> (case previous of None \<Rightarrow> False
     | Some p \<Rightarrow> \<not> equalHex (reBlockHash p) (reBlockHash new)
         \<or> reBlockNumber p \<noteq> reBlockNumber new \<or> reStatus p \<noteq> reStatus new)"

section \<open>The journal\<close>

definition unresolvedJ :: "'i journalRecord \<Rightarrow> string \<Rightarrow> ('i journalRecord, 'i journalResult) journalM" where
  "unresolvedJ record reason = returnJ \<lparr>resStatus = ''unresolved'', resRecord = record, resReason = reason\<rparr>"

text \<open>The signed record of the run: a new one, inspected and written, or the stored one, inspected.\<close>

definition loadRecord :: "'m journalIntent_scheme \<Rightarrow> string \<Rightarrow> ('m journalIntent_scheme \<Rightarrow> js_error + string)
    \<Rightarrow> 'm journalIntent_scheme journalPorts \<Rightarrow> bool
    \<Rightarrow> ('m journalIntent_scheme journalRecord, 'm journalIntent_scheme journalRecord) journalM" where
  "loadRecord intent schema canonical ports observeOnly =
    bindJ (liftJ (case jpReadFails ports of None \<Rightarrow> Inr () | Some e \<Rightarrow> Inl e)) (\<lambda>_.
    bindJ readJ (\<lambda>loaded.
    case loaded of
      None \<Rightarrow>
        if observeOnly then liftJ (Inl (Err ''Custody observation requires an existing journal''))
        else
          bindJ (liftJ (jpSign ports intent)) (\<lambda>signed.
          let record = \<lparr>jrSchema = schema, jrIntent = intent, jrSigned = signed, jrPhase = ''signed'', jrReceipt = None\<rparr> in
          bindJ (liftJ (validateRecord record intent schema canonical)) (\<lambda>_.
          bindJ (liftJ (jpInspectSigned ports (sgBytes signed))) (\<lambda>tx.
          bindJ (liftJ (failIf (\<not> exactTransaction tx record)
            (Err ''Signed transaction does not match intent/hash''))) (\<lambda>_.
          bindJ (writeJ record) (\<lambda>_. returnJ record)))))
    | Some record \<Rightarrow>
        bindJ (liftJ (validateRecord record intent schema canonical)) (\<lambda>_.
        bindJ (liftJ (jpInspectSigned ports (sgBytes (jrSigned record)))) (\<lambda>tx.
        bindJ (liftJ (failIf (\<not> exactTransaction tx record)
          (Err ''Stored signed transaction does not match intent/hash''))) (\<lambda>_. returnJ record)))))"

text \<open>The answer to an observed transaction.\<close>

definition settleRecord :: "('m journalIntent_scheme) journalRecord \<Rightarrow> observedTransaction \<Rightarrow> receiptEvidence option
    \<Rightarrow> finalizedBlock option \<Rightarrow> ('m journalIntent_scheme journalRecord, 'm journalIntent_scheme journalResult) journalM" where
  "settleRecord record tx receiptO blockO =
    (if \<not> exactTransaction tx record then unresolvedJ record ''observed-transaction-mismatch''
     else case (receiptO, blockO) of
       (Some receipt, Some block) \<Rightarrow>
         if \<not> receiptMatchesBlock receipt block (sgHash (jrSigned record))
         then unresolvedJ record ''receipt-finalized-block-mismatch''
         else if conflictsWithPrevious (jrReceipt record) receipt
         then unresolvedJ record ''previous-finalized-receipt-conflict''
         else (let phase = (if reStatus receipt = 1 then ''succeeded'' else ''reverted'') in
           if jrPhase record \<noteq> phase
           then (let settled = record\<lparr>jrPhase := phase, jrReceipt := Some receipt\<rparr> in
             bindJ (writeJ settled) (\<lambda>_.
             returnJ \<lparr>resStatus = phase, resRecord = settled, resReason = ''exact-finalized-receipt''\<rparr>))
           else returnJ \<lparr>resStatus = phase, resRecord = record, resReason = ''exact-finalized-receipt''\<rparr>)
     | _ \<Rightarrow> unresolvedJ record ''awaiting-finalized-receipt'')"

text \<open>The one submission of a signed record that no node has seen.\<close>

definition submitRecord :: "('m journalIntent_scheme) journalRecord \<Rightarrow> 'm journalIntent_scheme journalPorts \<Rightarrow> bool
    \<Rightarrow> ('m journalIntent_scheme journalRecord, 'm journalIntent_scheme journalResult) journalM" where
  "submitRecord record ports observeOnly =
    (if jrPhase record \<noteq> ''signed'' then unresolvedJ record ''prior-submission-not-observed''
     else if observeOnly then unresolvedJ record ''signed-not-submitted''
     else (let submitting = record\<lparr>jrPhase := ''submitting''\<rparr>; submitted = record\<lparr>jrPhase := ''submitted''\<rparr> in
       bindJ (writeJ submitting) (\<lambda>_.
       bindJ (sendJ (sgBytes (jrSigned record))) (\<lambda>_.
       case jpBroadcast ports (sgBytes (jrSigned record)) of
         Inl _ \<Rightarrow> unresolvedJ submitting ''broadcast-outcome-unknown''
       | Inr returnedHash \<Rightarrow>
           if \<not> equalHex returnedHash (sgHash (jrSigned record)) then unresolvedJ submitting ''broadcast-hash-mismatch''
           else bindJ (writeJ submitted) (\<lambda>_. unresolvedJ submitted ''submitted-awaiting-observation'')))))"

text \<open>What follows the loading: the observation and the answer to it.\<close>

definition advanceRecord :: "('m journalIntent_scheme) journalRecord \<Rightarrow> 'm journalIntent_scheme journalPorts \<Rightarrow> bool
    \<Rightarrow> ('m journalIntent_scheme journalRecord, 'm journalIntent_scheme journalResult) journalM" where
  "advanceRecord record ports observeOnly =
    (case jpObserve ports (sgHash (jrSigned record)) of
      Inl _ \<Rightarrow> unresolvedJ record ''observation-unavailable''
    | Inr UnknownTx \<Rightarrow> unresolvedJ record ''observation-unknown''
    | Inr (ObservedTx tx receipt block) \<Rightarrow> settleRecord record tx receipt block
    | Inr NotFoundTx \<Rightarrow> submitRecord record ports observeOnly)"

definition runJournal :: "'m journalIntent_scheme \<Rightarrow> string \<Rightarrow> ('m journalIntent_scheme \<Rightarrow> js_error + string)
    \<Rightarrow> 'm journalIntent_scheme journalPorts \<Rightarrow> bool
    \<Rightarrow> ('m journalIntent_scheme journalRecord, 'm journalIntent_scheme journalResult) journalM" where
  "runJournal intent schema canonical ports observeOnly =
    bindJ (loadRecord intent schema canonical ports observeOnly) (\<lambda>record. advanceRecord record ports observeOnly)"

definition runEvmJournal :: "intentInput \<Rightarrow> intentInput \<Rightarrow> intentEnvelope journalPorts
    \<Rightarrow> (intentEnvelope journalRecord, intentEnvelope journalResult) journalM" where
  "runEvmJournal input expected ports =
    bindJ (liftJ (validateSepoliaIntent input expected)) (\<lambda>intent.
    runJournal intent ''agtmai-evm-journal-v1'' canonicalIntentJson ports False)"

section \<open>What a run leaves behind\<close>

lemma wp_unresolved [wp_simps]:
  "wp (unresolvedJ record reason) Q E s \<longleftrightarrow> Q \<lparr>resStatus = ''unresolved'', resRecord = record, resReason = reason\<rparr> s"
  by (simp add: unresolvedJ_def wp_simps)

text \<open>A record that replaces another one: the same signed transaction, and no way back to signed.\<close>

definition succeeds :: "'i journalRecord \<Rightarrow> 'i journalRecord \<Rightarrow> bool" where
  "succeeds r r' \<longleftrightarrow> jrSigned r' = jrSigned r \<and> jrIntent r' = jrIntent r \<and> (jrPhase r' = ''signed'' \<longrightarrow> jrPhase r = ''signed'')"

lemma succeeds_refl [simp]: "succeeds r r"
  by (simp add: succeeds_def)

lemma load_stored:
  assumes "jsStore s = Some r"
  shows "wp (loadRecord intent schema canonical ports observeOnly) (\<lambda>x t. x = r \<and> t = s) (\<lambda>t. t = s) s"
  using assms by (simp add: loadRecord_def wp_simps split: option.split sum.split)

lemma load_new:
  assumes "jsStore s = None"
  shows "wp (loadRecord intent schema canonical ports observeOnly)
    (\<lambda>x t. jsStore t = Some x \<and> jrPhase x = ''signed'' \<and> jrIntent x = intent \<and> jsSent t = jsSent s \<and> \<not> observeOnly) (\<lambda>t. jsSent t = jsSent s) s"
  using assms by (auto simp: loadRecord_def Let_def wp_simps split: option.split sum.split intro!: wp_any_write)

lemma settle_wp:
  assumes "jsStore s = Some r"
  shows "wp (settleRecord r tx receipt block)
    (\<lambda>x t. \<exists>r'. jsStore t = Some r' \<and> succeeds r r' \<and> jsSent t = jsSent s)
    (\<lambda>t. \<exists>r'. jsStore t = Some r' \<and> succeeds r r' \<and> jsSent t = jsSent s) s"
  using assms
  by (auto simp: settleRecord_def Let_def wp_simps succeeds_def split: option.split intro!: wp_any_write)

lemma submit_wp:
  assumes "jsStore s = Some r"
  shows "wp (submitRecord r ports observeOnly)
    (\<lambda>x t. \<exists>r'. jsStore t = Some r' \<and> succeeds r r' \<and> (jsSent t = jsSent s \<or> jrPhase r = ''signed'' \<and> \<not> observeOnly
        \<and> jrPhase r' \<noteq> ''signed'' \<and> jsSent t = jsSent s @ [sgBytes (jrSigned r)]))
    (\<lambda>t. \<exists>r'. jsStore t = Some r' \<and> succeeds r r' \<and> (jsSent t = jsSent s \<or> jrPhase r = ''signed'' \<and> \<not> observeOnly
        \<and> jrPhase r' \<noteq> ''signed'' \<and> jsSent t = jsSent s @ [sgBytes (jrSigned r)])) s"
  using assms
  by (auto simp: submitRecord_def Let_def wp_simps succeeds_def split: sum.split intro!: wp_any_write)

type_synonym 'i journalEnv = "'i journalPorts \<times> writeOutcome list \<times> bool"

text \<open>What a run leaves behind, given its ports, the outcomes of its writes and its mode.\<close>

definition journalRun :: "'m journalIntent_scheme \<Rightarrow> string \<Rightarrow> ('m journalIntent_scheme \<Rightarrow> js_error + string)
    \<Rightarrow> 'm journalIntent_scheme journalEnv
    \<Rightarrow> 'm journalIntent_scheme journalRecord journalState \<Rightarrow> 'm journalIntent_scheme journalRecord journalState" where
  "journalRun intent schema canonical env s =
    (case env of (ports, ws, observeOnly) \<Rightarrow> snd (runJournal intent schema canonical ports observeOnly (s\<lparr>jsWrites := ws\<rparr>)))"

definition journalStep :: "'i journalRecord \<Rightarrow> bool \<Rightarrow> 'i journalRecord journalState \<Rightarrow> 'i journalRecord journalState \<Rightarrow> bool" where
  "journalStep r observeOnly s t \<longleftrightarrow> (\<exists>r'. jsStore t = Some r' \<and> succeeds r r'
     \<and> (jsSent t = jsSent s \<or> jrPhase r = ''signed'' \<and> \<not> observeOnly \<and> jrPhase r' \<noteq> ''signed''
          \<and> jsSent t = jsSent s @ [sgBytes (jrSigned r)]))"

lemma advance_wp:
  assumes "jsStore s = Some r"
  shows "wp (advanceRecord r ports observeOnly) (\<lambda>x. journalStep r observeOnly s) (journalStep r observeOnly s) s"
  using assms
  by (auto simp: advanceRecord_def wp_simps journalStep_def split: sum.split evmObservation.split
      intro!: wp_mono[OF settle_wp] wp_mono[OF submit_wp])

lemma run_stored:
  assumes "jsStore s = Some r"
  shows "wp (runJournal intent schema canonical ports observeOnly) (\<lambda>x. journalStep r observeOnly s) (journalStep r observeOnly s) s"
  unfolding runJournal_def wp_bind
  by (rule wp_mono[OF load_stored[OF assms]]) (use advance_wp[OF assms] assms in \<open>auto simp: journalStep_def\<close>)

definition firstStep :: "bool \<Rightarrow> 'i journalRecord journalState \<Rightarrow> 'i journalRecord journalState \<Rightarrow> bool" where
  "firstStep observeOnly s t \<longleftrightarrow> jsSent t = jsSent s
     \<or> \<not> observeOnly \<and> (\<exists>r. jsStore t = Some r \<and> jrPhase r \<noteq> ''signed'' \<and> jsSent t = jsSent s @ [sgBytes (jrSigned r)])"

lemma advance_first:
  assumes "jsStore t = Some x \<and> jrPhase x = ''signed'' \<and> jrIntent x = intent \<and> jsSent t = jsSent s \<and> \<not> observeOnly"
  shows "wp (advanceRecord x ports observeOnly) (\<lambda>x. firstStep observeOnly s) (firstStep observeOnly s) t"
proof -
  from assms have t: "jsStore t = Some x" "jsSent t = jsSent s" "\<not> observeOnly" by simp_all
  show ?thesis
    by (rule wp_mono[OF advance_wp[OF t(1)]]) (auto simp: journalStep_def succeeds_def firstStep_def t)
qed

lemma run_new:
  assumes "jsStore s = None"
  shows "wp (runJournal intent schema canonical ports observeOnly) (\<lambda>x. firstStep observeOnly s) (firstStep observeOnly s) s"
  unfolding runJournal_def wp_bind
  by (rule wp_mono[OF load_new[OF assms] advance_first]) (simp_all add: firstStep_def)

lemma journalRun_stored:
  assumes "jsStore s = Some r"
  shows "journalStep r (snd (snd e)) s (journalRun intent schema canonical e s)"
proof -
  obtain ports ws observeOnly where e: "e = (ports, ws, observeOnly)" by (cases e)
  have "jsStore (s\<lparr>jsWrites := ws\<rparr>) = Some r" using assms by simp
  from wp_state[OF run_stored[OF this]] show ?thesis
    by (simp add: journalRun_def e journalStep_def)
qed

lemma journalRun_new:
  assumes "jsStore s = None"
  shows "firstStep (snd (snd e)) s (journalRun intent schema canonical e s)"
proof -
  obtain ports ws observeOnly where e: "e = (ports, ws, observeOnly)" by (cases e)
  have "jsStore (s\<lparr>jsWrites := ws\<rparr>) = None" using assms by simp
  from wp_state[OF run_new[OF this]] show ?thesis
    by (simp add: journalRun_def e firstStep_def)
qed

interpretation evm_journal: send_once "journalRun intent schema canonical" "\<lambda>r. jrPhase r = ''signed''" "\<lambda>r. sgBytes (jrSigned r)"
  for intent schema canonical
proof (unfold_locales, goal_cases)
  case (1 s r e)
  from journalRun_stored[OF 1(1), of e intent schema canonical] 1(2) show ?case
    by (auto simp: journalStep_def succeeds_def)
next
  case (2 s e)
  show ?case
  proof (cases "jsStore s")
    case None
    from journalRun_new[OF this, of e intent schema canonical] show ?thesis by (auto simp: firstStep_def)
  next
    case (Some r)
    from journalRun_stored[OF this, of e intent schema canonical] show ?thesis
      by (auto simp: journalStep_def succeeds_def)
  qed
next
  case (3 s r e)
  from journalRun_stored[OF 3, of e intent schema canonical] show ?case
    by (auto simp: journalStep_def succeeds_def)
qed

section \<open>What a send and a settled result rest on\<close>

definition recordOk :: "'m journalIntent_scheme \<Rightarrow> string \<Rightarrow> ('m journalIntent_scheme \<Rightarrow> js_error + string)
    \<Rightarrow> 'm journalIntent_scheme journalPorts \<Rightarrow> 'm journalIntent_scheme journalRecord \<Rightarrow> bool" where
  "recordOk intent schema canonical ports r \<longleftrightarrow> validateRecord r intent schema canonical = Inr ()
     \<and> (\<exists>tx. jpInspectSigned ports (sgBytes (jrSigned r)) = Inr tx \<and> exactTransaction tx r)"

lemma load_ok:
  "wp (loadRecord intent schema canonical ports observeOnly)
     (\<lambda>x t. jsStore t = Some x \<and> jsSent t = jsSent s \<and> recordOk intent schema canonical ports x \<and> (jsStore s = None \<or> jsStore s = Some x))
     (\<lambda>t. jsSent t = jsSent s) s"
  by (auto simp: loadRecord_def Let_def wp_simps recordOk_def failIf_def
      split: option.split sum.split if_splits intro!: wp_any_write)

text \<open>
  A record that says that a send may have happened, for the same signed transaction and intent. A run that
  has sent leaves one behind however it ends: the phase that says so was durable before the send.
\<close>

definition mayHaveSent :: "'i journalRecord \<Rightarrow> 'i journalRecord journalState \<Rightarrow> bool" where
  "mayHaveSent r t \<longleftrightarrow> (\<exists>r'. jsStore t = Some r' \<and> jrSigned r' = jrSigned r \<and> jrIntent r' = jrIntent r
     \<and> (jrPhase r' = ''submitting'' \<or> jrPhase r' = ''submitted''))"

definition sendsExact :: "'m journalIntent_scheme \<Rightarrow> string \<Rightarrow> ('m journalIntent_scheme \<Rightarrow> js_error + string)
    \<Rightarrow> 'm journalIntent_scheme journalPorts \<Rightarrow> bool \<Rightarrow> 'm journalIntent_scheme journalRecord journalState
    \<Rightarrow> 'm journalIntent_scheme journalRecord journalState \<Rightarrow> bool" where
  "sendsExact intent schema canonical ports observeOnly s t \<longleftrightarrow> jsSent t = jsSent s
     \<or> (\<exists>r. (jsStore s = None \<or> jsStore s = Some r) \<and> jrPhase r = ''signed'' \<and> recordOk intent schema canonical ports r
          \<and> jpObserve ports (sgHash (jrSigned r)) = Inr NotFoundTx \<and> \<not> observeOnly
          \<and> mayHaveSent r t \<and> jsSent t = jsSent s @ [sgBytes (jrSigned r)])"

lemma settle_sends_nothing:
  "jsSent t = sent \<Longrightarrow> wp (settleRecord x tx receipt block) (\<lambda>_ u. jsSent u = sent) (\<lambda>u. jsSent u = sent) t"
  by (auto simp: settleRecord_def Let_def wp_simps split: option.split intro!: wp_any_write)

lemma submit_sends:
  assumes "jsStore t = Some x" "jsSent t = sent"
  shows "wp (submitRecord x ports observeOnly)
     (\<lambda>_ u. jsSent u = sent \<or> \<not> observeOnly \<and> jrPhase x = ''signed'' \<and> mayHaveSent x u \<and> jsSent u = sent @ [sgBytes (jrSigned x)])
     (\<lambda>u. jsSent u = sent \<or> \<not> observeOnly \<and> jrPhase x = ''signed'' \<and> mayHaveSent x u \<and> jsSent u = sent @ [sgBytes (jrSigned x)]) t"
  using assms
  by (auto simp: submitRecord_def Let_def wp_simps mayHaveSent_def split: sum.split intro!: wp_any_write)

lemma advance_sends_exact:
  assumes "jsStore t = Some x \<and> jsSent t = jsSent s \<and> recordOk intent schema canonical ports x \<and> (jsStore s = None \<or> jsStore s = Some x)"
  shows "wp (advanceRecord x ports observeOnly) (\<lambda>_. sendsExact intent schema canonical ports observeOnly s)
    (sendsExact intent schema canonical ports observeOnly s) t"
proof -
  have t: "jsStore t = Some x" "jsSent t = jsSent s" using assms by simp_all
  show ?thesis
    using assms
    by (auto simp: advanceRecord_def wp_simps sendsExact_def split: sum.split evmObservation.split
        intro!: wp_mono[OF settle_sends_nothing] wp_mono[OF submit_sends[OF t]])
qed

lemma run_sends_exact:
  "wp (runJournal intent schema canonical ports observeOnly) (\<lambda>_. sendsExact intent schema canonical ports observeOnly s)
    (sendsExact intent schema canonical ports observeOnly s) s"
  unfolding runJournal_def wp_bind
  by (rule wp_mono[OF load_ok advance_sends_exact]) (simp_all add: sendsExact_def)

text \<open>A settled result: the observer's transaction, receipt and finalized block are the record's.\<close>

definition settledExact :: "'m journalIntent_scheme \<Rightarrow> string \<Rightarrow> ('m journalIntent_scheme \<Rightarrow> js_error + string)
    \<Rightarrow> 'm journalIntent_scheme journalPorts \<Rightarrow> 'm journalIntent_scheme journalResult
    \<Rightarrow> 'm journalIntent_scheme journalRecord journalState \<Rightarrow> bool" where
  "settledExact intent schema canonical ports result t \<longleftrightarrow> (\<exists>r tx receipt block.
     recordOk intent schema canonical ports r
   \<and> jpObserve ports (sgHash (jrSigned r)) = Inr (ObservedTx tx (Some receipt) (Some block))
   \<and> exactTransaction tx r \<and> receiptMatchesBlock receipt block (sgHash (jrSigned r))
   \<and> \<not> conflictsWithPrevious (jrReceipt r) receipt
   \<and> resStatus result = (if reStatus receipt = 1 then ''succeeded'' else ''reverted'')
   \<and> resRecord result = (if jrPhase r = resStatus result then r else r\<lparr>jrPhase := resStatus result, jrReceipt := Some receipt\<rparr>)
   \<and> jsStore t = Some (resRecord result))"

lemma settle_exact:
  assumes "jsStore t = Some x" "recordOk intent schema canonical ports x"
    "jpObserve ports (sgHash (jrSigned x)) = Inr (ObservedTx tx receipt block)"
  shows "wp (settleRecord x tx receipt block)
    (\<lambda>result u. resStatus result = ''unresolved'' \<or> settledExact intent schema canonical ports result u) (\<lambda>_. True) t"
proof (cases "\<exists>rc b. receipt = Some rc \<and> block = Some b")
  case False
  then show ?thesis by (cases receipt; cases block) (simp_all add: settleRecord_def wp_simps)
next
  case True
  then obtain rc b where p: "receipt = Some rc" "block = Some b" by blast
  define phase where "phase = (if reStatus rc = 1 then ''succeeded'' else ''reverted'')"
  show ?thesis
  proof (cases "exactTransaction tx x \<and> receiptMatchesBlock rc b (sgHash (jrSigned x)) \<and> \<not> conflictsWithPrevious (jrReceipt x) rc")
    case False
    then show ?thesis unfolding settleRecord_def p by (auto simp: wp_simps)
  next
    case c: True
    have settled: "settledExact intent schema canonical ports
        \<lparr>resStatus = phase, resRecord = r, resReason = ''exact-finalized-receipt''\<rparr> u"
      if "jsStore u = Some r" "r = (if jrPhase x = phase then x else x\<lparr>jrPhase := phase, jrReceipt := Some rc\<rparr>)" for r u
      unfolding settledExact_def using that c assms(2,3) p
      by (intro exI[of _ x] exI[of _ tx] exI[of _ rc] exI[of _ b]) (simp add: phase_def)
    have "settleRecord x tx receipt block =
        (if jrPhase x \<noteq> phase
         then bindJ (writeJ (x\<lparr>jrPhase := phase, jrReceipt := Some rc\<rparr>)) (\<lambda>_. returnJ
           \<lparr>resStatus = phase, resRecord = x\<lparr>jrPhase := phase, jrReceipt := Some rc\<rparr>, resReason = ''exact-finalized-receipt''\<rparr>)
         else returnJ \<lparr>resStatus = phase, resRecord = x, resReason = ''exact-finalized-receipt''\<rparr>)"
      using c by (simp add: settleRecord_def p Let_def phase_def)
    then show ?thesis
      using settled[of t x] settled[of _ "x\<lparr>jrPhase := phase, jrReceipt := Some rc\<rparr>"]
      by (cases "jrPhase x = phase") (auto simp: wp_simps assms(1) intro!: wp_any_write)
  qed
qed

lemma run_settled:
  "wp (runJournal intent schema canonical ports observeOnly)
    (\<lambda>result t. resStatus result = ''unresolved'' \<or> settledExact intent schema canonical ports result t) (\<lambda>_. True) s"
proof -
  have submit: "wp (submitRecord x ports observeOnly) (\<lambda>result t. resStatus result = ''unresolved'' \<or> Z result t) (\<lambda>_. True) t" for x t Z
    by (auto simp: submitRecord_def Let_def wp_simps split: sum.split intro!: wp_any_write)
  show ?thesis
    unfolding runJournal_def wp_bind
    by (rule wp_mono[OF load_ok])
      (auto simp: advanceRecord_def wp_simps split: sum.split evmObservation.split intro!: submit settle_exact)
qed

section \<open>Terminal records\<close>

text \<open>A record whose validation has accepted its terminal receipt is never changed.\<close>

definition isTerminal :: "'i journalRecord \<Rightarrow> bool" where
  "isTerminal r \<longleftrightarrow> jrPhase r = ''succeeded'' \<or> jrPhase r = ''reverted''"

lemma terminal_receipt:
  assumes "validateRecord r intent schema canonical = Inr ()" "isTerminal r"
  shows "\<exists>rc. jrReceipt r = Some rc \<and> validReceipt rc (sgHash (jrSigned r)) \<and> reStatus rc = (if jrPhase r = ''succeeded'' then 1 else 0)"
  using assms unfolding validateRecord_def bindE_Inr_iff failIf_Inr_iff isTerminal_def
  by (auto split: option.splits)

lemma settle_terminal:
  assumes "recordOk intent schema canonical ports r" "isTerminal r" "jsStore s = Some r"
  shows "wp (settleRecord r tx receipt block)
    (\<lambda>result t. jsStore t = Some r \<and> (resStatus result = ''unresolved'' \<or> resStatus result = jrPhase r)) (\<lambda>t. jsStore t = Some r) s"
proof -
  from assms obtain old where old: "jrReceipt r = Some old" "reStatus old = (if jrPhase r = ''succeeded'' then 1 else 0)"
    using terminal_receipt[of r intent schema canonical] by (auto simp: recordOk_def)
  have "jrPhase r = (if reStatus rc = 1 then ''succeeded'' else ''reverted'')" if "\<not> conflictsWithPrevious (jrReceipt r) rc" for rc
    using that old assms(2) by (auto simp: conflictsWithPrevious_def isTerminal_def split: if_splits)
  then show ?thesis
    using assms(3) by (auto simp: settleRecord_def Let_def wp_simps split: option.split)
qed

lemma run_terminal:
  assumes "jsStore s = Some r" "isTerminal r"
  shows "wp (runJournal intent schema canonical ports observeOnly)
    (\<lambda>result t. jsStore t = Some r \<and> (resStatus result = ''unresolved'' \<or> resStatus result = jrPhase r)) (\<lambda>t. jsStore t = Some r) s"
proof -
  have load: "wp (loadRecord intent schema canonical ports observeOnly)
      (\<lambda>x t. x = r \<and> t = s \<and> recordOk intent schema canonical ports r) (\<lambda>t. t = s) s"
    using assms(1) by (auto simp: loadRecord_def wp_simps recordOk_def failIf_def split: option.split sum.split if_splits)
  have submit: "wp (submitRecord r ports observeOnly)
    (\<lambda>result t. jsStore t = Some r \<and> (resStatus result = ''unresolved'' \<or> resStatus result = jrPhase r)) (\<lambda>t. jsStore t = Some r) s"
    using assms by (auto simp: submitRecord_def wp_simps isTerminal_def)
  show ?thesis
    unfolding runJournal_def wp_bind
    by (rule wp_mono[OF load])
      (use assms submit settle_terminal in \<open>auto simp: advanceRecord_def wp_simps split: sum.split evmObservation.split\<close>)
qed

lemma journalRun_terminal:
  assumes "jsStore s = Some r" "isTerminal r"
  shows "jsStore (journalRun intent schema canonical e s) = Some r"
proof -
  obtain ports ws observeOnly where e: "e = (ports, ws, observeOnly)" by (cases e)
  have "jsStore (s\<lparr>jsWrites := ws\<rparr>) = Some r" using assms by simp
  note w = run_terminal[OF this assms(2), of intent schema canonical ports observeOnly]
  have "wp (runJournal intent schema canonical ports observeOnly) (\<lambda>_ t. jsStore t = Some r) (\<lambda>t. jsStore t = Some r) (s\<lparr>jsWrites := ws\<rparr>)"
    by (rule wp_mono[OF w]) simp_all
  from wp_state[OF this] show ?thesis by (simp add: journalRun_def e)
qed

section \<open>Properties\<close>

text \<open>
  C8. One send: whatever the ports answer, whatever writes fail or are lost, and however often the
  journal is run, at most one transaction is ever sent, and it is the one of the stored record.
\<close>

theorem evm_journal_sends_once:
  assumes "runs (journalRun intent schema canonical) newJournal t"
  shows "jsSent t = [] \<or> (\<exists>r. jsStore t = Some r \<and> jsSent t = [sgBytes (jrSigned r)])"
  using assms by (rule evm_journal.at_most_one)

text \<open>
  C27. A run sends only what it has checked: signed bytes whose independent inspection is the intent
  itself, that no node has seen, and never when it may only observe. It sends only from a record in the phase
  signed, stored before or by this run, and whatever ends it after the send - the broadcaster's error, a
  write that is lost or that throws - the durable record already says that a send may have happened: the
  submitting record is written before the send.
\<close>

theorem evm_journal_sends_exact:
  "sendsExact intent schema canonical ports observeOnly s (journalRun intent schema canonical (ports, ws, observeOnly) s)"
proof -
  have "wp (runJournal intent schema canonical ports observeOnly)
      (\<lambda>_. sendsExact intent schema canonical ports observeOnly s) (sendsExact intent schema canonical ports observeOnly s)
      (s\<lparr>jsWrites := ws\<rparr>)"
    by (rule wp_mono[OF run_sends_exact]) (simp_all add: sendsExact_def)
  from wp_state[OF this] show ?thesis by (simp add: journalRun_def)
qed

text \<open>
  A run reports success or a revert only for an observed transaction that is the intent, with a
  receipt in the finalized block that does not contradict an earlier one, and its record is stored.
\<close>

lemma evm_journal_settles_exactly:
  assumes "runJournal intent schema canonical ports observeOnly s = (Inr result, t)"
  shows "resStatus result = ''unresolved'' \<or> settledExact intent schema canonical ports result t"
  using wp_result[OF run_settled assms] .

text \<open>
  A settled outcome is final: after any further runs the record is the same.
\<close>

lemma evm_journal_terminal_final:
  assumes "runs (journalRun intent schema canonical) s t" "jsStore s = Some r" "isTerminal r"
  shows "jsStore t = Some r"
  using assms by (induction rule: runs.induct) (simp_all add: journalRun_terminal)

section \<open>A sample\<close>

text \<open>A signer, an inspector and a broadcaster that agree, and an observer that answers what it is given.\<close>

definition sampleIntent :: journalIntent where
  "sampleIntent = \<lparr>jiChainId = ''11155111'', jiFrom = ''0xaa'', jiTo = Some ''0xbb'', jiData = ''0xcd'', jiValue = ''0'', jiNonce = ''7''\<rparr>"

definition sampleCanonical :: "journalIntent \<Rightarrow> js_error + string" where
  "sampleCanonical i = Inr (jiData i)"

definition sampleTxHash :: string where
  "sampleTxHash = ''0x'' @ replicate 64 (CHR ''e'')"

definition sampleTx :: observedTransaction where
  "sampleTx = \<lparr>otHash = sampleTxHash, otChainId = ''11155111'', otFrom = ''0xAA'', otTo = Some ''0xBB'', otData = ''0xcd'',
     otValue = ''0'', otNonce = ''7''\<rparr>"

definition samplePorts :: "evmObservation \<Rightarrow> journalIntent journalPorts" where
  "samplePorts ob = \<lparr>jpReadFails = None, jpSign = (\<lambda>_. Inr \<lparr>sgBytes = ''0x01'', sgHash = sampleTxHash\<rparr>),
     jpInspectSigned = (\<lambda>_. Inr sampleTx), jpObserve = (\<lambda>_. Inr ob), jpBroadcast = (\<lambda>_. Inr sampleTxHash)\<rparr>"

definition sampleRecord :: "string \<Rightarrow> receiptEvidence option \<Rightarrow> journalIntent journalRecord" where
  "sampleRecord phase receipt = \<lparr>jrSchema = ''s'', jrIntent = sampleIntent,
     jrSigned = \<lparr>sgBytes = ''0x01'', sgHash = sampleTxHash\<rparr>, jrPhase = phase, jrReceipt = receipt\<rparr>"

definition sampleSent :: "journalIntent journalRecord journalState" where
  "sampleSent = \<lparr>jsStore = Some (sampleRecord ''submitted'' None), jsSent = [''0x01''], jsWrites = []\<rparr>"

definition sampleReceipt :: receiptEvidence where
  "sampleReceipt = \<lparr>reTransactionHash = sampleTxHash, reBlockHash = sampleTxHash, reBlockNumber = ''5'', reStatus = 1\<rparr>"

definition sampleFinal :: evmObservation where
  "sampleFinal = ObservedTx sampleTx (Some sampleReceipt) (Some \<lparr>fbHash = sampleTxHash, fbNumber = ''5''\<rparr>)"

definition sampleSettled :: "journalIntent journalRecord journalState" where
  "sampleSettled = sampleSent\<lparr>jsStore := Some (sampleRecord ''succeeded'' (Some sampleReceipt))\<rparr>"

lemma sample_checks:
  "validateRecord (sampleRecord ''signed'' None) sampleIntent ''s'' sampleCanonical = Inr ()"
  "validateRecord (sampleRecord ''submitted'' None) sampleIntent ''s'' sampleCanonical = Inr ()"
  "exactTransaction sampleTx (sampleRecord phase receipt)"
  "receiptMatchesBlock sampleReceipt \<lparr>fbHash = sampleTxHash, fbNumber = ''5''\<rparr> sampleTxHash"
  by code_simp+

lemma sample_run: "journalRun sampleIntent ''s'' sampleCanonical (samplePorts NotFoundTx, [], False) newJournal = sampleSent"
  using sample_checks(1,3)
  by (simp add: Let_def journalRun_def runJournal_def loadRecord_def advanceRecord_def submitRecord_def newJournal_def samplePorts_def
      bindJ_def liftJ_def readJ_def writeJ_def sendJ_def returnJ_def unresolvedJ_def sampleRecord_def equalHex_def sampleSent_def)

lemma sample_settle: "runJournal sampleIntent ''s'' sampleCanonical (samplePorts sampleFinal) False sampleSent
  = (Inr \<lparr>resStatus = ''succeeded'', resRecord = sampleRecord ''succeeded'' (Some sampleReceipt),
       resReason = ''exact-finalized-receipt''\<rparr>, sampleSettled)"
  using sample_checks(2,3,4)
  by (simp add: Let_def runJournal_def loadRecord_def advanceRecord_def settleRecord_def samplePorts_def sampleFinal_def
      bindJ_def liftJ_def readJ_def writeJ_def returnJ_def unresolvedJ_def sampleRecord_def sampleSent_def sampleSettled_def
      conflictsWithPrevious_def sampleReceipt_def)

lemma sample_sent: "runs (journalRun sampleIntent ''s'' sampleCanonical) newJournal sampleSent"
  using runs.more[OF runs.none] sample_run by metis

lemma evm_journal_sends_once_witness:
  "jsSent sampleSent = [''0x01''] \<and> (\<exists>r. jsStore sampleSent = Some r \<and> jsSent sampleSent = [sgBytes (jrSigned r)])"
proof -
  have "jsSent sampleSent = [''0x01'']" by (simp add: sampleSent_def)
  with evm_journal_sends_once[OF sample_sent] show ?thesis by auto
qed

end
