(* ===== verification/Base64.thy ===== *)
theory Base64
  imports Quantity
begin

text \<open>
  Base64 text of bytes (\<open>buffer.toString("base64")\<close>), the check that a text is canonical base64,
  and the base58 addresses of Solana (\<open>solanaPublicKeyBytes\<close> of
  \<open>tooling/testnet-ccip/src/domain/solana-mint.ts\<close>).
\<close>

section \<open>Base64\<close>

definition base64Char :: "nat \<Rightarrow> char" where
  "base64Char d = (if d < 26 then char_of (65 + d) else if d < 52 then char_of (71 + d)
     else if d < 62 then char_of (d - 4) else if d = 62 then CHR ''+'' else CHR ''/'')"

definition base64Val :: "char \<Rightarrow> nat" where
  "base64Val c = (let n = of_char c in if 65 \<le> n \<and> n \<le> 90 then n - 65 else if 97 \<le> n \<and> n \<le> 122 then n - 71
     else if 48 \<le> n \<and> n \<le> 57 then n + 4 else if n = 43 then 62 else 63)"

fun base64Encode :: "nat list \<Rightarrow> string" where
  "base64Encode (a # b # c # bs) = base64Char (a div 4) # base64Char (16 * (a mod 4) + b div 16)
     # base64Char (4 * (b mod 16) + c div 64) # base64Char (c mod 64) # base64Encode bs"
| "base64Encode [a, b] = [base64Char (a div 4), base64Char (16 * (a mod 4) + b div 16), base64Char (4 * (b mod 16)), CHR ''='']"
| "base64Encode [a] = [base64Char (a div 4), base64Char (16 * (a mod 4)), CHR ''='', CHR ''='']"
| "base64Encode [] = []"

text \<open>
  \<open>Buffer.from(text, "base64")\<close> of canonical text; for any other text the code compares the
  re-encoded bytes with the text and rejects it, as the definition below does whatever the bytes.
\<close>

fun base64Decode :: "string \<Rightarrow> nat list" where
  "base64Decode (w # x # y # z # s) =
     (if z = CHR ''='' then
        if y = CHR ''='' then [4 * base64Val w + base64Val x div 16]
        else [4 * base64Val w + base64Val x div 16, 16 * (base64Val x mod 16) + base64Val y div 4]
      else (4 * base64Val w + base64Val x div 16) # (16 * (base64Val x mod 16) + base64Val y div 4)
        # (64 * (base64Val y mod 4) + base64Val z) # base64Decode s)"
| "base64Decode _ = []"

definition isBase64 :: "string \<Rightarrow> bool" where
  "isBase64 value \<longleftrightarrow> value \<noteq> [] \<and> base64Encode (base64Decode value) = value"

lemma base64Val_char [simp]:
  assumes "d < 64"
  shows "base64Val (base64Char d) = d" "base64Char d \<noteq> CHR ''=''"
proof -
  consider "d < 26" | "26 \<le> d" "d < 52" | "52 \<le> d" "d < 62" | "d = 62" | "d = 63" using assms by linarith
  then have "base64Val (base64Char d) = d \<and> (of_char (base64Char d) :: nat) \<noteq> 61"
    by cases (auto simp: base64Char_def base64Val_def Let_def of_char_of mod_less)
  then show "base64Val (base64Char d) = d" "base64Char d \<noteq> CHR ''=''" by auto
qed

lemma base64_decode_encode [simp]:
  "list_all (\<lambda>b. b < 256) bs \<Longrightarrow> base64Decode (base64Encode bs) = bs"
proof (induction bs rule: base64Encode.induct)
  case (1 a b c bs)
  then have l: "a div 4 < 64" "16 * (a mod 4) + b div 16 < 64" "4 * (b mod 16) + c div 64 < 64" "c mod 64 < 64" by auto
  have "4 * (a div 4) + (16 * (a mod 4) + b div 16) div 16 = a" "16 * ((16 * (a mod 4) + b div 16) mod 16) + (4 * (b mod 16) + c div 64) div 4 = b"
    "64 * ((4 * (b mod 16) + c div 64) mod 4) + c mod 64 = c"
    using 1 by auto
  with 1 show ?case by (simp add: base64Val_char[OF l(1)] base64Val_char[OF l(2)] base64Val_char[OF l(3)] base64Val_char[OF l(4)])
next
  case (2 a b)
  then have l: "a div 4 < 64" "16 * (a mod 4) + b div 16 < 64" "4 * (b mod 16) < 64" by auto
  have "4 * (a div 4) + (16 * (a mod 4) + b div 16) div 16 = a" "16 * ((16 * (a mod 4) + b div 16) mod 16) + (4 * (b mod 16)) div 4 = b"
    using 2 by auto
  with 2 show ?case by (simp add: base64Val_char[OF l(1)] base64Val_char[OF l(2)] base64Val_char[OF l(3)])
next
  case (3 a)
  then have l: "a div 4 < 64" "16 * (a mod 4) < 64" by auto
  with 3 show ?case by simp
qed simp

lemma base64_inj:
  "list_all (\<lambda>b. b < 256) as \<Longrightarrow> list_all (\<lambda>b. b < 256) bs \<Longrightarrow> base64Encode as = base64Encode bs \<longleftrightarrow> as = bs"
  by (metis base64_decode_encode)

lemma base64_text: "list_all (\<lambda>b. b < 256) bs \<Longrightarrow> base64Encode bs = v \<Longrightarrow> base64Decode v = bs"
  by auto

section \<open>Base58\<close>

definition base58Alphabet :: string where
  "base58Alphabet = ''123456789ABCDEFGHJKLMNPQRSTUVWXYZabcdefghijkmnopqrstuvwxyz''"

text \<open>\<open>alphabet.indexOf(character)\<close>\<close>

fun indexOfChar :: "string \<Rightarrow> char \<Rightarrow> nat option" where
  "indexOfChar [] c = None"
| "indexOfChar (x # xs) c = (if x = c then Some 0 else map_option Suc (indexOfChar xs c))"

fun base58Value :: "string \<Rightarrow> nat \<Rightarrow> nat option" where
  "base58Value [] n = Some n"
| "base58Value (c # s) n = (case indexOfChar base58Alphabet c of None \<Rightarrow> None | Some d \<Rightarrow> base58Value s (58 * n + d))"

text \<open>\<open>/^[1-9A-HJ-NP-Za-km-z]{min,max}$/\<close>\<close>

definition matchesBase58 :: "nat \<Rightarrow> nat \<Rightarrow> string \<Rightarrow> bool" where
  "matchesBase58 lo hi s \<longleftrightarrow> lo \<le> length s \<and> length s \<le> hi \<and> list_all (\<lambda>c. c \<in> set base58Alphabet) s"

definition mintErr :: js_error where
  "mintErr = Err ''Invalid test-only Solana mint intent''"

definition solanaPublicKeyBytes :: "string \<Rightarrow> js_error + nat list" where
  "solanaPublicKeyBytes address =
    (if length address < 32 \<or> length address > 44 then Inl mintErr
     else case base58Value address 0 of
       None \<Rightarrow> Inl mintErr
     | Some n \<Rightarrow>
         let significant = (if n = 0 then [] else bigEndian n);
             leading = length (takeWhile (\<lambda>c. c = CHR ''1'') address)
         in if leading + length significant \<noteq> 32 then Inl mintErr
            else Inr (replicate leading 0 @ significant))"

section \<open>Addresses determine their bytes and are determined by them\<close>

lemma indexOfChar_inj: "indexOfChar xs c = Some i \<Longrightarrow> indexOfChar xs d = Some i \<Longrightarrow> c = d"
  by (induction xs arbitrary: i) (auto split: if_splits)

lemma indexOfChar_less: "indexOfChar xs c = Some i \<Longrightarrow> i < length xs"
  by (induction xs arbitrary: i) (auto split: if_splits)

lemma base58_digit: "indexOfChar base58Alphabet c = Some d \<Longrightarrow> d < 58"
  using indexOfChar_less[of base58Alphabet c d] by (simp add: base58Alphabet_def)

lemma base58_zero: "indexOfChar base58Alphabet c = Some 0 \<longleftrightarrow> c = CHR ''1''"
  by (auto simp: base58Alphabet_def)

lemma base58Value_snoc:
  "base58Value (s @ [c]) n = (case base58Value s n of None \<Rightarrow> None
     | Some m \<Rightarrow> (case indexOfChar base58Alphabet c of None \<Rightarrow> None | Some d \<Rightarrow> Some (58 * m + d)))"
  by (induction s arbitrary: n) (auto split: option.split)

lemma base58Value_pos:
  "base58Value s 0 = Some n \<Longrightarrow> s \<noteq> [] \<Longrightarrow> hd s \<noteq> CHR ''1'' \<Longrightarrow> 0 < n"
proof (induction s arbitrary: n rule: rev_induct)
  case (snoc c s)
  then obtain m d where m: "base58Value s 0 = Some m" "indexOfChar base58Alphabet c = Some d" "n = 58 * m + d"
    by (auto simp: base58Value_snoc split: option.splits)
  show ?case
  proof (cases "s = []")
    case True
    with snoc m base58_zero[of c] show ?thesis by (cases d) auto
  next
    case False
    with snoc m show ?thesis by simp
  qed
qed simp

lemma base58Value_inj:
  "base58Value s 0 = Some n \<Longrightarrow> base58Value t 0 = Some n \<Longrightarrow> (s \<noteq> [] \<longrightarrow> hd s \<noteq> CHR ''1'') \<Longrightarrow>
   (t \<noteq> [] \<longrightarrow> hd t \<noteq> CHR ''1'') \<Longrightarrow> s = t"
proof (induction s arbitrary: n t rule: rev_induct)
  case Nil
  then show ?case using base58Value_pos[of t n] by auto
next
  case (snoc c s)
  then have pos: "0 < n" using base58Value_pos[of "s @ [c]" n] by simp
  with snoc.prems(2) have "t \<noteq> []" by auto
  then obtain t' e where t: "t = t' @ [e]" by (metis rev_exhaust)
  from snoc.prems t obtain m d m' d' where
      m: "base58Value s 0 = Some m" "indexOfChar base58Alphabet c = Some d" "n = 58 * m + d"
      and m': "base58Value t' 0 = Some m'" "indexOfChar base58Alphabet e = Some d'" "n = 58 * m' + d'"
    by (auto simp: base58Value_snoc split: option.splits)
  have "(58 * m + d) div 58 = m" "(58 * m' + d') div 58 = m'" "(58 * m + d) mod 58 = d" "(58 * m' + d') mod 58 = d'"
    using base58_digit[OF m(2)] base58_digit[OF m'(2)] by simp_all
  then have "m = m'" "d = d'" using m(3) m'(3) by metis+
  moreover have "s = t'"
    using snoc.IH[of m t'] m(1) m'(1) snoc.prems(3,4) t \<open>m = m'\<close> by (auto simp: hd_append split: if_splits)
  ultimately show ?case using t m(2) m'(2) indexOfChar_inj by fastforce
qed

lemma base58Value_ones: "base58Value (replicate k (CHR ''1'') @ s) 0 = base58Value s 0"
  by (induction k) (simp_all add: base58Alphabet_def)

lemma split_ones:
  "s = replicate (length (takeWhile (\<lambda>c. c = CHR ''1'') s)) (CHR ''1'') @ dropWhile (\<lambda>c. c = CHR ''1'') s"
proof -
  have "takeWhile (\<lambda>c. c = CHR ''1'') s = replicate (length (takeWhile (\<lambda>c. c = CHR ''1'') s)) (CHR ''1'')"
    by (induction s) auto
  then show ?thesis using takeWhile_dropWhile_id[of "\<lambda>c. c = CHR ''1''" s] by metis
qed

lemma hd_bigEndian: "0 < n \<Longrightarrow> bigEndian n \<noteq> [] \<and> hd (bigEndian n) \<noteq> 0"
proof (induction n rule: bigEndian.induct)
  case (1 n)
  show ?case
  proof (cases "n div 256 = 0")
    case True
    with 1 show ?thesis by (simp add: bigEndian.simps[of n] bigEndian.simps[of 0] mod_eq_self_iff_div_eq_0[THEN iffD2])
  next
    case False
    with 1 show ?thesis by (simp add: bigEndian.simps[of n])
  qed
qed

lemma zeros_unambiguous:
  assumes "replicate j 0 @ xs = replicate k 0 @ (ys :: nat list)" "xs \<noteq> [] \<longrightarrow> hd xs \<noteq> 0" "ys \<noteq> [] \<longrightarrow> hd ys \<noteq> 0"
  shows "j = k \<and> xs = ys"
proof -
  have "takeWhile (\<lambda>b. b = 0) (replicate i 0 @ zs) = replicate i 0" if "zs \<noteq> [] \<longrightarrow> hd zs \<noteq> 0" for i and zs :: "nat list"
    using that by (cases zs) (simp_all add: takeWhile_append)
  then have "replicate j (0 :: nat) = replicate k 0" using assms by metis
  then have "j = k" by (metis length_replicate)
  with assms(1) show ?thesis by simp
qed

lemma publicKey_Inr:
  assumes "solanaPublicKeyBytes a = Inr bs"
  shows "length bs = 32" "\<exists>k r n. a = replicate k (CHR ''1'') @ r \<and> (r \<noteq> [] \<longrightarrow> hd r \<noteq> CHR ''1'') \<and> base58Value r 0 = Some n
    \<and> bs = replicate k 0 @ (if n = 0 then [] else bigEndian n)"
proof -
  let ?k = "length (takeWhile (\<lambda>c. c = CHR ''1'') a)" and ?r = "dropWhile (\<lambda>c. c = CHR ''1'') a"
  from assms obtain n where n: "base58Value a 0 = Some n" "bs = replicate ?k 0 @ (if n = 0 then [] else bigEndian n)"
      and l: "length bs = 32"
    by (auto simp: solanaPublicKeyBytes_def Let_def split: if_splits option.splits)
  show "length bs = 32" by (rule l)
  have "base58Value a 0 = base58Value (replicate ?k (CHR ''1'') @ ?r) 0" by (subst split_ones[of a]) (rule refl)
  also have "\<dots> = base58Value ?r 0" by (rule base58Value_ones)
  finally have "base58Value ?r 0 = Some n" using n by simp
  moreover have "?r \<noteq> [] \<longrightarrow> hd ?r \<noteq> CHR ''1''" using hd_dropWhile by blast
  ultimately show "\<exists>k r n. a = replicate k (CHR ''1'') @ r \<and> (r \<noteq> [] \<longrightarrow> hd r \<noteq> CHR ''1'') \<and> base58Value r 0 = Some n
    \<and> bs = replicate k 0 @ (if n = 0 then [] else bigEndian n)"
    using split_ones[of a] n(2) by blast
qed

text \<open>
  An address names one account: the bytes of an accepted address are 32, and no two addresses
  have the same bytes.
\<close>

lemma solanaPublicKeyBytes_injective:
  assumes "solanaPublicKeyBytes a = Inr bs" "solanaPublicKeyBytes b = Inr bs"
  shows "length bs = 32 \<and> a = b"
proof -
  from publicKey_Inr(2)[OF assms(1)] obtain j r m where
      a: "a = replicate j (CHR ''1'') @ r" "r \<noteq> [] \<longrightarrow> hd r \<noteq> CHR ''1''" "base58Value r 0 = Some m"
        "bs = replicate j 0 @ (if m = 0 then [] else bigEndian m)" by blast
  from publicKey_Inr(2)[OF assms(2)] obtain k t n where
      b: "b = replicate k (CHR ''1'') @ t" "t \<noteq> [] \<longrightarrow> hd t \<noteq> CHR ''1''" "base58Value t 0 = Some n"
        "bs = replicate k 0 @ (if n = 0 then [] else bigEndian n)" by blast
  have "j = k \<and> (if m = 0 then [] else bigEndian m) = (if n = 0 then [] else bigEndian n)"
    by (rule zeros_unambiguous) (use a(4) b(4) hd_bigEndian in \<open>auto split: if_splits\<close>)
  then have jk: "j = k" and e: "(if m = 0 then [] else bigEndian m) = (if n = 0 then [] else bigEndian n)" by blast+
  have "(if i = 0 then [] else bigEndian i) = bigEndian i" for i by (simp add: bigEndian.simps[of 0])
  with e have "bigEndian m = bigEndian n" by metis
  then have mn: "m = n" by (rule bigEndian_inj)
  have "r = t" using base58Value_inj[OF a(3) b(3)[folded mn] a(2) b(2)] .
  with a(1) b(1) jk publicKey_Inr(1)[OF assms(1)] show ?thesis by simp
qed

end
