(* ===== verification/SolanaMint.thy ===== *)
theory SolanaMint
  imports Base64 EvmIntent
begin

text \<open>
  \<open>tooling/testnet-ccip/src/domain/solana-mint.ts\<close>: the check that a decoded Solana transaction is
  exactly the creation of the test mint.
\<close>

definition SYSTEM_PROGRAM :: string where "SYSTEM_PROGRAM = ''11111111111111111111111111111111''"
definition SPL_TOKEN_PROGRAM :: string where "SPL_TOKEN_PROGRAM = ''TokenkegQfeZyiNwAJbNbGKPFXCWuBvf9Ss623VQ5DA''"

record accountMeta =
  amAddress :: string
  amIsSigner :: bool
  amIsWritable :: bool

record mintInstruction =
  miProgramId :: string
  miAccounts :: "accountMeta list"
  miDataBase64 :: string

record mintIntent =
  siFeePayer :: string
  siInstructions :: "mintInstruction list"

text \<open>Every expectation says that it is for tests, and its cluster.\<close>

record expectedScope =
  meTestOnly :: bool
  meCluster :: string

record mintExpectation = expectedScope +
  mePayer :: string
  meMint :: string
  meRentLamports :: decimalInput

record mintEnvelope =
  mvSchema :: string
  mvCluster :: string
  mvPayer :: string
  mvMint :: string
  mvRentLamports :: string
  mvDecimals :: int
  mvInitialSupply :: string
  mvFreezeAuthority :: "string option"
  mvInstructions :: "mintInstruction list"

section \<open>Bytes\<close>

definition littleEndian :: "nat list \<Rightarrow> nat" where
  "littleEndian bs = foldr (\<lambda>b n. b + 256 * n) bs 0"

fun leBytes :: "nat \<Rightarrow> nat \<Rightarrow> nat list" where
  "leBytes 0 n = []"
| "leBytes (Suc k) n = (n mod 256) # leBytes k (n div 256)"

lemma length_leBytes [simp]: "length (leBytes k n) = k"
  by (induction k arbitrary: n) simp_all

lemma leBytes_bytes: "list_all (\<lambda>b. b < 256) (leBytes k n)"
  by (induction k arbitrary: n) simp_all

lemma littleEndian_leBytes: "n < 256 ^ k \<Longrightarrow> littleEndian (leBytes k n) = n"
proof (induction k arbitrary: n)
  case (Suc k)
  then have "n div 256 < 256 ^ k" by (simp add: less_mult_imp_div_less mult.commute)
  with Suc show ?case by (simp add: littleEndian_def)
qed (simp add: littleEndian_def)

lemma leBytes_littleEndian: "list_all (\<lambda>b. b < 256) bs \<Longrightarrow> leBytes (length bs) (littleEndian bs) = bs"
  by (induction bs) (simp_all add: littleEndian_def)

lemma littleEndian_eq:
  assumes "list_all (\<lambda>b. b < 256) bs" "length bs = k" "n < 256 ^ k"
  shows "littleEndian bs = n \<longleftrightarrow> bs = leBytes k n"
  using assms leBytes_littleEndian littleEndian_leBytes by metis

text \<open>The decoded bytes of a text of the exact length in canonical base64.\<close>

definition mintData :: "string \<Rightarrow> nat \<Rightarrow> js_error + nat list" where
  "mintData encoded len =
    (let decoded = base64Decode encoded in
     if length decoded \<noteq> len \<or> base64Encode decoded \<noteq> encoded then Inl mintErr else Inr decoded)"

section \<open>The check\<close>

definition checkAccount :: "accountMeta \<Rightarrow> string \<Rightarrow> js_error + unit" where
  "checkAccount account address =
    failIf (amAddress account \<noteq> address \<or> \<not> amIsWritable account \<or> \<not> amIsSigner account) mintErr"

definition validateExpectation :: "mintExpectation \<Rightarrow> js_error + int \<times> nat list" where
  "validateExpectation expected =
    bindE (failIf (\<not> meTestOnly expected \<or> meCluster expected \<noteq> ''solana-devnet'' \<or> mePayer expected = meMint expected
        \<or> mePayer expected \<in> set [SYSTEM_PROGRAM, SPL_TOKEN_PROGRAM]
        \<or> meMint expected \<in> set [SYSTEM_PROGRAM, SPL_TOKEN_PROGRAM]) mintErr) (\<lambda>_.
    bindE (solanaPublicKeyBytes (mePayer expected)) (\<lambda>payerBytes.
    bindE (solanaPublicKeyBytes (meMint expected)) (\<lambda>_.
    bindE (case meRentLamports expected of BigIntInput n \<Rightarrow> Inr n
           | TextInput s \<Rightarrow> if canonicalDec s \<and> s \<noteq> ''0'' then Inr (int (undec s)) else Inl mintErr) (\<lambda>rent.
    if rent \<le> 0 \<or> rent > 10000000 then Inl mintErr else Inr (rent, payerBytes)))))"

definition verifySolanaMintIntent :: "mintIntent \<Rightarrow> mintExpectation \<Rightarrow> js_error + mintEnvelope" where
  "verifySolanaMintIntent intent expected =
    bindE (validateExpectation expected) (\<lambda>(rent, payerBytes).
    if siFeePayer intent \<noteq> mePayer expected then Inl mintErr
    else case siInstructions intent of
      [create, init] \<Rightarrow>
        if miProgramId create \<noteq> SYSTEM_PROGRAM \<or> miProgramId init \<noteq> SPL_TOKEN_PROGRAM then Inl mintErr
        else (case (miAccounts create, miAccounts init) of
          ([a, b], [c]) \<Rightarrow>
            bindE (checkAccount a (mePayer expected)) (\<lambda>_.
            bindE (checkAccount b (meMint expected)) (\<lambda>_.
            bindE (checkAccount c (meMint expected)) (\<lambda>_.
            bindE (mintData (miDataBase64 create) 52) (\<lambda>createData.
            bindE (if littleEndian (take 4 createData) \<noteq> 0 \<or> int (littleEndian (take 8 (drop 4 createData))) \<noteq> rent
                \<or> littleEndian (take 8 (drop 12 createData)) \<noteq> 82 then Inl mintErr
              else bindE (solanaPublicKeyBytes SPL_TOKEN_PROGRAM) (\<lambda>tokenProgram.
                failIf (drop 20 createData \<noteq> tokenProgram) mintErr)) (\<lambda>_.
            bindE (mintData (miDataBase64 init) 35) (\<lambda>initData.
            if initData ! 0 \<noteq> 20 \<or> initData ! 1 \<noteq> 9 \<or> take 32 (drop 2 initData) \<noteq> payerBytes \<or> initData ! 34 \<noteq> 0
            then Inl mintErr
            else Inr \<lparr>mvSchema = ''agtmai-solana-mint-v1'', mvCluster = ''solana-devnet'', mvPayer = mePayer expected,
              mvMint = meMint expected, mvRentLamports = decInt rent, mvDecimals = 9, mvInitialSupply = ''0'',
              mvFreezeAuthority = None, mvInstructions = siInstructions intent\<rparr>))))))
        | _ \<Rightarrow> Inl mintErr)
    | _ \<Rightarrow> Inl mintErr)"

section \<open>The one transaction\<close>

text \<open>The two instructions of a mint, byte for byte.\<close>

definition mintInstructions :: "mintExpectation \<Rightarrow> int \<Rightarrow> nat list \<Rightarrow> nat list \<Rightarrow> mintInstruction list" where
  "mintInstructions expected rent payerBytes tokenProgram =
    (let signer = (\<lambda>address. \<lparr>amAddress = address, amIsSigner = True, amIsWritable = True\<rparr>) in
     [\<lparr>miProgramId = SYSTEM_PROGRAM, miAccounts = [signer (mePayer expected), signer (meMint expected)],
        miDataBase64 = base64Encode (leBytes 4 0 @ leBytes 8 (nat rent) @ leBytes 8 82 @ tokenProgram)\<rparr>,
      \<lparr>miProgramId = SPL_TOKEN_PROGRAM, miAccounts = [signer (meMint expected)],
        miDataBase64 = base64Encode ([20, 9] @ payerBytes @ [0])\<rparr>])"

definition mintEnvelopeOf :: "mintExpectation \<Rightarrow> int \<Rightarrow> mintInstruction list \<Rightarrow> mintEnvelope" where
  "mintEnvelopeOf expected rent ixs = \<lparr>mvSchema = ''agtmai-solana-mint-v1'', mvCluster = ''solana-devnet'',
     mvPayer = mePayer expected, mvMint = meMint expected, mvRentLamports = decInt rent, mvDecimals = 9,
     mvInitialSupply = ''0'', mvFreezeAuthority = None, mvInstructions = ixs\<rparr>"

lemma base64Val_less: "base64Val c < 64"
  by (auto simp: base64Val_def Let_def)

lemma six_bits:
  fixes a b :: nat
  assumes "a < 64" "b < 64"
  shows "4 * a + b div 16 < 256" "16 * (a mod 16) + b div 4 < 256" "64 * (a mod 4) + b < 256"
proof -
  have "b div 16 < 4" using assms(2) by (simp add: div_less_iff_less_mult)
  then show "4 * a + b div 16 < 256" using assms(1) by linarith
  have "b div 4 < 16" using assms(2) by (simp add: div_less_iff_less_mult)
  moreover have "a mod 16 < 16" by simp
  ultimately show "16 * (a mod 16) + b div 4 < 256" by linarith
  have "a mod 4 < 4" by simp
  then show "64 * (a mod 4) + b < 256" using assms(2) by linarith
qed

lemma base64Decode_bytes: "list_all (\<lambda>b. b < 256) (base64Decode s)"
proof (induction s rule: base64Decode.induct)
  case (1 w x y z s)
  note bits = six_bits[OF base64Val_less base64Val_less]
  show ?case
    apply (subst base64Decode.simps)
    apply (cases "z = CHR ''=''")
     apply (cases "y = CHR ''=''")
      apply (simp only: if_True list.pred_inject bits simp_thms)
     apply (simp only: if_True if_False list.pred_inject bits simp_thms)
    apply (simp only: if_False list.pred_inject bits simp_thms)
    apply (rule 1)
    apply assumption
    done
qed simp_all

lemma mintData_Inr: "mintData s n = Inr bs \<longleftrightarrow> list_all (\<lambda>b. b < 256) bs \<and> length bs = n \<and> s = base64Encode bs"
proof
  assume "mintData s n = Inr bs"
  then have "bs = base64Decode s" "length bs = n" "base64Encode bs = s"
    by (auto simp: mintData_def Let_def split: if_splits)
  then show "list_all (\<lambda>b. b < 256) bs \<and> length bs = n \<and> s = base64Encode bs"
    using base64Decode_bytes[of s] by simp
next
  assume h: "list_all (\<lambda>b. b < 256) bs \<and> length bs = n \<and> s = base64Encode bs"
  then have "base64Decode s = bs" by simp
  with h show "mintData s n = Inr bs" by (simp only: mintData_def Let_def) simp
qed

lemma publicKey_bytes:
  assumes "solanaPublicKeyBytes a = Inr bs"
  shows "list_all (\<lambda>b. b < 256) bs" "length bs = 32"
  using publicKey_Inr[OF assms] bigEndian_bytes by (auto simp: list_all_iff split: if_splits)

lemma checkAccount_Inr: "checkAccount a addr = Inr u \<longleftrightarrow> a = \<lparr>amAddress = addr, amIsSigner = True, amIsWritable = True\<rparr>"
  by (cases a) (auto simp: checkAccount_def)

lemma create_bytes:
  assumes "list_all (\<lambda>b. b < 256) bs" "length bs = 52" "0 < rent" "rent \<le> 10000000"
  shows "littleEndian (take 4 bs) = 0 \<and> int (littleEndian (take 8 (drop 4 bs))) = rent
      \<and> littleEndian (take 8 (drop 12 bs)) = 82 \<and> drop 20 bs = tok
    \<longleftrightarrow> bs = leBytes 4 0 @ leBytes 8 (nat rent) @ leBytes 8 82 @ tok"
proof -
  let ?a = "take 4 bs" and ?b = "take 8 (drop 4 bs)" and ?c = "take 8 (drop 12 bs)" and ?d = "drop 20 bs"
  have split: "bs = ?a @ ?b @ ?c @ ?d"
    using append_take_drop_id[of 4 bs] append_take_drop_id[of 8 "drop 4 bs"] append_take_drop_id[of 8 "drop 12 bs"] by simp
  have l: "length ?a = 4" "length ?b = 8" "length ?c = 8" using assms(2) by simp_all
  have b: "list_all (\<lambda>b. b < 256) ?a" "list_all (\<lambda>b. b < 256) ?b" "list_all (\<lambda>b. b < 256) ?c"
    using assms(1) by (auto simp: list_all_iff dest!: in_set_takeD in_set_dropD)
  have "littleEndian ?a = 0 \<longleftrightarrow> ?a = leBytes 4 0" by (rule littleEndian_eq[OF b(1) l(1)]) simp
  moreover have "int (littleEndian ?b) = rent \<longleftrightarrow> ?b = leBytes 8 (nat rent)"
    using littleEndian_eq[OF b(2) l(2), of "nat rent"] assms(3,4) by auto
  moreover have "littleEndian ?c = 82 \<longleftrightarrow> ?c = leBytes 8 82" by (rule littleEndian_eq[OF b(3) l(3)]) simp
  moreover have "bs = w @ x @ y @ tok \<longleftrightarrow> ?a = w \<and> ?b = x \<and> ?c = y \<and> ?d = tok"
    if "length w = 4" "length x = 8" "length y = 8" for w x y
  proof
    assume "bs = w @ x @ y @ tok"
    with that show "?a = w \<and> ?b = x \<and> ?c = y \<and> ?d = tok" by simp
  next
    assume "?a = w \<and> ?b = x \<and> ?c = y \<and> ?d = tok"
    then show "bs = w @ x @ y @ tok" by (subst split) simp
  qed
  from this[of "leBytes 4 0" "leBytes 8 (nat rent)" "leBytes 8 82"]
  have "bs = leBytes 4 0 @ leBytes 8 (nat rent) @ leBytes 8 82 @ tok
    \<longleftrightarrow> ?a = leBytes 4 0 \<and> ?b = leBytes 8 (nat rent) \<and> ?c = leBytes 8 82 \<and> ?d = tok" by (simp only: length_leBytes simp_thms)
  ultimately show ?thesis by (simp only:)
qed

lemma init_bytes:
  assumes "length bs = 35" "length payer = 32"
  shows "bs ! 0 = 20 \<and> bs ! 1 = 9 \<and> take 32 (drop 2 bs) = payer \<and> bs ! 34 = 0 \<longleftrightarrow> bs = [20, 9] @ payer @ [0]"
proof
  assume h: "bs ! 0 = 20 \<and> bs ! 1 = 9 \<and> take 32 (drop 2 bs) = payer \<and> bs ! 34 = 0"
  have "bs = take 2 bs @ take 32 (drop 2 bs) @ drop 34 bs"
    using append_take_drop_id[of 2 bs] append_take_drop_id[of 32 "drop 2 bs"] by simp
  moreover have "take 2 bs = [bs ! 0, bs ! 1]" using assms(1) by (simp add: take_Suc_conv_app_nth numeral_2_eq_2)
  moreover have "drop 34 bs = [bs ! 34]" using assms(1) by (simp add: Cons_nth_drop_Suc[symmetric])
  ultimately show "bs = [20, 9] @ payer @ [0]" using h by simp
next
  assume bs: "bs = [20, 9] @ payer @ [0]"
  have "bs ! 34 = 0" unfolding bs using assms(2) by (simp add: nth_append nth_Cons')
  then show "bs ! 0 = 20 \<and> bs ! 1 = 9 \<and> take 32 (drop 2 bs) = payer \<and> bs ! 34 = 0"
    unfolding bs using assms(2) by simp
qed

lemma expectation_Inr:
  assumes "validateExpectation expected = Inr (rent, payerBytes)"
  shows "0 < rent" "rent \<le> 10000000" "solanaPublicKeyBytes (mePayer expected) = Inr payerBytes"
  using assms unfolding validateExpectation_def bindE_Inr_iff by (auto split: if_splits)

lemma verify_Inr:
  "verifySolanaMintIntent intent expected = Inr e \<longleftrightarrow>
     (\<exists>rent payerBytes tokenProgram. validateExpectation expected = Inr (rent, payerBytes)
        \<and> solanaPublicKeyBytes SPL_TOKEN_PROGRAM = Inr tokenProgram
        \<and> intent = \<lparr>siFeePayer = mePayer expected, siInstructions = mintInstructions expected rent payerBytes tokenProgram\<rparr>
        \<and> e = mintEnvelopeOf expected rent (siInstructions intent))" (is "?code \<longleftrightarrow> ?spec")
proof
  assume ?code
  then obtain rent payer where v: "validateExpectation expected = Inr (rent, payer)" "siFeePayer intent = mePayer expected"
      and "case siInstructions intent of [create, init] \<Rightarrow> True | _ \<Rightarrow> False"
    by (auto simp: verifySolanaMintIntent_def bindE_Inr_iff split: if_splits list.splits)
  then obtain create init where ix: "siInstructions intent = [create, init]"
    by (auto split: list.splits)
  from \<open>?code\<close> obtain a b c createData tok initData where
      p: "miProgramId create = SYSTEM_PROGRAM" "miProgramId init = SPL_TOKEN_PROGRAM"
        "miAccounts create = [a, b]" "miAccounts init = [c]"
      and k: "checkAccount a (mePayer expected) = Inr ()" "checkAccount b (meMint expected) = Inr ()"
        "checkAccount c (meMint expected) = Inr ()"
      and d: "mintData (miDataBase64 create) 52 = Inr createData" "mintData (miDataBase64 init) 35 = Inr initData"
        "littleEndian (take 4 createData) = 0 \<and> int (littleEndian (take 8 (drop 4 createData))) = rent
          \<and> littleEndian (take 8 (drop 12 createData)) = 82 \<and> drop 20 createData = tok"
        "solanaPublicKeyBytes SPL_TOKEN_PROGRAM = Inr tok"
        "initData ! 0 = 20 \<and> initData ! 1 = 9 \<and> take 32 (drop 2 initData) = payer \<and> initData ! 34 = 0"
      and e: "e = mintEnvelopeOf expected rent (siInstructions intent)"
    by (auto simp: verifySolanaMintIntent_def v ix bindE_Inr_iff mintEnvelopeOf_def split: if_splits list.splits)
  note r = expectation_Inr[OF v(1)]
  have c': "createData = leBytes 4 0 @ leBytes 8 (nat rent) @ leBytes 8 82 @ tok"
    using d(1,3) create_bytes[OF _ _ r(1,2)] by (simp only: mintData_Inr)
  have i': "initData = [20, 9] @ payer @ [0]"
    using d(2,5) init_bytes[OF _ publicKey_bytes(2)[OF r(3)]] by (simp only: mintData_Inr)
  have "create = \<lparr>miProgramId = SYSTEM_PROGRAM, miAccounts = [a, b], miDataBase64 = base64Encode createData\<rparr>"
    "init = \<lparr>miProgramId = SPL_TOKEN_PROGRAM, miAccounts = [c], miDataBase64 = base64Encode initData\<rparr>"
    using p d(1,2) by (simp_all add: mintData_Inr)
  then have "siInstructions intent = mintInstructions expected rent payer tok"
    using k[unfolded checkAccount_Inr] by (simp add: ix mintInstructions_def c' i')
  then show ?spec using v d(4) e by (metis mintIntent.surjective old.unit.exhaust)
next
  assume ?spec
  then obtain rent payer tok where s: "validateExpectation expected = Inr (rent, payer)"
        "solanaPublicKeyBytes SPL_TOKEN_PROGRAM = Inr tok"
        "intent = \<lparr>siFeePayer = mePayer expected, siInstructions = mintInstructions expected rent payer tok\<rparr>"
        "e = mintEnvelopeOf expected rent (siInstructions intent)" by blast
  note r = expectation_Inr[OF s(1)]
  let ?c = "leBytes 4 0 @ leBytes 8 (nat rent) @ leBytes 8 82 @ tok" and ?i = "[20, 9] @ payer @ [0]"
  have len: "list_all (\<lambda>b. b < 256) ?c" "length ?c = 52" "list_all (\<lambda>b. b < 256) ?i" "length ?i = 35"
    using publicKey_bytes[OF s(2)] publicKey_bytes[OF r(3)] leBytes_bytes by (auto simp: list_all_iff)
  have "mintData (base64Encode ?c) 52 = Inr ?c" "mintData (base64Encode ?i) 35 = Inr ?i"
    using len by (simp_all only: mintData_Inr simp_thms)
  moreover have "littleEndian (take 4 ?c) = 0 \<and> int (littleEndian (take 8 (drop 4 ?c))) = rent
      \<and> littleEndian (take 8 (drop 12 ?c)) = 82 \<and> drop 20 ?c = tok"
    using create_bytes[OF len(1,2) r(1,2)] by blast
  moreover have "?i ! 0 = 20 \<and> ?i ! 1 = 9 \<and> take 32 (drop 2 ?i) = payer \<and> ?i ! 34 = 0"
    using init_bytes[OF len(4) publicKey_bytes(2)[OF r(3)]] by blast
  moreover define cd where cd: "cd = ?c"
  moreover define idt where idt: "idt = ?i"
  ultimately have f: "mintData (base64Encode cd) 52 = Inr cd" "mintData (base64Encode idt) 35 = Inr idt"
      "littleEndian (take 4 cd) = 0 \<and> int (littleEndian (take 8 (drop 4 cd))) = rent
        \<and> littleEndian (take 8 (drop 12 cd)) = 82 \<and> drop 20 cd = tok"
      "idt ! 0 = 20 \<and> idt ! 1 = 9 \<and> take 32 (drop 2 idt) = payer \<and> idt ! 34 = 0" by simp_all
  have sys: "SPL_TOKEN_PROGRAM \<noteq> SYSTEM_PROGRAM" by (simp add: SPL_TOKEN_PROGRAM_def SYSTEM_PROGRAM_def)
  show ?code
    using f s(1,2)
    by (simp add: verifySolanaMintIntent_def s(3,4) mintInstructions_def mintEnvelopeOf_def checkAccount_def
        cd[symmetric] idt[symmetric] del: leBytes.simps append.simps)
qed

text \<open>
  The check accepts one transaction: for a valid expectation exactly the fee payer and the two
  instructions of the mint, byte for byte, and it returns their envelope.
\<close>

lemma verifySolanaMintIntent_exact:
  "verifySolanaMintIntent intent expected = Inr e \<longleftrightarrow>
     (\<exists>rent payerBytes tokenProgram. validateExpectation expected = Inr (rent, payerBytes)
        \<and> solanaPublicKeyBytes SPL_TOKEN_PROGRAM = Inr tokenProgram
        \<and> intent = \<lparr>siFeePayer = mePayer expected, siInstructions = mintInstructions expected rent payerBytes tokenProgram\<rparr>
        \<and> e = mintEnvelopeOf expected rent (siInstructions intent))"
  by (rule verify_Inr)

end
