(* ===== verification/SolanaJournal.thy ===== *)
theory SolanaJournal
  imports SolanaMint Journal
begin

text \<open>
  The journals of one signed Solana transaction: \<open>runSolanaTransactionJournal\<close> of
  \<open>tooling/testnet-ccip/src/application/solana-transaction-journal.ts\<close>, generic in the contract that
  says what the transaction must be, and \<open>runSolanaMintJournal\<close> of \<open>solana-journal.ts\<close>, which
  is written out separately for the mint.
\<close>

section \<open>Data\<close>

record solanaSigned =
  ssBytesBase64 :: string
  ssSignature :: string
  ssBlockhash :: string
  ssLastValidBlockHeight :: string

record solanaInspected =
  siSignature :: string
  siBlockhash :: string
  siMessageBase64 :: string
  siIntent :: mintIntent

record 'st finalizedEvidence =
  feSignature :: string
  feMessageBase64 :: string
  feSlot :: string
  feErr :: jsval
  feState :: "'st option"

datatype 'st solanaObservation = SolUnknown | SolNotFound | SolExpired | SolFinalized "'st finalizedEvidence"

record 'n solanaRecord =
  srSchema :: string
  srIntent :: 'n
  srSigned :: solanaSigned
  srMessageBase64 :: string
  srPhase :: string

record 'n solanaResult =
  slStatus :: string
  slRecord :: "'n solanaRecord"
  slReason :: string

record ('x, 'n, 'st) solanaPorts =
  spReadFails :: "js_error option"
  spSign :: "'x \<Rightarrow> js_error + solanaSigned"
  spInspectSigned :: "string \<Rightarrow> js_error + solanaInspected"
  spObserve :: "solanaSigned \<Rightarrow> 'n \<Rightarrow> js_error + 'st solanaObservation"
  spBeforeBroadcast :: "(js_error + unit) option"
  spBroadcast :: "string \<Rightarrow> js_error + string"

record ('x, 'n, 'st) solanaContract =
  scSchema :: string
  scLabel :: string
  scSuccessReason :: string
  scVerify :: "mintIntent \<Rightarrow> 'x \<Rightarrow> js_error + 'n"
  scCanonical :: "'n \<Rightarrow> 'x \<Rightarrow> js_error + string"
  scStateMatches :: "'st option \<Rightarrow> 'n \<Rightarrow> bool"

section \<open>Checks\<close>

definition isUnsigned64 :: "string \<Rightarrow> bool" where
  "isUnsigned64 value \<longleftrightarrow> canonicalDec value \<and> int (undec value) < 2 ^ 64"

definition validSigned :: "solanaSigned \<Rightarrow> bool" where
  "validSigned stx \<longleftrightarrow> isBase64 (ssBytesBase64 stx) \<and> matchesBase58 64 88 (ssSignature stx)
     \<and> matchesBase58 32 44 (ssBlockhash stx) \<and> isUnsigned64 (ssLastValidBlockHeight stx)"

definition signedIdentity :: "solanaSigned \<Rightarrow> solanaInspected \<Rightarrow> bool" where
  "signedIdentity stx decoded \<longleftrightarrow> siSignature decoded = ssSignature stx \<and> siBlockhash decoded = ssBlockhash stx
     \<and> isBase64 (siMessageBase64 decoded)"

definition finalizedOutcome :: "'st finalizedEvidence \<Rightarrow> 'n solanaRecord \<Rightarrow> ('st option \<Rightarrow> 'n \<Rightarrow> bool) \<Rightarrow> string option" where
  "finalizedOutcome observation record matches =
    (if feSignature observation \<noteq> ssSignature (srSigned record) \<or> feMessageBase64 observation \<noteq> srMessageBase64 record
        \<or> \<not> isUnsigned64 (feSlot observation) then None
     else if feErr observation \<noteq> JNull then (case feErr observation of JObj _ _ \<Rightarrow> Some ''failed'' | _ \<Rightarrow> None)
     else if matches (feState observation) (srIntent record) then Some ''succeeded'' else None)"

definition terminalConflict :: "'n solanaRecord \<Rightarrow> string \<Rightarrow> bool" where
  "terminalConflict record phase \<longleftrightarrow> (srPhase record = ''succeeded'' \<or> srPhase record = ''failed'') \<and> srPhase record \<noteq> phase"

definition validateStored :: "'n solanaRecord \<Rightarrow> string \<Rightarrow> string \<Rightarrow> js_error + unit" where
  "validateStored record schema label =
    failIf (srSchema record \<noteq> schema \<or> srPhase record \<notin> set [''signed'', ''submitting'', ''submitted'', ''succeeded'', ''failed''])
      (Err (''Invalid '' @ label @ '' journal record''))"

section \<open>The generic journal\<close>

definition unresolvedS :: "'n solanaRecord \<Rightarrow> string \<Rightarrow> ('n solanaRecord, 'n solanaResult) journalM" where
  "unresolvedS record reason = returnJ \<lparr>slStatus = ''unresolved'', slRecord = record, slReason = reason\<rparr>"

text \<open>The submission of a signed transaction that the observer has not found.\<close>

definition submitS :: "'n solanaRecord \<Rightarrow> (string \<Rightarrow> js_error + string) \<Rightarrow> ('n solanaRecord, 'n solanaResult) journalM" where
  "submitS current broadcast =
    (let submitting = current\<lparr>srPhase := ''submitting''\<rparr>; submitted = current\<lparr>srPhase := ''submitted''\<rparr>;
         bytes = ssBytesBase64 (srSigned current) in
     bindJ (writeJ submitting) (\<lambda>_.
     bindJ (sendJ bytes) (\<lambda>_.
     case broadcast bytes of
       Inl _ \<Rightarrow> unresolvedS submitting ''broadcast-outcome-unknown''
     | Inr signature \<Rightarrow>
         if signature \<noteq> ssSignature (srSigned current) then unresolvedS submitting ''broadcast-signature-mismatch''
         else bindJ (writeJ submitted) (\<lambda>_. unresolvedS submitted ''submitted-awaiting-finality''))))"

definition settleS :: "'st finalizedEvidence \<Rightarrow> 'n solanaRecord \<Rightarrow> ('st option \<Rightarrow> 'n \<Rightarrow> bool) \<Rightarrow> string
    \<Rightarrow> ('n solanaRecord, 'n solanaResult) journalM" where
  "settleS observation current matches successReason =
    (case finalizedOutcome observation current matches of
       None \<Rightarrow> unresolvedS current ''finalized-evidence-mismatch''
     | Some phase \<Rightarrow>
         if terminalConflict current phase then unresolvedS current ''terminal-evidence-conflict''
         else if srPhase current \<noteq> phase then
           bindJ (writeJ (current\<lparr>srPhase := phase\<rparr>)) (\<lambda>_.
           returnJ \<lparr>slStatus = phase, slRecord = current\<lparr>srPhase := phase\<rparr>, slReason = successReason\<rparr>)
         else returnJ \<lparr>slStatus = phase, slRecord = current, slReason = successReason\<rparr>)"

text \<open>The record that the run works on: the stored one, checked again, or a new one.\<close>

definition loadS :: "('x expectedScope_scheme) \<Rightarrow> ('x expectedScope_scheme, 'n, 'st) solanaPorts
    \<Rightarrow> ('x expectedScope_scheme, 'n, 'st) solanaContract \<Rightarrow> ('n solanaRecord, 'n solanaRecord \<times> 'n) journalM" where
  "loadS expected ports contract =
    bindJ (liftJ (case spReadFails ports of None \<Rightarrow> Inr () | Some e \<Rightarrow> Inl e)) (\<lambda>_.
    bindJ readJ (\<lambda>stored.
    bindJ (case stored of None \<Rightarrow> returnJ ()
           | Some record \<Rightarrow> bindJ (liftJ (validateStored record (scSchema contract) (scLabel contract))) (\<lambda>_.
               bindJ (liftJ (scCanonical contract (srIntent record) expected)) (\<lambda>_. returnJ ()))) (\<lambda>_.
    bindJ (case stored of None \<Rightarrow> liftJ (spSign ports expected) | Some record \<Rightarrow> returnJ (srSigned record)) (\<lambda>stx.
    bindJ (liftJ (failIf (\<not> validSigned stx) (Err ''Invalid signed Solana transaction''))) (\<lambda>_.
    bindJ (liftJ (spInspectSigned ports (ssBytesBase64 stx))) (\<lambda>decoded.
    bindJ (liftJ (scVerify contract (siIntent decoded) expected)) (\<lambda>intent.
    bindJ (liftJ (failIf (\<not> signedIdentity stx decoded) (Err ''Signed Solana identity mismatch''))) (\<lambda>_.
    case stored of
      None \<Rightarrow>
        let record = \<lparr>srSchema = scSchema contract, srIntent = intent, srSigned = stx,
          srMessageBase64 = siMessageBase64 decoded, srPhase = ''signed''\<rparr>
        in bindJ (writeJ record) (\<lambda>_. returnJ (record, intent))
    | Some record \<Rightarrow>
        if srMessageBase64 record \<noteq> siMessageBase64 decoded then liftJ (Inl (Err ''Stored Solana message mismatch''))
        else
          bindJ (liftJ (scCanonical contract (srIntent record) expected)) (\<lambda>old.
          bindJ (liftJ (scCanonical contract intent expected)) (\<lambda>now.
          bindJ (liftJ (failIf (old \<noteq> now) (Err ''Stored Solana message mismatch''))) (\<lambda>_.
          returnJ (record, intent))))))))))))"

definition advanceS :: "('x, 'n, 'st) solanaPorts \<Rightarrow> ('x, 'n, 'st) solanaContract \<Rightarrow> 'n solanaRecord \<Rightarrow> 'n
    \<Rightarrow> ('n solanaRecord, 'n solanaResult) journalM" where
  "advanceS ports contract current intent =
    (case spObserve ports (srSigned current) intent of
       Inl _ \<Rightarrow> unresolvedS current ''observation-unavailable''
     | Inr (SolFinalized observation) \<Rightarrow> settleS observation current (scStateMatches contract) (scSuccessReason contract)
     | Inr ob \<Rightarrow>
         if (case ob of SolNotFound \<Rightarrow> False | _ \<Rightarrow> True) \<or> srPhase current \<noteq> ''signed''
         then unresolvedS current ''submission-unresolved-or-expired''
         else (case spBeforeBroadcast ports of
             Some (Inl _) \<Rightarrow> unresolvedS current ''before-broadcast-precondition-failed''
           | _ \<Rightarrow> submitS current (spBroadcast ports)))"

definition runSolanaTransactionJournal :: "('x expectedScope_scheme) \<Rightarrow> ('x expectedScope_scheme, 'n, 'st) solanaPorts
    \<Rightarrow> ('x expectedScope_scheme, 'n, 'st) solanaContract \<Rightarrow> ('n solanaRecord, 'n solanaResult) journalM" where
  "runSolanaTransactionJournal expected ports contract =
    (if \<not> meTestOnly expected \<or> meCluster expected \<noteq> ''solana-devnet''
     then liftJ (Inl (Err ''Test-only Devnet transaction required''))
     else bindJ (loadS expected ports contract) (\<lambda>(current, intent). advanceS ports contract current intent))"

section \<open>The mint journal\<close>

record mintState =
  msAddress :: string
  msTokenProgram :: string
  msDecimals :: int
  msSupply :: string
  msMintAuthority :: string
  msFreezeAuthority :: "string option"

definition MINT_JOURNAL_SCHEMA :: string where
  "MINT_JOURNAL_SCHEMA = ''agtmai-solana-mint-journal-v1''"

text \<open>
  \<open>solana-journal.ts\<close> does not call the generic journal: its checks, its settlement and its submission are
  written out again, and are translated here from their own lines. Only the shapes of signed
  transactions, records and results are shared, which are the same in both files; the state of the mint is the
  state of an observation.
\<close>

definition mintBase64 :: "string \<Rightarrow> bool" where
  "mintBase64 value \<longleftrightarrow> isBase64 value"

definition mintUnsigned :: "string \<Rightarrow> bool" where
  "mintUnsigned value \<longleftrightarrow> canonicalDec value \<and> int (undec value) < 2 ^ 64"

definition validSignedMint :: "solanaSigned \<Rightarrow> bool" where
  "validSignedMint stx \<longleftrightarrow> mintBase64 (ssBytesBase64 stx) \<and> matchesBase58 64 88 (ssSignature stx)
     \<and> matchesBase58 32 44 (ssBlockhash stx) \<and> mintUnsigned (ssLastValidBlockHeight stx)"

text \<open>The envelope as \<open>JSON.stringify\<close> sees it.\<close>

definition instructionJson :: "mintInstruction \<Rightarrow> jsval" where
  "instructionJson ix = JObj Plain [(''programId'', JStr (miProgramId ix)), (''dataBase64'', JStr (miDataBase64 ix)),
     (''accounts'', JArr Plain (map (\<lambda>a. JObj Plain [(''address'', JStr (amAddress a)), (''isSigner'', JBool (amIsSigner a)),
        (''isWritable'', JBool (amIsWritable a))]) (miAccounts ix)))]"

definition mintEnvelopeJson :: "mintEnvelope \<Rightarrow> jsval" where
  "mintEnvelopeJson e = JObj Plain [(''schema'', JStr (mvSchema e)), (''cluster'', JStr (mvCluster e)), (''payer'', JStr (mvPayer e)),
     (''mint'', JStr (mvMint e)), (''rentLamports'', JStr (mvRentLamports e)), (''decimals'', JNum (mvDecimals e)),
     (''initialSupply'', JStr (mvInitialSupply e)),
     (''freezeAuthority'', case mvFreezeAuthority e of None \<Rightarrow> JNull | Some a \<Rightarrow> JStr a),
     (''instructions'', JArr Plain (map instructionJson (mvInstructions e)))]"

definition rentText :: "decimalInput \<Rightarrow> string" where
  "rentText v = (case v of BigIntInput n \<Rightarrow> decInt n | TextInput s \<Rightarrow> s)"

definition mintCanonical :: "mintEnvelope \<Rightarrow> mintExpectation \<Rightarrow> js_error + string" where
  "mintCanonical intent expected =
    (if mvSchema intent \<noteq> ''agtmai-solana-mint-v1'' \<or> mvCluster intent \<noteq> meCluster expected
        \<or> mvPayer intent \<noteq> mePayer expected \<or> mvMint intent \<noteq> meMint expected
        \<or> mvRentLamports intent \<noteq> rentText (meRentLamports expected)
        \<or> mvDecimals intent \<noteq> 9 \<or> mvInitialSupply intent \<noteq> ''0'' \<or> mvFreezeAuthority intent \<noteq> None
     then Inl (Err ''Conflicting mint journal intent'')
     else bindE (verifySolanaMintIntent \<lparr>siFeePayer = mvPayer intent, siInstructions = mvInstructions intent\<rparr> expected)
       (\<lambda>e. Inr (stringify (mintEnvelopeJson e))))"

definition mintMatches :: "mintState option \<Rightarrow> mintEnvelope \<Rightarrow> bool" where
  "mintMatches state intent \<longleftrightarrow> (case state of None \<Rightarrow> False
     | Some s \<Rightarrow> msAddress s = mvMint intent \<and> msTokenProgram s = SPL_TOKEN_PROGRAM \<and> msDecimals s = 9
         \<and> msSupply s = ''0'' \<and> msMintAuthority s = mvPayer intent \<and> msFreezeAuthority s = None)"

definition finalizedMint :: "mintState finalizedEvidence \<Rightarrow> mintEnvelope solanaRecord \<Rightarrow> string option" where
  "finalizedMint observation record =
    (if feSignature observation \<noteq> ssSignature (srSigned record) \<or> feMessageBase64 observation \<noteq> srMessageBase64 record
        \<or> \<not> mintUnsigned (feSlot observation) then None
     else if feErr observation \<noteq> JNull then (case feErr observation of JObj _ _ \<Rightarrow> Some ''failed'' | _ \<Rightarrow> None)
     else if mintMatches (feState observation) (srIntent record) then Some ''succeeded'' else None)"

definition mintConflict :: "mintEnvelope solanaRecord \<Rightarrow> string \<Rightarrow> bool" where
  "mintConflict record phase \<longleftrightarrow> (srPhase record = ''succeeded'' \<or> srPhase record = ''failed'') \<and> srPhase record \<noteq> phase"

definition validateStoredMint :: "mintEnvelope solanaRecord \<Rightarrow> mintExpectation \<Rightarrow> js_error + unit" where
  "validateStoredMint record expected =
    bindE (failIf (srSchema record \<noteq> MINT_JOURNAL_SCHEMA
        \<or> srPhase record \<notin> set [''signed'', ''submitting'', ''submitted'', ''succeeded'', ''failed''])
      (Err ''Invalid mint journal record'')) (\<lambda>_.
    bindE (mintCanonical (srIntent record) expected) (\<lambda>_. Inr ()))"

definition loadMint :: "mintExpectation \<Rightarrow> (mintExpectation, mintEnvelope, mintState) solanaPorts
    \<Rightarrow> (mintEnvelope solanaRecord, mintEnvelope solanaRecord \<times> mintEnvelope) journalM" where
  "loadMint expected ports =
    bindJ (liftJ (case spReadFails ports of None \<Rightarrow> Inr () | Some e \<Rightarrow> Inl e)) (\<lambda>_.
    bindJ readJ (\<lambda>stored.
    bindJ (case stored of None \<Rightarrow> returnJ () | Some record \<Rightarrow> liftJ (validateStoredMint record expected)) (\<lambda>_.
    bindJ (case stored of None \<Rightarrow> liftJ (spSign ports expected) | Some record \<Rightarrow> returnJ (srSigned record)) (\<lambda>stx.
    bindJ (liftJ (failIf (\<not> validSignedMint stx) (Err ''Invalid signed mint transaction''))) (\<lambda>_.
    bindJ (liftJ (spInspectSigned ports (ssBytesBase64 stx))) (\<lambda>decoded.
    bindJ (liftJ (verifySolanaMintIntent (siIntent decoded) expected)) (\<lambda>intent.
    bindJ (liftJ (failIf (siSignature decoded \<noteq> ssSignature stx \<or> siBlockhash decoded \<noteq> ssBlockhash stx
      \<or> \<not> mintBase64 (siMessageBase64 decoded)) (Err ''Signed mint identity mismatch''))) (\<lambda>_.
    case stored of
      None \<Rightarrow>
        let record = \<lparr>srSchema = MINT_JOURNAL_SCHEMA, srIntent = intent, srSigned = stx,
          srMessageBase64 = siMessageBase64 decoded, srPhase = ''signed''\<rparr>
        in bindJ (writeJ record) (\<lambda>_. returnJ (record, intent))
    | Some record \<Rightarrow>
        if srMessageBase64 record \<noteq> siMessageBase64 decoded then liftJ (Inl (Err ''Stored mint message mismatch''))
        else
          bindJ (liftJ (mintCanonical (srIntent record) expected)) (\<lambda>old.
          bindJ (liftJ (mintCanonical intent expected)) (\<lambda>now.
          bindJ (liftJ (failIf (old \<noteq> now) (Err ''Stored mint message mismatch''))) (\<lambda>_.
          returnJ (record, intent))))))))))))"

text \<open>\<open>unresolved\<close>, the settlement of finalized evidence and the one submission.\<close>

definition unresolvedMint :: "mintEnvelope solanaRecord \<Rightarrow> string \<Rightarrow> (mintEnvelope solanaRecord, mintEnvelope solanaResult) journalM" where
  "unresolvedMint current reason = returnJ \<lparr>slStatus = ''unresolved'', slRecord = current, slReason = reason\<rparr>"

definition settleMint :: "mintState finalizedEvidence \<Rightarrow> mintEnvelope solanaRecord
    \<Rightarrow> (mintEnvelope solanaRecord, mintEnvelope solanaResult) journalM" where
  "settleMint observation current =
    (case finalizedMint observation current of
       None \<Rightarrow> unresolvedMint current ''finalized-evidence-mismatch''
     | Some phase \<Rightarrow>
         if mintConflict current phase then unresolvedMint current ''terminal-evidence-conflict''
         else
           bindJ (if srPhase current \<noteq> phase
             then bindJ (writeJ (current\<lparr>srPhase := phase\<rparr>)) (\<lambda>_. returnJ (current\<lparr>srPhase := phase\<rparr>)) else returnJ current) (\<lambda>settled.
           returnJ \<lparr>slStatus = phase, slRecord = settled, slReason = ''exact-finalized-mint-transaction''\<rparr>))"

definition submitMint :: "mintEnvelope solanaRecord \<Rightarrow> (string \<Rightarrow> js_error + string)
    \<Rightarrow> (mintEnvelope solanaRecord, mintEnvelope solanaResult) journalM" where
  "submitMint record broadcast =
    (let stx = srSigned record; current = record\<lparr>srPhase := ''submitting''\<rparr> in
     bindJ (writeJ current) (\<lambda>_.
     bindJ (sendJ (ssBytesBase64 stx)) (\<lambda>_.
     case broadcast (ssBytesBase64 stx) of
       Inl _ \<Rightarrow> unresolvedMint current ''broadcast-outcome-unknown''
     | Inr signature \<Rightarrow>
         if signature \<noteq> ssSignature stx then unresolvedMint current ''broadcast-signature-mismatch''
         else
           (let sent = current\<lparr>srPhase := ''submitted''\<rparr> in
            bindJ (writeJ sent) (\<lambda>_. unresolvedMint sent ''submitted-awaiting-finality'')))))"

definition advanceMint :: "(mintExpectation, mintEnvelope, mintState) solanaPorts \<Rightarrow> mintEnvelope solanaRecord \<Rightarrow> mintEnvelope
    \<Rightarrow> (mintEnvelope solanaRecord, mintEnvelope solanaResult) journalM" where
  "advanceMint ports current intent =
    (case spObserve ports (srSigned current) intent of
      Inl _ \<Rightarrow> unresolvedMint current ''observation-unavailable''
    | Inr (SolFinalized observation) \<Rightarrow> settleMint observation current
    | Inr SolNotFound \<Rightarrow>
        if srPhase current \<noteq> ''signed'' then unresolvedMint current ''submission-unresolved-or-expired''
        else submitMint current (spBroadcast ports)
    | Inr _ \<Rightarrow> unresolvedMint current ''submission-unresolved-or-expired'')"

definition runSolanaMintJournal :: "mintExpectation \<Rightarrow> (mintExpectation, mintEnvelope, mintState) solanaPorts
    \<Rightarrow> (mintEnvelope solanaRecord, mintEnvelope solanaResult) journalM" where
  "runSolanaMintJournal expected ports =
    (if \<not> meTestOnly expected \<or> meCluster expected \<noteq> ''solana-devnet''
     then liftJ (Inl (Err ''Test-only Devnet mint required''))
     else bindJ (loadMint expected ports) (\<lambda>(current, intent). advanceMint ports current intent))"

section \<open>What a run leaves behind\<close>

lemma wp_unresolvedS [wp_simps]:
  "wp (unresolvedS record reason) Q E s \<longleftrightarrow> Q \<lparr>slStatus = ''unresolved'', slRecord = record, slReason = reason\<rparr> s"
  by (simp add: unresolvedS_def wp_simps)

definition succeedsS :: "'n solanaRecord \<Rightarrow> 'n solanaRecord \<Rightarrow> bool" where
  "succeedsS r r' \<longleftrightarrow> srSigned r' = srSigned r \<and> (srPhase r' = ''signed'' \<longrightarrow> srPhase r = ''signed'')
     \<and> (srPhase r = ''succeeded'' \<or> srPhase r = ''failed'' \<longrightarrow> r' = r)"

definition solanaStep :: "'n solanaRecord \<Rightarrow> 'n solanaRecord journalState \<Rightarrow> 'n solanaRecord journalState \<Rightarrow> bool" where
  "solanaStep r s t \<longleftrightarrow> (\<exists>r'. jsStore t = Some r' \<and> succeedsS r r'
     \<and> (jsSent t = jsSent s \<or> srPhase r = ''signed'' \<and> srPhase r' \<noteq> ''signed'' \<and> jsSent t = jsSent s @ [ssBytesBase64 (srSigned r)]))"

lemma finalizedOutcome_phase: "finalizedOutcome ob r m = Some phase \<Longrightarrow> phase = ''succeeded'' \<or> phase = ''failed''"
  by (auto simp: finalizedOutcome_def split: if_splits jsval.splits)

lemma settleS_wp:
  assumes "jsStore s = Some r"
  shows "wp (settleS ob r matches reason) (\<lambda>x. solanaStep r s) (solanaStep r s) s"
  using assms finalizedOutcome_phase[of ob r matches]
  by (auto simp: settleS_def wp_simps solanaStep_def succeedsS_def terminalConflict_def split: option.split intro!: wp_any_write)

lemma submitS_wp:
  assumes "jsStore s = Some r" "srPhase r = ''signed''"
  shows "wp (submitS r broadcast) (\<lambda>x. solanaStep r s) (solanaStep r s) s"
  using assms
  by (auto simp: submitS_def Let_def wp_simps solanaStep_def succeedsS_def split: sum.split intro!: wp_any_write)

lemma advanceS_wp:
  assumes "jsStore s = Some r"
  shows "wp (advanceS ports contract r intent) (\<lambda>x. solanaStep r s) (solanaStep r s) s"
proof -
  have stop: "solanaStep r s s" using assms by (simp add: solanaStep_def succeedsS_def)
  show ?thesis
    using settleS_wp[OF assms] submitS_wp[OF assms] stop
    by (auto simp: advanceS_def wp_simps split: sum.split solanaObservation.split option.split)
qed

lemma loadS_stored:
  assumes "jsStore s = Some r"
  shows "wp (loadS expected ports contract) (\<lambda>x t. fst x = r \<and> t = s) (\<lambda>t. t = s) s"
  using assms by (simp add: loadS_def wp_simps split: option.split sum.split)

lemma loadS_new:
  assumes "jsStore s = None"
  shows "wp (loadS expected ports contract) (\<lambda>x t. jsStore t = Some (fst x) \<and> srPhase (fst x) = ''signed'' \<and> jsSent t = jsSent s)
    (\<lambda>t. jsSent t = jsSent s) s"
  using assms by (auto simp: loadS_def Let_def wp_simps split: option.split sum.split intro!: wp_any_write)

lemma solana_stored:
  assumes "jsStore s = Some r"
  shows "wp (runSolanaTransactionJournal expected ports contract) (\<lambda>x. solanaStep r s) (solanaStep r s) s"
proof -
  have stop: "solanaStep r s s" using assms by (simp add: solanaStep_def succeedsS_def)
  show ?thesis
    unfolding runSolanaTransactionJournal_def
    using stop advanceS_wp[OF assms]
    by (auto simp: wp_simps case_prod_unfold intro!: wp_mono[OF loadS_stored[OF assms]])
qed

definition solanaFirst :: "'n solanaRecord journalState \<Rightarrow> 'n solanaRecord journalState \<Rightarrow> bool" where
  "solanaFirst s t \<longleftrightarrow> jsSent t = jsSent s
     \<or> (\<exists>r. jsStore t = Some r \<and> srPhase r \<noteq> ''signed'' \<and> jsSent t = jsSent s @ [ssBytesBase64 (srSigned r)])"

lemma advanceS_first:
  assumes "jsStore t = Some r \<and> srPhase r = ''signed'' \<and> jsSent t = jsSent s"
  shows "wp (advanceS ports contract r intent) (\<lambda>x. solanaFirst s) (solanaFirst s) t"
proof -
  from assms have t: "jsStore t = Some r" "jsSent t = jsSent s" by simp_all
  show ?thesis
    by (rule wp_mono[OF advanceS_wp[OF t(1)]]) (auto simp: solanaStep_def succeedsS_def solanaFirst_def t)
qed

lemma solana_new:
  assumes "jsStore s = None"
  shows "wp (runSolanaTransactionJournal expected ports contract) (\<lambda>x. solanaFirst s) (solanaFirst s) s"
proof -
  have stop: "solanaFirst s s" by (simp add: solanaFirst_def)
  have err: "jsSent t = jsSent s \<Longrightarrow> solanaFirst s t" for t :: "'a solanaRecord journalState" by (simp add: solanaFirst_def)
  show ?thesis
    unfolding runSolanaTransactionJournal_def
    by (auto simp: wp_simps case_prod_unfold stop intro!: wp_mono[OF loadS_new[OF assms]] advanceS_first) (simp add: solanaFirst_def)
qed

type_synonym ('x, 'n, 'st) solanaEnv = "('x, 'n, 'st) solanaPorts \<times> writeOutcome list"

definition solanaRun :: "('x expectedScope_scheme) \<Rightarrow> ('x expectedScope_scheme, 'n, 'st) solanaContract
    \<Rightarrow> ('x expectedScope_scheme, 'n, 'st) solanaEnv \<Rightarrow> 'n solanaRecord journalState \<Rightarrow> 'n solanaRecord journalState" where
  "solanaRun expected contract env s =
    (case env of (ports, ws) \<Rightarrow> snd (runSolanaTransactionJournal expected ports contract (s\<lparr>jsWrites := ws\<rparr>)))"

lemma solanaRun_stored:
  assumes "jsStore s = Some r"
  shows "solanaStep r s (solanaRun expected contract e s)"
proof -
  obtain ports ws where e: "e = (ports, ws)" by (cases e)
  have "jsStore (s\<lparr>jsWrites := ws\<rparr>) = Some r" using assms by simp
  from wp_state[OF solana_stored[OF this]] show ?thesis by (simp add: solanaRun_def e solanaStep_def)
qed

lemma solanaRun_new:
  assumes "jsStore s = None"
  shows "solanaFirst s (solanaRun expected contract e s)"
proof -
  obtain ports ws where e: "e = (ports, ws)" by (cases e)
  have "jsStore (s\<lparr>jsWrites := ws\<rparr>) = None" using assms by simp
  from wp_state[OF solana_new[OF this]] show ?thesis by (simp add: solanaRun_def e solanaFirst_def)
qed

interpretation solana_journal: send_once "solanaRun expected contract" "\<lambda>r. srPhase r = ''signed''" "\<lambda>r. ssBytesBase64 (srSigned r)"
  for expected contract
proof (unfold_locales, goal_cases)
  case (1 s r e)
  from solanaRun_stored[OF 1(1), of expected contract e] 1(2) show ?case
    by (auto simp: solanaStep_def succeedsS_def)
next
  case (2 s e)
  show ?case
  proof (cases "jsStore s")
    case None
    from solanaRun_new[OF this, of expected contract e] show ?thesis by (auto simp: solanaFirst_def)
  next
    case (Some r)
    from solanaRun_stored[OF this, of expected contract e] show ?thesis
      by (auto simp: solanaStep_def succeedsS_def)
  qed
next
  case (3 s r e)
  from solanaRun_stored[OF 3, of expected contract e] show ?case
    by (auto simp: solanaStep_def succeedsS_def)
qed

section \<open>The two journals agree\<close>

text \<open>
  What the generic journal is given so that it can be compared with the mint's; the program itself never calls
  it with this contract.
\<close>

definition mintContract :: "(mintExpectation, mintEnvelope, mintState) solanaContract" where
  "mintContract = \<lparr>scSchema = MINT_JOURNAL_SCHEMA, scLabel = ''mint'', scSuccessReason = ''exact-finalized-mint-transaction'',
     scVerify = verifySolanaMintIntent, scCanonical = mintCanonical, scStateMatches = mintMatches\<rparr>"

text \<open>The outcome of a run but for the text of its error.\<close>

definition outcome :: "('r, 'a) journalM \<Rightarrow> 'r journalState \<Rightarrow> 'a option \<times> 'r journalState" where
  "outcome m s = (case m s of (Inl e, t) \<Rightarrow> (None, t) | (Inr x, t) \<Rightarrow> (Some x, t))"

named_theorems outcome_rules

lemma outcome_bind [outcome_rules]:
  "outcome m = outcome n \<Longrightarrow> (\<And>x. outcome (f x) = outcome (g x)) \<Longrightarrow> outcome (bindJ m f) = outcome (bindJ n g)"
proof
  fix s assume h: "outcome m = outcome n" "\<And>x. outcome (f x) = outcome (g x)"
  have ms: "outcome m s = outcome n s" by (simp add: h(1))
  obtain a t b u where r: "m s = (a, t)" "n s = (b, u)" by fastforce
  show "outcome (bindJ m f) s = outcome (bindJ n g) s"
    using ms fun_cong[OF h(2), of _ t] unfolding outcome_def bindJ_def r by (cases a; cases b) auto
qed

lemma outcome_error [outcome_rules]: "outcome (liftJ (failIf c e)) = outcome (liftJ (failIf c e'))"
  by (rule ext) (simp add: outcome_def liftJ_def failIf_def)

lemma outcome_throw [outcome_rules]: "outcome (liftJ (Inl e)) = outcome (liftJ (Inl e'))"
  by (rule ext) (simp add: outcome_def liftJ_def)

lemma bindJ_assoc: "bindJ (bindJ m f) g = bindJ m (\<lambda>x. bindJ (f x) g)"
  by (rule ext) (simp add: bindJ_def split: prod.split sum.split)

lemma bindJ_return [simp]: "bindJ (returnJ x) f = f x"
  by (rule ext) (simp add: bindJ_def returnJ_def)

lemma liftJ_bind: "liftJ (bindE m f) = bindJ (liftJ m) (\<lambda>x. liftJ (f x))"
  by (rule ext) (cases m; simp add: bindJ_def liftJ_def)

lemma liftJ_Inr: "liftJ (Inr x) = returnJ x"
  by (rule ext) (simp add: liftJ_def returnJ_def)

lemma liftJ_Inl_bind [simp]: "bindJ (liftJ (Inl e)) f = liftJ (Inl e)"
  by (rule ext) (simp add: bindJ_def liftJ_def)

lemma outcome_if [outcome_rules]:
  "(c \<Longrightarrow> outcome m = outcome m') \<Longrightarrow> (\<not> c \<Longrightarrow> outcome n = outcome n') \<Longrightarrow>
   outcome (if c then m else n) = outcome (if c then m' else n')"
  by simp

text \<open>The parts of the two files agree: their checks, their settlements and their submissions.\<close>

lemma mint_checks: "mintBase64 = isBase64" "mintUnsigned = isUnsigned64" "validSignedMint = validSigned" "mintConflict = terminalConflict"
  by (simp_all add: fun_eq_iff mintBase64_def mintUnsigned_def isUnsigned64_def validSignedMint_def validSigned_def mintConflict_def terminalConflict_def)

lemma finalized_mint: "finalizedMint observation record = finalizedOutcome observation record mintMatches"
  by (simp add: finalizedMint_def finalizedOutcome_def mint_checks)

lemma unresolved_mint: "unresolvedMint = unresolvedS"
  by (simp add: fun_eq_iff unresolvedMint_def unresolvedS_def)

lemma settle_mint: "settleMint observation current = settleS observation current mintMatches ''exact-finalized-mint-transaction''"
  by (simp add: settleMint_def settleS_def finalized_mint unresolved_mint mint_checks bindJ_assoc split: option.split)

lemma submit_mint: "submitMint current broadcast = submitS current broadcast"
proof -
  have merged: "current\<lparr>srPhase := ''submitting'', srPhase := ''submitted''\<rparr> = current\<lparr>srPhase := ''submitted''\<rparr>" by simp
  show ?thesis unfolding submitMint_def submitS_def unresolved_mint Let_def merged ..
qed

lemma advance_mint: "advanceMint ports current intent = advanceS (ports\<lparr>spBeforeBroadcast := None\<rparr>) mintContract current intent"
  by (simp add: advanceMint_def advanceS_def mintContract_def settle_mint submit_mint unresolved_mint split: sum.split solanaObservation.split)

lemma mint_stored:
  "liftJ (validateStoredMint record expected) = bindJ (liftJ (validateStored record MINT_JOURNAL_SCHEMA ''mint''))
     (\<lambda>_. bindJ (liftJ (mintCanonical (srIntent record) expected)) (\<lambda>_. returnJ ()))"
  by (simp add: validateStoredMint_def validateStored_def liftJ_bind liftJ_Inr)

lemma outcome_option [outcome_rules]:
  "outcome m = outcome m' \<Longrightarrow> (\<And>x. v = Some x \<Longrightarrow> outcome (f x) = outcome (g x)) \<Longrightarrow>
   outcome (case v of None \<Rightarrow> m | Some x \<Rightarrow> f x) = outcome (case v of None \<Rightarrow> m' | Some x \<Rightarrow> g x)"
  by (cases v) simp_all

lemma load_mint:
  "outcome (loadMint expected ports) = outcome (loadS expected (ports\<lparr>spBeforeBroadcast := None\<rparr>) mintContract)"
  unfolding loadMint_def loadS_def mint_stored Let_def
  by (intro outcome_rules)
    (simp_all add: mintContract_def signedIdentity_def mint_checks de_Morgan_conj outcome_rules)

lemma mint_outcome:
  "outcome (runSolanaMintJournal expected ports)
     = outcome (runSolanaTransactionJournal expected (ports\<lparr>spBeforeBroadcast := None\<rparr>) mintContract)"
  unfolding runSolanaMintJournal_def runSolanaTransactionJournal_def
  by (intro outcome_rules load_mint) (simp_all add: advance_mint case_prod_unfold)

section \<open>Properties\<close>

text \<open>
  C23. One send: over any runs of a Solana journal, whatever its ports answer and whatever writes
  fail, at most one transaction is sent, the one of the stored record.
\<close>

theorem solana_journal_sends_once:
  assumes "runs (solanaRun expected contract) newJournal t"
  shows "jsSent t = [] \<or> (\<exists>r. jsStore t = Some r \<and> jsSent t = [ssBytesBase64 (srSigned r)])"
  using assms by (rule solana_journal.at_most_one)

text \<open>
  The outcome of a finalized transaction is final: a stored record that has succeeded or failed
  is the same after any further runs, whatever evidence they see.
\<close>

lemma solana_journal_terminal_final:
  assumes "runs (solanaRun expected contract) s t" "jsStore s = Some r" "srPhase r = ''succeeded'' \<or> srPhase r = ''failed''"
  shows "jsStore t = Some r"
  using assms
proof (induction rule: runs.induct)
  case (more s t e)
  then show ?case using solanaRun_stored[of t r expected contract e] by (auto simp: solanaStep_def succeedsS_def)
qed simp

text \<open>
  C36. The two journals agree: the mint journal of \<open>solana-journal.ts\<close>, whose checks, settlement and
  submission are its own code, and the generic journal of \<open>solana-transaction-journal.ts\<close>, given the
  mint's schema, verification, canonical text and state, have for every expectation, ports and state the same
  outcome, sends and stored record, but for the texts of their errors.
\<close>

theorem mint_journal_is_generic:
  "outcome (runSolanaMintJournal expected ports)
     = outcome (runSolanaTransactionJournal expected (ports\<lparr>spBeforeBroadcast := None\<rparr>) mintContract)"
  by (rule mint_outcome)

section \<open>A sample\<close>

definition sampleScope :: expectedScope where
  "sampleScope = \<lparr>meTestOnly = True, meCluster = ''solana-devnet''\<rparr>"

definition sampleContract :: "(expectedScope, string, unit) solanaContract" where
  "sampleContract = \<lparr>scSchema = ''s'', scLabel = ''sample'', scSuccessReason = ''done'', scVerify = (\<lambda>_ _. Inr ''n''),
     scCanonical = (\<lambda>n _. Inr n), scStateMatches = (\<lambda>_ _. True)\<rparr>"

definition sampleSignedTx :: solanaSigned where
  "sampleSignedTx = \<lparr>ssBytesBase64 = ''AAAA'', ssSignature = replicate 64 (CHR ''2''), ssBlockhash = replicate 32 (CHR ''3''),
     ssLastValidBlockHeight = ''9''\<rparr>"

definition sampleSolanaPorts :: "unit solanaObservation \<Rightarrow> (expectedScope, string, unit) solanaPorts" where
  "sampleSolanaPorts ob = \<lparr>spReadFails = None, spSign = (\<lambda>_. Inr sampleSignedTx),
     spInspectSigned = (\<lambda>_. Inr \<lparr>siSignature = ssSignature sampleSignedTx, siBlockhash = ssBlockhash sampleSignedTx,
        siMessageBase64 = ''AAAA'', siIntent = \<lparr>siFeePayer = [], siInstructions = []\<rparr>\<rparr>),
     spObserve = (\<lambda>_ _. Inr ob), spBeforeBroadcast = None, spBroadcast = (\<lambda>_. Inr (ssSignature sampleSignedTx))\<rparr>"

definition sampleSolanaRecord :: "string \<Rightarrow> string solanaRecord" where
  "sampleSolanaRecord phase = \<lparr>srSchema = ''s'', srIntent = ''n'', srSigned = sampleSignedTx, srMessageBase64 = ''AAAA'', srPhase = phase\<rparr>"

definition sampleSolanaState :: "string \<Rightarrow> string solanaRecord journalState" where
  "sampleSolanaState phase = \<lparr>jsStore = Some (sampleSolanaRecord phase), jsSent = [ssBytesBase64 sampleSignedTx], jsWrites = []\<rparr>"

lemma sample_signed_ok: "validSigned sampleSignedTx" "isBase64 ''AAAA''"
  by code_simp+

lemma sample_solana_run:
  "solanaRun sampleScope sampleContract (sampleSolanaPorts SolNotFound, []) newJournal = sampleSolanaState ''submitted''"
  using sample_signed_ok
  by (simp add: Let_def solanaRun_def runSolanaTransactionJournal_def sampleScope_def loadS_def advanceS_def submitS_def newJournal_def
      sampleSolanaPorts_def sampleContract_def signedIdentity_def sampleSolanaState_def sampleSolanaRecord_def
      bindJ_def liftJ_def readJ_def writeJ_def sendJ_def returnJ_def unresolvedS_def)

lemma solana_journal_sends_once_witness:
  "jsSent (sampleSolanaState ''submitted'') \<noteq> []
     \<and> (\<exists>r. jsStore (sampleSolanaState ''submitted'') = Some r \<and> jsSent (sampleSolanaState ''submitted'') = [ssBytesBase64 (srSigned r)])"
proof -
  have "runs (solanaRun sampleScope sampleContract) newJournal (sampleSolanaState ''submitted'')"
    using runs.more[OF runs.none] sample_solana_run by metis
  from solana_journal_sends_once[OF this] show ?thesis by (simp add: sampleSolanaState_def)
qed

end
