(* ===== verification/SlitherModel.thy ===== *)
theory SlitherModel
  imports GrantSchedule RawArtifact
begin

text \<open>
  The data of the Slither security gate (\<open>tooling/security/slither/src/domain/model.ts\<close>) and
  its failure taxonomy (\<open>application/failure.ts\<close>). The closed union of error codes is the list
  \<open>GATE_ERROR_CODES\<close>; an error of the gate is its code, the messages are prose.
\<close>

datatype impact = High | Medium | Low | Informational | Optimization

datatype resultCategory = Clean | PolicyFailure | ToolFailure | OutputFailure | EnvironmentFailure

type_synonym gateErrorCode = string

definition GATE_ERROR_CODES :: "gateErrorCode list" where
  "GATE_ERROR_CODES =
    [''ABSOLUTE_PATH_REQUIRED'', ''ANALYZER_RUNTIME_FAILED'', ''ARTIFACT_EXPORT_FAILED'',
     ''BUILD_INFO_INVALID'', ''BYTECODE_MISSING'', ''CANDIDATE_SHA_MISMATCH'',
     ''CANDIDATE_SHA_INVALID'', ''CI_PREREQUISITE_FAILED'', ''COMPILER_BUILD_FAILED'',
     ''COMPILER_SETTINGS_MISMATCH'', ''CONTAINER_FAILED'', ''CONTAINER_TIMEOUT'',
     ''DETECTOR_INVENTORY_INVALID'', ''DOCKER_CLI_INVALID'', ''EVIDENCE_BUNDLE_INVALID'',
     ''EVIDENCE_INSIDE_REPOSITORY'', ''EVIDENCE_SCHEMA_INVALID'', ''FORGE_PIN_MISMATCH'',
     ''GIT_STATE_UNAVAILABLE'', ''IMAGE_ENVIRONMENT_INVALID'', ''IMAGE_METADATA_INVALID'',
     ''IMAGE_PIN_MISMATCH'', ''IMAGE_PREPARATION_FAILED'', ''IMAGE_PULL_FAILED'',
     ''IMAGE_UNAVAILABLE'', ''INPUT_CLOSURE_MUTATED'', ''INPUT_HASH_MISMATCH'',
     ''MALFORMED_JSON'', ''POLICY_SHAPE_INVALID'', ''PRODUCTION_SOURCE_UNASSIGNED'',
     ''SLITHER_EXIT_INVALID'', ''SLITHER_INVENTORY_EMPTY'', ''SOLC_PIN_MISMATCH'',
     ''SUPPRESSION_SHAPE_INVALID'', ''TARGET_MANIFEST_INVALID'', ''TOOLCHAIN_LOCK_INVALID'',
     ''TOOL_VERSION_MISMATCH'', ''UNEXPECTED_ENVIRONMENT_FAILURE'', ''CONTAINER_ID_INVALID'',
     ''CGROUP_RUNTIME_UNPROVEN'', ''TEMP_ROOT_INVALID'', ''PUBLICATION_UNAVAILABLE'',
     ''VULNERABLE_FIXTURE_NOT_BLOCKED'', ''WORKTREE_NOT_CLEAN'']"

section \<open>Findings, suppressions and the manifest\<close>

text \<open>Offsets are JavaScript numbers of parsed JSON, so any \<open>JNum\<close> or \<open>JFrac\<close>.\<close>

record sourceLocation =
  slPath :: string
  slStart :: jsval
  slLength :: jsval
  slSourceHash :: string
  slSnippetHash :: string

record finding =
  fgDetectorId :: string
  fgImpact :: impact
  fgConfidence :: string
  fgIdentity :: string
  fgFindingIdentityHash :: string
  fgLocation :: sourceLocation
  fgFingerprint :: string

record suppression =
  suFingerprint :: string
  suDetectorId :: string
  suPath :: string
  suStart :: jsval
  suLength :: jsval
  suSourceHash :: string
  suSnippetHash :: string
  suFindingIdentityHash :: string
  suReason :: string
  suOwner :: string
  suExpiresAt :: string
  suReviewAt :: string
  suRegressionEvidence :: string

record closureEntry =
  cePath :: string
  ceSha256 :: string

record gateTarget =
  gtPath :: string
  gtContract :: string

record gateTools =
  toForgeArchiveSha256 :: string
  toForgeBinarySha256 :: string
  toSolcBinarySha256 :: string

record gateManifest =
  gmTargets :: "gateTarget list"
  gmExpectedContracts :: "string list"
  gmSources :: "closureEntry list"
  gmConfig :: "closureEntry list"
  gmCompiler :: jsval
  gmTools :: gateTools
  gmCreationBytecodeSha256 :: string
  gmFixtureSource :: closureEntry
  gmFixtureBytecodeSha256 :: string
  gmDetectorInventory :: closureEntry

text \<open>The policy reads all of an analysis but the stored compiler evidence and fixture proof.\<close>

record analysisInput =
  aiSuccess :: bool
  aiFindings :: "finding list"
  aiAnalyzedContracts :: "string list"
  aiAnalyzedSources :: "string list"
  aiClosure :: "closureEntry list"
  aiDetectorInventory :: "string list"
  aiCompiler :: jsval
  aiCreationBytecodeSha256 :: string
  aiFreshFoundryCreationBytecodeSha256 :: string
  aiAnalysisErrors :: "string list"
  aiForgeBinarySha256 :: string
  aiSolcBinarySha256 :: string

record findingTriage =
  ftFingerprint :: string
  ftOwner :: string
  ftDisposition :: string
  ftRationale :: string
  ftReviewedAt :: string

record policyDecision =
  pdCategory :: resultCategory
  pdExitCode :: int
  pdBlocking :: "finding list"
  pdVisible :: "finding list"
  pdSuppressed :: "finding list"
  pdErrors :: "string list"

definition COMPILER_PROFILE :: jsval where
  "COMPILER_PROFILE = JObj Plain
    [(''version'', JStr ''0.8.36+commit.8a079791''),
     (''evmVersion'', JStr ''paris''),
     (''optimizerEnabled'', JBool True),
     (''optimizerRuns'', JNum 200),
     (''bytecodeHash'', JStr ''ipfs''),
     (''cborMetadata'', JBool True),
     (''useLiteralContent'', JBool False),
     (''viaIR'', JBool False),
     (''experimental'', JBool False),
     (''remappings'', JArr Plain
       [JStr ''@openzeppelin/contracts/=lib/openzeppelin-contracts/contracts/'',
        JStr ''openzeppelin-contracts/=lib/openzeppelin-contracts/contracts/''])]"

definition parseCompilerProfile :: "jsval \<Rightarrow> gateErrorCode + jsval" where
  "parseCompilerProfile profile =
     bindE (failIf (stringify profile \<noteq> stringify COMPILER_PROFILE) ''COMPILER_SETTINGS_MISMATCH'') (\<lambda>_.
     Inr COMPILER_PROFILE)"

lemma COMPILER_PROFILE_json: "isJson COMPILER_PROFILE"
  by (simp add: COMPILER_PROFILE_def)

text \<open>The comparison of texts is an equality of values: nothing but the profile passes.\<close>

lemma parseCompilerProfile_Inr:
  "isJson profile \<Longrightarrow> parseCompilerProfile profile = Inr p \<longleftrightarrow> profile = COMPILER_PROFILE \<and> p = COMPILER_PROFILE"
  using COMPILER_PROFILE_json by (auto simp: parseCompilerProfile_def bindE_Inr_iff stringify_inj)

section \<open>The failure registry\<close>

record failureClassification =
  fcCategory :: resultCategory
  fcExitCode :: int
  fcStage :: string

definition outputFailure :: "string \<Rightarrow> failureClassification" where
  "outputFailure stage = \<lparr>fcCategory = OutputFailure, fcExitCode = 40, fcStage = stage\<rparr>"

definition toolFailure :: "string \<Rightarrow> failureClassification" where
  "toolFailure stage = \<lparr>fcCategory = ToolFailure, fcExitCode = 30, fcStage = stage\<rparr>"

definition environmentFailure :: "string \<Rightarrow> failureClassification" where
  "environmentFailure stage = \<lparr>fcCategory = EnvironmentFailure, fcExitCode = 50, fcStage = stage\<rparr>"

definition FAILURE_REGISTRY :: "(gateErrorCode \<times> failureClassification) list" where
  "FAILURE_REGISTRY =
    [(''ABSOLUTE_PATH_REQUIRED'', environmentFailure ''initialization''),
     (''ANALYZER_RUNTIME_FAILED'', toolFailure ''analysis-runtime''),
     (''ARTIFACT_EXPORT_FAILED'', outputFailure ''artifact-validation''),
     (''BUILD_INFO_INVALID'', outputFailure ''artifact-validation''),
     (''BYTECODE_MISSING'', outputFailure ''artifact-validation''),
     (''CANDIDATE_SHA_MISMATCH'', environmentFailure ''repository-validation''),
     (''CANDIDATE_SHA_INVALID'', environmentFailure ''initialization''),
     (''CI_PREREQUISITE_FAILED'', environmentFailure ''ci-prerequisite''),
     (''COMPILER_BUILD_FAILED'', outputFailure ''compiler-build''),
     (''COMPILER_SETTINGS_MISMATCH'', outputFailure ''artifact-validation''),
     (''CONTAINER_FAILED'', environmentFailure ''container-execution''),
     (''CONTAINER_TIMEOUT'', environmentFailure ''container-execution''),
     (''DETECTOR_INVENTORY_INVALID'', outputFailure ''detector-inventory''),
     (''DOCKER_CLI_INVALID'', environmentFailure ''image-preflight''),
     (''EVIDENCE_BUNDLE_INVALID'', outputFailure ''final-validation''),
     (''EVIDENCE_INSIDE_REPOSITORY'', environmentFailure ''initialization''),
     (''EVIDENCE_SCHEMA_INVALID'', outputFailure ''schema-validation''),
     (''FORGE_PIN_MISMATCH'', environmentFailure ''toolchain-validation''),
     (''GIT_STATE_UNAVAILABLE'', environmentFailure ''repository-validation''),
     (''IMAGE_ENVIRONMENT_INVALID'', environmentFailure ''image-preflight''),
     (''IMAGE_METADATA_INVALID'', environmentFailure ''image-preflight''),
     (''IMAGE_PIN_MISMATCH'', environmentFailure ''image-preflight''),
     (''IMAGE_PREPARATION_FAILED'', environmentFailure ''image-preflight''),
     (''IMAGE_PULL_FAILED'', environmentFailure ''image-pull''),
     (''IMAGE_UNAVAILABLE'', environmentFailure ''image-preflight''),
     (''INPUT_CLOSURE_MUTATED'', environmentFailure ''repository-validation''),
     (''INPUT_HASH_MISMATCH'', outputFailure ''input-validation''),
     (''MALFORMED_JSON'', outputFailure ''artifact-parsing''),
     (''POLICY_SHAPE_INVALID'', outputFailure ''policy-validation''),
     (''PRODUCTION_SOURCE_UNASSIGNED'', outputFailure ''manifest-validation''),
     (''SLITHER_EXIT_INVALID'', outputFailure ''artifact-parsing''),
     (''SLITHER_INVENTORY_EMPTY'', outputFailure ''artifact-parsing''),
     (''SOLC_PIN_MISMATCH'', environmentFailure ''toolchain-validation''),
     (''SUPPRESSION_SHAPE_INVALID'', outputFailure ''policy-validation''),
     (''TARGET_MANIFEST_INVALID'', outputFailure ''manifest-validation''),
     (''TOOLCHAIN_LOCK_INVALID'', environmentFailure ''toolchain-validation''),
     (''TOOL_VERSION_MISMATCH'', environmentFailure ''version-inventory''),
     (''CONTAINER_ID_INVALID'', environmentFailure ''container-identity''),
     (''CGROUP_RUNTIME_UNPROVEN'', environmentFailure ''container-isolation''),
     (''TEMP_ROOT_INVALID'', environmentFailure ''initialization''),
     (''PUBLICATION_UNAVAILABLE'', outputFailure ''publication''),
     (''UNEXPECTED_ENVIRONMENT_FAILURE'', environmentFailure ''environment''),
     (''VULNERABLE_FIXTURE_NOT_BLOCKED'', outputFailure ''semantic-validation''),
     (''WORKTREE_NOT_CLEAN'', environmentFailure ''repository-validation'')]"

definition isGateErrorCode :: "string \<Rightarrow> bool" where
  "isGateErrorCode c = (c \<in> set (map fst FAILURE_REGISTRY))"

definition classifyGateFailure :: "gateErrorCode \<Rightarrow> failureClassification option" where
  "classifyGateFailure c = map_of FAILURE_REGISTRY c"

text \<open>The registry has the codes of the union, each once, and an exit code per category.\<close>

lemma registry_codes: "sortText (map fst FAILURE_REGISTRY) = sortText GATE_ERROR_CODES \<and> distinct GATE_ERROR_CODES"
  by code_simp

definition categoryExit :: "resultCategory \<Rightarrow> int" where
  "categoryExit c = (case c of Clean \<Rightarrow> 0 | PolicyFailure \<Rightarrow> 20 | ToolFailure \<Rightarrow> 30
     | OutputFailure \<Rightarrow> 40 | EnvironmentFailure \<Rightarrow> 50)"

lemma registry_exits:
  "list_all (\<lambda>(c, f). fcCategory f \<notin> {Clean, PolicyFailure} \<and> fcExitCode f = categoryExit (fcCategory f)) FAILURE_REGISTRY"
  by code_simp

lemma classified:
  assumes "c \<in> set GATE_ERROR_CODES"
  shows "\<exists>f. classifyGateFailure c = Some f \<and> fcCategory f \<notin> {Clean, PolicyFailure} \<and> fcExitCode f = categoryExit (fcCategory f)"
proof -
  have "set (sortText (map fst FAILURE_REGISTRY)) = set (sortText GATE_ERROR_CODES)"
    using registry_codes by simp
  then have "c \<in> set (map fst FAILURE_REGISTRY)" using assms by simp
  then obtain f where "map_of FAILURE_REGISTRY c = Some f"
    by (metis map_of_eq_None_iff not_None_eq set_map)
  moreover from this have "(c, f) \<in> set FAILURE_REGISTRY" by (rule map_of_SomeD)
  ultimately show ?thesis using registry_exits by (auto simp: classifyGateFailure_def list_all_iff)
qed

end
