(* ===== verification/SlitherPolicy.thy ===== *)
theory SlitherPolicy
  imports SlitherModel
begin

text \<open>
  The policy of the Slither gate (\<open>application/policy.ts\<close>, \<open>triage.ts\<close>): an analysis is
  compared with the approved manifest, every suppression must be owned, live, exact and used,
  every low finding triaged, and what is left decides. The main result is that the decision is
  clean for exactly the analyses the policy describes.
\<close>

section \<open>Texts of dates and hashes\<close>

definition digitsAt :: "string \<Rightarrow> nat \<Rightarrow> nat \<Rightarrow> nat" where
  "digitsAt s i n = undec (take n (drop i s))"

text \<open>\<open>/^\d{4}-\d{2}-\d{2}T\d{2}:\d{2}:\d{2}(?:\.\d{3})?Z$/u\<close>\<close>

definition utcPattern :: "(char \<Rightarrow> bool) list" where
  "utcPattern = [isDigit, isDigit, isDigit, isDigit, (=) CHR ''-'', isDigit, isDigit, (=) CHR ''-'', isDigit, isDigit,
     (=) CHR ''T'', isDigit, isDigit, (=) CHR '':'', isDigit, isDigit, (=) CHR '':'', isDigit, isDigit]"

definition matchesUtcDate :: "string \<Rightarrow> bool" where
  "matchesUtcDate s \<longleftrightarrow> list_all2 (\<lambda>p c. p c) (utcPattern @ [(=) CHR ''Z'']) s
     \<or> list_all2 (\<lambda>p c. p c) (utcPattern @ [(=) CHR ''.'', isDigit, isDigit, isDigit, (=) CHR ''Z'']) s"

text \<open>
  \<open>Date.parse\<close> on such a text, in milliseconds; \<open>None\<close> is \<open>NaN\<close>. The language admits the days 01 to
  31 in every month (a day past its end is counted on) and the hour 24 at the end of a day. Every
  caller requires the pattern as well, so other texts are of no account.
\<close>

definition dateParse :: "string \<Rightarrow> int option" where
  "dateParse s =
     (let y = digitsAt s 0 4; mo = digitsAt s 5 2; d = digitsAt s 8 2; h = digitsAt s 11 2;
          mi = digitsAt s 14 2; sec = digitsAt s 17 2; ms = (if length s = 24 then digitsAt s 20 3 else 0)
      in if matchesUtcDate s \<and> 1 \<le> mo \<and> mo \<le> 12 \<and> 1 \<le> d \<and> d \<le> 31 \<and> mi \<le> 59 \<and> sec \<le> 59
           \<and> (h \<le> 23 \<or> h = 24 \<and> mi = 0 \<and> sec = 0 \<and> ms = 0)
         then Some (dateUTC (int y) (mo - 1) (int d) (int h) (int mi) (int sec) * 1000 + int ms)
         else None)"

text \<open>\<open>/^sha256:[0-9a-f]{64}$/u\<close>\<close>

definition isSha256Text :: "string \<Rightarrow> bool" where
  "isSha256Text s \<longleftrightarrow> take 7 s = ''sha256:'' \<and> length s = 71 \<and> list_all isHexLower (drop 7 s)"

text \<open>\<open>===\<close> on two numbers.\<close>

definition sameNumber :: "jsval \<Rightarrow> jsval \<Rightarrow> bool" where
  "sameNumber a b \<longleftrightarrow> a = b \<and> a \<noteq> JFrac ''NaN''"

definition sameSet :: "string list \<Rightarrow> string list \<Rightarrow> bool" where
  "sameSet left right \<longleftrightarrow> sortText left = sortText right"

lemma sameSet_mset: "sameSet left right \<longleftrightarrow> mset left = mset right"
  by (simp add: sameSet_def sortText_eq_iff)

section \<open>Triage of the lower findings\<close>

definition lowerImpact :: "finding \<Rightarrow> bool" where
  "lowerImpact f \<longleftrightarrow> fgImpact f = Low \<or> fgImpact f = Informational \<or> fgImpact f = Optimization"

definition triageFormed :: "findingTriage \<Rightarrow> bool" where
  "triageFormed e \<longleftrightarrow> isSha256Text (ftFingerprint e) \<and> length (trim (ftOwner e)) \<noteq> 0
     \<and> 20 \<le> length (trim (ftRationale e)) \<and> matchesUtcDate (ftReviewedAt e) \<and> dateParse (ftReviewedAt e) \<noteq> None"

definition validateFindingTriage :: "finding list \<Rightarrow> findingTriage list \<Rightarrow> string list" where
  "validateFindingTriage visibleFindings entries =
     (let lower = filter lowerImpact visibleFindings;
          fingerprints = map ftFingerprint entries
      in (if setSize fingerprints \<noteq> length fingerprints then [''triage fingerprints must be unique''] else [])
       @ concat (map (\<lambda>f.
           if length (filter (\<lambda>e. ftFingerprint e = fgFingerprint f) entries) \<noteq> 1
           then [''finding '' @ fgFingerprint f @ '' requires exactly one triage entry''] else []) lower)
       @ concat (map (\<lambda>e.
           (if \<not> list_ex (\<lambda>f. fgFingerprint f = ftFingerprint e) lower
            then [''triage '' @ ftFingerprint e @ '' is stale or does not identify a visible lower-impact finding''] else [])
         @ (if \<not> triageFormed e then [''triage '' @ ftFingerprint e @ '' is malformed''] else [])) entries))"

section \<open>Suppressions\<close>

definition exactSuppressionMatch :: "finding \<Rightarrow> suppression \<Rightarrow> bool" where
  "exactSuppressionMatch f s \<longleftrightarrow>
     suFingerprint s = fgFingerprint f \<and> suDetectorId s = fgDetectorId f
   \<and> suPath s = slPath (fgLocation f) \<and> sameNumber (suStart s) (slStart (fgLocation f))
   \<and> sameNumber (suLength s) (slLength (fgLocation f)) \<and> suSourceHash s = slSourceHash (fgLocation f)
   \<and> suSnippetHash s = slSnippetHash (fgLocation f) \<and> suFindingIdentityHash s = fgFindingIdentityHash f"

definition matchingSuppressions :: "finding \<Rightarrow> suppression list \<Rightarrow> nat list" where
  "matchingSuppressions f suppressions =
     map fst (filter (\<lambda>(i, s). exactSuppressionMatch f s) (enumerate 0 suppressions))"

record suppressionResult =
  spErrors :: "string list"
  spUsed :: "nat list"
  spSuppressed :: "finding list"
  spUnsuppressed :: "finding list"

definition suppressStep :: "suppression list \<Rightarrow> suppressionResult \<Rightarrow> finding \<Rightarrow> suppressionResult" where
  "suppressStep suppressions st f =
     (let found = matchingSuppressions f suppressions;
          st' = (if 1 < length found
                 then st\<lparr>spErrors := spErrors st @ [''finding '' @ fgFingerprint f @ '' matched multiple suppressions'']\<rparr>
                 else st)
      in if length found = 1
         then st'\<lparr>spUsed := hd found # spUsed st', spSuppressed := spSuppressed st' @ [f]\<rparr>
         else st'\<lparr>spUnsuppressed := spUnsuppressed st' @ [f]\<rparr>)"

definition hasOwnershipEvidence :: "suppression \<Rightarrow> bool" where
  "hasOwnershipEvidence s \<longleftrightarrow> 10 \<le> length (trim (suReason s)) \<and> 0 < length (trim (suOwner s))
     \<and> 0 < length (trim (suRegressionEvidence s))"

definition isDetectorChar :: "char \<Rightarrow> bool" where
  "isDetectorChar c \<longleftrightarrow> isLower c \<or> isDigit c \<or> c = CHR ''-''"

definition atLeast :: "int \<Rightarrow> jsval \<Rightarrow> bool" where
  "atLeast n v = (case v of JNum k \<Rightarrow> n \<le> k | _ \<Rightarrow> False)"

definition hasExactTuple :: "suppression \<Rightarrow> bool" where
  "hasExactTuple s \<longleftrightarrow>
     suDetectorId s \<noteq> [] \<and> list_all isDetectorChar (suDetectorId s)
   \<and> take (length ''contracts/evm/'') (suPath s) = ''contracts/evm/''
   \<and> ''..'' \<notin> set (splitOn (CHR ''/'') (suPath s))
   \<and> isSafeInteger (suStart s) \<and> atLeast 0 (suStart s)
   \<and> isSafeInteger (suLength s) \<and> atLeast 1 (suLength s)
   \<and> list_all isSha256Text [suFingerprint s, suSourceHash s, suSnippetHash s, suFindingIdentityHash s]"

definition hasValidDates :: "suppression \<Rightarrow> int \<Rightarrow> bool" where
  "hasValidDates s now \<longleftrightarrow> matchesUtcDate (suExpiresAt s) \<and> matchesUtcDate (suReviewAt s)
     \<and> (case (dateParse (suExpiresAt s), dateParse (suReviewAt s)) of
          (Some expiry, Some review) \<Rightarrow> now < expiry \<and> now < review \<and> review \<le> expiry
        | _ \<Rightarrow> False)"

definition validateSuppression :: "suppression \<Rightarrow> nat \<Rightarrow> nat list \<Rightarrow> int \<Rightarrow> string list" where
  "validateSuppression s index used now =
     (if \<not> hasOwnershipEvidence s then [''suppression '' @ suFingerprint s @ '' lacks ownership evidence''] else [])
   @ (if \<not> hasExactTuple s then [''suppression '' @ suFingerprint s @ '' has a malformed exact tuple''] else [])
   @ (if \<not> hasValidDates s now
      then [''suppression '' @ suFingerprint s @ '' is expired, review-overdue or malformed''] else [])
   @ (if index \<notin> set used then [''suppression '' @ suFingerprint s @ '' is unused''] else [])"

definition evaluateSuppressions :: "finding list \<Rightarrow> suppression list \<Rightarrow> int \<Rightarrow> suppressionResult" where
  "evaluateSuppressions findings suppressions now =
     (let start = \<lparr>spErrors = (if setSize (map suFingerprint suppressions) \<noteq> length suppressions
                               then [''suppression fingerprints must be unique''] else []),
                   spUsed = [], spSuppressed = [], spUnsuppressed = []\<rparr>;
          st = foldl (suppressStep suppressions) start findings
      in st\<lparr>spErrors := spErrors st
             @ concat (map (\<lambda>(i, s). validateSuppression s i (spUsed st) now) (enumerate 0 suppressions))\<rparr>)"

section \<open>The analysis against the manifest\<close>

record policyRequest =
  prInput :: analysisInput
  prManifest :: gateManifest
  prExpectedDetectors :: "string list"
  prSuppressions :: "suppression list"
  prTriage :: "findingTriage list option"
  prNow :: "int option"

text \<open>\<open>path.replace(/^contracts\/evm\//u, "")\<close>\<close>

definition stripContracts :: "string \<Rightarrow> string" where
  "stripContracts path =
     (if take (length ''contracts/evm/'') path = ''contracts/evm/'' then drop (length ''contracts/evm/'') path else path)"

definition expectedSources :: "gateManifest \<Rightarrow> string list" where
  "expectedSources manifest = map (\<lambda>e. stripContracts (cePath e)) (gmSources manifest)"

definition closureLine :: "closureEntry \<Rightarrow> string" where
  "closureLine e = cePath e @ '':'' @ ceSha256 e"

definition expectedClosure :: "gateManifest \<Rightarrow> string list" where
  "expectedClosure manifest = map closureLine (gmSources manifest @ gmConfig manifest @ [gmDetectorInventory manifest])"

definition observedClosure :: "analysisInput \<Rightarrow> string list" where
  "observedClosure input = map closureLine (aiClosure input)"

definition bytecodeMatches :: "analysisInput \<Rightarrow> gateManifest \<Rightarrow> bool" where
  "bytecodeMatches input manifest \<longleftrightarrow>
     aiCreationBytecodeSha256 input = aiFreshFoundryCreationBytecodeSha256 input
   \<and> aiCreationBytecodeSha256 input = gmCreationBytecodeSha256 manifest"

definition toolsMatch :: "analysisInput \<Rightarrow> gateManifest \<Rightarrow> bool" where
  "toolsMatch input manifest \<longleftrightarrow>
     aiForgeBinarySha256 input = toForgeBinarySha256 (gmTools manifest)
   \<and> aiSolcBinarySha256 input = toSolcBinarySha256 (gmTools manifest)"

definition validateAnalysis :: "policyRequest \<Rightarrow> bool \<Rightarrow> string list" where
  "validateAnalysis request toolFailed =
     (let input = prInput request; manifest = prManifest request;
          checks =
           [(toolFailed, ''Slither reported an analysis error''),
            (\<not> sameSet (aiAnalyzedContracts input) (gmExpectedContracts manifest),
             ''analyzed contract closure differs from the expected manifest''),
            (\<not> sameSet (aiAnalyzedSources input) (expectedSources manifest),
             ''analyzed source closure differs from the expected manifest''),
            (\<not> sameSet (observedClosure input) (expectedClosure manifest),
             ''source closure hash differs from the expected manifest''),
            (\<not> bytecodeMatches input manifest,
             ''Slither, fresh Foundry and approved creation bytecode identities differ''),
            (\<not> toolsMatch input manifest, ''mounted tool binary identity differs from the expected manifest''),
            (stringify (aiCompiler input) \<noteq> stringify (gmCompiler manifest),
             ''compiler settings differ from the approved profile''),
            (\<not> sameSet (aiDetectorInventory input) (prExpectedDetectors request),
             ''detector inventory differs from the exact pinned Slither inventory'')]
      in map snd (filter fst checks))"

definition failureDecision :: "analysisInput \<Rightarrow> finding list \<Rightarrow> string list \<Rightarrow> bool \<Rightarrow> policyDecision" where
  "failureDecision input suppressed errors toolFailed =
     \<lparr>pdCategory = (if toolFailed then ToolFailure else OutputFailure),
      pdExitCode = (if toolFailed then 30 else 40),
      pdBlocking = [], pdVisible = aiFindings input, pdSuppressed = suppressed, pdErrors = errors\<rparr>"

definition severe :: "finding \<Rightarrow> bool" where
  "severe f \<longleftrightarrow> fgImpact f = High \<or> fgImpact f = Medium"

text \<open>\<open>request.now ?? new Date()\<close>: the clock is read when the request has no time.\<close>

definition evaluatePolicy :: "policyRequest \<Rightarrow> int \<Rightarrow> policyDecision" where
  "evaluatePolicy request clock =
     (let input = prInput request;
          toolFailed = (\<not> aiSuccess input \<or> 0 < length (aiAnalysisErrors input));
          structuralErrors = validateAnalysis request toolFailed;
          result = evaluateSuppressions (aiFindings input) (prSuppressions request)
                     (case prNow request of None \<Rightarrow> clock | Some now \<Rightarrow> now);
          errors = structuralErrors @ spErrors result
            @ (case prTriage request of None \<Rightarrow> [] | Some triage \<Rightarrow> validateFindingTriage (spUnsuppressed result) triage)
      in if 0 < length errors then failureDecision input (spSuppressed result) errors toolFailed
         else let blocking = filter severe (spUnsuppressed result)
              in \<lparr>pdCategory = (if 0 < length blocking then PolicyFailure else Clean),
                  pdExitCode = (if 0 < length blocking then 20 else 0),
                  pdBlocking = blocking, pdVisible = spUnsuppressed result,
                  pdSuppressed = spSuppressed result, pdErrors = []\<rparr>)"

definition evaluateVulnerableFixture :: "finding list \<Rightarrow> string \<Rightarrow> policyDecision" where
  "evaluateVulnerableFixture findings fixtureSourceSha256 =
     (let blocking = filter (\<lambda>f. severe f \<and> fgDetectorId f = ''suicidal''
            \<and> slPath (fgLocation f) = ''contracts/evm/src/Vulnerable.sol''
            \<and> slSourceHash (fgLocation f) = ''sha256:'' @ fixtureSourceSha256) findings
      in if length blocking = 0
         then \<lparr>pdCategory = OutputFailure, pdExitCode = 40, pdBlocking = [], pdVisible = findings, pdSuppressed = [],
               pdErrors = [''vulnerable fixture produced no blocking detector finding'']\<rparr>
         else \<lparr>pdCategory = PolicyFailure, pdExitCode = 20, pdBlocking = blocking, pdVisible = findings,
               pdSuppressed = [], pdErrors = []\<rparr>)"

section \<open>What the policy accepts\<close>

text \<open>The specification: a finding is covered when some suppression is exactly about it.\<close>

definition covered :: "suppression list \<Rightarrow> finding \<Rightarrow> bool" where
  "covered suppressions f \<longleftrightarrow> (\<exists>s\<in>set suppressions. exactSuppressionMatch f s)"

definition openFindings :: "policyRequest \<Rightarrow> finding list" where
  "openFindings r = filter (\<lambda>f. \<not> covered (prSuppressions r) f) (aiFindings (prInput r))"

definition policyTime :: "policyRequest \<Rightarrow> int \<Rightarrow> int" where
  "policyTime r clock = (case prNow r of None \<Rightarrow> clock | Some now \<Rightarrow> now)"

definition analysisAccepted :: "policyRequest \<Rightarrow> bool" where
  "analysisAccepted r \<longleftrightarrow>
     (let input = prInput r; manifest = prManifest r in
        aiSuccess input \<and> aiAnalysisErrors input = []
      \<and> mset (aiAnalyzedContracts input) = mset (gmExpectedContracts manifest)
      \<and> mset (aiAnalyzedSources input) = mset (expectedSources manifest)
      \<and> mset (observedClosure input) = mset (expectedClosure manifest)
      \<and> bytecodeMatches input manifest \<and> toolsMatch input manifest
      \<and> stringify (aiCompiler input) = stringify (gmCompiler manifest)
      \<and> mset (aiDetectorInventory input) = mset (prExpectedDetectors r))"

definition suppressionsAccepted :: "finding list \<Rightarrow> suppression list \<Rightarrow> int \<Rightarrow> bool" where
  "suppressionsAccepted findings suppressions now \<longleftrightarrow>
     distinct (map suFingerprint suppressions)
   \<and> (\<forall>s\<in>set suppressions. hasOwnershipEvidence s \<and> hasExactTuple s \<and> hasValidDates s now
        \<and> (\<exists>f\<in>set findings. exactSuppressionMatch f s))"

definition triageAccepted :: "finding list \<Rightarrow> findingTriage list \<Rightarrow> bool" where
  "triageAccepted visible entries \<longleftrightarrow>
     distinct (map ftFingerprint entries) \<and> list_all triageFormed entries
   \<and> ftFingerprint ` set entries = fgFingerprint ` {f \<in> set visible. lowerImpact f}"

definition policyAccepts :: "policyRequest \<Rightarrow> int \<Rightarrow> bool" where
  "policyAccepts r clock \<longleftrightarrow> analysisAccepted r
     \<and> suppressionsAccepted (aiFindings (prInput r)) (prSuppressions r) (policyTime r clock)
     \<and> (case prTriage r of None \<Rightarrow> True | Some entries \<Rightarrow> triageAccepted (openFindings r) entries)"

definition acceptedDecision :: "policyRequest \<Rightarrow> policyDecision" where
  "acceptedDecision r =
     (let blocking = filter severe (openFindings r)
      in \<lparr>pdCategory = (if blocking = [] then Clean else PolicyFailure), pdExitCode = (if blocking = [] then 0 else 20),
          pdBlocking = blocking, pdVisible = openFindings r,
          pdSuppressed = filter (covered (prSuppressions r)) (aiFindings (prInput r)), pdErrors = []\<rparr>)"

subsection \<open>The loop over the findings\<close>

lemma matching_iff:
  "i \<in> set (matchingSuppressions f suppressions) \<longleftrightarrow> i < length suppressions \<and> exactSuppressionMatch f (suppressions ! i)"
  by (force simp: matchingSuppressions_def in_set_enumerate_eq)

lemma matching_Nil: "matchingSuppressions f suppressions = [] \<longleftrightarrow> \<not> covered suppressions f"
proof -
  have "matchingSuppressions f suppressions = [] \<longleftrightarrow> (\<forall>i. i \<notin> set (matchingSuppressions f suppressions))"
    by (cases "matchingSuppressions f suppressions") auto
  also have "\<dots> \<longleftrightarrow> \<not> covered suppressions f"
    by (simp only: matching_iff covered_def Bex_def in_set_conv_nth[of _ suppressions]) blast
  finally show ?thesis .
qed

lemma matching_distinct: "distinct (matchingSuppressions f suppressions)"
  unfolding matchingSuppressions_def by (rule distinct_map_filter) simp

text \<open>Suppressions with distinct fingerprints never match one finding twice.\<close>

lemma matching_once:
  assumes "distinct (map suFingerprint suppressions)"
  shows "length (matchingSuppressions f suppressions) \<le> 1"
proof -
  have "i = j" if i: "i \<in> set (matchingSuppressions f suppressions)" and j: "j \<in> set (matchingSuppressions f suppressions)" for i j
  proof -
    have "map suFingerprint suppressions ! i = map suFingerprint suppressions ! j"
      using i j by (simp add: matching_iff exactSuppressionMatch_def)
    then show ?thesis using assms i j by (simp add: nth_eq_iff_index_eq matching_iff del: nth_map)
  qed
  then have "card (set (matchingSuppressions f suppressions)) \<le> Suc 0"
    by (simp add: card_le_Suc0_iff_eq)
  then show ?thesis using matching_distinct by (simp add: distinct_card)
qed

lemma suppressStep_once:
  assumes "distinct (map suFingerprint suppressions)"
  shows "suppressStep suppressions st f =
    (if covered suppressions f
     then st\<lparr>spUsed := matchingSuppressions f suppressions @ spUsed st, spSuppressed := spSuppressed st @ [f]\<rparr>
     else st\<lparr>spUnsuppressed := spUnsuppressed st @ [f]\<rparr>)"
proof -
  have "length (matchingSuppressions f suppressions) \<le> 1" by (rule matching_once[OF assms])
  then consider "matchingSuppressions f suppressions = []" | i where "matchingSuppressions f suppressions = [i]"
    by (cases "matchingSuppressions f suppressions" rule: remdups_adj.cases) auto
  then show ?thesis
    by cases (simp_all add: suppressStep_def Let_def matching_Nil[symmetric])
qed

lemma suppressLoop:
  assumes "distinct (map suFingerprint suppressions)"
  shows "foldl (suppressStep suppressions) st findings =
    st\<lparr>spUsed := concat (map (\<lambda>f. matchingSuppressions f suppressions) (rev findings)) @ spUsed st,
       spSuppressed := spSuppressed st @ filter (covered suppressions) findings,
       spUnsuppressed := spUnsuppressed st @ filter (\<lambda>f. \<not> covered suppressions f) findings\<rparr>"
proof (induction findings arbitrary: st)
  case Nil
  then show ?case by simp
next
  case (Cons f findings)
  then show ?case by (auto simp: suppressStep_once[OF assms] matching_Nil)
qed

lemma suppressLoop_errors: "\<exists>es. spErrors (foldl (suppressStep suppressions) st findings) = spErrors st @ es"
proof (induction findings arbitrary: st)
  case Nil
  then show ?case by simp
next
  case (Cons f findings)
  have "\<exists>es. spErrors (suppressStep suppressions st f) = spErrors st @ es"
    by (simp add: suppressStep_def Let_def)
  with Cons.IH[of "suppressStep suppressions st f"] show ?case by auto
qed

subsection \<open>Each group of checks\<close>

lemma evaluateSuppressions_accepted:
  "spErrors (evaluateSuppressions findings suppressions now) = [] \<longleftrightarrow> suppressionsAccepted findings suppressions now"
proof (cases "distinct (map suFingerprint suppressions)")
  case True
  let ?used = "concat (map (\<lambda>f. matchingSuppressions f suppressions) (rev findings))"
  have one: "validateSuppression s i ?used now = [] \<longleftrightarrow>
      hasOwnershipEvidence s \<and> hasExactTuple s \<and> hasValidDates s now \<and> (\<exists>f\<in>set findings. exactSuppressionMatch f s)"
    if "(i, s) \<in> set (enumerate 0 suppressions)" for i s
    using that by (auto simp: validateSuppression_def matching_iff in_set_enumerate_eq)
  have "(\<forall>(i, s)\<in>set (enumerate 0 suppressions). validateSuppression s i ?used now = []) \<longleftrightarrow>
      (\<forall>p\<in>set (enumerate 0 suppressions). hasOwnershipEvidence (snd p) \<and> hasExactTuple (snd p)
         \<and> hasValidDates (snd p) now \<and> (\<exists>f\<in>set findings. exactSuppressionMatch f (snd p)))"
    using one by fastforce
  also have "\<dots> \<longleftrightarrow> (\<forall>s\<in>snd ` set (enumerate 0 suppressions). hasOwnershipEvidence s \<and> hasExactTuple s
         \<and> hasValidDates s now \<and> (\<exists>f\<in>set findings. exactSuppressionMatch f s))"
    by (simp add: ball_simps)
  also have "snd ` set (enumerate 0 suppressions) = set suppressions"
    by (metis list.set_map map_snd_enumerate)
  finally show ?thesis
    using True setSize_eq_length_iff[of "map suFingerprint suppressions"]
    by (simp add: evaluateSuppressions_def Let_def suppressLoop suppressionsAccepted_def split_def)
next
  case False
  then have "setSize (map suFingerprint suppressions) \<noteq> length suppressions"
    using setSize_eq_length_iff[of "map suFingerprint suppressions"] by simp
  moreover have "spErrors (foldl (suppressStep suppressions) st findings) \<noteq> []" if "spErrors st \<noteq> []" for st
    using suppressLoop_errors[of suppressions st findings] that by auto
  ultimately show ?thesis using False
    by (simp add: evaluateSuppressions_def Let_def suppressionsAccepted_def)
qed

lemma evaluateSuppressions_split:
  assumes "distinct (map suFingerprint suppressions)"
  shows "spSuppressed (evaluateSuppressions findings suppressions now) = filter (covered suppressions) findings"
    and "spUnsuppressed (evaluateSuppressions findings suppressions now) = filter (\<lambda>f. \<not> covered suppressions f) findings"
  by (simp_all add: evaluateSuppressions_def Let_def suppressLoop[OF assms])

lemma validateAnalysis_accepted:
  "validateAnalysis r (\<not> aiSuccess (prInput r) \<or> 0 < length (aiAnalysisErrors (prInput r))) = [] \<longleftrightarrow> analysisAccepted r"
  by (auto simp: validateAnalysis_def analysisAccepted_def Let_def sameSet_mset)

lemma concat_if_Nil: "concat (map (\<lambda>x. if P x then [m x] else []) xs) = [] \<longleftrightarrow> (\<forall>x\<in>set xs. \<not> P x)"
  by (induction xs) auto

lemma validateFindingTriage_accepted:
  "validateFindingTriage visible entries = [] \<longleftrightarrow> triageAccepted visible entries"
proof (cases "distinct (map ftFingerprint entries)")
  case True
  have once: "length (filter (\<lambda>e. ftFingerprint e = fp) entries) = 1 \<longleftrightarrow> fp \<in> ftFingerprint ` set entries" for fp
    using True by (induction entries) (auto simp: filter_empty_conv image_iff)
  have "validateFindingTriage visible entries = [] \<longleftrightarrow>
      (\<forall>f\<in>set (filter lowerImpact visible). fgFingerprint f \<in> ftFingerprint ` set entries)
    \<and> (\<forall>e\<in>set entries. (\<exists>f\<in>set (filter lowerImpact visible). fgFingerprint f = ftFingerprint e) \<and> triageFormed e)"
    unfolding once[symmetric] using True setSize_eq_length_iff[of "map ftFingerprint entries"]
    unfolding validateFindingTriage_def Let_def append_is_Nil_conv concat_if_Nil
    by (auto simp: list_ex_iff)
  also have "\<dots> \<longleftrightarrow> list_all triageFormed entries
    \<and> ftFingerprint ` set entries = fgFingerprint ` set (filter lowerImpact visible)"
    unfolding list_all_iff set_eq_subset image_subset_iff by (blast intro: sym)
  finally show ?thesis using True by (simp add: triageAccepted_def)
next
  case False
  then have "setSize (map ftFingerprint entries) \<noteq> length (map ftFingerprint entries)" by (simp only: setSize_eq_length_iff simp_thms)
  with False show ?thesis by (simp add: validateFindingTriage_def Let_def triageAccepted_def)
qed

lemma evaluatePolicy_cases:
  "policyAccepts r clock \<Longrightarrow> evaluatePolicy r clock = acceptedDecision r"
  "\<not> policyAccepts r clock \<Longrightarrow> \<exists>suppressed errors. errors \<noteq> [] \<and>
     evaluatePolicy r clock = failureDecision (prInput r) suppressed errors
       (\<not> aiSuccess (prInput r) \<or> aiAnalysisErrors (prInput r) \<noteq> [])"
proof -
  let ?toolFailed = "\<not> aiSuccess (prInput r) \<or> 0 < length (aiAnalysisErrors (prInput r))"
  let ?result = "evaluateSuppressions (aiFindings (prInput r)) (prSuppressions r) (policyTime r clock)"
  let ?errors = "validateAnalysis r ?toolFailed @ spErrors ?result
    @ (case prTriage r of None \<Rightarrow> [] | Some triage \<Rightarrow> validateFindingTriage (spUnsuppressed ?result) triage)"
  have split: "spUnsuppressed ?result = openFindings r"
      "spSuppressed ?result = filter (covered (prSuppressions r)) (aiFindings (prInput r))"
    if "spErrors ?result = []"
    using that by (simp_all add: evaluateSuppressions_accepted suppressionsAccepted_def evaluateSuppressions_split openFindings_def)
  have accepts: "?errors = [] \<longleftrightarrow> policyAccepts r clock"
    unfolding append_is_Nil_conv validateAnalysis_accepted evaluateSuppressions_accepted policyAccepts_def
    using split(1)[unfolded evaluateSuppressions_accepted]
    by (cases "prTriage r") (auto simp: validateFindingTriage_accepted)
  { assume "policyAccepts r clock"
    then have e: "?errors = []" using accepts by blast
    then show "evaluatePolicy r clock = acceptedDecision r"
      using split by (simp add: evaluatePolicy_def Let_def acceptedDecision_def policyTime_def[symmetric])
  next
    assume "\<not> policyAccepts r clock"
    then have e: "?errors \<noteq> []" using accepts by blast
    then have "evaluatePolicy r clock = failureDecision (prInput r) (spSuppressed ?result) ?errors ?toolFailed"
      unfolding evaluatePolicy_def Let_def policyTime_def[symmetric] by (simp only: length_greater_0_conv if_True simp_thms)
    with e show "\<exists>suppressed errors. errors \<noteq> [] \<and> evaluatePolicy r clock
       = failureDecision (prInput r) suppressed errors (\<not> aiSuccess (prInput r) \<or> aiAnalysisErrors (prInput r) \<noteq> [])"
      by (simp only: length_greater_0_conv) blast
  }
qed

lemma evaluatePolicy_exit:
  "pdExitCode (evaluatePolicy r clock) =
     (if policyAccepts r clock then if \<exists>f\<in>set (openFindings r). severe f then 20 else 0
      else if aiSuccess (prInput r) \<and> aiAnalysisErrors (prInput r) = [] then 40 else 30)"
proof (cases "policyAccepts r clock")
  case True
  then show ?thesis
    by (auto simp: evaluatePolicy_cases(1) acceptedDecision_def Let_def filter_empty_conv)
next
  case False
  with evaluatePolicy_cases(2)[OF False] show ?thesis by (auto simp: failureDecision_def)
qed

section \<open>Properties\<close>

text \<open>
  C24. The policy is clean, with exit code 0, for exactly the analyses that agree with the approved
  manifest, whose suppressions are owned, live, exact, used and name distinct findings, whose lower
  findings are triaged one to one, and whose High and Medium findings are all suppressed; otherwise
  20 when only such a finding is open, 40 for a refused analysis, 30 for a failed tool.
\<close>

theorem evaluatePolicy_exact:
  "pdExitCode (evaluatePolicy r clock) =
     (if policyAccepts r clock then if \<exists>f\<in>set (aiFindings (prInput r)). severe f \<and> \<not> covered (prSuppressions r) f then 20 else 0
      else if aiSuccess (prInput r) \<and> aiAnalysisErrors (prInput r) = [] then 40 else 30)"
  unfolding evaluatePolicy_exit by (auto simp: openFindings_def)

end
