(* ===== verification/SlitherGate.thy ===== *)
theory SlitherGate
  imports SlitherPolicy
begin

text \<open>
  The gate itself (\<open>application/gate.ts\<close>, \<open>coverage.ts\<close>): the repository is clean at the
  candidate commit before and after the analysis, every production source is a target, and the
  policy decides. The ports act on the outside world, a state \<open>'w\<close> that each call may change.
\<close>

section \<open>Coverage of the production sources\<close>

definition assertProductionCoverage :: "string list \<Rightarrow> gateManifest \<Rightarrow> gateErrorCode + unit" where
  "assertProductionCoverage trackedProductionSources manifest =
     (let targetPaths = map gtPath (gmTargets manifest); assigned = sortText targetPaths in
      bindE (failIf
        (length (gmTargets manifest) = 0
         \<or> setSize targetPaths \<noteq> length targetPaths
         \<or> list_ex (\<lambda>t. gtPath t \<notin> set trackedProductionSources
              \<or> \<not> list_ex (\<lambda>source. cePath source = gtPath t) (gmSources manifest)
              \<or> length (gtContract t) = 0) (gmTargets manifest))
        ''TARGET_MANIFEST_INVALID'') (\<lambda>_.
      failIf
        (length assigned \<noteq> length trackedProductionSources
         \<or> list_ex (\<lambda>(i, path). path \<noteq> trackedProductionSources ! i) (enumerate 0 assigned))
        ''PRODUCTION_SOURCE_UNASSIGNED''))"

text \<open>The specification: the tracked sources are the targets, sorted, each a source of the closure.\<close>

definition productionCovered :: "string list \<Rightarrow> gateManifest \<Rightarrow> bool" where
  "productionCovered tracked manifest \<longleftrightarrow>
     gmTargets manifest \<noteq> [] \<and> distinct (map gtPath (gmTargets manifest))
   \<and> tracked = sortText (map gtPath (gmTargets manifest))
   \<and> (\<forall>t\<in>set (gmTargets manifest). gtPath t \<in> cePath ` set (gmSources manifest) \<and> gtContract t \<noteq> [])"

lemma same_entries:
  "length xs = length ys \<and> \<not> list_ex (\<lambda>(i, x). x \<noteq> ys ! i) (enumerate 0 xs) \<longleftrightarrow> xs = ys"
  by (auto simp: list_ex_iff in_set_enumerate_eq list_eq_iff_nth_eq)

lemma coverage_Inr: "assertProductionCoverage tracked manifest = Inr () \<longleftrightarrow> productionCovered tracked manifest"
proof -
  let ?paths = "map gtPath (gmTargets manifest)"
  have "assertProductionCoverage tracked manifest = Inr () \<longleftrightarrow>
      gmTargets manifest \<noteq> [] \<and> setSize ?paths = length ?paths
    \<and> (\<forall>t\<in>set (gmTargets manifest). gtPath t \<in> set tracked \<and> gtPath t \<in> cePath ` set (gmSources manifest)
         \<and> gtContract t \<noteq> [])
    \<and> length (sortText ?paths) = length tracked
    \<and> \<not> list_ex (\<lambda>(i, path). path \<noteq> tracked ! i) (enumerate 0 (sortText ?paths))"
    unfolding assertProductionCoverage_def Let_def bindE_Inr_iff failIf_Inr_iff
    by (simp add: list_ex_iff[of _ "gmTargets manifest"] list_ex_iff[of _ "gmSources manifest"] image_iff
        eq_commute[of "gtPath _" "cePath _"]) blast
  also have "\<dots> \<longleftrightarrow> productionCovered tracked manifest"
    unfolding same_entries setSize_eq_length_iff by (auto simp: productionCovered_def)
  finally show ?thesis .
qed

section \<open>The gate\<close>

type_synonym ('w, 'a) portCall = "'w \<Rightarrow> (gateErrorCode + 'a) \<times> 'w"

definition andThen :: "('w, 'a) portCall \<Rightarrow> ('a \<Rightarrow> ('w, 'b) portCall) \<Rightarrow> ('w, 'b) portCall" where
  "andThen m f w = (case m w of (Inl e, w') \<Rightarrow> (Inl e, w') | (Inr x, w') \<Rightarrow> f x w')"

definition lifted :: "gateErrorCode + 'a \<Rightarrow> ('w, 'a) portCall" where
  "lifted r w = (r, w)"

record 'w repositoryPort =
  rpAssertExactClean :: "string \<Rightarrow> ('w, unit) portCall"
  rpTrackedProductionSources :: "('w, string list) portCall"

record gateAnalysis =
  gaInput :: analysisInput
  gaManifest :: gateManifest
  gaExpectedDetectors :: "string list"
  gaSuppressions :: "suppression list"
  gaTriage :: "findingTriage list"
  gaConfigHash :: string
  gaPolicyHash :: string
  gaTriageHash :: string

record gateExecution =
  geInput :: analysisInput
  geDecision :: policyDecision
  geManifest :: gateManifest
  geTriage :: "findingTriage list"
  geConfigHash :: string
  gePolicyHash :: string
  geTriageHash :: string

definition gateRequest :: "gateAnalysis \<Rightarrow> policyRequest" where
  "gateRequest result = \<lparr>prInput = gaInput result, prManifest = gaManifest result,
     prExpectedDetectors = gaExpectedDetectors result, prSuppressions = gaSuppressions result,
     prTriage = Some (gaTriage result), prNow = None\<rparr>"

definition gateExecutionOf :: "gateAnalysis \<Rightarrow> policyDecision \<Rightarrow> gateExecution" where
  "gateExecutionOf result decision = \<lparr>geInput = gaInput result, geDecision = decision, geManifest = gaManifest result,
     geTriage = gaTriage result, geConfigHash = gaConfigHash result, gePolicyHash = gaPolicyHash result,
     geTriageHash = gaTriageHash result\<rparr>"

text \<open>The second half of \<open>executeGate\<close>, when the analysis has ended.\<close>

definition decideGate :: "string \<Rightarrow> 'w repositoryPort \<Rightarrow> ('w \<Rightarrow> int) \<Rightarrow> string list \<Rightarrow> gateAnalysis \<Rightarrow> ('w, gateExecution) portCall" where
  "decideGate candidateSha repository clock trackedProductionSources result w =
     andThen (lifted (assertProductionCoverage trackedProductionSources (gaManifest result))) (\<lambda>_.
     let decision = evaluatePolicy (gateRequest result) (clock w) in
     andThen (lifted (failIf (pdCategory decision = ToolFailure) ''ANALYZER_RUNTIME_FAILED'')) (\<lambda>_.
     andThen (lifted (failIf (pdCategory decision = OutputFailure) ''POLICY_SHAPE_INVALID'')) (\<lambda>_.
     andThen (rpAssertExactClean repository candidateSha) (\<lambda>_.
     lifted (Inr (gateExecutionOf result decision)))))) w"

definition executeGate :: "string \<Rightarrow> 'w repositoryPort \<Rightarrow> ('w, gateAnalysis) portCall \<Rightarrow> ('w \<Rightarrow> int) \<Rightarrow> ('w, gateExecution) portCall" where
  "executeGate candidateSha repository run clock =
     andThen (rpAssertExactClean repository candidateSha) (\<lambda>_.
     andThen (rpTrackedProductionSources repository) (\<lambda>trackedProductionSources.
     andThen run (\<lambda>result.
     decideGate candidateSha repository clock trackedProductionSources result)))"

section \<open>What the gate lets through\<close>

lemma andThen_Inr:
  "andThen m f w = (Inr y, w'') \<longleftrightarrow> (\<exists>x w'. m w = (Inr x, w') \<and> f x w' = (Inr y, w''))"
  by (auto simp: andThen_def split: prod.splits sum.splits)

lemma lifted_Inr: "lifted r w = (Inr x, w') \<longleftrightarrow> r = Inr x \<and> w' = w"
  by (auto simp: lifted_def)

lemma policy_category:
  "policyAccepts r clock \<Longrightarrow> pdCategory (evaluatePolicy r clock) \<in> {Clean, PolicyFailure}"
  "\<not> policyAccepts r clock \<Longrightarrow> pdCategory (evaluatePolicy r clock) \<in> {ToolFailure, OutputFailure}"
proof -
  show "policyAccepts r clock \<Longrightarrow> pdCategory (evaluatePolicy r clock) \<in> {Clean, PolicyFailure}"
    by (simp add: evaluatePolicy_cases(1) acceptedDecision_def Let_def)
  assume n: "\<not> policyAccepts r clock"
  from evaluatePolicy_cases(2)[OF n] show "pdCategory (evaluatePolicy r clock) \<in> {ToolFailure, OutputFailure}"
    by (auto simp: failureDecision_def)
qed

lemma gate_passes:
  "pdCategory (evaluatePolicy r clock) \<noteq> ToolFailure \<and> pdCategory (evaluatePolicy r clock) \<noteq> OutputFailure
     \<longleftrightarrow> policyAccepts r clock"
  using policy_category[of r clock] by auto

lemma coverage_unit: "assertProductionCoverage tracked manifest = Inr u \<longleftrightarrow> productionCovered tracked manifest"
  by (cases u) (simp add: coverage_Inr)

lemma decideGate_Inr:
  "decideGate sha repository clock tracked result w = (Inr e, w') \<longleftrightarrow>
     productionCovered tracked (gaManifest result) \<and> policyAccepts (gateRequest result) (clock w)
   \<and> rpAssertExactClean repository sha w = (Inr (), w')
   \<and> e = gateExecutionOf result (acceptedDecision (gateRequest result))"
proof (cases "policyAccepts (gateRequest result) (clock w)")
  case True
  then have "pdCategory (acceptedDecision (gateRequest result)) \<noteq> ToolFailure"
      "pdCategory (acceptedDecision (gateRequest result)) \<noteq> OutputFailure"
    using policy_category(1)[OF True] by (auto simp: evaluatePolicy_cases(1)[OF True])
  with True show ?thesis
    unfolding decideGate_def Let_def andThen_Inr lifted_Inr coverage_unit failIf_Inr_iff evaluatePolicy_cases(1)[OF True]
    by auto
next
  case False
  with policy_category(2)[OF False] show ?thesis
    unfolding decideGate_def Let_def andThen_Inr lifted_Inr coverage_unit failIf_Inr_iff by auto
qed

lemma executeGate_Inr:
  "executeGate sha repository run clock w = (Inr e, w') \<longleftrightarrow>
     (\<exists>tracked result w1 w2 w3.
        rpAssertExactClean repository sha w = (Inr (), w1)
      \<and> rpTrackedProductionSources repository w1 = (Inr tracked, w2)
      \<and> run w2 = (Inr result, w3)
      \<and> productionCovered tracked (gaManifest result)
      \<and> policyAccepts (gateRequest result) (clock w3)
      \<and> rpAssertExactClean repository sha w3 = (Inr (), w')
      \<and> e = gateExecutionOf result (acceptedDecision (gateRequest result)))"
  unfolding executeGate_def andThen_Inr decideGate_Inr by auto

section \<open>Properties\<close>

text \<open>
  C26. The gate returns for exactly one course of events: the repository is clean at the candidate
  commit, its tracked production sources are the manifest's targets, the analysis ends and the
  policy accepts it, and the repository is still clean at the same commit; the result is the
  decision of the policy on that analysis.
\<close>

theorem executeGate_exact:
  "executeGate sha repository run clock w = (Inr e, w') \<longleftrightarrow>
     (\<exists>tracked result w1 w2 w3.
        rpAssertExactClean repository sha w = (Inr (), w1)
      \<and> rpTrackedProductionSources repository w1 = (Inr tracked, w2)
      \<and> run w2 = (Inr result, w3)
      \<and> productionCovered tracked (gaManifest result)
      \<and> policyAccepts (gateRequest result) (clock w3)
      \<and> rpAssertExactClean repository sha w3 = (Inr (), w')
      \<and> e = gateExecutionOf result (acceptedDecision (gateRequest result)))"
  by (rule executeGate_Inr)

end
