(* ===== verification/DeploymentModel.thy ===== *)
theory DeploymentModel
  imports GrantSchedule Base64 RawArtifact
begin

text \<open>
  The data of a deployment configuration
  (\<open>genesis-manifest/domain/deployment.ts\<close>): its typed view, the address and digest tests, and
  the checkers (\<open>deploymentChecks\<close>) that the validators of its parts share. A checker returns the
  diagnostics it reports, in order, and its value.
\<close>

section \<open>Addresses and digests\<close>

definition isEvmAddress :: "jsval \<Rightarrow> bool" where
  "isEvmAddress v \<longleftrightarrow> (case v of JStr s \<Rightarrow> matchesHex 40 s \<and> s \<noteq> zeroHex 40 | _ \<Rightarrow> False)"

definition isDigest :: "jsval \<Rightarrow> bool" where
  "isDigest v \<longleftrightarrow> (case v of JStr s \<Rightarrow> matchesHex 64 s | _ \<Rightarrow> False)"

text \<open>\<open>while (decoded > 0n) { bytes++; decoded >>= 8n; }\<close>\<close>

fun byteCount :: "nat \<Rightarrow> nat" where
  "byteCount n = (if n = 0 then 0 else Suc (byteCount (n div 256)))"

declare byteCount.simps [simp del]

definition isSolanaAddress :: "jsval \<Rightarrow> bool" where
  "isSolanaAddress v \<longleftrightarrow> (case v of
     JStr s \<Rightarrow>
       if length s < 32 \<or> length s > 44 then False
       else (case base58Value s 0 of
               None \<Rightarrow> False
             | Some decoded \<Rightarrow> byteCount decoded + length (takeWhile (\<lambda>c. c = CHR ''1'') s) = 32)
   | _ \<Rightarrow> False)"

lemma byteCount_bigEndian: "byteCount n = length (bigEndian n)"
proof (induction n rule: byteCount.induct)
  case (1 n)
  then show ?case by (simp add: byteCount.simps[of n] bigEndian.simps[of n])
qed

section \<open>The typed view of a configuration\<close>

record deploymentSafe =
  dsId :: string
  dsAddress :: string
  dsOwners :: "string list"
  dsBeneficialControl :: string
  dsDisclosure :: string

record deploymentGrant =
  dgId :: string
  dgKind :: string
  dgBeneficiary :: string
  dgFundingAllocation :: string
  dgControllerSafe :: string
  dgAmount :: string
  dgOriginalPurpose :: string
  dgSchedule :: grantSchedule

record deploymentPolicy =
  dpExpenditureCeiling :: string
  dpEvmMaxFeePerGasWei :: string
  dpEvmMaxPriorityFeePerGasWei :: string
  dpEvmMaxGasPerTransaction :: string
  dpEvmMaxTotalFeeWei :: string
  dpSolanaMaxFeeLamports :: string
  dpSolanaMaxTotalFeeLamports :: string
  dpObservationMaxAgeSeconds :: string
  dpExecutionDeadline :: string
  dpFundingDeadline :: string
  dpFundingLeadSeconds :: string
  dpEstimateValiditySeconds :: string
  dpGasBufferBps :: jsval

record testTransfer =
  ttId :: string
  ttDirection :: string
  ttAmount :: string
  ttEvmRecipient :: string
  ttSolanaRecipient :: string

record roleAlias =
  raAddress :: string
  raRoles :: "string list"

record deploymentEnvironment =
  deMode :: string
  deEvmChainId :: string
  deSolanaGenesisHash :: string
  deEvmSelector :: string
  deSolanaSelector :: string

text \<open>The token's name, symbol and decimals and the scenario's label are constants once validated.\<close>

record deploymentConfig =
  dcDeploymentId :: string
  dcStatus :: string
  dcEnvironment :: deploymentEnvironment
  dcInitialSupply :: string
  dcInitialCCIPAdmin :: string
  dcAllocations :: "sourceAllocation list"
  dcGrants :: "deploymentGrant list"
  dcCustodySafes :: "deploymentSafe list"
  dcRoleAliases :: "roleAlias list"
  dcBridge :: jsval
  dcTestScenario :: "testTransfer list option"
  dcPolicy :: deploymentPolicy

text \<open>\<open>value as DeploymentConfig\<close>: the cast of a value whose shape the checks have found.\<close>

definition strP :: "jsrecord \<Rightarrow> string \<Rightarrow> string" where
  "strP r k = theStr (getP r k)"

definition objP :: "jsrecord \<Rightarrow> string \<Rightarrow> jsrecord" where
  "objP r k = theObj (getP r k)"

definition listP :: "jsrecord \<Rightarrow> string \<Rightarrow> jsrecord list" where
  "listP r k = map theObj (theArr (getP r k))"

definition scheduleOf :: "jsrecord \<Rightarrow> grantSchedule" where
  "scheduleOf r = \<lparr>gsProfile = strP r ''profile'', gsStart = strP r ''start'', gsCliff = strP r ''cliff'',
     gsEnd = strP r ''end'', gsRule = (if getP r ''anniversaryRule'' = JUndef then None else Some (strP r ''anniversaryRule''))\<rparr>"

definition allocationOf :: "jsrecord \<Rightarrow> sourceAllocation" where
  "allocationOf r = \<lparr>srcId = strP r ''id'', srcRecipient = strP r ''recipient'', srcAmount = strP r ''amountBaseUnits'',
     srcBps = getP r ''bps''\<rparr>"

definition grantOf :: "jsrecord \<Rightarrow> deploymentGrant" where
  "grantOf r = \<lparr>dgId = strP r ''id'', dgKind = strP r ''kind'', dgBeneficiary = strP r ''beneficiary'',
     dgFundingAllocation = strP r ''fundingAllocation'', dgControllerSafe = strP r ''controllerSafe'',
     dgAmount = strP r ''amountBaseUnits'', dgOriginalPurpose = strP r ''originalPurpose'',
     dgSchedule = scheduleOf (objP r ''schedule'')\<rparr>"

definition safeOf :: "jsrecord \<Rightarrow> deploymentSafe" where
  "safeOf r = \<lparr>dsId = strP r ''id'', dsAddress = strP r ''address'', dsOwners = map theStr (theArr (getP r ''owners'')),
     dsBeneficialControl = strP r ''beneficialControl'', dsDisclosure = strP r ''disclosure''\<rparr>"

definition aliasOf :: "jsrecord \<Rightarrow> roleAlias" where
  "aliasOf r = \<lparr>raAddress = strP r ''address'', raRoles = map theStr (theArr (getP r ''roles''))\<rparr>"

definition transferOf :: "jsrecord \<Rightarrow> testTransfer" where
  "transferOf r = \<lparr>ttId = strP r ''id'', ttDirection = strP r ''direction'', ttAmount = strP r ''amountBaseUnits'',
     ttEvmRecipient = strP r ''evmRecipient'', ttSolanaRecipient = strP r ''solanaRecipient''\<rparr>"

definition policyOf :: "jsrecord \<Rightarrow> deploymentPolicy" where
  "policyOf r = \<lparr>dpExpenditureCeiling = strP r ''tokenExpenditureCeilingBaseUnits'',
     dpEvmMaxFeePerGasWei = strP r ''evmMaxFeePerGasWei'', dpEvmMaxPriorityFeePerGasWei = strP r ''evmMaxPriorityFeePerGasWei'',
     dpEvmMaxGasPerTransaction = strP r ''evmMaxGasPerTransaction'', dpEvmMaxTotalFeeWei = strP r ''evmMaxTotalFeeWei'',
     dpSolanaMaxFeeLamports = strP r ''solanaMaxFeeLamports'', dpSolanaMaxTotalFeeLamports = strP r ''solanaMaxTotalFeeLamports'',
     dpObservationMaxAgeSeconds = strP r ''observationMaxAgeSeconds'', dpExecutionDeadline = strP r ''executionDeadline'',
     dpFundingDeadline = strP r ''fundingDeadline'', dpFundingLeadSeconds = strP r ''fundingLeadSeconds'',
     dpEstimateValiditySeconds = strP r ''estimateValiditySeconds'', dpGasBufferBps = getP r ''gasBufferBps''\<rparr>"

definition environmentOf :: "jsrecord \<Rightarrow> deploymentEnvironment" where
  "environmentOf r = \<lparr>deMode = strP r ''mode'', deEvmChainId = strP r ''evmChainId'',
     deSolanaGenesisHash = strP r ''solanaGenesisHash'', deEvmSelector = strP r ''evmSelector'',
     deSolanaSelector = strP r ''solanaSelector''\<rparr>"

definition configOf :: "jsrecord \<Rightarrow> deploymentConfig" where
  "configOf r = \<lparr>dcDeploymentId = strP r ''deploymentId'', dcStatus = strP r ''status'',
     dcEnvironment = environmentOf (objP r ''environment''),
     dcInitialSupply = strP (objP r ''token'') ''initialSupplyBaseUnits'',
     dcInitialCCIPAdmin = strP (objP r ''token'') ''initialCCIPAdmin'',
     dcAllocations = map allocationOf (listP r ''allocations''), dcGrants = map grantOf (listP r ''grants''),
     dcCustodySafes = map safeOf (listP r ''custodySafes''), dcRoleAliases = map aliasOf (listP r ''roleAliases''),
     dcBridge = getP r ''bridge'',
     dcTestScenario = (if getP r ''testScenario'' = JNull then None
        else Some (map transferOf (listP (objP r ''testScenario'') ''transfers''))),
     dcPolicy = policyOf (objP r ''policy'')\<rparr>"

section \<open>The checkers\<close>

definition failD :: "string \<Rightarrow> string \<Rightarrow> diagnostic list" where
  "failD c ptr = [diagError (''DEPLOYMENT_'' @ c) ptr ''invalid or unresolved deployment input'']"

definition failWhen :: "bool \<Rightarrow> string \<Rightarrow> string \<Rightarrow> diagnostic list" where
  "failWhen b c ptr = (if b then failD c ptr else [])"

definition objectD :: "jsval \<Rightarrow> string \<Rightarrow> string list \<Rightarrow> string list \<Rightarrow> diagnostic list \<times> jsrecord" where
  "objectD input ptr keys optional = (case asRecord input of
     None \<Rightarrow> (failD ''OBJECT_REQUIRED'' ptr, [])
   | Some r \<Rightarrow>
       (failWhen (list_ex (\<lambda>k. k \<notin> set keys) (map fst r)) ''UNKNOWN_FIELD'' ptr
        @ concat (map (\<lambda>key. failWhen (\<not> hasKey r key \<and> key \<notin> set optional) ''REQUIRED'' (ptr @ ''/'' @ key)) keys), r))"

definition arrayD :: "jsval \<Rightarrow> string \<Rightarrow> nat \<Rightarrow> nat \<Rightarrow> diagnostic list \<times> jsval list" where
  "arrayD input ptr mx mn = (case input of
     JArr _ xs \<Rightarrow> if length xs < mn \<or> length xs > mx then (failD ''COLLECTION_BOUND'' ptr, []) else ([], xs)
   | _ \<Rightarrow> (failD ''COLLECTION_BOUND'' ptr, []))"

definition uintD :: "jsval \<Rightarrow> string \<Rightarrow> int \<Rightarrow> bool \<Rightarrow> diagnostic list \<times> int option" where
  "uintD input ptr mx positive =
     (let n = (case input of JStr s \<Rightarrow> if length s \<le> 78 then parseCanonicalUint input mx else None | _ \<Rightarrow> None)
      in (failWhen (n = None \<or> positive \<and> n = Some 0) ''UINT_INVALID'' ptr, n))"

definition oneOfD :: "jsval \<Rightarrow> string \<Rightarrow> jsval list \<Rightarrow> diagnostic list" where
  "oneOfD input ptr options = failWhen (input \<notin> set options) ''VALUE_INVALID'' ptr"

definition evmD :: "jsval \<Rightarrow> string \<Rightarrow> bool \<Rightarrow> diagnostic list" where
  "evmD input ptr nullable = (if nullable \<and> input = JNull then [] else failWhen (\<not> isEvmAddress input) ''ADDRESS_INVALID'' ptr)"

definition solanaD :: "jsval \<Rightarrow> string \<Rightarrow> bool \<Rightarrow> diagnostic list" where
  "solanaD input ptr nullable = (if nullable \<and> input = JNull then [] else failWhen (\<not> isSolanaAddress input) ''ADDRESS_INVALID'' ptr)"

definition idD :: "jsval \<Rightarrow> string \<Rightarrow> diagnostic list" where
  "idD input ptr = failWhen (encodeAllocationId input = None) ''ID_INVALID'' ptr"

lemma failD_not_Nil [simp]: "failD c ptr \<noteq> []"
  by (simp add: failD_def)

lemma failWhen_Nil [simp]: "failWhen b c ptr = [] \<longleftrightarrow> \<not> b"
  by (simp add: failWhen_def)

lemma uint_text: "(case input of JStr s \<Rightarrow> if length s \<le> 78 then parseCanonicalUint input mx else None | _ \<Rightarrow> None)
    = parseCanonicalUint input mx"
  by (cases input) (auto simp: parseCanonicalUint.simps)

lemma uintD_clean:
  "fst (uintD input ptr mx positive) = [] \<longleftrightarrow> (\<exists>n. parseCanonicalUint input mx = Some n \<and> (positive \<longrightarrow> n \<noteq> 0))"
  "snd (uintD input ptr mx positive) = parseCanonicalUint input mx"
  by (auto simp: uintD_def Let_def uint_text)

lemma objectD_value: "asRecord input = Some r \<Longrightarrow> snd (objectD input ptr keys optional) = r"
  by (auto simp: objectD_def)

lemma objectD_clean:
  "fst (objectD input ptr keys optional) = [] \<longleftrightarrow>
     (\<exists>s r. input = JObj s r \<and> set (map fst r) \<subseteq> set keys \<and> (\<forall>k\<in>set keys. k \<notin> set optional \<longrightarrow> hasKey r k))"
  by (cases input) (auto simp: objectD_def list_ex_iff)

lemma arrayD_clean:
  "fst (arrayD input ptr mx mn) = [] \<longleftrightarrow> (\<exists>s xs. input = JArr s xs \<and> mn \<le> length xs \<and> length xs \<le> mx)"
  "fst (arrayD input ptr mx mn) = [] \<Longrightarrow> snd (arrayD input ptr mx mn) = theArr input"
  by (cases input; auto simp: arrayD_def split: if_splits)+

end
