(* ===== verification/CustodyIntent.thy ===== *)
theory CustodyIntent
  imports DeploymentModel Quantity
begin

text \<open>
  \<open>testnet-ccip/src/domain/custody-intent.ts\<close>: the check of a custody intent, a parsed JSON value,
  down to the calldata of the Safe transaction it wraps, and its canonical text. Every refusal of
  the file is the one error \<open>CUSTODY_INTENT_INVALID\<close>.
\<close>

section \<open>Texts and words\<close>

definition invalidIntent :: js_error where
  "invalidIntent = Err ''CUSTODY_INTENT_INVALID''"

definition exactKeys :: "jsrecord \<Rightarrow> string \<Rightarrow> bool" where
  "exactKeys r keys \<longleftrightarrow> joinComma (sortText (map fst r)) = joinComma (sortText (splitOn (CHR '','') keys))"

text \<open>\<open>/^0x(?:[0-9a-f]{2})+$/\<close>\<close>

definition isBytesText :: "string \<Rightarrow> bool" where
  "isBytesText s \<longleftrightarrow> take 2 s = ''0x'' \<and> 4 \<le> length s \<and> even (length s) \<and> list_all isHexLower (drop 2 s)"

definition isBytes :: "jsval \<Rightarrow> bool" where
  "isBytes v \<longleftrightarrow> (case v of JStr s \<Rightarrow> isBytesText s | _ \<Rightarrow> False)"

definition uintWord :: "string \<Rightarrow> string" where
  "uintWord v = padStart 64 (toHex (undec v))"

definition addressWord :: "string \<Rightarrow> string" where
  "addressWord v = padStart 64 (drop 2 v)"

text \<open>
  \<open>String(value)\<close>: what the \<open>test\<close> of a pattern reads. The operation id is the one field that only
  a pattern checks, so a value that is not a string is read as its text.
\<close>

function jsText :: "jsval \<Rightarrow> string" where
  "jsText (JStr s) = s"
| "jsText JNull = ''null''"
| "jsText JUndef = ''undefined''"
| "jsText (JBool b) = (if b then ''true'' else ''false'')"
| "jsText (JNum n) = decInt n"
| "jsText (JFrac t) = t"
| "jsText (JArr sh xs) = joinComma (map (\<lambda>x. if x = JNull \<or> x = JUndef then [] else jsText x) xs)"
| "jsText (JObj sh r) = ''[object Object]''"
| "jsText JOther = ''[other]''"
  by pat_completeness auto
termination
  by (relation "measure size") (auto dest: size_elem_less)

definition isOperationId :: "string \<Rightarrow> bool" where
  "isOperationId s \<longleftrightarrow> 1 \<le> length s \<and> length s \<le> 96 \<and> isLower (hd s)
     \<and> list_all (\<lambda>c. isLower c \<or> isDigit c \<or> c = CHR ''-'') (tl s)"

definition CUSTODY_OPERATIONS :: "string list" where
  "CUSTODY_OPERATIONS = [''deploy-token'', ''deploy-grant'', ''approve'', ''fund'', ''release'', ''cancel-team'', ''claim-debt'',
     ''reject-founder-cancel'']"

section \<open>The parts of an intent\<close>

definition validateConstructorBinding :: "jsrecord \<Rightarrow> jsrecord \<Rightarrow> js_error + unit" where
  "validateConstructorBinding intent d =
     (if getP d ''contract'' = JStr ''AGTMAICCIPToken'' then
        failIf (\<not> exactKeys d ''contract,artifactSha256,creationBytecode,constructorBytes,administrator''
          \<or> getP intent ''operation'' \<noteq> JStr ''deploy-token'' \<or> \<not> isEvmAddress (getP d ''administrator'')
          \<or> take 64 (drop 130 (strP d ''constructorBytes'')) \<noteq> addressWord (strP d ''administrator'')) invalidIntent
      else if getP d ''contract'' = JStr ''GrantVault'' then
        failIf (\<not> exactKeys d ''contract,artifactSha256,creationBytecode,constructorBytes,token,beneficiary,reserve,controller''
          \<or> getP intent ''operation'' \<noteq> JStr ''deploy-grant''
          \<or> \<not> list_all (\<lambda>k. isEvmAddress (getP d k)) [''token'', ''beneficiary'', ''reserve'', ''controller'']
          \<or> length (strP d ''constructorBytes'') \<noteq> 2 + 10 * 64
          \<or> take 256 (drop 2 (strP d ''constructorBytes''))
              \<noteq> concat (map (\<lambda>k. addressWord (strP d k)) [''token'', ''beneficiary'', ''reserve'', ''controller''])) invalidIntent
      else Inl invalidIntent)"

definition validateIntentDeployment :: "jsrecord \<Rightarrow> js_error + unit" where
  "validateIntentDeployment intent =
     (let d = objP intent ''deployment'' in
      if getP intent ''kind'' = JStr ''call'' then
        failIf (\<not> isEvmAddress (getP intent ''to'') \<or> getP intent ''deployment'' \<noteq> JNull \<or> length (strP intent ''data'') < 10
          \<or> take 7 (strP intent ''operation'') = ''deploy-'') invalidIntent
      else
        bindE (failIf (getP intent ''kind'' \<noteq> JStr ''deploy'' \<or> getP intent ''to'' \<noteq> JNull \<or> getP intent ''deployment'' = JNull
          \<or> \<not> isDigest (getP d ''artifactSha256'') \<or> \<not> isBytes (getP d ''creationBytecode'') \<or> \<not> isBytes (getP d ''constructorBytes'')
          \<or> strP intent ''data'' \<noteq> strP d ''creationBytecode'' @ drop 2 (strP d ''constructorBytes'')
          \<or> getP intent ''callerRole'' \<noteq> JStr ''deployer'') invalidIntent) (\<lambda>_.
        validateConstructorBinding intent d))"

definition ZERO_ADDRESS :: string where "ZERO_ADDRESS = ''0x'' @ replicate 40 (CHR ''0'')"

definition validateSafeShape :: "jsrecord \<Rightarrow> js_error + unit" where
  "validateSafeShape safe =
     failIf (getP safe ''operation'' \<noteq> JStr ''CALL'' \<or> getP safe ''value'' \<noteq> JStr ''0'' \<or> getP safe ''data'' \<noteq> JStr ''0xea8a1af0''
       \<or> parseCanonicalUint (getP safe ''safeTxGas'') UINT64_MAX = None \<or> getP safe ''baseGas'' \<noteq> JStr ''0''
       \<or> getP safe ''gasPrice'' \<noteq> JStr ''0'' \<or> getP safe ''gasToken'' \<noteq> JStr ZERO_ADDRESS
       \<or> getP safe ''refundReceiver'' \<noteq> JStr ZERO_ADDRESS) invalidIntent"

text \<open>\<open>text.match(/.{64}/g)\<close>\<close>

fun chunks64 :: "string \<Rightarrow> string list" where
  "chunks64 s = (if length s < 64 then [] else take 64 s # chunks64 (drop 64 s))"

declare chunks64.simps [simp del]

definition padEnd :: "nat \<Rightarrow> string \<Rightarrow> string" where
  "padEnd n s = s @ replicate (n - length s) (CHR ''0'')"

text \<open>\<open>/^(?:[0-9a-f]{128}(?:1b|1c)){2}0{60}$/\<close>\<close>

definition isSignature :: "string \<Rightarrow> bool" where
  "isSignature s \<longleftrightarrow> length s = 130 \<and> list_all isHexLower (take 128 s) \<and> drop 128 s \<in> {''1b'', ''1c''}"

definition isSignatures :: "string \<Rightarrow> bool" where
  "isSignatures s \<longleftrightarrow> length s = 320 \<and> isSignature (take 130 s) \<and> isSignature (take 130 (drop 130 s))
     \<and> drop 260 s = replicate 60 (CHR ''0'')"

definition safeWords :: "jsrecord \<Rightarrow> string list" where
  "safeWords safe =
     [addressWord (strP safe ''to''), uintWord (strP safe ''value''), uintWord ''320'', uintWord ''0'',
      uintWord (strP safe ''safeTxGas''), uintWord (strP safe ''baseGas''), uintWord (strP safe ''gasPrice''),
      addressWord (strP safe ''gasToken''), addressWord (strP safe ''refundReceiver''), uintWord ''384'', uintWord ''4'',
      padEnd 64 (drop 2 (strP safe ''data'')), uintWord ''130'']"

definition validateSafeCalldata :: "jsrecord \<Rightarrow> string \<Rightarrow> js_error + unit" where
  "validateSafeCalldata safe calldata =
     bindE (failIf (take 10 calldata \<noteq> ''0x6a761202'' \<or> length calldata \<noteq> 10 + 18 * 64) invalidIntent) (\<lambda>_.
     let words = chunks64 (drop 10 calldata) in
     bindE (failIf (list_ex (\<lambda>(i, v). words ! i \<noteq> v) (enumerate 0 (safeWords safe))) invalidIntent) (\<lambda>_.
     failIf (\<not> isSignatures (concat (drop 13 words))) invalidIntent))"

definition validateSafe :: "jsrecord \<Rightarrow> js_error + unit" where
  "validateSafe intent =
     (let safe = objP intent ''safe''; op = getP intent ''operation'';
          cancels = map JStr [''cancel-team'', ''reject-founder-cancel''] in
      if getP intent ''safe'' = JNull then
        failIf (op \<in> set cancels \<or> getP intent ''callerRole'' = JStr ''safe-executor'') invalidIntent
      else
        bindE (validateSafeShape safe) (\<lambda>_.
        bindE (failIf (\<not> exactKeys safe ''address,nonce,transactionHash,to,value,data,operation,safeTxGas,baseGas,gasPrice,gasToken,refundReceiver''
            \<or> getP intent ''kind'' \<noteq> JStr ''call'' \<or> getP intent ''callerRole'' \<noteq> JStr ''safe-executor'' \<or> op \<notin> set cancels
            \<or> getP safe ''address'' \<noteq> getP intent ''to'' \<or> \<not> isEvmAddress (getP safe ''to'') \<or> \<not> isDigest (getP safe ''transactionHash'')
            \<or> parseCanonicalUint (getP safe ''nonce'') UINT256_MAX = None) invalidIntent) (\<lambda>_.
        bindE (failIf (undec (strP safe ''safeTxGas'') > undec (strP intent ''gasLimit'')
            \<or> op = JStr ''reject-founder-cancel'' \<and> getP safe ''safeTxGas'' = JStr ''0'') invalidIntent) (\<lambda>_.
        validateSafeCalldata safe (strP intent ''data'')))))"

definition validateFees :: "jsrecord \<Rightarrow> js_error + unit" where
  "validateFees intent =
     bindE (eachE (\<lambda>k. failIf (parseCanonicalUint (getP intent k) UINT256_MAX = None) invalidIntent)
       [''gasLimit'', ''maxFeePerGasWei'', ''maxPriorityFeePerGasWei'']) (\<lambda>_.
     failIf (undec (strP intent ''gasLimit'') = 0 \<or> undec (strP intent ''maxFeePerGasWei'') = 0
       \<or> undec (strP intent ''maxPriorityFeePerGasWei'') > undec (strP intent ''maxFeePerGasWei'')) invalidIntent)"

section \<open>The intent\<close>

definition INTENT_KEYS :: string where
  "INTENT_KEYS = ''schema,configurationSha256,operationId,operation,environment,chainId,kind,from,to,nonce,value,data,callerRole,prerequisiteSha256,gasLimit,maxFeePerGasWei,maxPriorityFeePerGasWei,deployment,safe''"

definition canonicalCustodyIntent :: "jsval \<Rightarrow> js_error + string" where
  "canonicalCustodyIntent v =
     (let intent = theObj v in
      bindE (failIf (\<not> exactKeys intent INTENT_KEYS
          \<or> getP intent ''schema'' \<noteq> JStr ''agtmai-custody-intent-v2'' \<or> \<not> isDigest (getP intent ''configurationSha256'')
          \<or> \<not> isDigest (getP intent ''prerequisiteSha256'') \<or> \<not> isOperationId (jsText (getP intent ''operationId''))
          \<or> \<not> isEvmAddress (getP intent ''from'') \<or> getP intent ''value'' \<noteq> JStr ''0'' \<or> \<not> isBytes (getP intent ''data'')) invalidIntent) (\<lambda>_.
      bindE (failIf (getP intent ''operation'' \<notin> set (map JStr CUSTODY_OPERATIONS)
          \<or> getP intent ''callerRole'' \<notin> set (map JStr [''deployer'', ''reserve'', ''beneficiary'', ''safe-executor''])
          \<or> getP intent ''environment'' \<notin> set (map JStr [''local-test'', ''owned-testnet''])
          \<or> getP intent ''chainId'' \<noteq> JStr (if getP intent ''environment'' = JStr ''local-test'' then ''31337'' else ''11155111'')
          \<or> parseCanonicalUint (getP intent ''nonce'') (UINT64_MAX - 1) = None) invalidIntent) (\<lambda>_.
      bindE (validateFees intent) (\<lambda>_.
      bindE (validateIntentDeployment intent) (\<lambda>_.
      bindE (validateSafe intent) (\<lambda>_.
      canonicalJson v))))))"

text \<open>\<open>JSON.parse\<close> of the canonical text of a value gives the value with its keys in their order.\<close>

definition validateCustodyIntent :: "jsval \<Rightarrow> jsval \<Rightarrow> js_error + jsval" where
  "validateCustodyIntent input expected =
     bindE (canonicalCustodyIntent input) (\<lambda>canonical.
     bindE (canonicalCustodyIntent expected) (\<lambda>text.
     bindE (failIf (canonical \<noteq> text) invalidIntent) (\<lambda>_.
     Inr (sortKeys input))))"

section \<open>The calldata of the Safe call\<close>

lemma chunks64_append: "length w = 64 \<Longrightarrow> chunks64 (w @ r) = w # chunks64 r"
  by (subst chunks64.simps) simp

lemma chunks64_concat: "list_all (\<lambda>w. length w = 64) ws \<Longrightarrow> chunks64 (concat ws @ r) = ws @ chunks64 r"
  by (induction ws) (simp_all add: chunks64_append)

lemma chunks64_exact:
  "length s = n * 64 \<Longrightarrow> length (chunks64 s) = n \<and> concat (chunks64 s) = s \<and> list_all (\<lambda>w. length w = 64) (chunks64 s)"
proof (induction n arbitrary: s)
  case 0
  then show ?case by (simp add: chunks64.simps[of "[]"])
next
  case (Suc n)
  then have c: "chunks64 s = take 64 s # chunks64 (drop 64 s)" and "length (drop 64 s) = n * 64"
    by (simp_all add: chunks64.simps[of s])
  with Suc.IH[of "drop 64 s"] Suc.prems show ?case unfolding c by simp
qed

lemma prefix_entries:
  assumes "length ws \<le> length xs"
  shows "\<not> list_ex (\<lambda>(i, v). xs ! i \<noteq> v) (enumerate 0 ws) \<longleftrightarrow> take (length ws) xs = ws"
proof -
  have "\<not> list_ex (\<lambda>(i, v). xs ! i \<noteq> v) (enumerate 0 ws) \<longleftrightarrow> (\<forall>n < length ws. xs ! n = ws ! n)"
    by (simp add: list_ex_iff Ball_def[symmetric] flip: list.pred_set)
      (simp add: all_set_conv_all_nth nth_enumerate_eq)
  then show ?thesis using assms by (auto simp: list_eq_iff_nth_eq)
qed

lemma signatures_split:
  "isSignatures s \<longleftrightarrow> (\<exists>a b. isSignature a \<and> isSignature b \<and> s = a @ b @ replicate 60 (CHR ''0''))"
proof
  assume s: "isSignatures s"
  have "s = take 130 s @ take 130 (drop 130 s) @ drop 260 s"
    by (metis append_take_drop_id drop_drop add_numeral_left numeral_Bit0 numeral_plus_numeral semiring_norm(2,4,6,7))
  with s show "\<exists>a b. isSignature a \<and> isSignature b \<and> s = a @ b @ replicate 60 (CHR ''0'')"
    unfolding isSignatures_def by metis
next
  assume "\<exists>a b. isSignature a \<and> isSignature b \<and> s = a @ b @ replicate 60 (CHR ''0'')"
  then obtain a b where "isSignature a" "isSignature b" "s = a @ b @ replicate 60 (CHR ''0'')" by blast
  moreover from this have "length a = 130" "length b = 130" by (simp_all add: isSignature_def)
  ultimately show "isSignatures s" by (simp add: isSignatures_def)
qed

lemma length_safeWords [simp]: "length (safeWords safe) = 13"
  by (simp add: safeWords_def)

lemma safe_calldata:
  "validateSafeCalldata safe calldata = Inr () \<longleftrightarrow>
     list_all (\<lambda>w. length w = 64) (safeWords safe)
   \<and> (\<exists>a b. isSignature a \<and> isSignature b
        \<and> calldata = ''0x6a761202'' @ concat (safeWords safe) @ a @ b @ replicate 60 (CHR ''0''))" (is "?L \<longleftrightarrow> ?W \<and> ?R")
proof
  assume ?L
  then have p: "take 10 calldata = ''0x6a761202''" and l: "length calldata = 10 + 18 * 64"
    and w: "\<not> list_ex (\<lambda>(i, v). chunks64 (drop 10 calldata) ! i \<noteq> v) (enumerate 0 (safeWords safe))"
    and s: "isSignatures (concat (drop 13 (chunks64 (drop 10 calldata))))"
    by (simp_all add: validateSafeCalldata_def Let_def bindE_Inr_iff)
  let ?c = "chunks64 (drop 10 calldata)"
  from chunks64_exact[of "drop 10 calldata" 18] l have c: "length ?c = 18" "concat ?c = drop 10 calldata" "list_all (\<lambda>w. length w = 64) ?c"
    by simp_all
  from w c(1) have t: "take 13 ?c = safeWords safe" using prefix_entries[of "safeWords safe" ?c] by simp
  have "?W" using c(3) unfolding t[symmetric] by (auto simp: list_all_iff dest: in_set_takeD)
  moreover obtain a b where ab: "isSignature a" "isSignature b" "concat (drop 13 ?c) = a @ b @ replicate 60 (CHR ''0'')"
    using s signatures_split by blast
  have "calldata = take 10 calldata @ concat (take 13 ?c @ drop 13 ?c)" using c(2) by simp
  then have "calldata = ''0x6a761202'' @ concat (safeWords safe) @ a @ b @ replicate 60 (CHR ''0'')"
    unfolding concat_append t p ab(3) .
  ultimately show "?W \<and> ?R" using ab by blast
next
  assume "?W \<and> ?R"
  then obtain a b where W: ?W and ab: "isSignature a" "isSignature b"
      and d: "calldata = ''0x6a761202'' @ concat (safeWords safe) @ a @ b @ replicate 60 (CHR ''0'')" by blast
  let ?s = "a @ b @ replicate 60 (CHR ''0'')"
  have ls: "length ?s = 5 * 64" using ab by (simp add: isSignature_def)
  have lw: "length (concat (safeWords safe)) = 13 * 64"
    using W by (simp add: safeWords_def)
  have c: "chunks64 (drop 10 calldata) = safeWords safe @ chunks64 ?s"
    unfolding d using chunks64_concat[OF W, of ?s] by simp
  have "\<not> list_ex (\<lambda>(i, v). chunks64 (drop 10 calldata) ! i \<noteq> v) (enumerate 0 (safeWords safe))"
    unfolding c by (subst prefix_entries) simp_all
  moreover have "isSignatures (concat (drop 13 (chunks64 (drop 10 calldata))))"
    unfolding c using chunks64_exact[OF ls] signatures_split[of ?s] ab by (auto simp: drop_append)
  moreover have "take 10 calldata = ''0x6a761202''" "length calldata = 10 + 18 * 64"
    unfolding d using ls lw by simp_all
  ultimately show ?L by (simp add: validateSafeCalldata_def Let_def bindE_Inr_iff)
qed

lemma canonicalCustodyIntent_text: "canonicalCustodyIntent v = Inr t \<Longrightarrow> canonicalJson v = Inr t"
  by (auto simp: canonicalCustodyIntent_def Let_def bindE_Inr_iff)

text \<open>
  C40. The calldata of a Safe call is accepted exactly when it is the ABI encoding of
  \<open>execTransaction\<close> with the call's own target, value, gas limits and payload, every argument a
  whole word, followed by two 65-byte signatures of an externally owned account and 30 bytes of
  padding: there is no other calldata that would execute under the same approval.
\<close>

theorem validateSafeCalldata_exact:
  "validateSafeCalldata safe calldata = Inr () \<longleftrightarrow>
     list_all (\<lambda>w. length w = 64) (safeWords safe)
   \<and> (\<exists>a b. isSignature a \<and> isSignature b
        \<and> calldata = ''0x6a761202'' @ concat (safeWords safe) @ a @ b @ replicate 60 (CHR ''0''))"
  by (rule safe_calldata)

end
