(* ===== verification/DeploymentShape.thy ===== *)
theory DeploymentShape
  imports DeploymentModel
begin

text \<open>
  The structural validation of a deployment configuration
  (\<open>genesis-manifest/domain/deployment.ts\<close>): header, allocations, safes, grants, aliases, policy,
  bridge and test scenario. Each validator gives the diagnostics it reports, in order.
\<close>

text \<open>\<open>for (const [i, entry] of entries.entries())\<close>\<close>

definition eachEntry :: "(string \<Rightarrow> jsval \<Rightarrow> diagnostic list) \<Rightarrow> string \<Rightarrow> jsval list \<Rightarrow> diagnostic list" where
  "eachEntry check ptr entries = concat (map (\<lambda>(i, entry). check (ptr @ ''/'' @ dec i) entry) (enumerate 0 entries))"

lemma eachEntry_clean:
  "eachEntry check ptr entries = [] \<longleftrightarrow> (\<forall>i<length entries. check (ptr @ ''/'' @ dec i) (entries ! i) = [])"
  by (simp add: eachEntry_def all_set_conv_all_nth[of "enumerate 0 entries"] nth_enumerate_eq)

text \<open>
  \<open>new Set(values).size\<close>: objects are told apart by identity, and those of a parsed source are all
  different; other values by what they are.
\<close>

fun isObject :: "jsval \<Rightarrow> bool" where
  "isObject (JArr _ _) = True"
| "isObject (JObj _ _) = True"
| "isObject _ = False"

definition valueSetSize :: "jsval list \<Rightarrow> nat" where
  "valueSetSize vs = length (filter isObject vs) + setSize (filter (\<lambda>v. \<not> isObject v) vs)"

lemma valueSetSize_strings: "valueSetSize (map JStr ss) = setSize ss"
proof -
  have *: "filter isObject (map JStr ss) = []" "filter (\<lambda>v. \<not> isObject v) (map JStr ss) = map JStr ss"
    by (simp_all add: filter_empty_conv)
  have "card (JStr ` set ss) = card (set ss)" by (rule card_image) (simp add: inj_on_def)
  then show ?thesis by (simp add: valueSetSize_def * setSize_card)
qed

definition bpsOutside :: "jsval \<Rightarrow> bool" where
  "bpsOutside v \<longleftrightarrow> \<not> isInteger v \<or> theNum v < 0 \<or> theNum v > 10000"

section \<open>Header\<close>

definition validateHeader :: "jsval \<Rightarrow> diagnostic list \<times> jsrecord \<times> bool" where
  "validateHeader input =
     (let (d0, root) = objectD input [] [''schemaVersion'', ''deploymentId'', ''status'', ''environment'', ''token'', ''allocations'',
            ''grants'', ''custodySafes'', ''roleAliases'', ''bridge'', ''testScenario'', ''policy''] [];
          (d1, env) = objectD (getP root ''environment'') ''/environment''
            [''mode'', ''evmChainId'', ''solanaGenesisHash'', ''evmSelector'', ''solanaSelector''] [];
          mode = getP env ''mode'';
          production = (mode = JStr ''mainnet-dry-run'');
          (d2, token) = objectD (getP root ''token'') ''/token''
            [''name'', ''symbol'', ''decimals'', ''initialSupplyBaseUnits'', ''initialCCIPAdmin''] []
      in (d0
          @ oneOfD (getP root ''schemaVersion'') ''/schemaVersion'' [JNum 1]
          @ idD (getP root ''deploymentId'') ''/deploymentId''
          @ oneOfD (getP root ''status'') ''/status'' (map JStr [''draft'', ''test-only'', ''accepted''])
          @ d1
          @ oneOfD mode ''/environment/mode'' (map JStr [''local-test'', ''owned-testnet'', ''mainnet-dry-run''])
          @ oneOfD (getP env ''evmChainId'') ''/environment/evmChainId''
              [JStr (if production then ''1'' else if mode = JStr ''owned-testnet'' then ''11155111'' else ''31337'')]
          @ solanaD (getP env ''solanaGenesisHash'') ''/environment/solanaGenesisHash'' False
          @ fst (uintD (getP env ''evmSelector'') ''/environment/evmSelector'' UINT64_MAX True)
          @ fst (uintD (getP env ''solanaSelector'') ''/environment/solanaSelector'' UINT64_MAX True)
          @ failWhen (getP env ''evmSelector'' = getP env ''solanaSelector'') ''SELECTOR_ALIAS'' ''/environment''
          @ (if getP root ''status'' \<noteq> JStr ''draft''
             then oneOfD (getP root ''status'') ''/status'' [JStr (if production then ''accepted'' else ''test-only'')] else [])
          @ d2
          @ oneOfD (getP token ''name'') ''/token/name'' [JStr (tokenName EXPECTED_TOKEN)]
          @ oneOfD (getP token ''symbol'') ''/token/symbol'' [JStr (tokenSymbol EXPECTED_TOKEN)]
          @ oneOfD (getP token ''decimals'') ''/token/decimals'' [tokenDecimals EXPECTED_TOKEN]
          @ fst (uintD (getP token ''initialSupplyBaseUnits'') ''/token/initialSupplyBaseUnits'' UINT64_MAX True)
          @ evmD (getP token ''initialCCIPAdmin'') ''/token/initialCCIPAdmin'' False,
          root, production))"

section \<open>Collections\<close>

definition allocationD :: "string \<Rightarrow> jsval \<Rightarrow> diagnostic list" where
  "allocationD p entry =
     (let (d, a) = objectD entry p [''id'', ''recipient'', ''amountBaseUnits'', ''bps''] [''bps'']
      in d @ idD (getP a ''id'') (p @ ''/id'') @ evmD (getP a ''recipient'') (p @ ''/recipient'') False
         @ fst (uintD (getP a ''amountBaseUnits'') (p @ ''/amountBaseUnits'') UINT64_MAX True)
         @ failWhen (getP a ''bps'' \<noteq> JUndef \<and> bpsOutside (getP a ''bps'')) ''BPS_INVALID'' (p @ ''/bps''))"

definition validateAllocations :: "jsval \<Rightarrow> diagnostic list" where
  "validateAllocations input =
     (let (d, allocations) = arrayD input ''/allocations'' 32 1
      in d @ eachEntry allocationD ''/allocations'' allocations)"

definition disclosureOk :: "jsval \<Rightarrow> bool" where
  "disclosureOk v \<longleftrightarrow> (case v of JStr s \<Rightarrow> trim s \<noteq> [] \<and> length s \<le> 512 \<and> \<not> list_ex (\<lambda>c. of_char c < (32::nat)) s | _ \<Rightarrow> False)"

definition safeD :: "string \<Rightarrow> jsval \<Rightarrow> diagnostic list" where
  "safeD p entry =
     (let (d, s) = objectD entry p [''id'', ''address'', ''owners'', ''threshold'', ''beneficialControl'', ''disclosure''] [];
          (d', owners) = arrayD (getP s ''owners'') (p @ ''/owners'') 3 3
      in d @ idD (getP s ''id'') (p @ ''/id'') @ evmD (getP s ''address'') (p @ ''/address'') False
         @ d' @ eachEntry (\<lambda>q owner. evmD owner q False) (p @ ''/owners'') owners
         @ failWhen (valueSetSize owners \<noteq> 3 \<or> list_ex (\<lambda>owner. owner = getP s ''address'' \<and> \<not> isObject owner) owners)
             ''SAFE_OWNERS'' (p @ ''/owners'')
         @ oneOfD (getP s ''threshold'') (p @ ''/threshold'') [JNum 2]
         @ oneOfD (getP s ''beneficialControl'') (p @ ''/beneficialControl'') (map JStr [''solo-founder'', ''independent-disclosed''])
         @ failWhen (\<not> disclosureOk (getP s ''disclosure'')) ''DISCLOSURE_REQUIRED'' (p @ ''/disclosure''))"

definition validateSafes :: "jsval \<Rightarrow> diagnostic list" where
  "validateSafes input = (let (d, safes) = arrayD input ''/custodySafes'' 32 0 in d @ eachEntry safeD ''/custodySafes'' safes)"

definition grantD :: "bool \<Rightarrow> string \<Rightarrow> jsval \<Rightarrow> diagnostic list" where
  "grantD production p entry =
     (let (d, g) = objectD entry p [''id'', ''kind'', ''beneficiary'', ''fundingAllocation'', ''controllerSafe'', ''amountBaseUnits'',
            ''originalPurpose'', ''schedule''] [];
          (d', schedule) = objectD (getP g ''schedule'') (p @ ''/schedule'') [''profile'', ''start'', ''cliff'', ''end'', ''anniversaryRule''] [''anniversaryRule'']
      in d @ idD (getP g ''id'') (p @ ''/id'') @ oneOfD (getP g ''kind'') (p @ ''/kind'') (map JStr [''founder'', ''team''])
         @ evmD (getP g ''beneficiary'') (p @ ''/beneficiary'') False
         @ idD (getP g ''fundingAllocation'') (p @ ''/fundingAllocation'') @ idD (getP g ''controllerSafe'') (p @ ''/controllerSafe'')
         @ fst (uintD (getP g ''amountBaseUnits'') (p @ ''/amountBaseUnits'') UINT64_MAX True)
         @ failWhen (\<not> isDigest (getP g ''originalPurpose'') \<or> getP g ''originalPurpose'' = JStr (zeroHex 64))
             ''PURPOSE_INVALID'' (p @ ''/originalPurpose'')
         @ d' @ validateGrantSchedule (scheduleOf schedule) production (p @ ''/schedule''))"

definition validateGrants :: "jsval \<Rightarrow> bool \<Rightarrow> diagnostic list" where
  "validateGrants input production = (let (d, grants) = arrayD input ''/grants'' 64 0 in d @ eachEntry (grantD production) ''/grants'' grants)"

definition aliasD :: "string \<Rightarrow> jsval \<Rightarrow> diagnostic list" where
  "aliasD p entry =
     (let (d, a) = objectD entry p [''address'', ''roles''] [];
          (d', roles) = arrayD (getP a ''roles'') (p @ ''/roles'') 128 2
      in d @ evmD (getP a ''address'') (p @ ''/address'') False @ d'
         @ failWhen (list_ex (\<lambda>role. case role of JStr s \<Rightarrow> length s > 160 | _ \<Rightarrow> True) roles \<or> valueSetSize roles \<noteq> length roles)
             ''ROLE_ALIAS_INVALID'' (p @ ''/roles''))"

definition validateAliases :: "jsval \<Rightarrow> diagnostic list" where
  "validateAliases input = (let (d, aliases) = arrayD input ''/roleAliases'' 128 0 in d @ eachEntry aliasD ''/roleAliases'' aliases)"

section \<open>Policy\<close>

definition POLICY_KEYS :: "string list" where
  "POLICY_KEYS = [''tokenExpenditureCeilingBaseUnits'', ''evmMaxFeePerGasWei'', ''evmMaxPriorityFeePerGasWei'',
     ''evmMaxGasPerTransaction'', ''evmMaxTotalFeeWei'', ''solanaMaxFeeLamports'', ''solanaMaxTotalFeeLamports'',
     ''observationMaxAgeSeconds'', ''executionDeadline'', ''fundingDeadline'', ''fundingLeadSeconds'',
     ''estimateValiditySeconds'', ''gasBufferBps'']"

definition policyKeyD :: "jsrecord \<Rightarrow> string \<Rightarrow> diagnostic list" where
  "policyKeyD policy key =
     (if key = ''gasBufferBps'' then failWhen (bpsOutside (getP policy key)) ''GAS_BUFFER'' (''/policy/'' @ key)
      else fst (uintD (getP policy key) (''/policy/'' @ key) (if take 3 key = ''evm'' then UINT256_MAX else UINT64_MAX)
             (key \<noteq> ''evmMaxPriorityFeePerGasWei'')))"

definition validatePolicy :: "jsval \<Rightarrow> diagnostic list" where
  "validatePolicy input = (let (d, policy) = objectD input ''/policy'' POLICY_KEYS [] in d @ concat (map (policyKeyD policy) POLICY_KEYS))"

section \<open>Bridge\<close>

record rateLimit =
  rlCapacity :: int
  rlRate :: int

definition rateD :: "bool \<Rightarrow> jsval \<Rightarrow> string \<Rightarrow> int \<Rightarrow> diagnostic list \<times> rateLimit option" where
  "rateD production rateInput ptr mx =
     (let (d, r) = objectD rateInput ptr [''enabled'', ''capacity'', ''rate''] [];
          enabled = getP r ''enabled'';
          (dc, capacity) = uintD (getP r ''capacity'') (ptr @ ''/capacity'') mx False;
          (dr, perSecond) = uintD (getP r ''rate'') (ptr @ ''/rate'') mx False;
          ds = d @ oneOfD enabled (ptr @ ''/enabled'') [JBool True, JBool False] @ dc @ dr
             @ failWhen (production \<and> enabled = JBool False) ''LIMITER_DISABLED'' (ptr @ ''/enabled'')
      in case (capacity, perSecond) of
           (Some c, Some s) \<Rightarrow>
             if enabled \<noteq> JBool True \<and> enabled \<noteq> JBool False then (ds, None)
             else if (if enabled = JBool False then c \<noteq> 0 \<or> s \<noteq> 0 else s > c) then (ds @ failD ''LIMITER_INVALID'' ptr, None)
             else if production \<and> enabled = JBool True \<and> c > 0 \<and> s = 0 then (ds @ failD ''LIMITER_ZERO_RATE'' (ptr @ ''/rate''), None)
             else (ds, if enabled = JBool True then Some \<lparr>rlCapacity = c, rlRate = s\<rparr> else None)
         | _ \<Rightarrow> (ds, None))"

definition compatibleD :: "rateLimit option \<Rightarrow> rateLimit option \<Rightarrow> string \<Rightarrow> diagnostic list" where
  "compatibleD outbound inbound ptr = (case (outbound, inbound) of
     (Some o', Some i) \<Rightarrow> failWhen (rlCapacity o' > rlCapacity i) ''LIMITER_CAPACITY_MISMATCH'' (ptr @ ''/capacity'')
        @ failWhen (rlRate o' > rlRate i) ''LIMITER_RATE_MISMATCH'' (ptr @ ''/rate'')
   | _ \<Rightarrow> [])"

definition isReference :: "string \<Rightarrow> bool" where
  "isReference s \<longleftrightarrow> 1 \<le> length s \<and> length s \<le> 160 \<and> (isUpper (hd s) \<or> isLower (hd s) \<or> isDigit (hd s))
     \<and> list_all (\<lambda>c. isUpper c \<or> isLower c \<or> isDigit c \<or> c \<in> set ''./_-'') (tl s)"

definition EVM_KEYS :: "string list" where
  "EVM_KEYS = [''token'', ''pool'', ''router'', ''rmn'', ''registry'', ''registryModule'', ''registryAdministrator'', ''poolOwner'',
     ''rateLimitAdministrator'', ''rebalancer'', ''inbound'', ''outbound'']"

definition SOLANA_KEYS :: "string list" where
  "SOLANA_KEYS = [''mint'', ''pool'', ''poolSigner'', ''poolTokenAccount'', ''lookupTable'', ''tokenProgram'', ''router'', ''offRamp'',
     ''rmn'', ''feeQuoter'', ''burnMintProgram'', ''poolAdministrator'', ''registryAdministrator'', ''upgradeAuthority'',
     ''inbound'', ''outbound'']"

definition UINT128_MAX :: int where "UINT128_MAX = 2 ^ 128 - 1"

definition validateBridge :: "jsval \<Rightarrow> bool \<Rightarrow> diagnostic list" where
  "validateBridge input production =
     (if input = JNull then [] else
      let (d, b) = objectD input ''/bridge'' [''protocol'', ''ethereum'', ''solana''] [];
          (d1, pin) = objectD (getP b ''protocol'') ''/bridge/protocol'' [''reference'', ''snapshotSha256'', ''networkDataSha256''] [];
          (d2, e) = objectD (getP b ''ethereum'') ''/bridge/ethereum'' EVM_KEYS [];
          (d3, evmInbound) = rateD production (getP e ''inbound'') ''/bridge/ethereum/inbound'' UINT128_MAX;
          (d4, evmOutbound) = rateD production (getP e ''outbound'') ''/bridge/ethereum/outbound'' UINT128_MAX;
          (d5, s) = objectD (getP b ''solana'') ''/bridge/solana'' SOLANA_KEYS [];
          (d6, solanaInbound) = rateD production (getP s ''inbound'') ''/bridge/solana/inbound'' UINT64_MAX;
          (d7, solanaOutbound) = rateD production (getP s ''outbound'') ''/bridge/solana/outbound'' UINT64_MAX
      in d @ d1
         @ failWhen (case getP pin ''reference'' of JStr t \<Rightarrow> \<not> isReference t \<or> includesText t ''..'' | _ \<Rightarrow> True)
             ''PROTOCOL_REFERENCE'' ''/bridge/protocol/reference''
         @ concat (map (\<lambda>k. failWhen (\<not> isDigest (getP pin k)) ''DIGEST_INVALID'' (''/bridge/protocol/'' @ k)) [''snapshotSha256'', ''networkDataSha256''])
         @ d2
         @ concat (map (\<lambda>k. evmD (getP e k) (''/bridge/ethereum/'' @ k) (k \<in> set [''token'', ''pool'', ''rebalancer'']))
             (filter (\<lambda>k. k \<noteq> ''inbound'' \<and> k \<noteq> ''outbound'') EVM_KEYS))
         @ d3 @ d4 @ d5
         @ concat (map (\<lambda>k. solanaD (getP s k) (''/bridge/solana/'' @ k)
               (k \<in> set [''mint'', ''pool'', ''poolSigner'', ''poolTokenAccount'', ''lookupTable'', ''upgradeAuthority'']))
             (filter (\<lambda>k. k \<noteq> ''inbound'' \<and> k \<noteq> ''outbound'') SOLANA_KEYS))
         @ oneOfD (getP s ''tokenProgram'') ''/bridge/solana/tokenProgram'' [JStr ''TokenkegQfeZyiNwAJbNbGKPFXCWuBvf9Ss623VQ5DA'']
         @ d6 @ d7
         @ compatibleD evmOutbound solanaInbound ''/bridge/ethereum/outbound''
         @ compatibleD solanaOutbound evmInbound ''/bridge/solana/outbound'')"

section \<open>Test scenario\<close>

definition transferD :: "string \<Rightarrow> jsval \<Rightarrow> diagnostic list" where
  "transferD p entry =
     (let (d, t) = objectD entry p [''id'', ''direction'', ''amountBaseUnits'', ''evmRecipient'', ''solanaRecipient''] []
      in d @ idD (getP t ''id'') (p @ ''/id'')
         @ oneOfD (getP t ''direction'') (p @ ''/direction'') (map JStr [''ethereum-solana'', ''solana-ethereum''])
         @ fst (uintD (getP t ''amountBaseUnits'') (p @ ''/amountBaseUnits'') UINT64_MAX True)
         @ evmD (getP t ''evmRecipient'') (p @ ''/evmRecipient'') False
         @ solanaD (getP t ''solanaRecipient'') (p @ ''/solanaRecipient'') False)"

definition validateTestScenario :: "jsval \<Rightarrow> bool \<Rightarrow> diagnostic list" where
  "validateTestScenario input production =
     (if input \<noteq> JNull then
        (let (d, t) = objectD input ''/testScenario'' [''label'', ''transfers''] [];
             (d', transfers) = arrayD (getP t ''transfers'') ''/testScenario/transfers'' 32 0
         in failWhen production ''TEST_SCENARIO_FORBIDDEN'' ''/testScenario''
            @ d @ oneOfD (getP t ''label'') ''/testScenario/label'' [JStr ''test-only''] @ d'
            @ eachEntry transferD ''/testScenario/transfers'' transfers)
      else failWhen (\<not> production) ''TEST_LABEL_REQUIRED'' ''/testScenario'')"

section \<open>All of the shape\<close>

definition shapeDiagnostics :: "jsval \<Rightarrow> diagnostic list" where
  "shapeDiagnostics input =
     (let (d, root, production) = validateHeader input
      in d @ validateAllocations (getP root ''allocations'') @ validateSafes (getP root ''custodySafes'')
         @ validateGrants (getP root ''grants'') production @ validateAliases (getP root ''roleAliases'')
         @ validatePolicy (getP root ''policy'') @ validateBridge (getP root ''bridge'') production
         @ validateTestScenario (getP root ''testScenario'') production)"

end
