(* ===== verification/Deployment.thy ===== *)
theory Deployment
  imports DeploymentShape
begin

text \<open>
  The validation of a deployment configuration as a whole
  (\<open>genesis-manifest/domain/deployment.ts\<close>): after the shape, references between the parts,
  solvency of the grants, the operational policy and the approved role aliases; then the
  normalisation of its unordered collections. The main result characterises what is accepted.
\<close>

section \<open>References and policy\<close>

text \<open>\<open>BigInt(text)\<close> of a text that the shape has found to be a canonical integer.\<close>

definition num :: "string \<Rightarrow> int" where
  "num s = int (undec s)"

definition transfersOf :: "deploymentConfig \<Rightarrow> testTransfer list" where
  "transfersOf config = (case dcTestScenario config of None \<Rightarrow> [] | Some transfers \<Rightarrow> transfers)"

definition validateReferences :: "deploymentConfig \<Rightarrow> diagnostic list" where
  "validateReferences config =
     concat (map (\<lambda>(ids, path). failWhen (setSize ids \<noteq> length ids) ''DUPLICATE_ID'' path)
       [(map srcId (dcAllocations config), ''/allocations''), (map dgId (dcGrants config), ''/grants''),
        (map dsId (dcCustodySafes config), ''/custodySafes''), (map ttId (transfersOf config), ''/testScenario/transfers'')])
   @ failWhen (setSize (map dsAddress (dcCustodySafes config)) \<noteq> length (dcCustodySafes config)) ''DUPLICATE_SAFE'' ''/custodySafes''
   @ concat (map (\<lambda>(i, g).
        failWhen (\<not> list_ex (\<lambda>a. srcId a = dgFundingAllocation g) (dcAllocations config))
          ''RESERVE_REFERENCE'' (''/grants/'' @ dec i @ ''/fundingAllocation'')
      @ failWhen (\<not> list_ex (\<lambda>s. dsId s = dgControllerSafe g) (dcCustodySafes config))
          ''SAFE_REFERENCE'' (''/grants/'' @ dec i @ ''/controllerSafe'')
      @ failWhen (num (dpFundingDeadline (dcPolicy config))
            > num (gsStart (dgSchedule g)) - num (dpFundingLeadSeconds (dcPolicy config)))
          ''FUNDING_DEADLINE'' (''/grants/'' @ dec i @ ''/schedule/start''))
      (enumerate 0 (dcGrants config)))
   @ concat (map (\<lambda>a.
        let committed = foldl (\<lambda>sum g. sum + num (dgAmount g)) 0 (filter (\<lambda>g. dgFundingAllocation g = srcId a) (dcGrants config))
        in failWhen (committed > num (srcAmount a)) ''RESERVE_INSOLVENT'' ''/grants'')
      (dcAllocations config))"

definition validateOperationalPolicy :: "deploymentConfig \<Rightarrow> diagnostic list" where
  "validateOperationalPolicy config =
     (let p = dcPolicy config;
          expenditure = foldl (\<lambda>sum g. sum + num (dgAmount g)) 0 (dcGrants config)
                      + foldl (\<lambda>sum t. sum + num (ttAmount t)) 0 (transfersOf config)
      in failWhen (num (dpFundingDeadline p) \<ge> num (dpExecutionDeadline p)) ''EXECUTION_DEADLINE'' ''/policy/executionDeadline''
       @ failWhen (expenditure > num (dpExpenditureCeiling p)) ''EXPENDITURE_EXCEEDED'' ''/policy/tokenExpenditureCeilingBaseUnits''
       @ failWhen (num (dpEvmMaxPriorityFeePerGasWei p) > num (dpEvmMaxFeePerGasWei p)) ''FEE_POLICY'' ''/policy/evmMaxPriorityFeePerGasWei''
       @ failWhen (num (dpSolanaMaxFeeLamports p) > num (dpSolanaMaxTotalFeeLamports p)) ''FEE_POLICY'' ''/policy/solanaMaxFeeLamports''
       @ failWhen (num (dpEstimateValiditySeconds p) > num (dpObservationMaxAgeSeconds p)) ''ESTIMATE_FRESHNESS'' ''/policy/estimateValiditySeconds'')"

section \<open>Role aliases\<close>

text \<open>The calls of \<open>add\<close>, in order: which address has which role.\<close>

definition roleUses :: "deploymentConfig \<Rightarrow> (string \<times> string) list" where
  "roleUses config =
     [(dcInitialCCIPAdmin config, ''token.initialCCIPAdmin'')]
   @ map (\<lambda>a. (srcRecipient a, ''allocation.'' @ srcId a @ ''.recipient'')) (dcAllocations config)
   @ map (\<lambda>g. (dgBeneficiary g, ''grant.'' @ dgId g @ ''.beneficiary'')) (dcGrants config)
   @ concat (map (\<lambda>s. (dsAddress s, ''safe.'' @ dsId s @ ''.address'')
        # map (\<lambda>owner. (owner, ''safe.'' @ dsId s @ ''.owner'')) (dsOwners s)) (dcCustodySafes config))"

definition addRole :: "(string \<times> string list) list \<Rightarrow> string \<times> string \<Rightarrow> (string \<times> string list) list" where
  "addRole roles use = mapSet (fst use) ((case map_of roles (fst use) of None \<Rightarrow> [] | Some names \<Rightarrow> names) @ [snd use]) roles"

definition rolesMap :: "deploymentConfig \<Rightarrow> (string \<times> string list) list" where
  "rolesMap config = foldl addRole [] (roleUses config)"

definition stringsJson :: "string list \<Rightarrow> string" where
  "stringsJson ss = stringify (JArr Plain (map JStr ss))"

definition validateRoleAliases :: "deploymentConfig \<Rightarrow> diagnostic list" where
  "validateRoleAliases config =
     (let roles = rolesMap config in
        concat (map (\<lambda>(address, names).
          if length names < 2 then []
          else let found = filter (\<lambda>a. raAddress a = address) (dcRoleAliases config)
               in failWhen (length found \<noteq> 1 \<or> stringsJson (sortText (raRoles (hd found))) \<noteq> stringsJson (sortText names))
                    ''ROLE_ALIAS_UNAPPROVED'' ''/roleAliases'') roles)
      @ concat (map (\<lambda>a.
          failWhen ((case map_of roles (raAddress a) of None \<Rightarrow> 0 | Some names \<Rightarrow> length names) < 2)
            ''ROLE_ALIAS_UNUSED'' ''/roleAliases'') (dcRoleAliases config)))"

section \<open>The whole validation\<close>

text \<open>\<open>(a, b) => a.key < b.key ? -1 : 1\<close>\<close>

definition lessFirst :: "('a \<Rightarrow> string) \<Rightarrow> 'a \<Rightarrow> 'a \<Rightarrow> int" where
  "lessFirst key a b = (if key a < key b then -1 else 1)"

definition sourceOf :: "normalizedAllocation \<Rightarrow> sourceAllocation" where
  "sourceOf a = \<lparr>srcId = normId a, srcRecipient = normRecipient a, srcAmount = normAmount a, srcBps = normBps a\<rparr>"

definition normalizedConfig :: "deploymentConfig \<Rightarrow> normalizedAllocation list \<Rightarrow> deploymentConfig" where
  "normalizedConfig config allocations = config\<lparr>
     dcAllocations := map sourceOf allocations,
     dcGrants := toSorted (lessFirst dgId) (dcGrants config),
     dcCustodySafes := toSorted (lessFirst dsId) (map (\<lambda>s. s\<lparr>dsOwners := sortText (dsOwners s)\<rparr>) (dcCustodySafes config)),
     dcRoleAliases := toSorted (lessFirst raAddress) (map (\<lambda>a. a\<lparr>raRoles := sortText (raRoles a)\<rparr>) (dcRoleAliases config))\<rparr>"

text \<open>The diagnostics and, when there are none, the validated configuration and its allocations.\<close>

definition validateDeployment :: "jsval \<Rightarrow> diagnostic list \<times> (deploymentConfig \<times> normalizedAllocation list) option" where
  "validateDeployment input =
     (let shape = shapeDiagnostics input in
      if length shape \<noteq> 0 then (toSorted compareDiagnostics shape, None)
      else
        let config = configOf (theObj input);
            (ds, allocations) = normalizeAllocationSet (dcInitialSupply config) (Some (dcAllocations config)) Deployment;
            diagnostics = map (\<lambda>d. d\<lparr>message := ''invalid or unresolved deployment input''\<rparr>) ds
              @ validateReferences config @ validateOperationalPolicy config @ validateRoleAliases config
        in if length diagnostics \<noteq> 0 then (toSorted compareDiagnostics diagnostics, None)
           else case allocations of
                  None \<Rightarrow> (toSorted compareDiagnostics diagnostics, None)
                | Some normalized \<Rightarrow> ([], Some (normalizedConfig config normalized, normalized)))"

section \<open>What is accepted\<close>

text \<open>The specification: distinct names, references that resolve, solvent grants, timely funding.\<close>

definition amountSumOf :: "('a \<Rightarrow> string) \<Rightarrow> 'a list \<Rightarrow> int" where
  "amountSumOf f xs = sum_list (map (\<lambda>x. num (f x)) xs)"

definition fundedBy :: "deploymentConfig \<Rightarrow> sourceAllocation \<Rightarrow> deploymentGrant list" where
  "fundedBy config a = filter (\<lambda>g. dgFundingAllocation g = srcId a) (dcGrants config)"

definition referencesSound :: "deploymentConfig \<Rightarrow> bool" where
  "referencesSound config \<longleftrightarrow>
     distinct (map srcId (dcAllocations config)) \<and> distinct (map dgId (dcGrants config))
   \<and> distinct (map dsId (dcCustodySafes config)) \<and> distinct (map ttId (transfersOf config))
   \<and> distinct (map dsAddress (dcCustodySafes config))
   \<and> (\<forall>g\<in>set (dcGrants config). dgFundingAllocation g \<in> srcId ` set (dcAllocations config)
        \<and> dgControllerSafe g \<in> dsId ` set (dcCustodySafes config)
        \<and> num (dpFundingDeadline (dcPolicy config)) + num (dpFundingLeadSeconds (dcPolicy config)) \<le> num (gsStart (dgSchedule g)))
   \<and> (\<forall>a\<in>set (dcAllocations config). amountSumOf dgAmount (fundedBy config a) \<le> num (srcAmount a))"

definition policySound :: "deploymentConfig \<Rightarrow> bool" where
  "policySound config \<longleftrightarrow>
     (let p = dcPolicy config in
        num (dpFundingDeadline p) < num (dpExecutionDeadline p)
      \<and> amountSumOf dgAmount (dcGrants config) + amountSumOf ttAmount (transfersOf config) \<le> num (dpExpenditureCeiling p)
      \<and> num (dpEvmMaxPriorityFeePerGasWei p) \<le> num (dpEvmMaxFeePerGasWei p)
      \<and> num (dpSolanaMaxFeeLamports p) \<le> num (dpSolanaMaxTotalFeeLamports p)
      \<and> num (dpEstimateValiditySeconds p) \<le> num (dpObservationMaxAgeSeconds p))"

text \<open>The roles an address has; two or more need exactly one alias that lists exactly them.\<close>

definition rolesOf :: "deploymentConfig \<Rightarrow> string \<Rightarrow> string list" where
  "rolesOf config address = map snd (filter (\<lambda>use. fst use = address) (roleUses config))"

definition rolesSound :: "deploymentConfig \<Rightarrow> bool" where
  "rolesSound config \<longleftrightarrow>
     (\<forall>address\<in>fst ` set (roleUses config). 2 \<le> length (rolesOf config address) \<longrightarrow>
        (\<exists>a. filter (\<lambda>a. raAddress a = address) (dcRoleAliases config) = [a]
           \<and> mset (raRoles a) = mset (rolesOf config address)))
   \<and> (\<forall>a\<in>set (dcRoleAliases config). 2 \<le> length (rolesOf config (raAddress a)))"

definition deploymentSound :: "deploymentConfig \<Rightarrow> bool" where
  "deploymentSound config \<longleftrightarrow>
     (\<exists>supply. 0 < supply \<and> supply \<le> UINT64_MAX \<and> dcInitialSupply config = decInt supply
        \<and> allocationsOk Deployment supply (dcAllocations config))
   \<and> referencesSound config \<and> policySound config \<and> rolesSound config"

subsection \<open>References and policy\<close>

lemma foldl_amounts: "foldl (\<lambda>sum x. sum + num (f x)) s xs = s + amountSumOf f xs"
  by (induction xs arbitrary: s) (simp_all add: amountSumOf_def)

lemma distinct_setSize: "setSize (map f xs) = length xs \<longleftrightarrow> distinct (map f xs)"
  using setSize_eq_length_iff[of "map f xs"] by simp

lemma each_enumerate: "(\<forall>(i, x)\<in>set (enumerate 0 xs). P x) \<longleftrightarrow> (\<forall>x\<in>set xs. P x)"
proof -
  have "set xs = snd ` set (enumerate 0 xs)" by (metis list.set_map map_snd_enumerate)
  then show ?thesis by (auto simp: split_def)
qed

lemma validateReferences_sound: "validateReferences config = [] \<longleftrightarrow> referencesSound config"
proof -
  let ?ok = "\<lambda>g. list_ex (\<lambda>a. srcId a = dgFundingAllocation g) (dcAllocations config)
     \<and> list_ex (\<lambda>s. dsId s = dgControllerSafe g) (dcCustodySafes config)
     \<and> \<not> num (dpFundingDeadline (dcPolicy config)) > num (gsStart (dgSchedule g)) - num (dpFundingLeadSeconds (dcPolicy config))"
  have "validateReferences config = [] \<longleftrightarrow>
      distinct (map srcId (dcAllocations config)) \<and> distinct (map dgId (dcGrants config))
   \<and> distinct (map dsId (dcCustodySafes config)) \<and> distinct (map ttId (transfersOf config))
   \<and> distinct (map dsAddress (dcCustodySafes config))
   \<and> (\<forall>(i, g)\<in>set (enumerate 0 (dcGrants config)). ?ok g)
   \<and> (\<forall>a\<in>set (dcAllocations config). amountSumOf dgAmount (fundedBy config a) \<le> num (srcAmount a))"
    by (simp add: validateReferences_def distinct_setSize foldl_amounts fundedBy_def split_def Let_def not_less)
  also have "(\<forall>(i, g)\<in>set (enumerate 0 (dcGrants config)). ?ok g) \<longleftrightarrow> (\<forall>g\<in>set (dcGrants config). ?ok g)"
    by (rule each_enumerate)
  finally show ?thesis
    unfolding referencesSound_def by (auto simp: list_ex_iff image_iff eq_commute[of "dgFundingAllocation _"] eq_commute[of "dgControllerSafe _"] not_less
        algebra_simps)
qed

lemma validateOperationalPolicy_sound: "validateOperationalPolicy config = [] \<longleftrightarrow> policySound config"
  by (simp add: validateOperationalPolicy_def policySound_def Let_def foldl_amounts not_less not_le)

subsection \<open>Roles\<close>

lemma rolesMap_lookup:
  "map_of (foldl addRole m uses) a =
     (let names = map snd (filter (\<lambda>u. fst u = a) uses) in
      case map_of m a of None \<Rightarrow> if names = [] then None else Some names | Some before \<Rightarrow> Some (before @ names))"
proof (induction uses arbitrary: m)
  case Nil
  then show ?case by (simp add: Let_def split: option.split)
next
  case (Cons u uses)
  then show ?case by (auto simp: addRole_def Let_def split: option.splits)
qed

lemma rolesMap_distinct: "distinct (map fst m) \<Longrightarrow> distinct (map fst (foldl addRole m uses))"
  by (induction uses arbitrary: m) (simp_all add: addRole_def)

lemma rolesMap_entry:
  "(a, names) \<in> set (rolesMap config) \<longleftrightarrow> a \<in> fst ` set (roleUses config) \<and> names = rolesOf config a"
proof -
  have "(a, names) \<in> set (rolesMap config) \<longleftrightarrow> map_of (rolesMap config) a = Some names"
    using rolesMap_distinct[of "[]" "roleUses config"] by (simp add: rolesMap_def map_of_eq_Some_iff)
  also have "\<dots> \<longleftrightarrow> rolesOf config a \<noteq> [] \<and> names = rolesOf config a"
    by (auto simp: rolesMap_def rolesMap_lookup rolesOf_def Let_def)
  also have "rolesOf config a \<noteq> [] \<longleftrightarrow> a \<in> fst ` set (roleUses config)"
    by (auto simp: rolesOf_def filter_empty_conv image_iff)
  finally show ?thesis .
qed

lemma rolesMap_count:
  "(case map_of (rolesMap config) a of None \<Rightarrow> 0 | Some names \<Rightarrow> length names) = length (rolesOf config a)"
  by (auto simp: rolesMap_def rolesMap_lookup rolesOf_def Let_def)

lemma stringsJson_inj [simp]: "stringsJson xs = stringsJson ys \<longleftrightarrow> xs = ys"
proof -
  have "isJson (JArr Plain (map JStr zs))" for zs by simp
  from stringify_inj[OF this this]
  have "stringsJson xs = stringsJson ys \<longleftrightarrow> map JStr xs = map JStr ys"
    unfolding stringsJson_def jsval.inject by blast
  also have "\<dots> \<longleftrightarrow> xs = ys" by (simp add: inj_map_eq_map inj_on_def)
  finally show ?thesis .
qed

lemma one_element: "length xs = 1 \<and> P (hd xs) \<longleftrightarrow> (\<exists>x. xs = [x] \<and> P x)"
  by (cases xs) auto

lemma validateRoleAliases_sound: "validateRoleAliases config = [] \<longleftrightarrow> rolesSound config"
proof -
  let ?al = "\<lambda>address. filter (\<lambda>a. raAddress a = address) (dcRoleAliases config)"
  have one: "length (?al address) = 1 \<and> sortText (raRoles (hd (?al address))) = sortText names \<longleftrightarrow>
      (\<exists>a. ?al address = [a] \<and> mset (raRoles a) = mset names)" for address names
    using one_element[of "?al address" "\<lambda>a. mset (raRoles a) = mset names"] by (simp add: sortText_eq_iff)
  have "validateRoleAliases config = [] \<longleftrightarrow>
      (\<forall>(address, names)\<in>set (rolesMap config). 2 \<le> length names \<longrightarrow>
         length (?al address) = 1 \<and> sortText (raRoles (hd (?al address))) = sortText names)
    \<and> (\<forall>a\<in>set (dcRoleAliases config). 2 \<le> length (rolesOf config (raAddress a)))"
    by (auto simp: validateRoleAliases_def Let_def rolesMap_count not_less split: if_splits)
  also have "\<dots> \<longleftrightarrow> rolesSound config"
    unfolding rolesSound_def one by (force simp: rolesMap_entry)
  finally show ?thesis .
qed

subsection \<open>The whole\<close>

lemma validateDeployment_Some:
  "validateDeployment input = (ds, Some (config, allocations)) \<longleftrightarrow>
     ds = [] \<and> shapeDiagnostics input = [] \<and> deploymentSound (configOf (theObj input))
   \<and> allocations = toSorted (compareKey idBytes32) (map normalizedOf (dcAllocations (configOf (theObj input))))
   \<and> config = normalizedConfig (configOf (theObj input)) allocations"
proof (cases "shapeDiagnostics input = []")
  case True
  let ?c = "configOf (theObj input)"
  obtain nd no where n: "normalizeAllocationSet (dcInitialSupply ?c) (Some (dcAllocations ?c)) Deployment = (nd, no)"
    by fastforce
  let ?out = "toSorted (compareKey idBytes32) (map normalizedOf (dcAllocations ?c))"
  have some: "no = Some out \<Longrightarrow> nd = [] \<and> out = ?out" for out
    using normalizeAllocationSet_correct[of "dcInitialSupply ?c" "dcAllocations ?c" Deployment nd out] n by auto
  have ok: "nd = [] \<and> no = Some ?out \<longleftrightarrow> (\<exists>supply. 0 < supply \<and> supply \<le> UINT64_MAX \<and> dcInitialSupply ?c = decInt supply
        \<and> allocationsOk Deployment supply (dcAllocations ?c))"
    using normalizeAllocationSet_correct[of "dcInitialSupply ?c" "dcAllocations ?c" Deployment "[]" ?out] n by auto
  show ?thesis
  proof (cases no)
    case None
    then have "\<not> deploymentSound ?c" using ok by (simp add: deploymentSound_def)
    with True None show ?thesis by (simp add: validateDeployment_def Let_def n)
  next
    case (Some out)
    with some have "nd = []" "out = ?out" by auto
    then show ?thesis
      using True Some ok
      by (auto simp: validateDeployment_def Let_def n deploymentSound_def validateReferences_sound
          validateOperationalPolicy_sound validateRoleAliases_sound)
  qed
next
  case False
  then show ?thesis by (simp add: validateDeployment_def Let_def)
qed

end
