(* ===== verification/Custody.thy ===== *)
theory Custody
  imports CustodyIntent Deployment
begin

text \<open>
  \<open>testnet-ccip/src/domain/custody.ts\<close>: the vesting curve, the verification of a snapshot of the
  vaults and balances, the choice of the next operation and the verification of a transition.
  \<open>same\<close> compares canonical texts, so on records of equal type it is equality. The manifest's
  configuration is the JSON value that \<open>validateDeployment\<close> checks; \<open>configOf\<close> is its typed view.
\<close>

section \<open>Data\<close>

record custodyGrantState =
  cgGrantId :: string
  cgAddress :: string
  cgToken :: string
  cgBeneficiary :: string
  cgReserve :: string
  cgController :: string
  cgAllocation :: string
  cgStart :: string
  cgCliff :: string
  cgEnd :: string
  cgKind :: string
  cgOriginalPurpose :: string
  cgFunded :: bool
  cgInitialized :: bool
  cgCancelled :: bool
  cgReleased :: string
  cgFrozenEntitlement :: string
  cgLastTransition :: string
  cgAvailable :: string
  cgAllowance :: string
  cgDonations :: string

record deploymentBlock =
  dbNumber :: string
  dbHash :: string
  dbTimestamp :: string

record custodyBalance =
  cbAddress :: string
  cbAmount :: string

record custodySnapshot =
  csSchema :: string
  csChainId :: string
  csBlock :: deploymentBlock
  csToken :: string
  csTotalSupply :: string
  csInitialSupply :: string
  csBalances :: "custodyBalance list"
  csGrants :: "custodyGrantState list"

record custodyMovement =
  cmFrom :: string
  cmTo :: string
  cmAmount :: string

record custodyTransition =
  ctOperationId :: string
  ctGrantId :: string
  ctOperation :: string
  ctIntent :: jsval
  ctTransactionHash :: string
  ctBlock :: deploymentBlock
  ctBefore :: custodySnapshot
  ctAfter :: custodySnapshot
  ctMovements :: "custodyMovement list"
  ctReceiptStatus :: int
  ctSafeResult :: "string option"
  ctGasUsed :: string
  ctEffectiveGasPrice :: string

record custodyTransitionResult =
  crOperationId :: string
  crTransactionHash :: string
  crGrantId :: string
  crOperation :: string
  crTimestamp :: string
  crReleased :: string
  crRefunded :: string
  crVestedDebt :: string
  crRemainingPrincipal :: string
  crDonations :: string
  crFeeWei :: string
  crFounderRejection :: bool

text \<open>The parts of a deployment manifest that custody reads.\<close>

record manifestGrant =
  mgGrantId :: string
  mgAddress :: string

record deploymentManifest =
  dmConfigurationSha256 :: string
  dmConfiguration :: jsval
  dmToken :: "string option"
  dmGrants :: "manifestGrant list"

definition manifestConfig :: "deploymentManifest \<Rightarrow> deploymentConfig" where
  "manifestConfig manifest = configOf (theObj (dmConfiguration manifest))"

section \<open>Quantities and the curve\<close>

definition failC :: "string \<Rightarrow> js_error" where
  "failC reason = Err (''CUSTODY_'' @ reason)"

definition uintC :: "string \<Rightarrow> js_error + int" where
  "uintC v = (case parseCanonicalUint (JStr v) UINT256_MAX of None \<Rightarrow> Inl (failC ''INVALID_QUANTITY'') | Some n \<Rightarrow> Inr n)"

definition custodyVested :: "deploymentGrant \<Rightarrow> string \<Rightarrow> js_error + int" where
  "custodyVested grant timestamp =
     bindE (uintC (dgAmount grant)) (\<lambda>a.
     case parseCanonicalUint (JStr timestamp) UINT64_MAX of
       None \<Rightarrow> Inl (failC ''INVALID_SCHEDULE'')
     | Some time \<Rightarrow>
         bindE (uintC (gsCliff (dgSchedule grant))) (\<lambda>cliff.
         bindE (uintC (gsEnd (dgSchedule grant))) (\<lambda>last.
         bindE (failIf (cliff \<ge> last \<or> a = 0) (failC ''INVALID_SCHEDULE'')) (\<lambda>_.
         Inr (if time \<le> cliff then 0 else if time \<ge> last then a else a * (time - cliff) div (last - cliff))))))"

section \<open>Snapshots\<close>

definition inventoryAddresses :: "deploymentManifest \<Rightarrow> string list" where
  "inventoryAddresses manifest =
     (let c = manifestConfig manifest in
      sortText (remdups (map srcRecipient (dcAllocations c) @ map dgBeneficiary (dcGrants c) @ map mgAddress (dmGrants manifest))))"

definition validateBlock :: "deploymentBlock \<Rightarrow> js_error + unit" where
  "validateBlock block = failIf (\<not> isDigest (JStr (dbHash block)) \<or> parseCanonicalUint (JStr (dbNumber block)) UINT256_MAX = None
     \<or> parseCanonicalUint (JStr (dbTimestamp block)) UINT64_MAX = None) (failC ''BLOCK_INVALID'')"

definition immutableGrant :: "deploymentManifest \<Rightarrow> custodyGrantState \<Rightarrow> js_error + deploymentGrant" where
  "immutableGrant manifest state =
     (let config = manifestConfig manifest in
      case (List.find (\<lambda>item. dgId item = cgGrantId state) (dcGrants config),
            List.find (\<lambda>item. mgGrantId item = cgGrantId state) (dmGrants manifest)) of
        (Some g, Some deployment) \<Rightarrow>
          if cgAddress state \<noteq> mgAddress deployment \<or> dmToken manifest \<noteq> Some (cgToken state)
            \<or> cgBeneficiary state \<noteq> dgBeneficiary g
            \<or> map_option srcRecipient (List.find (\<lambda>a. srcId a = dgFundingAllocation g) (dcAllocations config)) \<noteq> Some (cgReserve state)
            \<or> map_option dsAddress (List.find (\<lambda>s. dsId s = dgControllerSafe g) (dcCustodySafes config)) \<noteq> Some (cgController state)
            \<or> cgAllocation state \<noteq> dgAmount g \<or> cgStart state \<noteq> gsStart (dgSchedule g) \<or> cgCliff state \<noteq> gsCliff (dgSchedule g)
            \<or> cgEnd state \<noteq> gsEnd (dgSchedule g) \<or> cgKind state \<noteq> dgKind g \<or> cgOriginalPurpose state \<noteq> dgOriginalPurpose g
            \<or> \<not> cgInitialized state
          then Inl (failC ''IMMUTABLE_BINDING'') else Inr g
      | _ \<Rightarrow> Inl (failC ''IMMUTABLE_BINDING''))"

definition verifyGrantFlags :: "deploymentGrant \<Rightarrow> string \<Rightarrow> custodyGrantState \<Rightarrow> js_error + unit" where
  "verifyGrantFlags g timestamp state =
     bindE (uintC (cgLastTransition state)) (\<lambda>last.
     bindE (uintC timestamp) (\<lambda>now.
     failIf (last > now \<or> last > UINT64_MAX \<or> cgCancelled state \<and> dgKind g \<noteq> ''team'') (failC ''GRANT_STATE'')))"

definition verifyGrantState :: "deploymentManifest \<Rightarrow> custodySnapshot \<Rightarrow> custodyGrantState \<Rightarrow> js_error + unit" where
  "verifyGrantState manifest snapshot state =
     bindE (immutableGrant manifest state) (\<lambda>g.
     bindE (uintC (cgAllocation state)) (\<lambda>allocation.
     bindE (uintC (cgReleased state)) (\<lambda>released.
     bindE (uintC (cgFrozenEntitlement state)) (\<lambda>frozen.
     bindE (verifyGrantFlags g (dbTimestamp (csBlock snapshot)) state) (\<lambda>_.
     bindE (uintC (cgAllowance state)) (\<lambda>_.
     bindE (if cgCancelled state then Inr frozen else custodyVested g (dbTimestamp (csBlock snapshot))) (\<lambda>entitlement.
     let refund = if cgCancelled state then allocation - frozen else 0 in
     bindE (failIf (frozen > allocation \<or> released > entitlement \<or> \<not> cgCancelled state \<and> frozen \<noteq> 0) (failC ''GRANT_ACCOUNTING'')) (\<lambda>_.
     bindE (if cgCancelled state
            then bindE (custodyVested g (cgLastTransition state)) (\<lambda>v. failIf (frozen > v) (failC ''GRANT_ACCOUNTING''))
            else Inr ()) (\<lambda>_.
     bindE (failIf (\<not> cgFunded state \<and> (released \<noteq> 0 \<or> cgCancelled state \<or> cgLastTransition state \<noteq> ''0'')) (failC ''GRANT_ACCOUNTING'')) (\<lambda>_.
     bindE (uintC (cgAvailable state)) (\<lambda>available.
     bindE (failIf (available \<noteq> (if cgFunded state then entitlement - released else 0)) (failC ''GRANT_ACCOUNTING'')) (\<lambda>_.
     let remaining = if cgFunded state then allocation - released - refund else 0 in
     case List.find (\<lambda>b. cbAddress b = cgAddress state) (csBalances snapshot) of
       None \<Rightarrow> Inl (failC ''PRINCIPAL_CONSERVATION'')
     | Some balance \<Rightarrow>
         bindE (uintC (cbAmount balance)) (\<lambda>amt.
         bindE (uintC (cgDonations state)) (\<lambda>donations.
         failIf (amt \<noteq> remaining + donations) (failC ''PRINCIPAL_CONSERVATION'')))))))))))))))"

definition verifyCustodySnapshot :: "deploymentManifest \<Rightarrow> custodySnapshot \<Rightarrow> js_error + unit" where
  "verifyCustodySnapshot manifest snapshot =
     (case snd (validateDeployment (dmConfiguration manifest)) of
        None \<Rightarrow> Inl (failC ''CONFIGURATION_INVALID'')
      | Some (config, _) \<Rightarrow>
        bindE (failIf (deMode (dcEnvironment config) = ''mainnet-dry-run'' \<or> dmToken manifest = None
            \<or> csSchema snapshot \<noteq> ''agtmai-custody-snapshot-v1'' \<or> csChainId snapshot \<noteq> deEvmChainId (dcEnvironment config)
            \<or> dmToken manifest \<noteq> Some (csToken snapshot) \<or> csInitialSupply snapshot \<noteq> dcInitialSupply config
            \<or> csTotalSupply snapshot \<noteq> dcInitialSupply config) (failC ''TOKEN_IDENTITY'')) (\<lambda>_.
        bindE (validateBlock (csBlock snapshot)) (\<lambda>_.
        bindE (failIf (inventoryAddresses manifest \<noteq> sortText (map cbAddress (csBalances snapshot))
            \<or> list_ex (\<lambda>b. \<not> isEvmAddress (JStr (cbAddress b))) (csBalances snapshot)) (failC ''INVENTORY_CONSERVATION'')) (\<lambda>_.
        bindE (mapE (\<lambda>b. uintC (cbAmount b)) (csBalances snapshot)) (\<lambda>amounts.
        bindE (failIf (sum_list amounts \<noteq> num (dcInitialSupply config)) (failC ''INVENTORY_CONSERVATION'')) (\<lambda>_.
        bindE (failIf (length (csGrants snapshot) \<noteq> length (dmGrants manifest)
            \<or> setSize (map cgGrantId (csGrants snapshot)) \<noteq> length (csGrants snapshot)) (failC ''GRANT_COVERAGE'')) (\<lambda>_.
        eachE (verifyGrantState manifest snapshot) (csGrants snapshot))))))))"

section \<open>The next action\<close>

definition custodyNextAction :: "deploymentGrant \<Rightarrow> custodyGrantState \<Rightarrow> string \<Rightarrow> bool \<Rightarrow> js_error + string" where
  "custodyNextAction g state timestamp founderRejected =
     bindE (uintC timestamp) (\<lambda>t.
     bindE (uintC (dgAmount g)) (\<lambda>a.
     if \<not> cgFunded state then
       bindE (uintC (gsStart (dgSchedule g))) (\<lambda>start.
       bindE (failIf (t > start) (failC ''FUNDING_DEADLINE_MISSED'')) (\<lambda>_.
       bindE (uintC (cgAllowance state)) (\<lambda>allowance.
       bindE (failIf (allowance > a) (failC ''EXCESS_ALLOWANCE'')) (\<lambda>_.
       Inr (if allowance = a then ''fund'' else ''approve'')))))
     else if dgKind g = ''founder'' then
       (if \<not> founderRejected then Inr ''reject-founder-cancel''
        else bindE (uintC (cgReleased state)) (\<lambda>released.
          if released > 0 then Inr ''complete''
          else bindE (uintC (cgAvailable state)) (\<lambda>available. Inr (if available > 0 then ''release'' else ''wait''))))
     else if cgCancelled state then
       bindE (uintC (cgAvailable state)) (\<lambda>available. Inr (if available > 0 then ''claim-debt'' else ''complete''))
     else
       bindE (custodyVested g timestamp) (\<lambda>vested.
       bindE (uintC (cgReleased state)) (\<lambda>released.
       bindE (failIf (vested \<ge> a) (failC ''POSITIVE_CANCELLATION_WINDOW_MISSED'')) (\<lambda>_.
       Inr (if released = 0 then if vested > 0 then ''release'' else ''wait''
            else if vested > released then ''cancel-team'' else ''wait''))))))"

section \<open>Transitions\<close>

definition findGrant :: "string \<Rightarrow> custodySnapshot \<Rightarrow> custodyGrantState option" where
  "findGrant grantId snapshot = List.find (\<lambda>g. cgGrantId g = grantId) (csGrants snapshot)"

definition bindTransition :: "deploymentManifest \<Rightarrow> custodyTransition
    \<Rightarrow> js_error + custodyGrantState \<times> custodyGrantState \<times> deploymentGrant" where
  "bindTransition manifest t =
     bindE (canonicalCustodyIntent (ctIntent t)) (\<lambda>_.
     bindE (verifyCustodySnapshot manifest (ctBefore t)) (\<lambda>_.
     bindE (verifyCustodySnapshot manifest (ctAfter t)) (\<lambda>_.
     bindE (validateBlock (ctBlock t)) (\<lambda>_.
     let intent = theObj (ctIntent t); environment = dcEnvironment (manifestConfig manifest) in
     case (findGrant (ctGrantId t) (ctBefore t), findGrant (ctGrantId t) (ctAfter t)) of
       (Some before, Some after) \<Rightarrow>
         bindE (failIf (\<not> isDigest (JStr (ctTransactionHash t)) \<or> ctBlock t \<noteq> csBlock (ctAfter t)
             \<or> num (dbNumber (ctBlock t)) \<noteq> num (dbNumber (csBlock (ctBefore t))) + 1
             \<or> num (dbTimestamp (ctBlock t)) < num (dbTimestamp (csBlock (ctBefore t)))
             \<or> getP intent ''operationId'' \<noteq> JStr (ctOperationId t) \<or> getP intent ''operation'' \<noteq> JStr (ctOperation t)
             \<or> getP intent ''configurationSha256'' \<noteq> JStr (dmConfigurationSha256 manifest)
             \<or> getP intent ''chainId'' \<noteq> JStr (deEvmChainId environment)
             \<or> getP intent ''environment'' \<noteq> JStr (deMode environment)) (failC ''TRANSITION_BINDING'')) (\<lambda>_.
         bindE (failIf (list_ex (\<lambda>g. cgGrantId g \<noteq> ctGrantId t \<and>
               map_option (\<lambda>a. a\<lparr>cgAvailable := ''0''\<rparr>) (findGrant (cgGrantId g) (ctAfter t)) \<noteq> Some (g\<lparr>cgAvailable := ''0''\<rparr>))
             (csGrants (ctBefore t))) (failC ''UNRELATED_GRANT_CHANGE'')) (\<lambda>_.
         bindE (failIf (cgDonations before \<noteq> cgDonations after) (failC ''UNATTRIBUTED_DONATION'')) (\<lambda>_.
         bindE (immutableGrant manifest after) (\<lambda>grant.
         Inr (before, after, grant)))))
     | _ \<Rightarrow> Inl (failC ''TRANSITION_BINDING'')))))"

record expectedTransition =
  exState :: custodyGrantState
  exMovement :: "custodyMovement option"
  exFounderRejection :: bool

definition movement :: "string \<Rightarrow> string \<Rightarrow> int \<Rightarrow> custodyMovement" where
  "movement from to amt = \<lparr>cmFrom = from, cmTo = to, cmAmount = decInt amt\<rparr>"

definition expectedFunding :: "custodyTransition \<Rightarrow> deploymentGrant \<Rightarrow> custodyGrantState \<Rightarrow> js_error + expectedTransition" where
  "expectedFunding t g before =
     bindE (uintC (dgAmount g)) (\<lambda>a.
     bindE (custodyVested g (dbTimestamp (ctBlock t))) (\<lambda>vested.
     let intent = theObj (ctIntent t) in
     if ctOperation t = ''approve'' then
       bindE (failIf (cgFunded before \<or> getP intent ''from'' \<noteq> JStr (cgReserve before) \<or> getP intent ''to'' \<noteq> JStr (cgToken before))
         (failC ''APPROVAL_POLICY'')) (\<lambda>_.
       bindE (uintC (cgAllowance before)) (\<lambda>allowance.
       bindE (failIf (allowance > a) (failC ''APPROVAL_POLICY'')) (\<lambda>_.
       bindE (failIf (getP intent ''data'' \<noteq> JStr (''0x095ea7b3'' @ addressWord (cgAddress before) @ padStart 64 (toHex (nat a))))
         (failC ''CALLDATA_MISMATCH'')) (\<lambda>_.
       Inr \<lparr>exState = before\<lparr>cgAllowance := dgAmount g\<rparr>, exMovement = None, exFounderRejection = False\<rparr>))))
     else if ctOperation t = ''fund'' then
       bindE (failIf (cgFunded before \<or> getP intent ''from'' \<noteq> JStr (cgReserve before) \<or> getP intent ''to'' \<noteq> JStr (cgAddress before))
         (failC ''FUNDING_POLICY'')) (\<lambda>_.
       bindE (uintC (cgAllowance before)) (\<lambda>allowance.
       bindE (failIf (allowance \<noteq> a) (failC ''FUNDING_POLICY'')) (\<lambda>_.
       bindE (uintC (dbTimestamp (ctBlock t))) (\<lambda>now.
       bindE (uintC (gsStart (dgSchedule g))) (\<lambda>start.
       bindE (failIf (now > start) (failC ''FUNDING_POLICY'')) (\<lambda>_.
       bindE (failIf (getP intent ''data'' \<noteq> JStr ''0xb60d4288'') (failC ''CALLDATA_MISMATCH'')) (\<lambda>_.
       Inr \<lparr>exState = before\<lparr>cgFunded := True, cgAllowance := ''0'', cgAvailable := decInt vested\<rparr>,
            exMovement = Some (movement (cgReserve before) (cgAddress before) a), exFounderRejection = False\<rparr>)))))))
     else Inl (failC ''UNEXPECTED_OPERATION'')))"

definition expectedRelease :: "custodyTransition \<Rightarrow> deploymentGrant \<Rightarrow> custodyGrantState \<Rightarrow> js_error + expectedTransition" where
  "expectedRelease t g before =
     bindE (custodyVested g (dbTimestamp (ctBlock t))) (\<lambda>vested.
     let intent = theObj (ctIntent t) in
     bindE (failIf (\<not> cgFunded before) (failC ''NOT_FUNDED'')) (\<lambda>_.
     if ctOperation t \<in> {''release'', ''claim-debt''} then
       bindE (if cgCancelled before then uintC (cgFrozenEntitlement before) else Inr vested) (\<lambda>entitlement.
       bindE (uintC (cgReleased before)) (\<lambda>released.
       let amt = entitlement - released in
       bindE (failIf (getP intent ''from'' \<noteq> JStr (cgBeneficiary before) \<or> getP intent ''to'' \<noteq> JStr (cgAddress before) \<or> amt \<le> 0
           \<or> ctOperation t = ''claim-debt'' \<and> \<not> cgCancelled before) (failC ''RELEASE_POLICY'')) (\<lambda>_.
       bindE (failIf (getP intent ''data'' \<noteq> JStr ''0x86d1a69f'') (failC ''CALLDATA_MISMATCH'')) (\<lambda>_.
       Inr \<lparr>exState = before\<lparr>cgReleased := decInt entitlement, cgAvailable := ''0'', cgLastTransition := dbTimestamp (ctBlock t)\<rparr>,
            exMovement = Some (movement (cgAddress before) (cgBeneficiary before) amt), exFounderRejection = False\<rparr>))))
     else Inl (failC ''UNEXPECTED_OPERATION'')))"

definition expectedCancellation :: "custodyTransition \<Rightarrow> deploymentGrant \<Rightarrow> custodyGrantState \<Rightarrow> js_error + expectedTransition" where
  "expectedCancellation t g before =
     bindE (uintC (dgAmount g)) (\<lambda>a.
     bindE (custodyVested g (dbTimestamp (ctBlock t))) (\<lambda>vested.
     let intent = theObj (ctIntent t) in
     bindE (failIf (getP intent ''to'' \<noteq> JStr (cgController before) \<or> getP (objP intent ''safe'') ''to'' \<noteq> JStr (cgAddress before)
         \<or> cgCancelled before) (failC ''CONTROLLER_POLICY'')) (\<lambda>_.
     if ctOperation t = ''reject-founder-cancel'' then
       bindE (failIf (dgKind g \<noteq> ''founder'' \<or> ctSafeResult t \<noteq> Some ''failure'') (failC ''FOUNDER_REJECTION_UNPROVEN'')) (\<lambda>_.
       bindE (uintC (cgReleased before)) (\<lambda>released.
       Inr \<lparr>exState = before\<lparr>cgAvailable := decInt (vested - released)\<rparr>, exMovement = None, exFounderRejection = True\<rparr>))
     else
       bindE (failIf (ctOperation t \<noteq> ''cancel-team'' \<or> dgKind g \<noteq> ''team'') (failC ''POSITIVE_CANCELLATION_REQUIRED'')) (\<lambda>_.
       bindE (uintC (cgReleased before)) (\<lambda>released.
       bindE (failIf (released = 0 \<or> vested \<le> released \<or> vested \<ge> a) (failC ''POSITIVE_CANCELLATION_REQUIRED'')) (\<lambda>_.
       Inr \<lparr>exState = before\<lparr>cgCancelled := True, cgFrozenEntitlement := decInt vested, cgLastTransition := dbTimestamp (ctBlock t),
              cgAvailable := decInt (vested - released)\<rparr>,
            exMovement = Some (movement (cgAddress before) (cgReserve before) (a - vested)), exFounderRejection = False\<rparr>))))))"

definition expectedOf :: "custodyTransition \<Rightarrow> deploymentGrant \<Rightarrow> custodyGrantState \<Rightarrow> js_error + expectedTransition" where
  "expectedOf t g before =
     (if ctOperation t = ''approve'' \<or> ctOperation t = ''fund'' then expectedFunding t g before
      else bindE (failIf (\<not> cgFunded before) (failC ''NOT_FUNDED'')) (\<lambda>_.
        if ctOperation t = ''release'' \<or> ctOperation t = ''claim-debt'' then expectedRelease t g before
        else expectedCancellation t g before))"

definition checkBalance :: "custodyTransition \<Rightarrow> custodyMovement option \<Rightarrow> custodyBalance \<Rightarrow> js_error + unit" where
  "checkBalance t m b =
     bindE (case m of None \<Rightarrow> Inr 0
            | Some mv \<Rightarrow> bindE (if cbAddress b = cmTo mv then uintC (cmAmount mv) else Inr 0) (\<lambda>received.
                bindE (if cbAddress b = cmFrom mv then uintC (cmAmount mv) else Inr 0) (\<lambda>sent. Inr (received - sent)))) (\<lambda>delta.
     case List.find (\<lambda>a. cbAddress a = cbAddress b) (csBalances (ctAfter t)) of
       None \<Rightarrow> Inl (Err ''TypeError'')
     | Some a \<Rightarrow>
         bindE (uintC (cbAmount a)) (\<lambda>new.
         bindE (uintC (cbAmount b)) (\<lambda>old.
         failIf (new - old \<noteq> delta) (failC ''TOKEN_MOVEMENT_MISMATCH''))))"

definition verifyCustodyTransition :: "deploymentManifest \<Rightarrow> custodyTransition \<Rightarrow> js_error + custodyTransitionResult" where
  "verifyCustodyTransition manifest t =
     bindE (bindTransition manifest t) (\<lambda>(before, after, grant).
     bindE (expectedOf t grant before) (\<lambda>expected.
     let safe = getP (theObj (ctIntent t)) ''safe'' in
     bindE (failIf (ctReceiptStatus t \<noteq> 1
         \<or> safe \<noteq> JNull \<and> ctSafeResult t \<noteq> Some (if exFounderRejection expected then ''failure'' else ''success'')
         \<or> safe = JNull \<and> ctSafeResult t \<noteq> None \<or> after \<noteq> exState expected
         \<or> ctMovements t \<noteq> (case exMovement expected of None \<Rightarrow> [] | Some m \<Rightarrow> [m])) (failC ''TRANSITION_EFFECT_MISMATCH'')) (\<lambda>_.
     bindE (eachE (checkBalance t (exMovement expected)) (csBalances (ctBefore t))) (\<lambda>_.
     bindE (if cgCancelled after then bindE (uintC (cgAllocation after)) (\<lambda>al. bindE (uintC (cgFrozenEntitlement after)) (\<lambda>fr. Inr (al - fr)))
            else Inr 0) (\<lambda>refunded.
     bindE (uintC (ctGasUsed t)) (\<lambda>gas.
     bindE (failIf (gas = 0) (failC ''RECEIPT_GAS_INVALID'')) (\<lambda>_.
     bindE (if cgFunded after then bindE (uintC (cgAllocation after)) (\<lambda>al. bindE (uintC (cgReleased after)) (\<lambda>rl. Inr (al - rl - refunded)))
            else Inr 0) (\<lambda>remaining.
     bindE (uintC (ctEffectiveGasPrice t)) (\<lambda>price.
     Inr \<lparr>crOperationId = ctOperationId t, crTransactionHash = ctTransactionHash t, crGrantId = ctGrantId t,
          crOperation = ctOperation t, crTimestamp = dbTimestamp (ctBlock t), crReleased = cgReleased after,
          crRefunded = decInt refunded, crVestedDebt = cgAvailable after, crRemainingPrincipal = decInt remaining,
          crDonations = cgDonations after, crFeeWei = decInt (gas * price), crFounderRejection = exFounderRejection expected\<rparr>)))))))))"

end
