(* ===== verification/DeploymentProps.thy ===== *)
theory DeploymentProps
  imports Deployment SolanaMint
begin

text \<open>
  What an accepted deployment configuration guarantees: it is characterised, it is solvent, its
  bridge limiters fit each other, and its test of Solana addresses is the decoder of the mint.
\<close>

section \<open>Solvency\<close>

lemma sum_by_class:
  assumes "distinct (map k as)" "\<forall>g\<in>set gs. c g \<in> k ` set as"
  shows "sum_list (map (\<lambda>a. sum_list (map f (filter (\<lambda>g. c g = k a) gs))) as) = (sum_list (map f gs) :: int)"
  using assms(2)
proof (induction gs)
  case Nil
  then show ?case by (induction as) simp_all
next
  case (Cons g gs)
  have one: "sum_list (map (\<lambda>a. if c g = k a then f g else 0) xs) = (if c g \<in> k ` set xs then f g else 0)"
    if "distinct (map k xs)" for xs
    using that by (induction xs) auto
  have "sum_list (map (\<lambda>a. sum_list (map f (filter (\<lambda>g. c g = k a) (g # gs)))) as)
      = sum_list (map (\<lambda>a. (if c g = k a then f g else 0) + sum_list (map f (filter (\<lambda>g. c g = k a) gs))) as)"
    by (intro arg_cong[of _ _ sum_list] map_cong) auto
  also have "\<dots> = f g + sum_list (map f gs)"
    using Cons one[OF assms(1)] by (simp add: sum_list_addf)
  finally show ?case by simp
qed

lemma sound_solvent:
  assumes "deploymentSound config"
  shows "amountSumOf dgAmount (dcGrants config) \<le> num (dcInitialSupply config)"
proof -
  from assms obtain total where s: "0 < total" "dcInitialSupply config = decInt total"
      "allocationsOk Deployment total (dcAllocations config)" and r: "referencesSound config"
    by (auto simp: deploymentSound_def)
  have "amountSumOf dgAmount (dcGrants config)
      = sum_list (map (\<lambda>a. amountSumOf dgAmount (fundedBy config a)) (dcAllocations config))"
    using r sum_by_class[of srcId "dcAllocations config" "dcGrants config" dgFundingAllocation "\<lambda>g. num (dgAmount g)"]
    by (simp add: referencesSound_def amountSumOf_def fundedBy_def)
  also have "\<dots> \<le> sum_list (map (\<lambda>a. num (srcAmount a)) (dcAllocations config))"
    using r by (intro sum_list_mono) (simp add: referencesSound_def)
  also have "\<dots> = num (dcInitialSupply config)"
    using s by (simp add: allocationsOk_def amountOf_def[abs_def] num_def)
  finally show ?thesis .
qed

section \<open>Limiters\<close>

text \<open>The specification of a limiter and of the flow between two.\<close>

definition limiterFields :: "jsval \<Rightarrow> bool \<Rightarrow> int \<Rightarrow> int \<Rightarrow> bool" where
  "limiterFields v enabled capacity rate \<longleftrightarrow>
     getP (theObj v) ''enabled'' = JBool enabled
   \<and> getP (theObj v) ''capacity'' = JStr (decInt capacity) \<and> getP (theObj v) ''rate'' = JStr (decInt rate)"

definition limiterSound :: "bool \<Rightarrow> int \<Rightarrow> jsval \<Rightarrow> bool" where
  "limiterSound production mx v \<longleftrightarrow> (\<exists>enabled capacity rate. limiterFields v enabled capacity rate
     \<and> 0 \<le> rate \<and> rate \<le> capacity \<and> capacity \<le> mx
     \<and> (enabled \<or> capacity = 0 \<and> \<not> production) \<and> (production \<and> 0 < capacity \<longrightarrow> 0 < rate))"

definition enabledLimiter :: "jsval \<Rightarrow> int \<Rightarrow> int \<Rightarrow> bool" where
  "enabledLimiter v capacity rate \<longleftrightarrow> limiterFields v True capacity rate \<and> 0 \<le> capacity \<and> 0 \<le> rate"

definition flowFits :: "jsval \<Rightarrow> jsval \<Rightarrow> bool" where
  "flowFits outbound inbound \<longleftrightarrow> (\<forall>oc ro ic ri. enabledLimiter outbound oc ro \<and> enabledLimiter inbound ic ri
     \<longrightarrow> oc \<le> ic \<and> ro \<le> ri)"

lemma uint_value:
  assumes "mx \<le> UINT256_MAX"
  shows "parseCanonicalUint v mx = Some n \<longleftrightarrow> 0 \<le> n \<and> n \<le> mx \<and> v = JStr (decInt n)"
  using parseCanonicalUint_Some_iff[OF assms, of _ n] parseCanonicalUint_string[of v mx n] by (cases v) auto

lemma rateD_clean:
  assumes "fst (rateD production v ptr mx) = []" "mx \<le> UINT256_MAX"
  shows "limiterSound production mx v"
    and "snd (rateD production v ptr mx) = Some \<lparr>rlCapacity = c, rlRate = r\<rparr> \<longleftrightarrow> enabledLimiter v c r"
proof -
  obtain d o' where obj: "objectD v ptr [''enabled'', ''capacity'', ''rate''] [] = (d, o')" by fastforce
  obtain dc capacity where cap: "uintD (getP o' ''capacity'') (ptr @ ''/capacity'') mx False = (dc, capacity)" by fastforce
  obtain dr rate where rat: "uintD (getP o' ''rate'') (ptr @ ''/rate'') mx False = (dr, rate)" by fastforce
  let ?e = "getP o' ''enabled''"
  note unfolded = assms(1)[unfolded rateD_def obj cap rat Let_def prod.case]
  from unfolded have clean: "d = []" "dc = []" "dr = []" and e: "?e = JBool True \<or> ?e = JBool False"
      and p: "\<not> (production \<and> ?e = JBool False)"
    by (auto simp: oneOfD_def split: option.splits if_splits)
  from clean(1) obj obtain s where v: "v = JObj s o'"
    using objectD_clean[of v ptr "[''enabled'', ''capacity'', ''rate'']" "[]"] objectD_value[of v _ ptr "[''enabled'', ''capacity'', ''rate'']" "[]"]
    by auto
  obtain cv where c: "capacity = Some cv" "parseCanonicalUint (getP o' ''capacity'') mx = Some cv"
    using uintD_clean[of "getP o' ''capacity''" "ptr @ ''/capacity''" mx False] unfolding cap using clean(2) by auto
  obtain rv where r: "rate = Some rv" "parseCanonicalUint (getP o' ''rate'') mx = Some rv"
    using uintD_clean[of "getP o' ''rate''" "ptr @ ''/rate''" mx False] unfolding rat using clean(3) by auto
  have texts: "0 \<le> cv" "cv \<le> mx" "getP o' ''capacity'' = JStr (decInt cv)" "0 \<le> rv" "getP o' ''rate'' = JStr (decInt rv)"
    using c(2) r(2) by (simp_all add: uint_value[OF assms(2)])
  from unfolded c r e have rules: "?e = JBool False \<longrightarrow> cv = 0 \<and> rv = 0" "?e = JBool True \<longrightarrow> rv \<le> cv"
      "production \<and> ?e = JBool True \<and> cv > 0 \<longrightarrow> rv \<noteq> 0"
    by (auto split: if_splits)
  have fields: "limiterFields v (?e = JBool True) cv rv"
    unfolding v limiterFields_def theObj.simps texts using e by auto
  have bound: "0 \<le> rv \<and> rv \<le> cv \<and> cv \<le> mx" using texts(1,2,4) rules(1,2) e by auto
  have flags: "(?e = JBool True \<or> cv = 0 \<and> \<not> production) \<and> (production \<and> 0 < cv \<longrightarrow> 0 < rv)"
    using rules e p texts(4) by auto
  show "limiterSound production mx v"
    unfolding limiterSound_def using fields bound flags by blast
  have "snd (rateD production v ptr mx) = (if ?e = JBool True then Some \<lparr>rlCapacity = cv, rlRate = rv\<rparr> else None)"
    unfolding rateD_def obj cap rat Let_def prod.case c r using e rules by auto
  then show "snd (rateD production v ptr mx) = Some \<lparr>rlCapacity = c, rlRate = r\<rparr> \<longleftrightarrow> enabledLimiter v c r"
    unfolding v enabledLimiter_def limiterFields_def theObj.simps texts jsval.inject decInt_inj
    using texts(1,4) by (cases "?e = JBool True") auto
qed

lemma compatibleD_clean:
  "compatibleD outbound inbound ptr = [] \<longleftrightarrow>
     (\<forall>oc ro ic ri. outbound = Some \<lparr>rlCapacity = oc, rlRate = ro\<rparr> \<and> inbound = Some \<lparr>rlCapacity = ic, rlRate = ri\<rparr>
        \<longrightarrow> oc \<le> ic \<and> ro \<le> ri)"
proof (cases "outbound = None \<or> inbound = None")
  case False
  then obtain oc ro ic ri where "outbound = Some \<lparr>rlCapacity = oc, rlRate = ro\<rparr>" "inbound = Some \<lparr>rlCapacity = ic, rlRate = ri\<rparr>"
    by (metis not_None_eq rateLimit.cases)
  then show ?thesis by (auto simp: compatibleD_def)
qed (auto simp: compatibleD_def split: option.splits)

definition bridgeSide :: "jsval \<Rightarrow> string \<Rightarrow> string \<Rightarrow> jsval" where
  "bridgeSide input side key = getP (theObj (getP (theObj input) side)) key"

definition limitersSound :: "bool \<Rightarrow> jsval \<Rightarrow> bool" where
  "limitersSound production input \<longleftrightarrow>
     limiterSound production UINT128_MAX (bridgeSide input ''ethereum'' ''inbound'')
   \<and> limiterSound production UINT128_MAX (bridgeSide input ''ethereum'' ''outbound'')
   \<and> limiterSound production UINT64_MAX (bridgeSide input ''solana'' ''inbound'')
   \<and> limiterSound production UINT64_MAX (bridgeSide input ''solana'' ''outbound'')
   \<and> flowFits (bridgeSide input ''ethereum'' ''outbound'') (bridgeSide input ''solana'' ''inbound'')
   \<and> flowFits (bridgeSide input ''solana'' ''outbound'') (bridgeSide input ''ethereum'' ''inbound'')"

lemma objectD_snd: "fst (objectD v ptr keys optional) = [] \<Longrightarrow> snd (objectD v ptr keys optional) = theObj v"
  using objectD_clean[of v ptr keys optional] by (auto simp: objectD_value)

lemma uint_widths: "UINT128_MAX \<le> UINT256_MAX" "UINT64_MAX \<le> UINT256_MAX"
  by (simp_all add: UINT128_MAX_def UINT256_MAX_def UINT64_MAX_def)

lemma bridge_sound:
  assumes "validateBridge input production = []" "input \<noteq> JNull"
  shows "limitersSound production input"
proof -
  let ?b = "objectD input ''/bridge'' [''protocol'', ''ethereum'', ''solana''] []"
  let ?e = "objectD (getP (snd ?b) ''ethereum'') ''/bridge/ethereum'' EVM_KEYS []"
  let ?s = "objectD (getP (snd ?b) ''solana'') ''/bridge/solana'' SOLANA_KEYS []"
  let ?ei = "rateD production (getP (snd ?e) ''inbound'') ''/bridge/ethereum/inbound'' UINT128_MAX"
  let ?eo = "rateD production (getP (snd ?e) ''outbound'') ''/bridge/ethereum/outbound'' UINT128_MAX"
  let ?si = "rateD production (getP (snd ?s) ''inbound'') ''/bridge/solana/inbound'' UINT64_MAX"
  let ?so = "rateD production (getP (snd ?s) ''outbound'') ''/bridge/solana/outbound'' UINT64_MAX"
  from assms have clean: "fst ?b = []" "fst ?e = []" "fst ?s = []" "fst ?ei = []" "fst ?eo = []" "fst ?si = []" "fst ?so = []"
      "compatibleD (snd ?eo) (snd ?si) ''/bridge/ethereum/outbound'' = []" "compatibleD (snd ?so) (snd ?ei) ''/bridge/solana/outbound'' = []"
    by (simp_all only: validateBridge_def Let_def split_def if_False append_is_Nil_conv)
  have b: "snd ?b = theObj input" by (rule objectD_snd[OF clean(1)])
  have e: "snd ?e = theObj (getP (theObj input) ''ethereum'')" using objectD_snd[OF clean(2)] b by simp
  have s: "snd ?s = theObj (getP (theObj input) ''solana'')" using objectD_snd[OF clean(3)] b by simp
  note sides = e[unfolded b] s[unfolded b]
  note rates = clean(4-7)[unfolded b sides]
  note flows = clean(8,9)[unfolded b sides compatibleD_clean]
  show ?thesis
    unfolding limitersSound_def bridgeSide_def flowFits_def
    using rateD_clean[OF rates(1) uint_widths(1)] rateD_clean[OF rates(2) uint_widths(1)]
      rateD_clean[OF rates(3) uint_widths(2)] rateD_clean[OF rates(4) uint_widths(2)] flows
    by simp
qed

section \<open>A configuration that is accepted\<close>

definition sampleEvm :: "char \<Rightarrow> jsval" where
  "sampleEvm c = JStr (''0x'' @ replicate 40 c)"

definition sampleSolana :: jsval where
  "sampleSolana = JStr (replicate 32 (CHR ''1''))"

definition sampleLimiter :: "string \<Rightarrow> string \<Rightarrow> jsval" where
  "sampleLimiter capacity rate = JObj Plain [(''enabled'', JBool True), (''capacity'', JStr capacity), (''rate'', JStr rate)]"

definition sampleBridge :: jsval where
  "sampleBridge = JObj Plain
    [(''protocol'', JObj Plain [(''reference'', JStr ''ccip/v1''), (''snapshotSha256'', JStr (''0x'' @ replicate 64 (CHR ''a''))),
       (''networkDataSha256'', JStr (''0x'' @ replicate 64 (CHR ''b'')))]),
     (''ethereum'', JObj Plain (
       [(''token'', JNull), (''pool'', JNull), (''rebalancer'', JNull)]
       @ map (\<lambda>k. (k, sampleEvm (CHR ''9''))) [''router'', ''rmn'', ''registry'', ''registryModule'', ''registryAdministrator'',
           ''poolOwner'', ''rateLimitAdministrator'']
       @ [(''inbound'', sampleLimiter ''20'' ''2''), (''outbound'', sampleLimiter ''10'' ''1'')])),
     (''solana'', JObj Plain (
       map (\<lambda>k. (k, JNull)) [''mint'', ''pool'', ''poolSigner'', ''poolTokenAccount'', ''lookupTable'', ''upgradeAuthority'']
       @ [(''tokenProgram'', JStr SPL_TOKEN_PROGRAM)]
       @ map (\<lambda>k. (k, sampleSolana)) [''router'', ''offRamp'', ''rmn'', ''feeQuoter'', ''burnMintProgram'', ''poolAdministrator'',
           ''registryAdministrator'']
       @ [(''inbound'', sampleLimiter ''10'' ''1''), (''outbound'', sampleLimiter ''15'' ''2'')]))]"

definition sampleGrant :: "string \<Rightarrow> char \<Rightarrow> string \<Rightarrow> jsval" where
  "sampleGrant kind beneficiary amt = JObj Plain [(''id'', JStr kind), (''kind'', JStr kind), (''beneficiary'', sampleEvm beneficiary),
     (''fundingAllocation'', JStr ''reserve''), (''controllerSafe'', JStr ''safe''), (''amountBaseUnits'', JStr amt),
     (''originalPurpose'', JStr (''0x'' @ replicate 64 (CHR ''c''))),
     (''schedule'', JObj Plain [(''profile'', JStr ''accelerated-test''), (''start'', JStr ''50''), (''cliff'', JStr ''60''), (''end'', JStr ''70'')])]"

definition sampleDeployment :: jsval where
  "sampleDeployment = JObj Plain
    [(''schemaVersion'', JNum 1), (''deploymentId'', JStr ''test''), (''status'', JStr ''test-only''),
     (''environment'', JObj Plain [(''mode'', JStr ''owned-testnet''), (''evmChainId'', JStr ''11155111''),
        (''solanaGenesisHash'', sampleSolana), (''evmSelector'', JStr ''1''), (''solanaSelector'', JStr ''2'')]),
     (''token'', JObj Plain [(''name'', JStr ''Agent Teams AI''), (''symbol'', JStr ''AGTMAI''), (''decimals'', JNum 9),
        (''initialSupplyBaseUnits'', JStr ''90''), (''initialCCIPAdmin'', sampleEvm (CHR ''8''))]),
     (''allocations'', JArr Plain [JObj Plain [(''id'', JStr ''reserve''), (''recipient'', sampleEvm (CHR ''1'')), (''amountBaseUnits'', JStr ''90'')]]),
     (''grants'', JArr Plain [sampleGrant ''team'' (CHR ''6'') ''40'', sampleGrant ''founder'' (CHR ''7'') ''20'']),
     (''custodySafes'', JArr Plain [JObj Plain [(''id'', JStr ''safe''), (''address'', sampleEvm (CHR ''2'')),
        (''owners'', JArr Plain [sampleEvm (CHR ''3''), sampleEvm (CHR ''4''), sampleEvm (CHR ''5'')]), (''threshold'', JNum 2),
        (''beneficialControl'', JStr ''solo-founder''), (''disclosure'', JStr ''test owners'')]]),
     (''roleAliases'', JArr Plain []),
     (''bridge'', sampleBridge),
     (''testScenario'', JObj Plain [(''label'', JStr ''test-only''), (''transfers'', JArr Plain [])]),
     (''policy'', JObj Plain (map (\<lambda>(k, s). (k, JStr s))
        [(''tokenExpenditureCeilingBaseUnits'', ''60''), (''evmMaxFeePerGasWei'', ''7''), (''evmMaxPriorityFeePerGasWei'', ''0''),
         (''evmMaxGasPerTransaction'', ''9''), (''evmMaxTotalFeeWei'', ''63''), (''solanaMaxFeeLamports'', ''5''),
         (''solanaMaxTotalFeeLamports'', ''10''), (''observationMaxAgeSeconds'', ''30''), (''executionDeadline'', ''80''),
         (''fundingDeadline'', ''45''), (''fundingLeadSeconds'', ''5''), (''estimateValiditySeconds'', ''20'')]
        @ [(''gasBufferBps'', JNum 100)]))]"

text \<open>The address of the token program is too large a number for unary evaluation.\<close>

lemma token_program_address: "isSolanaAddress (JStr SPL_TOKEN_PROGRAM)"
  by (simp add: isSolanaAddress_def SPL_TOKEN_PROGRAM_def base58Alphabet_def byteCount.simps)

lemma sample_limiters:
  "rateD False (sampleLimiter ''20'' ''2'') p UINT128_MAX = ([], Some \<lparr>rlCapacity = 20, rlRate = 2\<rparr>)"
  "rateD False (sampleLimiter ''10'' ''1'') p UINT128_MAX = ([], Some \<lparr>rlCapacity = 10, rlRate = 1\<rparr>)"
  "rateD False (sampleLimiter ''10'' ''1'') p UINT64_MAX = ([], Some \<lparr>rlCapacity = 10, rlRate = 1\<rparr>)"
  "rateD False (sampleLimiter ''15'' ''2'') p UINT64_MAX = ([], Some \<lparr>rlCapacity = 15, rlRate = 2\<rparr>)"
  by (simp_all add: rateD_def sampleLimiter_def objectD_def failWhen_def uintD_def oneOfD_def js_simps parseCanonicalUint.simps
      canonicalDec_def undec_def digitVal_def isDigit_def UINT128_MAX_def UINT64_MAX_def Let_def)

lemma sample_addresses: "isSolanaAddress sampleSolana" "isEvmAddress (sampleEvm (CHR ''9''))"
  by code_simp+

lemma sample_bridge: "validateBridge sampleBridge False = []"
proof -
  note eval = objectD_def failWhen_def js_simps oneOfD_def evmD_def solanaD_def
  let ?b = "theObj sampleBridge"
  have b: "objectD sampleBridge ''/bridge'' [''protocol'', ''ethereum'', ''solana''] [] = ([], ?b)"
    by (simp add: sampleBridge_def eval)
  have p: "objectD (getP ?b ''protocol'') ''/bridge/protocol'' [''reference'', ''snapshotSha256'', ''networkDataSha256''] []
      = ([], theObj (getP ?b ''protocol''))"
    by (simp add: sampleBridge_def eval)
  have e: "objectD (getP ?b ''ethereum'') ''/bridge/ethereum'' EVM_KEYS [] = ([], theObj (getP ?b ''ethereum''))"
    by (simp add: sampleBridge_def eval EVM_KEYS_def)
  have s: "objectD (getP ?b ''solana'') ''/bridge/solana'' SOLANA_KEYS [] = ([], theObj (getP ?b ''solana''))"
    by (simp add: sampleBridge_def eval SOLANA_KEYS_def)
  have rates: "getP (theObj (getP ?b ''ethereum'')) ''inbound'' = sampleLimiter ''20'' ''2''"
      "getP (theObj (getP ?b ''ethereum'')) ''outbound'' = sampleLimiter ''10'' ''1''"
      "getP (theObj (getP ?b ''solana'')) ''inbound'' = sampleLimiter ''10'' ''1''"
      "getP (theObj (getP ?b ''solana'')) ''outbound'' = sampleLimiter ''15'' ''2''"
    by (simp_all add: sampleBridge_def js_simps)
  have pin: "getP (theObj (getP ?b ''protocol'')) ''reference'' = JStr ''ccip/v1''"
      "isDigest (getP (theObj (getP ?b ''protocol'')) ''snapshotSha256'')"
      "isDigest (getP (theObj (getP ?b ''protocol'')) ''networkDataSha256'')"
    by (simp_all add: sampleBridge_def js_simps isDigest_def matchesHex_def isHexLower_def list_all_iff)
  have ref: "isReference ''ccip/v1''" "\<not> includesText ''ccip/v1'' ''..''" by code_simp+
  have evm: "concat (map (\<lambda>k. evmD (getP (theObj (getP ?b ''ethereum'')) k) (''/bridge/ethereum/'' @ k) (k \<in> set [''token'', ''pool'', ''rebalancer'']))
             (filter (\<lambda>k. k \<noteq> ''inbound'' \<and> k \<noteq> ''outbound'') EVM_KEYS)) = []"
    using sample_addresses by (simp add: sampleBridge_def EVM_KEYS_def eval)
  have sol: "concat (map (\<lambda>k. solanaD (getP (theObj (getP ?b ''solana'')) k) (''/bridge/solana/'' @ k)
               (k \<in> set [''mint'', ''pool'', ''poolSigner'', ''poolTokenAccount'', ''lookupTable'', ''upgradeAuthority'']))
             (filter (\<lambda>k. k \<noteq> ''inbound'' \<and> k \<noteq> ''outbound'') SOLANA_KEYS)) = []"
    using sample_addresses token_program_address by (simp add: sampleBridge_def SOLANA_KEYS_def eval)
  have tok: "getP (theObj (getP ?b ''solana'')) ''tokenProgram'' = JStr ''TokenkegQfeZyiNwAJbNbGKPFXCWuBvf9Ss623VQ5DA''"
    by (simp add: sampleBridge_def js_simps SPL_TOKEN_PROGRAM_def)
  have n: "sampleBridge \<noteq> JNull" by (simp add: sampleBridge_def)
  show ?thesis
    unfolding validateBridge_def b p e s Let_def prod.case rates sample_limiters evm sol tok oneOfD_def
    using n pin ref by (simp add: compatibleD_def)
qed

lemma sample_parts:
  "fst (validateHeader sampleDeployment) = []"
  "validateAllocations (getP (theObj sampleDeployment) ''allocations'') = []"
  "validateSafes (getP (theObj sampleDeployment) ''custodySafes'') = []"
  "validateGrants (getP (theObj sampleDeployment) ''grants'') False = []"
  "validateAliases (getP (theObj sampleDeployment) ''roleAliases'') = []"
  "validatePolicy (getP (theObj sampleDeployment) ''policy'') = []"
  "validateTestScenario (getP (theObj sampleDeployment) ''testScenario'') False = []"
  by code_simp+

lemma sample_root:
  "snd (validateHeader sampleDeployment) = (theObj sampleDeployment, False)"
  by (simp add: validateHeader_def Let_def sampleDeployment_def objectD_def js_simps)

lemma sample_shape: "shapeDiagnostics sampleDeployment = []"
proof -
  obtain d r p where h: "validateHeader sampleDeployment = (d, r, p)" by (cases "validateHeader sampleDeployment") auto
  have "d = []" "r = theObj sampleDeployment" "p = False"
    using sample_parts(1) sample_root unfolding h by simp_all
  moreover have "getP (theObj sampleDeployment) ''bridge'' = sampleBridge"
    by (simp add: sampleDeployment_def js_simps)
  ultimately show ?thesis
    unfolding shapeDiagnostics_def h Let_def prod.case by (simp add: sample_parts sample_bridge)
qed

lemma sample_rest:
  "validateReferences (configOf (theObj sampleDeployment)) = []"
  "validateOperationalPolicy (configOf (theObj sampleDeployment)) = []"
  "validateRoleAliases (configOf (theObj sampleDeployment)) = []"
  by code_simp+

lemma sample_accepted:
  "\<exists>config allocations. validateDeployment sampleDeployment = ([], Some (config, allocations))"
proof -
  let ?c = "configOf (theObj sampleDeployment)"
  have n: "fst (normalizeAllocationSet (dcInitialSupply ?c) (Some (dcAllocations ?c)) Deployment) = []"
      "snd (normalizeAllocationSet (dcInitialSupply ?c) (Some (dcAllocations ?c)) Deployment) \<noteq> None"
    by code_simp+
  then obtain out where "normalizeAllocationSet (dcInitialSupply ?c) (Some (dcAllocations ?c)) Deployment = ([], Some out)"
    by (metis not_None_eq prod.collapse)
  then show ?thesis by (simp add: validateDeployment_def Let_def sample_shape sample_rest)
qed

section \<open>Properties\<close>

lemma insertBy_lessFirst: "f x \<notin> f ` set ys \<Longrightarrow> insertBy (lessFirst f) x ys = insertBy (compareKey f) x ys"
  by (induction ys) (auto simp: lessFirst_def compareKey_def compareText_def)

lemma toSorted_lessFirst: "distinct (map f xs) \<Longrightarrow> toSorted (lessFirst f) xs = toSorted (compareKey f) xs"
  by (induction xs) (simp_all add: insertBy_lessFirst)

lemma amountSumOf_perm: "mset xs = mset ys \<Longrightarrow> amountSumOf f xs = amountSumOf f ys"
  unfolding amountSumOf_def by (rule sum_list_perm)

text \<open>
  C38. The validation accepts a configuration exactly when its shape has no diagnostic and it is
  sound: allocations that add up to the supply, distinct names, references that resolve, grants
  within their reserves, deadlines, fees and expenditure within the policy, and every address with
  several roles approved by one alias of exactly those roles. It returns the normalised
  configuration and the allocations in the order of their ids.
\<close>

theorem validateDeployment_exact:
  "validateDeployment input = (ds, Some (config, allocations)) \<longleftrightarrow>
     ds = [] \<and> shapeDiagnostics input = [] \<and> deploymentSound (configOf (theObj input))
   \<and> allocations = toSorted (compareKey idBytes32) (map normalizedOf (dcAllocations (configOf (theObj input))))
   \<and> config = normalizedConfig (configOf (theObj input)) allocations"
  by (rule validateDeployment_Some)

text \<open>
  C15. An accepted deployment is solvent: all its grants together are at most the initial supply,
  which the allocations add up to exactly, and its grants are in the order of their distinct ids.
\<close>

theorem deployment_solvent:
  assumes "validateDeployment input = ([], Some (config, allocations))"
  shows "amountSumOf dgAmount (dcGrants config) \<le> num (dcInitialSupply config)
    \<and> amountSumOf normAmount allocations = num (dcInitialSupply config)
    \<and> sorted (map dgId (dcGrants config)) \<and> distinct (map dgId (dcGrants config))"
proof -
  let ?c = "configOf (theObj input)"
  from assms have sound: "deploymentSound ?c"
    and a: "allocations = toSorted (compareKey idBytes32) (map normalizedOf (dcAllocations ?c))"
    and c: "config = normalizedConfig ?c allocations"
    unfolding validateDeployment_Some by blast+
  from sound have d: "distinct (map dgId (dcGrants ?c))" by (simp add: deploymentSound_def referencesSound_def)
  have g: "dcGrants config = toSorted (compareKey dgId) (dcGrants ?c)" "dcInitialSupply config = dcInitialSupply ?c"
    by (simp_all add: c normalizedConfig_def toSorted_lessFirst[OF d])
  have "amountSumOf dgAmount (dcGrants config) = amountSumOf dgAmount (dcGrants ?c)"
    unfolding g by (rule amountSumOf_perm) simp
  moreover have "amountSumOf normAmount allocations = num (dcInitialSupply ?c)"
  proof -
    have "amountSumOf normAmount allocations = amountSumOf normAmount (map normalizedOf (dcAllocations ?c))"
      unfolding a by (rule amountSumOf_perm) simp
    also have "\<dots> = sum_list (map amountOf (dcAllocations ?c))"
      by (simp add: amountSumOf_def comp_def normalizedOf_def amountOf_def[abs_def] num_def)
    also have "\<dots> = num (dcInitialSupply ?c)"
      using sound by (auto simp: deploymentSound_def allocationsOk_def num_def)
    finally show ?thesis .
  qed
  moreover have "map dgId (dcGrants config) = sortText (map dgId (dcGrants ?c))"
    unfolding g by (rule map_toSorted_compareKey)
  ultimately show ?thesis using sound_solvent[OF sound] g(2) d by (simp add: sorted_sortText)
qed

theorem deployment_solvent_witness:
  "\<exists>config allocations. validateDeployment sampleDeployment = ([], Some (config, allocations))
    \<and> amountSumOf dgAmount (dcGrants config) \<le> num (dcInitialSupply config)"
proof -
  obtain config allocations where v: "validateDeployment sampleDeployment = ([], Some (config, allocations))"
    using sample_accepted by blast
  from deployment_solvent[OF this] show ?thesis using v by blast
qed

text \<open>
  C39. The limiters of an accepted bridge: each is a rate within a capacity within its chain's
  width, in production enabled and never stopped by a zero rate, and what one chain lets out at
  once or per second the other lets in.
\<close>

theorem bridge_limiters_sound:
  assumes "validateBridge input production = []" "input \<noteq> JNull"
  shows "limitersSound production input"
  using assms by (rule bridge_sound)

theorem bridge_limiters_sound_witness:
  "limitersSound False sampleBridge"
  by (rule bridge_limiters_sound[OF sample_bridge]) (simp add: sampleBridge_def)

text \<open>
  The address test of the configuration and the decoder of the mint, written apart, agree: a
  text is a Solana address exactly when it decodes to a public key.
\<close>

lemma isSolanaAddress_decodes:
  "isSolanaAddress (JStr s) \<longleftrightarrow> solanaPublicKeyBytes s \<noteq> Inl mintErr"
proof -
  have "length (bigEndian 0) = 0" by (simp add: bigEndian.simps[of 0])
  then show ?thesis
    by (auto simp: isSolanaAddress_def solanaPublicKeyBytes_def Let_def byteCount_bigEndian split: option.splits)
qed

end
