(* ===== verification/CustodyVault.thy ===== *)
theory CustodyVault
  imports Custody DeploymentProps
begin

text \<open>
  What the custody checks guarantee: the vesting curve, conservation in every accepted snapshot, and
  that an accepted transition is a step of an abstract vault.
\<close>

section \<open>The vesting curve\<close>

lemma uintC_Inr: "uintC v = Inr n \<longleftrightarrow> 0 \<le> n \<and> n \<le> UINT256_MAX \<and> v = decInt n"
  using parseCanonicalUint_Some_iff[of UINT256_MAX v n]
  by (cases "parseCanonicalUint (JStr v) UINT256_MAX") (auto simp: uintC_def)

lemma uintC_num: "uintC v = Inr n \<Longrightarrow> num v = n \<and> 0 \<le> n"
  by (auto simp: uintC_Inr num_def)

lemma time_Some: "parseCanonicalUint (JStr v) UINT64_MAX = Some t \<longleftrightarrow> 0 \<le> t \<and> t \<le> UINT64_MAX \<and> v = decInt t"
  by (rule parseCanonicalUint_Some_iff) (simp add: uint_widths)

text \<open>
  The specification: the part of the amount that is proportional to the time since the cliff, at
  most the whole, rounded down.
\<close>

definition elapsed :: "int \<Rightarrow> int \<Rightarrow> int \<Rightarrow> int" where
  "elapsed cliff stop time = max 0 (min (time - cliff) (stop - cliff))"

definition vestedAt :: "int \<Rightarrow> int \<Rightarrow> int \<Rightarrow> int \<Rightarrow> int" where
  "vestedAt a cliff stop time = a * elapsed cliff stop time div (stop - cliff)"

lemma vestedAt_rounds:
  assumes "cliff < stop"
  shows "v = vestedAt a cliff stop time \<longleftrightarrow>
    v * (stop - cliff) \<le> a * elapsed cliff stop time \<and> a * elapsed cliff stop time < (v + 1) * (stop - cliff)"
proof -
  let ?d = "stop - cliff" let ?n = "a * elapsed cliff stop time"
  have d: "0 < ?d" using assms by simp
  have "?n = ?n div ?d * ?d + ?n mod ?d" by (rule div_mult_mod_eq[symmetric])
  moreover have "0 \<le> ?n mod ?d" "?n mod ?d < ?d" using d by simp_all
  moreover have "v = ?n div ?d" if h: "v * ?d \<le> ?n" "?n < (v + 1) * ?d"
  proof -
    have "v \<le> ?n div ?d" using zdiv_mono1[OF h(1) d] d by simp
    moreover have "?n div ?d * ?d \<le> ?n" using d by (simp add: div_mult_mod_eq minus_mod_eq_div_mult[symmetric])
    then have "?n div ?d * ?d < (v + 1) * ?d" using h(2) by linarith
    then have "?n div ?d < v + 1" using d by (simp only: mult_less_cancel_right_pos)
    ultimately show ?thesis by linarith
  qed
  ultimately show ?thesis unfolding vestedAt_def by (auto simp: algebra_simps)
qed

lemma vestedAt_mono: "\<lbrakk>0 \<le> a; cliff < stop; t \<le> t'\<rbrakk> \<Longrightarrow> vestedAt a cliff stop t \<le> vestedAt a cliff stop t'"
  unfolding vestedAt_def elapsed_def by (intro zdiv_mono1 mult_left_mono) auto

lemma vestedAt_bounds: "\<lbrakk>0 \<le> a; cliff < stop\<rbrakk> \<Longrightarrow> 0 \<le> vestedAt a cliff stop t \<and> vestedAt a cliff stop t \<le> a"
proof -
  assume a: "0 \<le> a" "cliff < stop"
  have "vestedAt a cliff stop t \<le> vestedAt a cliff stop (max t stop)" using a by (intro vestedAt_mono) auto
  also have "\<dots> = a" using a by (simp add: vestedAt_def elapsed_def)
  finally show ?thesis using a by (simp add: vestedAt_def elapsed_def pos_imp_zdiv_nonneg_iff)
qed

definition curveOf :: "deploymentGrant \<Rightarrow> int \<Rightarrow> int \<Rightarrow> int \<Rightarrow> bool" where
  "curveOf g a cliff stop \<longleftrightarrow> dgAmount g = decInt a \<and> gsCliff (dgSchedule g) = decInt cliff \<and> gsEnd (dgSchedule g) = decInt stop
     \<and> 0 < a \<and> a \<le> UINT256_MAX \<and> 0 \<le> cliff \<and> cliff < stop \<and> stop \<le> UINT256_MAX"

lemma custodyVested_Inr:
  "custodyVested g ts = Inr v \<longleftrightarrow>
     (\<exists>a cliff stop t. curveOf g a cliff stop \<and> 0 \<le> t \<and> t \<le> UINT64_MAX \<and> ts = decInt t \<and> v = vestedAt a cliff stop t)"
proof -
  have e: "(if t \<le> cliff then 0 else if stop \<le> t then a else a * (t - cliff) div (stop - cliff)) = vestedAt a cliff stop t"
    if "cliff < stop" for a cliff stop t :: int
    using that by (auto simp: vestedAt_def elapsed_def)
  show ?thesis
  proof
    assume L: "custodyVested g ts = Inr v"
    then obtain a t where a: "uintC (dgAmount g) = Inr a" and t: "parseCanonicalUint (JStr ts) UINT64_MAX = Some t"
      by (auto simp: custodyVested_def bindE_Inr_iff split: option.splits)
    with L obtain cliff stop where c: "uintC (gsCliff (dgSchedule g)) = Inr cliff" "uintC (gsEnd (dgSchedule g)) = Inr stop"
      by (auto simp: custodyVested_def bindE_Inr_iff)
    from L have "cliff < stop" "a \<noteq> 0" by (auto simp: custodyVested_def a t c bindE_Inr_iff)
    with L have "v = vestedAt a cliff stop t" by (simp add: custodyVested_def a t c e not_le bindE_Inr_iff)
    with a t c \<open>cliff < stop\<close> \<open>a \<noteq> 0\<close>
    show "\<exists>a cliff stop t. curveOf g a cliff stop \<and> 0 \<le> t \<and> t \<le> UINT64_MAX \<and> ts = decInt t \<and> v = vestedAt a cliff stop t"
      unfolding curveOf_def uintC_Inr time_Some by force
  next
    assume "\<exists>a cliff stop t. curveOf g a cliff stop \<and> 0 \<le> t \<and> t \<le> UINT64_MAX \<and> ts = decInt t \<and> v = vestedAt a cliff stop t"
    then obtain a cliff stop t where c: "curveOf g a cliff stop" and t: "0 \<le> t" "t \<le> UINT64_MAX" "ts = decInt t" "v = vestedAt a cliff stop t"
      by blast
    from c have "uintC (dgAmount g) = Inr a" "uintC (gsCliff (dgSchedule g)) = Inr cliff" "uintC (gsEnd (dgSchedule g)) = Inr stop"
        "cliff < stop" "0 < a"
      by (auto simp: curveOf_def uintC_Inr)
    moreover have "parseCanonicalUint (JStr ts) UINT64_MAX = Some t" using t by (simp add: time_Some)
    ultimately show "custodyVested g ts = Inr v" using t by (simp add: custodyVested_def e not_le)
  qed
qed

section \<open>The abstract vault\<close>

record vault =
  vaAllocation :: int
  vaReleased :: int
  vaFrozen :: int
  vaFunded :: bool
  vaCancelled :: bool

definition vaultOf :: "custodyGrantState \<Rightarrow> vault" where
  "vaultOf st = \<lparr>vaAllocation = num (cgAllocation st), vaReleased = num (cgReleased st),
     vaFrozen = num (cgFrozenEntitlement st), vaFunded = cgFunded st, vaCancelled = cgCancelled st\<rparr>"

text \<open>What a vault can still come to owe, to its beneficiary first and to nobody else.\<close>

definition owed :: "vault \<Rightarrow> int" where
  "owed v = (if vaFunded v then (if vaCancelled v then vaFrozen v else vaAllocation v) - vaReleased v else 0)"

definition vaultSound :: "vault \<Rightarrow> bool" where
  "vaultSound v \<longleftrightarrow> 0 \<le> vaReleased v \<and> vaReleased v \<le> (if vaCancelled v then vaFrozen v else vaAllocation v)
     \<and> 0 \<le> vaFrozen v \<and> vaFrozen v \<le> vaAllocation v
     \<and> (\<not> vaFunded v \<longrightarrow> vaReleased v = 0 \<and> \<not> vaCancelled v) \<and> (\<not> vaCancelled v \<longrightarrow> vaFrozen v = 0)"

text \<open>The vault of a snapshot: what it holds, and what its beneficiary can take at the block's time.\<close>

definition vaultBacked :: "custodySnapshot \<Rightarrow> custodyGrantState \<Rightarrow> bool" where
  "vaultBacked snapshot st \<longleftrightarrow>
     vaultSound (vaultOf st) \<and> 0 \<le> num (cgAvailable st) \<and> num (cgAvailable st) \<le> owed (vaultOf st)
   \<and> (\<exists>b\<in>set (csBalances snapshot). cbAddress b = cgAddress st
        \<and> num (cbAmount b) = owed (vaultOf st) + num (cgDonations st))"

lemma find_in: "List.find P xs = Some x \<Longrightarrow> x \<in> set xs \<and> P x"
  by (auto simp: find_Some_iff)

lemma num_nonneg: "0 \<le> num s"
  by (simp add: num_def)

lemma num_decInt [simp]: "0 \<le> n \<Longrightarrow> num (decInt n) = n"
  by (simp add: num_def)

lemma verifyGrantState_backed:
  assumes "verifyGrantState manifest snapshot st = Inr ()"
  shows "vaultBacked snapshot st"
proof -
  from assms obtain g allocation released frozen entitlement available b amt donations where
    g: "immutableGrant manifest st = Inr g"
    and q: "uintC (cgAllocation st) = Inr allocation" "uintC (cgReleased st) = Inr released"
      "uintC (cgFrozenEntitlement st) = Inr frozen" "uintC (cgAvailable st) = Inr available"
      "uintC (cbAmount b) = Inr amt" "uintC (cgDonations st) = Inr donations"
    and e: "(if cgCancelled st then Inr frozen else custodyVested g (dbTimestamp (csBlock snapshot))) = Inr entitlement"
    and acc: "frozen \<le> allocation" "released \<le> entitlement" "cgCancelled st \<or> frozen = 0"
      "cgFunded st \<or> released = 0 \<and> \<not> cgCancelled st"
      "available = (if cgFunded st then entitlement - released else 0)"
    and b: "List.find (\<lambda>b. cbAddress b = cgAddress st) (csBalances snapshot) = Some b"
      "amt = (if cgFunded st then allocation - released - (if cgCancelled st then allocation - frozen else 0) else 0) + donations"
    by (auto simp: verifyGrantState_def Let_def bindE_Inr_iff not_less split: option.splits)
  note n = q[THEN uintC_num]
  have ent: "entitlement \<le> (if cgCancelled st then frozen else allocation)"
  proof (cases "cgCancelled st")
    case False
    with e obtain a cliff stop t where c: "curveOf g a cliff stop" "entitlement = vestedAt a cliff stop t"
      by (auto simp: custodyVested_Inr)
    have "cgAllocation st = dgAmount g"
      using g by (auto simp: immutableGrant_def Let_def split: option.splits if_splits)
    with q(1) c(1) have "allocation = a" by (simp add: curveOf_def uintC_Inr decInt_inj)
    with False c vestedAt_bounds[of a cliff stop t] show ?thesis by (simp add: curveOf_def)
  qed (use e in simp)
  from find_in[OF b(1)] have "b \<in> set (csBalances snapshot)" "cbAddress b = cgAddress st" by simp_all
  with n acc b(2) ent show ?thesis
    unfolding vaultBacked_def vaultSound_def vaultOf_def owed_def by (auto split: if_splits)
qed

text \<open>The snapshot as a whole.\<close>

definition snapshotConserves :: "deploymentManifest \<Rightarrow> custodySnapshot \<Rightarrow> bool" where
  "snapshotConserves manifest snapshot \<longleftrightarrow>
     distinct (map cbAddress (csBalances snapshot))
   \<and> set (map cbAddress (csBalances snapshot)) = set (inventoryAddresses manifest)
   \<and> amountSumOf cbAmount (csBalances snapshot) = num (csTotalSupply snapshot)
   \<and> distinct (map cgGrantId (csGrants snapshot)) \<and> length (csGrants snapshot) = length (dmGrants manifest)
   \<and> (\<forall>st\<in>set (csGrants snapshot). vaultBacked snapshot st)"

lemma sum_amounts: "list_all2 (\<lambda>b y. uintC (cbAmount b) = Inr y) bs ys \<Longrightarrow> sum_list ys = amountSumOf cbAmount bs"
  by (induction rule: list_all2_induct) (auto simp: amountSumOf_def dest: uintC_num)

lemma snapshot_conserves:
  assumes "verifyCustodySnapshot manifest snapshot = Inr ()"
  shows "snapshotConserves manifest snapshot"
proof -
  obtain config al where c: "snd (validateDeployment (dmConfiguration manifest)) = Some (config, al)"
    using assms by (auto simp: verifyCustodySnapshot_def split: option.splits)
  note unfolded = assms[unfolded verifyCustodySnapshot_def c option.case prod.case bindE_Inr_iff failIf_Inr_iff]
  from unfolded obtain ys where
    i: "inventoryAddresses manifest = sortText (map cbAddress (csBalances snapshot))"
    and a: "list_all2 (\<lambda>b y. uintC (cbAmount b) = Inr y) (csBalances snapshot) ys" "sum_list ys = num (csTotalSupply snapshot)"
    by (auto simp: mapE_Inr_iff)
  from unfolded have g: "length (csGrants snapshot) = length (dmGrants manifest)"
      "setSize (map cgGrantId (csGrants snapshot)) = length (map cgGrantId (csGrants snapshot))"
      "\<forall>st\<in>set (csGrants snapshot). verifyGrantState manifest snapshot st = Inr ()"
    by (auto simp: eachE_Inr_iff)
  have "distinct (inventoryAddresses manifest)" by (simp add: inventoryAddresses_def Let_def)
  then have "distinct (map cbAddress (csBalances snapshot))" unfolding i by simp
  moreover have "set (map cbAddress (csBalances snapshot)) = set (inventoryAddresses manifest)" unfolding i by simp
  moreover have "distinct (map cgGrantId (csGrants snapshot))" using g(2) by (simp only: setSize_eq_length_iff)
  ultimately show ?thesis
    unfolding snapshotConserves_def using sum_amounts[OF a(1)] a(2) g(1,3) verifyGrantState_backed by auto
qed

section \<open>Steps of the vault\<close>

datatype effect = Idle | Deposit int | Pay int | Refund int

text \<open>
  The contract between a reserve and a beneficiary, without texts, roles and calldata: at a time when
  \<open>vested\<close> is due, a vault is funded once and whole; it pays all that is due and no more; it is
  cancelled while something but not everything is due, returns what is not vested and keeps the
  rest for the beneficiary.
\<close>

inductive vaultStep :: "int \<Rightarrow> vault \<Rightarrow> effect \<Rightarrow> vault \<Rightarrow> bool" for vested where
  idle: "vaultStep vested v Idle v"
| fund: "\<not> vaFunded v \<Longrightarrow> vaultStep vested v (Deposit (vaAllocation v)) (v\<lparr>vaFunded := True\<rparr>)"
| pay: "\<lbrakk>vaFunded v; due = (if vaCancelled v then vaFrozen v else vested); vaReleased v < due\<rbrakk>
    \<Longrightarrow> vaultStep vested v (Pay (due - vaReleased v)) (v\<lparr>vaReleased := due\<rparr>)"
| refund: "\<lbrakk>vaFunded v; \<not> vaCancelled v; 0 < vaReleased v; vaReleased v < vested; vested < vaAllocation v\<rbrakk>
    \<Longrightarrow> vaultStep vested v (Refund (vaAllocation v - vested)) (v\<lparr>vaCancelled := True, vaFrozen := vested\<rparr>)"

inductive_cases vaultStep_cases: "vaultStep vested v eff v'"

text \<open>The transfer of an effect, and what an address gains by it.\<close>

definition movedBy :: "custodyGrantState \<Rightarrow> effect \<Rightarrow> custodyMovement option" where
  "movedBy st eff = (case eff of Idle \<Rightarrow> None
     | Deposit n \<Rightarrow> Some (movement (cgReserve st) (cgAddress st) n)
     | Pay n \<Rightarrow> Some (movement (cgAddress st) (cgBeneficiary st) n)
     | Refund n \<Rightarrow> Some (movement (cgAddress st) (cgReserve st) n))"

definition gain :: "custodyMovement option \<Rightarrow> string \<Rightarrow> int" where
  "gain m x = (case m of None \<Rightarrow> 0
     | Some mv \<Rightarrow> (if x = cmTo mv then num (cmAmount mv) else 0) - (if x = cmFrom mv then num (cmAmount mv) else 0))"

text \<open>The operations of the code that an effect stands for.\<close>

definition carriesOut :: "string \<Rightarrow> effect \<Rightarrow> bool" where
  "carriesOut operation eff \<longleftrightarrow> (case eff of Idle \<Rightarrow> operation \<in> {''approve'', ''reject-founder-cancel''}
     | Deposit _ \<Rightarrow> operation = ''fund'' | Pay _ \<Rightarrow> operation \<in> {''release'', ''claim-debt''} | Refund _ \<Rightarrow> operation = ''cancel-team'')"

lemma carriesOut_simps [simp]:
  "carriesOut operation Idle \<longleftrightarrow> operation \<in> {''approve'', ''reject-founder-cancel''}" "carriesOut operation (Deposit n) \<longleftrightarrow> operation = ''fund''"
  "carriesOut operation (Pay n) \<longleftrightarrow> operation \<in> {''release'', ''claim-debt''}" "carriesOut operation (Refund n) \<longleftrightarrow> operation = ''cancel-team''"
  by (simp_all add: carriesOut_def)

lemma expectedFunding_step:
  assumes "expectedFunding t g st = Inr e" "cgAllocation st = dgAmount g"
  shows "\<exists>vested eff. custodyVested g (dbTimestamp (ctBlock t)) = Inr vested
    \<and> vaultStep vested (vaultOf st) eff (vaultOf (exState e)) \<and> exMovement e = movedBy st eff \<and> carriesOut (ctOperation t) eff"
proof -
  from assms(1) obtain a vested where a: "uintC (dgAmount g) = Inr a" and v: "custodyVested g (dbTimestamp (ctBlock t)) = Inr vested"
    by (auto simp: expectedFunding_def bindE_Inr_iff)
  have n: "num (cgAllocation st) = a" using uintC_num[OF a] assms(2) by simp
  consider (approve) "ctOperation t = ''approve''" | (fund) "ctOperation t = ''fund''"
    using assms(1) by (auto simp: expectedFunding_def bindE_Inr_iff Let_def split: if_splits)
  then show ?thesis
  proof cases
    case approve
    then have "vaultOf (exState e) = vaultOf st" "exMovement e = movedBy st Idle"
      using assms(1) by (auto simp: expectedFunding_def bindE_Inr_iff Let_def vaultOf_def movedBy_def)
    moreover have "carriesOut (ctOperation t) Idle" using approve by simp
    ultimately show ?thesis using v vaultStep.idle[of vested "vaultOf st"] by metis
  next
    case fund
    then have "\<not> cgFunded st" "exState e = st\<lparr>cgFunded := True, cgAllowance := ''0'', cgAvailable := decInt vested\<rparr>"
        "exMovement e = Some (movement (cgReserve st) (cgAddress st) a)"
      using assms(1) a v by (auto simp: expectedFunding_def bindE_Inr_iff Let_def)
    then have "vaultOf (exState e) = (vaultOf st)\<lparr>vaFunded := True\<rparr>" "\<not> vaFunded (vaultOf st)"
        "exMovement e = movedBy st (Deposit (vaAllocation (vaultOf st)))"
      using n by (simp_all add: vaultOf_def movedBy_def)
    moreover have "carriesOut (ctOperation t) (Deposit n)" for n using fund by simp
    ultimately show ?thesis using v vaultStep.fund[of "vaultOf st" vested] by metis
  qed
qed

lemma expectedRelease_state:
  assumes "expectedRelease t g st = Inr e"
  obtains vested entitlement released where "custodyVested g (dbTimestamp (ctBlock t)) = Inr vested"
    "(if cgCancelled st then uintC (cgFrozenEntitlement st) else Inr vested) = Inr entitlement"
    "uintC (cgReleased st) = Inr released" "released < entitlement" "cgFunded st"
    "exState e = st\<lparr>cgReleased := decInt entitlement, cgAvailable := ''0'', cgLastTransition := dbTimestamp (ctBlock t)\<rparr>"
    "exMovement e = Some (movement (cgAddress st) (cgBeneficiary st) (entitlement - released))" "ctOperation t \<in> {''release'', ''claim-debt''}"
  using assms by (auto simp: expectedRelease_def bindE_Inr_iff Let_def not_le split: if_splits)

lemma expectedRelease_step:
  assumes "expectedRelease t g st = Inr e"
  shows "\<exists>vested eff. custodyVested g (dbTimestamp (ctBlock t)) = Inr vested
    \<and> vaultStep vested (vaultOf st) eff (vaultOf (exState e)) \<and> exMovement e = movedBy st eff \<and> carriesOut (ctOperation t) eff"
proof -
  from assms obtain vested entitlement released where v: "custodyVested g (dbTimestamp (ctBlock t)) = Inr vested"
    and e: "(if cgCancelled st then uintC (cgFrozenEntitlement st) else Inr vested) = Inr entitlement"
    and r: "uintC (cgReleased st) = Inr released" and lt: "released < entitlement" "cgFunded st"
    and st': "exState e = st\<lparr>cgReleased := decInt entitlement, cgAvailable := ''0'', cgLastTransition := dbTimestamp (ctBlock t)\<rparr>"
      "exMovement e = Some (movement (cgAddress st) (cgBeneficiary st) (entitlement - released))"
    and op: "ctOperation t \<in> {''release'', ''claim-debt''}"
    by (rule expectedRelease_state)
  have n: "num (cgReleased st) = released" "0 \<le> released" using uintC_num[OF r] by simp_all
  have due: "entitlement = (if vaCancelled (vaultOf st) then vaFrozen (vaultOf st) else vested)"
    using e by (auto simp: vaultOf_def dest: uintC_num split: if_splits)
  have "vaultOf (exState e) = (vaultOf st)\<lparr>vaReleased := entitlement\<rparr>" "vaReleased (vaultOf st) < entitlement" "vaFunded (vaultOf st)"
      "exMovement e = movedBy st (Pay (entitlement - vaReleased (vaultOf st)))"
    using st' n lt by (simp_all add: vaultOf_def movedBy_def)
  moreover have "carriesOut (ctOperation t) (Pay n)" for n using op by simp
  ultimately show ?thesis using v vaultStep.pay[OF _ due] by metis
qed

lemma expectedCancellation_step:
  assumes "expectedCancellation t g st = Inr e" "cgAllocation st = dgAmount g" "cgFunded st"
  shows "\<exists>vested eff. custodyVested g (dbTimestamp (ctBlock t)) = Inr vested
    \<and> vaultStep vested (vaultOf st) eff (vaultOf (exState e)) \<and> exMovement e = movedBy st eff \<and> carriesOut (ctOperation t) eff"
proof -
  from assms(1) obtain a vested where a: "uintC (dgAmount g) = Inr a" and v: "custodyVested g (dbTimestamp (ctBlock t)) = Inr vested"
    by (auto simp: expectedCancellation_def bindE_Inr_iff)
  have n: "num (cgAllocation st) = a" using uintC_num[OF a] assms(2) by simp
  show ?thesis
  proof (cases "ctOperation t = ''reject-founder-cancel''")
    case True
    then have "vaultOf (exState e) = vaultOf st" "exMovement e = movedBy st Idle"
      using assms(1) by (auto simp: expectedCancellation_def bindE_Inr_iff Let_def vaultOf_def movedBy_def)
    moreover have "carriesOut (ctOperation t) Idle" using True by simp
    ultimately show ?thesis using v vaultStep.idle[of vested "vaultOf st"] by metis
  next
    case False
    with assms(1) a v obtain released where r: "uintC (cgReleased st) = Inr released" "released \<noteq> 0" "released < vested" "vested < a"
        "\<not> cgCancelled st"
      and st': "exState e = st\<lparr>cgCancelled := True, cgFrozenEntitlement := decInt vested, cgLastTransition := dbTimestamp (ctBlock t),
              cgAvailable := decInt (vested - released)\<rparr>" "exMovement e = Some (movement (cgAddress st) (cgReserve st) (a - vested))"
      by (auto simp: expectedCancellation_def bindE_Inr_iff Let_def not_le)
    have rn: "num (cgReleased st) = released" "0 < released" using uintC_num[OF r(1)] r(2) by simp_all
    have "vaultOf (exState e) = (vaultOf st)\<lparr>vaCancelled := True, vaFrozen := vested\<rparr>" "vaFunded (vaultOf st)" "\<not> vaCancelled (vaultOf st)"
        "0 < vaReleased (vaultOf st)" "vaReleased (vaultOf st) < vested" "vested < vaAllocation (vaultOf st)"
        "exMovement e = movedBy st (Refund (vaAllocation (vaultOf st) - vested))"
      using st' n rn r assms(3) by (simp_all add: vaultOf_def movedBy_def)
    moreover have "carriesOut (ctOperation t) (Refund n)" for n
      using False assms(1) by (auto simp: expectedCancellation_def bindE_Inr_iff Let_def)
    ultimately show ?thesis using v vaultStep.refund[of "vaultOf st" vested] by metis
  qed
qed

lemma expectedOf_step:
  assumes "expectedOf t g st = Inr e" "cgAllocation st = dgAmount g"
  shows "\<exists>vested eff. custodyVested g (dbTimestamp (ctBlock t)) = Inr vested
    \<and> vaultStep vested (vaultOf st) eff (vaultOf (exState e)) \<and> exMovement e = movedBy st eff \<and> carriesOut (ctOperation t) eff"
proof -
  consider "expectedFunding t g st = Inr e" | "expectedRelease t g st = Inr e" | "expectedCancellation t g st = Inr e" "cgFunded st"
    using assms(1) by (auto simp: expectedOf_def bindE_Inr_iff split: if_splits)
  then show ?thesis
    by cases (use assms(2) in \<open>blast intro: expectedFunding_step expectedRelease_step expectedCancellation_step\<close>)+
qed

lemma immutableGrant_found:
  "immutableGrant manifest st = Inr g \<Longrightarrow>
     List.find (\<lambda>item. dgId item = cgGrantId st) (dcGrants (manifestConfig manifest)) = Some g \<and> cgAllocation st = dgAmount g"
  by (auto simp: immutableGrant_def Let_def split: option.splits if_splits)

lemma snapshot_grant:
  assumes "verifyCustodySnapshot manifest snapshot = Inr ()" "findGrant k snapshot = Some st"
  obtains g where "immutableGrant manifest st = Inr g" "cgGrantId st = k" "st \<in> set (csGrants snapshot)"
proof -
  from assms(2) have st: "st \<in> set (csGrants snapshot)" "cgGrantId st = k" by (auto simp: findGrant_def dest: find_in)
  have "\<forall>st\<in>set (csGrants snapshot). verifyGrantState manifest snapshot st = Inr ()"
    using assms(1) by (auto simp: verifyCustodySnapshot_def bindE_Inr_iff eachE_Inr_iff split: option.splits prod.splits)
  with st(1) have "verifyGrantState manifest snapshot st = Inr ()" by blast
  then obtain g where "immutableGrant manifest st = Inr g" unfolding verifyGrantState_def bindE_Inr_iff by blast
  with st that show ?thesis by blast
qed

text \<open>What is vested of the vault of a transition: the curve of its grant in the configuration, at the time of its block.\<close>

definition vestedIn :: "deploymentManifest \<Rightarrow> custodyTransition \<Rightarrow> vault \<Rightarrow> int \<Rightarrow> bool" where
  "vestedIn manifest t v vested \<longleftrightarrow> (\<exists>g a cliff stop time.
     List.find (\<lambda>item. dgId item = ctGrantId t) (dcGrants (manifestConfig manifest)) = Some g \<and> curveOf g a cliff stop
   \<and> dbTimestamp (csBlock (ctAfter t)) = decInt time \<and> vaAllocation v = a \<and> vested = vestedAt a cliff stop time)"

text \<open>What an accepted transition did to its own vault, to the other vaults and to every balance.\<close>

definition transitionOf :: "deploymentManifest \<Rightarrow> custodyTransition \<Rightarrow> custodyGrantState \<Rightarrow> custodyGrantState \<Rightarrow> int \<Rightarrow> effect \<Rightarrow> bool" where
  "transitionOf manifest t st st' vested eff \<longleftrightarrow>
     findGrant (ctGrantId t) (ctBefore t) = Some st \<and> findGrant (ctGrantId t) (ctAfter t) = Some st'
   \<and> vestedIn manifest t (vaultOf st) vested \<and> carriesOut (ctOperation t) eff
   \<and> vaultStep vested (vaultOf st) eff (vaultOf st') \<and> ctMovements t = (case movedBy st eff of None \<Rightarrow> [] | Some m \<Rightarrow> [m])
   \<and> (\<forall>b\<in>set (csBalances (ctBefore t)). \<exists>b'\<in>set (csBalances (ctAfter t)).
        cbAddress b' = cbAddress b \<and> num (cbAmount b') = num (cbAmount b) + gain (movedBy st eff) (cbAddress b))
   \<and> (\<forall>other\<in>set (csGrants (ctBefore t)). cgGrantId other \<noteq> ctGrantId t \<longrightarrow>
        (\<exists>other'. findGrant (cgGrantId other) (ctAfter t) = Some other' \<and> vaultOf other' = vaultOf other))"

lemma checkBalance_gain:
  assumes "checkBalance t m b = Inr ()"
  shows "\<exists>b'\<in>set (csBalances (ctAfter t)). cbAddress b' = cbAddress b \<and> num (cbAmount b') = num (cbAmount b) + gain m (cbAddress b)"
proof -
  from assms obtain delta b' new old where
    d: "(case m of None \<Rightarrow> Inr 0
        | Some mv \<Rightarrow> bindE (if cbAddress b = cmTo mv then uintC (cmAmount mv) else Inr 0) (\<lambda>received.
            bindE (if cbAddress b = cmFrom mv then uintC (cmAmount mv) else Inr 0) (\<lambda>sent. Inr (received - sent)))) = Inr delta"
    and f: "List.find (\<lambda>a. cbAddress a = cbAddress b) (csBalances (ctAfter t)) = Some b'"
    and n: "uintC (cbAmount b') = Inr new" "uintC (cbAmount b) = Inr old" "new - old = delta"
    by (auto simp: checkBalance_def bindE_Inr_iff split: option.splits)
  have "delta = gain m (cbAddress b)"
    using d by (cases m) (auto simp: gain_def bindE_Inr_iff dest: uintC_num split: if_splits)
  with n(1,2)[THEN uintC_num] n(3) find_in[OF f] show ?thesis by force
qed

lemma accepted_expected:
  assumes "verifyCustodyTransition manifest t = Inr result"
  obtains st g e where "bindTransition manifest t = Inr (st, exState e, g)" "expectedOf t g st = Inr e"
    "findGrant (ctGrantId t) (ctBefore t) = Some st" "findGrant (ctGrantId t) (ctAfter t) = Some (exState e)"
    "immutableGrant manifest st = Inr g" "cgAllocation st = dgAmount g" "cgGrantId st = ctGrantId t" "ctBlock t = csBlock (ctAfter t)"
    "ctMovements t = (case exMovement e of None \<Rightarrow> [] | Some m \<Rightarrow> [m])"
    "\<forall>b\<in>set (csBalances (ctBefore t)). checkBalance t (exMovement e) b = Inr ()"
proof -
  obtain st st' g where b: "bindTransition manifest t = Inr (st, st', g)"
    using assms unfolding verifyCustodyTransition_def bindE_Inr_iff by (metis prod_cases3)
  obtain e where e: "expectedOf t g st = Inr e"
    using assms unfolding verifyCustodyTransition_def b by (auto simp: bindE_Inr_iff)
  have a: "st' = exState e" "ctMovements t = (case exMovement e of None \<Rightarrow> [] | Some m \<Rightarrow> [m])"
    and c: "\<forall>b\<in>set (csBalances (ctBefore t)). checkBalance t (exMovement e) b = Inr ()"
    using assms unfolding verifyCustodyTransition_def b by (simp_all add: e bindE_Inr_iff eachE_Inr_iff Let_def)
  note unfolded = b[unfolded bindTransition_def bindE_Inr_iff Let_def]
  from unfolded have s: "verifyCustodySnapshot manifest (ctBefore t) = Inr ()" by auto
  from unfolded have f: "findGrant (ctGrantId t) (ctBefore t) = Some st" "findGrant (ctGrantId t) (ctAfter t) = Some st'"
      "immutableGrant manifest st' = Inr g" "ctBlock t = csBlock (ctAfter t)"
    by (auto simp: bindE_Inr_iff split: option.splits)
  from snapshot_grant[OF s f(1)] obtain g' where g': "immutableGrant manifest st = Inr g'" "cgGrantId st = ctGrantId t" by blast
  have "cgGrantId st' = ctGrantId t" using f(2) by (auto simp: findGrant_def dest: find_in)
  with g' f(3) have "g' = g" using immutableGrant_found[OF g'(1)] immutableGrant_found[OF f(3)] by simp
  with that b e f g' a c immutableGrant_found[OF g'(1)] show ?thesis by blast
qed

lemma transition_step:
  assumes "verifyCustodyTransition manifest t = Inr result"
  shows "\<exists>st st' vested eff. transitionOf manifest t st st' vested eff"
proof -
  from assms obtain st g e where b: "bindTransition manifest t = Inr (st, exState e, g)" and e: "expectedOf t g st = Inr e"
    and f: "findGrant (ctGrantId t) (ctBefore t) = Some st" "findGrant (ctGrantId t) (ctAfter t) = Some (exState e)"
    and al: "cgAllocation st = dgAmount g" and im: "immutableGrant manifest st = Inr g" "cgGrantId st = ctGrantId t" "ctBlock t = csBlock (ctAfter t)"
    and m: "ctMovements t = (case exMovement e of None \<Rightarrow> [] | Some m \<Rightarrow> [m])"
    and c: "\<forall>b\<in>set (csBalances (ctBefore t)). checkBalance t (exMovement e) b = Inr ()"
    by (rule accepted_expected)
  from expectedOf_step[OF e al] obtain vested eff where
    v: "vaultStep vested (vaultOf st) eff (vaultOf (exState e))" "exMovement e = movedBy st eff"
      and cv: "custodyVested g (dbTimestamp (ctBlock t)) = Inr vested" and op: "carriesOut (ctOperation t) eff" by blast
  have cu: "vestedIn manifest t (vaultOf st) vested"
  proof -
    from cv obtain a cliff stop time where c: "curveOf g a cliff stop" "0 \<le> time" "dbTimestamp (ctBlock t) = decInt time" "vested = vestedAt a cliff stop time"
      unfolding custodyVested_Inr by blast
    moreover have "vaAllocation (vaultOf st) = a" using c(1) al by (simp add: vaultOf_def curveOf_def)
    ultimately show ?thesis
      using immutableGrant_found[OF im(1)] im(2,3) unfolding vestedIn_def by (intro exI[of _ g] exI[of _ a] exI[of _ cliff] exI[of _ stop] exI[of _ time]) simp
  qed
  from b[unfolded bindTransition_def bindE_Inr_iff Let_def] f have unrelated:
      "\<not> list_ex (\<lambda>g. cgGrantId g \<noteq> ctGrantId t \<and>
         map_option (\<lambda>a. a\<lparr>cgAvailable := ''0''\<rparr>) (findGrant (cgGrantId g) (ctAfter t)) \<noteq> Some (g\<lparr>cgAvailable := ''0''\<rparr>)) (csGrants (ctBefore t))"
    by (auto simp: bindE_Inr_iff)
  have "\<exists>other'. findGrant (cgGrantId other) (ctAfter t) = Some other' \<and> vaultOf other' = vaultOf other"
    if "other \<in> set (csGrants (ctBefore t))" "cgGrantId other \<noteq> ctGrantId t" for other
  proof -
    from that unrelated have "map_option (\<lambda>a. a\<lparr>cgAvailable := ''0''\<rparr>) (findGrant (cgGrantId other) (ctAfter t)) = Some (other\<lparr>cgAvailable := ''0''\<rparr>)"
      unfolding list_ex_iff by blast
    then obtain other' where o: "findGrant (cgGrantId other) (ctAfter t) = Some other'" "other'\<lparr>cgAvailable := ''0''\<rparr> = other\<lparr>cgAvailable := ''0''\<rparr>"
      by auto
    have "vaultOf (x\<lparr>cgAvailable := ''0''\<rparr>) = vaultOf x" for x by (simp add: vaultOf_def)
    with o(2) have "vaultOf other' = vaultOf other" by metis
    with o(1) show ?thesis by blast
  qed
  with f v m c cu op have "transitionOf manifest t st (exState e) vested eff"
    unfolding transitionOf_def v(2)[symmetric] using checkBalance_gain by blast
  then show ?thesis by blast
qed

section \<open>Histories\<close>

text \<open>Accepted transitions, each from the snapshot that the one before it left.\<close>

inductive custodyHistory :: "deploymentManifest \<Rightarrow> custodySnapshot \<Rightarrow> custodyTransition list \<Rightarrow> custodySnapshot \<Rightarrow> bool"
  for manifest snapshot where
  start: "verifyCustodySnapshot manifest snapshot = Inr () \<Longrightarrow> custodyHistory manifest snapshot [] snapshot"
| step: "\<lbrakk>custodyHistory manifest snapshot ts (ctBefore t); verifyCustodyTransition manifest t = Inr result\<rbrakk>
    \<Longrightarrow> custodyHistory manifest snapshot (ts @ [t]) (ctAfter t)"

definition depositOf :: "effect \<Rightarrow> int" where "depositOf eff = (case eff of Deposit n \<Rightarrow> n | _ \<Rightarrow> 0)"
definition payOf :: "effect \<Rightarrow> int" where "payOf eff = (case eff of Pay n \<Rightarrow> n | _ \<Rightarrow> 0)"
definition refundOf :: "effect \<Rightarrow> int" where "refundOf eff = (case eff of Refund n \<Rightarrow> n | _ \<Rightarrow> 0)"

text \<open>
  The books of a vault over a list of effects: what it owes moves by the deposits, payments and
  refunds, and the payments are what it records as released.
\<close>

definition booksBalance :: "vault \<Rightarrow> effect list \<Rightarrow> vault \<Rightarrow> bool" where
  "booksBalance v effs v' \<longleftrightarrow>
     vaReleased v' = vaReleased v + sum_list (map payOf effs)
   \<and> owed v' = owed v + sum_list (map depositOf effs) - sum_list (map payOf effs) - sum_list (map refundOf effs)
   \<and> vaAllocation v' = vaAllocation v
   \<and> length (filter (\<lambda>eff. depositOf eff \<noteq> 0) effs) \<le> (if \<not> vaFunded v \<and> vaFunded v' then 1 else 0)
   \<and> length (filter (\<lambda>eff. refundOf eff \<noteq> 0) effs) \<le> (if \<not> vaCancelled v \<and> vaCancelled v' then 1 else 0)
   \<and> (vaFunded v \<longrightarrow> vaFunded v') \<and> (vaCancelled v \<longrightarrow> vaCancelled v')"

lemma booksBalance_refl: "booksBalance v [] v"
  by (simp add: booksBalance_def)

lemma booksBalance_step:
  assumes "booksBalance v effs v'" "vaultStep vested v' eff v''" "vaultSound v'"
  shows "booksBalance v (effs @ [eff]) v''"
  using assms(2)
proof cases
  case idle
  with assms(1) show ?thesis by (simp add: booksBalance_def depositOf_def payOf_def refundOf_def)
next
  case fund
  then have "\<not> vaFunded v" using assms(1) by (auto simp: booksBalance_def)
  with fund assms show ?thesis
    by (auto simp: booksBalance_def depositOf_def payOf_def refundOf_def owed_def vaultSound_def split: if_splits)
next
  case (pay due)
  with assms show ?thesis
    by (auto simp: booksBalance_def depositOf_def payOf_def refundOf_def owed_def split: if_splits)
next
  case refund
  then have "\<not> vaCancelled v" using assms(1) by (auto simp: booksBalance_def)
  with refund assms show ?thesis
    by (auto simp: booksBalance_def depositOf_def payOf_def refundOf_def owed_def split: if_splits)
qed

lemma accepted_snapshots:
  assumes "verifyCustodyTransition manifest t = Inr result"
  shows "verifyCustodySnapshot manifest (ctBefore t) = Inr ()" "verifyCustodySnapshot manifest (ctAfter t) = Inr ()"
  using assms unfolding verifyCustodyTransition_def bindTransition_def bindE_Inr_iff by auto

lemma history_snapshot: "custodyHistory manifest s ts s' \<Longrightarrow> verifyCustodySnapshot manifest s' = Inr ()"
  by (induction rule: custodyHistory.induct) (simp_all add: accepted_snapshots)

lemma vault_of_snapshot:
  assumes "verifyCustodySnapshot manifest s = Inr ()" "findGrant k s = Some st"
  shows "vaultBacked s st"
  using snapshot_conserves[OF assms(1)] assms(2) by (auto simp: snapshotConserves_def findGrant_def dest: find_in)

text \<open>The effects on the vault of a grant that a list of transitions proves by its movements.\<close>

definition effectsOn :: "string \<Rightarrow> custodyTransition list \<Rightarrow> effect list \<Rightarrow> bool" where
  "effectsOn k ts effs \<longleftrightarrow> list_all2 (\<lambda>t eff. \<exists>st. findGrant k (ctBefore t) = Some st
     \<and> ctMovements t = (case movedBy st eff of None \<Rightarrow> [] | Some m \<Rightarrow> [m])) (filter (\<lambda>t. ctGrantId t = k) ts) effs"

lemma effectsOn_snoc:
  "effectsOn k ts effs \<Longrightarrow> ctGrantId t \<noteq> k \<Longrightarrow> effectsOn k (ts @ [t]) effs"
  "effectsOn k ts effs \<Longrightarrow> ctGrantId t = k \<Longrightarrow> findGrant k (ctBefore t) = Some st
     \<Longrightarrow> ctMovements t = (case movedBy st eff of None \<Rightarrow> [] | Some m \<Rightarrow> [m]) \<Longrightarrow> effectsOn k (ts @ [t]) (effs @ [eff])"
  by (auto simp: effectsOn_def intro!: list_all2_appendI)

lemma history_books:
  assumes "custodyHistory manifest s ts s'" "findGrant k s = Some st"
  shows "\<exists>st' effs. findGrant k s' = Some st' \<and> effectsOn k ts effs \<and> booksBalance (vaultOf st) effs (vaultOf st')"
  using assms(1)
proof (induction rule: custodyHistory.induct)
  case start
  then show ?case using assms(2) booksBalance_refl by (auto simp: effectsOn_def)
next
  case (step ts t result)
  then obtain x effs where x: "findGrant k (ctBefore t) = Some x" "effectsOn k ts effs" "booksBalance (vaultOf st) effs (vaultOf x)"
    by blast
  from transition_step[OF step.hyps(2)] obtain y y' vested eff where y: "transitionOf manifest t y y' vested eff" by blast
  show ?case
  proof (cases "ctGrantId t = k")
    case True
    with y x(1) have "y = x" and f: "findGrant k (ctAfter t) = Some y'" and v: "vaultStep vested (vaultOf x) eff (vaultOf y')"
        and m: "ctMovements t = (case movedBy x eff of None \<Rightarrow> [] | Some m \<Rightarrow> [m])"
      by (auto simp: transitionOf_def)
    have "vaultSound (vaultOf x)"
      using vault_of_snapshot[OF accepted_snapshots(1)[OF step.hyps(2)] x(1)] by (simp add: vaultBacked_def)
    from booksBalance_step[OF x(3) v this] effectsOn_snoc(2)[OF x(2) True x(1) m] f show ?thesis by blast
  next
    case False
    from x(1) have "x \<in> set (csGrants (ctBefore t))" "cgGrantId x = k" by (auto simp: findGrant_def dest: find_in)
    with y False obtain x' where "findGrant k (ctAfter t) = Some x'" "vaultOf x' = vaultOf x" unfolding transitionOf_def by metis
    with x effectsOn_snoc(1)[OF x(2) False] show ?thesis by metis
  qed
qed

section \<open>Progress\<close>

text \<open>How many operations a grant still needs: approve, fund, release, cancel and claim, or reject.\<close>

definition operationsLeft :: "deploymentGrant \<Rightarrow> custodyGrantState \<Rightarrow> bool \<Rightarrow> nat" where
  "operationsLeft g st rejected =
     (if \<not> cgFunded st then (if num (cgAllowance st) = num (dgAmount g) then 4 else 5)
      else if dgKind g = ''founder'' then (if \<not> rejected then 2 else if num (cgReleased st) = 0 then 1 else 0)
      else if \<not> cgCancelled st then (if num (cgReleased st) = 0 then 3 else 2)
      else if num (cgAvailable st) = 0 then 0 else 1)"

lemma nextAction_complete:
  assumes "custodyNextAction g st now rejected = Inr op"
  shows "op = ''complete'' \<longleftrightarrow> operationsLeft g st rejected = 0"
  using assms
  by (auto simp: custodyNextAction_def operationsLeft_def bindE_Inr_iff split: if_splits dest!: uintC_num)

lemma operations_decrease:
  assumes "verifyCustodyTransition manifest t = Inr result" "findGrant (ctGrantId t) (ctBefore t) = Some st"
    and "findGrant (ctGrantId t) (ctAfter t) = Some st'" "immutableGrant manifest st = Inr g"
    and "custodyNextAction g st now rejected = Inr (ctOperation t)"
  shows "operationsLeft g st' (rejected \<or> ctOperation t = ''reject-founder-cancel'') < operationsLeft g st rejected"
proof -
  from assms(1) obtain x g' e where e: "expectedOf t g' x = Inr e"
    and f: "findGrant (ctGrantId t) (ctBefore t) = Some x" "findGrant (ctGrantId t) (ctAfter t) = Some (exState e)"
      "immutableGrant manifest x = Inr g'"
    by (rule accepted_expected)
  have eq: "x = st" "g' = g" "st' = exState e" using f assms(2-4) by auto
  note e' = e[unfolded eq] and act = assms(5)
  consider "ctOperation t = ''approve''" | "ctOperation t = ''fund''" | "ctOperation t = ''release''" | "ctOperation t = ''claim-debt''"
    | "ctOperation t = ''reject-founder-cancel''" | "ctOperation t = ''cancel-team''"
    using e' by (auto simp: expectedOf_def expectedCancellation_def bindE_Inr_iff Let_def split: if_splits)
  then show ?thesis
  proof cases
    case 1
    with act have "\<not> cgFunded st" "num (cgAllowance st) \<noteq> num (dgAmount g)"
      by (auto simp: custodyNextAction_def bindE_Inr_iff split: if_splits dest!: uintC_num)
    moreover from e' 1 have "exState e = st\<lparr>cgAllowance := dgAmount g\<rparr>"
      by (auto simp: expectedOf_def expectedFunding_def bindE_Inr_iff Let_def)
    ultimately show ?thesis unfolding eq(3) by (simp add: operationsLeft_def)
  next
    case 2
    with act have "\<not> cgFunded st"
      by (auto simp: custodyNextAction_def bindE_Inr_iff split: if_splits)
    moreover from e' 2 have "cgFunded (exState e)"
      by (auto simp: expectedOf_def expectedFunding_def bindE_Inr_iff Let_def)
    ultimately show ?thesis unfolding eq(3) by (simp add: operationsLeft_def)
  next
    case 3
    with act have a: "cgFunded st" "num (cgReleased st) = 0" "dgKind g = ''founder'' \<longrightarrow> rejected" "dgKind g = ''founder'' \<or> \<not> cgCancelled st"
      by (auto simp: custodyNextAction_def bindE_Inr_iff split: if_splits dest!: uintC_num)
    from e' 3 have "expectedRelease t g st = Inr e" by (simp add: expectedOf_def bindE_Inr_iff)
    then obtain n released where "uintC (cgReleased st) = Inr released" "released < n" and n2:
        "exState e = st\<lparr>cgReleased := decInt n, cgAvailable := ''0'', cgLastTransition := dbTimestamp (ctBlock t)\<rparr>"
      by (rule expectedRelease_state)
    from this(1)[THEN uintC_num] this(2) have "0 < n" by simp
    note n = this n2
    then have "num (cgReleased (exState e)) \<noteq> 0" by simp
    with a n(2) 3 show ?thesis unfolding eq(3) by (auto simp: operationsLeft_def)
  next
    case 4
    with act have "cgFunded st" "cgCancelled st" "num (cgAvailable st) \<noteq> 0" "dgKind g \<noteq> ''founder''"
      by (auto simp: custodyNextAction_def bindE_Inr_iff split: if_splits dest!: uintC_num)
    moreover from e' 4 have "cgAvailable (exState e) = ''0''" "cgFunded (exState e) = cgFunded st" "cgCancelled (exState e) = cgCancelled st"
      by (auto simp: expectedOf_def expectedRelease_def bindE_Inr_iff Let_def)
    moreover have "num ''0'' = 0" by code_simp
    ultimately show ?thesis unfolding eq(3) by (simp add: operationsLeft_def)
  next
    case 5
    with act have "cgFunded st" "dgKind g = ''founder''" "\<not> rejected"
      by (auto simp: custodyNextAction_def bindE_Inr_iff split: if_splits)
    moreover from e' 5 have "cgFunded (exState e) = cgFunded st"
      by (auto simp: expectedOf_def expectedCancellation_def bindE_Inr_iff Let_def)
    ultimately show ?thesis unfolding eq(3) using 5 by (simp add: operationsLeft_def)
  next
    case 6
    with act have "cgFunded st" "\<not> cgCancelled st" "dgKind g \<noteq> ''founder''" "num (cgReleased st) \<noteq> 0"
      by (auto simp: custodyNextAction_def bindE_Inr_iff split: if_splits dest!: uintC_num)
    moreover from e' 6 have "cgFunded (exState e) = cgFunded st" "cgCancelled (exState e)"
      by (auto simp: expectedOf_def expectedCancellation_def bindE_Inr_iff Let_def)
    ultimately show ?thesis unfolding eq(3) using 6 by (simp add: operationsLeft_def)
  qed
qed

end
