(* ===== verification/CustodyRun.thy ===== *)
theory CustodyRun
  imports CustodyVault EvmJournal
begin

text \<open>
  \<open>testnet-ccip/src/application/custody-run.ts\<close>: the selection of the next custody operation, the
  run record and one invocation, which prepares or advances one operation through its journal
  (\<open>runCustodyJournal\<close> of \<open>evm-journal.ts\<close>). The world is the durable run record and one journal for
  every intent; an invocation is given the answers of its ports and the outcomes of its writes.
\<close>

section \<open>Data\<close>

record custodySelection =
  slOperationId :: string
  slOperation :: string
  slGrantId :: "string option"

record custodyEntry =
  ceSelection :: custodySelection
  ceIntent :: jsval

record custodyCompleted = custodyEntry +
  ccTransactionHash :: string
  ccEvidenceSha256 :: string

record custodyFailure =
  cfOperationId :: string
  cfTransactionHash :: string
  cfReason :: string

record custodyRunRecord =
  rrSchema :: string
  rrConfigurationSha256 :: string
  rrCurrent :: "custodyEntry option"
  rrCompleted :: "custodyCompleted list"
  rrFailure :: "custodyFailure option"

text \<open>\<open>broadcastAllowed\<close> is \<open>false\<close> or a scope.\<close>

record custodyRunResult =
  ruStatus :: string
  ruReason :: string
  ruConfigurationSha256 :: string
  ruOperationId :: "string option"
  ruTransactionHash :: "string option"
  ruBroadcastAllowed :: "string option"

record custodyProof =
  cpStatus :: string
  cpReason :: string
  cpEvidenceSha256 :: string

text \<open>The intent of a custody journal: the fields every journal reads and the value itself.\<close>

record custodyEnvelope = journalIntent +
  jiCustody :: jsval

type_synonym custodyJournalRecord = "custodyEnvelope journalRecord"

definition envelopeOf :: "jsval \<Rightarrow> custodyEnvelope" where
  "envelopeOf v = (let i = theObj v in
     \<lparr>jiChainId = strP i ''chainId'', jiFrom = strP i ''from'', jiTo = (if getP i ''to'' = JNull then None else Some (strP i ''to'')),
      jiData = strP i ''data'', jiValue = strP i ''value'', jiNonce = strP i ''nonce'', jiCustody = v\<rparr>)"

record custodyRunPorts =
  rpReadFails :: "js_error option"
  rpInspect :: "custodyRunRecord \<Rightarrow> js_error + deploymentManifest \<times> custodySnapshot option"
  rpPrepare :: "custodySelection \<Rightarrow> deploymentManifest \<Rightarrow> custodySnapshot option \<Rightarrow> js_error + jsval"
  rpJournal :: "jsval \<Rightarrow> custodyEnvelope journalPorts"
  rpReadJournalFails :: "jsval \<Rightarrow> js_error option"
  rpPreflight :: "jsval \<Rightarrow> custodySelection \<Rightarrow> js_error + unit"
  rpProve :: "custodySelection \<Rightarrow> jsval \<Rightarrow> string \<Rightarrow> js_error + custodyProof"

definition failR :: "string \<Rightarrow> js_error" where
  "failR reason = Err (''CUSTODY_RUN_'' @ reason)"

text \<open>\<open>same\<close>: two values with one canonical text.\<close>

definition sameValue :: "jsval \<Rightarrow> jsval \<Rightarrow> js_error + bool" where
  "sameValue a b = bindE (canonicalJson a) (\<lambda>x. bindE (canonicalJson b) (\<lambda>y. Inr (x = y)))"

section \<open>Selection\<close>

datatype custodyNext = Wait | Complete | Select custodySelection

definition grantAction :: "custodySnapshot \<Rightarrow> custodyRunRecord \<Rightarrow> deploymentGrant
    \<Rightarrow> js_error + deploymentGrant \<times> custodyGrantState \<times> string" where
  "grantAction snapshot record g =
     (case findGrant (dgId g) snapshot of
        None \<Rightarrow> Inl (Err ''TypeError'')
      | Some state \<Rightarrow>
          let rejected = list_ex (\<lambda>c. slGrantId (ceSelection c) = Some (dgId g)
                \<and> slOperation (ceSelection c) = ''reject-founder-cancel'') (rrCompleted record)
          in bindE (custodyNextAction g state (dbTimestamp (csBlock snapshot)) rejected) (\<lambda>action. Inr (g, state, action)))"

definition selectCustodyOperation :: "deploymentManifest \<Rightarrow> custodySnapshot option \<Rightarrow> custodyRunRecord \<Rightarrow> js_error + custodyNext" where
  "selectCustodyOperation manifest snapshotO record =
     (if dmToken manifest = None
      then Inr (Select \<lparr>slOperationId = ''deploy-token'', slOperation = ''deploy-token'', slGrantId = None\<rparr>)
      else case List.find (\<lambda>g. \<not> list_ex (\<lambda>d. mgGrantId d = dgId g) (dmGrants manifest)) (dcGrants (manifestConfig manifest)) of
        Some missing \<Rightarrow>
          Inr (Select \<lparr>slOperationId = ''deploy-'' @ dgId missing, slOperation = ''deploy-grant'', slGrantId = Some (dgId missing)\<rparr>)
      | None \<Rightarrow>
        (case snapshotO of
           None \<Rightarrow> Inl (failR ''SNAPSHOT_REQUIRED'')
         | Some snapshot \<Rightarrow>
             bindE (verifyCustodySnapshot manifest snapshot) (\<lambda>_.
             bindE (mapE (grantAction snapshot record) (dcGrants (manifestConfig manifest))) (\<lambda>selections.
             Inr (case (case List.find (\<lambda>(g, state, action). \<not> cgFunded state) selections of
                      Some s \<Rightarrow> Some s
                    | None \<Rightarrow> List.find (\<lambda>(g, state, action). action \<noteq> ''complete'' \<and> action \<noteq> ''wait'') selections) of
                    None \<Rightarrow> if list_all (\<lambda>(g, state, action). action = ''complete'') selections then Complete else Wait
                  | Some (g, state, action) \<Rightarrow>
                      if action = ''complete'' then Complete else if action = ''wait'' then Wait
                      else Select \<lparr>slOperationId = dgId g @ ''-'' @ action, slOperation = action, slGrantId = Some (dgId g)\<rparr>)))))"

section \<open>The run record\<close>

definition entriesOf :: "custodyRunRecord \<Rightarrow> custodyEntry list" where
  "entriesOf record = map custodyEntry.truncate (rrCompleted record)
     @ (case rrCurrent record of None \<Rightarrow> [] | Some entry \<Rightarrow> [entry])"

definition validateRun :: "custodyRunRecord \<Rightarrow> string \<Rightarrow> js_error + unit" where
  "validateRun record configurationSha256 =
     (let completedIds = map (\<lambda>c. slOperationId (ceSelection c)) (rrCompleted record) in
      bindE (failIf (rrSchema record \<noteq> ''agtmai-custody-run-v2'' \<or> rrConfigurationSha256 record \<noteq> configurationSha256
          \<or> length (rrCompleted record) > 256 \<or> setSize completedIds \<noteq> length completedIds) (failR ''RECORD_BINDING'')) (\<lambda>_.
      bindE (eachE (\<lambda>entry. bindE (canonicalCustodyIntent (ceIntent entry)) (\<lambda>_.
          let intent = theObj (ceIntent entry) in
          failIf (getP intent ''configurationSha256'' \<noteq> JStr configurationSha256
            \<or> getP intent ''operation'' \<noteq> JStr (slOperation (ceSelection entry))
            \<or> getP intent ''operationId'' \<noteq> JStr (slOperationId (ceSelection entry))) (failR ''OPERATION_BINDING'')))
        (entriesOf record)) (\<lambda>_.
      bindE (eachE (\<lambda>c. failIf (\<not> isDigest (JStr (ccTransactionHash c)) \<or> \<not> isDigest (JStr (ccEvidenceSha256 c)))
          (failR ''EVIDENCE_BINDING'')) (rrCompleted record)) (\<lambda>_.
      failIf (case rrCurrent record of None \<Rightarrow> False
        | Some entry \<Rightarrow> slOperationId (ceSelection entry) \<in> set completedIds) (failR ''OPERATION_REUSE'')))))"

section \<open>The world of an invocation\<close>

record custodyWorld =
  cwRun :: "custodyRunRecord journalState"
  cwJournals :: "jsval \<Rightarrow> custodyJournalRecord journalState"

type_synonym 'a custodyM = "custodyWorld \<Rightarrow> (js_error + 'a) \<times> custodyWorld"

definition bindW :: "'a custodyM \<Rightarrow> ('a \<Rightarrow> 'b custodyM) \<Rightarrow> 'b custodyM" where
  "bindW m f w = (case m w of (Inl e, w') \<Rightarrow> (Inl e, w') | (Inr x, w') \<Rightarrow> f x w')"

definition liftW :: "js_error + 'a \<Rightarrow> 'a custodyM" where
  "liftW m w = (m, w)"

definition runW :: "(custodyRunRecord, 'a) journalM \<Rightarrow> 'a custodyM" where
  "runW m w = (case m (cwRun w) of (r, s) \<Rightarrow> (r, w\<lparr>cwRun := s\<rparr>))"

definition journalW :: "jsval \<Rightarrow> (custodyJournalRecord, 'a) journalM \<Rightarrow> 'a custodyM" where
  "journalW intent m w = (case m (cwJournals w intent) of (r, s) \<Rightarrow> (r, w\<lparr>cwJournals := (cwJournals w)(intent := s)\<rparr>))"

section \<open>One invocation\<close>

definition runCustodyJournal :: "jsval \<Rightarrow> jsval \<Rightarrow> custodyEnvelope journalPorts \<Rightarrow> bool
    \<Rightarrow> (custodyJournalRecord, custodyEnvelope journalResult) journalM" where
  "runCustodyJournal input expected ports observeOnly =
     bindJ (liftJ (validateCustodyIntent input expected)) (\<lambda>intent.
     runJournal (envelopeOf intent) ''agtmai-custody-journal-v2'' (\<lambda>i. canonicalCustodyIntent (jiCustody i)) ports observeOnly)"

definition readOnlyPorts :: "custodyEnvelope journalPorts \<Rightarrow> custodyEnvelope journalPorts" where
  "readOnlyPorts ports = ports\<lparr>jpSign := \<lambda>_. Inl (failR ''RECONCILE_CANNOT_SIGN''),
     jpBroadcast := \<lambda>_. Inl (failR ''RECONCILE_CANNOT_BROADCAST'')\<rparr>"

definition runResult :: "string \<Rightarrow> string \<Rightarrow> custodyRunRecord \<Rightarrow> string \<Rightarrow> string \<Rightarrow> string option \<Rightarrow> custodyRunResult" where
  "runResult mode environment record status reason hash =
     \<lparr>ruStatus = status, ruReason = reason, ruConfigurationSha256 = rrConfigurationSha256 record,
      ruOperationId = map_option (\<lambda>entry. slOperationId (ceSelection entry)) (rrCurrent record), ruTransactionHash = hash,
      ruBroadcastAllowed = (if mode = ''next'' then Some (if environment = ''local-test'' then ''local-only'' else ''owned-testnet-only'') else None)\<rparr>"

definition failedRecord :: "custodyRunRecord \<Rightarrow> custodyEntry \<Rightarrow> string \<Rightarrow> string \<Rightarrow> custodyRunRecord" where
  "failedRecord record current hash reason = record\<lparr>rrFailure := Some \<lparr>cfOperationId = slOperationId (ceSelection current),
     cfTransactionHash = hash, cfReason = reason\<rparr>\<rparr>"

text \<open>What follows a settled journal: a reverted transaction is a failure, any other is to be proved.\<close>

definition settleCurrent :: "custodyRunRecord \<Rightarrow> custodyEntry \<Rightarrow> custodyRunPorts
    \<Rightarrow> (string \<Rightarrow> string \<Rightarrow> string option \<Rightarrow> custodyRunResult) \<Rightarrow> custodyEnvelope journalResult \<Rightarrow> custodyRunResult custodyM" where
  "settleCurrent record current ports result journal =
     (let hash = sgHash (jrSigned (resRecord journal)) in
      if resStatus journal = ''unresolved'' then liftW (Inr (result ''unresolved'' (resReason journal) (Some hash)))
      else if resStatus journal = ''reverted'' then
        bindW (runW (writeJ (failedRecord record current hash ''finalized-revert''))) (\<lambda>_.
        liftW (Inr (result ''failed'' ''finalized-revert'' (Some hash))))
      else (case rpProve ports (ceSelection current) (ceIntent current) hash of
          Inl _ \<Rightarrow> liftW (Inr (result ''unresolved'' ''effects-or-publication-unavailable'' (Some hash)))
        | Inr proof_ \<Rightarrow>
            if \<not> isDigest (JStr (cpEvidenceSha256 proof_)) \<or> \<not> isOperationId (cpReason proof_) then liftW (Inl (failR ''PROOF_RESULT''))
            else if cpStatus proof_ = ''failed'' then
              bindW (runW (writeJ (failedRecord record current hash (cpReason proof_)))) (\<lambda>_.
              liftW (Inr (result ''failed'' (cpReason proof_) (Some hash))))
            else
              bindW (runW (writeJ (record\<lparr>rrCurrent := None, rrCompleted := rrCompleted record
                @ [\<lparr>ceSelection = ceSelection current, ceIntent = ceIntent current, ccTransactionHash = hash,
                    ccEvidenceSha256 = cpEvidenceSha256 proof_\<rparr>]\<rparr>))) (\<lambda>_.
              liftW (Inr (result ''verified'' (cpReason proof_) (Some hash))))))"

definition advanceCurrent :: "string \<Rightarrow> custodyRunRecord \<Rightarrow> custodyEntry \<Rightarrow> custodyRunPorts
    \<Rightarrow> (string \<Rightarrow> string \<Rightarrow> string option \<Rightarrow> custodyRunResult) \<Rightarrow> custodyRunResult custodyM" where
  "advanceCurrent mode record current ports result =
     (let intent = ceIntent current in
      bindW (liftW (case rpReadJournalFails ports intent of None \<Rightarrow> Inr () | Some e \<Rightarrow> Inl e)) (\<lambda>_.
      bindW (journalW intent readJ) (\<lambda>previous.
      if mode = ''prepare'' \<or> mode = ''status'' then
        liftW (Inr (case previous of None \<Rightarrow> result ''prepared'' ''unsigned-operation-selected'' None
          | Some p \<Rightarrow> result ''unresolved'' (''journal-'' @ jrPhase p) (Some (sgHash (jrSigned p)))))
      else if previous = None \<and> mode \<noteq> ''next'' then liftW (Inr (result ''unresolved'' ''no-signed-journal'' None))
      else
        bindW (liftW (if mode = ''next'' \<and> (case previous of None \<Rightarrow> True | Some p \<Rightarrow> jrPhase p = ''signed'')
          then rpPreflight ports intent (ceSelection current) else Inr ())) (\<lambda>_.
        bindW (journalW intent (runCustodyJournal intent intent
          (if mode = ''next'' then rpJournal ports intent else readOnlyPorts (rpJournal ports intent)) (mode \<noteq> ''next'')))
          (settleCurrent record current ports result)))))"

text \<open>The value that the validation of a deployment returns, as JSON.\<close>

definition allocationValue :: "normalizedAllocation \<Rightarrow> jsval" where
  "allocationValue a = JObj Plain ([(''id'', JStr (normId a)), (''recipient'', JStr (normRecipient a)), (''amountBaseUnits'', JStr (normAmount a))]
     @ (if normBps a = JUndef then [] else [(''bps'', normBps a)]))"

definition sortedField :: "string \<Rightarrow> jsval \<Rightarrow> jsval" where
  "sortedField k v = JObj Plain (mapSet k (JArr Plain (map JStr (sortText (map theStr (theArr (getP (theObj v) k)))))) (theObj v))"

definition normalizedValue :: "jsval \<Rightarrow> normalizedAllocation list \<Rightarrow> jsval" where
  "normalizedValue input allocations =
     (let r = theObj input in JObj Plain
       (mapSet ''roleAliases'' (JArr Plain (toSorted (lessFirst (\<lambda>a. strP (theObj a) ''address''))
           (map (sortedField ''roles'') (theArr (getP r ''roleAliases'')))))
       (mapSet ''custodySafes'' (JArr Plain (toSorted (lessFirst (\<lambda>s. strP (theObj s) ''id''))
           (map (sortedField ''owners'') (theArr (getP r ''custodySafes'')))))
       (mapSet ''grants'' (JArr Plain (toSorted (lessFirst (\<lambda>g. strP (theObj g) ''id'')) (theArr (getP r ''grants''))))
       (mapSet ''allocations'' (JArr Plain (map allocationValue allocations)) r)))))"

text \<open>The operation of the record, or a new one, prepared and written.\<close>

definition chooseCurrent :: "string \<Rightarrow> string \<Rightarrow> deploymentManifest \<Rightarrow> deploymentManifest \<Rightarrow> custodySnapshot option \<Rightarrow> custodyRunRecord
    \<Rightarrow> custodyRunPorts \<Rightarrow> (custodyRunResult + custodyRunRecord \<times> custodyEntry) custodyM" where
  "chooseCurrent mode environment manifest inspected snapshot record ports =
     (case rrCurrent record of
        Some current \<Rightarrow> liftW (Inr (Inr (record, current)))
      | None \<Rightarrow>
          bindW (liftW (selectCustodyOperation inspected snapshot record)) (\<lambda>selected.
          case selected of
            Wait \<Rightarrow> liftW (Inr (Inl (runResult mode environment record ''waiting'' ''chain-time-window'' None)))
          | Complete \<Rightarrow> liftW (Inr (Inl (runResult mode environment record ''complete'' ''all-operations-proven'' None)))
          | Select selection \<Rightarrow>
              if list_ex (\<lambda>c. slOperationId (ceSelection c) = slOperationId selection) (rrCompleted record)
              then liftW (Inl (failR ''COMPLETED_STATE_CONFLICT''))
              else if mode = ''reconcile'' \<or> mode = ''status''
              then liftW (Inr (Inl (runResult mode environment record ''waiting'' ''preparation-required'' None)))
              else
                bindW (liftW (rpPrepare ports selection inspected snapshot)) (\<lambda>intent.
                let current = \<lparr>ceSelection = selection, ceIntent = intent\<rparr>; prepared = record\<lparr>rrCurrent := Some current\<rparr> in
                bindW (liftW (validateRun prepared (dmConfigurationSha256 manifest))) (\<lambda>_.
                bindW (runW (writeJ prepared)) (\<lambda>_. liftW (Inr (Inr (prepared, current))))))))"

definition newRun :: "string \<Rightarrow> custodyRunRecord" where
  "newRun configurationSha256 = \<lparr>rrSchema = ''agtmai-custody-run-v2'', rrConfigurationSha256 = configurationSha256,
     rrCurrent = None, rrCompleted = [], rrFailure = None\<rparr>"

definition runCustody :: "string \<Rightarrow> deploymentManifest \<Rightarrow> custodyRunPorts \<Rightarrow> custodyRunResult custodyM" where
  "runCustody mode manifest ports =
     (case snd (validateDeployment (dmConfiguration manifest)) of
        None \<Rightarrow> liftW (Inl (failR ''TEST_CONFIGURATION_REQUIRED''))
      | Some (config, allocations) \<Rightarrow>
        (let environment = deMode (dcEnvironment config) in
         bindW (liftW (failIf (environment = ''mainnet-dry-run'' \<or> dcStatus config \<noteq> ''test-only''
             \<or> mode \<notin> {''prepare'', ''next'', ''reconcile'', ''status''}
             \<or> \<not> list_ex (\<lambda>g. dgKind g = ''team'') (dcGrants config) \<or> \<not> list_ex (\<lambda>g. dgKind g = ''founder'') (dcGrants config))
           (failR ''TEST_CONFIGURATION_REQUIRED''))) (\<lambda>_.
         bindW (liftW (case rpReadFails ports of None \<Rightarrow> Inr () | Some e \<Rightarrow> Inl e)) (\<lambda>_.
         bindW (runW readJ) (\<lambda>stored.
         let record = (case stored of None \<Rightarrow> newRun (dmConfigurationSha256 manifest) | Some r \<Rightarrow> r) in
         bindW (liftW (validateRun record (dmConfigurationSha256 manifest))) (\<lambda>_.
         case rrFailure record of
           Some failure \<Rightarrow>
             liftW (Inr (runResult mode environment record ''failed'' (cfReason failure) (Some (cfTransactionHash failure))))
         | None \<Rightarrow>
           (case rpInspect ports record of
              Inl _ \<Rightarrow> liftW (Inr (runResult mode environment record ''unresolved'' ''canonical-history-unavailable'' None))
            | Inr (inspected, snapshot) \<Rightarrow>
                bindW (liftW (if dmConfigurationSha256 inspected \<noteq> rrConfigurationSha256 record then Inr False
                  else sameValue (dmConfiguration inspected) (normalizedValue (dmConfiguration manifest) allocations))) (\<lambda>unchanged.
                bindW (liftW (failIf (\<not> unchanged) (failR ''MANIFEST_CHANGED''))) (\<lambda>_.
                bindW (chooseCurrent mode environment manifest inspected snapshot record ports) (\<lambda>chosen.
                case chosen of
                  Inl result \<Rightarrow> liftW (Inr result)
                | Inr (record', current) \<Rightarrow>
                    advanceCurrent mode record' current ports (runResult mode environment record')))))))))))"

end
