(* ===== verification/CustodyProps.thy ===== *)
theory CustodyProps
  imports CustodyVault
begin

text \<open>A release of the team grant of the sample deployment, five seconds after its cliff.\<close>

definition hexAddress :: "char \<Rightarrow> string" where
  "hexAddress c = ''0x'' @ replicate 40 c"

definition hexDigest :: "char \<Rightarrow> string" where
  "hexDigest c = ''0x'' @ replicate 64 c"

definition sampleManifest :: deploymentManifest where
  "sampleManifest = \<lparr>dmConfigurationSha256 = hexDigest (CHR ''1''), dmConfiguration = sampleDeployment,
     dmToken = Some (hexAddress (CHR ''b'')), dmGrants = [\<lparr>mgGrantId = ''team'', mgAddress = hexAddress (CHR ''a'')\<rparr>, \<lparr>mgGrantId = ''founder'', mgAddress = hexAddress (CHR ''c'')\<rparr>]\<rparr>"

definition sampleVault :: "string \<Rightarrow> string \<Rightarrow> string \<Rightarrow> custodyGrantState" where
  "sampleVault released available stamp = \<lparr>cgGrantId = ''team'', cgAddress = hexAddress (CHR ''a''), cgToken = hexAddress (CHR ''b''),
     cgBeneficiary = hexAddress (CHR ''6''), cgReserve = hexAddress (CHR ''1''), cgController = hexAddress (CHR ''2''),
     cgAllocation = ''40'', cgStart = ''50'', cgCliff = ''60'', cgEnd = ''70'', cgKind = ''team'', cgOriginalPurpose = hexDigest (CHR ''c''),
     cgFunded = True, cgInitialized = True, cgCancelled = False, cgReleased = released, cgFrozenEntitlement = ''0'',
     cgLastTransition = stamp, cgAvailable = available, cgAllowance = ''0'', cgDonations = ''0''\<rparr>"

definition unfundedVault :: custodyGrantState where
  "unfundedVault = \<lparr>cgGrantId = ''founder'', cgAddress = hexAddress (CHR ''c''), cgToken = hexAddress (CHR ''b''),
     cgBeneficiary = hexAddress (CHR ''7''), cgReserve = hexAddress (CHR ''1''), cgController = hexAddress (CHR ''2''),
     cgAllocation = ''20'', cgStart = ''50'', cgCliff = ''60'', cgEnd = ''70'', cgKind = ''founder'', cgOriginalPurpose = hexDigest (CHR ''c''),
     cgFunded = False, cgInitialized = True, cgCancelled = False, cgReleased = ''0'', cgFrozenEntitlement = ''0'',
     cgLastTransition = ''0'', cgAvailable = ''0'', cgAllowance = ''0'', cgDonations = ''0''\<rparr>"

definition sampleSnapshot :: "string \<Rightarrow> string \<Rightarrow> string \<Rightarrow> string \<Rightarrow> custodyGrantState \<Rightarrow> custodySnapshot" where
  "sampleSnapshot block time held paid st = \<lparr>csSchema = ''agtmai-custody-snapshot-v1'', csChainId = ''11155111'',
     csBlock = \<lparr>dbNumber = block, dbHash = hexDigest (CHR ''d''), dbTimestamp = time\<rparr>, csToken = hexAddress (CHR ''b''),
     csTotalSupply = ''90'', csInitialSupply = ''90'',
     csBalances = [\<lparr>cbAddress = hexAddress (CHR ''1''), cbAmount = ''50''\<rparr>, \<lparr>cbAddress = hexAddress (CHR ''6''), cbAmount = paid\<rparr>,
       \<lparr>cbAddress = hexAddress (CHR ''a''), cbAmount = held\<rparr>,
       \<lparr>cbAddress = hexAddress (CHR ''7''), cbAmount = ''0''\<rparr>, \<lparr>cbAddress = hexAddress (CHR ''c''), cbAmount = ''0''\<rparr>],
     csGrants = [st, unfundedVault]\<rparr>"

definition sampleBefore :: custodySnapshot where
  "sampleBefore = sampleSnapshot ''10'' ''64'' ''40'' ''0'' (sampleVault ''0'' ''16'' ''0'')"

definition sampleAfter :: custodySnapshot where
  "sampleAfter = sampleSnapshot ''11'' ''65'' ''20'' ''20'' (sampleVault ''20'' ''0'' ''65'')"

definition sampleCustodyIntent :: jsval where
  "sampleCustodyIntent = JObj Plain
    [(''schema'', JStr ''agtmai-custody-intent-v2''), (''configurationSha256'', JStr (hexDigest (CHR ''1''))),
     (''operationId'', JStr ''team-release''), (''operation'', JStr ''release''), (''environment'', JStr ''owned-testnet''),
     (''chainId'', JStr ''11155111''), (''kind'', JStr ''call''), (''from'', JStr (hexAddress (CHR ''6''))),
     (''to'', JStr (hexAddress (CHR ''a''))), (''nonce'', JStr ''3''), (''value'', JStr ''0''), (''data'', JStr ''0x86d1a69f''),
     (''callerRole'', JStr ''beneficiary''), (''prerequisiteSha256'', JStr (hexDigest (CHR ''2''))), (''gasLimit'', JStr ''9''),
     (''maxFeePerGasWei'', JStr ''7''), (''maxPriorityFeePerGasWei'', JStr ''0''), (''deployment'', JNull), (''safe'', JNull)]"

definition sampleTransition :: custodyTransition where
  "sampleTransition = \<lparr>ctOperationId = ''team-release'', ctGrantId = ''team'', ctOperation = ''release'', ctIntent = sampleCustodyIntent,
     ctTransactionHash = hexDigest (CHR ''e''), ctBlock = csBlock sampleAfter, ctBefore = sampleBefore, ctAfter = sampleAfter,
     ctMovements = [\<lparr>cmFrom = hexAddress (CHR ''a''), cmTo = hexAddress (CHR ''6''), cmAmount = ''20''\<rparr>],
     ctReceiptStatus = 1, ctSafeResult = None, ctGasUsed = ''5'', ctEffectiveGasPrice = ''2''\<rparr>"

definition accepted :: "'e + 'a \<Rightarrow> bool" where
  "accepted r \<longleftrightarrow> (case r of Inl _ \<Rightarrow> False | Inr _ \<Rightarrow> True)"

lemma sample_intent: "accepted (canonicalCustodyIntent sampleCustodyIntent)"
  by code_simp

lemma sample_grants: "accepted (verifyGrantState sampleManifest sampleBefore (sampleVault ''0'' ''16'' ''0''))"
  "accepted (verifyGrantState sampleManifest sampleAfter (sampleVault ''20'' ''0'' ''65''))"
  "accepted (verifyGrantState sampleManifest sampleBefore unfundedVault)" "accepted (verifyGrantState sampleManifest sampleAfter unfundedVault)"
  by code_simp+

lemma accepted_Inr: "accepted r \<longleftrightarrow> (\<exists>x. r = Inr x)"
  by (cases r) (simp_all add: accepted_def)

lemma accepted_unit: "accepted r \<longleftrightarrow> r = Inr ()"
  by (simp add: accepted_Inr)

lemma sample_config:
  "\<exists>config al. snd (validateDeployment sampleDeployment) = Some (config, al)
     \<and> deMode (dcEnvironment config) = ''owned-testnet'' \<and> deEvmChainId (dcEnvironment config) = ''11155111''
     \<and> dcInitialSupply config = ''90''"
proof -
  from sample_accepted obtain config al where v: "validateDeployment sampleDeployment = ([], Some (config, al))" by blast
  then have "config = normalizedConfig (configOf (theObj sampleDeployment)) al"
    by (auto simp: validateDeployment_def Let_def split: if_splits prod.splits option.splits)
  then have "dcEnvironment config = dcEnvironment (configOf (theObj sampleDeployment))"
      "dcInitialSupply config = dcInitialSupply (configOf (theObj sampleDeployment))"
    by (simp_all add: normalizedConfig_def)
  moreover have "deMode (dcEnvironment (configOf (theObj sampleDeployment))) = ''owned-testnet''"
      "deEvmChainId (dcEnvironment (configOf (theObj sampleDeployment))) = ''11155111''"
      "dcInitialSupply (configOf (theObj sampleDeployment)) = ''90''"
    by code_simp+
  ultimately show ?thesis using v by auto
qed

lemma sample_snapshots:
  "verifyCustodySnapshot sampleManifest sampleBefore = Inr ()" "verifyCustodySnapshot sampleManifest sampleAfter = Inr ()"
proof -
  from sample_config obtain config al where c: "snd (validateDeployment (dmConfiguration sampleManifest)) = Some (config, al)"
    "deMode (dcEnvironment config) = ''owned-testnet''" "deEvmChainId (dcEnvironment config) = ''11155111''" "dcInitialSupply config = ''90''"
    by (auto simp: sampleManifest_def)
  have b: "validateBlock (csBlock sampleBefore) = Inr ()" "validateBlock (csBlock sampleAfter) = Inr ()"
    unfolding accepted_unit[symmetric] by code_simp+
  have i: "inventoryAddresses sampleManifest = sortText (map cbAddress (csBalances sampleBefore))"
      "inventoryAddresses sampleManifest = sortText (map cbAddress (csBalances sampleAfter))"
      "\<not> list_ex (\<lambda>b. \<not> isEvmAddress (JStr (cbAddress b))) (csBalances sampleBefore)"
      "\<not> list_ex (\<lambda>b. \<not> isEvmAddress (JStr (cbAddress b))) (csBalances sampleAfter)"
    by code_simp+
  have a: "mapE (\<lambda>b. uintC (cbAmount b)) (csBalances sampleBefore) = Inr [50, 0, 40, 0, 0]"
      "mapE (\<lambda>b. uintC (cbAmount b)) (csBalances sampleAfter) = Inr [50, 20, 20, 0, 0]" "num ''90'' = 90"
    by code_simp+
  have g: "csGrants sampleBefore = [sampleVault ''0'' ''16'' ''0'', unfundedVault]" "csGrants sampleAfter = [sampleVault ''20'' ''0'' ''65'', unfundedVault]"
      "length (dmGrants sampleManifest) = 2" "cgGrantId unfundedVault = ''founder''"
    by (simp_all add: sampleBefore_def sampleAfter_def sampleSnapshot_def sampleManifest_def sampleVault_def unfundedVault_def)
  have k: "cgGrantId (sampleVault x y z) = ''team''" for x y z by (simp add: sampleVault_def)
  note t = sample_grants[unfolded accepted_unit]
  have f: "dmToken sampleManifest = Some (csToken sampleBefore)" "csToken sampleAfter = csToken sampleBefore"
      "csSchema sampleBefore = ''agtmai-custody-snapshot-v1''" "csSchema sampleAfter = ''agtmai-custody-snapshot-v1''"
      "csChainId sampleBefore = ''11155111''" "csChainId sampleAfter = ''11155111''"
      "csTotalSupply sampleBefore = ''90''" "csTotalSupply sampleAfter = ''90''"
      "csInitialSupply sampleBefore = ''90''" "csInitialSupply sampleAfter = ''90''"
    by (simp_all add: sampleBefore_def sampleAfter_def sampleSnapshot_def sampleManifest_def)
  show "verifyCustodySnapshot sampleManifest sampleBefore = Inr ()"
    unfolding verifyCustodySnapshot_def c option.case prod.case a b g(1,2) using i f t a(3) g(3-) k by (simp add: setSize_def)
  show "verifyCustodySnapshot sampleManifest sampleAfter = Inr ()"
    unfolding verifyCustodySnapshot_def c option.case prod.case a b g(1,2) using i f t a(3) g(3-) k by (simp add: setSize_def)
qed

lemma sample_bound:
  "bindTransition sampleManifest sampleTransition = Inr (sampleVault ''0'' ''16'' ''0'', sampleVault ''20'' ''0'' ''65'',
     hd (dcGrants (manifestConfig sampleManifest)))"
proof -
  from sample_intent obtain x where x: "canonicalCustodyIntent (ctIntent sampleTransition) = Inr x"
    by (auto simp: accepted_Inr sampleTransition_def)
  have s: "ctBefore sampleTransition = sampleBefore" "ctAfter sampleTransition = sampleAfter" by (simp_all add: sampleTransition_def)
  have b: "validateBlock (ctBlock sampleTransition) = Inr ()" unfolding accepted_unit[symmetric] by code_simp
  have f: "findGrant (ctGrantId sampleTransition) sampleBefore = Some (sampleVault ''0'' ''16'' ''0'')"
      "findGrant (ctGrantId sampleTransition) sampleAfter = Some (sampleVault ''20'' ''0'' ''65'')"
    by code_simp+
  have g: "immutableGrant sampleManifest (sampleVault ''20'' ''0'' ''65'') = Inr (hd (dcGrants (manifestConfig sampleManifest)))"
    by code_simp
  show ?thesis
    unfolding bindTransition_def x s sample_snapshots b f bindE.simps Let_def prod.case option.case by code_simp
qed

lemma sample_step:
  "verifyCustodyTransition sampleManifest sampleTransition = Inr \<lparr>crOperationId = ''team-release'', crTransactionHash = hexDigest (CHR ''e''),
     crGrantId = ''team'', crOperation = ''release'', crTimestamp = ''65'', crReleased = ''20'', crRefunded = ''0'', crVestedDebt = ''0'',
     crRemainingPrincipal = ''20'', crDonations = ''0'', crFeeWei = ''10'', crFounderRejection = False\<rparr>"
  unfolding verifyCustodyTransition_def sample_bound bindE.simps prod.case by code_simp

lemma sample_found:
  "findGrant ''team'' sampleBefore = Some (sampleVault ''0'' ''16'' ''0'')"
  "findGrant ''team'' sampleAfter = Some (sampleVault ''20'' ''0'' ''65'')"
  "ctBefore sampleTransition = sampleBefore" "ctAfter sampleTransition = sampleAfter" "ctGrantId sampleTransition = ''team''"
  by code_simp+

section \<open>Properties\<close>

text \<open>
  The vesting curve: a value is returned exactly for a grant with a positive canonical amount
  and a cliff before its end, at a canonical 64-bit time, and it is the amount in proportion to the
  time elapsed between cliff and end, rounded down. In particular it never exceeds the amount.
\<close>

lemma custodyVested_exact:
  "custodyVested g ts = Inr v \<longleftrightarrow>
     (\<exists>a cliff stop t. curveOf g a cliff stop \<and> 0 \<le> t \<and> t \<le> UINT64_MAX \<and> ts = decInt t \<and> 0 \<le> v \<and> v \<le> a
        \<and> v * (stop - cliff) \<le> a * elapsed cliff stop t \<and> a * elapsed cliff stop t < (v + 1) * (stop - cliff))"
proof -
  have "v = vestedAt a cliff stop t \<longleftrightarrow> 0 \<le> v \<and> v \<le> a
      \<and> v * (stop - cliff) \<le> a * elapsed cliff stop t \<and> a * elapsed cliff stop t < (v + 1) * (stop - cliff)"
    if "curveOf g a cliff stop" for a cliff stop t
    using that vestedAt_rounds[of cliff stop v a t] vestedAt_bounds[of a cliff stop t] by (auto simp: curveOf_def)
  then show ?thesis unfolding custodyVested_Inr by blast
qed

text \<open>
  C25. An accepted snapshot conserves the supply: its balances belong to distinct addresses, which
  are those of the manifest, and add up to the total supply; it covers every grant once; and every
  vault holds exactly what it still owes plus what was donated to it, with what its beneficiary can
  take now at most what it owes.
\<close>

theorem custody_snapshot_conserves:
  assumes "verifyCustodySnapshot manifest snapshot = Inr ()"
  shows "snapshotConserves manifest snapshot"
  using assms by (rule snapshot_conserves)

theorem custody_snapshot_conserves_witness: "snapshotConserves sampleManifest sampleBefore"
  by (rule custody_snapshot_conserves[OF sample_snapshots(1)])

text \<open>
  C2. Refinement: an accepted transition is the step of the abstract vault of its grant that its operation
  names, at what is vested by the curve of this grant in the configuration - its amount, cliff and end - at
  the time of the block. It moves tokens as the step says and no others, on every balance of the inventory, and it
  leaves every other vault as it was.
\<close>

theorem custody_transition_refines:
  assumes "verifyCustodyTransition manifest t = Inr result"
  shows "\<exists>st st' vested eff. transitionOf manifest t st st' vested eff"
  using assms by (rule transition_step)

theorem custody_transition_refines_witness: "\<exists>st st' vested eff. transitionOf sampleManifest sampleTransition st st' vested eff"
  by (rule custody_transition_refines[OF sample_step])

text \<open>
  C12. Over any history of accepted transitions the books of every vault balance: what it released
  is the sum of its proved payments, what it owes moved by its deposits, payments and refunds, it was
  funded and cancelled at most once, and at the end it holds what it owes.
\<close>

theorem custody_history_accounts:
  assumes "custodyHistory manifest s ts s'" "findGrant k s = Some st"
  shows "\<exists>st' effs. findGrant k s' = Some st' \<and> effectsOn k ts effs \<and> booksBalance (vaultOf st) effs (vaultOf st')
    \<and> vaultBacked s' st'"
  using history_books[OF assms] vault_of_snapshot[OF history_snapshot[OF assms(1)]] by blast

lemma sample_history: "custodyHistory sampleManifest sampleBefore [sampleTransition] sampleAfter"
  using custodyHistory.step[OF _ sample_step, of sampleBefore "[]"] custodyHistory.start[OF sample_snapshots(1)]
  by (simp add: sample_found)

theorem custody_history_accounts_witness:
  "\<exists>st' effs. findGrant ''team'' sampleAfter = Some st' \<and> effectsOn ''team'' [sampleTransition] effs
    \<and> booksBalance (vaultOf (sampleVault ''0'' ''16'' ''0'')) effs (vaultOf st') \<and> vaultBacked sampleAfter st'"
  by (rule custody_history_accounts[OF sample_history sample_found(1)])

text \<open>
  C22. Termination: when the next action of a grant is carried out and accepted, fewer operations
  are left for it, of at most five, and it is complete when none is left. So the loop of the custody run
  ends for every grant.
\<close>

theorem custody_operations_terminate:
  assumes "verifyCustodyTransition manifest t = Inr result" "findGrant (ctGrantId t) (ctBefore t) = Some st"
    and "findGrant (ctGrantId t) (ctAfter t) = Some st'" "immutableGrant manifest st = Inr g"
    and "custodyNextAction g st now rejected = Inr (ctOperation t)"
    and "custodyNextAction g st' later (rejected \<or> ctOperation t = ''reject-founder-cancel'') = Inr op"
  shows "operationsLeft g st' (rejected \<or> ctOperation t = ''reject-founder-cancel'') < operationsLeft g st rejected
    \<and> operationsLeft g st rejected \<le> 5
    \<and> (op = ''complete'' \<longleftrightarrow> operationsLeft g st' (rejected \<or> ctOperation t = ''reject-founder-cancel'') = 0)"
  using operations_decrease[OF assms(1-5)] nextAction_complete[OF assms(6)] by (simp add: operationsLeft_def)

lemma sample_actions:
  "immutableGrant sampleManifest (sampleVault ''0'' ''16'' ''0'') = Inr (hd (dcGrants (manifestConfig sampleManifest)))"
  "custodyNextAction (hd (dcGrants (manifestConfig sampleManifest))) (sampleVault ''0'' ''16'' ''0'') ''65'' False = Inr ''release''"
  "custodyNextAction (hd (dcGrants (manifestConfig sampleManifest))) (sampleVault ''20'' ''0'' ''65'') ''66'' False = Inr ''cancel-team''"
  "ctOperation sampleTransition = ''release''"
  by code_simp+

theorem custody_operations_terminate_witness:
  "operationsLeft (hd (dcGrants (manifestConfig sampleManifest))) (sampleVault ''20'' ''0'' ''65'') False
     < operationsLeft (hd (dcGrants (manifestConfig sampleManifest))) (sampleVault ''0'' ''16'' ''0'') False"
  using custody_operations_terminate[OF sample_step, of _ _ _ "''65''" False "''66''" "''cancel-team''"]
  by (simp add: sample_found sample_actions)

end
