(* ===== verification/CustodyRunProps.thy ===== *)
theory CustodyRunProps
  imports CustodyRun CustodyProps
begin

text \<open>
  Invocations of the custody run: over any number of them, in any modes, with any answers of the ports
  and any failures of the writes, the entries of the run record only grow, every operation keeps its
  intent and every intent is sent at most once.
\<close>

section \<open>Weakest preconditions over the world\<close>

definition wpW :: "'a custodyM \<Rightarrow> ('a \<Rightarrow> custodyWorld \<Rightarrow> bool) \<Rightarrow> (custodyWorld \<Rightarrow> bool) \<Rightarrow> custodyWorld \<Rightarrow> bool" where
  "wpW m Q E w \<longleftrightarrow> (case m w of (Inl e, t) \<Rightarrow> E t | (Inr x, t) \<Rightarrow> Q x t)"

lemma wpW_bind [wp_simps]: "wpW (bindW m f) Q E w \<longleftrightarrow> wpW m (\<lambda>x. wpW (f x) Q E) E w"
  by (auto simp: wpW_def bindW_def split: prod.splits sum.splits)

lemma wpW_lift [wp_simps]: "wpW (liftW m) Q E w \<longleftrightarrow> (case m of Inl e \<Rightarrow> E w | Inr x \<Rightarrow> Q x w)"
  by (simp add: wpW_def liftW_def)

lemma wpW_lift_fun [wp_simps]: "wpW (liftW (Inr x)) Q E = Q x" "wpW (liftW (Inl e)) Q E = E"
  by (auto simp: wpW_def liftW_def)

lemma wpW_run: "wpW (runW m) Q E w \<longleftrightarrow> wp m (\<lambda>x s. Q x (w\<lparr>cwRun := s\<rparr>)) (\<lambda>s. E (w\<lparr>cwRun := s\<rparr>)) (cwRun w)"
  by (simp add: wpW_def runW_def wp_def split: prod.splits sum.splits)

lemma wpW_journal: "wpW (journalW i m) Q E w \<longleftrightarrow>
    wp m (\<lambda>x s. Q x (w\<lparr>cwJournals := (cwJournals w)(i := s)\<rparr>)) (\<lambda>s. E (w\<lparr>cwJournals := (cwJournals w)(i := s)\<rparr>)) (cwJournals w i)"
  by (simp add: wpW_def journalW_def wp_def split: prod.splits sum.splits)

lemma wpW_readRun [wp_simps]: "wpW (runW readJ) Q E w \<longleftrightarrow> Q (jsStore (cwRun w)) w"
  by (simp add: wpW_run wp_read)

lemma wpW_readJournal [wp_simps]: "wpW (journalW i readJ) Q E w \<longleftrightarrow> Q (jsStore (cwJournals w i)) w"
  by (simp add: wpW_journal wp_read)

lemma wpW_mono: "wpW m Q E w \<Longrightarrow> (\<And>x t. Q x t \<Longrightarrow> Q' x t) \<Longrightarrow> (\<And>t. E t \<Longrightarrow> E' t) \<Longrightarrow> wpW m Q' E' w"
  by (auto simp: wpW_def split: prod.splits sum.splits)

lemma wpW_state: "wpW m (\<lambda>_. P) P w \<Longrightarrow> P (snd (m w))"
  by (cases "m w") (auto simp: wpW_def split: sum.splits)

section \<open>The invariant\<close>

definition entriesIn :: "custodyWorld \<Rightarrow> custodyEntry list" where
  "entriesIn w = (case jsStore (cwRun w) of None \<Rightarrow> [] | Some r \<Rightarrow> entriesOf r)"

definition completedIn :: "custodyWorld \<Rightarrow> custodyCompleted list" where
  "completedIn w = (case jsStore (cwRun w) of None \<Rightarrow> [] | Some r \<Rightarrow> rrCompleted r)"

definition entryId :: "custodyEntry \<Rightarrow> string" where
  "entryId entry = slOperationId (ceSelection entry)"

definition entryBound :: "custodyEntry \<Rightarrow> bool" where
  "entryBound entry \<longleftrightarrow> getP (theObj (ceIntent entry)) ''operationId'' = JStr (entryId entry)"

definition sentOf :: "custodyWorld \<Rightarrow> jsval \<Rightarrow> string list" where
  "sentOf w i = jsSent (cwJournals w i)"

definition journalLogged :: "custodyJournalRecord journalState \<Rightarrow> bool" where
  "journalLogged s \<longleftrightarrow> jsSent s = [] \<or> (\<exists>r. jsStore s = Some r \<and> jrPhase r \<noteq> ''signed'' \<and> jsSent s = [sgBytes (jrSigned r)])"

definition worldOk :: "custodyWorld \<Rightarrow> bool" where
  "worldOk w \<longleftrightarrow> (\<forall>i. journalLogged (cwJournals w i)) \<and> (\<forall>i. sentOf w i \<noteq> [] \<longrightarrow> i \<in> ceIntent ` set (entriesIn w))
     \<and> distinct (map entryId (entriesIn w)) \<and> (\<forall>entry\<in>set (entriesIn w). entryBound entry)"

text \<open>What an invocation may do to the world; one that only observes sends nothing.\<close>

definition worldStep :: "bool \<Rightarrow> custodyWorld \<Rightarrow> custodyWorld \<Rightarrow> bool" where
  "worldStep observes w w' \<longleftrightarrow> worldOk w' \<and> (observes \<longrightarrow> (\<forall>i. sentOf w' i = sentOf w i))
     \<and> (\<exists>more. entriesIn w' = entriesIn w @ more) \<and> (\<exists>more. completedIn w' = completedIn w @ more)"

lemma validateRun_ok:
  assumes "validateRun r cfg = Inr ()"
  shows "distinct (map entryId (entriesOf r))" "\<forall>entry\<in>set (entriesOf r). entryBound entry"
proof -
  let ?ids = "map (\<lambda>c. slOperationId (ceSelection c)) (rrCompleted r)"
  have ids: "map entryId (map custodyEntry.truncate (rrCompleted r)) = ?ids"
    by (simp add: entryId_def custodyEntry.truncate_def)
  from assms have "distinct ?ids" "case rrCurrent r of None \<Rightarrow> True | Some entry \<Rightarrow> slOperationId (ceSelection entry) \<notin> set ?ids"
    by (auto simp: validateRun_def Let_def bindE_Inr_iff split: option.splits)
  then show "distinct (map entryId (entriesOf r))"
    unfolding entriesOf_def map_append ids by (auto simp: entryId_def split: option.splits)
  from assms show "\<forall>entry\<in>set (entriesOf r). entryBound entry"
    by (auto simp: validateRun_def Let_def bindE_Inr_iff eachE_Inr_iff entryBound_def entryId_def)
qed

section \<open>Writes and journals\<close>

text \<open>A write of the run record that extends the entries, whatever its outcome.\<close>

lemma write_step:
  assumes "worldStep observes w0 w" "\<exists>more. entriesOf r = entriesIn w @ more" "\<exists>more. rrCompleted r = completedIn w @ more"
    and "distinct (map entryId (entriesOf r))" "\<forall>entry\<in>set (entriesOf r). entryBound entry"
  shows "wpW (runW (writeJ r)) (\<lambda>_ t. worldStep observes w0 t \<and> jsStore (cwRun t) = Some r) (worldStep observes w0) w"
proof -
  have new: "worldStep observes w0 (w\<lparr>cwRun := (cwRun w)\<lparr>jsStore := Some r, jsWrites := ws\<rparr>\<rparr>)" for ws
  proof -
    let ?w = "w\<lparr>cwRun := (cwRun w)\<lparr>jsStore := Some r, jsWrites := ws\<rparr>\<rparr>"
    have e: "entriesIn ?w = entriesOf r" "completedIn ?w = rrCompleted r" "cwJournals ?w = cwJournals w" "sentOf ?w = sentOf w"
      by (simp_all add: entriesIn_def completedIn_def sentOf_def[abs_def])
    have "set (entriesIn w) \<subseteq> set (entriesOf r)" using assms(2) by auto
    with assms show ?thesis unfolding worldStep_def worldOk_def e by fastforce
  qed
  have old: "worldStep observes w0 (w\<lparr>cwRun := (cwRun w)\<lparr>jsWrites := ws\<rparr>\<rparr>)" for ws
    using assms(1) by (simp add: worldStep_def worldOk_def entriesIn_def completedIn_def sentOf_def)
  show ?thesis
    unfolding wpW_run by (rule wp_any_write) (simp_all add: new old)
qed

text \<open>A run of the journal of an intent that the record holds.\<close>

lemma custodyJournal_state:
  "wp (runCustodyJournal i i ports observes) (\<lambda>_ t. journalLogged t \<and> (observes \<longrightarrow> jsSent t = jsSent s))
     (\<lambda>t. journalLogged t \<and> (observes \<longrightarrow> jsSent t = jsSent s)) s"
  if "journalLogged s" for s
proof -
  have "wp (runJournal (envelopeOf v) schema canonical ports observes) (\<lambda>_ t. journalLogged t \<and> (observes \<longrightarrow> jsSent t = jsSent s))
     (\<lambda>t. journalLogged t \<and> (observes \<longrightarrow> jsSent t = jsSent s)) s" for v schema canonical
  proof (cases "jsStore s")
    case None
    then have "jsSent s = []" using that by (auto simp: journalLogged_def)
    then show ?thesis
      by (intro wp_mono[OF run_new[OF None]]) (auto simp: firstStep_def journalLogged_def)
  next
    case (Some r)
    show ?thesis
      by (rule wp_mono[OF run_stored[OF Some]]) (use that Some in \<open>auto simp: journalStep_def journalLogged_def succeeds_def\<close>)
  qed
  then show ?thesis
    unfolding runCustodyJournal_def wp_bind wp_lift using that by (auto split: sum.split)
qed

lemma journal_step:
  assumes "worldStep observes w0 w" "i \<in> ceIntent ` set (entriesIn w)"
  shows "wpW (journalW i (runCustodyJournal i i ports observes))
    (\<lambda>_ t. worldStep observes w0 t \<and> cwRun t = cwRun w) (worldStep observes w0) w"
proof -
  have "journalLogged (cwJournals w i)" using assms(1) by (simp add: worldStep_def worldOk_def)
  moreover have "worldStep observes w0 (w\<lparr>cwJournals := (cwJournals w)(i := t)\<rparr>)"
    if "journalLogged t" "observes \<longrightarrow> jsSent t = jsSent (cwJournals w i)" for t
  proof -
    let ?w = "w\<lparr>cwJournals := (cwJournals w)(i := t)\<rparr>"
    have e: "entriesIn ?w = entriesIn w" "completedIn ?w = completedIn w" by (simp_all add: entriesIn_def completedIn_def)
    show ?thesis using assms that unfolding worldStep_def worldOk_def e by (auto simp: sentOf_def)
  qed
  ultimately show ?thesis
    unfolding wpW_journal by (intro wp_mono[OF custodyJournal_state]) auto
qed

section \<open>The steps of an invocation\<close>

lemma entries_failed [simp]: "entriesOf (failedRecord r c h reason) = entriesOf r" "rrCompleted (failedRecord r c h reason) = rrCompleted r"
  by (simp_all add: failedRecord_def entriesOf_def)

lemma entries_completed:
  "rrCurrent r = Some c \<Longrightarrow> entriesOf (r\<lparr>rrCurrent := None, rrCompleted := rrCompleted r
     @ [\<lparr>ceSelection = ceSelection c, ceIntent = ceIntent c, ccTransactionHash = h, ccEvidenceSha256 = e\<rparr>]\<rparr>) = entriesOf r"
  by (simp add: entriesOf_def custodyEntry.truncate_def)

lemma stored_entries: "jsStore (cwRun w) = Some r \<Longrightarrow> entriesIn w = entriesOf r \<and> completedIn w = rrCompleted r"
  by (simp add: entriesIn_def completedIn_def)

lemma step_ok: "worldStep observes w0 w \<Longrightarrow> distinct (map entryId (entriesIn w)) \<and> (\<forall>entry\<in>set (entriesIn w). entryBound entry)"
  by (simp add: worldStep_def worldOk_def)

lemma settleCurrent_step:
  assumes w: "worldStep observes w0 w" and r: "jsStore (cwRun w) = Some r" and c: "rrCurrent r = Some c"
  shows "wpW (settleCurrent r c ports result journal) (\<lambda>_. worldStep observes w0) (worldStep observes w0) w"
proof -
  note e = stored_entries[OF r]
  have written: "wpW (runW (writeJ r')) (\<lambda>_. worldStep observes w0) (worldStep observes w0) w"
    if "entriesOf r' = entriesOf r" "\<exists>more. rrCompleted r' = rrCompleted r @ more" for r'
    by (rule wpW_mono[OF write_step[OF w]]) (use that e step_ok[OF w] in auto)
  have failed: "wpW (runW (writeJ (failedRecord r c h reason))) (\<lambda>_. worldStep observes w0) (worldStep observes w0) w" for h reason
    by (rule written) simp_all
  have completed: "wpW (runW (writeJ (r\<lparr>rrCurrent := None, rrCompleted := rrCompleted r
     @ [\<lparr>ceSelection = ceSelection c, ceIntent = ceIntent c, ccTransactionHash = h, ccEvidenceSha256 = x\<rparr>]\<rparr>)))
     (\<lambda>_. worldStep observes w0) (worldStep observes w0) w" for h x
    by (rule written[OF entries_completed[OF c]]) simp
  show ?thesis
    unfolding settleCurrent_def Let_def using w failed completed by (auto simp: wp_simps split: sum.split)
qed

lemma current_intent: "rrCurrent r = Some c \<Longrightarrow> c \<in> set (entriesOf r)"
  by (simp add: entriesOf_def)

lemma advanceCurrent_step:
  assumes w: "worldStep observes w0 w" and r: "jsStore (cwRun w) = Some r" and c: "rrCurrent r = Some c"
    and o: "observes \<longleftrightarrow> mode \<noteq> ''next''"
  shows "wpW (advanceCurrent mode r c ports result) (\<lambda>_. worldStep observes w0) (worldStep observes w0) w"
proof -
  have i: "ceIntent c \<in> ceIntent ` set (entriesIn w)" using stored_entries[OF r] current_intent[OF c] by simp
  have "wpW (journalW (ceIntent c) (runCustodyJournal (ceIntent c) (ceIntent c) jports (mode \<noteq> ''next'')))
      (\<lambda>x. wpW (settleCurrent r c ports result x) (\<lambda>_. worldStep observes w0) (worldStep observes w0)) (worldStep observes w0) w" for jports
    unfolding o[symmetric]
    by (rule wpW_mono[OF journal_step[OF w i]]) (use r c in \<open>auto intro: settleCurrent_step\<close>)
  then show ?thesis
    unfolding advanceCurrent_def Let_def using w by (auto simp: wp_simps split: sum.split)
qed

lemma chooseCurrent_step:
  assumes w: "worldStep observes w0 w"
    and r: "jsStore (cwRun w) = Some r \<or> jsStore (cwRun w) = None \<and> r = newRun cfg"
  shows "wpW (chooseCurrent mode environment manifest inspected snapshot r ports)
    (\<lambda>x t. worldStep observes w0 t \<and> (case x of Inl _ \<Rightarrow> True
       | Inr (r', c) \<Rightarrow> jsStore (cwRun t) = Some r' \<and> rrCurrent r' = Some c)) (worldStep observes w0) w"
proof (cases "rrCurrent r")
  case (Some c)
  with r have "jsStore (cwRun w) = Some r" by (auto simp: newRun_def)
  with Some w show ?thesis by (simp add: chooseCurrent_def wp_simps)
next
  case None
  have e: "entriesOf r = entriesIn w" "rrCompleted r = completedIn w"
    using r by (auto simp: entriesIn_def completedIn_def newRun_def entriesOf_def)
  have written: "wpW (runW (writeJ (r\<lparr>rrCurrent := Some c\<rparr>)))
      (\<lambda>_ t. worldStep observes w0 t \<and> jsStore (cwRun t) = Some (r\<lparr>rrCurrent := Some c\<rparr>)) (worldStep observes w0) w"
    if "validateRun (r\<lparr>rrCurrent := Some c\<rparr>) digest = Inr ()" for c digest
  proof (rule write_step[OF w])
    have "entriesOf (r\<lparr>rrCurrent := Some c\<rparr>) = entriesIn w @ [c]" using None e by (simp add: entriesOf_def)
    then show "\<exists>more. entriesOf (r\<lparr>rrCurrent := Some c\<rparr>) = entriesIn w @ more" by blast
  qed (use validateRun_ok[OF that] e in auto)
  show ?thesis
    unfolding chooseCurrent_def None option.case Let_def
    using w by (auto simp: wp_simps intro!: wpW_mono[OF written] split: sum.split custodyNext.split)
qed

lemma runCustody_step:
  assumes w: "worldOk w"
  shows "wpW (runCustody mode manifest ports) (\<lambda>_. worldStep (mode \<noteq> ''next'') w) (worldStep (mode \<noteq> ''next'') w) w"
proof -
  let ?o = "mode \<noteq> ''next''" let ?cfg = "dmConfigurationSha256 manifest"
  have start: "worldStep ?o w w" using w by (simp add: worldStep_def)
  let ?r = "case jsStore (cwRun w) of None \<Rightarrow> newRun ?cfg | Some r \<Rightarrow> r"
  have r: "jsStore (cwRun w) = Some ?r \<or> jsStore (cwRun w) = None \<and> ?r = newRun ?cfg" by (cases "jsStore (cwRun w)") auto
  have advance: "wpW (chooseCurrent mode environment manifest inspected snapshot ?r ports)
      (\<lambda>x. wpW (case x of Inl result \<Rightarrow> liftW (Inr result)
         | Inr (record', current) \<Rightarrow> advanceCurrent mode record' current ports (runResult mode environment record'))
       (\<lambda>_. worldStep ?o w) (worldStep ?o w)) (worldStep ?o w) w" for environment inspected snapshot
    by (rule wpW_mono[OF chooseCurrent_step[OF start r]])
      (auto simp: wp_simps split: sum.splits prod.splits intro!: advanceCurrent_step)
  show ?thesis
    unfolding runCustody_def Let_def
    using start advance by (auto simp: wp_simps split: option.split sum.split prod.split)
qed

section \<open>Any number of invocations\<close>

text \<open>The mode, the manifest, the ports and the outcomes of the writes of an invocation.\<close>

type_synonym invocation = "string \<times> deploymentManifest \<times> custodyRunPorts \<times> writeOutcome list \<times> (jsval \<Rightarrow> writeOutcome list)"

definition withWrites :: "writeOutcome list \<Rightarrow> (jsval \<Rightarrow> writeOutcome list) \<Rightarrow> custodyWorld \<Rightarrow> custodyWorld" where
  "withWrites ws js w = w\<lparr>cwRun := (cwRun w)\<lparr>jsWrites := ws\<rparr>, cwJournals := \<lambda>i. (cwJournals w i)\<lparr>jsWrites := js i\<rparr>\<rparr>"

definition invoke :: "invocation \<Rightarrow> custodyWorld \<Rightarrow> custodyWorld" where
  "invoke call w = (case call of (mode, manifest, ports, ws, js) \<Rightarrow> snd (runCustody mode manifest ports (withWrites ws js w)))"

definition newWorld :: custodyWorld where
  "newWorld = \<lparr>cwRun = newJournal, cwJournals = \<lambda>_. newJournal\<rparr>"

inductive custodyRuns :: "custodyWorld \<Rightarrow> bool" where
  fresh: "custodyRuns newWorld"
| again: "custodyRuns w \<Longrightarrow> custodyRuns (invoke call w)"

lemma withWrites_same:
  "entriesIn (withWrites ws js w) = entriesIn w" "completedIn (withWrites ws js w) = completedIn w"
  "sentOf (withWrites ws js w) = sentOf w" "worldOk (withWrites ws js w) = worldOk w"
  by (simp_all add: withWrites_def entriesIn_def completedIn_def sentOf_def[abs_def] worldOk_def journalLogged_def)

lemma invoke_step:
  assumes "worldOk w"
  shows "worldStep (fst call \<noteq> ''next'') w (invoke call w)"
proof -
  obtain mode manifest ports ws js where call: "call = (mode, manifest, ports, ws, js)" by (cases call)
  have "worldOk (withWrites ws js w)" using assms by (simp add: withWrites_same)
  from wpW_state[OF runCustody_step[OF this]] show ?thesis
    by (simp add: invoke_def call worldStep_def withWrites_same)
qed

lemma runs_ok: "custodyRuns w \<Longrightarrow> worldOk w"
proof (induction rule: custodyRuns.induct)
  case fresh
  then show ?case by (simp add: worldOk_def newWorld_def newJournal_def journalLogged_def sentOf_def entriesIn_def)
next
  case (again w call)
  from invoke_step[OF again.IH] show ?case by (simp add: worldStep_def)
qed

lemma sends_once:
  assumes "worldOk w"
  shows "length (sentOf w i) \<le> 1"
    and "sentOf w i \<noteq> [] \<Longrightarrow> sentOf w j \<noteq> [] \<Longrightarrow> getP (theObj i) ''operationId'' = getP (theObj j) ''operationId'' \<Longrightarrow> i = j"
proof -
  have "journalLogged (cwJournals w i)" using assms by (simp add: worldOk_def)
  then show "length (sentOf w i) \<le> 1" by (auto simp: journalLogged_def sentOf_def)
  assume s: "sentOf w i \<noteq> []" "sentOf w j \<noteq> []" and op: "getP (theObj i) ''operationId'' = getP (theObj j) ''operationId''"
  with assms obtain e f where e: "e \<in> set (entriesIn w)" "i = ceIntent e" and f: "f \<in> set (entriesIn w)" "j = ceIntent f"
    unfolding worldOk_def by blast
  with assms have "entryBound e" "entryBound f" "distinct (map entryId (entriesIn w))" by (auto simp: worldOk_def)
  with op e f have "e = f" by (auto simp: entryBound_def distinct_map dest: inj_onD)
  with e f show "i = j" by simp
qed

section \<open>A first invocation\<close>

definition sampleCreation :: deploymentManifest where
  "sampleCreation = sampleManifest\<lparr>dmToken := None, dmGrants := []\<rparr>"

definition sampleAllocations :: "normalizedAllocation list" where
  "sampleAllocations = the (snd (normalizeAllocationSet ''90'' (Some (dcAllocations (configOf (theObj sampleDeployment)))) Deployment))"

definition sampleConstructor :: string where
  "sampleConstructor = ''0x'' @ replicate 128 (CHR ''0'') @ addressWord (hexAddress (CHR ''8''))"

definition sampleCreationIntent :: jsval where
  "sampleCreationIntent = JObj Plain
    [(''schema'', JStr ''agtmai-custody-intent-v2''), (''configurationSha256'', JStr (hexDigest (CHR ''1''))),
     (''operationId'', JStr ''deploy-token''), (''operation'', JStr ''deploy-token''), (''environment'', JStr ''owned-testnet''),
     (''chainId'', JStr ''11155111''), (''kind'', JStr ''deploy''), (''from'', JStr (hexAddress (CHR ''9''))), (''to'', JNull),
     (''nonce'', JStr ''0''), (''value'', JStr ''0''), (''data'', JStr (''0x60'' @ drop 2 sampleConstructor)), (''callerRole'', JStr ''deployer''),
     (''prerequisiteSha256'', JStr (hexDigest (CHR ''2''))), (''gasLimit'', JStr ''9''), (''maxFeePerGasWei'', JStr ''7''),
     (''maxPriorityFeePerGasWei'', JStr ''0''),
     (''deployment'', JObj Plain [(''contract'', JStr ''AGTMAICCIPToken''), (''artifactSha256'', JStr (hexDigest (CHR ''3''))),
        (''creationBytecode'', JStr ''0x60''), (''constructorBytes'', JStr sampleConstructor), (''administrator'', JStr (hexAddress (CHR ''8'')))]),
     (''safe'', JNull)]"

definition sampleJournalPorts :: "custodyEnvelope journalPorts" where
  "sampleJournalPorts = \<lparr>jpReadFails = None,
     jpSign = \<lambda>_. Inr \<lparr>sgBytes = ''0xaa'', sgHash = hexDigest (CHR ''e'')\<rparr>,
     jpInspectSigned = \<lambda>_. Inr \<lparr>otHash = hexDigest (CHR ''e''), otChainId = ''11155111'', otFrom = hexAddress (CHR ''9''), otTo = None,
        otData = ''0x60'' @ drop 2 sampleConstructor, otValue = ''0'', otNonce = ''0''\<rparr>,
     jpObserve = \<lambda>_. Inr NotFoundTx, jpBroadcast = \<lambda>_. Inr (hexDigest (CHR ''e''))\<rparr>"

definition sampleRunPorts :: custodyRunPorts where
  "sampleRunPorts = \<lparr>rpReadFails = None,
     rpInspect = \<lambda>_. Inr (sampleCreation\<lparr>dmConfiguration := normalizedValue sampleDeployment sampleAllocations\<rparr>, None),
     rpPrepare = \<lambda>_ _ _. Inr sampleCreationIntent, rpJournal = \<lambda>_. sampleJournalPorts, rpReadJournalFails = \<lambda>_. None,
     rpPreflight = \<lambda>_ _. Inr (), rpProve = \<lambda>_ _ _. Inl (Err ''unavailable'')\<rparr>"

lemma sample_validated:
  "snd (validateDeployment sampleDeployment)
    = Some (normalizedConfig (configOf (theObj sampleDeployment)) sampleAllocations, sampleAllocations)"
proof -
  from sample_accepted obtain config al where v: "validateDeployment sampleDeployment = ([], Some (config, al))" by blast
  have "al = toSorted (compareKey idBytes32) (map normalizedOf (dcAllocations (configOf (theObj sampleDeployment))))"
      "config = normalizedConfig (configOf (theObj sampleDeployment)) al"
    using v unfolding validateDeployment_Some by simp_all
  moreover have "toSorted (compareKey idBytes32) (map normalizedOf (dcAllocations (configOf (theObj sampleDeployment)))) = sampleAllocations"
    by code_simp
  ultimately show ?thesis using v by simp
qed

definition sampleWorld :: custodyWorld where
  "sampleWorld = invoke (''next'', sampleCreation, sampleRunPorts, [], \<lambda>_. []) newWorld"

definition sampleEntry :: custodyEntry where
  "sampleEntry = \<lparr>ceSelection = \<lparr>slOperationId = ''deploy-token'', slOperation = ''deploy-token'', slGrantId = None\<rparr>,
     ceIntent = sampleCreationIntent\<rparr>"

definition sampleCreationRecord :: custodyJournalRecord where
  "sampleCreationRecord = \<lparr>jrSchema = ''agtmai-custody-journal-v2'', jrIntent = envelopeOf (sortKeys sampleCreationIntent),
     jrSigned = \<lparr>sgBytes = ''0xaa'', sgHash = hexDigest (CHR ''e'')\<rparr>, jrPhase = ''signed'', jrReceipt = None\<rparr>"

lemma sample_creation_intent:
  "accepted (canonicalCustodyIntent sampleCreationIntent)" "accepted (canonicalCustodyIntent (sortKeys sampleCreationIntent))"
  by code_simp+

lemma sample_value: "accepted (canonicalJson (normalizedValue sampleDeployment sampleAllocations))"
  by code_simp

lemma sample_records:
  "accepted (validateRun (newRun (hexDigest (CHR ''1''))) (hexDigest (CHR ''1'')))"
  "accepted (validateRun ((newRun (hexDigest (CHR ''1'')))\<lparr>rrCurrent := Some sampleEntry\<rparr>) (hexDigest (CHR ''1'')))"
  by code_simp+

lemma sample_signed:
  "exactTransaction \<lparr>otHash = hexDigest (CHR ''e''), otChainId = ''11155111'', otFrom = hexAddress (CHR ''9''), otTo = None,
        otData = ''0x60'' @ drop 2 sampleConstructor, otValue = ''0'', otNonce = ''0''\<rparr> sampleCreationRecord"
  "isHexBytes ''0xaa''" "isTxHash (hexDigest (CHR ''e''))" "equalHex (hexDigest (CHR ''e'')) (hexDigest (CHR ''e''))"
  by code_simp+

lemma sample_journal:
  "wp (runCustodyJournal sampleCreationIntent sampleCreationIntent sampleJournalPorts False)
     (\<lambda>x t. resStatus x = ''unresolved'' \<and> jsSent t = [''0xaa'']) (\<lambda>_. False) newJournal"
proof -
  obtain t where t: "canonicalCustodyIntent sampleCreationIntent = Inr t" using sample_creation_intent by (auto simp: accepted_Inr)
  then have v: "validateCustodyIntent sampleCreationIntent sampleCreationIntent = Inr (sortKeys sampleCreationIntent)"
    by (simp add: validateCustodyIntent_def)
  obtain t' where t': "canonicalCustodyIntent (sortKeys sampleCreationIntent) = Inr t'" using sample_creation_intent by (auto simp: accepted_Inr)
  have "validateRecord sampleCreationRecord (envelopeOf (sortKeys sampleCreationIntent)) ''agtmai-custody-journal-v2''
      (\<lambda>i. canonicalCustodyIntent (jiCustody i)) = Inr ()"
    using t' sample_signed by (simp add: validateRecord_def sampleCreationRecord_def envelopeOf_def Let_def)
  moreover have "jrPhase sampleCreationRecord = ''signed''" "sgHash (jrSigned sampleCreationRecord) = hexDigest (CHR ''e'')"
      "sgBytes (jrSigned sampleCreationRecord) = ''0xaa''"
    by (simp_all add: sampleCreationRecord_def)
  ultimately show ?thesis
    using sample_signed
    by (simp add: runCustodyJournal_def runJournal_def loadRecord_def advanceRecord_def submitRecord_def unresolvedJ_def v wp_simps wp_write
        sampleJournalPorts_def newJournal_def Let_def flip: sampleCreationRecord_def)
qed

lemma sample_chosen:
  "selectCustodyOperation (sampleCreation\<lparr>dmConfiguration := v\<rparr>) None r = Inr (Select (ceSelection sampleEntry))"
  by (simp add: selectCustodyOperation_def sampleCreation_def sampleEntry_def)

lemma wp_run_sent: "wpW m (\<lambda>_ t. sentOf t i = x) (\<lambda>_. False) w \<Longrightarrow> sentOf (snd (m w)) i = x"
  by (auto simp: wpW_def split: prod.splits sum.splits)

lemma sample_facts:
  "deMode (dcEnvironment (normalizedConfig (configOf (theObj sampleDeployment)) sampleAllocations)) = ''owned-testnet''"
  "dcStatus (normalizedConfig (configOf (theObj sampleDeployment)) sampleAllocations) = ''test-only''"
  "list_ex (\<lambda>g. dgKind g = ''team'') (dcGrants (normalizedConfig (configOf (theObj sampleDeployment)) sampleAllocations))"
  "list_ex (\<lambda>g. dgKind g = ''founder'') (dcGrants (normalizedConfig (configOf (theObj sampleDeployment)) sampleAllocations))"
  by code_simp+

lemma sample_first_run:
  "wpW (runCustody ''next'' sampleCreation sampleRunPorts) (\<lambda>_ t. sentOf t sampleCreationIntent = [''0xaa'']) (\<lambda>_. False) newWorld"
proof -
  let ?digest = "hexDigest (CHR ''1'')" and ?r = "newRun (hexDigest (CHR ''1''))"
  have c: "dmConfiguration sampleCreation = sampleDeployment" "dmConfigurationSha256 sampleCreation = ?digest"
    by (simp_all add: sampleCreation_def sampleManifest_def)
  have p: "rpReadFails sampleRunPorts = None"
      "rpInspect sampleRunPorts r = Inr (sampleCreation\<lparr>dmConfiguration := normalizedValue sampleDeployment sampleAllocations\<rparr>, None)"
      "rpPrepare sampleRunPorts sel m sn = Inr sampleCreationIntent" "rpJournal sampleRunPorts i = sampleJournalPorts"
      "rpReadJournalFails sampleRunPorts i = None" "rpPreflight sampleRunPorts i sel = Inr ()" for r sel m sn i
    by (simp_all add: sampleRunPorts_def)
  have same: "sameValue (normalizedValue sampleDeployment sampleAllocations) (normalizedValue sampleDeployment sampleAllocations) = Inr True"
    using sample_value by (auto simp: accepted_Inr sameValue_def)
  have r: "rrFailure ?r = None" "rrConfigurationSha256 ?r = ?digest" "rrCurrent ?r = None" "rrCompleted ?r = []"
    by (simp_all add: newRun_def)
  have e: "\<lparr>ceSelection = ceSelection sampleEntry, ceIntent = sampleCreationIntent\<rparr> = sampleEntry" "ceIntent sampleEntry = sampleCreationIntent"
    by (simp_all add: sampleEntry_def)
  note v = sample_records[unfolded accepted_unit]
  have settle: "wpW (settleCurrent rec cur sampleRunPorts result x) (\<lambda>_ t. sentOf t sampleCreationIntent = [''0xaa'']) (\<lambda>_. False) w"
    if "resStatus x = ''unresolved''" "sentOf w sampleCreationIntent = [''0xaa'']" for rec cur result x w
    using that by (simp add: settleCurrent_def Let_def wp_simps)
  have journal: "wpW (journalW sampleCreationIntent (runCustodyJournal sampleCreationIntent sampleCreationIntent sampleJournalPorts False))
      (\<lambda>x. wpW (settleCurrent rec cur sampleRunPorts result x) (\<lambda>_ t. sentOf t sampleCreationIntent = [''0xaa'']) (\<lambda>_. False)) (\<lambda>_. False) w"
    if "cwJournals w sampleCreationIntent = newJournal" for rec cur result w
    unfolding wpW_journal that by (rule wp_mono[OF sample_journal], rule settle) (simp_all add: sentOf_def)
  have advance: "wpW (advanceCurrent ''next'' rec sampleEntry sampleRunPorts result)
      (\<lambda>_ t. sentOf t sampleCreationIntent = [''0xaa'']) (\<lambda>_. False) w"
    if "cwJournals w sampleCreationIntent = newJournal" for rec result w
    using journal[OF that, of rec sampleEntry result] that
    by (simp add: advanceCurrent_def Let_def wp_simps p e newJournal_def)
  have choose: "wpW (chooseCurrent ''next'' environment sampleCreation (sampleCreation\<lparr>dmConfiguration := v\<rparr>) None ?r sampleRunPorts)
      (\<lambda>x t. (\<exists>rec. x = Inr (rec, sampleEntry)) \<and> cwJournals t sampleCreationIntent = newJournal) (\<lambda>_. False) newWorld" for environment v
    using v(2) by (simp add: chooseCurrent_def r sample_chosen p e Let_def wp_simps c wpW_run wp_write newWorld_def newJournal_def)
  have rest: "wpW (chooseCurrent ''next'' environment sampleCreation (sampleCreation\<lparr>dmConfiguration := v\<rparr>) None ?r sampleRunPorts)
      (\<lambda>x. wpW (case x of Inl result \<Rightarrow> liftW (Inr result)
         | Inr (record', current) \<Rightarrow> advanceCurrent ''next'' record' current sampleRunPorts (runResult ''next'' environment record'))
       (\<lambda>_ t. sentOf t sampleCreationIntent = [''0xaa'']) (\<lambda>_. False)) (\<lambda>_. False) newWorld" for environment v
    by (rule wpW_mono[OF choose]) (auto intro!: advance)
  have new: "jsStore (cwRun newWorld) = None" by (simp add: newWorld_def newJournal_def)
  show ?thesis
    unfolding runCustody_def c sample_validated option.case prod.case Let_def
    using rest v(1) same by (simp add: wp_simps sample_facts p c r new)
qed

lemma sample_first_sent: "sentOf sampleWorld sampleCreationIntent = [''0xaa'']"
proof -
  have "withWrites [] (\<lambda>_. []) newWorld = newWorld" by (simp add: withWrites_def newWorld_def newJournal_def)
  then show ?thesis unfolding sampleWorld_def invoke_def prod.case using wp_run_sent[OF sample_first_run] by simp
qed

section \<open>Properties\<close>

text \<open>
  C3. Over any number of invocations of the custody run, in any modes, with any manifests, any
  answers of the ports and any writes that fail before or after they take effect: no intent is ever
  sent twice, and no two different intents of one operation are ever sent.
\<close>

theorem custody_run_sends_once:
  assumes "custodyRuns w"
  shows "\<forall>i j. length (sentOf w i) \<le> 1
    \<and> (sentOf w i \<noteq> [] \<and> sentOf w j \<noteq> [] \<and> getP (theObj i) ''operationId'' = getP (theObj j) ''operationId'' \<longrightarrow> i = j)"
  using sends_once[OF runs_ok[OF assms]] by blast

theorem custody_run_sends_once_witness:
  "sentOf sampleWorld sampleCreationIntent = [''0xaa''] \<and> length (sentOf sampleWorld sampleCreationIntent) \<le> 1"
proof -
  have "custodyRuns sampleWorld" unfolding sampleWorld_def by (intro custodyRuns.intros)
  from custody_run_sends_once[OF this] sample_first_sent show ?thesis by blast
qed

text \<open>
  C4. An invocation only appends to the history of the run: every entry of the record keeps its
  operation and its intent, every completed operation keeps its evidence, and an invocation to
  prepare, reconcile or report sends nothing, whatever its ports answer.
\<close>

theorem custody_run_append_only:
  assumes "custodyRuns w"
  shows "(fst call \<noteq> ''next'' \<longrightarrow> (\<forall>i. sentOf (invoke call w) i = sentOf w i))
    \<and> (\<exists>more. entriesIn (invoke call w) = entriesIn w @ more) \<and> (\<exists>more. completedIn (invoke call w) = completedIn w @ more)"
  using invoke_step[OF runs_ok[OF assms], of call] by (simp add: worldStep_def)

theorem custody_run_append_only_witness:
  "(\<forall>i. sentOf (invoke (''reconcile'', sampleCreation, sampleRunPorts, [], \<lambda>_. []) sampleWorld) i = sentOf sampleWorld i)
   \<and> (\<exists>more. entriesIn (invoke (''reconcile'', sampleCreation, sampleRunPorts, [], \<lambda>_. []) sampleWorld) = entriesIn sampleWorld @ more)"
proof -
  have "custodyRuns sampleWorld" unfolding sampleWorld_def by (intro custodyRuns.intros)
  from custody_run_append_only[OF this, of "(''reconcile'', sampleCreation, sampleRunPorts, [], \<lambda>_. [])"] show ?thesis by simp
qed

end
