(* ===== verification/OutputIo.thy ===== *)
theory OutputIo
  imports RawArtifact
begin

text \<open>
  The effects of the planner's output directory
  (\<open>tooling/deployment-plan/src/adapters/safe-output.ts\<close>): calls of the file system, whose answers are
  given by an environment that may answer anything and let any call fail, and the state of the output
  object. A run keeps the log of its calls with their success.
\<close>

section \<open>Errors and answers\<close>

text \<open>A thrown value: what \<open>fail\<close> throws, an error of the system with its code, or an \<open>AggregateError\<close>.\<close>

datatype outError = Thrown js_error | SystemError "string option" | AggregateError "outError list"

definition outFailure :: "string \<Rightarrow> outError" where
  "outFailure failure = Thrown (PlanErr failure)"

text \<open>\<open>nodeErrorCode\<close>\<close>

fun nodeErrorCode :: "outError \<Rightarrow> string option" where
  "nodeErrorCode (Thrown (PlanErr failure)) = Some failure"
| "nodeErrorCode (SystemError failure) = failure"
| "nodeErrorCode _ = None"

record fileStats =
  fsFile :: bool
  fsDirectory :: bool
  fsSymlink :: bool
  fsNlink :: int
  fsUid :: int
  fsMode :: int
  fsDev :: int
  fsIno :: int
  fsCtime :: int
  fsMtime :: int
  fsSize :: int

record directoryIdentity =
  diDev :: int
  diIno :: int

record fileIdentity = directoryIdentity +
  fiCtime :: int
  fiSize :: int

text \<open>A file handle is the number of the call that opened it.\<close>

record heldLeaf =
  hlHandle :: nat
  hlIdentity :: fileIdentity
  hlBytes :: "nat list"

text \<open>
  The calls. \<open>RenameNoReplace\<close> is the native helper with the handles of source parent, source and
  destination parent and the two leaf names; \<open>Hook\<close> is a function of \<open>OutputFaultInjection\<close>.
\<close>

datatype ioCall =
    Lstat string
  | Realpath string
  | Readdir string
  | Mkdir string
  | OpenDirectory string
  | OpenExclusive string
  | OpenRead string
  | Rename string string
  | RenameNoReplace nat nat nat string string
  | Stat nat
  | Sync nat
  | Chmod nat
  | WriteFile nat "nat list"
  | ReadFile nat
  | ReadAt nat int
  | ReadFrom nat nat nat
  | Close nat
  | RandomName
  | Hook string
  | Now

record ioAnswer =
  anError :: "outError option"
  anStats :: fileStats
  anText :: string
  anNames :: "string list"
  anBytes :: "nat list"
  anValue :: jsval

record outEnv =
  oeAnswer :: "nat \<Rightarrow> ioAnswer"
  oeUid :: "int option"

section \<open>Runs\<close>

datatype finalizationState = Pending | Durable | Uncertain

text \<open>
  The log, the fields of \<open>LocalClaimedOutputDirectory\<close> that change, and \<open>closed\<close> of the published bundle that
  is handed out for the directory (\<open>composition/index.ts\<close>).
\<close>

record outWorld =
  owClock :: nat
  owLog :: "(ioCall \<times> bool) list"
  owLeaves :: "(string \<times> heldLeaf) list"
  owPublished :: bool
  owFinalization :: finalizationState
  owStagingDisposed :: bool
  owTargetIdentity :: "directoryIdentity option"
  owClosed :: "(outError + unit) option"
  owBundleClosed :: bool

type_synonym 'a outM = "outEnv \<Rightarrow> outWorld \<Rightarrow> (outError + 'a) \<times> outWorld"

definition returnO :: "'a \<Rightarrow> 'a outM" where
  "returnO x env s = (Inr x, s)"

definition throwO :: "outError \<Rightarrow> 'a outM" where
  "throwO e env s = (Inl e, s)"

definition bindO :: "'a outM \<Rightarrow> ('a \<Rightarrow> 'b outM) \<Rightarrow> 'b outM" where
  "bindO m f env s = (case m env s of (Inl e, t) \<Rightarrow> (Inl e, t) | (Inr x, t) \<Rightarrow> f x env t)"

text \<open>\<open>try { m } catch (e) { h(e) }\<close>\<close>

definition catchO :: "'a outM \<Rightarrow> (outError \<Rightarrow> 'a outM) \<Rightarrow> 'a outM" where
  "catchO m h env s = (case m env s of (Inl e, t) \<Rightarrow> h e env t | (Inr x, t) \<Rightarrow> (Inr x, t))"

text \<open>The outcome of \<open>m\<close> as a value.\<close>

definition tryO :: "'a outM \<Rightarrow> (outError + 'a) outM" where
  "tryO m env s = (case m env s of (r, t) \<Rightarrow> (Inr r, t))"

definition liftO :: "js_error + 'a \<Rightarrow> 'a outM" where
  "liftO r = (case r of Inl e \<Rightarrow> throwO (Thrown e) | Inr x \<Rightarrow> returnO x)"

definition failIfO :: "bool \<Rightarrow> string \<Rightarrow> unit outM" where
  "failIfO b failure = (if b then throwO (outFailure failure) else returnO ())"

definition getsO :: "(outWorld \<Rightarrow> 'a) \<Rightarrow> 'a outM" where
  "getsO f env s = (Inr (f s), s)"

definition modifyO :: "(outWorld \<Rightarrow> outWorld) \<Rightarrow> unit outM" where
  "modifyO f env s = (Inr (), f s)"

definition uidO :: "int option outM" where
  "uidO env s = (Inr (oeUid env), s)"

definition callO :: "ioCall \<Rightarrow> (ioAnswer \<Rightarrow> 'a) \<Rightarrow> 'a outM" where
  "callO c f env s =
     (let a = oeAnswer env (owClock s);
          t = s\<lparr>owClock := Suc (owClock s), owLog := owLog s @ [(c, anError a = None)]\<rparr> in
      case anError a of Some e \<Rightarrow> (Inl e, t) | None \<Rightarrow> (Inr (f a), t))"

abbreviation doO :: "ioCall \<Rightarrow> unit outM" where
  "doO c \<equiv> callO c (\<lambda>_. ())"

definition openO :: "ioCall \<Rightarrow> nat outM" where
  "openO c = bindO (getsO owClock) (\<lambda>h. callO c (\<lambda>_. h))"

fun eachO :: "('a \<Rightarrow> unit outM) \<Rightarrow> 'a list \<Rightarrow> unit outM" where
  "eachO f [] = returnO ()"
| "eachO f (x # xs) = bindO (f x) (\<lambda>_. eachO f xs)"

fun mapO :: "('a \<Rightarrow> 'b outM) \<Rightarrow> 'a list \<Rightarrow> 'b list outM" where
  "mapO f [] = returnO []"
| "mapO f (x # xs) = bindO (f x) (\<lambda>y. bindO (mapO f xs) (\<lambda>ys. returnO (y # ys)))"

section \<open>Paths\<close>

text \<open>POSIX paths of \<open>node:path\<close>: the segments of an absolute path, \<open>.\<close> and \<open>..\<close> resolved.\<close>

fun resolveSegments :: "string list \<Rightarrow> string list \<Rightarrow> string list" where
  "resolveSegments acc [] = rev acc"
| "resolveSegments acc (seg # segs) =
     (if seg = [] \<or> seg = ''.'' then resolveSegments acc segs
      else if seg = ''..'' then resolveSegments (drop 1 acc) segs
      else resolveSegments (seg # acc) segs)"

definition pathSegments :: "string \<Rightarrow> string list" where
  "pathSegments path = resolveSegments [] (splitOn (CHR ''/'') path)"

definition pathOf :: "string list \<Rightarrow> string" where
  "pathOf segs = (if segs = [] then ''/'' else concat (map (\<lambda>seg. CHR ''/'' # seg) segs))"

definition isAbsolutePath :: "string \<Rightarrow> bool" where
  "isAbsolutePath path \<longleftrightarrow> take 1 path = ''/''"

definition joinPath :: "string \<Rightarrow> string \<Rightarrow> string" where
  "joinPath path name = pathOf (pathSegments (path @ CHR ''/'' # name))"

definition baseName :: "string \<Rightarrow> string" where
  "baseName path = (case rev (splitOn (CHR ''/'') path) of [] \<Rightarrow> [] | seg # _ \<Rightarrow> seg)"

section \<open>Weakest preconditions\<close>

definition wpO :: "outEnv \<Rightarrow> 'a outM \<Rightarrow> ('a \<Rightarrow> outWorld \<Rightarrow> bool) \<Rightarrow> (outError \<Rightarrow> outWorld \<Rightarrow> bool) \<Rightarrow> outWorld \<Rightarrow> bool" where
  "wpO env m Q E s \<longleftrightarrow> (case m env s of (Inl e, t) \<Rightarrow> E e t | (Inr x, t) \<Rightarrow> Q x t)"

named_theorems wpO_simps

lemma wpO_bind [wpO_simps]: "wpO env (bindO m f) Q E s \<longleftrightarrow> wpO env m (\<lambda>x. wpO env (f x) Q E) E s"
  by (auto simp: wpO_def bindO_def split: prod.splits sum.splits)

lemma wpO_catch [wpO_simps]: "wpO env (catchO m h) Q E s \<longleftrightarrow> wpO env m Q (\<lambda>e. wpO env (h e) Q E) s"
  by (auto simp: wpO_def catchO_def split: prod.splits sum.splits)

lemma wpO_try [wpO_simps]: "wpO env (tryO m) Q E s \<longleftrightarrow> wpO env m (\<lambda>x. Q (Inr x)) (\<lambda>e. Q (Inl e)) s"
  by (auto simp: wpO_def tryO_def split: prod.splits sum.splits)

lemma wpO_return [wpO_simps]: "wpO env (returnO x) Q E s \<longleftrightarrow> Q x s"
  by (simp add: wpO_def returnO_def)

lemma wpO_throw [wpO_simps]: "wpO env (throwO e) Q E s \<longleftrightarrow> E e s"
  by (simp add: wpO_def throwO_def)

lemma wpO_lift [wpO_simps]: "wpO env (liftO r) Q E s \<longleftrightarrow> (case r of Inl e \<Rightarrow> E (Thrown e) s | Inr x \<Rightarrow> Q x s)"
  by (simp add: liftO_def wpO_return wpO_throw split: sum.split)

lemma wpO_failIf [wpO_simps]: "wpO env (failIfO b failure) Q E s \<longleftrightarrow> (if b then E (outFailure failure) s else Q () s)"
  by (simp add: failIfO_def wpO_return wpO_throw)

lemma wpO_gets [wpO_simps]: "wpO env (getsO f) Q E s \<longleftrightarrow> Q (f s) s"
  by (simp add: wpO_def getsO_def)

lemma wpO_modify [wpO_simps]: "wpO env (modifyO f) Q E s \<longleftrightarrow> Q () (f s)"
  by (simp add: wpO_def modifyO_def)

lemma wpO_uid [wpO_simps]: "wpO env uidO Q E s \<longleftrightarrow> Q (oeUid env) s"
  by (simp add: wpO_def uidO_def)

lemma wpO_guard:
  "(b \<Longrightarrow> E (outFailure failure) s) \<Longrightarrow> (\<not> b \<Longrightarrow> wpO env (f ()) Q E s) \<Longrightarrow> wpO env (bindO (failIfO b failure) f) Q E s"
  by (simp add: wpO_simps)

lemma wpO_read: "wpO env (f (g s)) Q E s \<Longrightarrow> wpO env (bindO (getsO g) f) Q E s"
  by (simp add: wpO_simps)

lemma wpO_mono: "wpO env m Q E s \<Longrightarrow> (\<And>x t. Q x t \<Longrightarrow> Q' x t) \<Longrightarrow> (\<And>e t. E e t \<Longrightarrow> E' e t) \<Longrightarrow> wpO env m Q' E' s"
  by (auto simp: wpO_def split: prod.splits sum.splits)

lemma wpO_result: "wpO env m Q E s \<Longrightarrow> m env s = (Inr x, t) \<Longrightarrow> Q x t"
  by (simp add: wpO_def)

lemma wpO_state: "wpO env m (\<lambda>_. Q) (\<lambda>_. Q) s \<Longrightarrow> Q (snd (m env s))"
  by (cases "m env s") (auto simp: wpO_def split: sum.splits)

text \<open>The state after a call, and a call that holds whatever the answer.\<close>

definition called :: "ioCall \<Rightarrow> bool \<Rightarrow> outWorld \<Rightarrow> outWorld" where
  "called c ok s = s\<lparr>owClock := Suc (owClock s), owLog := owLog s @ [(c, ok)]\<rparr>"

lemma called_simps [simp]:
  "owLog (called c ok s) = owLog s @ [(c, ok)]" "owLeaves (called c ok s) = owLeaves s"
  "owPublished (called c ok s) = owPublished s" "owFinalization (called c ok s) = owFinalization s"
  "owStagingDisposed (called c ok s) = owStagingDisposed s" "owTargetIdentity (called c ok s) = owTargetIdentity s"
  "owClosed (called c ok s) = owClosed s" "owBundleClosed (called c ok s) = owBundleClosed s" "owClock (called c ok s) = Suc (owClock s)"
  by (simp_all add: called_def)

lemma wpO_call:
  "(\<And>a. anError a = None \<Longrightarrow> Q (f a) (called c True s)) \<Longrightarrow> (\<And>e. E e (called c False s)) \<Longrightarrow> wpO env (callO c f) Q E s"
  by (auto simp: wpO_def callO_def Let_def called_def split: option.splits)

text \<open>
  Quiet steps: they make calls other than the native rename and leave the object alone.
\<close>

fun isNativeRename :: "ioCall \<Rightarrow> bool" where
  "isNativeRename (RenameNoReplace _ _ _ _ _) = True"
| "isNativeRename _ = False"

definition quietly :: "outWorld \<Rightarrow> outWorld \<Rightarrow> bool" where
  "quietly s t \<longleftrightarrow> owClock s \<le> owClock t \<and> (\<exists>m. owLog t = owLog s @ m \<and> list_all (\<lambda>(c, ok). \<not> isNativeRename c) m) \<and>
     owLeaves t = owLeaves s \<and> owPublished t = owPublished s \<and> owFinalization t = owFinalization s \<and>
     owStagingDisposed t = owStagingDisposed s \<and> owTargetIdentity t = owTargetIdentity s \<and> owClosed t = owClosed s \<and>
     owBundleClosed t = owBundleClosed s"

lemma quietly_refl [simp]: "quietly s s"
  by (simp add: quietly_def)

lemma quietly_trans:
  assumes "quietly s t" "quietly t u" shows "quietly s u"
proof -
  obtain m n where "owLog t = owLog s @ m" "owLog u = owLog t @ n"
      "list_all (\<lambda>(c, ok). \<not> isNativeRename c) m" "list_all (\<lambda>(c, ok). \<not> isNativeRename c) n"
    using assms unfolding quietly_def by blast
  then have "owLog u = owLog s @ m @ n \<and> list_all (\<lambda>(c, ok). \<not> isNativeRename c) (m @ n)" by simp
  then show ?thesis using assms unfolding quietly_def by (metis order_trans)
qed

definition quiet :: "'a outM \<Rightarrow> bool" where
  "quiet m \<longleftrightarrow> (\<forall>env s. quietly s (snd (m env s)))"

named_theorems quiet_intros

lemma quiet_return [quiet_intros]: "quiet (returnO x)" "quiet (throwO e)" "quiet (getsO f)" "quiet uidO"
  "quiet (failIfO b failure)" "quiet (liftO r)"
  by (auto simp: quiet_def returnO_def throwO_def getsO_def uidO_def failIfO_def liftO_def split: sum.split)

lemma quiet_bind [quiet_intros]: "quiet m \<Longrightarrow> (\<And>x. quiet (f x)) \<Longrightarrow> quiet (bindO m f)"
  unfolding quiet_def bindO_def
  by (auto split: prod.splits sum.splits) (metis quietly_trans snd_conv)+

lemma quiet_catch [quiet_intros]: "quiet m \<Longrightarrow> (\<And>e. quiet (h e)) \<Longrightarrow> quiet (catchO m h)"
  unfolding quiet_def catchO_def
  by (auto split: prod.splits sum.splits) (metis quietly_trans snd_conv)+

lemma quiet_try [quiet_intros]: "quiet m \<Longrightarrow> quiet (tryO m)"
  unfolding quiet_def tryO_def by (auto split: prod.splits) (metis snd_conv)

lemma quiet_call [quiet_intros]: "\<not> isNativeRename c \<Longrightarrow> quiet (callO c f)"
  unfolding quiet_def callO_def quietly_def by (auto simp: Let_def split: option.split)

lemma not_native_rename [quiet_intros]:
  "\<not> isNativeRename (Mkdir path)" "\<not> isNativeRename (OpenDirectory path)" "\<not> isNativeRename (OpenExclusive path)"
  "\<not> isNativeRename (OpenRead path)" "\<not> isNativeRename (Chmod h)" "\<not> isNativeRename (Close h)" "\<not> isNativeRename (Sync h)"
  "\<not> isNativeRename (WriteFile h bytes)" "\<not> isNativeRename (Hook name)"
  by simp_all

lemma quiet_open [quiet_intros]: "\<not> isNativeRename c \<Longrightarrow> quiet (openO c)"
  unfolding openO_def by (intro quiet_intros)

lemma quiet_if [quiet_intros]: "quiet m \<Longrightarrow> quiet n \<Longrightarrow> quiet (if b then m else n)"
  by simp

lemma quiet_each [quiet_intros]: "(\<And>x. quiet (f x)) \<Longrightarrow> quiet (eachO f xs)"
  by (induction xs) (auto intro: quiet_intros)

lemma quiet_map [quiet_intros]: "(\<And>x. quiet (f x)) \<Longrightarrow> quiet (mapO f xs)"
  by (induction xs) (auto intro!: quiet_intros)

lemma wpO_quiet:
  "quiet m \<Longrightarrow> (\<And>x t. quietly s t \<Longrightarrow> Q x t) \<Longrightarrow> (\<And>e t. quietly s t \<Longrightarrow> E e t) \<Longrightarrow> wpO env m Q E s"
  unfolding quiet_def wpO_def by (auto split: prod.split sum.split) (metis snd_conv)+

end
