(* ===== verification/SafeOutput.thy ===== *)
theory SafeOutput
  imports OutputIo
begin

text \<open>
  The owned output directory of the deployment planner
  (\<open>tooling/deployment-plan/src/adapters/safe-output.ts\<close>): a staging directory is claimed, its files are
  written exclusively and held open, it is renamed into place without replacing anything, and a READY file
  is committed last. Every step compares what the file system answers with the identities it holds.
\<close>

section \<open>Checks of metadata\<close>

definition directoryIdentityOf :: "fileStats \<Rightarrow> directoryIdentity" where
  "directoryIdentityOf m = \<lparr>diDev = fsDev m, diIno = fsIno m\<rparr>"

definition fileIdentityOf :: "fileStats \<Rightarrow> fileIdentity" where
  "fileIdentityOf m = \<lparr>diDev = fsDev m, diIno = fsIno m, fiCtime = fsCtime m, fiSize = fsSize m\<rparr>"

definition assertSameIdentity :: "int \<Rightarrow> int \<Rightarrow> 'b directoryIdentity_scheme \<Rightarrow> string \<Rightarrow> unit outM" where
  "assertSameIdentity dev ino expected failure = failIfO (dev \<noteq> diDev expected \<or> ino \<noteq> diIno expected) failure"

definition assertSameFileIdentity :: "fileStats \<Rightarrow> fileIdentity \<Rightarrow> string \<Rightarrow> unit outM" where
  "assertSameFileIdentity actual expected failure =
     bindO (assertSameIdentity (fsDev actual) (fsIno actual) expected failure) (\<lambda>_.
     failIfO (fsCtime actual \<noteq> fiCtime expected \<or> fsSize actual \<noteq> fiSize expected) failure)"

definition assertOwnedPrivateDirectory :: "fileStats \<Rightarrow> string \<Rightarrow> unit outM" where
  "assertOwnedPrivateDirectory metadata failure =
     bindO uidO (\<lambda>expectedUid.
     failIfO (\<not> fsDirectory metadata \<or> fsSymlink metadata \<or> fsNlink metadata < 1 \<or> expectedUid \<noteq> Some (fsUid metadata)
       \<or> fsMode metadata mod 512 \<noteq> 448) failure)"

definition lstatO :: "string \<Rightarrow> fileStats outM" where
  "lstatO path = callO (Lstat path) anStats"

definition realpathO :: "string \<Rightarrow> string outM" where
  "realpathO path = callO (Realpath path) anText"

definition statO :: "nat \<Rightarrow> fileStats outM" where
  "statO h = callO (Stat h) anStats"

definition readdirO :: "string \<Rightarrow> string list outM" where
  "readdirO path = bindO (callO (Readdir path) anNames) (\<lambda>names. returnO (sortText names))"

definition randomO :: "string outM" where
  "randomO = callO RandomName anText"

text \<open>\<open>assertNormalizedAbsolute\<close>: \<open>isAbsolute(path)\<close> and \<open>resolve(path) === path\<close>.\<close>

definition assertNormalizedAbsolute :: "string \<Rightarrow> unit outM" where
  "assertNormalizedAbsolute path =
     failIfO (\<not> isAbsolutePath path \<or> pathOf (pathSegments path) \<noteq> path) ''OUTPUT_PATH_INVALID''"

fun assertNoSymlinkBelow :: "string list \<Rightarrow> string list \<Rightarrow> unit outM" where
  "assertNoSymlinkBelow current [] = returnO ()"
| "assertNoSymlinkBelow current (segment # segments) =
     bindO (lstatO (pathOf (current @ [segment]))) (\<lambda>metadata.
     bindO (failIfO (fsSymlink metadata) ''OUTPUT_PATH_SYMLINK'') (\<lambda>_.
     assertNoSymlinkBelow (current @ [segment]) segments))"

definition assertNoSymlinkComponents :: "string \<Rightarrow> unit outM" where
  "assertNoSymlinkComponents path = assertNoSymlinkBelow [] (pathSegments path)"

definition assertDirectoryIdentity :: "string \<Rightarrow> directoryIdentity \<Rightarrow> string \<Rightarrow> unit outM" where
  "assertDirectoryIdentity path expected failure =
     bindO (assertNoSymlinkComponents path) (\<lambda>_.
     bindO (lstatO path) (\<lambda>metadata.
     bindO (assertOwnedPrivateDirectory metadata failure) (\<lambda>_.
     bindO (assertSameIdentity (fsDev metadata) (fsIno metadata) expected failure) (\<lambda>_.
     bindO (realpathO path) (\<lambda>real.
     failIfO (real \<noteq> path) failure)))))"

definition assertMissing :: "string \<Rightarrow> unit outM" where
  "assertMissing path =
     bindO (tryO (lstatO path)) (\<lambda>outcome.
     case outcome of
       Inl e \<Rightarrow> if nodeErrorCode e = Some ''ENOENT'' then returnO () else throwO e
     | Inr _ \<Rightarrow> throwO (outFailure ''OUTPUT_TARGET_EXISTS''))"

definition quarantineOwnedDirectory :: "string \<Rightarrow> string \<Rightarrow> directoryIdentity \<Rightarrow> unit outM" where
  "quarantineOwnedDirectory parent staging expected =
     bindO randomO (\<lambda>random.
     let quarantine = joinPath parent (CHR ''.'' # random @ ''.cleanup'') in
     bindO (assertDirectoryIdentity staging expected ''OUTPUT_CLEANUP_SUBSTITUTED'') (\<lambda>_.
     bindO (doO (Rename staging quarantine)) (\<lambda>_.
     assertDirectoryIdentity quarantine expected ''OUTPUT_CLEANUP_SUBSTITUTED'')))"

section \<open>The claimed directory\<close>

text \<open>The fields that never change; \<open>ocHooks\<close> are the functions given in \<open>OutputFaultInjection\<close>.\<close>

record claimedOutput =
  ocPath :: string
  ocParent :: string
  ocParentHandle :: nat
  ocParentIdentity :: directoryIdentity
  ocStagingHandle :: nat
  ocStagingIdentity :: directoryIdentity
  ocTarget :: string
  ocHooks :: "string list"

definition hookO :: "string list \<Rightarrow> string \<Rightarrow> unit outM" where
  "hookO hooks name = (if name \<in> set hooks then doO (Hook name) else returnO ())"

definition isLeafName :: "string \<Rightarrow> bool" where
  "isLeafName name \<longleftrightarrow> name \<noteq> [] \<and>
     list_all (\<lambda>c. isLower c \<or> (CHR ''A'' \<le> c \<and> c \<le> CHR ''Z'') \<or> isDigit c \<or> c \<in> {CHR ''.'', CHR ''_'', CHR ''-''}) name"

text \<open>\<open>/^\.staging-/iu\<close>\<close>

definition isStagingName :: "string \<Rightarrow> bool" where
  "isStagingName name \<longleftrightarrow>
     map (\<lambda>c. if CHR ''A'' \<le> c \<and> c \<le> CHR ''Z'' then char_of (of_char c + 32 :: nat) else c) (take 9 name) = ''.staging-''"

definition assertParentStable :: "claimedOutput \<Rightarrow> unit outM" where
  "assertParentStable out =
     (let failure = ''OUTPUT_PARENT_SUBSTITUTED''; expected = ocParentIdentity out in
     bindO (assertNoSymlinkComponents (ocParent out)) (\<lambda>_.
     bindO (realpathO (ocParent out)) (\<lambda>real.
     bindO (failIfO (real \<noteq> ocParent out) failure) (\<lambda>_.
     bindO (lstatO (ocParent out)) (\<lambda>metadata.
     bindO (assertOwnedPrivateDirectory metadata failure) (\<lambda>_.
     bindO (assertSameIdentity (fsDev metadata) (fsIno metadata) expected failure) (\<lambda>_.
     bindO (statO (ocParentHandle out)) (\<lambda>held.
     assertSameIdentity (fsDev held) (fsIno held) expected failure))))))))"

definition assertStagingStable :: "claimedOutput \<Rightarrow> unit outM" where
  "assertStagingStable out =
     (let failure = ''OUTPUT_TARGET_SUBSTITUTED''; expected = ocStagingIdentity out in
     bindO (assertParentStable out) (\<lambda>_.
     bindO (assertDirectoryIdentity (ocPath out) expected failure) (\<lambda>_.
     bindO (statO (ocStagingHandle out)) (\<lambda>held.
     assertSameIdentity (fsDev held) (fsIno held) expected failure))))"

section \<open>Claiming\<close>

text \<open>The failures of steps that are all tried.\<close>

definition failuresOf :: "(outError + unit) list \<Rightarrow> outError list" where
  "failuresOf outcomes = concat (map (\<lambda>r. case r of Inl e \<Rightarrow> [e] | Inr _ \<Rightarrow> []) outcomes)"

definition abandonClaim :: "string \<Rightarrow> string \<Rightarrow> nat \<Rightarrow> directoryIdentity option \<Rightarrow> nat option \<Rightarrow> outError \<Rightarrow> 'a outM" where
  "abandonClaim parent staging parentHandle stagingIdentity stagingHandle error =
     bindO (case stagingIdentity of None \<Rightarrow> returnO (Inr ())
       | Some expected \<Rightarrow> tryO (quarantineOwnedDirectory parent staging expected)) (\<lambda>quarantined.
     bindO (case stagingHandle of None \<Rightarrow> returnO (Inr ()) | Some h \<Rightarrow> tryO (doO (Close h))) (\<lambda>closed.
     bindO (tryO (doO (Close parentHandle))) (\<lambda>parentClosed.
     let failures = failuresOf [quarantined, closed, parentClosed] in
     if failures \<noteq> [] then throwO (AggregateError (error # failures)) else throwO error)))"

text \<open>The constructor.\<close>

definition constructOutput :: "claimedOutput \<Rightarrow> claimedOutput outM" where
  "constructOutput out =
     bindO (modifyO (\<lambda>s. s\<lparr>owLeaves := [], owPublished := False, owFinalization := Pending, owStagingDisposed := False,
       owTargetIdentity := None, owClosed := None\<rparr>)) (\<lambda>_. returnO out)"

definition claimOwnedOutputDirectory :: "string \<Rightarrow> string \<Rightarrow> string list \<Rightarrow> claimedOutput outM" where
  "claimOwnedOutputDirectory parent bundleName hooks =
     bindO (assertNormalizedAbsolute parent) (\<lambda>_.
     bindO (failIfO (\<not> isLeafName bundleName) ''OUTPUT_FILE_NAME_INVALID'') (\<lambda>_.
     bindO (failIfO (isStagingName bundleName) ''OUTPUT_FILE_NAME_INVALID'') (\<lambda>_.
     bindO (assertNoSymlinkComponents parent) (\<lambda>_.
     bindO (lstatO parent) (\<lambda>parentMetadata.
     bindO (assertOwnedPrivateDirectory parentMetadata ''OUTPUT_PARENT_UNSAFE'') (\<lambda>_.
     bindO (realpathO parent) (\<lambda>real.
     bindO (failIfO (real \<noteq> parent) ''OUTPUT_PARENT_UNSAFE'') (\<lambda>_.
     bindO (openO (OpenDirectory parent)) (\<lambda>parentHandle.
     bindO (statO parentHandle) (\<lambda>heldParent.
     let parentIdentity = directoryIdentityOf heldParent in
     bindO (assertSameIdentity (fsDev parentMetadata) (fsIno parentMetadata) parentIdentity ''OUTPUT_PARENT_SUBSTITUTED'') (\<lambda>_.
     bindO randomO (\<lambda>random.
     let target = joinPath parent bundleName;
         staging = joinPath parent (CHR ''.'' # bundleName @ ''.staging-'' @ random) in
     bindO (catchO
       (bindO (assertMissing target) (\<lambda>_.
        bindO (doO (Mkdir staging)) (\<lambda>_.
        bindO (lstatO staging) (\<lambda>metadata.
        bindO (assertOwnedPrivateDirectory metadata ''OUTPUT_TARGET_UNSAFE'') (\<lambda>_. returnO metadata)))))
       (abandonClaim parent staging parentHandle None None)) (\<lambda>stagingMetadata.
     let stagingIdentity = directoryIdentityOf stagingMetadata in
     bindO (catchO
       (bindO (hookO hooks ''afterStagingDirectoryCreate'') (\<lambda>_. openO (OpenDirectory staging)))
       (abandonClaim parent staging parentHandle (Some stagingIdentity) None)) (\<lambda>stagingHandle.
     catchO
       (bindO (statO stagingHandle) (\<lambda>opened.
        bindO (assertSameIdentity (fsDev stagingMetadata) (fsIno stagingMetadata) (directoryIdentityOf opened)
          ''OUTPUT_TARGET_SUBSTITUTED'') (\<lambda>_.
        bindO (constructOutput \<lparr>ocPath = staging, ocParent = parent, ocParentHandle = parentHandle,
            ocParentIdentity = parentIdentity, ocStagingHandle = stagingHandle,
            ocStagingIdentity = directoryIdentityOf opened, ocTarget = target, ocHooks = hooks\<rparr>) (\<lambda>claimed.
        bindO (assertStagingStable claimed) (\<lambda>_. returnO claimed)))))
       (abandonClaim parent staging parentHandle (Some stagingIdentity) (Some stagingHandle))))))))))))))))"

section \<open>Writing\<close>

definition setLeaf :: "string \<Rightarrow> heldLeaf \<Rightarrow> unit outM" where
  "setLeaf name leaf = modifyO (\<lambda>s. s\<lparr>owLeaves := mapSet name leaf (owLeaves s)\<rparr>)"

text \<open>\<open>!leaf.isFile() || leaf.isSymbolicLink() || leaf.nlink !== 1\<close> fails.\<close>

definition assertRegular :: "fileStats \<Rightarrow> string \<Rightarrow> unit outM" where
  "assertRegular m failure = failIfO (\<not> fsFile m \<or> fsSymlink m \<or> fsNlink m \<noteq> 1) failure"

definition writeHeld :: "claimedOutput \<Rightarrow> string \<Rightarrow> nat list \<Rightarrow> nat \<Rightarrow> fileIdentity outM" where
  "writeHeld out name bytes h =
     bindO (statO h) (\<lambda>_.
     bindO (hookO (ocHooks out) ''afterStagingLeafOpen'') (\<lambda>_.
     bindO (doO (Chmod h)) (\<lambda>_.
     bindO (doO (WriteFile h bytes)) (\<lambda>_.
     bindO (doO (Sync h)) (\<lambda>_.
     bindO (statO h) (\<lambda>metadata.
     bindO (failIfO (\<not> fsFile metadata \<or> fsNlink metadata \<noteq> 1) ''OUTPUT_FILE_UNSAFE'') (\<lambda>_.
     let fileIdentity = fileIdentityOf metadata in
     bindO (setLeaf name \<lparr>hlHandle = h, hlIdentity = fileIdentity, hlBytes = bytes\<rparr>) (\<lambda>_.
     returnO fileIdentity))))))))"

definition writeExclusive :: "claimedOutput \<Rightarrow> string \<Rightarrow> nat list \<Rightarrow> unit outM" where
  "writeExclusive out name bytes =
     bindO (getsO owPublished) (\<lambda>published.
     bindO (failIfO published ''OUTPUT_ALREADY_PUBLISHED'') (\<lambda>_.
     bindO (failIfO (\<not> isLeafName name) ''OUTPUT_FILE_NAME_INVALID'') (\<lambda>_.
     bindO (failIfO (name = ''READY'') ''OUTPUT_READY_PREMATURE'') (\<lambda>_.
     bindO (assertStagingStable out) (\<lambda>_.
     bindO (hookO (ocHooks out) ''beforeStagingLeafOpen'') (\<lambda>_.
     bindO (openO (OpenExclusive (joinPath (ocPath out) name))) (\<lambda>h.
     bindO (catchO (writeHeld out name bytes h) (\<lambda>e. bindO (doO (Close h)) (\<lambda>_. throwO e))) (\<lambda>fileIdentity.
     bindO (assertStagingStable out) (\<lambda>_.
     bindO (lstatO (joinPath (ocPath out) name)) (\<lambda>leaf.
     bindO (assertRegular leaf ''OUTPUT_FILE_SUBSTITUTED'') (\<lambda>_.
     assertSameFileIdentity leaf fileIdentity ''OUTPUT_FILE_SUBSTITUTED'')))))))))))"

section \<open>Publishing\<close>

text \<open>After the rename may have happened every error is an uncertain publication.\<close>

definition uncertainly :: "'a outM \<Rightarrow> 'a outM" where
  "uncertainly m = catchO m (\<lambda>_. throwO (outFailure ''OUTPUT_PUBLICATION_UNCERTAIN''))"

definition publishRename :: "claimedOutput \<Rightarrow> unit outM" where
  "publishRename out =
     catchO (doO (RenameNoReplace (ocParentHandle out) (ocStagingHandle out) (ocParentHandle out) (baseName (ocPath out)) (baseName (ocTarget out))))
       (\<lambda>e. if nodeErrorCode e = Some ''EEXIST'' then throwO (outFailure ''OUTPUT_TARGET_EXISTS'')
         else bindO (modifyO (\<lambda>s. s\<lparr>owStagingDisposed := True\<rparr>)) (\<lambda>_. throwO (outFailure ''OUTPUT_PUBLICATION_UNCERTAIN'')))"

definition syncParent :: "claimedOutput \<Rightarrow> unit outM" where
  "syncParent out = (if ''parentDirectorySync'' \<in> set (ocHooks out) then doO (Hook ''parentDirectorySync'')
     else doO (Sync (ocParentHandle out)))"

definition publish :: "claimedOutput \<Rightarrow> string outM" where
  "publish out =
     bindO (getsO owPublished) (\<lambda>published.
     bindO (failIfO published ''OUTPUT_ALREADY_PUBLISHED'') (\<lambda>_.
     bindO (assertStagingStable out) (\<lambda>_.
     bindO (failIfO (''noReplaceDirectoryRename'' \<notin> set (ocHooks out)) ''OUTPUT_NO_REPLACE_UNAVAILABLE'') (\<lambda>_.
     bindO (hookO (ocHooks out) ''beforeStagingDirectorySync'') (\<lambda>_.
     bindO (doO (Sync (ocStagingHandle out))) (\<lambda>_.
     bindO (hookO (ocHooks out) ''afterStagingDirectorySync'') (\<lambda>_.
     bindO (hookO (ocHooks out) ''beforePublishRename'') (\<lambda>_.
     bindO (assertStagingStable out) (\<lambda>_.
     bindO (assertMissing (ocTarget out)) (\<lambda>_.
     bindO (publishRename out) (\<lambda>_.
     bindO (modifyO (\<lambda>s. s\<lparr>owStagingDisposed := True, owTargetIdentity := Some (ocStagingIdentity out)\<rparr>)) (\<lambda>_.
     uncertainly
       (bindO (hookO (ocHooks out) ''afterPublishRename'') (\<lambda>_.
        bindO (assertParentStable out) (\<lambda>_.
        bindO (lstatO (ocTarget out)) (\<lambda>metadata.
        bindO (assertOwnedPrivateDirectory metadata ''OUTPUT_PUBLISHED_SUBSTITUTED'') (\<lambda>_.
        bindO (assertSameIdentity (fsDev metadata) (fsIno metadata) (ocStagingIdentity out) ''OUTPUT_PUBLISHED_SUBSTITUTED'') (\<lambda>_.
        bindO (hookO (ocHooks out) ''beforeParentDirectorySync'') (\<lambda>_.
        bindO (syncParent out) (\<lambda>_.
        bindO (hookO (ocHooks out) ''afterParentDirectorySync'') (\<lambda>_.
        bindO (modifyO (\<lambda>s. s\<lparr>owPublished := True\<rparr>)) (\<lambda>_.
        returnO (ocTarget out)))))))))))))))))))))))"

section \<open>The published tree\<close>

definition assertLeavesAt :: "string \<Rightarrow> string \<Rightarrow> unit outM" where
  "assertLeavesAt directory failure =
     bindO (getsO owLeaves) (\<lambda>leaves.
     eachO (\<lambda>(name, held).
       bindO (lstatO (joinPath directory name)) (\<lambda>leaf.
       bindO (assertRegular leaf failure) (\<lambda>_.
       assertSameFileIdentity leaf (hlIdentity held) failure))) leaves)"

definition assertPublishedTree :: "claimedOutput \<Rightarrow> string list \<Rightarrow> unit outM" where
  "assertPublishedTree out expectedNames =
     (let failure = ''OUTPUT_PUBLISHED_SUBSTITUTED'' in
     bindO (getsO owTargetIdentity) (\<lambda>identity.
     case identity of
       None \<Rightarrow> throwO (outFailure failure)
     | Some expected \<Rightarrow>
         bindO (lstatO (ocTarget out)) (\<lambda>metadata.
         bindO uidO (\<lambda>uid.
         bindO (failIfO (\<not> fsDirectory metadata \<or> fsSymlink metadata \<or> uid \<noteq> Some (fsUid metadata)) failure) (\<lambda>_.
         bindO (assertSameIdentity (fsDev metadata) (fsIno metadata) expected failure) (\<lambda>_.
         bindO (statO (ocStagingHandle out)) (\<lambda>held.
         bindO (assertSameIdentity (fsDev held) (fsIno held) expected failure) (\<lambda>_.
         bindO (readdirO (ocTarget out)) (\<lambda>names.
         bindO (failIfO (names \<noteq> sortText expectedNames) ''OUTPUT_ROLLBACK_FOREIGN_ENTRY'') (\<lambda>_.
         bindO (assertLeavesAt (ocTarget out) ''OUTPUT_ROLLBACK_LEAF_SUBSTITUTED'') (\<lambda>_.
         bindO (lstatO (ocTarget out)) (\<lambda>again.
         assertSameIdentity (fsDev again) (fsIno again) expected failure))))))))))))"

text \<open>\<open>assertPublishedTreeUnchanged\<close>, with names beside the leaves.\<close>

definition assertPublishedTreeUnchanged :: "claimedOutput \<Rightarrow> string list \<Rightarrow> unit outM" where
  "assertPublishedTreeUnchanged out extra =
     bindO (getsO (\<lambda>s. map fst (owLeaves s))) (\<lambda>names. assertPublishedTree out (names @ extra))"

definition assertPublishedReady :: "claimedOutput \<Rightarrow> nat list \<Rightarrow> fileIdentity \<Rightarrow> unit outM" where
  "assertPublishedReady out bytes expected =
     (let failure = ''OUTPUT_READY_SUBSTITUTED'' in
     bindO (assertPublishedTreeUnchanged out []) (\<lambda>_.
     bindO (openO (OpenRead (joinPath (ocTarget out) ''READY''))) (\<lambda>h.
     bindO (tryO
       (bindO (statO h) (\<lambda>before.
        bindO (failIfO (\<not> fsFile before \<or> fsNlink before \<noteq> 1) failure) (\<lambda>_.
        bindO (assertSameFileIdentity before expected failure) (\<lambda>_.
        bindO (callO (ReadFile h) anBytes) (\<lambda>actual.
        bindO (statO h) (\<lambda>after.
        bindO (assertSameFileIdentity after expected failure) (\<lambda>_.
        bindO (assertPublishedTreeUnchanged out []) (\<lambda>_.
        failIfO (actual \<noteq> bytes) failure))))))))) (\<lambda>outcome.
     bindO (doO (Close h)) (\<lambda>_. case outcome of Inl e \<Rightarrow> throwO e | Inr _ \<Rightarrow> returnO ())))))"

section \<open>READY\<close>

text \<open>
  The handler of \<open>finalizeReady\<close> after a part of it: whether the marker may be published and whether its
  handle is kept.
\<close>

definition finalizing :: "nat \<Rightarrow> bool \<Rightarrow> bool \<Rightarrow> 'a outM \<Rightarrow> 'a outM" where
  "finalizing h maybePublished retained m = catchO m (\<lambda>e.
     bindO (if maybePublished then modifyO (\<lambda>s. s\<lparr>owFinalization := Uncertain\<rparr>) else returnO ()) (\<lambda>_.
     bindO (if retained then returnO () else doO (Close h)) (\<lambda>_.
     throwO (if maybePublished then outFailure ''OUTPUT_PUBLICATION_UNCERTAIN'' else e))))"

definition prepareReady :: "claimedOutput \<Rightarrow> nat list \<Rightarrow> string \<Rightarrow> nat \<Rightarrow> fileIdentity outM" where
  "prepareReady out bytes pendingName h =
     bindO (doO (Chmod h)) (\<lambda>_.
     bindO (doO (WriteFile h bytes)) (\<lambda>_.
     bindO (doO (Sync h)) (\<lambda>_.
     bindO (statO h) (\<lambda>metadata.
     let pendingIdentity = fileIdentityOf metadata in
     bindO (doO (Sync (ocStagingHandle out))) (\<lambda>_.
     bindO (assertPublishedTreeUnchanged out [pendingName]) (\<lambda>_.
     bindO (lstatO (joinPath (ocTarget out) pendingName)) (\<lambda>pending.
     bindO (assertSameFileIdentity pending pendingIdentity ''OUTPUT_READY_SUBSTITUTED'') (\<lambda>_.
     bindO (hookO (ocHooks out) ''beforeFinalMarkerRename'') (\<lambda>_.
     bindO (assertPublishedTreeUnchanged out [pendingName]) (\<lambda>_.
     returnO pendingIdentity))))))))))"

definition renameReady :: "claimedOutput \<Rightarrow> string \<Rightarrow> nat \<Rightarrow> unit outM" where
  "renameReady out pendingName h =
     bindO (tryO (doO (RenameNoReplace (ocStagingHandle out) h (ocStagingHandle out) pendingName ''READY''))) (\<lambda>outcome.
     case outcome of
       Inr _ \<Rightarrow> returnO ()
     | Inl e \<Rightarrow>
         if nodeErrorCode e = Some ''EEXIST'' then finalizing h False False (throwO (outFailure ''OUTPUT_READY_EXISTS''))
         else finalizing h True False (throwO e))"

definition checkReady :: "claimedOutput \<Rightarrow> fileIdentity \<Rightarrow> fileIdentity outM" where
  "checkReady out pendingIdentity =
     (let failure = ''OUTPUT_READY_SUBSTITUTED'' in
     bindO (lstatO (joinPath (ocTarget out) ''READY'')) (\<lambda>metadata.
     bindO (assertRegular metadata failure) (\<lambda>_.
     bindO (assertSameIdentity (fsDev metadata) (fsIno metadata) pendingIdentity failure) (\<lambda>_.
     bindO (failIfO (fsSize metadata \<noteq> fiSize pendingIdentity) failure) (\<lambda>_.
     returnO (fileIdentityOf metadata))))))"

definition syncMarker :: "claimedOutput \<Rightarrow> unit outM" where
  "syncMarker out = (if ''finalMarkerDirectorySync'' \<in> set (ocHooks out) then doO (Hook ''finalMarkerDirectorySync'')
     else doO (Sync (ocStagingHandle out)))"

definition finalizeReady :: "claimedOutput \<Rightarrow> nat list \<Rightarrow> unit outM" where
  "finalizeReady out bytes =
     bindO (getsO owPublished) (\<lambda>published.
     bindO (failIfO (\<not> published) ''OUTPUT_NOT_DURABLE'') (\<lambda>_.
     bindO (getsO owLeaves) (\<lambda>leaves.
     bindO (failIfO (''READY'' \<in> set (map fst leaves)) ''OUTPUT_READY_EXISTS'') (\<lambda>_.
     bindO (failIfO (''noReplaceDirectoryRename'' \<notin> set (ocHooks out)) ''OUTPUT_NO_REPLACE_UNAVAILABLE'') (\<lambda>_.
     bindO (assertPublishedTreeUnchanged out []) (\<lambda>_.
     bindO randomO (\<lambda>random.
     let pendingName = ''.READY.pending-'' @ random in
     bindO (openO (OpenExclusive (joinPath (ocTarget out) pendingName))) (\<lambda>h.
     bindO (finalizing h False False (prepareReady out bytes pendingName h)) (\<lambda>pendingIdentity.
     bindO (renameReady out pendingName h) (\<lambda>_.
     bindO (finalizing h True False (checkReady out pendingIdentity)) (\<lambda>readyIdentity.
     bindO (setLeaf ''READY'' \<lparr>hlHandle = h, hlIdentity = readyIdentity, hlBytes = bytes\<rparr>) (\<lambda>_.
     finalizing h True True
       (bindO (assertPublishedReady out bytes readyIdentity) (\<lambda>_.
        bindO (hookO (ocHooks out) ''beforeFinalMarkerDirectorySync'') (\<lambda>_.
        bindO (syncMarker out) (\<lambda>_.
        bindO (hookO (ocHooks out) ''afterFinalMarkerDirectorySync'') (\<lambda>_.
        bindO (assertPublishedReady out bytes readyIdentity) (\<lambda>_.
        modifyO (\<lambda>s. s\<lparr>owFinalization := Durable\<rparr>)))))))))))))))))))"

section \<open>Reading what was committed\<close>

definition assertFinalized :: "unit outM" where
  "assertFinalized =
     bindO (getsO (\<lambda>s. (owFinalization s, owPublished s))) (\<lambda>(state, published).
     bindO (failIfO (state = Uncertain) ''OUTPUT_PUBLICATION_UNCERTAIN'') (\<lambda>_.
     failIfO (\<not> published \<or> state \<noteq> Durable) ''OUTPUT_NOT_FINALIZED''))"

definition assertHeldLeaf :: "heldLeaf \<Rightarrow> unit outM" where
  "assertHeldLeaf held =
     bindO (statO (hlHandle held)) (\<lambda>before.
     bindO (failIfO (\<not> fsFile before \<or> fsNlink before \<noteq> 1) ''OUTPUT_FILE_SUBSTITUTED'') (\<lambda>_.
     bindO (assertSameFileIdentity before (hlIdentity held) ''OUTPUT_FILE_SUBSTITUTED'') (\<lambda>_.
     bindO (callO (ReadAt (hlHandle held) (fiSize (hlIdentity held))) anBytes) (\<lambda>actual.
     bindO (statO (hlHandle held)) (\<lambda>after.
     bindO (assertSameFileIdentity after (hlIdentity held) ''OUTPUT_FILE_SUBSTITUTED'') (\<lambda>_.
     failIfO (int (length actual) \<noteq> fiSize (hlIdentity held) \<or> actual \<noteq> hlBytes held) ''OUTPUT_CONTENT_SUBSTITUTED''))))))"

definition readCommitted :: "string \<Rightarrow> nat list outM" where
  "readCommitted name =
     bindO assertFinalized (\<lambda>_.
     bindO (getsO (\<lambda>s. map_of (owLeaves s) name)) (\<lambda>leaf.
     case leaf of
       None \<Rightarrow> throwO (outFailure ''OUTPUT_FILE_UNTRACKED'')
     | Some held \<Rightarrow> bindO (assertHeldLeaf held) (\<lambda>_. returnO (hlBytes held))))"

definition assertCommitted :: "claimedOutput \<Rightarrow> unit outM" where
  "assertCommitted out =
     bindO assertFinalized (\<lambda>_.
     bindO (hookO (ocHooks out) ''beforeFinalIdentityCheck'') (\<lambda>_.
     bindO (getsO owLeaves) (\<lambda>leaves.
     bindO (eachO (\<lambda>(name, held). assertHeldLeaf held) leaves) (\<lambda>_.
     assertPublishedTreeUnchanged out []))))"

definition publicationIdentity :: "(string \<times> string) outM" where
  "publicationIdentity =
     bindO assertFinalized (\<lambda>_.
     bindO (getsO owTargetIdentity) (\<lambda>identity.
     case identity of
       None \<Rightarrow> throwO (Thrown (Err ''unreachable publication identity''))
     | Some i \<Rightarrow> returnO (decInt (diDev i), decInt (diIno i))))"

section \<open>Closing\<close>

definition assertCleanupLeaves :: "string \<Rightarrow> unit outM" where
  "assertCleanupLeaves directory =
     bindO (readdirO directory) (\<lambda>names.
     bindO (getsO (\<lambda>s. sortText (map fst (owLeaves s)))) (\<lambda>expectedNames.
     bindO (failIfO (names \<noteq> expectedNames) ''OUTPUT_CLEANUP_FOREIGN_ENTRY'') (\<lambda>_.
     assertLeavesAt directory ''OUTPUT_CLEANUP_SUBSTITUTED'')))"

definition cleanupStaging :: "claimedOutput \<Rightarrow> unit outM" where
  "cleanupStaging out =
     bindO (getsO owStagingDisposed) (\<lambda>disposed.
     if disposed then returnO ()
     else
       bindO (assertStagingStable out) (\<lambda>_.
       bindO (assertCleanupLeaves (ocPath out)) (\<lambda>_.
       bindO randomO (\<lambda>random.
       let quarantine = joinPath (ocParent out) (CHR ''.'' # random @ ''.cleanup'') in
       bindO (doO (Rename (ocPath out) quarantine)) (\<lambda>_.
       bindO (assertDirectoryIdentity quarantine (ocStagingIdentity out) ''OUTPUT_CLEANUP_SUBSTITUTED'') (\<lambda>_.
       bindO (hookO (ocHooks out) ''beforeCleanupQuarantineLeafCheck'') (\<lambda>_.
       bindO (assertCleanupLeaves quarantine) (\<lambda>_.
       bindO (hookO (ocHooks out) ''afterCleanupQuarantineAuthenticated'') (\<lambda>_.
       doO (Sync (ocParentHandle out)))))))))))"

definition closeOnce :: "claimedOutput \<Rightarrow> unit outM" where
  "closeOnce out =
     bindO (tryO (bindO (getsO owPublished) (\<lambda>published. if published then returnO () else cleanupStaging out))) (\<lambda>cleanup.
     bindO (getsO owLeaves) (\<lambda>leaves.
     bindO (mapO (\<lambda>h. tryO (doO (Close h))) (map (\<lambda>(name, held). hlHandle held) leaves @ [ocStagingHandle out, ocParentHandle out])) (\<lambda>closed.
     let failures = failuresOf closed in
     case cleanup of
       Inl e \<Rightarrow> if failures \<noteq> [] then throwO (AggregateError (e # failures)) else throwO e
     | Inr _ \<Rightarrow> if failures \<noteq> [] then throwO (AggregateError failures) else returnO ())))"

text \<open>\<open>this.closePromise ??= this.closeOnce()\<close>\<close>

definition closeOutput :: "claimedOutput \<Rightarrow> unit outM" where
  "closeOutput out =
     bindO (getsO owClosed) (\<lambda>closed.
     case closed of
       Some outcome \<Rightarrow> (case outcome of Inl e \<Rightarrow> throwO e | Inr _ \<Rightarrow> returnO ())
     | None \<Rightarrow>
         bindO (tryO (closeOnce out)) (\<lambda>outcome.
         bindO (modifyO (\<lambda>s. s\<lparr>owClosed := Some outcome\<rparr>)) (\<lambda>_.
         case outcome of Inl e \<Rightarrow> throwO e | Inr _ \<Rightarrow> returnO ())))"

end
