(* ===== verification/SafeOutputProps.thy ===== *)
theory SafeOutputProps
  imports SafeOutput "HOL-Library.Sublist"
begin

text \<open>
  What the output directory guarantees whatever the file system answers and whichever calls fail: the order
  in which data becomes durable and visible, and that a committed output never changes.
\<close>

section \<open>Histories of a claimed directory\<close>

datatype outMethod =
    MWrite string "nat list"
  | MPublish
  | MFinalize "nat list"
  | MRead string
  | MAssert
  | MIdentity
  | MClose

fun performO :: "claimedOutput \<Rightarrow> outMethod \<Rightarrow> unit outM" where
  "performO out (MWrite name bytes) = writeExclusive out name bytes"
| "performO out MPublish = bindO (publish out) (\<lambda>_. returnO ())"
| "performO out (MFinalize bytes) = finalizeReady out bytes"
| "performO out (MRead name) = bindO (readCommitted name) (\<lambda>_. returnO ())"
| "performO out MAssert = assertCommitted out"
| "performO out MIdentity = bindO publicationIdentity (\<lambda>_. returnO ())"
| "performO out MClose = closeOutput out"

definition newOutput :: outWorld where
  "newOutput = \<lparr>owClock = 0, owLog = [], owLeaves = [], owPublished = False, owFinalization = Pending,
     owStagingDisposed = False, owTargetIdentity = None, owClosed = None, owBundleClosed = False\<rparr>"

definition noRenames :: "outWorld \<Rightarrow> bool" where
  "noRenames s \<longleftrightarrow> list_all (\<lambda>(c, ok). \<not> isNativeRename c) (owLog s)"

text \<open>
  The states of a claimed directory: claimed at any time by a process that has not used the native rename,
  then any methods in any order, each returning or throwing, with any other calls between them, and the
  bundle that is handed out open or closed.
\<close>

inductive history :: "outEnv \<Rightarrow> claimedOutput \<Rightarrow> outWorld \<Rightarrow> bool" for env where
  claimed: "noRenames s0 \<Longrightarrow> claimOwnedOutputDirectory parent bundleName hooks env s0 = (Inr out, s) \<Longrightarrow> history env out s"
| performed: "history env out s \<Longrightarrow> history env out (snd (performO out m env s))"
| others: "history env out s \<Longrightarrow> quietly s (t\<lparr>owBundleClosed := owBundleClosed s\<rparr>) \<Longrightarrow> history env out t"

inductive_cases history_cases: "history env out s"

section \<open>Order in a log\<close>

text \<open>Entries in this order, with others between them.\<close>

abbreviation inOrder :: "(ioCall \<times> bool) list \<Rightarrow> (ioCall \<times> bool) list \<Rightarrow> bool" where
  "inOrder es log \<equiv> subseq es log"

lemma inOrder_append: "inOrder es l \<Longrightarrow> inOrder es (l @ m)"
  by (rule list_emb_prefix)

lemma inOrder_prepend: "inOrder es m \<Longrightarrow> inOrder es (l @ m)"
  by (rule list_emb_append2)

lemma inOrder_snoc: "inOrder es l \<Longrightarrow> inOrder (es @ [e]) (l @ [e])"
  by (rule list_emb_append_mono) simp_all

section \<open>The invariant\<close>

definition leafDurable :: "heldLeaf \<Rightarrow> (ioCall \<times> bool) list \<Rightarrow> bool" where
  "leafDurable leaf log \<longleftrightarrow> inOrder [(WriteFile (hlHandle leaf) (hlBytes leaf), True), (Sync (hlHandle leaf), True)] log"

definition stagingRename :: "claimedOutput \<Rightarrow> ioCall" where
  "stagingRename out = RenameNoReplace (ocParentHandle out) (ocStagingHandle out) (ocParentHandle out) (baseName (ocPath out)) (baseName (ocTarget out))"

definition parentSyncCall :: "claimedOutput \<Rightarrow> ioCall" where
  "parentSyncCall out = (if ''parentDirectorySync'' \<in> set (ocHooks out) then Hook ''parentDirectorySync'' else Sync (ocParentHandle out))"

definition markerSyncCall :: "claimedOutput \<Rightarrow> ioCall" where
  "markerSyncCall out = (if ''finalMarkerDirectorySync'' \<in> set (ocHooks out) then Hook ''finalMarkerDirectorySync'' else Sync (ocStagingHandle out))"

definition markerRename :: "claimedOutput \<Rightarrow> nat \<Rightarrow> string \<Rightarrow> ioCall" where
  "markerRename out h pending = RenameNoReplace (ocStagingHandle out) h (ocStagingHandle out) pending ''READY''"

text \<open>
  Every file is written and synced before the entries of \<open>es\<close>. In a published log the entries are: the
  staging directory is synced, renamed into place and its parent synced.
\<close>

definition follows :: "(string \<times> heldLeaf) list \<Rightarrow> (ioCall \<times> bool) list \<Rightarrow> (ioCall \<times> bool) list \<Rightarrow> bool" where
  "follows leaves es log \<longleftrightarrow> (\<exists>files directory. log = files @ directory \<and>
     (\<forall>(name, leaf)\<in>set leaves. name \<noteq> ''READY'' \<longrightarrow> leafDurable leaf files) \<and> inOrder es directory)"

definition publishedOrder :: "claimedOutput \<Rightarrow> (string \<times> heldLeaf) list \<Rightarrow> (ioCall \<times> bool) list \<Rightarrow> bool" where
  "publishedOrder out leaves log \<longleftrightarrow>
     follows leaves [(Sync (ocStagingHandle out), True), (stagingRename out, True), (parentSyncCall out, True)] log"

definition markersOrdered :: "claimedOutput \<Rightarrow> outWorld \<Rightarrow> bool" where
  "markersOrdered out s \<longleftrightarrow> (\<forall>l1 l2 h pending ok. owLog s = l1 @ (markerRename out h pending, ok) # l2 \<longrightarrow>
     owPublished s \<and> publishedOrder out (owLeaves s) l1 \<and> (\<exists>bytes. inOrder [(WriteFile h bytes, True), (Sync h, True)] l1))"

definition finalizedOrder :: "claimedOutput \<Rightarrow> outWorld \<Rightarrow> bool" where
  "finalizedOrder out s \<longleftrightarrow> (owFinalization s = Durable \<longrightarrow> owPublished s \<and> ''READY'' \<in> set (map fst (owLeaves s)) \<and>
     (\<exists>h pending. inOrder [(markerRename out h pending, True), (markerSyncCall out, True)] (owLog s)))"

definition outputInv :: "claimedOutput \<Rightarrow> outWorld \<Rightarrow> bool" where
  "outputInv out s \<longleftrightarrow> ocParentHandle out \<noteq> ocStagingHandle out \<and> distinct (map fst (owLeaves s)) \<and>
     (\<forall>(name, leaf)\<in>set (owLeaves s). leafDurable leaf (owLog s)) \<and>
     (owPublished s \<longrightarrow> publishedOrder out (owLeaves s) (owLog s)) \<and> markersOrdered out s \<and> finalizedOrder out s"

lemma follows_append: "follows leaves es l \<Longrightarrow> follows leaves es (l @ m)"
  unfolding follows_def by (metis append.assoc inOrder_append)

lemma follows_snoc: "follows leaves es l \<Longrightarrow> follows leaves (es @ [e]) (l @ [e])"
  unfolding follows_def by (metis append.assoc inOrder_snoc)

lemma follows_Nil: "follows [] es l \<longleftrightarrow> inOrder es l"
  unfolding follows_def by (auto intro: inOrder_prepend)

lemma publishedOrder_append: "publishedOrder out leaves l \<Longrightarrow> publishedOrder out leaves (l @ m)"
  unfolding publishedOrder_def by (rule follows_append)

lemma markersOrdered_quiet:
  assumes "markersOrdered out s" "quietly s t"
  shows "markersOrdered out t"
  unfolding markersOrdered_def
proof (intro allI impI)
  fix l1 l2 h pending ok
  assume l: "owLog t = l1 @ (markerRename out h pending, ok) # l2"
  from assms(2) obtain m where m: "owLog t = owLog s @ m" "list_all (\<lambda>(c, ok). \<not> isNativeRename c) m"
      "owPublished t = owPublished s" "owLeaves t = owLeaves s" by (auto simp: quietly_def)
  have "(markerRename out h pending, ok) \<notin> set m" using m(2) by (auto simp: list_all_iff markerRename_def)
  then obtain l3 where "owLog s = l1 @ (markerRename out h pending, ok) # l3"
    using l m(1) by (auto simp: append_eq_append_conv2 append_eq_Cons_conv)
  with assms(1) m(3,4) show "owPublished t \<and> publishedOrder out (owLeaves t) l1 \<and> (\<exists>bytes. inOrder [(WriteFile h bytes, True), (Sync h, True)] l1)"
    unfolding markersOrdered_def by metis
qed

text \<open>Properties that quiet steps keep.\<close>

definition stableO :: "(outWorld \<Rightarrow> bool) \<Rightarrow> bool" where
  "stableO P \<longleftrightarrow> (\<forall>s t. P s \<longrightarrow> quietly s t \<longrightarrow> P t)"

lemma outputInv_stable: "stableO (outputInv out)"
  unfolding stableO_def
proof (intro allI impI)
  fix s t assume s: "outputInv out s" "quietly s t"
  then obtain m where m: "owLog t = owLog s @ m" "owLeaves t = owLeaves s" "owPublished t = owPublished s" "owFinalization t = owFinalization s"
    by (auto simp: quietly_def)
  show "outputInv out t"
    using s(1) m markersOrdered_quiet[OF _ s(2)] unfolding outputInv_def finalizedOrder_def
    by (auto simp: leafDurable_def intro: inOrder_append publishedOrder_append)
qed

lemma stable_conj: "stableO P \<Longrightarrow> stableO Q \<Longrightarrow> stableO (\<lambda>s. P s \<and> Q s)"
  by (auto simp: stableO_def)

lemma stable_log: "stableO (\<lambda>s. inOrder es (owLog s))"
  by (auto simp: stableO_def quietly_def inOrder_append)

lemma stable_follows: "stableO (\<lambda>s. follows leaves es (owLog s))"
  by (auto simp: stableO_def quietly_def follows_append)

lemma stable_fields: "stableO (\<lambda>s. P (owPublished s) (owLeaves s) (owFinalization s))"
  by (auto simp: stableO_def quietly_def)

named_theorems stable_rules

lemmas stable_intros = stable_conj outputInv_stable stable_log stable_follows stable_fields

lemma wpO_quiet_bind:
  "quiet m \<Longrightarrow> stableO P \<Longrightarrow> P s \<Longrightarrow> (\<And>x t. P t \<Longrightarrow> wpO env (f x) Q E t) \<Longrightarrow> (\<And>e t. P t \<Longrightarrow> E e t) \<Longrightarrow> wpO env (bindO m f) Q E s"
  unfolding wpO_bind by (rule wpO_quiet) (auto simp: stableO_def)

lemma wpO_quiet_end:
  "quiet m \<Longrightarrow> stableO P \<Longrightarrow> P s \<Longrightarrow> (\<And>x t. P t \<Longrightarrow> Q x t) \<Longrightarrow> (\<And>e t. P t \<Longrightarrow> E e t) \<Longrightarrow> wpO env m Q E s"
  by (rule wpO_quiet) (auto simp: stableO_def)

section \<open>The quiet steps\<close>

lemma quiet_calls [quiet_intros]:
  "quiet (lstatO path)" "quiet (realpathO path)" "quiet (statO h)" "quiet (readdirO path)" "quiet randomO" "quiet (hookO hooks name)"
  unfolding lstatO_def realpathO_def statO_def readdirO_def randomO_def hookO_def by (intro quiet_intros isNativeRename.simps; simp)+

lemma quiet_identities [quiet_intros]:
  "quiet (assertSameIdentity dev ino expected failure)" "quiet (assertSameFileIdentity m expected' failure)"
  "quiet (assertOwnedPrivateDirectory m failure)" "quiet (assertRegular m failure)" "quiet (assertNormalizedAbsolute path)"
  unfolding assertSameIdentity_def assertSameFileIdentity_def assertOwnedPrivateDirectory_def assertRegular_def assertNormalizedAbsolute_def
  by (intro quiet_intros)+

lemma quiet_below: "quiet (assertNoSymlinkBelow current segments)"
  by (induction current segments rule: assertNoSymlinkBelow.induct) (auto intro: quiet_intros)

lemma quiet_symlinks [quiet_intros]: "quiet (assertNoSymlinkComponents path)"
  by (simp add: assertNoSymlinkComponents_def quiet_below)

lemma quiet_stable [quiet_intros]:
  "quiet (assertDirectoryIdentity path expected failure)" "quiet (assertParentStable out)" "quiet (assertStagingStable out)"
  unfolding assertDirectoryIdentity_def assertParentStable_def assertStagingStable_def Let_def by (intro quiet_intros)+

lemma quiet_missing [quiet_intros]: "quiet (assertMissing path)"
  unfolding assertMissing_def by (intro quiet_intros) (auto split: sum.split intro: quiet_intros)

lemma quiet_case_option [quiet_intros]: "quiet m \<Longrightarrow> (\<And>x. quiet (f x)) \<Longrightarrow> quiet (case v of None \<Rightarrow> m | Some x \<Rightarrow> f x)"
  by (cases v) simp_all

lemma quiet_case_sum [quiet_intros]: "(\<And>e. quiet (m e)) \<Longrightarrow> (\<And>x. quiet (f x)) \<Longrightarrow> quiet (case v of Inl e \<Rightarrow> m e | Inr x \<Rightarrow> f x)"
  by (cases v) simp_all

lemma quiet_case_prod [quiet_intros]: "(\<And>x y. quiet (f x y)) \<Longrightarrow> quiet (case v of (x, y) \<Rightarrow> f x y)"
  by (cases v) simp_all

lemma quiet_trees [quiet_intros]:
  "quiet (assertLeavesAt directory failure)" "quiet (assertPublishedTree out names)" "quiet (assertPublishedTreeUnchanged out names)"
  unfolding assertPublishedTreeUnchanged_def assertPublishedTree_def assertLeavesAt_def Let_def by (intro quiet_intros)+

lemma quiet_ready [quiet_intros]: "quiet (assertPublishedReady out bytes expected)"
  unfolding assertPublishedReady_def Let_def by (intro quiet_intros; simp)

lemma quiet_reads [quiet_intros]:
  "quiet assertFinalized" "quiet (assertHeldLeaf held)" "quiet (readCommitted name)" "quiet (assertCommitted out)" "quiet publicationIdentity"
  unfolding readCommitted_def assertCommitted_def publicationIdentity_def assertFinalized_def assertHeldLeaf_def
  by (intro quiet_intros; simp)+

lemma quiet_checkReady [quiet_intros]: "quiet (checkReady out pendingIdentity)"
  unfolding checkReady_def Let_def by (intro quiet_intros)

lemma quiet_cleanup [quiet_intros]: "quiet (cleanupStaging out)" "quiet (closeOnce out)"
  unfolding closeOnce_def cleanupStaging_def assertCleanupLeaves_def Let_def by (intro quiet_intros; simp)+

section \<open>Calls that count\<close>

lemma wpO_call_bind:
  assumes "\<not> isNativeRename c" "stableO P" "P s" "follows leaves es (owLog s)"
    "\<And>x t. P t \<Longrightarrow> follows leaves (es @ [(c, True)]) (owLog t) \<Longrightarrow> wpO env (f x) Q E t" "\<And>e t. P t \<Longrightarrow> E e t"
  shows "wpO env (bindO (callO c g) f) Q E s"
  unfolding wpO_bind
proof (rule wpO_call)
  have P: "P (called c ok s)" for ok
    using assms(1-3) unfolding stableO_def quietly_def by (auto simp: called_def)
  show "wpO env (f (g a)) Q E (called c True s)" for a
    by (rule assms(5)[OF P]) (use assms(4) follows_snoc in simp)
  show "E e (called c False s)" for e by (rule assms(6)[OF P])
qed

text \<open>A call that is no rename of a marker.\<close>

definition isMarker :: "claimedOutput \<Rightarrow> ioCall \<Rightarrow> bool" where
  "isMarker out c \<longleftrightarrow> (\<exists>h pending. c = markerRename out h pending)"

lemma markersOrdered_snoc:
  assumes "markersOrdered out s" "owLog t = owLog s @ [(c, ok)]" "owPublished t = owPublished s" "owLeaves t = owLeaves s"
    "isMarker out c \<Longrightarrow> owPublished s \<and> publishedOrder out (owLeaves s) (owLog s)"
    "\<And>h pending. c = markerRename out h pending \<Longrightarrow> \<exists>bytes. inOrder [(WriteFile h bytes, True), (Sync h, True)] (owLog s)"
  shows "markersOrdered out t"
  unfolding markersOrdered_def
proof (intro allI impI)
  fix l1 l2 h pending k
  assume l: "owLog t = l1 @ (markerRename out h pending, k) # l2"
  show "owPublished t \<and> publishedOrder out (owLeaves t) l1 \<and> (\<exists>bytes. inOrder [(WriteFile h bytes, True), (Sync h, True)] l1)"
  proof (cases l2 rule: rev_cases)
    case Nil
    then have "l1 = owLog s" "c = markerRename out h pending" using l assms(2) by auto
    then show ?thesis using assms(3-6) by (auto simp: isMarker_def)
  next
    case (snoc l3 e)
    then have "owLog s = l1 @ (markerRename out h pending, k) # l3" using l assms(2) by auto
    then show ?thesis using assms(1,3,4) unfolding markersOrdered_def by metis
  qed
qed

lemma outputInv_called:
  assumes "outputInv out s"
    "isMarker out c \<Longrightarrow> owPublished s"
    "\<And>h pending. c = markerRename out h pending \<Longrightarrow> \<exists>bytes. inOrder [(WriteFile h bytes, True), (Sync h, True)] (owLog s)"
  shows "outputInv out (called c ok s)"
proof -
  have "markersOrdered out (called c ok s)"
    by (rule markersOrdered_snoc[of out s _ c ok]) (use assms in \<open>auto simp: outputInv_def\<close>)
  then show ?thesis
    using assms(1) unfolding outputInv_def finalizedOrder_def
    by (auto simp: leafDurable_def intro: inOrder_append publishedOrder_append)
qed

lemma stagingRename_no_marker: "ocParentHandle out \<noteq> ocStagingHandle out \<Longrightarrow> \<not> isMarker out (stagingRename out)"
  by (auto simp: isMarker_def markerRename_def stagingRename_def)

text \<open>What the invariant reads of a state.\<close>

lemma outputInv_cong:
  "owLog t = owLog s \<Longrightarrow> owLeaves t = owLeaves s \<Longrightarrow> owPublished t = owPublished s \<Longrightarrow> owFinalization t = owFinalization s \<Longrightarrow>
   outputInv out s \<Longrightarrow> outputInv out t"
  by (simp add: outputInv_def markersOrdered_def finalizedOrder_def)

lemma outputInv_uncertain: "outputInv out s \<Longrightarrow> outputInv out (s\<lparr>owFinalization := Uncertain\<rparr>)"
  by (simp add: outputInv_def markersOrdered_def finalizedOrder_def)

lemma outputInv_unpublished: "outputInv out s \<Longrightarrow> \<not> owPublished s \<Longrightarrow> owLog s \<noteq> l1 @ (markerRename out h pending, ok) # l2"
  unfolding outputInv_def markersOrdered_def by blast

section \<open>Claiming\<close>

lemma wpO_throwing: "(\<And>x t. wpO env (f x) Q (\<lambda>_ _. True) t) \<Longrightarrow> wpO env (bindO m f) Q (\<lambda>_ _. True) s"
  unfolding wpO_bind by (auto simp: wpO_def split: prod.splits sum.splits)

lemma abandonClaim_throws: "wpO env (abandonClaim parent staging parentHandle stagingIdentity stagingHandle e) Q (\<lambda>_ _. True) s"
  unfolding abandonClaim_def by (intro wpO_throwing) (simp add: Let_def wpO_throw)

lemma noRenames_stable [stable_rules]: "stableO noRenames"
  by (auto simp: stableO_def quietly_def noRenames_def)

lemma clock_stable [stable_rules]: "stableO (\<lambda>s. n < owClock s)"
  by (auto simp: stableO_def quietly_def)

lemma wpO_open:
  assumes "\<not> isNativeRename c" "stableO P" "P s"
    "\<And>h t. P t \<Longrightarrow> owClock s = h \<Longrightarrow> h < owClock t \<Longrightarrow> Q h t" "\<And>e t. P t \<Longrightarrow> E e t"
  shows "wpO env (openO c) Q E s"
proof -
  have P: "P (called c ok s)" for ok using assms(1-3) unfolding stableO_def quietly_def by (auto simp: called_def)
  show ?thesis unfolding openO_def wpO_simps
    by (rule wpO_call) (use assms(4,5)[OF P] in simp_all)
qed

lemma constructed:
  "noRenames s \<Longrightarrow> ocParentHandle out \<noteq> ocStagingHandle out \<Longrightarrow>
   outputInv out (s\<lparr>owLeaves := [], owPublished := False, owFinalization := Pending, owStagingDisposed := False,
     owTargetIdentity := None, owClosed := None\<rparr>)"
  unfolding outputInv_def markersOrdered_def finalizedOrder_def noRenames_def by (auto simp: markerRename_def)

lemma claim_invariant:
  assumes s0: "noRenames s0"
  shows "wpO env (claimOwnedOutputDirectory parent bundleName hooks) outputInv (\<lambda>_ _. True) s0"
proof -
  have stable: "stableO (\<lambda>s. noRenames s \<and> h < owClock s)" for h by (intro stable_conj stable_rules)
  note q = wpO_quiet_bind[OF _ noRenames_stable] and q1 = wpO_quiet_bind[OF _ stable] and e1 = wpO_quiet_end[OF _ stable]
  show ?thesis
    unfolding claimOwnedOutputDirectory_def Let_def
    apply (rule q, (rule quiet_intros)+, rule s0)
    apply (rule q, (rule quiet_intros)+, assumption)
    apply (rule q, (rule quiet_intros)+, assumption)
    apply (rule q, (rule quiet_intros)+, assumption)
    apply (rule q, (rule quiet_intros)+, assumption)
    apply (rule q, (rule quiet_intros)+, assumption)
    apply (rule q, (rule quiet_intros)+, assumption)
    apply (rule q, (rule quiet_intros)+, assumption)
    apply (unfold wpO_bind[of _ "openO _"], rule wpO_open[OF _ noRenames_stable], (rule quiet_intros)+, assumption)
    apply (rule q1, (rule quiet_intros)+, (rule conjI, assumption, assumption))
    apply (rule q1, (rule quiet_intros)+, assumption)
    apply (rule q1, (rule quiet_intros)+, assumption)
    apply (unfold wpO_bind wpO_catch)
    apply (rule e1, (rule quiet_intros)+, assumption)
    apply (rule e1, (rule quiet_intros)+, assumption)
    apply (rule e1, (rule quiet_intros)+, assumption)
    apply (rule e1, (rule quiet_intros)+, assumption)
    apply (unfold wpO_return)
    apply (rule e1, (rule quiet_intros)+, assumption)
    apply (rule wpO_open[OF _ stable], (rule quiet_intros)+, assumption)
    apply (rule e1, (rule quiet_intros)+, assumption)
    apply (rule e1, (rule quiet_intros)+, assumption)
    apply (unfold constructOutput_def wpO_bind wpO_modify wpO_return)
    apply (rule wpO_quiet_end[OF _ outputInv_stable], (rule quiet_intros)+)
    prefer 2 apply assumption
    apply (rule constructed, erule conjunct1, simp)
    by (simp_all only: abandonClaim_throws)
qed

section \<open>The methods keep the invariant\<close>

abbreviation keeps :: "outEnv \<Rightarrow> 'a outM \<Rightarrow> (outWorld \<Rightarrow> bool) \<Rightarrow> outWorld \<Rightarrow> bool" where
  "keeps env m P s \<equiv> wpO env m (\<lambda>_. P) (\<lambda>_. P) s"

lemma keeps_quiet: "quiet m \<Longrightarrow> stableO P \<Longrightarrow> P s \<Longrightarrow> keeps env m P s"
  by (rule wpO_quiet_end)

lemma setLeaf_unpublished:
  assumes "outputInv out s" "\<not> owPublished s" "leafDurable leaf (owLog s)"
  shows "outputInv out (s\<lparr>owLeaves := mapSet name leaf (owLeaves s)\<rparr>)"
  using assms unfolding outputInv_def markersOrdered_def finalizedOrder_def by (auto simp: set_mapSet)

lemma writeHeld_keeps:
  assumes "outputInv out s \<and> \<not> owPublished s"
  shows "keeps env (writeHeld out name bytes h) (outputInv out) s"
proof -
  have stable: "stableO (\<lambda>s. outputInv out s \<and> \<not> owPublished s)" by (intro stable_intros)
  have stable1: "stableO (\<lambda>s. (outputInv out s \<and> \<not> owPublished s) \<and> follows [] es (owLog s))" for es by (intro stable_intros)
  note q = wpO_quiet_bind[OF _ stable] and q1 = wpO_quiet_bind[OF _ stable1]
  show ?thesis
    unfolding writeHeld_def Let_def
    apply (rule q, (rule quiet_intros)+, rule assms)
    apply (rule q, (rule quiet_intros)+, assumption)
    apply (rule q, (rule quiet_intros)+, assumption)
    apply (rule wpO_call_bind[OF _ stable, where leaves = "[]" and es = "[]"], (rule quiet_intros)+, assumption, simp add: follows_Nil)
    apply (rule wpO_call_bind[OF _ stable, where leaves = "[]"], (rule quiet_intros)+, assumption, assumption)
    apply (rule q1, (rule quiet_intros)+, rule conjI, assumption, assumption)
    apply (rule q1, (rule quiet_intros)+, assumption)
    apply (simp only: setLeaf_def wpO_simps)
    by (auto intro: setLeaf_unpublished simp: leafDurable_def follows_Nil)
qed

lemma writeExclusive_keeps:
  assumes "outputInv out s"
  shows "keeps env (writeExclusive out name bytes) (outputInv out) s"
proof -
  have stable: "stableO (\<lambda>s. outputInv out s \<and> \<not> owPublished s)" by (intro stable_intros)
  note q = wpO_quiet_bind[OF _ stable] and q1 = wpO_quiet_bind[OF _ outputInv_stable[of out]]
  show ?thesis
    unfolding writeExclusive_def
    apply (rule wpO_read, rule wpO_guard, rule assms, rule wpO_guard, rule assms, rule wpO_guard, rule assms)
    apply (rule q, (rule quiet_intros)+, rule conjI, rule assms, assumption)
    apply (rule q, (rule quiet_intros)+, assumption)
    apply (rule q, (rule quiet_intros)+, assumption)
    apply (unfold wpO_bind[of _ "catchO _ _"] wpO_catch)
    apply (rule wpO_mono[OF writeHeld_keeps], assumption)
    apply (rule q1, (rule quiet_intros)+, assumption)
    apply (rule q1, (rule quiet_intros)+, assumption)
    apply (rule q1, (rule quiet_intros)+, assumption)
    apply (rule keeps_quiet[OF _ outputInv_stable], (rule quiet_intros)+, assumption)
    apply (simp_all only:)
    apply (rule q1, (rule quiet_intros)+, assumption)
    by (simp_all only: wpO_throw)
qed

lemma publishRename_keeps:
  assumes "outputInv out s" "follows leaves es (owLog s)"
  shows "wpO env (publishRename out) (\<lambda>_ t. outputInv out t \<and> follows leaves (es @ [(stagingRename out, True)]) (owLog t) \<and>
       owLeaves t = owLeaves s \<and> owPublished t = owPublished s) (\<lambda>_. outputInv out) s"
proof -
  have i: "outputInv out (called (stagingRename out) ok s)" for ok
    by (rule outputInv_called[OF assms(1)])
      (use assms(1) stagingRename_no_marker in \<open>auto simp: outputInv_def isMarker_def\<close>)
  have u: "outputInv out (t\<lparr>owStagingDisposed := True\<rparr>)" if "outputInv out t" for t by (rule outputInv_cong[OF _ _ _ _ that]) simp_all
  show ?thesis
    unfolding publishRename_def wpO_catch stagingRename_def[symmetric]
    by (rule wpO_call) (use assms(2) i u in \<open>auto simp: follows_snoc wpO_simps\<close>)
qed

lemma syncParent_call: "syncParent out = doO (parentSyncCall out)"
  by (simp add: syncParent_def parentSyncCall_def)

lemma syncMarker_call: "syncMarker out = doO (markerSyncCall out)"
  by (simp add: syncMarker_def markerSyncCall_def)

lemma sync_not_native [quiet_intros]: "\<not> isNativeRename (parentSyncCall out)" "\<not> isNativeRename (markerSyncCall out)"
  by (simp_all add: parentSyncCall_def markerSyncCall_def)

lemma leaves_follow: "outputInv out s \<Longrightarrow> follows (owLeaves s) [] (owLog s)"
  unfolding outputInv_def follows_def by (intro exI[of _ "owLog s"] exI[of _ "[]"]) auto

lemma outputInv_published:
  assumes "outputInv out s" "\<not> owPublished s" "publishedOrder out (owLeaves s) (owLog s)"
  shows "outputInv out (s\<lparr>owPublished := True\<rparr>)"
  using assms unfolding outputInv_def markersOrdered_def finalizedOrder_def by auto

lemma publish_keeps:
  assumes "outputInv out s"
  shows "keeps env (publish out) (outputInv out) s"
proof -
  let ?P = "\<lambda>t. outputInv out t \<and> \<not> owPublished t \<and> owLeaves t = owLeaves s"
  have stable: "stableO ?P" by (intro stable_intros)
  have stable1: "stableO (\<lambda>t. ?P t \<and> follows (owLeaves s) es (owLog t))" for es by (intro stable_conj[OF stable] stable_intros)
  have renamed: "?P (t\<lparr>owStagingDisposed := True, owTargetIdentity := Some d\<rparr>)" if "outputInv out t" "owLeaves t = owLeaves s" "\<not> owPublished t" for t d
    using outputInv_cong[OF _ _ _ _ that(1)] that by simp
  note q = wpO_quiet_bind[OF _ stable] and q1 = wpO_quiet_bind[OF _ stable1]
  show ?thesis
    unfolding publish_def uncertainly_def
    apply (rule wpO_read, rule wpO_guard, rule assms)
    apply (rule q, (rule quiet_intros)+, simp add: assms)
    apply (rule wpO_guard, erule conjunct1)
    apply (rule q, (rule quiet_intros)+, assumption)
    apply (rule wpO_call_bind[OF _ stable, where leaves = "owLeaves s" and es = "[]"], (rule quiet_intros)+, assumption, metis leaves_follow)
    apply (rule q1, (rule quiet_intros)+, rule conjI, assumption, assumption)
    apply (rule q1, (rule quiet_intros)+, assumption)
    apply (rule q1, (rule quiet_intros)+, assumption)
    apply (rule q1, (rule quiet_intros)+, assumption)
    apply (unfold wpO_bind[of _ "publishRename _"])
    apply (rule wpO_mono[OF publishRename_keeps], blast, blast)
    apply (unfold wpO_bind[of _ "modifyO _"] wpO_modify wpO_catch wpO_throw)
    apply (rule q1, (rule quiet_intros)+, rule conjI)
    apply (rule renamed; simp)
    apply (simp, elim conjE, assumption)
    apply (rule q1, (rule quiet_intros)+, assumption)
    apply (rule q1, (rule quiet_intros)+, assumption)
    apply (rule q1, (rule quiet_intros)+, assumption)
    apply (rule q1, (rule quiet_intros)+, assumption)
    apply (rule q1, (rule quiet_intros)+, assumption)
    apply (unfold syncParent_call)
    apply (rule wpO_call_bind[OF _ stable, where leaves = "owLeaves s"], (rule quiet_intros)+, erule conjunct1, erule conjunct2)
    apply (rule q1, (rule quiet_intros)+, rule conjI, assumption, assumption)
    apply (simp only: wpO_bind wpO_modify wpO_return)
    by (auto intro!: outputInv_published simp: publishedOrder_def)
qed

lemma finalizing_keeps:
  assumes "wpO env m Q (\<lambda>_. outputInv out) s"
  shows "wpO env (finalizing h maybePublished retained m) Q (\<lambda>_. outputInv out) s"
proof -
  have close: "wpO env (doO (Close h)) (\<lambda>_. wpO env (throwO e) Q (\<lambda>_. outputInv out)) (\<lambda>_. outputInv out) t" if "outputInv out t" for e t
    by (rule wpO_quiet_end[OF _ outputInv_stable that], (rule quiet_intros)+) (simp_all add: wpO_throw)
  have "wpO env (bindO (if maybePublished then modifyO (\<lambda>s. s\<lparr>owFinalization := Uncertain\<rparr>) else returnO ()) (\<lambda>_.
     bindO (if retained then returnO () else doO (Close h)) (\<lambda>_.
     throwO (if maybePublished then outFailure ''OUTPUT_PUBLICATION_UNCERTAIN'' else e)))) Q (\<lambda>_. outputInv out) t"
    if "outputInv out t" for e t
    using close[OF that] close[OF outputInv_uncertain[OF that]] outputInv_uncertain[OF that] that
    by (cases maybePublished; cases retained; simp add: wpO_simps)
  then show ?thesis unfolding finalizing_def wpO_catch by (intro wpO_mono[OF assms])
qed

lemma finalizing_throw: "outputInv out s \<Longrightarrow> wpO env (finalizing h maybePublished retained (throwO e)) Q (\<lambda>_. outputInv out) s"
  by (rule finalizing_keeps) (simp add: wpO_throw)

lemma prepareReady_keeps:
  assumes "P s" and stable: "stableO P"
  shows "wpO env (prepareReady out bytes pendingName h)
    (\<lambda>_ t. P t \<and> follows [] [(WriteFile h bytes, True), (Sync h, True)] (owLog t)) (\<lambda>_. P) s"
proof -
  have stable1: "stableO (\<lambda>t. P t \<and> follows [] es (owLog t))" for es by (intro stable_conj[OF stable] stable_intros)
  note q = wpO_quiet_bind[OF _ stable] and q1 = wpO_quiet_bind[OF _ stable1]
  show ?thesis
    unfolding prepareReady_def Let_def
    apply (rule q, (rule quiet_intros)+, rule assms)
    apply (rule wpO_call_bind[OF _ stable, where leaves = "[]" and es = "[]"], (rule quiet_intros)+, assumption, simp add: follows_Nil)
    apply (rule wpO_call_bind[OF _ stable, where leaves = "[]"], (rule quiet_intros)+, assumption, assumption)
    apply (rule q1, (rule quiet_intros)+, rule conjI, assumption, assumption)
    apply (rule q1, (rule quiet_intros)+, assumption)
    apply (rule q1, (rule quiet_intros)+, assumption)
    apply (rule q1, (rule quiet_intros)+, assumption)
    apply (rule q1, (rule quiet_intros)+, assumption)
    apply (rule q1, (rule quiet_intros)+, assumption)
    apply (rule q1, (rule quiet_intros)+, assumption)
    by (simp_all add: wpO_return)
qed

definition readyLog :: "claimedOutput \<Rightarrow> nat list \<Rightarrow> string \<Rightarrow> nat \<Rightarrow> outWorld \<Rightarrow> bool" where
  "readyLog out bytes pendingName h s \<longleftrightarrow>
     follows [] [(WriteFile h bytes, True), (Sync h, True)] (owLog s) \<and> follows [] [(markerRename out h pendingName, True)] (owLog s)"

lemma renameReady_keeps:
  assumes "outputInv out s" "owPublished s" "follows [] [(WriteFile h bytes, True), (Sync h, True)] (owLog s)"
  shows "wpO env (renameReady out pendingName h) (\<lambda>_ t. outputInv out t \<and> owPublished t \<and> owLeaves t = owLeaves s \<and> readyLog out bytes pendingName h t)
    (\<lambda>_. outputInv out) s"
proof -
  have i: "outputInv out (called (markerRename out h pendingName) ok s)" for ok
    by (rule outputInv_called[OF assms(1)]) (use assms(2,3) in \<open>auto simp: follows_Nil markerRename_def\<close>)
  have r: "readyLog out bytes pendingName h (called (markerRename out h pendingName) True s)"
    using assms(3) follows_append[OF assms(3)] inOrder_snoc[of "[]" "owLog s"] by (simp add: readyLog_def follows_Nil)
  show ?thesis
    unfolding renameReady_def wpO_bind wpO_try markerRename_def[symmetric]
    by (rule wpO_call) (use assms(2) i r in \<open>auto simp: wpO_return intro: finalizing_throw\<close>)
qed

lemma ready_leaf:
  assumes "outputInv out s" "owPublished s" "''READY'' \<notin> set (map fst (owLeaves s))" "follows [] [(WriteFile h bytes, True), (Sync h, True)] (owLog s)"
  shows "outputInv out (s\<lparr>owLeaves := mapSet ''READY'' \<lparr>hlHandle = h, hlIdentity = i, hlBytes = bytes\<rparr> (owLeaves s)\<rparr>)"
proof -
  have "distinct (map fst (owLeaves s))" using assms(1) by (simp add: outputInv_def)
  then have "(\<forall>(name, leaf)\<in>set (mapSet ''READY'' l (owLeaves s)). name \<noteq> ''READY'' \<longrightarrow> leafDurable leaf files) \<longleftrightarrow>
      (\<forall>(name, leaf)\<in>set (owLeaves s). name \<noteq> ''READY'' \<longrightarrow> leafDurable leaf files)" for l files
    by (auto simp: set_mapSet)
  then have p: "publishedOrder out (mapSet ''READY'' l (owLeaves s)) log = publishedOrder out (owLeaves s) log" for l log
    unfolding publishedOrder_def follows_def by simp
  have f: "owFinalization s \<noteq> Durable" using assms(1,3) by (auto simp: outputInv_def finalizedOrder_def)
  show ?thesis
    using assms f unfolding outputInv_def markersOrdered_def finalizedOrder_def follows_Nil
    by (simp add: p set_mapSet leafDurable_def)
qed

lemma outputInv_durable:
  assumes "outputInv out s" "owPublished s" "''READY'' \<in> set (map fst (owLeaves s))"
    "follows [] [(markerRename out h pending, True), (markerSyncCall out, True)] (owLog s)"
  shows "outputInv out (s\<lparr>owFinalization := Durable\<rparr>)"
  using assms unfolding outputInv_def markersOrdered_def finalizedOrder_def follows_Nil by auto

lemma finalizeReady_keeps:
  assumes "outputInv out s"
  shows "keeps env (finalizeReady out bytes) (outputInv out) s"
proof -
  let ?P = "\<lambda>t. outputInv out t \<and> owPublished t \<and> ''READY'' \<notin> set (map fst (owLeaves t))"
  let ?R = "\<lambda>t. outputInv out t \<and> owPublished t \<and> ''READY'' \<in> set (map fst (owLeaves t))"
  have stable: "stableO ?P" by (intro stable_intros)
  have stable1: "stableO (\<lambda>t. ?P t \<and> readyLog out bytes pending h t)" for pending h
    unfolding readyLog_def by (intro stable_conj[OF stable] stable_intros)
  have stable2: "stableO (\<lambda>t. ?R t \<and> follows [] es (owLog t))" for es by (intro stable_intros)
  have stable3: "stableO ?R" by (intro stable_intros)
  have placed: "?R t' \<and> follows [] [(markerRename out h pending, True)] (owLog t')"
    if "?P t \<and> readyLog out bytes pending h t" "t' = t\<lparr>owLeaves := mapSet ''READY'' \<lparr>hlHandle = h, hlIdentity = i, hlBytes = bytes\<rparr> (owLeaves t)\<rparr>" for t t' pending h i
    using that ready_leaf[of out t h bytes i] by (simp add: readyLog_def del: set_map)
  note placed = placed[OF _ refl]
  note q = wpO_quiet_bind[OF _ stable] and e1 = wpO_quiet_end[OF _ stable1] and q2 = wpO_quiet_bind[OF _ stable2]
  show ?thesis
    unfolding finalizeReady_def Let_def
    apply (rule wpO_read, rule wpO_guard, rule assms, rule wpO_read, rule wpO_guard, rule assms, rule wpO_guard, rule assms)
    apply (rule q, (rule quiet_intros)+, simp add: assms)
    apply (rule q, (rule quiet_intros)+, assumption)
    apply (rule q, (rule quiet_intros)+, assumption)
    apply (unfold wpO_bind[of _ "finalizing _ _ _ _"])
    apply (rule finalizing_keeps, rule wpO_mono[OF prepareReady_keeps[OF _ stable]], assumption)
    apply (unfold wpO_bind[of _ "renameReady _ _ _"])
    apply (rule wpO_mono[OF renameReady_keeps], blast, blast, erule conjunct2)
    apply (unfold wpO_bind[of _ "finalizing _ _ _ _"])
    apply (rule finalizing_keeps)
    apply (rule e1, (rule quiet_intros)+, simp, elim conjE, assumption)
    apply (unfold setLeaf_def wpO_bind[of _ "modifyO _"] wpO_modify)
    apply (rule finalizing_keeps)
    apply (rule q2, (rule quiet_intros)+, erule placed)
    apply (rule q2, (rule quiet_intros)+, assumption)
    apply (unfold syncMarker_call)
    apply (rule wpO_call_bind[OF _ stable3, where leaves = "[]"], (rule quiet_intros)+, erule conjunct1, erule conjunct2)
    apply (rule q2, (rule quiet_intros)+, rule conjI, assumption, assumption)
    apply (rule q2, (rule quiet_intros)+, assumption)
    apply (unfold wpO_modify append_Cons append_Nil, elim conjE, rule outputInv_durable, assumption, assumption, assumption, assumption)
    by (simp_all only:)
qed

lemma closeOutput_keeps:
  assumes "outputInv out s"
  shows "keeps env (closeOutput out) (outputInv out) s"
proof -
  have c: "outputInv out (t\<lparr>owClosed := v\<rparr>)" if "outputInv out t" for t v by (rule outputInv_cong[OF _ _ _ _ that]) simp_all
  have "keeps env (closeOnce out) (\<lambda>t. outputInv out t) s" by (rule keeps_quiet[OF _ outputInv_stable assms]) (rule quiet_intros)+
  then show ?thesis
    unfolding closeOutput_def using assms
    by (auto simp: wpO_simps c split: option.split sum.split elim!: wpO_mono)
qed

lemma methods_keep: "outputInv out s \<Longrightarrow> keeps env (performO out m) (outputInv out) s"
proof (cases m)
  case (MWrite name bytes)
  then show "outputInv out s \<Longrightarrow> ?thesis" by (simp add: writeExclusive_keeps)
next
  case MPublish
  then show "outputInv out s \<Longrightarrow> ?thesis" by (simp only: performO.simps wpO_bind) (erule wpO_mono[OF publish_keeps], simp_all add: wpO_return)
next
  case (MFinalize bytes)
  then show "outputInv out s \<Longrightarrow> ?thesis" by (simp add: finalizeReady_keeps)
next
  case MClose
  then show "outputInv out s \<Longrightarrow> ?thesis" by (simp add: closeOutput_keeps)
qed (simp_all, (rule keeps_quiet[OF _ outputInv_stable], (rule quiet_intros)+, assumption)+)

theorem history_invariant: "history env out s \<Longrightarrow> outputInv out s"
proof (induction rule: history.induct)
  case (claimed s0 parent bundleName hooks out s)
  then show ?case using wpO_result[OF claim_invariant] by blast
next
  case (performed out s m)
  show ?case by (rule wpO_state[OF methods_keep[OF performed.IH]])
next
  case (others out s t)
  then have "outputInv out (t\<lparr>owBundleClosed := owBundleClosed s\<rparr>)" using outputInv_stable[of out] unfolding stableO_def by blast
  then show ?case by (rule outputInv_cong[rotated 4]) simp_all
qed

lemma history_quietly: "history env out s \<Longrightarrow> quietly s t \<Longrightarrow> history env out t"
  by (erule history.others) (simp add: quietly_def)

section \<open>Reading and freezing\<close>

lemma assertFinalized_ok: "assertFinalized env s = (Inr (), t) \<longleftrightarrow> owPublished s \<and> owFinalization s = Durable \<and> t = s"
  by (auto simp: assertFinalized_def bindO_def getsO_def failIfO_def throwO_def returnO_def)

lemma bindO_Inr: "bindO m f env s = (Inr y, t) \<longleftrightarrow> (\<exists>x u. m env s = (Inr x, u) \<and> f x env u = (Inr y, t))"
  by (auto simp: bindO_def split: prod.splits sum.splits)

lemma callO_Inr: "callO c f env s = (Inr y, t) \<longleftrightarrow>
    anError (oeAnswer env (owClock s)) = None \<and> y = f (oeAnswer env (owClock s)) \<and> t = called c True s"
  by (auto simp: callO_def Let_def called_def split: option.split)

lemma failIfO_Inr: "failIfO b failure env s = (Inr y, t) \<longleftrightarrow> \<not> b \<and> t = s"
  by (auto simp: failIfO_def throwO_def returnO_def)

lemma returnO_Inr: "returnO x env s = (Inr y, t) \<longleftrightarrow> y = x \<and> t = s"
  by (auto simp: returnO_def)

lemma getsO_Inr: "getsO f env s = (Inr y, t) \<longleftrightarrow> y = f s \<and> t = s"
  by (auto simp: getsO_def)

lemma throwO_Inr: "throwO e env s = (Inr y, t) \<longleftrightarrow> False"
  by (simp add: throwO_def)

lemmas runs = bindO_Inr callO_Inr failIfO_Inr returnO_Inr getsO_Inr throwO_Inr assertFinalized_ok

lemma assertHeldLeaf_ok:
  "assertHeldLeaf held env s = (Inr (), t) \<Longrightarrow>
   anBytes (oeAnswer env (Suc (owClock s))) = hlBytes held \<and>
   owLog t = owLog s @ [(Stat (hlHandle held), True), (ReadAt (hlHandle held) (fiSize (hlIdentity held)), True), (Stat (hlHandle held), True)]"
  by (auto simp: assertHeldLeaf_def statO_def assertSameFileIdentity_def assertSameIdentity_def runs)

definition committedOrder :: "claimedOutput \<Rightarrow> outWorld \<Rightarrow> bool" where
  "committedOrder out s \<longleftrightarrow> publishedOrder out (owLeaves s) (owLog s) \<and>
     (\<exists>h pending. inOrder [(markerRename out h pending, True), (markerSyncCall out, True)] (owLog s))"

lemma readCommitted_sound:
  assumes "history env out s" "readCommitted name env s = (Inr bytes, t)"
  shows "owFinalization s = Durable \<and> committedOrder out s \<and>
    (\<exists>leaf. (name, leaf) \<in> set (owLeaves s) \<and> hlBytes leaf = bytes \<and> leafDurable leaf (owLog s) \<and>
       anBytes (oeAnswer env (Suc (owClock s))) = bytes \<and>
       owLog t = owLog s @ [(Stat (hlHandle leaf), True), (ReadAt (hlHandle leaf) (fiSize (hlIdentity leaf)), True), (Stat (hlHandle leaf), True)])"
proof -
  note i = history_invariant[OF assms(1)]
  obtain leaf where r: "owPublished s" "owFinalization s = Durable" "map_of (owLeaves s) name = Some leaf" "assertHeldLeaf leaf env s = (Inr (), t)" "bytes = hlBytes leaf"
    using assms(2) unfolding readCommitted_def runs by (auto simp: runs split: option.splits)
  moreover from r(3) have l: "(name, leaf) \<in> set (owLeaves s)" by (rule map_of_SomeD)
  moreover have "leafDurable leaf (owLog s)" using i l by (auto simp: outputInv_def)
  moreover have "committedOrder out s" using i r(1,2) by (simp add: outputInv_def finalizedOrder_def committedOrder_def)
  ultimately show ?thesis using assertHeldLeaf_ok[OF r(4)] by auto
qed

lemma keepsO: "quiet m \<Longrightarrow> quietly s (snd (m env s))"
  by (simp add: quiet_def)

lemma closeOutput_quietly:
  "quietly s ((snd (closeOutput out env s))\<lparr>owClosed := owClosed s\<rparr>)"
proof (cases "owClosed s")
  case (Some outcome)
  then have "snd (closeOutput out env s) = s"
    by (auto simp: closeOutput_def bindO_def getsO_def throwO_def returnO_def split: sum.split)
  then show ?thesis by (simp add: quietly_def)
next
  case None
  obtain r t where r: "closeOnce out env s = (r, t)" by (cases "closeOnce out env s")
  then have "quietly s t" using keepsO[of "closeOnce out" s env] quiet_cleanup(2)[of out] by simp
  moreover have "snd (closeOutput out env s) = t\<lparr>owClosed := Some r\<rparr>"
    using None r by (auto simp: closeOutput_def bindO_def getsO_def tryO_def modifyO_def throwO_def returnO_def split: sum.split)
  ultimately show ?thesis by (auto simp: quietly_def)
qed

lemma committed_frozen:
  assumes "history env out s" "owFinalization s = Durable"
  shows "quietly s ((snd (performO out m env s))\<lparr>owClosed := owClosed s\<rparr>)"
proof -
  have i: "owPublished s" "''READY'' \<in> set (map fst (owLeaves s))"
    using history_invariant[OF assms(1)] assms(2) by (auto simp: outputInv_def finalizedOrder_def)
  have same: "s\<lparr>owClosed := owClosed s\<rparr> = s" by simp
  have q: "quietly s ((snd (m env s))\<lparr>owClosed := owClosed s\<rparr>)" if "quiet m" for m :: "unit outM"
    using keepsO[OF that, of s env] by (auto simp: quietly_def)
  show ?thesis
  proof (cases m)
    case (MWrite name bytes) 
    then show ?thesis using i by (simp add: writeExclusive_def bindO_def getsO_def failIfO_def throwO_def)
  next
    case MPublish
    then show ?thesis using i by (simp add: publish_def bindO_def getsO_def failIfO_def throwO_def)
  next
    case (MFinalize bytes)
    then show ?thesis using i by (simp add: finalizeReady_def bindO_def getsO_def failIfO_def throwO_def returnO_def del: set_map)
  next
    case MClose
    then show ?thesis by (simp add: closeOutput_quietly)
  qed (simp_all, (rule q, (rule quiet_intros)+)+)
qed

section \<open>Observing steps\<close>

text \<open>
  Calls that change nothing on the disk: metadata, listings, contents, closing a handle, and the one injected
  function that a check of the committed output calls.
\<close>

fun isObserving :: "ioCall \<Rightarrow> bool" where
  "isObserving (Lstat _) = True"
| "isObserving (Realpath _) = True"
| "isObserving (Readdir _) = True"
| "isObserving (Stat _) = True"
| "isObserving (ReadAt _ _) = True"
| "isObserving (Close _) = True"
| "isObserving (Hook name) = (name = ''beforeFinalIdentityCheck'')"
| "isObserving _ = False"

definition observed :: "outWorld \<Rightarrow> outWorld \<Rightarrow> bool" where
  "observed s t \<longleftrightarrow> (\<exists>calls. owLog t = owLog s @ calls \<and> list_all (\<lambda>(c, ok). isObserving c) calls)"

definition observes :: "'a outM \<Rightarrow> bool" where
  "observes m \<longleftrightarrow> (\<forall>env s. observed s (snd (m env s)))"

named_theorems observe_intros

lemma observed_refl: "owLog t = owLog s \<Longrightarrow> observed s t"
  by (simp add: observed_def)

lemma observed_trans:
  assumes "observed s t" "observed t u" shows "observed s u"
proof -
  obtain m n where "owLog t = owLog s @ m" "owLog u = owLog t @ n"
      "list_all (\<lambda>(c, ok). isObserving c) m" "list_all (\<lambda>(c, ok). isObserving c) n"
    using assms unfolding observed_def by blast
  then have "owLog u = owLog s @ m @ n \<and> list_all (\<lambda>(c, ok). isObserving c) (m @ n)" by simp
  then show ?thesis unfolding observed_def by blast
qed

lemma observe_basic [observe_intros]: "observes (returnO x)" "observes (throwO e)" "observes (getsO f)" "observes uidO"
  "observes (failIfO b failure)" "observes (liftO r)"
  by (auto simp: observes_def returnO_def throwO_def getsO_def uidO_def failIfO_def liftO_def intro: observed_refl split: sum.split)

lemma observe_bind [observe_intros]: "observes m \<Longrightarrow> (\<And>x. observes (f x)) \<Longrightarrow> observes (bindO m f)"
  unfolding observes_def bindO_def
  by (auto split: prod.splits sum.splits) (metis observed_trans snd_conv)+

lemma observe_try [observe_intros]: "observes m \<Longrightarrow> observes (tryO m)"
  unfolding observes_def tryO_def by (auto split: prod.splits) (metis snd_conv)

lemma observe_call [observe_intros]: "isObserving c \<Longrightarrow> observes (callO c f)"
  unfolding observes_def callO_def observed_def by (auto simp: Let_def split: option.split)

lemma observe_each [observe_intros]: "(\<And>x. observes (f x)) \<Longrightarrow> observes (eachO f xs)"
  by (induction xs) (auto intro: observe_intros)

lemma observe_map [observe_intros]: "(\<And>x. observes (f x)) \<Longrightarrow> observes (mapO f xs)"
  by (induction xs) (auto intro!: observe_intros)

lemma observe_cases [observe_intros]:
  "observes m \<Longrightarrow> (\<And>x. observes (g x)) \<Longrightarrow> observes (case v of None \<Rightarrow> m | Some x \<Rightarrow> g x)"
  "(\<And>x y. observes (h x y)) \<Longrightarrow> observes (case w of (x, y) \<Rightarrow> h x y)"
  by (auto split: option.split prod.split)

lemma observe_calls [observe_intros]:
  "observes (lstatO path)" "observes (statO h)" "observes (readdirO path)" "observes (hookO hooks ''beforeFinalIdentityCheck'')"
  "observes (doO (Close h))"
  unfolding lstatO_def statO_def readdirO_def hookO_def by (auto intro!: observe_intros)

lemma observe_checks [observe_intros]:
  "observes (assertSameIdentity dev ino expected failure)" "observes (assertSameFileIdentity m expected' failure)" "observes (assertRegular m failure)"
  unfolding assertSameIdentity_def assertSameFileIdentity_def assertRegular_def by (intro observe_intros)+

lemma observe_tree [observe_intros]: "observes (assertPublishedTreeUnchanged out names)"
  unfolding assertPublishedTreeUnchanged_def assertPublishedTree_def assertLeavesAt_def Let_def by (intro observe_intros)

lemma observe_reads:
  "observes (readCommitted name)" "observes (assertCommitted out)" "observes publicationIdentity"
  unfolding readCommitted_def assertCommitted_def publicationIdentity_def assertFinalized_def assertHeldLeaf_def
  by (intro observe_intros isObserving.simps; simp)+

lemma closeOnce_observed:
  assumes "owPublished s" shows "observed s (snd (closeOnce out env s))"
proof -
  have "observes (bindO (getsO owLeaves) (\<lambda>leaves.
     bindO (mapO (\<lambda>h. tryO (doO (Close h))) (map (\<lambda>(name, held). hlHandle held) leaves @ [ocStagingHandle out, ocParentHandle out])) (\<lambda>closed.
     if failuresOf closed \<noteq> [] then throwO (AggregateError (failuresOf closed)) else returnO ())))"
    by (intro observe_intros) (auto intro: observe_intros)
  then show ?thesis
    using assms unfolding observes_def closeOnce_def Let_def by (simp add: bindO_def getsO_def tryO_def returnO_def)
qed

lemma closeOutput_observed:
  assumes "owPublished s" shows "observed s (snd (closeOutput out env s))"
proof (cases "owClosed s")
  case (Some outcome)
  then show ?thesis by (auto simp: closeOutput_def bindO_def getsO_def throwO_def returnO_def observed_refl split: sum.split)
next
  case None
  obtain r t where r: "closeOnce out env s = (r, t)" by (cases "closeOnce out env s")
  have "snd (closeOutput out env s) = t\<lparr>owClosed := Some r\<rparr>"
    using None r by (auto simp: closeOutput_def bindO_def getsO_def tryO_def modifyO_def throwO_def returnO_def split: sum.split)
  with closeOnce_observed[OF assms, of out env] r show ?thesis by (simp add: observed_def)
qed

lemma committed_observed:
  assumes "history env out s" "owFinalization s = Durable"
  shows "observed s (snd (performO out m env s))"
proof -
  have i: "owPublished s" "''READY'' \<in> set (map fst (owLeaves s))"
    using history_invariant[OF assms(1)] assms(2) by (auto simp: outputInv_def finalizedOrder_def)
  have q: "observed s (snd (m env s))" if "observes m" for m :: "unit outM"
    using that by (simp add: observes_def)
  show ?thesis
  proof (cases m)
    case (MWrite name bytes)
    then show ?thesis using i by (simp add: writeExclusive_def bindO_def getsO_def failIfO_def throwO_def observed_refl)
  next
    case MPublish
    then show ?thesis using i by (simp add: publish_def bindO_def getsO_def failIfO_def throwO_def observed_refl)
  next
    case (MFinalize bytes)
    then show ?thesis using i by (simp add: finalizeReady_def bindO_def getsO_def failIfO_def throwO_def returnO_def observed_refl del: set_map)
  next
    case MClose
    then show ?thesis using i(1) by (simp add: closeOutput_observed)
  qed (simp_all, (rule q, (rule observe_intros observe_reads)+)+)
qed

text \<open>The state after any further methods.\<close>

fun afterO :: "claimedOutput \<Rightarrow> outEnv \<Rightarrow> outMethod list \<Rightarrow> outWorld \<Rightarrow> outWorld" where
  "afterO out env [] s = s"
| "afterO out env (m # ms) s = afterO out env ms (snd (performO out m env s))"

lemma quietly_ignores_closed:
  "quietly s (t\<lparr>owClosed := owClosed s\<rparr>) \<Longrightarrow> quietly t (u\<lparr>owClosed := owClosed t\<rparr>) \<Longrightarrow> quietly s (u\<lparr>owClosed := owClosed s\<rparr>)"
  by (erule quietly_trans) (auto simp: quietly_def)

lemma committed_after:
  "history env out s \<Longrightarrow> owFinalization s = Durable \<Longrightarrow> quietly s ((afterO out env ms s)\<lparr>owClosed := owClosed s\<rparr>)"
proof (induction ms arbitrary: s)
  case Nil
  then show ?case by (simp add: quietly_def)
next
  case (Cons m ms)
  have q: "quietly s ((snd (performO out m env s))\<lparr>owClosed := owClosed s\<rparr>)" by (rule committed_frozen[OF Cons.prems])
  then have "owFinalization (snd (performO out m env s)) = Durable" using Cons.prems(2) by (auto simp: quietly_def)
  from Cons.IH[OF history.performed[OF Cons.prems(1)] this] q show ?case
    by (simp add: quietly_ignores_closed)
qed

lemma observed_after:
  "history env out s \<Longrightarrow> owFinalization s = Durable \<Longrightarrow> observed s (afterO out env ms s)"
proof (induction ms arbitrary: s)
  case Nil
  then show ?case by (simp add: observed_refl)
next
  case (Cons m ms)
  have "owFinalization (snd (performO out m env s)) = Durable"
    using committed_frozen[OF Cons.prems, of m] Cons.prems(2) by (auto simp: quietly_def)
  from observed_trans[OF committed_observed[OF Cons.prems] Cons.IH[OF history.performed[OF Cons.prems(1)] this]]
  show ?case by simp
qed

section \<open>A run\<close>

text \<open>A file system on which one file is written, published and finalized; every file has the byte 7.\<close>

definition sampleAnswer :: ioAnswer where
  "sampleAnswer = \<lparr>anError = None, anStats = \<lparr>fsFile = True, fsDirectory = True, fsSymlink = False, fsNlink = 1, fsUid = 0, fsMode = 448,
     fsDev = 1, fsIno = 2, fsCtime = 3, fsMtime = 3, fsSize = 1\<rparr>, anText = ''x'', anNames = [], anBytes = [7], anValue = JUndef\<rparr>"

definition sampleText :: "nat \<Rightarrow> string" where
  "sampleText n = (if n \<in> {2, 12, 21, 36, 46, 56, 67} then ''/p'' else if n \<in> {18, 27, 42, 52, 62} then ''/p/.b.staging-x'' else ''x'')"

definition sampleNames :: "nat \<Rightarrow> string list" where
  "sampleNames n = (if n = 74 then [''a''] else if n \<in> {86, 92} then [''a'', ''.READY.pending-x''] else [''a'', ''READY''])"

definition sampleEnv :: outEnv where
  "sampleEnv = \<lparr>oeAnswer = (\<lambda>n. sampleAnswer\<lparr>anText := sampleText n, anNames := sampleNames n,
     anError := if n \<in> {6, 64} then Some (SystemError (Some ''ENOENT'')) else None\<rparr>), oeUid = Some 0\<rparr>"

definition sampleOut :: claimedOutput where
  "sampleOut = \<lparr>ocPath = ''/p/.b.staging-x'', ocParent = ''/p'', ocParentHandle = 3, ocParentIdentity = \<lparr>diDev = 1, diIno = 2\<rparr>,
     ocStagingHandle = 9, ocStagingIdentity = \<lparr>diDev = 1, diIno = 2\<rparr>, ocTarget = ''/p/b'', ocHooks = [''noReplaceDirectoryRename'']\<rparr>"

definition sampleClaim :: outWorld where
  "sampleClaim = snd (claimOwnedOutputDirectory ''/p'' ''b'' [''noReplaceDirectoryRename''] sampleEnv newOutput)"

definition sampleState :: outWorld where
  "sampleState = afterO sampleOut sampleEnv [MWrite ''a'' [7], MPublish, MFinalize [7]] sampleClaim"

lemma sample_claimed: "claimOwnedOutputDirectory ''/p'' ''b'' [''noReplaceDirectoryRename''] sampleEnv newOutput = (Inr sampleOut, sampleClaim)"
  by code_simp

lemma history_after: "history env out s \<Longrightarrow> history env out (afterO out env ms s)"
  by (induction ms arbitrary: s) (auto intro: history.performed)

lemma sample_output_history: "history sampleEnv sampleOut sampleState"
  unfolding sampleState_def by (rule history_after, rule history.claimed[OF _ sample_claimed]) (simp add: noRenames_def newOutput_def)

lemma sample_durable: "owFinalization sampleState = Durable"
  by code_simp

section \<open>Properties\<close>

text \<open>
  C5. READY is renamed into place last: whatever the file system answers, and whichever methods were called
  in whichever order, when a log shows that READY was renamed - even by a call that failed - then before it
  every file of the bundle was written and synced, then the staging directory was synced, renamed to its
  target without replacing anything and the parent directory synced, and READY itself was written and synced.
\<close>

theorem ready_renamed_last:
  assumes "history env out s" "owLog s = before @ (markerRename out h pending, ok) # rest"
  shows "publishedOrder out (owLeaves s) before \<and> (\<exists>bytes. inOrder [(WriteFile h bytes, True), (Sync h, True)] before)"
  using history_invariant[OF assms(1)] assms(2) unfolding outputInv_def markersOrdered_def by blast

lemma sample_log:
  "owLog sampleState = take 95 (owLog sampleState) @ (markerRename sampleOut 78 ''.READY.pending-x'', True) # drop (Suc 95) (owLog sampleState)"
proof -
  have "95 < length (owLog sampleState) \<and> owLog sampleState ! 95 = (markerRename sampleOut 78 ''.READY.pending-x'', True)" by code_simp
  then show ?thesis using id_take_nth_drop[of 95 "owLog sampleState"] by simp
qed

lemma ready_renamed_last_witness:
  "publishedOrder sampleOut (owLeaves sampleState) (take 95 (owLog sampleState))"
  using ready_renamed_last[OF sample_output_history sample_log] by simp

text \<open>
  C6. Bytes are handed out only from a committed output: when \<open>readCommitted\<close> returns, READY has been
  finalized as durable, all files were published in order, the marker was renamed and its directory synced,
  and the bytes are those written and synced for this name, which the file system returned once more
  from the held handle between two checks of the file's identity.
\<close>

theorem readCommitted_only_durable:
  assumes "history env out s" "readCommitted name env s = (Inr bytes, t)"
  shows "owFinalization s = Durable \<and> committedOrder out s \<and>
    (\<exists>leaf. (name, leaf) \<in> set (owLeaves s) \<and> hlBytes leaf = bytes \<and> leafDurable leaf (owLog s) \<and>
       anBytes (oeAnswer env (Suc (owClock s))) = bytes \<and>
       owLog t = owLog s @ [(Stat (hlHandle leaf), True), (ReadAt (hlHandle leaf) (fiSize (hlIdentity leaf)), True), (Stat (hlHandle leaf), True)])"
  using assms by (rule readCommitted_sound)

lemma sample_read: "readCommitted ''a'' sampleEnv sampleState = (Inr [7], snd (readCommitted ''a'' sampleEnv sampleState))"
proof -
  have "fst (readCommitted ''a'' sampleEnv sampleState) = Inr [7]" by code_simp
  then show ?thesis by (metis prod.collapse)
qed

lemma readCommitted_only_durable_witness: "owFinalization sampleState = Durable \<and> committedOrder sampleOut sampleState"
  using readCommitted_only_durable[OF sample_output_history sample_read] by simp

text \<open>
  C7. A committed output never changes: once READY is durable, no further methods - writing, publishing
  or finalizing again, reading, checking, closing, in any order and however they end - change the files, the
  published identity or the finalization, and the only calls they make are calls that change nothing on the
  disk: reading metadata, listings and contents and closing handles, beside the injected function
  \<open>beforeFinalIdentityCheck\<close>. Nothing is written, renamed, created or given other permissions again, so closing
  never moves a committed bundle away.
\<close>

theorem committed_output_frozen:
  assumes "history env out s" "owFinalization s = Durable"
  shows "owFinalization (afterO out env ms s) = Durable \<and> owPublished (afterO out env ms s) = owPublished s \<and>
    owLeaves (afterO out env ms s) = owLeaves s \<and> owTargetIdentity (afterO out env ms s) = owTargetIdentity s \<and>
    (\<exists>calls. owLog (afterO out env ms s) = owLog s @ calls \<and> list_all (\<lambda>(c, ok). \<not> isNativeRename c \<and> isObserving c) calls)"
proof -
  obtain calls where c: "owLog (afterO out env ms s) = owLog s @ calls" "list_all (\<lambda>(c, ok). isObserving c) calls"
    using observed_after[OF assms, of ms] unfolding observed_def by blast
  have "isObserving c \<Longrightarrow> \<not> isNativeRename c" for c by (cases c) simp_all
  with c(2) have "list_all (\<lambda>(c, ok). \<not> isNativeRename c \<and> isObserving c) calls" by (auto simp: list_all_iff)
  with c(1) show ?thesis using committed_after[OF assms, of ms] assms(2) by (simp add: quietly_def)
qed

lemma committed_output_frozen_witness:
  "owLeaves (afterO sampleOut sampleEnv [MWrite ''a'' [], MFinalize [], MClose] sampleState) = owLeaves sampleState"
  using committed_output_frozen[OF sample_output_history sample_durable, of "[MWrite ''a'' [], MFinalize [], MClose]"] by blast

end
