(* ===== verification/BoundedJson.thy ===== *)
theory BoundedJson
  imports PlanPorts
begin

text \<open>
  The JSON parser of the deployment planner
  (\<open>tooling/deployment-plan/src/adapters/bounded-json.ts\<close>): a recursive descent parser with
  limits on bytes, depth, members, items and strings, without duplicate members, fractions, exponents
  and negative zero. It works on the code units of the source, all of 0 to 65535. A method that reads from
  \<open>this.index\<close> takes the rest of the source and returns what is left. The order of members is that of the
  source; that the language lists members with an array index for a name first is not modelled, and no
  reader depends on it.
\<close>

section \<open>Texts and values\<close>

text \<open>A string of the language: its UTF-16 code units.\<close>

type_synonym jstext = "nat list"

definition units :: "string \<Rightarrow> jstext" where
  "units s = map of_char s"

definition chars :: "jstext \<Rightarrow> string" where
  "chars t = map char_of t"

text \<open>What the parser returns.\<close>

datatype jsonValue =
    WNull
  | WBool bool
  | WNum int
  | WText jstext
  | WArray "jsonValue list"
  | WObject "(jstext \<times> jsonValue) list"

abbreviation quoteUnit :: nat where "quoteUnit \<equiv> 34"
abbreviation backslashUnit :: nat where "backslashUnit \<equiv> 92"
abbreviation openBrace :: nat where "openBrace \<equiv> 123"
abbreviation closeBrace :: nat where "closeBrace \<equiv> 125"
abbreviation openBracket :: nat where "openBracket \<equiv> 91"
abbreviation closeBracket :: nat where "closeBracket \<equiv> 93"
abbreviation commaUnit :: nat where "commaUnit \<equiv> 44"
abbreviation colonUnit :: nat where "colonUnit \<equiv> 58"
abbreviation minusUnit :: nat where "minusUnit \<equiv> 45"
abbreviation zeroUnit :: nat where "zeroUnit \<equiv> 48"
abbreviation letterU :: nat where "letterU \<equiv> 117"

definition isHighSurrogate :: "nat \<Rightarrow> bool" where
  "isHighSurrogate u \<longleftrightarrow> 55296 \<le> u \<and> u \<le> 56319"

definition isLowSurrogate :: "nat \<Rightarrow> bool" where
  "isLowSurrogate u \<longleftrightarrow> 56320 \<le> u \<and> u \<le> 57343"

text \<open>\<open>Buffer.byteLength\<close>: a lone surrogate is encoded as U+FFFD, in three bytes.\<close>

fun byteLength :: "jstext \<Rightarrow> nat" where
  "byteLength [] = 0"
| "byteLength [u] = (if u < 128 then 1 else if u < 2048 then 2 else 3)"
| "byteLength (u # v # t) =
     (if isHighSurrogate u \<and> isLowSurrogate v then 4 + byteLength t
      else (if u < 128 then 1 else if u < 2048 then 2 else 3) + byteLength (v # t))"

section \<open>Limits\<close>

record jsonLimits =
  jlBytes :: nat
  jlDepth :: nat
  jlMembers :: nat
  jlArrayItems :: nat
  jlStringBytes :: nat

definition POLICY_JSON_LIMITS :: jsonLimits where
  "POLICY_JSON_LIMITS = \<lparr>jlBytes = 64 * 1024, jlDepth = 32, jlMembers = 256, jlArrayItems = 1024, jlStringBytes = 16 * 1024\<rparr>"

definition PRODUCTION_OBSERVATION_JSON_LIMITS :: jsonLimits where
  "PRODUCTION_OBSERVATION_JSON_LIMITS = \<lparr>jlBytes = 2 * 1024 * 1024, jlDepth = 32, jlMembers = 256, jlArrayItems = 1024,
     jlStringBytes = 512 * 1024\<rparr>"

definition FORGE_BUILD_INFO_JSON_LIMITS :: jsonLimits where
  "FORGE_BUILD_INFO_JSON_LIMITS = \<lparr>jlBytes = 2 * 1024 * 1024, jlDepth = 32, jlMembers = 64, jlArrayItems = 64,
     jlStringBytes = 64 * 1024\<rparr>"

definition FORGE_ARTIFACT_JSON_LIMITS :: jsonLimits where
  "FORGE_ARTIFACT_JSON_LIMITS = \<lparr>jlBytes = 512 * 1024, jlDepth = 32, jlMembers = 128, jlArrayItems = 512,
     jlStringBytes = 128 * 1024\<rparr>"

section \<open>Units and literals\<close>

definition jsonInvalid :: js_error where
  "jsonInvalid = PlanErr ''JSON_INVALID''"

definition isJsonWhitespace :: "nat \<Rightarrow> bool" where
  "isJsonWhitespace c \<longleftrightarrow> c \<in> {32, 9, 13, 10}"

definition space :: "jstext \<Rightarrow> jstext" where
  "space s = dropWhile isJsonWhitespace s"

definition takeUnit :: "nat \<Rightarrow> jstext \<Rightarrow> jstext option" where
  "takeUnit c s = (case s of [] \<Rightarrow> None | d # t \<Rightarrow> if d = c then Some t else None)"

text \<open>The scan to the closing quote: the body of the literal and the rest.\<close>

fun scanString :: "jstext \<Rightarrow> (jstext \<times> jstext) option" where
  "scanString [] = None"
| "scanString (c # s) =
     (if c = quoteUnit then Some ([], s)
      else if c = backslashUnit then
        (case s of [] \<Rightarrow> None | d # t \<Rightarrow> map_option (\<lambda>(body, r). (c # d # body, r)) (scanString t))
      else if c < 32 then None
      else map_option (\<lambda>(body, r). (c # body, r)) (scanString s))"

definition isDigitUnit :: "nat \<Rightarrow> bool" where
  "isDigitUnit c \<longleftrightarrow> 48 \<le> c \<and> c \<le> 57"

definition isHexUnit :: "nat \<Rightarrow> bool" where
  "isHexUnit c \<longleftrightarrow> isDigitUnit c \<or> (97 \<le> c \<and> c \<le> 102) \<or> (65 \<le> c \<and> c \<le> 70)"

definition hexUnitValue :: "nat \<Rightarrow> nat" where
  "hexUnitValue c = (if isDigitUnit c then c - 48 else if 97 \<le> c then c - 87 else c - 55)"

definition shortEscapes :: "(nat \<times> nat) list" where
  "shortEscapes = [(quoteUnit, quoteUnit), (backslashUnit, backslashUnit), (47, 47), (98, 8), (102, 12), (110, 10), (114, 13), (116, 9)]"

text \<open>\<open>JSON.parse\<close> of a scanned literal, by its body.\<close>

fun readLiteral :: "jstext \<Rightarrow> js_error + jstext" where
  "readLiteral [] = Inr []"
| "readLiteral (c # s) =
     (if c = backslashUnit then
        (case s of
           [] \<Rightarrow> Inl jsonInvalid
         | d # t \<Rightarrow>
             if d = letterU then
               (case t of
                  h1 # h2 # h3 # h4 # r \<Rightarrow>
                    if \<not> list_all isHexUnit [h1, h2, h3, h4] then Inl jsonInvalid
                    else bindE (readLiteral r) (\<lambda>text.
                      Inr ((4096 * hexUnitValue h1 + 256 * hexUnitValue h2 + 16 * hexUnitValue h3 + hexUnitValue h4) # text))
                | _ \<Rightarrow> Inl jsonInvalid)
             else (case map_of shortEscapes d of
                 None \<Rightarrow> Inl jsonInvalid
               | Some e \<Rightarrow> bindE (readLiteral t) (\<lambda>text. Inr (e # text))))
      else if c = quoteUnit \<or> c < 32 then Inl jsonInvalid
      else bindE (readLiteral s) (\<lambda>text. Inr (c # text)))"

text \<open>A string, from behind its opening quote.\<close>

definition stringP :: "jsonLimits \<Rightarrow> jstext \<Rightarrow> js_error + jstext \<times> jstext" where
  "stringP limits s = (case scanString s of
     None \<Rightarrow> Inl jsonInvalid
   | Some (body, r) \<Rightarrow>
       if byteLength (quoteUnit # body @ [quoteUnit]) > jlStringBytes limits + 2 then Inl (PlanErr ''JSON_LIMIT_STRING'')
       else bindE (readLiteral body) (\<lambda>text. Inr (text, r)))"

text \<open>\<open>/^-?(?:0|[1-9][0-9]*)/\<close>: the text that matches and the rest.\<close>

definition matchNumber :: "jstext \<Rightarrow> (jstext \<times> jstext) option" where
  "matchNumber s =
     (let (sign, t) = (case takeUnit minusUnit s of None \<Rightarrow> ([], s) | Some t \<Rightarrow> ([minusUnit], t)) in
      case t of
        [] \<Rightarrow> None
      | c # r \<Rightarrow> if c = zeroUnit then Some (sign @ [zeroUnit], r)
                else if isDigitUnit c then Some (sign @ takeWhile isDigitUnit t, dropWhile isDigitUnit t) else None)"

definition numberP :: "jstext \<Rightarrow> js_error + jsonValue \<times> jstext" where
  "numberP s = (case matchNumber s of
     None \<Rightarrow> Inl jsonInvalid
   | Some (text, r) \<Rightarrow>
       let parsed = (case takeUnit minusUnit text of
           None \<Rightarrow> int (undec (chars text)) | Some digits \<Rightarrow> - int (undec (chars digits))) in
       if text = units ''-0'' \<or> \<not> isSafeInteger (JNum parsed) then Inl jsonInvalid else Inr (WNum parsed, r))"

definition tokens :: "(jstext \<times> jsonValue) list" where
  "tokens = [(units ''true'', WBool True), (units ''false'', WBool False), (units ''null'', WNull)]"

section \<open>The parser\<close>

text \<open>
  \<open>valueP\<close> is \<open>value\<close>; \<open>membersP\<close> and \<open>itemsP\<close> are the loops of \<open>object\<close> and \<open>array\<close>, with what they
  have read. A nested value is deeper, and each round of a loop has one more member or item, so the limits
  end every recursion.
\<close>

function valueP :: "jsonLimits \<Rightarrow> nat \<Rightarrow> jstext \<Rightarrow> js_error + jsonValue \<times> jstext"
  and membersP :: "jsonLimits \<Rightarrow> nat \<Rightarrow> (jstext \<times> jsonValue) list \<Rightarrow> jstext \<Rightarrow> js_error + jsonValue \<times> jstext"
  and itemsP :: "jsonLimits \<Rightarrow> nat \<Rightarrow> jsonValue list \<Rightarrow> jstext \<Rightarrow> js_error + jsonValue \<times> jstext" where
  "valueP limits depth source =
     (let s = space source in
      case takeUnit openBrace s of
        Some t \<Rightarrow>
          if depth \<ge> jlDepth limits then Inl (PlanErr ''JSON_LIMIT_DEPTH'')
          else (case takeUnit closeBrace (space t) of
              Some r \<Rightarrow> Inr (WObject [], r)
            | None \<Rightarrow> membersP limits (Suc depth) [] (space t))
      | None \<Rightarrow> (case takeUnit openBracket s of
        Some t \<Rightarrow>
          if depth \<ge> jlDepth limits then Inl (PlanErr ''JSON_LIMIT_DEPTH'')
          else (case takeUnit closeBracket (space t) of
              Some r \<Rightarrow> Inr (WArray [], r)
            | None \<Rightarrow> itemsP limits (Suc depth) [] (space t))
      | None \<Rightarrow> (case takeUnit quoteUnit s of
        Some t \<Rightarrow> bindE (stringP limits t) (\<lambda>(text, r). Inr (WText text, r))
      | None \<Rightarrow> (case List.find (\<lambda>(token, v). take (length token) s = token) tokens of
        Some (token, v) \<Rightarrow> Inr (v, drop (length token) s)
      | None \<Rightarrow> numberP s))))"
| "membersP limits depth members s =
     (if length members \<ge> jlMembers limits then Inl (PlanErr ''JSON_LIMIT_MEMBERS'')
      else case takeUnit quoteUnit (space s) of
        None \<Rightarrow> Inl jsonInvalid
      | Some t \<Rightarrow>
          bindE (stringP limits t) (\<lambda>(key, r).
          if key \<in> set (map fst members) then Inl (PlanErr ''JSON_DUPLICATE_KEY'')
          else case takeUnit colonUnit (space r) of
            None \<Rightarrow> Inl jsonInvalid
          | Some r' \<Rightarrow>
              bindE (valueP limits depth r') (\<lambda>(v, rest).
              case takeUnit closeBrace (space rest) of
                Some end_ \<Rightarrow> Inr (WObject (members @ [(key, v)]), end_)
              | None \<Rightarrow>
                  (case takeUnit commaUnit (space rest) of
                     None \<Rightarrow> Inl jsonInvalid
                   | Some next_ \<Rightarrow> membersP limits depth (members @ [(key, v)]) next_))))"
| "itemsP limits depth items s =
     (if length items \<ge> jlArrayItems limits then Inl (PlanErr ''JSON_LIMIT_ARRAY'')
      else
        bindE (valueP limits depth s) (\<lambda>(v, rest).
        case takeUnit closeBracket (space rest) of
          Some end_ \<Rightarrow> Inr (WArray (items @ [v]), end_)
        | None \<Rightarrow>
            (case takeUnit commaUnit (space rest) of
               None \<Rightarrow> Inl jsonInvalid
             | Some next_ \<Rightarrow> itemsP limits depth (items @ [v]) next_)))"
  by pat_completeness auto
termination
  by (relation "measures [
      \<lambda>x. case x of Inl (limits, depth, s) \<Rightarrow> jlDepth limits - depth
        | Inr (Inl (limits, depth, members, s)) \<Rightarrow> jlDepth limits - depth
        | Inr (Inr (limits, depth, items, s)) \<Rightarrow> jlDepth limits - depth,
      \<lambda>x. case x of Inl _ \<Rightarrow> 0
        | Inr (Inl (limits, depth, members, s)) \<Rightarrow> Suc (jlMembers limits - length members)
        | Inr (Inr (limits, depth, items, s)) \<Rightarrow> Suc (jlArrayItems limits - length items)]") auto

declare valueP.simps [simp del] membersP.simps [simp del] itemsP.simps [simp del]

text \<open>\<open>new BoundedJsonParser(source, limits).parse()\<close>\<close>

definition parseSource :: "jsonLimits \<Rightarrow> jstext \<Rightarrow> js_error + jsonValue" where
  "parseSource limits source =
     bindE (valueP limits 0 source) (\<lambda>(v, rest). if space rest \<noteq> [] then Inl jsonInvalid else Inr v)"

section \<open>Decoding\<close>

definition isTrail :: "nat \<Rightarrow> bool" where
  "isTrail b \<longleftrightarrow> 128 \<le> b \<and> b \<le> 191"

text \<open>
  The first trail byte after a lead byte of three or four: no overlong encoding, no surrogate and nothing
  above U+10FFFF.
\<close>

definition isSecond :: "nat \<Rightarrow> nat \<Rightarrow> bool" where
  "isSecond b c \<longleftrightarrow> isTrail c \<and> (b = 224 \<longrightarrow> 160 \<le> c) \<and> (b = 237 \<longrightarrow> c \<le> 159) \<and> (b = 240 \<longrightarrow> 144 \<le> c) \<and> (b = 244 \<longrightarrow> c \<le> 143)"

text \<open>\<open>new TextDecoder("utf-8", { fatal: true }).decode(bytes)\<close>, which drops a byte order mark.\<close>

fun utf8Decode :: "nat list \<Rightarrow> js_error + jstext" where
  "utf8Decode [] = Inr []"
| "utf8Decode (b # bs) =
     (if b < 128 then bindE (utf8Decode bs) (\<lambda>s. Inr (b # s))
      else if 194 \<le> b \<and> b \<le> 223 then
        (case bs of
           c # cs \<Rightarrow> if isTrail c then bindE (utf8Decode cs) (\<lambda>s. Inr ((64 * (b - 192) + (c - 128)) # s)) else Inl jsonInvalid
         | _ \<Rightarrow> Inl jsonInvalid)
      else if 224 \<le> b \<and> b \<le> 239 then
        (case bs of
           c # d # ds \<Rightarrow>
             if isSecond b c \<and> isTrail d
             then bindE (utf8Decode ds) (\<lambda>s. Inr ((4096 * (b - 224) + 64 * (c - 128) + (d - 128)) # s)) else Inl jsonInvalid
         | _ \<Rightarrow> Inl jsonInvalid)
      else if 240 \<le> b \<and> b \<le> 244 then
        (case bs of
           c # d # e # es \<Rightarrow>
             if isSecond b c \<and> isTrail d \<and> isTrail e
             then bindE (utf8Decode es) (\<lambda>s.
               let n = 262144 * (b - 240) + 4096 * (c - 128) + 64 * (d - 128) + (e - 128) - 65536 in
               Inr ((55296 + n div 1024) # (56320 + n mod 1024) # s))
             else Inl jsonInvalid
         | _ \<Rightarrow> Inl jsonInvalid)
      else Inl jsonInvalid)"

definition dropMark :: "nat list \<Rightarrow> nat list" where
  "dropMark bytes = (if take 3 bytes = [239, 187, 191] then drop 3 bytes else bytes)"

definition decodeSource :: "nat list \<Rightarrow> js_error + jstext" where
  "decodeSource bytes = utf8Decode (dropMark bytes)"

definition parseBoundedJson :: "nat list \<Rightarrow> jsonLimits \<Rightarrow> js_error + jsonValue" where
  "parseBoundedJson bytes limits =
     bindE (failIf (length bytes > jlBytes limits) (PlanErr ''JSON_LIMIT_BYTES'')) (\<lambda>_.
     bindE (decodeSource bytes) (parseSource limits))"

section \<open>Values with the strings of the model\<close>

text \<open>
  The records and values of the other components have strings of code units below 256. A value that the
  parser returns is handed to them as such when it has no other unit; a value with a unit of 256 or above is
  outside their model, and the readers of the model refuse it where the code would go on.
\<close>

definition outsideModel :: js_error where
  "outsideModel = Err ''code unit outside the model''"

definition narrowText :: "jstext \<Rightarrow> string option" where
  "narrowText t = (if list_all (\<lambda>u. u < 256) t then Some (chars t) else None)"

definition allSome :: "'a option list \<Rightarrow> 'a list option" where
  "allSome xs = (if None \<in> set xs then None else Some (map the xs))"

fun narrow :: "jsonValue \<Rightarrow> jsval option" where
  "narrow WNull = Some JNull"
| "narrow (WBool b) = Some (JBool b)"
| "narrow (WNum n) = Some (JNum n)"
| "narrow (WText t) = map_option JStr (narrowText t)"
| "narrow (WArray vs) = map_option (JArr Plain) (allSome (map narrow vs))"
| "narrow (WObject ms) = map_option (JObj Plain) (allSome (map (\<lambda>(k, v).
     case (narrowText k, narrow v) of (Some s, Some x) \<Rightarrow> Some (s, x) | _ \<Rightarrow> None) ms))"

definition parseNarrowJson :: "nat list \<Rightarrow> jsonLimits \<Rightarrow> js_error + jsval" where
  "parseNarrowJson bytes limits =
     bindE (parseBoundedJson bytes limits) (\<lambda>v. case narrow v of None \<Rightarrow> Inl outsideModel | Some x \<Rightarrow> Inr x)"

end
