(* ===== verification/StrictJson.thy ===== *)
theory StrictJson
  imports BoundedJson PlanVerifier
begin

text \<open>
  The readers of the deployment planner's documents
  (\<open>tooling/deployment-plan/src/adapters/strict-json.ts\<close>): trust roots, plan, quote, READY marker and
  native evidence, each a JSON text with exactly the declared members in the declared form. A reader
  returns the record that its callers read from the object. The records have strings of code units below 256;
  a document with any other unit in a string, which the parser of \<open>BoundedJson\<close> accepts as the code does, is refused
  by the readers here (\<open>parseNarrowJson\<close>, with \<open>outsideModel\<close>) where the code may accept it.
\<close>

section \<open>Checks of members\<close>

definition exactMembers :: "jsrecord \<Rightarrow> string list \<Rightarrow> string \<Rightarrow> js_error + unit" where
  "exactMembers r expected failure = failIf (sortText (map fst r) \<noteq> sortText expected) (PlanErr failure)"

definition requireV2 :: "jsrecord \<Rightarrow> js_error + unit" where
  "requireV2 r = failIf (getP r ''schemaVersion'' = JNum 1) (PlanErr ''V1_UNSUPPORTED'')"

definition constantMembers :: "jsrecord \<Rightarrow> jsrecord \<Rightarrow> string \<Rightarrow> js_error + unit" where
  "constantMembers r expected failure = eachE (\<lambda>(key, wanted). failIf (getP r key \<noteq> wanted) (PlanErr failure)) expected"

definition nonEmptyText :: "jsval \<Rightarrow> bool" where
  "nonEmptyText v = (case v of JStr s \<Rightarrow> s \<noteq> [] | _ \<Rightarrow> False)"

definition textMembers :: "jsrecord \<Rightarrow> string list \<Rightarrow> js_error + unit" where
  "textMembers r keys = eachE (\<lambda>key. failIf (\<not> nonEmptyText (getP r key)) (PlanErr ''SCHEMA_INVALID'')) keys"

definition matchMember :: "jsval \<Rightarrow> (string \<Rightarrow> bool) \<Rightarrow> string \<Rightarrow> js_error + unit" where
  "matchMember v pattern failure = failIf (\<not> (case v of JStr s \<Rightarrow> pattern s | _ \<Rightarrow> False)) (PlanErr failure)"

definition hashMembers :: "jsrecord \<Rightarrow> string list \<Rightarrow> js_error + unit" where
  "hashMembers r keys = eachE (\<lambda>key. matchMember (getP r key) (matchesHex 64) ''SCHEMA_INVALID'') keys"

definition decimalMember :: "jsval \<Rightarrow> string \<Rightarrow> js_error + unit" where
  "decimalMember v failure = bindE (matchMember v canonicalDec failure) (\<lambda>_. bindE (parseUint v True) (\<lambda>_. Inr ()))"

definition decimalMembers :: "jsrecord \<Rightarrow> string list \<Rightarrow> js_error + unit" where
  "decimalMembers r keys = eachE (\<lambda>key. decimalMember (getP r key) ''SCHEMA_INVALID'') keys"

definition hashMap :: "jsval \<Rightarrow> string \<Rightarrow> js_error + unit" where
  "hashMap v failure = bindE (objectOr failure v) (\<lambda>r. eachE (\<lambda>(key, digest).
     bindE (failIf (key = []) (PlanErr failure)) (\<lambda>_. matchMember digest (matchesHex 64) failure)) r)"

text \<open>\<open>/^0x(?:[0-9a-f]{2})*$/\<close>\<close>

definition isHexText :: "string \<Rightarrow> bool" where
  "isHexText s \<longleftrightarrow> take 2 s = ''0x'' \<and> even (length s) \<and> list_all isHexLower (drop 2 s)"

section \<open>The parsers of the inputs\<close>

definition parseJsonWithoutDuplicates :: "nat list \<Rightarrow> js_error + jsval" where
  "parseJsonWithoutDuplicates bytes = parseNarrowJson bytes POLICY_JSON_LIMITS"

definition parseProductionJsonWithoutDuplicates :: "nat list \<Rightarrow> js_error + jsval" where
  "parseProductionJsonWithoutDuplicates bytes = parseNarrowJson bytes PRODUCTION_OBSERVATION_JSON_LIMITS"

definition parseRawArtifactJson :: jsonParser where
  "parseRawArtifactJson bytes input =
     (if input = ''build-info'' then parseNarrowJson bytes FORGE_BUILD_INFO_JSON_LIMITS
      else if input = ''artifact'' \<or> input = ''abi'' then parseNarrowJson bytes FORGE_ARTIFACT_JSON_LIMITS
      else parseNarrowJson bytes POLICY_JSON_LIMITS)"

text \<open>What a caller reads from a checked member.\<close>

definition textOf :: "jsrecord \<Rightarrow> string \<Rightarrow> string" where
  "textOf r key = (case getP r key of JStr s \<Rightarrow> s | _ \<Rightarrow> [])"

definition objectOf :: "jsrecord \<Rightarrow> string \<Rightarrow> jsrecord" where
  "objectOf r key = (case asRecord (getP r key) of Some s \<Rightarrow> s | None \<Rightarrow> [])"

section \<open>Trust roots\<close>

definition ROOT_KEYS :: "string list" where
  "ROOT_KEYS = [''schemaVersion'', ''testOnly'', ''productionApproved'', ''mainnetAllowed'',
     ''chainId'', ''contractFqn'', ''buildProfile'', ''from'', ''maximumWorstCaseWei'',
     ''gasBufferBps'', ''quoteTtlSeconds'', ''maximumHeadLag'', ''buildInfoSolcVersion'',
     ''canonicalBuildInfoSha256'', ''compilerInputSha256'',
     ''compilerSettings'', ''artifactSha256'', ''abiSha256'', ''fixtureSha256'',
     ''fixtureReadySha256'', ''constructorArgumentsHash'', ''creationInputHash'',
     ''sourceDependencyClosure'']"

definition trustRootsOf :: "jsrecord \<Rightarrow> trustRoots" where
  "trustRootsOf r = \<lparr>trSchemaVersion = 2, trTestOnly = True, trProductionApproved = False, trMainnetAllowed = False,
     trChainId = textOf r ''chainId'', trContractFqn = textOf r ''contractFqn'', trBuildProfile = textOf r ''buildProfile'',
     trFrom = textOf r ''from'', trMaximumWorstCaseWei = textOf r ''maximumWorstCaseWei'',
     trGasBufferBps = textOf r ''gasBufferBps'', trQuoteTtlSeconds = textOf r ''quoteTtlSeconds'',
     trMaximumHeadLag = textOf r ''maximumHeadLag'', trBuildInfoSolcVersion = textOf r ''buildInfoSolcVersion'',
     trCanonicalBuildInfoSha256 = textOf r ''canonicalBuildInfoSha256'', trCompilerInputSha256 = textOf r ''compilerInputSha256'',
     trCompilerSettings = objectOf r ''compilerSettings'', trArtifactSha256 = textOf r ''artifactSha256'',
     trAbiSha256 = textOf r ''abiSha256'', trFixtureSha256 = textOf r ''fixtureSha256'',
     trFixtureReadySha256 = textOf r ''fixtureReadySha256'', trConstructorArgumentsHash = textOf r ''constructorArgumentsHash'',
     trCreationInputHash = textOf r ''creationInputHash'', trSourceDependencyClosure = objectOf r ''sourceDependencyClosure''\<rparr>"

definition readTrustRoots :: "jsval \<Rightarrow> js_error + trustRoots" where
  "readTrustRoots v =
    (let failure = ''TRUST_ROOTS_SCHEMA'' in
    bindE (objectOr failure v) (\<lambda>root.
    bindE (requireV2 root) (\<lambda>_.
    bindE (exactMembers root ROOT_KEYS failure) (\<lambda>_.
    bindE (constantMembers root [(''schemaVersion'', JNum 2), (''testOnly'', JBool True), (''productionApproved'', JBool False),
        (''mainnetAllowed'', JBool False), (''chainId'', JStr ''31337'')] failure) (\<lambda>_.
    bindE (textMembers root [''contractFqn'', ''buildProfile'', ''buildInfoSolcVersion'']) (\<lambda>_.
    bindE (matchMember (getP root ''from'') (matchesHex 40) failure) (\<lambda>_.
    bindE (decimalMembers root [''maximumWorstCaseWei'', ''gasBufferBps'', ''quoteTtlSeconds'', ''maximumHeadLag'']) (\<lambda>_.
    bindE (hashMembers root [''canonicalBuildInfoSha256'', ''compilerInputSha256'', ''artifactSha256'', ''abiSha256'',
        ''fixtureSha256'', ''fixtureReadySha256'', ''constructorArgumentsHash'', ''creationInputHash'']) (\<lambda>_.
    bindE (objectOr failure (getP root ''compilerSettings'')) (\<lambda>_.
    bindE (hashMap (getP root ''sourceDependencyClosure'') failure) (\<lambda>_.
    Inr (trustRootsOf root))))))))))))"

definition parseTrustRoots :: "nat list \<Rightarrow> js_error + trustRoots" where
  "parseTrustRoots bytes = bindE (parseJsonWithoutDuplicates bytes) readTrustRoots"

section \<open>Plans\<close>

definition PLAN_KEYS :: "string list" where
  "PLAN_KEYS = [''schemaVersion'', ''kind'', ''planId'', ''identity'', ''broadcastAllowed'',
     ''testOnly'', ''productionApproved'', ''mainnetAllowed'']"

definition IDENTITY_KEYS :: "string list" where
  "IDENTITY_KEYS = [''contractFqn'', ''buildProfile'', ''sourceDependencyClosure'', ''rawBuildInfoSha256'',
     ''canonicalBuildInfoSha256'', ''compilerInputSha256'',
     ''artifactSha256'', ''abiSha256'', ''fixtureSha256'', ''fixtureReadySha256'',
     ''buildInfoSolcVersion'', ''compilerSettings'', ''creationBytecodeHash'',
     ''constructorAbiBytes'', ''constructorAbiHash'', ''constructorArguments'',
     ''constructorArgumentsHash'', ''creationInput'', ''creationInputHash'', ''chainId'', ''from'',
     ''value'', ''capPolicy'', ''broadcastAllowed'']"

definition readCapPolicy :: "jsval \<Rightarrow> js_error + unit" where
  "readCapPolicy v =
    (let failure = ''PLAN_CAP_SCHEMA'' in
    bindE (objectOr failure v) (\<lambda>cap.
    bindE (exactMembers cap [''maximumWorstCaseWei'', ''testOnly''] failure) (\<lambda>_.
    bindE (decimalMember (getP cap ''maximumWorstCaseWei'') failure) (\<lambda>_.
    failIf (getP cap ''testOnly'' \<noteq> JBool True) (PlanErr failure)))))"

definition readPlanIdentity :: "jsval \<Rightarrow> js_error + jsrecord" where
  "readPlanIdentity v =
    (let failure = ''PLAN_IDENTITY_SCHEMA'' in
    bindE (objectOr failure v) (\<lambda>identity.
    bindE (exactMembers identity IDENTITY_KEYS failure) (\<lambda>_.
    bindE (textMembers identity [''contractFqn'', ''buildProfile'', ''buildInfoSolcVersion'', ''chainId'', ''value'']) (\<lambda>_.
    bindE (hashMembers identity [''rawBuildInfoSha256'', ''canonicalBuildInfoSha256'', ''compilerInputSha256'', ''artifactSha256'',
        ''abiSha256'', ''fixtureSha256'', ''fixtureReadySha256'', ''creationBytecodeHash'', ''constructorAbiHash'',
        ''constructorArgumentsHash'', ''creationInputHash'']) (\<lambda>_.
    bindE (matchMember (getP identity ''constructorAbiBytes'') isHexText failure) (\<lambda>_.
    bindE (matchMember (getP identity ''constructorArguments'') isHexText failure) (\<lambda>_.
    bindE (matchMember (getP identity ''creationInput'') isHexText failure) (\<lambda>_.
    bindE (matchMember (getP identity ''from'') (matchesHex 40) failure) (\<lambda>_.
    bindE (failIf (getP identity ''broadcastAllowed'' \<noteq> JBool False) (PlanErr failure)) (\<lambda>_.
    bindE (objectOr failure (getP identity ''compilerSettings'')) (\<lambda>_.
    bindE (hashMap (getP identity ''sourceDependencyClosure'') failure) (\<lambda>_.
    bindE (readCapPolicy (getP identity ''capPolicy'')) (\<lambda>_.
    Inr identity)))))))))))))"

definition readStablePlan :: "jsval \<Rightarrow> js_error + stablePlan" where
  "readStablePlan v =
    (let failure = ''PLAN_SCHEMA'' in
    bindE (objectOr failure v) (\<lambda>plan.
    bindE (requireV2 plan) (\<lambda>_.
    bindE (exactMembers plan PLAN_KEYS failure) (\<lambda>_.
    bindE (constantMembers plan [(''schemaVersion'', JNum 2), (''kind'', JStr ''deployment-plan''), (''broadcastAllowed'', JBool False),
        (''testOnly'', JBool True), (''productionApproved'', JBool False), (''mainnetAllowed'', JBool False)] failure) (\<lambda>_.
    bindE (matchMember (getP plan ''planId'') (matchesHex 64) failure) (\<lambda>_.
    bindE (readPlanIdentity (getP plan ''identity'')) (\<lambda>identity.
    Inr \<lparr>spSchemaVersion = 2, spKind = ''deployment-plan'', spPlanId = textOf plan ''planId'', spIdentity = identity,
      spBroadcastAllowed = False, spTestOnly = True, spProductionApproved = False, spMainnetAllowed = False\<rparr>)))))))"

definition parseStablePlan :: "nat list \<Rightarrow> js_error + stablePlan" where
  "parseStablePlan bytes = bindE (parseJsonWithoutDuplicates bytes) readStablePlan"

section \<open>Quotes\<close>

definition QUOTE_KEYS :: "string list" where
  "QUOTE_KEYS = [''schemaVersion'', ''kind'', ''planId'', ''creationInputHash'', ''observation'',
     ''bufferBps'', ''gasLimit'', ''effectiveFeePerGas'', ''estimatedWei'', ''worstCaseWei'',
     ''expiresAt'']"

definition OBSERVATION_KEYS :: "string list" where
  "OBSERVATION_KEYS = [''chainId'', ''blockNumber'', ''blockHash'', ''blockTimestamp'', ''currentHeadNumber'',
     ''currentHeadHash'', ''feeHistoryNewestBlock'', ''senderNonce'', ''expectedCreateAddress'', ''gasEstimate'', ''blockGasLimit'',
     ''baseFeePerGas'', ''maxPriorityFeePerGas'', ''maxFeePerGas'', ''observedAt'']"

definition observationOf :: "jsrecord \<Rightarrow> quoteObservation" where
  "observationOf r = \<lparr>qoChainId = textOf r ''chainId'', qoBlockNumber = textOf r ''blockNumber'', qoBlockHash = textOf r ''blockHash'',
     qoBlockTimestamp = textOf r ''blockTimestamp'', qoCurrentHeadNumber = textOf r ''currentHeadNumber'',
     qoCurrentHeadHash = textOf r ''currentHeadHash'', qoFeeHistoryNewestBlock = textOf r ''feeHistoryNewestBlock'',
     qoSenderNonce = textOf r ''senderNonce'', qoExpectedCreateAddress = textOf r ''expectedCreateAddress'',
     qoGasEstimate = textOf r ''gasEstimate'', qoBlockGasLimit = textOf r ''blockGasLimit'',
     qoBaseFeePerGas = textOf r ''baseFeePerGas'', qoMaxPriorityFeePerGas = textOf r ''maxPriorityFeePerGas'',
     qoMaxFeePerGas = textOf r ''maxFeePerGas'', qoObservedAt = textOf r ''observedAt''\<rparr>"

definition readObservation :: "jsval \<Rightarrow> js_error + quoteObservation" where
  "readObservation v =
    (let failure = ''QUOTE_OBSERVATION_SCHEMA'' in
    bindE (objectOr failure v) (\<lambda>observation.
    bindE (exactMembers observation OBSERVATION_KEYS failure) (\<lambda>_.
    bindE (decimalMembers observation [''chainId'', ''blockNumber'', ''blockTimestamp'', ''currentHeadNumber'', ''feeHistoryNewestBlock'',
        ''senderNonce'', ''gasEstimate'', ''blockGasLimit'', ''baseFeePerGas'', ''maxPriorityFeePerGas'', ''maxFeePerGas'', ''observedAt'']) (\<lambda>_.
    bindE (hashMembers observation [''blockHash'', ''currentHeadHash'']) (\<lambda>_.
    bindE (matchMember (getP observation ''expectedCreateAddress'') (matchesHex 40) failure) (\<lambda>_.
    Inr (observationOf observation)))))))"

definition readFeeQuote :: "jsval \<Rightarrow> js_error + feeQuote" where
  "readFeeQuote v =
    (let failure = ''QUOTE_SCHEMA'' in
    bindE (objectOr failure v) (\<lambda>quote.
    bindE (requireV2 quote) (\<lambda>_.
    bindE (exactMembers quote QUOTE_KEYS failure) (\<lambda>_.
    bindE (constantMembers quote [(''schemaVersion'', JNum 2), (''kind'', JStr ''fee-quote'')] failure) (\<lambda>_.
    bindE (hashMembers quote [''planId'', ''creationInputHash'']) (\<lambda>_.
    bindE (decimalMembers quote [''bufferBps'', ''gasLimit'', ''effectiveFeePerGas'', ''estimatedWei'', ''worstCaseWei'', ''expiresAt'']) (\<lambda>_.
    bindE (readObservation (getP quote ''observation'')) (\<lambda>observation.
    Inr \<lparr>fqPlanId = textOf quote ''planId'', fqCreationInputHash = textOf quote ''creationInputHash'', fqObservation = observation,
      fqBufferBps = textOf quote ''bufferBps'', fqGasLimit = textOf quote ''gasLimit'',
      fqEffectiveFeePerGas = textOf quote ''effectiveFeePerGas'', fqEstimatedWei = textOf quote ''estimatedWei'',
      fqWorstCaseWei = textOf quote ''worstCaseWei'', fqExpiresAt = textOf quote ''expiresAt''\<rparr>))))))))"

definition parseFeeQuote :: "nat list \<Rightarrow> js_error + feeQuote" where
  "parseFeeQuote bytes = bindE (parseJsonWithoutDuplicates bytes) readFeeQuote"

section \<open>READY markers and native evidence\<close>

definition READY_KEYS :: "string list" where
  "READY_KEYS = [''schemaVersion'', ''planSha256'', ''quoteSha256'', ''nativeNoReplaceEvidenceSha256'', ''planId'', ''creationInputHash'']"

definition readReadyMarker :: "jsval \<Rightarrow> js_error + readyMarker" where
  "readReadyMarker v =
    bindE (objectOr ''READY_SCHEMA'' v) (\<lambda>ready.
    bindE (failIf (getP ready ''schemaVersion'' \<noteq> JNum 3) (PlanErr ''READY_LEGACY_UNSUPPORTED'')) (\<lambda>_.
    bindE (exactMembers ready READY_KEYS ''READY_SCHEMA'') (\<lambda>_.
    bindE (hashMembers ready [''planSha256'', ''quoteSha256'', ''nativeNoReplaceEvidenceSha256'', ''planId'', ''creationInputHash'']) (\<lambda>_.
    Inr \<lparr>rmPlanSha256 = textOf ready ''planSha256'', rmQuoteSha256 = textOf ready ''quoteSha256'',
      rmNativeEvidenceSha256 = textOf ready ''nativeNoReplaceEvidenceSha256'', rmPlanId = textOf ready ''planId'',
      rmCreationInputHash = textOf ready ''creationInputHash''\<rparr>))))"

definition parseReadyMarker :: "nat list \<Rightarrow> js_error + readyMarker" where
  "parseReadyMarker bytes = bindE (parseJsonWithoutDuplicates bytes) readReadyMarker"

definition NATIVE_EVIDENCE_KEYS :: "string list" where
  "NATIVE_EVIDENCE_KEYS = [''schemaVersion'', ''kind'', ''platform'', ''sourcePath'', ''sourceSha256'',
     ''compileProfile'', ''compilerExecution'', ''compilerPath'', ''compilerSha256'',
     ''executableSha256'', ''approvalSha256'']"

definition readNativeEvidence :: "jsval \<Rightarrow> js_error + nativeEvidence" where
  "readNativeEvidence v =
    (let failure = ''NATIVE_EVIDENCE_SCHEMA'' in
    bindE (objectOr failure v) (\<lambda>evidence.
    bindE (exactMembers evidence NATIVE_EVIDENCE_KEYS failure) (\<lambda>_.
    bindE (constantMembers evidence [(''schemaVersion'', JNum 1), (''kind'', JStr ''native-no-replace-evidence'')] failure) (\<lambda>_.
    bindE (failIf (getP evidence ''platform'' \<noteq> JStr ''darwin-arm64'' \<and> getP evidence ''platform'' \<noteq> JStr ''linux-x64'') (PlanErr failure)) (\<lambda>_.
    bindE (failIf (getP evidence ''sourcePath'' \<noteq> JStr ''tooling/deployment-plan/native/no-replace.c''
        \<or> getP evidence ''compileProfile'' \<noteq> JStr ''c11-o2-werror-stdin-v1'') (PlanErr failure)) (\<lambda>_.
    bindE (failIf (getP evidence ''compilerExecution'' \<noteq> JStr ''snapshot-fd''
        \<and> getP evidence ''compilerExecution'' \<noteq> JStr ''verified-path'') (PlanErr failure)) (\<lambda>_.
    let compilerPath = (if getP evidence ''platform'' = JStr ''darwin-arm64'' then ''/usr/bin/cc'' else ''/usr/bin/x86_64-linux-gnu-gcc-13'') in
    bindE (failIf (getP evidence ''compilerPath'' \<noteq> JStr compilerPath) (PlanErr failure)) (\<lambda>_.
    bindE (hashMembers evidence [''sourceSha256'', ''compilerSha256'', ''executableSha256'', ''approvalSha256'']) (\<lambda>_.
    Inr \<lparr>nePlatform = textOf evidence ''platform'', neSourcePath = textOf evidence ''sourcePath'',
      neSourceSha256 = textOf evidence ''sourceSha256'', neCompileProfile = textOf evidence ''compileProfile'',
      neCompilerExecution = textOf evidence ''compilerExecution'', neCompilerPath = textOf evidence ''compilerPath'',
      neCompilerSha256 = textOf evidence ''compilerSha256'', neExecutableSha256 = textOf evidence ''executableSha256'',
      neApprovalSha256 = textOf evidence ''approvalSha256''\<rparr>)))))))))"

definition parseNativeNoReplaceEvidence :: "nat list \<Rightarrow> js_error + nativeEvidence" where
  "parseNativeNoReplaceEvidence bytes = bindE (parseJsonWithoutDuplicates bytes) readNativeEvidence"

end
