(* ===== verification/BoundedJsonProps.thy ===== *)
theory BoundedJsonProps
  imports BoundedJson
begin

text \<open>
  The bounded JSON parser reads exactly one grammar. The grammar is stated without a parser, as
  derivations of a text for a value; the parser finds a derivation when there is one (completeness) and
  nothing else (soundness). Beside it: what an accepted value is, and that the text \<open>JSON.stringify\<close>
  writes is read back.
\<close>

section \<open>The grammar\<close>

definition white :: "jstext \<Rightarrow> bool" where
  "white w \<longleftrightarrow> list_all isJsonWhitespace w"

text \<open>The body of a literal that spells a text.\<close>

inductive spells :: "jstext \<Rightarrow> jstext \<Rightarrow> bool" where
  spells_Nil: "spells [] []"
| spells_plain: "c \<noteq> quoteUnit \<Longrightarrow> c \<noteq> backslashUnit \<Longrightarrow> 32 \<le> c \<Longrightarrow> spells s t \<Longrightarrow> spells (c # s) (c # t)"
| spells_short: "map_of shortEscapes d = Some e \<Longrightarrow> spells s t \<Longrightarrow> spells (backslashUnit # d # s) (e # t)"
| spells_unicode: "list_all isHexUnit [h1, h2, h3, h4] \<Longrightarrow>
    n = 4096 * hexUnitValue h1 + 256 * hexUnitValue h2 + 16 * hexUnitValue h3 + hexUnitValue h4 \<Longrightarrow>
    spells s t \<Longrightarrow> spells (backslashUnit # letterU # h1 # h2 # h3 # h4 # s) (n # t)"

definition jsonString :: "jsonLimits \<Rightarrow> jstext \<Rightarrow> jstext \<Rightarrow> bool" where
  "jsonString limits lit s \<longleftrightarrow> (\<exists>body. lit = quoteUnit # body @ [quoteUnit] \<and> spells body s \<and>
     byteLength lit \<le> jlStringBytes limits + 2)"

text \<open>The texts of a value at a depth, the texts of members and of items between their brackets.\<close>

inductive jsonText :: "jsonLimits \<Rightarrow> nat \<Rightarrow> jstext \<Rightarrow> jsonValue \<Rightarrow> bool"
  and jsonMembers :: "jsonLimits \<Rightarrow> nat \<Rightarrow> jstext \<Rightarrow> (jstext \<times> jsonValue) list \<Rightarrow> bool"
  and jsonItems :: "jsonLimits \<Rightarrow> nat \<Rightarrow> jstext \<Rightarrow> jsonValue list \<Rightarrow> bool"
  for limits :: jsonLimits where
  text_token: "white w \<Longrightarrow> (token, v) \<in> set tokens \<Longrightarrow> jsonText limits d (w @ token) v"
| text_number: "white w \<Longrightarrow> isSafeInteger (JNum n) \<Longrightarrow> jsonText limits d (w @ units (decInt n)) (WNum n)"
| text_string: "white w \<Longrightarrow> jsonString limits lit s \<Longrightarrow> jsonText limits d (w @ lit) (WText s)"
| text_empty_object: "white w \<Longrightarrow> white w' \<Longrightarrow> d < jlDepth limits \<Longrightarrow>
    jsonText limits d (w @ openBrace # w' @ [closeBrace]) (WObject [])"
| text_object: "white w \<Longrightarrow> d < jlDepth limits \<Longrightarrow> jsonMembers limits (Suc d) txt ms \<Longrightarrow>
    distinct (map fst ms) \<Longrightarrow> length ms \<le> jlMembers limits \<Longrightarrow>
    jsonText limits d (w @ openBrace # txt @ [closeBrace]) (WObject ms)"
| text_empty_array: "white w \<Longrightarrow> white w' \<Longrightarrow> d < jlDepth limits \<Longrightarrow>
    jsonText limits d (w @ openBracket # w' @ [closeBracket]) (WArray [])"
| text_array: "white w \<Longrightarrow> d < jlDepth limits \<Longrightarrow> jsonItems limits (Suc d) txt vs \<Longrightarrow>
    length vs \<le> jlArrayItems limits \<Longrightarrow> jsonText limits d (w @ openBracket # txt @ [closeBracket]) (WArray vs)"
| members_last: "white w1 \<Longrightarrow> white w2 \<Longrightarrow> white w3 \<Longrightarrow> jsonString limits lit k \<Longrightarrow> jsonText limits d vt v \<Longrightarrow>
    jsonMembers limits d (w1 @ lit @ w2 @ colonUnit # vt @ w3) [(k, v)]"
| members_more: "white w1 \<Longrightarrow> white w2 \<Longrightarrow> white w3 \<Longrightarrow> jsonString limits lit k \<Longrightarrow> jsonText limits d vt v \<Longrightarrow>
    jsonMembers limits d txt ms \<Longrightarrow>
    jsonMembers limits d (w1 @ lit @ w2 @ colonUnit # vt @ w3 @ commaUnit # txt) ((k, v) # ms)"
| items_last: "white w \<Longrightarrow> jsonText limits d vt v \<Longrightarrow> jsonItems limits d (vt @ w) [v]"
| items_more: "white w \<Longrightarrow> jsonText limits d vt v \<Longrightarrow> jsonItems limits d txt vs \<Longrightarrow>
    jsonItems limits d (vt @ w @ commaUnit # txt) (v # vs)"

section \<open>Characters, literals and numbers\<close>

lemma takeUnit_Some [simp]: "takeUnit c s = Some t \<longleftrightarrow> s = c # t"
  by (cases s) (auto simp: takeUnit_def)

lemma takeUnit_Cons [simp]: "takeUnit c (d # s) = (if d = c then Some s else None)"
  by (simp add: takeUnit_def)

lemma takeUnit_Nil [simp]: "takeUnit c [] = None"
  by (simp add: takeUnit_def)

lemma white_simps [simp]: "white []" "white (c # w) \<longleftrightarrow> isJsonWhitespace c \<and> white w"
  by (simp_all add: white_def)

lemma space_white [simp]: "white w \<Longrightarrow> space (w @ s) = space s"
  by (induction w) (simp_all add: space_def)

lemma space_stop [simp]: "\<not> isJsonWhitespace c \<Longrightarrow> space (c # s) = c # s"
  by (simp add: space_def)

lemma space_Nil [simp]: "space [] = []"
  by (simp add: space_def)

lemma space_idem [simp]: "space (space s) = space s"
  by (induction s) (simp_all add: space_def)

lemma space_Nil_iff: "space s = [] \<longleftrightarrow> white s"
  by (simp add: space_def white_def dropWhile_eq_Nil_conv list_all_iff)

lemma space_split: obtains w where "white w" "s = w @ space s"
  by (rule that[of "takeWhile isJsonWhitespace s"])
    (auto simp: space_def white_def list_all_iff dest: set_takeWhileD)

lemma white_unit [simp]: "isJsonWhitespace (numeral k) \<longleftrightarrow> numeral k \<in> {32, 9, 13, 10::nat}"
  by (simp add: isJsonWhitespace_def)

lemma digit_not_white [simp]: "isDigitUnit c \<Longrightarrow> \<not> isJsonWhitespace c"
  by (auto simp: isJsonWhitespace_def isDigitUnit_def)

lemma units_simps [simp]: "units [] = []" "units (c # s) = of_char c # units s" "units (s @ t) = units s @ units t"
  "length (units s) = length s" "chars [] = []" "chars (u # w) = char_of u # chars w" "chars (units s) = s"
  by (simp_all add: units_def chars_def o_def)

lemma units_inj [simp]: "units s = units t \<longleftrightarrow> s = t" "units s = [] \<longleftrightarrow> s = []"
  by (metis units_simps(7)) (metis units_simps(1,7))

lemma scanString_split: "scanString s = Some (body, r) \<Longrightarrow> s = body @ quoteUnit # r"
proof (induction s arbitrary: body rule: scanString.induct)
  case (2 c s)
  then show ?case by (auto split: if_splits list.splits)
qed simp

lemma shortEscapes_plain: "map_of shortEscapes letterU = None"
  by (simp add: shortEscapes_def)

lemma hex_plain: "isHexUnit h \<Longrightarrow> h \<noteq> quoteUnit \<and> h \<noteq> backslashUnit \<and> \<not> h < 32"
  by (auto simp: isHexUnit_def isDigitUnit_def)

lemma spells_scan: "spells body s \<Longrightarrow> scanString (body @ quoteUnit # r) = Some (body, r)"
  by (induction rule: spells.induct) (auto simp: hex_plain)

lemma spells_read: "spells body s \<Longrightarrow> readLiteral body = Inr s"
  by (induction rule: spells.induct) (auto simp: shortEscapes_plain split: list.splits)

lemma read_spells: "readLiteral body = Inr s \<Longrightarrow> spells body s"
proof (induction body arbitrary: s rule: readLiteral.induct)
  case 1
  then show ?case by (simp add: spells_Nil)
next
  case (2 c body)
  show ?case
  proof (cases "c = backslashUnit")
    case False
    with "2.prems" "2.IH"(3) show ?thesis by (auto simp: bindE_Inr_iff split: if_splits intro: spells_plain)
  next
    case True
    with "2.prems" obtain d t where body: "body = d # t" by (cases body) auto
    show ?thesis
    proof (cases "d = letterU")
      case False
      with "2.prems" "2.IH"(2) True body show ?thesis
        by (auto simp: bindE_Inr_iff split: option.splits intro: spells_short)
    next
      case u: True
      from "2.prems" True body u obtain h1 h2 h3 h4 r where t: "t = h1 # h2 # h3 # h4 # r"
        by (auto split: list.splits)
      with "2.prems" "2.IH"(1) True body u show ?thesis
        by (auto simp: Let_def bindE_Inr_iff split: if_splits intro!: spells_unicode)
    qed
  qed
qed

lemma stringP_Inr: "stringP limits s = Inr (t, r) \<longleftrightarrow> (\<exists>lit. quoteUnit # s = lit @ r \<and> jsonString limits lit t)"
proof
  assume "stringP limits s = Inr (t, r)"
  then obtain body where "scanString s = Some (body, r)" "readLiteral body = Inr t"
      "byteLength (quoteUnit # body @ [quoteUnit]) \<le> jlStringBytes limits + 2"
    by (auto simp: stringP_def bindE_Inr_iff split: option.splits if_splits)
  then show "\<exists>lit. quoteUnit # s = lit @ r \<and> jsonString limits lit t"
    by (intro exI[of _ "quoteUnit # body @ [quoteUnit]"]) (auto simp: jsonString_def dest: scanString_split read_spells)
next
  assume "\<exists>lit. quoteUnit # s = lit @ r \<and> jsonString limits lit t"
  then obtain body where "s = body @ quoteUnit # r" "spells body t"
      "byteLength (quoteUnit # body @ [quoteUnit]) \<le> jlStringBytes limits + 2"
    by (auto simp: jsonString_def)
  then show "stringP limits s = Inr (t, r)"
    by (simp add: stringP_def spells_scan spells_read)
qed

lemma takeWhile_digits: "list_all isDigitUnit t \<Longrightarrow> takeWhile isDigitUnit r = [] \<Longrightarrow> takeWhile isDigitUnit (t @ r) = t \<and> dropWhile isDigitUnit (t @ r) = r"
  by (induction t) (auto simp: takeWhile_eq_Nil_iff dropWhile_eq_self_iff)

lemma digit_unit [simp]: "isDigitUnit (of_char c) \<longleftrightarrow> isDigit c"
  by (auto simp: isDigitUnit_def isDigit_def less_eq_char_def)

lemma digit_units [simp]: "list_all isDigitUnit (units s) \<longleftrightarrow> list_all isDigit s"
  by (induction s) simp_all

lemma digits_chars:
  assumes "list_all isDigitUnit t" shows "units (chars t) = t" "list_all isDigit (chars t)"
proof -
  show "units (chars t) = t" using assms by (induction t) (auto simp: isDigitUnit_def of_char_of)
  with assms show "list_all isDigit (chars t)" by (metis digit_units)
qed

lemma not_minus [simp]: "isDigitUnit c \<Longrightarrow> c \<noteq> minusUnit"
  by (auto simp: isDigitUnit_def)

text \<open>The digits of a number, and the text of a number with its sign.\<close>

lemma dec_head: obtains c t where "units (dec n) = c # t" "isDigitUnit c" "list_all isDigitUnit t" "c = zeroUnit \<longleftrightarrow> n = 0" "n = 0 \<longrightarrow> t = []"
proof -
  obtain d s where d: "dec n = d # s" "isDigit d" "list_all isDigit s" "d = CHR ''0'' \<longleftrightarrow> n = 0" "n = 0 \<longrightarrow> s = []"
    using dec_digits[of n] hd_dec[of n] dec_0 by (cases "dec n"; cases "n = 0") auto
  have "(of_char d :: nat) = of_char (CHR ''0'') \<longleftrightarrow> d = CHR ''0''" by (rule of_char_eq_iff)
  with d that[of "of_char d" "units s"] show ?thesis by simp
qed

definition signUnits :: "bool \<Rightarrow> jstext" where
  "signUnits neg = (if neg then [minusUnit] else [])"

lemma units_decInt: "units (decInt n) = signUnits (n < 0) @ units (dec (nat \<bar>n\<bar>))"
  by (simp add: decInt_def signUnits_def)

lemma matchNumber_signed:
  assumes "\<And>v. \<not> neg \<Longrightarrow> u \<noteq> minusUnit # v"
  shows "matchNumber (signUnits neg @ u) = (case u of [] \<Rightarrow> None | c # v \<Rightarrow>
      if c = zeroUnit then Some (signUnits neg @ [zeroUnit], v)
      else if isDigitUnit c then Some (signUnits neg @ takeWhile isDigitUnit u, dropWhile isDigitUnit u) else None)"
  using assms by (cases neg; cases u) (auto simp: matchNumber_def Let_def signUnits_def)

lemma matchNumber_complete:
  assumes "takeWhile isDigitUnit r = []"
  shows "matchNumber (units (decInt n) @ r) = Some (units (decInt n), r)"
proof -
  obtain c t where d: "units (dec (nat \<bar>n\<bar>)) = c # t" "isDigitUnit c" "list_all isDigitUnit t" "c = zeroUnit \<longleftrightarrow> nat \<bar>n\<bar> = 0" "nat \<bar>n\<bar> = 0 \<longrightarrow> t = []"
    by (rule dec_head)
  have "matchNumber (signUnits (n < 0) @ (c # t @ r)) = Some (signUnits (n < 0) @ (c # t), r)"
    using d takeWhile_digits[OF d(3) assms] by (subst matchNumber_signed) auto
  then show ?thesis by (simp add: units_decInt d(1))
qed

text \<open>What the number of a text is: the canonical decimal texts, and one that the caller refuses.\<close>

lemma matchNumber_sound:
  assumes "matchNumber s = Some (t, r)" "t \<noteq> units ''-0''"
  obtains n where "t = units (decInt n)" "s = units (decInt n) @ r"
proof -
  obtain neg u where u: "s = signUnits neg @ u" "\<And>v. \<not> neg \<Longrightarrow> u \<noteq> minusUnit # v"
  proof (cases "\<exists>v. s = minusUnit # v")
    case True
    then show ?thesis using that[of True "tl s"] by (auto simp: signUnits_def)
  next
    case False
    then show ?thesis using that[of False s] by (auto simp: signUnits_def)
  qed
  have m: "(case u of [] \<Rightarrow> None | c # v \<Rightarrow>
      if c = zeroUnit then Some (signUnits neg @ [zeroUnit], v)
      else if isDigitUnit c then Some (signUnits neg @ takeWhile isDigitUnit u, dropWhile isDigitUnit u) else None) = Some (t, r)"
    by (rule trans[OF matchNumber_signed[OF u(2), symmetric]]) (simp_all add: assms(1) flip: u(1))
  obtain c v where c: "u = c # v" "isDigitUnit c"
      "t = signUnits neg @ (if c = zeroUnit then [zeroUnit] else takeWhile isDigitUnit u)"
      "r = (if c = zeroUnit then v else dropWhile isDigitUnit u)"
    using m by (cases u) (auto simp: isDigitUnit_def split: if_splits)
  define w where "w = (if c = zeroUnit then [zeroUnit] else takeWhile isDigitUnit u)"
  have digits: "list_all isDigitUnit w" "u = w @ r" "w \<noteq> []" "w \<noteq> [zeroUnit] \<longrightarrow> hd w \<noteq> zeroUnit" "\<not> neg \<or> w \<noteq> [zeroUnit]"
    using c assms(2) by (auto simp: w_def list_all_iff isDigitUnit_def signUnits_def dest: set_takeWhileD)
  define d where "d = chars w"
  have d: "units d = w" "list_all isDigit d" using digits_chars[OF digits(1)] by (simp_all add: d_def)
  have "canonicalDec d"
    using d digits(3,4) by (cases d) (auto simp: canonicalDec_def)
  then have dec: "dec (undec d) = d" by simp
  have "neg \<Longrightarrow> 0 < undec d" using digits(5) d(1) dec dec_0 by (cases "undec d") auto
  then have "t = units (decInt (if neg then - int (undec d) else int (undec d)))"
    using c(3) dec d(1) by (auto simp: units_decInt signUnits_def w_def)
  moreover have "s = t @ r" using u(1) c(3) digits(2) by (simp add: w_def)
  ultimately show ?thesis using that by metis
qed

lemma decInt_not_neg_zero: "units (decInt n) \<noteq> [minusUnit, zeroUnit]"
proof -
  obtain c t where d: "units (dec (nat \<bar>n\<bar>)) = c # t" "isDigitUnit c" "c = zeroUnit \<longleftrightarrow> nat \<bar>n\<bar> = 0" by (rule dec_head)
  then show ?thesis using not_minus[OF d(2)] by (auto simp: units_decInt signUnits_def)
qed

lemma numberP_value: "(case takeUnit minusUnit (units (decInt n)) of
    None \<Rightarrow> int (undec (chars (units (decInt n)))) | Some digits \<Rightarrow> - int (undec (chars digits))) = n"
proof (cases "n < 0")
  case True
  then show ?thesis by (simp add: units_decInt signUnits_def)
next
  case False
  obtain c t where d: "units (dec (nat \<bar>n\<bar>)) = c # t" "isDigitUnit c" by (rule dec_head)
  then have "takeUnit minusUnit (units (decInt n)) = None"
    using not_minus[OF d(2)] False by (simp add: units_decInt signUnits_def)
  moreover have "int (undec (decInt n)) = n" using False by (simp add: decInt_def)
  ultimately show ?thesis by simp
qed

lemma numberP_complete: "takeWhile isDigitUnit r = [] \<Longrightarrow> isSafeInteger (JNum n) \<Longrightarrow> numberP (units (decInt n) @ r) = Inr (WNum n, r)"
  by (simp add: numberP_def matchNumber_complete Let_def decInt_not_neg_zero numberP_value del: isSafeInteger.simps)

lemma numberP_sound:
  assumes "numberP s = Inr (v, r)"
  obtains n where "s = units (decInt n) @ r" "v = WNum n" "isSafeInteger (JNum n)"
proof -
  from assms obtain t where t: "matchNumber s = Some (t, r)" "t \<noteq> units ''-0''"
    by (auto simp: numberP_def Let_def split: option.splits if_splits)
  then obtain n where n: "t = units (decInt n)" "s = units (decInt n) @ r" by (rule matchNumber_sound)
  with assms t have "v = WNum n" "isSafeInteger (JNum n)"
    by (auto simp: numberP_def Let_def numberP_value simp del: isSafeInteger.simps split: if_splits)
  with n(2) that show ?thesis by blast
qed

section \<open>Soundness\<close>

lemma find_member: "List.find P xs = Some x \<Longrightarrow> x \<in> set xs \<and> P x"
  by (auto simp: find_Some_iff)

lemma find_token:
  assumes "List.find (\<lambda>(token, v). take (length token) s = token) tokens = Some (token, v)"
  shows "(token, v) \<in> set tokens \<and> s = token @ drop (length token) s"
proof -
  from find_member[OF assms] have "(token, v) \<in> set tokens" "take (length token) s = token" by simp_all
  then show ?thesis by (metis append_take_drop_id)
qed

lemma valueP_sound_leaf:
  assumes "white w" "source = w @ s" "s = space source" "valueP limits d source = Inr (v, rest)"
    "\<And>t. s \<noteq> openBrace # t" "\<And>t. s \<noteq> openBracket # t"
  shows "\<exists>txt. source = txt @ rest \<and> jsonText limits d txt v"
proof -
  have none: "takeUnit (openBrace) s = None" "takeUnit (openBracket) s = None"
    using assms(5,6) by (metis not_None_eq takeUnit_Some)+
  have leaf: "\<exists>txt. source = txt @ rest \<and> jsonText limits d txt v"
    if "s = tx @ rest" "jsonText limits d (w @ tx) v" for tx
    using that assms(2) by (metis append.assoc)
  show ?thesis
  proof (cases "takeUnit quoteUnit s")
    case (Some t)
    with assms(3,4) none obtain u where u: "stringP limits t = Inr (u, rest)" "v = WText u"
      by (auto simp: valueP.simps Let_def bindE_Inr_iff)
    then obtain lit where "quoteUnit # t = lit @ rest" "jsonString limits lit u" by (auto simp: stringP_Inr)
    with leaf Some u(2) assms(1) show ?thesis by (auto intro: text_string)
  next
    case no_string: None
    show ?thesis
    proof (cases "List.find (\<lambda>(token, v). take (length token) s = token) tokens")
      case (Some p)
      obtain token w' where p: "p = (token, w')" by (cases p)
      with Some assms(3,4) none no_string have "v = w'" "rest = drop (length token) s"
        by (auto simp: valueP.simps Let_def)
      with find_token[OF Some[unfolded p]] leaf[of token] assms(1) show ?thesis by (auto intro: text_token)
    next
      case None
      with assms(3,4) none no_string have "numberP s = Inr (v, rest)"
        by (simp add: valueP.simps Let_def)
      then obtain n where "s = units (decInt n) @ rest" "v = WNum n" "isSafeInteger (JNum n)" by (rule numberP_sound)
      with leaf[of "units (decInt n)"] assms(1) show ?thesis by (auto intro: text_number simp del: isSafeInteger.simps)
    qed
  qed
qed

text \<open>What the loops have read when they return, behind what they had.\<close>

definition membersRead :: "jsonLimits \<Rightarrow> nat \<Rightarrow> (jstext \<times> jsonValue) list \<Rightarrow> jstext \<Rightarrow> jsonValue \<Rightarrow> jstext \<Rightarrow> bool" where
  "membersRead limits d acc s v rest \<longleftrightarrow> (\<exists>txt ms. s = txt @ closeBrace # rest \<and> v = WObject (acc @ ms) \<and>
     jsonMembers limits d txt ms \<and> (distinct (map fst acc) \<longrightarrow> distinct (map fst (acc @ ms))) \<and>
     length (acc @ ms) \<le> jlMembers limits)"

definition itemsRead :: "jsonLimits \<Rightarrow> nat \<Rightarrow> jsonValue list \<Rightarrow> jstext \<Rightarrow> jsonValue \<Rightarrow> jstext \<Rightarrow> bool" where
  "itemsRead limits d acc s v rest \<longleftrightarrow> (\<exists>txt vs. s = txt @ closeBracket # rest \<and> v = WArray (acc @ vs) \<and>
     jsonItems limits d txt vs \<and> length (acc @ vs) \<le> jlArrayItems limits)"

definition valueRead :: "jsonLimits \<Rightarrow> nat \<Rightarrow> jstext \<Rightarrow> jsonValue \<Rightarrow> jstext \<Rightarrow> bool" where
  "valueRead limits d s v rest \<longleftrightarrow> (\<exists>txt. s = txt @ rest \<and> jsonText limits d txt v)"

text \<open>One round of a loop.\<close>

lemma members_round:
  assumes "membersP limits d acc s = Inr (v, rest)"
  obtains k r r' u q where "length acc < jlMembers limits" "space s = quoteUnit # k" "stringP limits k = Inr (r, r')"
    "r \<notin> set (map fst acc)" "space r' = colonUnit # q" "\<exists>x. valueP limits d q = Inr (u, x) \<and>
       (space x = closeBrace # rest \<and> v = WObject (acc @ [(r, u)]) \<or>
        (\<exists>y. space x = commaUnit # y \<and> membersP limits d (acc @ [(r, u)]) y = Inr (v, rest)))"
  using assms by (subst (asm) membersP.simps) (auto simp: bindE_Inr_iff split: if_splits option.splits)

lemma items_round:
  assumes "itemsP limits d acc s = Inr (v, rest)"
  obtains u x where "length acc < jlArrayItems limits" "valueP limits d s = Inr (u, x)"
    "space x = closeBracket # rest \<and> v = WArray (acc @ [u]) \<or>
     (\<exists>y. space x = commaUnit # y \<and> itemsP limits d (acc @ [u]) y = Inr (v, rest))"
  using assms by (subst (asm) itemsP.simps) (auto simp: bindE_Inr_iff split: if_splits option.splits)

lemma white_append [simp]: "white (u @ w) \<longleftrightarrow> white u \<and> white w"
  by (simp add: white_def)

lemma jsonText_white: "jsonText limits d tx v \<Longrightarrow> white w \<Longrightarrow> jsonText limits d (w @ tx) v"
  by (erule jsonText.cases; simp only: append.assoc[symmetric], intro jsonText_jsonMembers_jsonItems.intros) simp_all

lemma jsonMembers_white: "jsonMembers limits d tx ms \<Longrightarrow> white w \<Longrightarrow> jsonMembers limits d (w @ tx) ms"
  by (erule jsonMembers.cases; simp only: append.assoc[of w, symmetric], intro jsonText_jsonMembers_jsonItems.intros) simp_all

lemma jsonItems_white: "jsonItems limits d tx vs \<Longrightarrow> white w \<Longrightarrow> jsonItems limits d (w @ tx) vs"
  by (erule jsonItems.cases; simp only: append.assoc[of w, symmetric], intro items_last items_more)
    (simp_all add: jsonText_white)

lemma object_read:
  assumes "white w" "s = w @ openBrace # w' @ t" "white w'" "d < jlDepth limits" "membersRead limits (Suc d) [] t v rest"
  shows "valueRead limits d s v rest"
proof -
  from assms(5) obtain tx ms where tx: "t = tx @ closeBrace # rest" "v = WObject ms" "jsonMembers limits (Suc d) tx ms"
      "distinct (map fst ms)" "length ms \<le> jlMembers limits"
    by (auto simp: membersRead_def)
  then have "jsonText limits d (w @ openBrace # (w' @ tx) @ [closeBrace]) v"
    using assms(1,3,4) by (auto intro: text_object jsonMembers_white simp del: append_assoc)
  then show ?thesis using assms(2) tx(1) unfolding valueRead_def by (intro exI conjI) (assumption | simp)+
qed

lemma array_read:
  assumes "white w" "s = w @ openBracket # w' @ t" "white w'" "d < jlDepth limits" "itemsRead limits (Suc d) [] t v rest"
  shows "valueRead limits d s v rest"
proof -
  from assms(5) obtain tx vs where tx: "t = tx @ closeBracket # rest" "v = WArray vs" "jsonItems limits (Suc d) tx vs"
      "length vs \<le> jlArrayItems limits"
    by (auto simp: itemsRead_def)
  then have "jsonText limits d (w @ openBracket # (w' @ tx) @ [closeBracket]) v"
    using assms(1,3,4) by (auto intro: text_array jsonItems_white simp del: append_assoc)
  then show ?thesis using assms(2) tx(1) unfolding valueRead_def by (intro exI conjI) (assumption | simp)+
qed

text \<open>A round of a loop and what the rest of the loop reads.\<close>

lemma member_text:
  assumes "space s = quoteUnit # k" "stringP limits k = Inr (r, r')" "space r' = colonUnit # q" "valueRead limits d q u x"
  obtains w1 w2 w3 lit vt where "white w1" "white w2" "white w3" "jsonString limits lit r" "jsonText limits d vt u"
    "s = w1 @ lit @ w2 @ colonUnit # vt @ w3 @ space x"
proof -
  obtain w1 where w1: "white w1" "s = w1 @ space s" by (rule space_split)
  obtain w2 where w2: "white w2" "r' = w2 @ space r'" by (rule space_split)
  obtain w3 where w3: "white w3" "x = w3 @ space x" by (rule space_split)
  from assms(2) obtain lit where lit: "quoteUnit # k = lit @ r'" "jsonString limits lit r" by (auto simp: stringP_Inr)
  from assms(4) obtain vt where vt: "q = vt @ x" "jsonText limits d vt u" by (auto simp: valueRead_def)
  have "s = w1 @ lit @ w2 @ colonUnit # vt @ w3 @ space x"
    using w1(2) w2(2) w3(2) lit(1) vt(1) assms(1,3) by (metis append.assoc append_Cons)
  with w1(1) w2(1) w3(1) lit(2) vt(2) that show ?thesis by blast
qed

lemma members_read:
  assumes "length acc < jlMembers limits" "r \<notin> set (map fst acc)"
    and "white w1" "white w2" "white w3" "jsonString limits lit r" "jsonText limits d vt u"
    and "s = w1 @ lit @ w2 @ colonUnit # vt @ w3 @ x"
    and "x = closeBrace # rest \<and> v = WObject (acc @ [(r, u)]) \<or>
      (\<exists>y. x = commaUnit # y \<and> membersRead limits d (acc @ [(r, u)]) y v rest)"
  shows "membersRead limits d acc s v rest"
  using assms(9)
proof (elim disjE conjE exE)
  assume "x = closeBrace # rest" "v = WObject (acc @ [(r, u)])"
  with assms(1-8) show ?thesis unfolding membersRead_def
    by (intro exI[of _ "w1 @ lit @ w2 @ colonUnit # vt @ w3"] exI[of _ "[(r, u)]"]) (auto intro: members_last)
next
  fix y assume x: "x = commaUnit # y" and "membersRead limits d (acc @ [(r, u)]) y v rest"
  then obtain tx ms where tx: "y = tx @ closeBrace # rest" "v = WObject ((acc @ [(r, u)]) @ ms)" "jsonMembers limits d tx ms"
      "distinct (map fst (acc @ [(r, u)])) \<longrightarrow> distinct (map fst ((acc @ [(r, u)]) @ ms))"
      "length ((acc @ [(r, u)]) @ ms) \<le> jlMembers limits"
    by (auto simp: membersRead_def)
  have "jsonMembers limits d (w1 @ lit @ w2 @ colonUnit # vt @ w3 @ commaUnit # tx) ((r, u) # ms)"
    by (rule members_more[OF assms(3-7) tx(3)])
  with assms(2,8) x tx show ?thesis unfolding membersRead_def
    by (intro exI[of _ "w1 @ lit @ w2 @ colonUnit # vt @ w3 @ commaUnit # tx"] exI[of _ "(r, u) # ms"]) auto
qed

lemma items_read:
  assumes "length acc < jlArrayItems limits" "valueRead limits d s u x"
    and "space x = closeBracket # rest \<and> v = WArray (acc @ [u]) \<or>
      (\<exists>y. space x = commaUnit # y \<and> itemsRead limits d (acc @ [u]) y v rest)"
  shows "itemsRead limits d acc s v rest"
proof -
  obtain w where w: "white w" "x = w @ space x" by (rule space_split)
  from assms(2) obtain vt where vt: "s = vt @ x" "jsonText limits d vt u" by (auto simp: valueRead_def)
  from assms(3) show ?thesis
  proof (elim disjE conjE exE)
    assume "space x = closeBracket # rest" "v = WArray (acc @ [u])"
    with assms(1) w vt show ?thesis unfolding itemsRead_def
      by (intro exI[of _ "vt @ w"] exI[of _ "[u]"]) (auto intro: items_last)
  next
    fix y assume x: "space x = commaUnit # y" and "itemsRead limits d (acc @ [u]) y v rest"
    then obtain tx vs where tx: "y = tx @ closeBracket # rest" "v = WArray ((acc @ [u]) @ vs)" "jsonItems limits d tx vs"
        "length ((acc @ [u]) @ vs) \<le> jlArrayItems limits"
      by (auto simp: itemsRead_def)
    have "jsonItems limits d (vt @ w @ commaUnit # tx) (u # vs)"
      by (rule items_more[OF w(1) vt(2) tx(3)])
    with w(2) vt(1) x tx show ?thesis unfolding itemsRead_def
      by (intro exI[of _ "vt @ w @ commaUnit # tx"] exI[of _ "u # vs"]) auto
  qed
qed

lemma parser_sound:
  "valueP limits d s = Inr (v, rest) \<Longrightarrow> valueRead limits d s v rest"
  "membersP limits d acc s = Inr (v, rest) \<Longrightarrow> membersRead limits d acc s v rest"
  "itemsP limits d items s = Inr (v, rest) \<Longrightarrow> itemsRead limits d items s v rest"
proof (induction limits d s and limits d acc s and limits d items s arbitrary: v rest and v rest and v rest
    rule: valueP_membersP_itemsP.induct)
  case (1 limits d s)
  obtain w where w: "white w" "s = w @ space s" by (rule space_split)
  show ?case
  proof (cases "(\<exists>t. space s = openBrace # t) \<or> (\<exists>t. space s = openBracket # t)")
    case False
    with valueP_sound_leaf[OF w refl "1.prems"] show ?thesis by (auto simp: valueRead_def)
  next
    case True
    then show ?thesis
    proof (elim disjE exE)
      fix t assume t: "space s = openBrace # t"
      obtain w' where w': "white w'" "t = w' @ space t" by (rule space_split)
      from t "1.prems" have d: "d < jlDepth limits" by (auto simp: valueP.simps split: if_splits)
      show ?thesis
      proof (cases "takeUnit (closeBrace) (space t)")
        case (Some r)
        with t d "1.prems" have "v = WObject []" "rest = r" by (auto simp: valueP.simps)
        with Some w w' t d show ?thesis unfolding valueRead_def
          by (intro exI[of _ "w @ openBrace # w' @ [closeBrace]"]) (auto intro: text_empty_object)
      next
        case None
        with t d "1.prems" have "membersP limits (Suc d) [] (space t) = Inr (v, rest)" by (simp add: valueP.simps)
        from "1.IH"(2)[OF refl _ _ None this] t d have "membersRead limits (Suc d) [] (space t) v rest" by simp
        then show ?thesis using w w' t d by (intro object_read[of w s w' "space t"]) auto
      qed
    next
      fix t assume t: "space s = openBracket # t"
      obtain w' where w': "white w'" "t = w' @ space t" by (rule space_split)
      from t "1.prems" have d: "d < jlDepth limits" by (auto simp: valueP.simps split: if_splits)
      show ?thesis
      proof (cases "takeUnit (closeBracket) (space t)")
        case (Some r)
        with t d "1.prems" have "v = WArray []" "rest = r" by (auto simp: valueP.simps)
        with Some w w' t d show ?thesis unfolding valueRead_def
          by (intro exI[of _ "w @ openBracket # w' @ [closeBracket]"]) (auto intro: text_empty_array)
      next
        case None
        with t d "1.prems" have "itemsP limits (Suc d) [] (space t) = Inr (v, rest)" by (simp add: valueP.simps)
        from "1.IH"(1)[OF refl _ _ _ None this] t d have "itemsRead limits (Suc d) [] (space t) v rest" by simp
        then show ?thesis using w w' t d by (intro array_read[of w s w' "space t"]) auto
      qed
    qed
  qed
next
  case (2 limits d acc s)
  from "2.prems" obtain k r r' u q x where r: "length acc < jlMembers limits" "space s = quoteUnit # k"
      "stringP limits k = Inr (r, r')" "r \<notin> set (map fst acc)" "space r' = colonUnit # q" "valueP limits d q = Inr (u, x)"
      "space x = closeBrace # rest \<and> v = WObject (acc @ [(r, u)]) \<or>
        (\<exists>y. space x = commaUnit # y \<and> membersP limits d (acc @ [(r, u)]) y = Inr (v, rest))"
    by (rule members_round) blast
  have "valueRead limits d q u x"
    using "2.IH"(1)[OF _ _ r(3) refl _ _ r(6)] r(1,2,4,5) by simp
  then obtain w1 w2 w3 lit vt where t: "white w1" "white w2" "white w3" "jsonString limits lit r" "jsonText limits d vt u"
      "s = w1 @ lit @ w2 @ colonUnit # vt @ w3 @ space x"
    by (rule member_text[OF r(2,3,5)])
  have "membersRead limits d (acc @ [(r, u)]) y v rest"
    if "space x = commaUnit # y" "membersP limits d (acc @ [(r, u)]) y = Inr (v, rest)" for y
    using "2.IH"(2)[OF _ _ r(3) refl _ _ r(6) refl _ _ that(2)] r(1,2,4,5) that(1) by simp
  with r(7) show ?case by (intro members_read[OF r(1,4) t]) auto
next
  case (3 limits d items s)
  from "3.prems" obtain u x where r: "length items < jlArrayItems limits" "valueP limits d s = Inr (u, x)"
      "space x = closeBracket # rest \<and> v = WArray (items @ [u]) \<or>
        (\<exists>y. space x = commaUnit # y \<and> itemsP limits d (items @ [u]) y = Inr (v, rest))"
    by (rule items_round)
  have "valueRead limits d s u x" using "3.IH"(1)[OF _ r(2)] r(1) by simp
  moreover have "itemsRead limits d (items @ [u]) y v rest"
    if "space x = commaUnit # y" "itemsP limits d (items @ [u]) y = Inr (v, rest)" for y
    using "3.IH"(2)[OF _ r(2) refl _ _ that(2)] r(1) that(1) by simp
  ultimately show ?case using r(3) by (intro items_read[OF r(1)]) auto
qed

section \<open>Completeness\<close>

definition noDigit :: "jstext \<Rightarrow> bool" where
  "noDigit r \<longleftrightarrow> takeWhile isDigitUnit r = []"

lemma noDigit_white [simp]: "white w \<Longrightarrow> noDigit (w @ r) \<longleftrightarrow> w \<noteq> [] \<or> noDigit r"
  by (cases w) (auto simp: noDigit_def)

lemma noDigit_simps [simp]: "noDigit []" "noDigit (commaUnit # r)" "noDigit (closeBracket # r)" "noDigit (closeBrace # r)"
  by (simp_all add: noDigit_def isDigitUnit_def)

lemma number_head: obtains c t where "units (decInt n) = c # t" "isDigitUnit c \<or> c = minusUnit"
proof -
  obtain c t where d: "units (dec (nat \<bar>n\<bar>)) = c # t" "isDigitUnit c" by (rule dec_head)
  then show ?thesis using that[of minusUnit "c # t"] that[of c t] by (cases "n < 0") (simp_all add: units_decInt signUnits_def)
qed

lemma number_not_token: "isDigitUnit c \<or> c = minusUnit \<Longrightarrow> List.find (\<lambda>(token, v). take (length token) (c # t) = token) tokens = None"
  by (auto simp: tokens_def isDigitUnit_def)

lemma number_char [simp]: "isDigitUnit c \<or> c = minusUnit \<Longrightarrow>
    c \<noteq> openBrace \<and> c \<noteq> openBracket \<and> c \<noteq> quoteUnit \<and> c \<noteq> closeBracket \<and> c \<noteq> closeBrace \<and> \<not> isJsonWhitespace c"
  by (auto simp: isDigitUnit_def)

lemma valueP_token:
  "(token, v) \<in> set tokens \<Longrightarrow> valueP limits d (token @ rest) = Inr (v, rest)"
  by (subst valueP.simps) (auto simp: tokens_def Let_def)

lemma valueP_number:
  assumes "isSafeInteger (JNum n)" "noDigit rest"
  shows "valueP limits d (units (decInt n) @ rest) = Inr (WNum n, rest)"
proof -
  obtain c t where c: "units (decInt n) = c # t" "isDigitUnit c \<or> c = minusUnit" by (rule number_head)
  have "numberP (c # t @ rest) = Inr (WNum n, rest)"
    using numberP_complete[of rest n] assms c(1) by (simp add: noDigit_def del: isSafeInteger.simps)
  with c number_not_token[OF c(2), of "t @ rest"] number_char[OF c(2)] show ?thesis
    by (subst valueP.simps) (simp add: Let_def)
qed

lemma valueP_space [simp]: "valueP limits d (space s) = valueP limits d s"
  by (subst (1 2) valueP.simps) simp

lemma valueP_white: "white w \<Longrightarrow> valueP limits d (w @ s) = valueP limits d s"
  by (metis space_white valueP_space)

lemma membersP_space: "membersP limits d acc (space s) = membersP limits d acc s"
  by (subst (1 2) membersP.simps) simp

lemma itemsP_space: "itemsP limits d acc (space s) = itemsP limits d acc s"
  by (subst (1 2) itemsP.simps) simp

lemma jsonString_cases:
  assumes "jsonString limits lit s"
  obtains t where "lit = quoteUnit # t" "\<forall>r. stringP limits (t @ r) = Inr (s, r)"
proof -
  from assms obtain t where t: "lit = quoteUnit # t" by (auto simp: jsonString_def)
  with assms have "stringP limits (t @ r) = Inr (s, r)" for r
    by (auto simp: stringP_Inr intro: exI[of _ lit])
  with t that show ?thesis by blast
qed

definition valueHead :: "jstext \<Rightarrow> bool" where
  "valueHead s \<longleftrightarrow> space s \<noteq> [] \<and> hd (space s) \<noteq> closeBracket"

lemma jsonText_head: "jsonText limits d tx v \<Longrightarrow> valueHead (tx @ r)"
proof (erule jsonText.cases)
  fix w token u assume "tx = w @ token" "white w" "(token, u) \<in> set tokens"
  then show ?thesis by (auto simp: valueHead_def tokens_def)
next
  fix w n assume "tx = w @ units (decInt n)" "white w"
  with number_head[of n] number_char show ?thesis by (metis (no_types) valueHead_def space_stop space_white append.assoc append_Cons list.sel(1) list.distinct(1))
next
  fix w lit s assume "tx = w @ lit" "white w" "jsonString limits lit s"
  then show ?thesis by (auto simp: jsonString_def valueHead_def)
qed (simp_all add: valueHead_def)

lemma jsonItems_head: "jsonItems limits d tx vs \<Longrightarrow> valueHead (tx @ r)"
  by (erule jsonItems.cases) (simp_all add: jsonText_head)

lemma jsonMembers_head: "jsonMembers limits d tx ms \<Longrightarrow> \<exists>t. space (tx @ r) = quoteUnit # t"
  by (erule jsonMembers.cases) (auto simp: jsonString_def)

lemma jsonItems_nonempty: "jsonItems limits d tx vs \<Longrightarrow> vs \<noteq> []"
  by (erule jsonItems.cases) simp_all

lemma membersP_member:
  assumes "length acc < jlMembers limits" "k \<notin> set (map fst acc)"
    and "white w1" "white w2" "white w3" "jsonString limits lit k" "\<And>r. noDigit r \<Longrightarrow> valueP limits d (vt @ r) = Inr (v, r)"
  shows "membersP limits d acc (w1 @ lit @ w2 @ colonUnit # vt @ w3 @ closeBrace # rest) = Inr (WObject (acc @ [(k, v)]), rest)"
    and "membersP limits d acc (w1 @ lit @ w2 @ colonUnit # vt @ w3 @ commaUnit # rest) = membersP limits d (acc @ [(k, v)]) rest"
proof -
  obtain t where "lit = quoteUnit # t" "\<forall>r. stringP limits (t @ r) = Inr (k, r)"
    using assms(6) by (rule jsonString_cases)
  then show "membersP limits d acc (w1 @ lit @ w2 @ colonUnit # vt @ w3 @ closeBrace # rest) = Inr (WObject (acc @ [(k, v)]), rest)"
    and "membersP limits d acc (w1 @ lit @ w2 @ colonUnit # vt @ w3 @ commaUnit # rest) = membersP limits d (acc @ [(k, v)]) rest"
    using assms by (subst membersP.simps, simp add: not_le)+
qed

lemma itemsP_item:
  assumes "length acc < jlArrayItems limits" "white w" "\<And>r. noDigit r \<Longrightarrow> valueP limits d (vt @ r) = Inr (v, r)"
  shows "itemsP limits d acc (vt @ w @ closeBracket # rest) = Inr (WArray (acc @ [v]), rest)"
    and "itemsP limits d acc (vt @ w @ commaUnit # rest) = itemsP limits d (acc @ [v]) rest"
  using assms by (subst itemsP.simps, simp add: not_le)+

lemma parser_complete:
  "jsonText limits d tx v \<Longrightarrow> noDigit r \<Longrightarrow> valueP limits d (tx @ r) = Inr (v, r)"
  "jsonMembers limits d mx ms \<Longrightarrow> length (acc @ ms) \<le> jlMembers limits \<Longrightarrow> distinct (map fst (acc @ ms)) \<Longrightarrow>
     membersP limits d acc (mx @ closeBrace # r) = Inr (WObject (acc @ ms), r)"
  "jsonItems limits d ix vs \<Longrightarrow> length (items @ vs) \<le> jlArrayItems limits \<Longrightarrow>
     itemsP limits d items (ix @ closeBracket # r) = Inr (WArray (items @ vs), r)"
proof (induction arbitrary: r and acc r and items r rule: jsonText_jsonMembers_jsonItems.inducts)
  case (text_token w token v d)
  then show ?case by (simp add: valueP_white valueP_token)
next
  case (text_number w n d)
  then show ?case by (simp add: valueP_white valueP_number del: isSafeInteger.simps)
next
  case (text_string w lit s d)
  then obtain t where "lit = quoteUnit # t" "stringP limits (t @ r) = Inr (s, r)" by (auto elim: jsonString_cases)
  with text_string.hyps(1) show ?case by (simp add: valueP_white) (subst valueP.simps, simp)
next
  case (text_empty_object w w' d)
  then show ?case by (simp add: valueP_white) (subst valueP.simps, simp)
next
  case (text_object w d tx ms)
  have m: "jsonMembers limits (Suc d) tx ms" using text_object by simp
  from jsonMembers_head[OF m, of "closeBrace # r"] obtain t where t: "space (tx @ closeBrace # r) = quoteUnit # t" by blast
  have "membersP limits (Suc d) [] (quoteUnit # t) = Inr (WObject ms, r)"
    using text_object membersP_space[of limits "Suc d" "[]" "tx @ closeBrace # r"] t by simp
  with t text_object show ?case by (simp add: valueP_white) (subst valueP.simps, simp)
next
  case (text_empty_array w w' d)
  then show ?case by (simp add: valueP_white) (subst valueP.simps, simp)
next
  case (text_array w d tx vs)
  have m: "jsonItems limits (Suc d) tx vs" using text_array by simp
  from jsonItems_head[OF m, of "closeBracket # r"] have t: "takeUnit (closeBracket) (space (tx @ closeBracket # r)) = None"
    by (cases "space (tx @ closeBracket # r)") (auto simp: valueHead_def)
  have "itemsP limits (Suc d) [] (space (tx @ closeBracket # r)) = Inr (WArray vs, r)"
    using text_array itemsP_space[of limits "Suc d" "[]" "tx @ closeBracket # r"] by simp
  with t text_array show ?case by (simp add: valueP_white) (subst valueP.simps, simp)
next
  case (members_last w1 w2 w3 lit k d vt v)
  then show ?case by (simp add: membersP_member)
next
  case (members_more w1 w2 w3 lit k d vt v tx ms)
  have "membersP limits d acc (w1 @ lit @ w2 @ colonUnit # vt @ w3 @ commaUnit # tx @ closeBrace # r)
      = membersP limits d (acc @ [(k, v)]) (tx @ closeBrace # r)"
    using members_more by (intro membersP_member) auto
  also have "... = Inr (WObject ((acc @ [(k, v)]) @ ms), r)"
    using members_more by (intro members_more) auto
  finally show ?case by simp
next
  case (items_last w d vt v)
  then show ?case by (simp add: itemsP_item)
next
  case (items_more w d vt v tx vs)
  have "itemsP limits d items (vt @ w @ commaUnit # tx @ closeBracket # r) = itemsP limits d (items @ [v]) (tx @ closeBracket # r)"
    using items_more by (intro itemsP_item) auto
  also have "... = Inr (WArray ((items @ [v]) @ vs), r)"
    using items_more by (intro items_more) auto
  finally show ?case by simp
qed

section \<open>Decoding\<close>

text \<open>
  The encoding of a text, in which a lone surrogate becomes U+FFFD, and the texts that have an encoding of their
  own: every surrogate is one of a pair.
\<close>

definition encodeUnit :: "nat \<Rightarrow> nat list" where
  "encodeUnit u =
     (if u < 128 then [u]
      else if u < 2048 then [192 + u div 64, 128 + u mod 64]
      else if isHighSurrogate u \<or> isLowSurrogate u then [239, 191, 189]
      else [224 + u div 4096, 128 + u div 64 mod 64, 128 + u mod 64])"

definition encodePair :: "nat \<Rightarrow> nat \<Rightarrow> nat list" where
  "encodePair u v =
     (let n = 65536 + 1024 * (u - 55296) + (v - 56320) in
      [240 + n div 262144, 128 + n div 4096 mod 64, 128 + n div 64 mod 64, 128 + n mod 64])"

fun encodeText :: "jstext \<Rightarrow> nat list" where
  "encodeText [] = []"
| "encodeText [u] = encodeUnit u"
| "encodeText (u # v # t) =
     (if isHighSurrogate u \<and> isLowSurrogate v then encodePair u v @ encodeText t else encodeUnit u @ encodeText (v # t))"

definition isScalarUnit :: "nat \<Rightarrow> bool" where
  "isScalarUnit u \<longleftrightarrow> u < 65536 \<and> \<not> isHighSurrogate u \<and> \<not> isLowSurrogate u"

fun wellFormed :: "jstext \<Rightarrow> bool" where
  "wellFormed [] = True"
| "wellFormed [u] = isScalarUnit u"
| "wellFormed (u # v # t) = (if isHighSurrogate u \<and> isLowSurrogate v then wellFormed t else isScalarUnit u \<and> wellFormed (v # t))"

lemma length_encode: "length (encodeText s) = byteLength s"
  by (induction s rule: byteLength.induct) (auto simp: encodeUnit_def encodePair_def Let_def)

lemma encode_scalar: "isScalarUnit u \<Longrightarrow> encodeText (u # s) = encodeUnit u @ encodeText s"
  by (cases s) (auto simp: isScalarUnit_def)

lemma encode_pair: "isHighSurrogate u \<Longrightarrow> isLowSurrogate v \<Longrightarrow> encodeText (u # v # s) = encodePair u v @ encodeText s"
  by simp

lemma wellFormed_scalar: "isScalarUnit u \<Longrightarrow> wellFormed (u # s) \<longleftrightarrow> wellFormed s"
  by (cases s) (auto simp: isScalarUnit_def)

lemma wellFormed_cases:
  assumes "wellFormed s" "s \<noteq> []"
  obtains (scalar) u t where "s = u # t" "isScalarUnit u" "wellFormed t"
  | (pair) u v t where "s = u # v # t" "isHighSurrogate u" "isLowSurrogate v" "wellFormed t"
  using assms by (cases s rule: wellFormed.cases) (auto split: if_splits)

lemma base_64:
  fixes n :: nat
  shows "n = 4096 * (n div 4096) + 64 * (n div 64 mod 64) + n mod 64"
    and "n = 262144 * (n div 262144) + 4096 * (n div 4096 mod 64) + 64 * (n div 64 mod 64) + n mod 64"
proof -
  have d: "n div 4096 = n div 64 div 64" "n div 262144 = n div 64 div 64 div 64"
    using div_mult2_eq[of n 64 64] div_mult2_eq[of n "64 * 64" 64] by simp_all
  have m: "n = 64 * (n div 64) + n mod 64" "n div 64 = 64 * (n div 64 div 64) + n div 64 mod 64"
      "n div 64 div 64 = 64 * (n div 64 div 64 div 64) + n div 64 div 64 mod 64"
    by simp_all
  show "n = 4096 * (n div 4096) + 64 * (n div 64 mod 64) + n mod 64"
    unfolding d using m(1,2) by linarith
  show "n = 262144 * (n div 262144) + 4096 * (n div 4096 mod 64) + 64 * (n div 64 mod 64) + n mod 64"
    unfolding d using m by linarith
qed

lemma div_mod_digit: "z < k \<Longrightarrow> (k * q + z) div k = q \<and> (k * q + z) mod k = (z::nat)"
  by simp

lemma decode_scalar: "isScalarUnit u \<Longrightarrow> utf8Decode (encodeUnit u @ bs) = bindE (utf8Decode bs) (\<lambda>s. Inr (u # s))"
proof -
  assume u: "isScalarUnit u"
  consider "u < 128" | "128 \<le> u" "u < 2048" | "2048 \<le> u" by linarith
  then show ?thesis
  proof cases
    case 1
    then show ?thesis by (simp add: encodeUnit_def)
  next
    case 2
    then have "2 \<le> u div 64" "u div 64 < 32" by (simp_all add: div_less_iff_less_mult less_eq_div_iff_mult_less_eq)
    moreover have "u mod 64 \<le> 63" using mod_less_divisor[of 64 u] by linarith
    ultimately show ?thesis using 2 by (simp add: encodeUnit_def isTrail_def)
  next
    case 3
    define x y z where "x = u div 4096" and "y = u div 64 mod 64" and "z = u mod 64"
    have n: "u = 4096 * x + 64 * y + z" unfolding x_def y_def z_def by (rule base_64(1))
    have b: "x < 16" "y < 64" "z < 64"
      using u by (simp_all add: x_def y_def z_def isScalarUnit_def div_less_iff_less_mult)
    have s: "isSecond (224 + x) (128 + y)"
      using b n 3 u by (auto simp: isSecond_def isTrail_def isScalarUnit_def isHighSurrogate_def isLowSurrogate_def)
    have "encodeUnit u = [224 + x, 128 + y, 128 + z]"
      using 3 u by (simp add: encodeUnit_def isScalarUnit_def x_def y_def z_def)
    then show ?thesis using b s n by (simp add: isTrail_def)
  qed
qed

lemma decode_pair:
  assumes "isHighSurrogate u" "isLowSurrogate v"
  shows "utf8Decode (encodePair u v @ bs) = bindE (utf8Decode bs) (\<lambda>s. Inr (u # v # s))"
proof -
  define n where "n = 65536 + 1024 * (u - 55296) + (v - 56320)"
  define x y z w where "x = n div 262144" and "y = n div 4096 mod 64" and "z = n div 64 mod 64" and "w = n mod 64"
  have n: "n = 262144 * x + 4096 * y + 64 * z + w" unfolding x_def y_def z_def w_def
    by (rule base_64(2))
  have r: "65536 \<le> n" "n < 1114112" "n - 65536 = 1024 * (u - 55296) + (v - 56320)" "v - 56320 < 1024"
    using assms by (auto simp: n_def isHighSurrogate_def isLowSurrogate_def)
  have b: "x < 5" "y < 64" "z < 64" "w < 64"
    using r(2) by (simp_all add: x_def y_def z_def w_def div_less_iff_less_mult)
  have s: "isSecond (240 + x) (128 + y)" using b n r by (auto simp: isSecond_def isTrail_def)
  have e: "encodePair u v = [240 + x, 128 + y, 128 + z, 128 + w]"
    by (simp add: encodePair_def Let_def flip: n_def x_def) (simp add: y_def z_def w_def)
  have d: "55296 + (n - 65536) div 1024 = u" "56320 + (n - 65536) mod 1024 = v"
    unfolding r(3) div_mod_digit[OF r(4), THEN conjunct1] div_mod_digit[OF r(4), THEN conjunct2]
    using assms by (simp_all add: isHighSurrogate_def isLowSurrogate_def)
  have "262144 * (240 + x - 240) + 4096 * (128 + y - 128) + 64 * (128 + z - 128) + (128 + w - 128) - 65536 = n - 65536"
    using n by simp
  then show ?thesis using b s d by (simp add: e isTrail_def Let_def)
qed

lemma decode_encode: "wellFormed s \<Longrightarrow> utf8Decode (encodeText s) = Inr s"
proof (induction s rule: length_induct)
  case (1 s)
  show ?case
  proof (cases "s = []")
    case False
    with "1.prems" show ?thesis
    proof (cases rule: wellFormed_cases)
      case (scalar u t)
      with 1 show ?thesis by (simp add: encode_scalar decode_scalar)
    next
      case (pair u v t)
      with 1 show ?thesis by (simp add: decode_pair)
    qed
  qed simp
qed

lemma decode_sound: "utf8Decode bs = Inr s \<Longrightarrow> wellFormed s \<and> encodeText s = bs"
proof (induction bs arbitrary: s rule: utf8Decode.induct)
  case (2 b bs)
  consider "b < 128" | "194 \<le> b" "b \<le> 223" | "224 \<le> b" "b \<le> 239" | "240 \<le> b" "b \<le> 244"
    using "2.prems" by (fastforce split: if_splits)
  then show ?case
  proof cases
    case 1
    then have "isScalarUnit b" "encodeUnit b = [b]"
      by (simp_all add: isScalarUnit_def isHighSurrogate_def isLowSurrogate_def encodeUnit_def)
    with 1 2 show ?thesis by (auto simp: bindE_Inr_iff encode_scalar wellFormed_scalar)
  next
    case r: 2
    with "2.prems" obtain c cs t where c: "bs = c # cs" "isTrail c" "utf8Decode cs = Inr t" "s = (64 * (b - 192) + (c - 128)) # t"
      by (auto simp: bindE_Inr_iff split: list.splits if_splits)
    define x y where "x = b - 192" and "y = c - 128"
    have x: "b = 192 + x" "c = 128 + y" "2 \<le> x" "x < 32" "y < 64"
      using r c(2) by (auto simp: x_def y_def isTrail_def)
    then have "isScalarUnit (64 * x + y)" "encodeUnit (64 * x + y) = [b, c]"
      by (simp_all add: isScalarUnit_def isHighSurrogate_def isLowSurrogate_def encodeUnit_def)
    moreover have "wellFormed t \<and> encodeText t = cs" using "2.IH"(2) r c by simp
    ultimately show ?thesis using c by (simp add: encode_scalar wellFormed_scalar x_def y_def)
  next
    case r: 3
    with "2.prems" obtain c d ds t where c: "bs = c # d # ds" "isSecond b c" "isTrail d" "utf8Decode ds = Inr t"
        "s = (4096 * (b - 224) + 64 * (c - 128) + (d - 128)) # t"
      by (auto simp: bindE_Inr_iff split: list.splits if_splits)
    define x y z where "x = b - 224" and "y = c - 128" and "z = d - 128"
    have x: "b = 224 + x" "c = 128 + y" "d = 128 + z" "x < 16" "y < 64" "z < 64" "x = 0 \<longrightarrow> 32 \<le> y" "x = 13 \<longrightarrow> y < 32"
      using r c(2,3) by (auto simp: x_def y_def z_def isTrail_def isSecond_def)
    define n where "n = 4096 * x + 64 * y + z"
    have n: "2048 \<le> n" using x(7) by (cases "x = 0") (simp_all add: n_def)
    have "n < 65536" using x(4-6) unfolding n_def by linarith
    moreover have "n < 55296 \<or> 57343 < n"
    proof -
      consider "x < 13" | "x = 13" | "13 < x" by linarith
      then show ?thesis
      proof cases
        case 1
        then show ?thesis using x(5,6) unfolding n_def by linarith
      next
        case 2
        then show ?thesis using x(6,8) unfolding n_def by linarith
      next
        case 3
        then show ?thesis unfolding n_def by linarith
      qed
    qed
    moreover note n
    ultimately have n: "2048 \<le> n" "n < 65536" "n < 55296 \<or> 57343 < n" by blast+
    then have "\<not> isHighSurrogate n" "\<not> isLowSurrogate n" by (auto simp: isHighSurrogate_def isLowSurrogate_def)
    note n = n(1,2) this
    have "n div 64 = 64 * x + y" "n mod 64 = z" "n div 4096 = x"
      using div_mod_digit[OF x(6), of "64 * x + y"] div_mod_digit[OF x(5), of x] div_mult2_eq[of n 64 64]
      by (simp_all add: n_def algebra_simps)
    then have "encodeUnit n = [b, c, d]" using n x by (simp add: encodeUnit_def)
    moreover have "isScalarUnit n" using n by (simp add: isScalarUnit_def)
    moreover have "wellFormed t \<and> encodeText t = ds" using "2.IH"(3) r c by simp
    ultimately show ?thesis using c by (simp add: encode_scalar wellFormed_scalar n_def x_def y_def z_def)
  next
    case r: 4
    with "2.prems" obtain c d e es t where c: "bs = c # d # e # es" "isSecond b c" "isTrail d" "isTrail e" "utf8Decode es = Inr t"
        "s = (let n = 262144 * (b - 240) + 4096 * (c - 128) + 64 * (d - 128) + (e - 128) - 65536 in (55296 + n div 1024) # (56320 + n mod 1024) # t)"
      by (auto simp: bindE_Inr_iff Let_def split: list.splits if_splits)
    define x y z w where "x = b - 240" and "y = c - 128" and "z = d - 128" and "w = e - 128"
    have x: "b = 240 + x" "c = 128 + y" "d = 128 + z" "e = 128 + w" "x < 5" "y < 64" "z < 64" "w < 64" "x = 0 \<longrightarrow> 16 \<le> y" "x = 4 \<longrightarrow> y < 16"
      using r c(2,3,4) by (auto simp: x_def y_def z_def w_def isTrail_def isSecond_def)
    define n where "n = 262144 * x + 4096 * y + 64 * z + w"
    have n: "65536 \<le> n" "n < 1114112" using x(5-10) by (auto simp: n_def)
    define u v where "u = 55296 + (n - 65536) div 1024" and "v = 56320 + (n - 65536) mod 1024"
    have "(n - 65536) div 1024 < 1024" using n(2) by (simp add: div_less_iff_less_mult)
    then have s: "isHighSurrogate u" "isLowSurrogate v"
      by (simp_all add: u_def v_def isHighSurrogate_def isLowSurrogate_def)
    have "65536 + 1024 * (u - 55296) + (v - 56320) = n" using n(1) by (simp add: u_def v_def)
    moreover have "n div 64 mod 64 = z" "n mod 64 = w" "n div 4096 = 64 * x + y" "n div 262144 = x"
      using div_mod_digit[OF x(8), of "64 * (64 * x + y) + z"] div_mod_digit[OF x(7), of "64 * x + y"] div_mod_digit[OF x(6), of x]
        div_mult2_eq[of n 64 64] div_mult2_eq[of n 4096 64]
      by (simp_all add: n_def algebra_simps)
    moreover have "n div 4096 mod 64 = y"
      using div_mod_digit[OF x(6), of x] \<open>n div 4096 = 64 * x + y\<close> by simp
    ultimately have "encodePair u v = [b, c, d, e]" using x(1-4) by (simp add: encodePair_def)
    moreover have "wellFormed t \<and> encodeText t = es" using "2.IH"(4) r c by simp
    moreover have "s = u # v # t" using c(6) by (simp add: Let_def u_def v_def n_def x_def y_def z_def w_def)
    ultimately show ?thesis using c(1) s by simp
  qed
qed simp

lemma decodeSource_Inr: "decodeSource bytes = Inr s \<longleftrightarrow> wellFormed s \<and> encodeText s = dropMark bytes"
  using decode_encode decode_sound unfolding decodeSource_def by metis

section \<open>What the parser reads\<close>

lemma parseSource_grammar:
  "parseSource limits s = Inr v \<longleftrightarrow> (\<exists>tx w. s = tx @ w \<and> white w \<and> jsonText limits 0 tx v)"
proof
  assume "parseSource limits s = Inr v"
  then obtain rest where "valueP limits 0 s = Inr (v, rest)" "white rest"
    by (auto simp: parseSource_def bindE_Inr_iff space_Nil_iff split: if_splits)
  with parser_sound(1)[of limits 0 s v rest] show "\<exists>tx w. s = tx @ w \<and> white w \<and> jsonText limits 0 tx v"
    by (auto simp: valueRead_def)
next
  assume "\<exists>tx w. s = tx @ w \<and> white w \<and> jsonText limits 0 tx v"
  then obtain tx w where tx: "s = tx @ w" "white w" "jsonText limits 0 tx v" by blast
  then have "noDigit w" using noDigit_white[of w "[]"] by simp
  with tx parser_complete(1)[OF tx(3)] show "parseSource limits s = Inr v"
    by (simp add: parseSource_def space_Nil_iff)
qed

section \<open>Sizes\<close>

lemma byteLength_Cons: "\<not> isHighSurrogate u \<Longrightarrow> byteLength (u # s) = (if u < 128 then 1 else if u < 2048 then 2 else 3) + byteLength s"
  by (cases s) auto

lemma ascii_no_surrogate [simp]: "u < 2048 \<Longrightarrow> \<not> isHighSurrogate u" "u < 2048 \<Longrightarrow> \<not> isLowSurrogate u"
  by (simp_all add: isHighSurrogate_def isLowSurrogate_def)

lemma byteLength_ascii: "list_all (\<lambda>u. u < 128) a \<Longrightarrow> byteLength (a @ s) = length a + byteLength s"
  by (induction a) (simp_all add: byteLength_Cons)

lemma byteLength_snoc: "u < 128 \<Longrightarrow> byteLength (s @ [u]) = byteLength s + 1"
  by (induction s rule: byteLength.induct) auto

lemma byteLength_subadd: "byteLength (u # s) \<le> (if u < 128 then 1 else if u < 2048 then 2 else 3) + byteLength s"
proof (cases s)
  case (Cons v t)
  have "isLowSurrogate v \<Longrightarrow> byteLength (v # t) = 3 + byteLength t"
    by (subst byteLength_Cons) (auto simp: isLowSurrogate_def isHighSurrogate_def)
  with Cons show ?thesis by (auto simp: isHighSurrogate_def)
qed simp

lemma of_char_bound [simp]: "256 \<le> n \<Longrightarrow> (of_char c :: nat) < n"
  by (rule less_le_trans[OF nat_of_char_less_256])

lemma units_no_surrogate [simp]: "\<not> isHighSurrogate (of_char c)" "\<not> isLowSurrogate (of_char c)" "isScalarUnit (of_char c)"
  using nat_of_char_less_256[of c] by (simp_all add: isScalarUnit_def isHighSurrogate_def isLowSurrogate_def del: of_char_bound, linarith+)

lemma byteLength_units: "byteLength (units s @ t) = length (utf8 s) + byteLength t"
  by (induction s) (auto simp: byteLength_Cons)

lemma encode_units: "encodeText (units s) = utf8 s"
  by (induction s) (auto simp: encode_scalar encodeUnit_def)

lemma wellFormed_units: "wellFormed (units s)"
  by (induction s) (simp_all add: wellFormed_scalar)

section \<open>Values the parser can return\<close>

text \<open>
  What a caller may rely on: a value with distinct member names, whole safe numbers, and within the limits,
  where the size of a string is that of its shortest literal.
\<close>

definition escapeUnit :: "nat \<Rightarrow> jstext" where
  "escapeUnit u = (if u < 256 then units (escapeChar (char_of u)) else [u])"

definition textFits :: "jsonLimits \<Rightarrow> jstext \<Rightarrow> bool" where
  "textFits limits t \<longleftrightarrow> byteLength (quoteUnit # concat (map escapeUnit t) @ [quoteUnit]) \<le> jlStringBytes limits + 2"

fun jsonTyped :: "jsonLimits \<Rightarrow> nat \<Rightarrow> jsonValue \<Rightarrow> bool" where
  "jsonTyped limits d WNull = True"
| "jsonTyped limits d (WBool b) = True"
| "jsonTyped limits d (WNum n) = isSafeInteger (JNum n)"
| "jsonTyped limits d (WText t) = textFits limits t"
| "jsonTyped limits d (WArray vs) = (d < jlDepth limits \<and> length vs \<le> jlArrayItems limits \<and>
     (\<forall>v\<in>set vs. jsonTyped limits (Suc d) v))"
| "jsonTyped limits d (WObject ms) = (d < jlDepth limits \<and> length ms \<le> jlMembers limits \<and>
     distinct (map fst ms) \<and> (\<forall>(k, v)\<in>set ms. textFits limits k \<and> jsonTyped limits (Suc d) v))"

lemma utf8_append [simp]: "utf8 (s @ t) = utf8 s @ utf8 t"
  by (induction s) simp_all

lemma escape_plain: "c \<noteq> quoteMark \<Longrightarrow> c \<noteq> backslash \<Longrightarrow> 32 \<le> (of_char c :: nat) \<Longrightarrow> escapeChar c = [c]"
  by (auto simp: escapeChar_def)

lemma escape_plain_unit:
  assumes "c \<noteq> quoteUnit" "c \<noteq> backslashUnit" "32 \<le> c" shows "escapeUnit c = [c]"
proof (cases "c < 256")
  case True
  define k where "k = (char_of c :: char)"
  then have k: "of_char k = c" using True by (simp add: of_char_of)
  then have "k \<noteq> quoteMark" "k \<noteq> backslash" "32 \<le> (of_char k :: nat)" using assms by (auto simp: quoteMark_def backslash_def)
  with escape_plain[of k] k True show ?thesis by (simp add: escapeUnit_def flip: k_def)
qed (simp add: escapeUnit_def)

lemma of_char_hexDigit: "d < 16 \<Longrightarrow> (of_char (hexDigit d) :: nat) < 128"
  by (auto simp: hexDigit_def of_char_of)

lemma length_escape: "length (utf8 (escapeChar c)) \<le> 6"
proof (cases "c \<in> {quoteMark, backslash, CHR 0x08, CHR 0x0C, CHR 0x0A, CHR 0x0D, CHR 0x09}")
  case True
  then show ?thesis by (elim insertE) (simp_all add: escapeChar_def quoteMark_def backslash_def)
next
  case False
  then show ?thesis
    using of_char_hexDigit[of "of_char c div 16"] of_char_hexDigit[of "of_char c mod 16"]
    by (simp add: escapeChar_def backslash_def)
qed

lemma escape_size: "byteLength (escapeUnit u @ s) \<le> 6 + byteLength s"
proof (cases "u < 256")
  case True
  then show ?thesis using length_escape[of "char_of u"] by (simp add: escapeUnit_def byteLength_units)
next
  case False
  then show ?thesis using byteLength_subadd[of u s] by (simp add: escapeUnit_def split: if_splits)
qed

lemma short_escapes:
  assumes "map_of shortEscapes d = Some e"
  shows "d < 128" "byteLength (escapeUnit e @ s) \<le> 2 + byteLength s"
proof -
  have "list_all (\<lambda>(d, e). d < 128 \<and> e < 256 \<and> length (utf8 (escapeChar (char_of e))) \<le> 2) shortEscapes" by code_simp
  then have "d < 128 \<and> e < 256 \<and> length (utf8 (escapeChar (char_of e))) \<le> 2"
    using map_of_SomeD[OF assms] by (auto simp: list_all_iff)
  then show "d < 128" "byteLength (escapeUnit e @ s) \<le> 2 + byteLength s"
    by (simp_all add: escapeUnit_def byteLength_units)
qed

lemma spells_shortest: "spells body t \<Longrightarrow> byteLength (concat (map escapeUnit t)) \<le> byteLength body"
proof (induction body arbitrary: t rule: length_induct)
  case (1 body)
  have IH: "byteLength (concat (map escapeUnit t')) \<le> byteLength s" if "length s < length body" "spells s t'" for s t'
    using 1 that by blast
  from "1.prems" show ?case
  proof (cases rule: spells.cases)
    case (spells_plain c s t')
    note e = escape_plain_unit[OF spells_plain(3-5)]
    show ?thesis
    proof (cases "isHighSurrogate c \<and> (\<exists>v s'. s = v # s' \<and> isLowSurrogate v)")
      case True
      then obtain v s' where v: "s = v # s'" "isHighSurrogate c" "isLowSurrogate v" by blast
      then have "v \<noteq> backslashUnit" by (auto simp: isLowSurrogate_def)
      with spells_plain(6) v(1) obtain t'' where t'': "t' = v # t''" "spells s' t''" "v \<noteq> quoteUnit" "32 \<le> v"
        by (auto elim: spells.cases)
      with IH[of s' t''] e spells_plain v \<open>v \<noteq> backslashUnit\<close> show ?thesis by (simp add: escape_plain_unit)
    next
      case False
      then have "byteLength (c # s) = (if c < 128 then 1 else if c < 2048 then 2 else 3) + byteLength s"
        by (cases s) auto
      with byteLength_subadd[of c "concat (map escapeUnit t')"] IH[of s t'] e spells_plain show ?thesis by auto
    qed
  next
    case (spells_short d e' s t')
    then have "byteLength body = 2 + byteLength s"
      using short_escapes(1)[of d] byteLength_ascii[of "[backslashUnit, d]" s] by simp
    with short_escapes(2)[OF spells_short(3), of "concat (map escapeUnit t')"] IH[of s t'] spells_short show ?thesis by simp
  next
    case (spells_unicode h1 h2 h3 h4 n s t')
    then have "list_all (\<lambda>u. u < 128) [backslashUnit, letterU, h1, h2, h3, h4]"
      by (auto simp: isHexUnit_def isDigitUnit_def)
    then have "byteLength body = 6 + byteLength s" using byteLength_ascii[of "[backslashUnit, letterU, h1, h2, h3, h4]" s] spells_unicode(1) by simp
    with escape_size[of n "concat (map escapeUnit t')"] IH[of s t'] spells_unicode show ?thesis by simp
  qed simp
qed

lemma quoted_length: "byteLength (quoteUnit # s @ [quoteUnit]) = byteLength s + 2"
  by (simp add: byteLength_Cons byteLength_snoc)

lemma string_fits: "jsonString limits lit t \<Longrightarrow> textFits limits t"
  unfolding jsonString_def textFits_def quoted_length
  by (elim exE conjE) (drule spells_shortest, simp add: quoted_length)

lemma grammar_typed:
  "jsonText limits d tx v \<Longrightarrow> jsonTyped limits d v"
  "jsonMembers limits d mx ms \<Longrightarrow> list_all (\<lambda>(k, v). textFits limits k \<and> jsonTyped limits d v) ms"
  "jsonItems limits d ix vs \<Longrightarrow> list_all (jsonTyped limits d) vs"
  by (induction rule: jsonText_jsonMembers_jsonItems.inducts)
    (auto simp: tokens_def list_all_iff string_fits simp del: isSafeInteger.simps)

section \<open>Values with the strings of the model\<close>

text \<open>The values of the other components that the parser can return, under the same bounds.\<close>

definition quoteFits :: "jsonLimits \<Rightarrow> string \<Rightarrow> bool" where
  "quoteFits limits s \<longleftrightarrow> length (utf8 (jsonQuote s)) \<le> jlStringBytes limits + 2"

function readable :: "jsonLimits \<Rightarrow> nat \<Rightarrow> jsval \<Rightarrow> bool" where
  "readable limits d JNull = True"
| "readable limits d (JBool b) = True"
| "readable limits d (JNum n) = isSafeInteger (JNum n)"
| "readable limits d (JStr s) = quoteFits limits s"
| "readable limits d (JArr sh xs) = (sh = Plain \<and> d < jlDepth limits \<and> length xs \<le> jlArrayItems limits \<and>
     (\<forall>x\<in>set xs. readable limits (Suc d) x))"
| "readable limits d (JObj sh r) = (sh = Plain \<and> d < jlDepth limits \<and> length r \<le> jlMembers limits \<and>
     distinct (map fst r) \<and> (\<forall>kv\<in>set r. quoteFits limits (fst kv) \<and> readable limits (Suc d) (snd kv)))"
| "readable limits d (JFrac t) = False"
| "readable limits d JUndef = False"
| "readable limits d JOther = False"
  by pat_completeness auto
termination
  by (relation "measure (\<lambda>(limits, d, v). size v)") (auto dest: size_elem_less size_snd_less)

lemma readable_isJson: "readable limits d v \<Longrightarrow> isJson v"
  by (induction limits d v rule: readable.induct) auto

fun widen :: "jsval \<Rightarrow> jsonValue" where
  "widen (JBool b) = WBool b"
| "widen (JNum n) = WNum n"
| "widen (JStr s) = WText (units s)"
| "widen (JArr sh xs) = WArray (map widen xs)"
| "widen (JObj sh r) = WObject (map (\<lambda>(k, v). (units k, widen v)) r)"
| "widen _ = WNull"

lemma allSome_Some: "allSome xs = Some ys \<longleftrightarrow> xs = map Some ys"
proof -
  have "None \<notin> set xs \<Longrightarrow> map Some (map the xs) = xs" by (induction xs) auto
  moreover have "the \<circ> Some = (\<lambda>x. x)" by auto
  ultimately show ?thesis by (auto simp: allSome_def)
qed

lemma narrowText_Some: "narrowText t = Some s \<longleftrightarrow> t = units s"
proof -
  have "list_all (\<lambda>u. u < 256) t \<Longrightarrow> units (chars t) = t" by (induction t) (auto simp: of_char_of)
  moreover have "list_all (\<lambda>u. u < 256) (units s)" by (induction s) simp_all
  ultimately show ?thesis unfolding narrowText_def by auto
qed

lemma narrowMember_Some:
  "(case kv of (k, v) \<Rightarrow> case (narrowText k, narrow v) of (Some s, Some x) \<Rightarrow> Some (s, x) | _ \<Rightarrow> None) = Some q \<longleftrightarrow>
   fst kv = units (fst q) \<and> narrow (snd kv) = Some (snd q)"
proof -
  obtain k v where kv: "kv = (k, v)" by (cases kv)
  obtain s x where q: "q = (s, x)" by (cases q)
  show ?thesis unfolding kv q narrowText_Some[symmetric] prod.sel
    by (cases "narrowText k"; cases "narrow v") auto
qed

lemma narrow_widen: "readable limits d v \<Longrightarrow> narrow (widen v) = Some v"
proof (induction limits d v rule: readable.induct)
  case (5 limits d sh xs)
  then have "map (narrow \<circ> widen) xs = map Some xs" by auto
  then show ?case using 5 by (simp add: allSome_Some)
next
  case (6 limits d sh r)
  then have "\<forall>kv\<in>set r. narrow (widen (snd kv)) = Some (snd kv)" by auto
  then have "map (\<lambda>(k, v). case (narrowText k, narrow v) of (Some s, Some x) \<Rightarrow> Some (s, x) | _ \<Rightarrow> None)
      (map (\<lambda>(k, v). (units k, widen v)) r) = map Some r"
    by (auto simp: narrowText_Some[THEN iffD2, OF refl])
  then have "allSome (map (\<lambda>(k, v). case (narrowText k, narrow v) of (Some s, Some x) \<Rightarrow> Some (s, x) | _ \<Rightarrow> None)
      (map (\<lambda>(k, v). (units k, widen v)) r)) = Some r"
    by (simp only: allSome_Some)
  then show ?case using 6 by (simp only: widen.simps narrow.simps) simp
qed (simp_all add: narrowText_Some)

lemma quote_units: "concat (map escapeUnit (units s)) = units (concat (map escapeChar s))"
  by (induction s) (simp_all add: escapeUnit_def)

lemma textFits_units: "textFits limits (units s) \<longleftrightarrow> quoteFits limits s"
proof -
  have "byteLength (concat (map escapeUnit (units s))) = length (utf8 (concat (map escapeChar s)))"
    using byteLength_units[of "concat (map escapeChar s)" "[]"] by (simp add: quote_units)
  then show ?thesis unfolding textFits_def quoted_length quoteFits_def jsonQuote_def by (simp add: quoteMark_def)
qed

lemma narrow_readable: "jsonTyped limits d w \<Longrightarrow> narrow w = Some v \<Longrightarrow> readable limits d v"
proof (induction limits d w arbitrary: v rule: jsonTyped.induct)
  case (4 limits d t)
  then show ?case by (auto simp: narrowText_Some textFits_units)
next
  case (5 limits d vs)
  then obtain xs where xs: "v = JArr Plain xs" "map narrow vs = map Some xs" by (auto simp: allSome_Some)
  have "readable limits (Suc d) x" if "x \<in> set xs" for x
  proof -
    from that xs(2) obtain w where "w \<in> set vs" "narrow w = Some x" by (metis ex_map_conv in_set_conv_nth length_map nth_map nth_mem)
    with 5 show ?thesis by auto
  qed
  moreover have "length xs = length vs" using xs(2) by (metis length_map)
  ultimately show ?case using 5 xs(1) by simp
next
  case (6 limits d ms)
  let ?f = "\<lambda>(k, v). case (narrowText k, narrow v) of (Some s, Some x) \<Rightarrow> Some (s, x) | _ \<Rightarrow> None"
  from 6 obtain r where r: "v = JObj Plain r" "map ?f ms = map Some r" by (auto simp: allSome_Some)
  have len: "length r = length ms" using r(2) by (metis length_map)
  have nth: "?f (ms ! i) = Some (r ! i)" if "i < length ms" for i
  proof -
    have "map ?f ms ! i = map Some r ! i" by (simp only: r(2))
    then show ?thesis by (simp only: nth_map that len)
  qed
  have k: "fst (ms ! i) = units (fst (r ! i)) \<and> narrow (snd (ms ! i)) = Some (snd (r ! i))" if "i < length ms" for i
    using nth[OF that] unfolding narrowMember_Some .
  have "map fst ms = map units (map fst r)" using k len by (intro nth_equalityI) simp_all
  moreover have "distinct (map fst ms)" using "6.prems"(1) by simp
  ultimately have "distinct (map fst r)" by (metis distinct_map)
  moreover have "quoteFits limits (fst kv) \<and> readable limits (Suc d) (snd kv)" if "kv \<in> set r" for kv
  proof -
    from that len obtain i where i: "i < length ms" "kv = r ! i" by (auto simp: in_set_conv_nth)
    obtain u w where m: "ms ! i = (u, w)" "(u, w) \<in> set ms" using i(1) by (cases "ms ! i") (metis nth_mem)
    with "6.prems"(1) have "textFits limits u" "jsonTyped limits (Suc d) w" by auto
    with k[OF i(1)] m i(2) "6.IH"[OF m(2) refl] show ?thesis by (auto simp: textFits_units)
  qed
  ultimately show ?case using 6 r(1) len by simp
qed auto

section \<open>The text that is written\<close>

lemma isHexUnit_hexDigit: "d < 16 \<Longrightarrow> isHexUnit (of_char (hexDigit d))"
  by (auto simp: isHexUnit_def isDigitUnit_def hexDigit_def of_char_of)

lemma hexUnitValue_hexDigit: "d < 16 \<Longrightarrow> hexUnitValue (of_char (hexDigit d)) = d"
  by (auto simp: hexUnitValue_def isDigitUnit_def hexDigit_def of_char_of)

lemma hex_zero [simp]: "isHexUnit zeroUnit" "hexUnitValue zeroUnit = 0"
  by code_simp+

lemma spells_unit: "spells s t \<Longrightarrow> spells (units (escapeChar c) @ s) (of_char c # t)"
proof (cases "\<exists>d. units (escapeChar c) = [backslashUnit, d] \<and> map_of shortEscapes d = Some (of_char c)")
  case True
  then show "spells s t \<Longrightarrow> ?thesis" by (auto intro: spells_short)
next
  case False
  then have "c \<noteq> quoteMark" "c \<noteq> backslash" and not_short: "c \<notin> {CHR 0x08, CHR 0x0C, CHR 0x0A, CHR 0x0D, CHR 0x09}"
    by (auto simp: escapeChar_def shortEscapes_def quoteMark_def backslash_def)
  moreover from this have "(of_char c :: nat) \<noteq> quoteUnit" "(of_char c :: nat) \<noteq> backslashUnit"
    using of_char_eq_iff[of c quoteMark, where ?'a = nat] of_char_eq_iff[of c backslash, where ?'a = nat]
    by (simp_all add: quoteMark_def backslash_def del: of_char_eq_iff)
  ultimately show "spells s t \<Longrightarrow> ?thesis"
    using spells_unicode[of zeroUnit zeroUnit "of_char (hexDigit (of_char c div 16))" "of_char (hexDigit (of_char c mod 16))" "of_char c" s t]
      nat_of_char_less_256[of c]
    by (auto simp: escapeChar_def backslash_def isHexUnit_hexDigit hexUnitValue_hexDigit div_less_iff_less_mult intro!: spells_plain)
qed

lemma spells_escaped: "spells (units (concat (map escapeChar s))) (units s)"
  by (induction s) (simp_all add: spells_Nil spells_unit)

lemma quote_string: "quoteFits limits s \<Longrightarrow> jsonString limits (units (jsonQuote s)) (units s)"
proof -
  assume f: "quoteFits limits s"
  have "byteLength (units (jsonQuote s)) = length (utf8 (jsonQuote s))"
    using byteLength_units[of "jsonQuote s" "[]"] by simp
  with f spells_escaped[of s] show ?thesis
    by (auto simp: quoteFits_def jsonString_def jsonQuote_def quoteMark_def)
qed

lemma white_Nil_rules:
  "(token, v) \<in> set tokens \<Longrightarrow> jsonText limits d token v"
  "isSafeInteger (JNum n) \<Longrightarrow> jsonText limits d (units (decInt n)) (WNum n)"
  "jsonString limits lit s \<Longrightarrow> jsonText limits d lit (WText s)"
  "d < jlDepth limits \<Longrightarrow> jsonText limits d [openBrace, closeBrace] (WObject [])"
  "d < jlDepth limits \<Longrightarrow> jsonText limits d [openBracket, closeBracket] (WArray [])"
  using text_token[of "[]"] text_number[of "[]"] text_string[of "[]"] text_empty_object[of "[]" "[]"] text_empty_array[of "[]" "[]"]
  by simp_all

lemma members_text:
  "ms \<noteq> [] \<Longrightarrow> list_all (\<lambda>kv. quoteFits limits (fst kv) \<and> jsonText limits d (units (f (snd kv))) (widen (snd kv))) ms \<Longrightarrow>
   jsonMembers limits d (units (joinComma (map (\<lambda>kv. jsonQuote (fst kv) @ CHR '':'' # f (snd kv)) ms))) (map (\<lambda>(k, v). (units k, widen v)) ms)"
proof (induction ms)
  case (Cons kv ms)
  then show ?case
    using members_last[of "[]" "[]" "[]" limits "units (jsonQuote (fst kv))" "units (fst kv)" d "units (f (snd kv))" "widen (snd kv)"]
      members_more[of "[]" "[]" "[]" limits "units (jsonQuote (fst kv))" "units (fst kv)" d "units (f (snd kv))" "widen (snd kv)"]
    by (cases kv) (simp add: joinComma_Cons quote_string)
qed simp

lemma items_text:
  "vs \<noteq> [] \<Longrightarrow> list_all (\<lambda>v. jsonText limits d (units (f v)) (widen v)) vs \<Longrightarrow> jsonItems limits d (units (joinComma (map f vs))) (map widen vs)"
proof (induction vs)
  case (Cons v vs)
  then show ?case
    using items_last[of "[]" limits d "units (f v)" "widen v"] items_more[of "[]" limits d "units (f v)" "widen v"]
    by (simp add: joinComma_Cons)
qed simp

lemma stringify_text: "readable limits d v \<Longrightarrow> jsonText limits d (units (stringify v)) (widen v)"
proof (induction limits d v rule: readable.induct)
  case (5 limits d sh xs)
  show ?case
  proof (cases "xs = []")
    case True
    with 5 show ?thesis by (simp add: white_Nil_rules)
  next
    case False
    with 5 have "jsonItems limits (Suc d) (units (joinComma (map stringify xs))) (map widen xs)"
      by (intro items_text) (auto simp: list_all_iff)
    with 5 text_array[of "[]"] show ?thesis by simp
  qed
next
  case (6 limits d sh r)
  show ?case
  proof (cases "r = []")
    case True
    with 6 show ?thesis by (simp add: white_Nil_rules)
  next
    case False
    with 6 have "jsonMembers limits (Suc d) (units (joinComma (map (\<lambda>kv. jsonQuote (fst kv) @ CHR '':'' # stringify (snd kv)) r)))
        (map (\<lambda>(k, v). (units k, widen v)) r)"
      by (intro members_text) (auto simp: list_all_iff)
    moreover have "map fst (map (\<lambda>(k, v). (units k, widen v)) r) = map units (map fst r)" by auto
    then have "distinct (map fst (map (\<lambda>(k, v). (units k, widen v)) r))" using 6 by (simp add: distinct_map inj_on_def)
    ultimately show ?thesis using 6 text_object[of "[]" _ _ _ "map (\<lambda>(k, v). (units k, widen v)) r"] by simp
  qed
qed (auto simp: tokens_def quote_string intro: white_Nil_rules)

lemma parseSource_written: "readable limits 0 v \<Longrightarrow> white w \<Longrightarrow> parseSource limits (units (stringify v) @ w) = Inr (widen v)"
  using stringify_text[of limits 0 v] by (auto simp: parseSource_grammar)

lemma div_64: "n < 256 \<Longrightarrow> n div 64 < (4::nat)"
  by auto

lemma utf8_bytes: "b \<in> set (utf8 s) \<Longrightarrow> b < 196"
proof (induction s)
  case (Cons c s)
  have "of_char c div 64 < (4::nat)" "of_char c mod 64 < (64::nat)" using div_64[of "of_char c"] by simp_all
  with Cons show ?case by (auto split: if_splits)
qed simp

lemma decodeSource_utf8: "decodeSource (utf8 s) = Inr (units s)"
proof -
  have "take 3 (utf8 s) \<noteq> [239, 187, 191]"
    using utf8_bytes[of 239 s] set_take_subset[of 3 "utf8 s"] by auto
  then show ?thesis by (simp add: decodeSource_Inr dropMark_def wellFormed_units encode_units)
qed

lemma parse_written:
  "readable limits 0 v \<Longrightarrow> white (units w) \<Longrightarrow> length (utf8 (stringify v @ w)) \<le> jlBytes limits \<Longrightarrow>
   parseNarrowJson (utf8 (stringify v @ w)) limits = Inr v"
  by (simp add: parseNarrowJson_def parseBoundedJson_def decodeSource_utf8 parseSource_written narrow_widen del: utf8_append)

lemma parseBoundedJson_Inr:
  "parseBoundedJson bytes limits = Inr v \<longleftrightarrow> length bytes \<le> jlBytes limits \<and>
     (\<exists>tx w. wellFormed (tx @ w) \<and> encodeText (tx @ w) = dropMark bytes \<and> white w \<and> jsonText limits 0 tx v)"
  by (auto simp: parseBoundedJson_def bindE_Inr_iff parseSource_grammar decodeSource_Inr)

lemma parsed_typed: "parseBoundedJson bytes limits = Inr v \<Longrightarrow> jsonTyped limits 0 v"
  using grammar_typed(1)[of limits 0] by (auto simp: parseBoundedJson_Inr)

lemma parseNarrowJson_Inr: "parseNarrowJson bytes limits = Inr v \<longleftrightarrow> (\<exists>w. parseBoundedJson bytes limits = Inr w \<and> narrow w = Some v)"
  by (auto simp: parseNarrowJson_def bindE_Inr_iff split: option.splits)

lemma parsed_readable: "parseNarrowJson bytes limits = Inr v \<Longrightarrow> readable limits 0 v"
  by (auto simp: parseNarrowJson_Inr intro: narrow_readable parsed_typed)

lemma parse_canonical:
  assumes "planJson v = Inr t" "readable limits 0 (sortKeys v)" "length (utf8 (t @ w)) \<le> jlBytes limits" "white (units w)"
  shows "parseNarrowJson (utf8 (t @ w)) limits = Inr (sortKeys v)"
  using assms parse_written[of limits "sortKeys v" w] planJson_stringify[of v t] by simp

section \<open>Properties\<close>

text \<open>C17. The parser accepts exactly the bytes within the limit that are, behind an optional byte order mark, the
  UTF-8 encoding of a text of the grammar, of whatever code units, and returns the value that the grammar gives
  the text: nothing is accepted beside the grammar, nothing of it is refused.\<close>

theorem parseBoundedJson_exact:
  "parseBoundedJson bytes limits = Inr v \<longleftrightarrow> length bytes \<le> jlBytes limits \<and>
     (\<exists>tx w. wellFormed (tx @ w) \<and> encodeText (tx @ w) = dropMark bytes \<and> white w \<and> jsonText limits 0 tx v)"
  by (rule parseBoundedJson_Inr)

text \<open>C21. What the parser returns, whatever code units its strings have, is a value of the declared type: member
  names are distinct, numbers are safe integers, and depth, members, items and strings are within the limits; a
  string takes no more bytes than its limit even when it is written back with every quote, backslash and control
  escaped.\<close>

theorem parseBoundedJson_typed:
  assumes "parseBoundedJson bytes limits = Inr v"
  shows "jsonTyped limits 0 v"
  using assms by (rule parsed_typed)

text \<open>A text with U+2019, an escaped lone surrogate and a pair.\<close>

definition sampleJson :: jstext where
  "sampleJson = units (''{ '' @ jsonQuote ''b'' @ '':[1,-20, true] ,'') @
     quoteUnit # 8217 # [backslashUnit] @ units ''ud83d'' @ quoteUnit # units '': '' @ [quoteUnit, 55357, 56832, quoteUnit] @ units ''}''"

definition sampleLimits :: jsonLimits where
  "sampleLimits = \<lparr>jlBytes = 60, jlDepth = 2, jlMembers = 2, jlArrayItems = 3, jlStringBytes = 9\<rparr>"

definition sampleJsonValue :: jsonValue where
  "sampleJsonValue = WObject [(units ''b'', WArray [WNum 1, WNum (-20), WBool True]), ([8217, 55357], WText [55357, 56832])]"

lemmas sample_evals = sampleJson_def jsonQuote_def escapeChar_def quoteMark_def backslash_def isHighSurrogate_def isLowSurrogate_def

lemma sampleJson_decoded: "decodeSource (encodeText sampleJson) = Inr sampleJson" "length (encodeText sampleJson) \<le> 60"
  unfolding decodeSource_Inr length_encode
  by (simp_all add: sample_evals dropMark_def encodeUnit_def wellFormed_scalar isScalarUnit_def encode_scalar)

lemma sampleJson_parsed: "parseBoundedJson (encodeText sampleJson) sampleLimits = Inr sampleJsonValue"
proof -
  have "parseSource sampleLimits sampleJson = Inr sampleJsonValue"
    by (simp add: sample_evals sampleLimits_def sampleJsonValue_def parseSource_def valueP.simps membersP.simps itemsP.simps space_def
        isJsonWhitespace_def tokens_def stringP_def numberP_def matchNumber_def isDigitUnit_def isHexUnit_def hexUnitValue_def shortEscapes_def
        undec_def digitVal_def of_char_of MAX_SAFE_INTEGER_def)
  then show ?thesis using sampleJson_decoded by (simp add: parseBoundedJson_def sampleLimits_def)
qed

theorem parseBoundedJson_typed_witness: "jsonTyped sampleLimits 0 sampleJsonValue"
  by (rule parseBoundedJson_typed[OF sampleJson_parsed])

end
