(* ===== verification/StrictJsonProps.thy ===== *)
theory StrictJsonProps
  imports StrictJson BoundedJsonProps
begin

text \<open>
  The readers of the planner's documents against its writer. A document is written as the canonical text of
  an object; \<open>quoteFields\<close> and the like are these objects. A reader accepts exactly the objects that a record
  of the declared form is written as, in any order of members, and returns that record.
\<close>

section \<open>Members of an object up to their order\<close>

text \<open>The members of a record with its keys sorted at every depth.\<close>

definition sortMembers :: "jsrecord \<Rightarrow> jsrecord" where
  "sortMembers r = map (\<lambda>kv. (fst kv, sortKeys (snd kv))) (toSorted (compareKey fst) r)"

lemma sortKeys_object [simp]: "sortKeys (JObj sh r) = JObj Plain (sortMembers r)"
  by (simp add: sortMembers_def)

declare sortKeys.simps(2) [simp del]

lemma sortKeys_leaf [simp]:
  "sortKeys v = JStr s \<longleftrightarrow> v = JStr s" "sortKeys v = JNum n \<longleftrightarrow> v = JNum n" "sortKeys v = JBool b \<longleftrightarrow> v = JBool b"
  "sortKeys v = JUndef \<longleftrightarrow> v = JUndef"
  by (cases v; simp)+

lemma sortKeys_sym [simp]:
  "JStr s = sortKeys v \<longleftrightarrow> v = JStr s" "JNum n = sortKeys v \<longleftrightarrow> v = JNum n" "JBool b = sortKeys v \<longleftrightarrow> v = JBool b"
  using sortKeys_leaf by metis+

lemma map_of_perm:
  assumes "mset r = mset s" "distinct (map fst r)"
  shows "map_of r = map_of s"
proof
  fix k
  have "distinct (map fst s)" using assms by (metis mset_eq_imp_distinct_iff mset_map)
  moreover have "set r = set s" using assms(1) by (metis set_mset_mset)
  ultimately have "map_of r k = Some v \<longleftrightarrow> map_of s k = Some v" for v
    using assms(2) by (simp add: map_of_eq_Some_iff)
  then show "map_of r k = map_of s k" by (metis not_Some_eq)
qed

lemma map_of_sortMembers:
  assumes "distinct (map fst r)"
  shows "map_of (sortMembers r) k = map_option sortKeys (map_of r k)"
proof -
  have "map_of (toSorted (compareKey fst) r) = map_of r"
    using assms by (intro map_of_perm) (simp_all add: map_toSorted_compareKey)
  moreover have "map_of (map (\<lambda>kv. (fst kv, sortKeys (snd kv))) q) k = map_option sortKeys (map_of q k)" for q
    by (induction q) auto
  ultimately show ?thesis by (simp add: sortMembers_def)
qed

lemma getP_sortMembers: "distinct (map fst r) \<Longrightarrow> getP (sortMembers r) k = sortKeys (getP r k)"
  by (simp add: getP_def map_of_sortMembers split: option.split)

lemma keys_sortMembers: "map fst (sortMembers r) = sortText (map fst r)"
  by (simp add: sortMembers_def comp_def map_toSorted_compareKey)

lemma sortMembers_idem_keys: "sortText (map fst (sortMembers r)) = sortText (map fst r)"
  by (simp add: keys_sortMembers sortText_eq_iff)

lemma record_lookup: "distinct (map fst r) \<Longrightarrow> map (\<lambda>k. (k, the (map_of r k))) (map fst r) = r"
  unfolding map_map by (rule map_idI) auto

lemma sortMembers_eq:
  assumes "distinct (map fst r)" "mset (map fst r) = mset (map fst s)"
    and "\<And>k. k \<in> set (map fst s) \<Longrightarrow> sortKeys (getP r k) = sortKeys (getP s k)"
  shows "sortMembers r = sortMembers s"
proof -
  have s: "distinct (map fst s)" using assms(1,2) by (metis mset_eq_imp_distinct_iff)
  have keys: "map fst (sortMembers r) = map fst (sortMembers s)"
    using assms(2) by (simp add: keys_sortMembers sortText_eq_iff)
  have "map_of (sortMembers r) = map_of (sortMembers s)"
  proof
    fix k
    show "map_of (sortMembers r) k = map_of (sortMembers s) k"
    proof (cases "k \<in> set (map fst s)")
      case True
      then have "k \<in> set (map fst r)" using assms(2) by (metis set_mset_mset)
      then obtain v w where "map_of r k = Some v" "map_of s k = Some w"
        using True by (metis map_of_eq_None_iff image_set not_None_eq)
      with assms(3)[OF True] assms(1) s show ?thesis by (simp add: map_of_sortMembers getP_def)
    next
      case False
      then have "k \<notin> set (map fst r)" using assms(2) by (metis set_mset_mset)
      with False have "map_of r k = None" "map_of s k = None" by (simp_all add: map_of_eq_None_iff)
      with assms(1) s show ?thesis by (simp add: map_of_sortMembers)
    qed
  qed
  moreover have "distinct (map fst (sortMembers s))" using s by (simp add: keys_sortMembers)
  ultimately show ?thesis using keys record_lookup by metis
qed

text \<open>What equal sorted members say.\<close>

lemma sortMembers_same:
  assumes "sortMembers r = sortMembers s" "distinct (map fst r)" "distinct (map fst s)"
  shows "mset (map fst r) = mset (map fst s)" "sortKeys (getP r k) = sortKeys (getP s k)"
proof -
  show "mset (map fst r) = mset (map fst s)"
    using assms(1) keys_sortMembers sortText_eq_iff by metis
  show "sortKeys (getP r k) = sortKeys (getP s k)"
    using assms getP_sortMembers by metis
qed

lemma sortMembers_iff:
  assumes "distinct (map fst r)" "distinct (map fst s)"
  shows "sortMembers r = sortMembers s \<longleftrightarrow>
    mset (map fst r) = mset (map fst s) \<and> list_all (\<lambda>(k, v). sortKeys (getP r k) = sortKeys v) s"
proof -
  have "getP s k = v" if "(k, v) \<in> set s" for k v
    using that assms(2) by (simp add: getP_def map_of_eq_Some_iff[THEN iffD2])
  then have "list_all (\<lambda>(k, v). sortKeys (getP r k) = sortKeys v) s \<longleftrightarrow>
      (\<forall>k\<in>set (map fst s). sortKeys (getP r k) = sortKeys (getP s k))"
    by (auto simp: list_all_iff)
  then show ?thesis
    using sortMembers_eq[OF assms(1), of s] sortMembers_same[OF _ assms] by blast
qed

section \<open>Checks as predicates\<close>

definition isUint :: "string \<Rightarrow> bool" where
  "isUint s \<longleftrightarrow> (\<exists>n. uintText s n)"

text \<open>A member with a text that satisfies a predicate.\<close>

definition hasText :: "(string \<Rightarrow> bool) \<Rightarrow> jsrecord \<Rightarrow> string \<Rightarrow> bool" where
  "hasText P r k \<longleftrightarrow> getP r k = JStr (textOf r k) \<and> P (textOf r k)"

named_theorems reads

lemma exactMembers_Inr [reads]: "exactMembers r keys failure = Inr u \<longleftrightarrow> mset (map fst r) = mset keys"
  by (simp add: exactMembers_def sortText_eq_iff)

lemma requireV2_Inr [reads]: "requireV2 r = Inr u \<longleftrightarrow> getP r ''schemaVersion'' \<noteq> JNum 1"
  by (simp add: requireV2_def)

lemma constantMembers_Inr [reads]: "constantMembers r expected failure = Inr u \<longleftrightarrow> list_all (\<lambda>(k, v). getP r k = v) expected"
  by (auto simp: constantMembers_def eachE_Inr_iff list_all_iff)

lemma matchMember_Inr: "matchMember v P failure = Inr u \<longleftrightarrow> (\<exists>s. v = JStr s \<and> P s)"
  by (auto simp: matchMember_def split: jsval.splits)

lemma text_member: "(\<exists>s. getP r k = JStr s \<and> P s) \<longleftrightarrow> hasText P r k"
  by (auto simp: hasText_def textOf_def)

lemma matchText [reads]: "matchMember (getP r k) P failure = Inr u \<longleftrightarrow> hasText P r k"
  by (simp add: matchMember_Inr text_member)

lemma hashMembers_Inr [reads]: "hashMembers r keys = Inr u \<longleftrightarrow> list_all (hasText (matchesHex 64) r) keys"
  by (simp add: hashMembers_def eachE_Inr_iff matchText list_all_iff)

lemma textMembers_Inr [reads]: "textMembers r keys = Inr u \<longleftrightarrow> list_all (hasText (\<lambda>s. s \<noteq> []) r) keys"
proof -
  have "nonEmptyText (getP r k) \<longleftrightarrow> hasText (\<lambda>s. s \<noteq> []) r k" for k
    by (auto simp: nonEmptyText_def hasText_def textOf_def split: jsval.splits)
  then show ?thesis by (simp add: textMembers_def eachE_Inr_iff list_all_iff)
qed

lemma decimal_Inr [reads]: "decimalMember (getP r k) failure = Inr u \<longleftrightarrow> hasText isUint r k"
proof -
  have "decimalMember v failure = Inr u \<longleftrightarrow> (\<exists>s. v = JStr s \<and> isUint s)" for v
    by (auto simp: decimalMember_def bindE_Inr_iff matchMember_Inr parseUint_text isUint_def simp del: parseUint.simps)
      (auto simp: uintText_def)
  then show ?thesis by (simp add: text_member)
qed

lemma decimalMembers_Inr [reads]: "decimalMembers r keys = Inr u \<longleftrightarrow> list_all (hasText isUint r) keys"
  by (simp add: decimalMembers_def eachE_Inr_iff decimal_Inr list_all_iff)

section \<open>Quotes\<close>

text \<open>The object that a record is written as.\<close>

definition observationFields :: "quoteObservation \<Rightarrow> jsrecord" where
  "observationFields o' = [(''chainId'', JStr (qoChainId o')), (''blockNumber'', JStr (qoBlockNumber o')),
     (''blockHash'', JStr (qoBlockHash o')), (''blockTimestamp'', JStr (qoBlockTimestamp o')),
     (''currentHeadNumber'', JStr (qoCurrentHeadNumber o')), (''currentHeadHash'', JStr (qoCurrentHeadHash o')),
     (''feeHistoryNewestBlock'', JStr (qoFeeHistoryNewestBlock o')), (''senderNonce'', JStr (qoSenderNonce o')),
     (''expectedCreateAddress'', JStr (qoExpectedCreateAddress o')), (''gasEstimate'', JStr (qoGasEstimate o')),
     (''blockGasLimit'', JStr (qoBlockGasLimit o')), (''baseFeePerGas'', JStr (qoBaseFeePerGas o')),
     (''maxPriorityFeePerGas'', JStr (qoMaxPriorityFeePerGas o')), (''maxFeePerGas'', JStr (qoMaxFeePerGas o')),
     (''observedAt'', JStr (qoObservedAt o'))]"

definition quoteFields :: "feeQuote \<Rightarrow> jsrecord" where
  "quoteFields q = [(''schemaVersion'', JNum 2), (''kind'', JStr ''fee-quote''), (''planId'', JStr (fqPlanId q)),
     (''creationInputHash'', JStr (fqCreationInputHash q)), (''observation'', JObj Plain (observationFields (fqObservation q))),
     (''bufferBps'', JStr (fqBufferBps q)), (''gasLimit'', JStr (fqGasLimit q)),
     (''effectiveFeePerGas'', JStr (fqEffectiveFeePerGas q)), (''estimatedWei'', JStr (fqEstimatedWei q)),
     (''worstCaseWei'', JStr (fqWorstCaseWei q)), (''expiresAt'', JStr (fqExpiresAt q))]"

definition observationFormed :: "quoteObservation \<Rightarrow> bool" where
  "observationFormed o' \<longleftrightarrow> list_all isUint [qoChainId o', qoBlockNumber o', qoBlockTimestamp o', qoCurrentHeadNumber o',
     qoFeeHistoryNewestBlock o', qoSenderNonce o', qoGasEstimate o', qoBlockGasLimit o', qoBaseFeePerGas o',
     qoMaxPriorityFeePerGas o', qoMaxFeePerGas o', qoObservedAt o'] \<and>
     list_all (matchesHex 64) [qoBlockHash o', qoCurrentHeadHash o'] \<and> matchesHex 40 (qoExpectedCreateAddress o')"

definition quoteFormed :: "feeQuote \<Rightarrow> bool" where
  "quoteFormed q \<longleftrightarrow> list_all (matchesHex 64) [fqPlanId q, fqCreationInputHash q] \<and>
     list_all isUint [fqBufferBps q, fqGasLimit q, fqEffectiveFeePerGas q, fqEstimatedWei q, fqWorstCaseWei q, fqExpiresAt q] \<and>
     observationFormed (fqObservation q)"

lemma observation_keys: "map fst (observationFields o') = OBSERVATION_KEYS" "distinct OBSERVATION_KEYS"
  by (simp_all add: observationFields_def OBSERVATION_KEYS_def)

lemma quote_keys: "map fst (quoteFields q) = QUOTE_KEYS" "distinct QUOTE_KEYS"
  by (simp_all add: quoteFields_def QUOTE_KEYS_def)

text \<open>
  A reader and a writer of records: the reader accepts objects with the members of a formed record, in any
  order, and reads that record.
\<close>

lemma textOf_cong: "getP r k = JStr s \<Longrightarrow> textOf r k = s"
  by (simp add: textOf_def)

lemma objectOr_JObj [reads]: "objectOr failure (JObj sh r) = Inr s \<longleftrightarrow> s = r"
  by auto

lemmas steps = Let_def bindE_Inr_iff reads sum.inject ex_simps simp_thms

lemma readObservation_steps:
  "readObservation (JObj sh r) = Inr o' \<longleftrightarrow> mset (map fst r) = mset OBSERVATION_KEYS \<and>
     list_all (hasText isUint r) [''chainId'', ''blockNumber'', ''blockTimestamp'', ''currentHeadNumber'', ''feeHistoryNewestBlock'',
        ''senderNonce'', ''gasEstimate'', ''blockGasLimit'', ''baseFeePerGas'', ''maxPriorityFeePerGas'', ''maxFeePerGas'', ''observedAt''] \<and>
     list_all (hasText (matchesHex 64) r) [''blockHash'', ''currentHeadHash''] \<and>
     hasText (matchesHex 40) r ''expectedCreateAddress'' \<and> o' = observationOf r"
  by (simp only: readObservation_def steps eq_commute[of o'])

lemma members_leaf:
  "sortKeys (getP r k) = sortKeys (JStr s) \<longleftrightarrow> getP r k = JStr s"
  "sortKeys (getP r k) = sortKeys (JNum n) \<longleftrightarrow> getP r k = JNum n"
  "sortKeys (getP r k) = sortKeys (JBool b) \<longleftrightarrow> getP r k = JBool b"
  by simp_all

lemmas fields = list.pred_inject case_prod_conv members_leaf

lemma readObservation_Inr:
  assumes "distinct (map fst r)"
  shows "readObservation (JObj sh r) = Inr o' \<longleftrightarrow> observationFormed o' \<and> sortMembers r = sortMembers (observationFields o')"
proof -
  have d: "distinct (map fst (observationFields o'))" by (simp only: observation_keys)
  note iff = sortMembers_iff[OF assms d, unfolded observation_keys]
  show ?thesis
  proof
    assume "readObservation (JObj sh r) = Inr o'"
    note m = this[unfolded readObservation_steps hasText_def fields]
    then show "observationFormed o' \<and> sortMembers r = sortMembers (observationFields o')"
      unfolding iff unfolding observationFormed_def observationFields_def fields
      by (simp only: observationOf_def quoteObservation.select_convs simp_thms list.pred_inject(1))
  next
    assume "observationFormed o' \<and> sortMembers r = sortMembers (observationFields o')"
    note f = this[unfolded iff, unfolded observationFormed_def observationFields_def fields]
    have "observationOf r = o'" using f by (simp add: observationOf_def textOf_def)
    with f show "readObservation (JObj sh r) = Inr o'"
      unfolding readObservation_steps hasText_def fields by (simp add: textOf_def)
  qed
qed

lemma distinct_getP: "distinctKeys (JObj sh r) \<Longrightarrow> getP r k = JObj sh' s \<Longrightarrow> distinct (map fst s)"
  by (auto simp: getP_def dest!: map_of_SomeD split: option.splits)

lemma readFeeQuote_steps:
  "readFeeQuote (JObj sh r) = Inr q \<longleftrightarrow> getP r ''schemaVersion'' \<noteq> JNum 1 \<and> mset (map fst r) = mset QUOTE_KEYS \<and>
     list_all (\<lambda>(k, v). getP r k = v) [(''schemaVersion'', JNum 2), (''kind'', JStr ''fee-quote'')] \<and>
     list_all (hasText (matchesHex 64) r) [''planId'', ''creationInputHash''] \<and>
     list_all (hasText isUint r) [''bufferBps'', ''gasLimit'', ''effectiveFeePerGas'', ''estimatedWei'', ''worstCaseWei'', ''expiresAt''] \<and>
     (\<exists>observation. readObservation (getP r ''observation'') = Inr observation \<and>
        \<lparr>fqPlanId = textOf r ''planId'', fqCreationInputHash = textOf r ''creationInputHash'', fqObservation = observation,
          fqBufferBps = textOf r ''bufferBps'', fqGasLimit = textOf r ''gasLimit'',
          fqEffectiveFeePerGas = textOf r ''effectiveFeePerGas'', fqEstimatedWei = textOf r ''estimatedWei'',
          fqWorstCaseWei = textOf r ''worstCaseWei'', fqExpiresAt = textOf r ''expiresAt''\<rparr> = q)"
  by (simp only: readFeeQuote_def steps)

lemma readObservation_object: "readObservation v = Inr o' \<Longrightarrow> \<exists>sh s. v = JObj sh s"
  by (auto simp: readObservation_def Let_def bindE_Inr_iff)

lemma readFeeQuote_Inr:
  assumes "distinctKeys (JObj sh r)"
  shows "readFeeQuote (JObj sh r) = Inr q \<longleftrightarrow> quoteFormed q \<and> sortMembers r = sortMembers (quoteFields q)"
proof -
  have d: "distinct (map fst r)" "distinct (map fst (quoteFields q))"
    using assms by (simp_all only: distinctKeys.simps quote_keys)
  note iff = sortMembers_iff[OF d, unfolded quote_keys]
  have obs: "readObservation (getP r ''observation'') = Inr o' \<longleftrightarrow>
      observationFormed o' \<and> sortKeys (getP r ''observation'') = sortKeys (JObj Plain (observationFields o'))" for o'
  proof (cases "\<exists>sh' s. getP r ''observation'' = JObj sh' s")
    case True
    then obtain sh' s where s: "getP r ''observation'' = JObj sh' s" by blast
    with distinct_getP[OF assms s] show ?thesis by (simp add: readObservation_Inr)
  next
    case False
    moreover have "sortKeys v \<noteq> JObj Plain s" if "\<nexists>sh' s. v = JObj sh' s" for v s using that by (cases v) auto
    ultimately show ?thesis
      using readObservation_object[of "getP r ''observation''" o'] unfolding sortKeys_object by blast
  qed
  show ?thesis
  proof
    assume "readFeeQuote (JObj sh r) = Inr q"
    note m = this[unfolded readFeeQuote_steps hasText_def fields obs]
    then show "quoteFormed q \<and> sortMembers r = sortMembers (quoteFields q)"
      unfolding iff unfolding quoteFormed_def quoteFields_def fields
      by (elim conjE exE, hypsubst) (simp (no_asm) only: feeQuote.select_convs simp_thms list.pred_inject(1))
  next
    assume "quoteFormed q \<and> sortMembers r = sortMembers (quoteFields q)"
    note f = this[unfolded iff, unfolded quoteFormed_def quoteFields_def fields]
    then have "readObservation (getP r ''observation'') = Inr (fqObservation q)" unfolding obs by blast
    with f show "readFeeQuote (JObj sh r) = Inr q"
      unfolding readFeeQuote_steps hasText_def fields by (simp add: textOf_def)
  qed
qed

section \<open>Plans\<close>

definition planFields :: "stablePlan \<Rightarrow> jsrecord" where
  "planFields p = [(''schemaVersion'', JNum (spSchemaVersion p)), (''kind'', JStr (spKind p)), (''planId'', JStr (spPlanId p)),
     (''identity'', JObj Plain (spIdentity p)), (''broadcastAllowed'', JBool (spBroadcastAllowed p)), (''testOnly'', JBool (spTestOnly p)),
     (''productionApproved'', JBool (spProductionApproved p)), (''mainnetAllowed'', JBool (spMainnetAllowed p))]"

text \<open>The cap policy and the source digests of an identity, for any order of their members.\<close>

definition capFormed :: "jsval \<Rightarrow> bool" where
  "capFormed v \<longleftrightarrow> (\<exists>sh r. v = JObj sh r \<and> mset (map fst r) = mset [''maximumWorstCaseWei'', ''testOnly''] \<and>
     hasText isUint r ''maximumWorstCaseWei'' \<and> getP r ''testOnly'' = JBool True)"

definition digestsFormed :: "jsval \<Rightarrow> bool" where
  "digestsFormed v \<longleftrightarrow> (\<exists>sh r. v = JObj sh r \<and> list_all (\<lambda>(k, d). k \<noteq> [] \<and> (\<exists>s. d = JStr s \<and> matchesHex 64 s)) r)"

definition identityFormed :: "jsrecord \<Rightarrow> bool" where
  "identityFormed r \<longleftrightarrow> mset (map fst r) = mset IDENTITY_KEYS \<and>
     list_all (hasText (\<lambda>s. s \<noteq> []) r) [''contractFqn'', ''buildProfile'', ''buildInfoSolcVersion'', ''chainId'', ''value''] \<and>
     list_all (hasText (matchesHex 64) r) [''rawBuildInfoSha256'', ''canonicalBuildInfoSha256'', ''compilerInputSha256'', ''artifactSha256'',
        ''abiSha256'', ''fixtureSha256'', ''fixtureReadySha256'', ''creationBytecodeHash'', ''constructorAbiHash'',
        ''constructorArgumentsHash'', ''creationInputHash''] \<and>
     list_all (hasText isHexText r) [''constructorAbiBytes'', ''constructorArguments'', ''creationInput''] \<and>
     hasText (matchesHex 40) r ''from'' \<and> getP r ''broadcastAllowed'' = JBool False \<and>
     (\<exists>sh s. getP r ''compilerSettings'' = JObj sh s) \<and> digestsFormed (getP r ''sourceDependencyClosure'') \<and>
     capFormed (getP r ''capPolicy'')"

lemma capFormed_iff: "readCapPolicy v = Inr u \<longleftrightarrow> capFormed v"
  by (auto simp: readCapPolicy_def capFormed_def Let_def bindE_Inr_iff reads)

lemma digestsFormed_iff: "hashMap v failure = Inr u \<longleftrightarrow> digestsFormed v"
  by (auto simp: hashMap_def digestsFormed_def bindE_Inr_iff eachE_Inr_iff matchMember_Inr list_all_iff case_prod_unfold)

lemma readPlanIdentity_Inr: "readPlanIdentity (JObj sh r) = Inr i \<longleftrightarrow> identityFormed r \<and> i = r"
  unfolding identityFormed_def list.pred_inject
  by (simp only: readPlanIdentity_def steps failIf_Inr_iff not_not objectOr_Inr digestsFormed_iff capFormed_iff list.pred_inject eq_commute[of i])
    blast

definition planFormed :: "stablePlan \<Rightarrow> bool" where
  "planFormed p \<longleftrightarrow> spSchemaVersion p = 2 \<and> spKind p = ''deployment-plan'' \<and> \<not> spBroadcastAllowed p \<and> spTestOnly p \<and>
     \<not> spProductionApproved p \<and> \<not> spMainnetAllowed p \<and> matchesHex 64 (spPlanId p) \<and> identityFormed (spIdentity p)"

lemma plan_keys: "map fst (planFields p) = PLAN_KEYS" "distinct PLAN_KEYS"
  by (simp_all add: planFields_def PLAN_KEYS_def)

lemma readPlanIdentity_object: "readPlanIdentity v = Inr i \<longleftrightarrow> (\<exists>sh. v = JObj sh i) \<and> identityFormed i"
  using readPlanIdentity_Inr by (cases v) (auto simp: readPlanIdentity_def Let_def bindE_Inr_iff)

lemma readStablePlan_steps:
  "readStablePlan (JObj sh r) = Inr p \<longleftrightarrow> getP r ''schemaVersion'' \<noteq> JNum 1 \<and> mset (map fst r) = mset PLAN_KEYS \<and>
     list_all (\<lambda>(k, v). getP r k = v) [(''schemaVersion'', JNum 2), (''kind'', JStr ''deployment-plan''), (''broadcastAllowed'', JBool False),
        (''testOnly'', JBool True), (''productionApproved'', JBool False), (''mainnetAllowed'', JBool False)] \<and>
     hasText (matchesHex 64) r ''planId'' \<and>
     (\<exists>i. ((\<exists>sh'. getP r ''identity'' = JObj sh' i) \<and> identityFormed i) \<and>
        \<lparr>spSchemaVersion = 2, spKind = ''deployment-plan'', spPlanId = textOf r ''planId'', spIdentity = i,
          spBroadcastAllowed = False, spTestOnly = True, spProductionApproved = False, spMainnetAllowed = False\<rparr> = p)"
  by (simp only: readStablePlan_def steps readPlanIdentity_object)

lemma readStablePlan_Inr:
  assumes "distinct (map fst r)"
  shows "readStablePlan (JObj sh r) = Inr p \<longleftrightarrow> planFormed p \<and> sortMembers r = sortMembers (planFields p) \<and>
    (\<exists>sh'. getP r ''identity'' = JObj sh' (spIdentity p))"
proof -
  have d: "distinct (map fst (planFields p))" by (simp only: plan_keys)
  note iff = sortMembers_iff[OF assms d, unfolded plan_keys]
  show ?thesis
  proof
    assume "readStablePlan (JObj sh r) = Inr p"
    note m = this[unfolded readStablePlan_steps hasText_def fields]
    then show "planFormed p \<and> sortMembers r = sortMembers (planFields p) \<and> (\<exists>sh'. getP r ''identity'' = JObj sh' (spIdentity p))"
      unfolding iff unfolding planFormed_def planFields_def fields by auto
  next
    assume f: "planFormed p \<and> sortMembers r = sortMembers (planFields p) \<and> (\<exists>sh'. getP r ''identity'' = JObj sh' (spIdentity p))"
    note f = this[unfolded iff, unfolded planFormed_def planFields_def fields]
    then show "readStablePlan (JObj sh r) = Inr p"
      unfolding readStablePlan_steps hasText_def fields by (auto simp: textOf_def)
  qed
qed

section \<open>Reading what was written\<close>

lemma sortKeys_idem [simp]: "sortKeys (sortKeys v) = sortKeys v"
proof (induction v rule: sortKeys.induct)
  case (2 sh r)
  let ?q = "map (\<lambda>kv. (fst kv, sortKeys (snd kv))) (toSorted (compareKey fst) r)"
  have "sorted_wrt (below (compareKey fst)) (toSorted (compareKey fst) r)" by (rule key_order.sorted_toSorted)
  moreover have "below (compareKey f) = (\<lambda>x y. f x \<le> f y)" for f :: "string \<times> jsval \<Rightarrow> string" by (intro ext) simp
  ultimately have "sorted_wrt (below (compareKey fst)) ?q" by (simp add: sorted_wrt_map)
  then have "toSorted (compareKey fst) ?q = ?q" by (rule key_order.toSorted_sorted)
  with 2 show ?case by (simp add: sortMembers_def)
qed simp_all

lemma sortMembers_idem [simp]: "sortMembers (sortMembers r) = sortMembers r"
  using sortKeys_idem[of "JObj Plain r"] by simp

lemma distinct_sortMembers [simp]: "distinct (map fst (sortMembers r)) \<longleftrightarrow> distinct (map fst r)"
  by (simp only: keys_sortMembers distinct_toSorted)

lemma distinctKeys_sortKeys: "distinctKeys v \<Longrightarrow> distinctKeys (sortKeys v)"
proof (induction v rule: sortKeys.induct)
  case (2 sh r)
  then show ?case by (auto simp: sortMembers_def comp_def map_toSorted_compareKey)
qed simp_all

lemma hasText_sortMembers [simp]: "distinct (map fst r) \<Longrightarrow> hasText P (sortMembers r) k \<longleftrightarrow> hasText P r k"
  unfolding text_member[symmetric] by (simp add: getP_sortMembers)

lemma digestsFormed_sorted: "digestsFormed v \<Longrightarrow> digestsFormed (sortKeys v)"
  by (fastforce simp: digestsFormed_def sortMembers_def list_all_iff)

lemma mset_sortMembers [simp]: "mset (map fst (sortMembers r)) = mset (map fst r)"
  by (simp only: keys_sortMembers mset_toSorted)

lemma capFormed_sorted: "distinctKeys v \<Longrightarrow> capFormed v \<Longrightarrow> capFormed (sortKeys v)"
  by (auto simp: capFormed_def getP_sortMembers simp del: mset_map)

lemma identityFormed_sorted:
  assumes "distinctKeys (JObj sh r)" "identityFormed r"
  shows "identityFormed (sortMembers r)"
proof -
  have d: "distinct (map fst r)" using assms(1) by simp
  have "distinctKeys (getP r k)" for k
    using assms(1) by (auto simp: getP_def dest!: map_of_SomeD split: option.split)
  with assms(2) d show ?thesis
    unfolding identityFormed_def
    by (auto simp: getP_sortMembers digestsFormed_sorted capFormed_sorted simp del: mset_map)
qed

text \<open>\<open>jsonBytes\<close> of \<open>composition/index.ts\<close>: the bytes of a document.\<close>

definition jsonBytes :: "jsval \<Rightarrow> js_error + nat list" where
  "jsonBytes v = bindE (planJson v) (\<lambda>json. Inr (utf8 (json @ [CHR 0x0A])))"

lemma isJson_distinctKeys: "isJson v \<Longrightarrow> distinctKeys v"
  by (induction v rule: isJson.induct) auto

lemma readable_sorted: "readable limits d v \<Longrightarrow> readable limits d (sortKeys v)"
proof (induction limits d v rule: readable.induct)
  case (6 limits d sh r)
  then show ?case by (auto simp: sortMembers_def comp_def map_toSorted_compareKey)
qed auto

lemma written_read:
  assumes "jsonBytes v = Inr bytes" "readable limits 0 v" "length bytes \<le> jlBytes limits"
  shows "parseNarrowJson bytes limits = Inr (sortKeys v)"
proof -
  from assms(1) obtain t where t: "planJson v = Inr t" "bytes = utf8 (t @ [CHR 0x0A])"
    by (auto simp: jsonBytes_def bindE_Inr_iff)
  have "white (units [CHR 0x0A])" by simp
  with t assms(2,3) show ?thesis by (simp add: parse_canonical readable_sorted del: utf8_append white_simps)
qed

text \<open>A bound on the bytes of a text, the same for every order of members.\<close>

function bytesBound :: "jsval \<Rightarrow> nat" where
  "bytesBound (JObj sh r) = 2 + sum_list (map (\<lambda>kv. length (utf8 (jsonQuote (fst kv))) + 2 + bytesBound (snd kv)) r)"
| "bytesBound (JArr sh xs) = 2 + sum_list (map (\<lambda>x. 1 + bytesBound x) xs)"
| "bytesBound JNull = length (utf8 (stringify JNull))"
| "bytesBound (JBool b) = length (utf8 (stringify (JBool b)))"
| "bytesBound (JNum n) = length (utf8 (stringify (JNum n)))"
| "bytesBound (JFrac t) = length (utf8 (stringify (JFrac t)))"
| "bytesBound (JStr s) = length (utf8 (stringify (JStr s)))"
| "bytesBound JUndef = length (utf8 (stringify JUndef))"
| "bytesBound JOther = length (utf8 (stringify JOther))"
  by pat_completeness auto
termination
  by (relation "measure size") (auto dest: size_elem_less size_snd_less)

lemma utf8_Cons_ascii: "of_char c < (128::nat) \<Longrightarrow> utf8 (c # s) = of_char c # utf8 s"
  by simp

lemma length_joinComma: "length (utf8 (joinComma ts)) \<le> sum_list (map (\<lambda>t. 1 + length (utf8 t)) ts)"
  by (induction ts rule: joinComma.induct) auto

lemma stringify_bound: "length (utf8 (stringify v)) \<le> bytesBound v"
proof (induction v rule: bytesBound.induct)
  case (1 sh r)
  let ?f = "\<lambda>kv. jsonQuote (fst kv) @ CHR '':'' # stringify (snd kv)"
  have "sum_list (map (\<lambda>t. 1 + length (utf8 t)) (map ?f r))
      \<le> sum_list (map (\<lambda>kv. length (utf8 (jsonQuote (fst kv))) + 2 + bytesBound (snd kv)) r)"
    unfolding map_map by (rule sum_list_mono) (use 1 in auto)
  with length_joinComma[of "map ?f r"] show ?case by simp
next
  case (2 sh xs)
  have "sum_list (map (\<lambda>t. 1 + length (utf8 t)) (map stringify xs)) \<le> sum_list (map (\<lambda>x. 1 + bytesBound x) xs)"
    unfolding map_map by (rule sum_list_mono) (use 2 in auto)
  with length_joinComma[of "map stringify xs"] show ?case by simp
qed simp_all

lemma sum_list_toSorted: "sum_list (map f (toSorted cmp xs)) = (sum_list (map f xs) :: nat)"
  by (metis mset_map mset_toSorted sum_mset_sum_list)

lemma bytesBound_sorted: "bytesBound (sortKeys v) = bytesBound v"
proof (induction v rule: bytesBound.induct)
  case (1 sh r)
  then show ?case by (simp add: sortMembers_def comp_def sum_list_toSorted cong: map_cong)
next
  case (2 sh xs)
  then show ?case by (simp add: comp_def cong: map_cong)
qed simp_all

lemma jsonBytes_bound: "jsonBytes v = Inr bytes \<Longrightarrow> length bytes \<le> Suc (bytesBound v)"
  using stringify_bound[of "sortKeys v"]
  by (auto simp: jsonBytes_def bindE_Inr_iff bytesBound_sorted dest!: planJson_stringify)

text \<open>Texts of letters and digits need no escape.\<close>

definition plainText :: "string \<Rightarrow> bool" where
  "plainText s \<longleftrightarrow> list_all (\<lambda>c. c \<noteq> quoteMark \<and> c \<noteq> backslash \<and> 32 \<le> (of_char c :: nat) \<and> (of_char c :: nat) < 128) s"

lemma plain_escape: "plainText s \<Longrightarrow> concat (map escapeChar s) = s \<and> length (utf8 s) = length s"
  by (induction s) (auto simp: plainText_def escape_plain)

lemma plain_length: "plainText s \<Longrightarrow> length (utf8 (jsonQuote s)) = length s + 2"
  using plain_escape[of s] by (simp add: jsonQuote_def quoteMark_def)

lemma hexLower_plain: "isHexLower c \<Longrightarrow> c \<noteq> quoteMark \<and> c \<noteq> backslash \<and> 32 \<le> (of_char c :: nat) \<and> (of_char c :: nat) < 128"
  by (auto simp: isHexLower_def isDigit_def less_eq_char_def quoteMark_def backslash_def)

lemma hex_plainText: "matchesHex n s \<Longrightarrow> plainText s"
proof -
  assume h: "matchesHex n s"
  then have eq: "s = ''0x'' @ drop 2 s" by (metis append_take_drop_id matchesHex_def)
  have "plainText (''0x'' @ drop 2 s)"
    using h by (auto simp: matchesHex_def plainText_def list_all_iff hexLower_plain) (simp_all add: quoteMark_def backslash_def)
  then show ?thesis by (subst eq)
qed

lemma uint_plainText: "isUint s \<Longrightarrow> plainText s \<and> length s \<le> 78"
proof -
  assume "isUint s"
  then obtain n where n: "parseUint (JStr s) True = Inr n" by (auto simp: isUint_def parseUint_text)
  then have "canonicalDec s" "length s \<le> 78" unfolding parseUint.simps by (auto simp: failPlan_def Let_def split: if_splits)
  then have "list_all isDigit s" by (metis dec_digits dec_undec)
  then have "plainText s" by (auto simp: plainText_def list_all_iff isHexLower_def hexLower_plain)
  with \<open>length s \<le> 78\<close> show ?thesis by blast
qed

lemma short_texts:
  "isUint s \<Longrightarrow> length (utf8 (jsonQuote s)) \<le> 80"
  "matchesHex n s \<Longrightarrow> length (utf8 (jsonQuote s)) = n + 4"
  using uint_plainText[of s] hex_plainText[of n s] by (auto simp: plain_length matchesHex_def)

lemma texts_bound:
  "80 \<le> m \<Longrightarrow> isUint s \<Longrightarrow> length (utf8 (jsonQuote s)) \<le> m"
  "80 \<le> m \<Longrightarrow> matchesHex 64 s \<Longrightarrow> length (utf8 (jsonQuote s)) \<le> m"
  "80 \<le> m \<Longrightarrow> matchesHex 40 s \<Longrightarrow> length (utf8 (jsonQuote s)) \<le> m"
  using short_texts(1)[of s] short_texts(2)[of 64 s] short_texts(2)[of 40 s] by auto

lemma short_fits:
  "isUint s \<Longrightarrow> quoteFits POLICY_JSON_LIMITS s" "matchesHex 64 s \<Longrightarrow> quoteFits POLICY_JSON_LIMITS s"
  "matchesHex 40 s \<Longrightarrow> quoteFits POLICY_JSON_LIMITS s"
  using short_texts(1)[of s] short_texts(2)[of 64 s] short_texts(2)[of 40 s] by (auto simp: quoteFits_def POLICY_JSON_LIMITS_def)

lemma plain_fits: "plainText s \<Longrightarrow> length s \<le> 16384 \<Longrightarrow> quoteFits POLICY_JSON_LIMITS s"
  by (simp add: quoteFits_def POLICY_JSON_LIMITS_def plain_length)

definition shortKeys :: "string list \<Rightarrow> bool" where
  "shortKeys ks \<longleftrightarrow> list_all (\<lambda>k. plainText k \<and> length k \<le> 32) ks"

lemma document_keys: "shortKeys OBSERVATION_KEYS" "shortKeys QUOTE_KEYS" "shortKeys READY_KEYS"
  by code_simp+

lemma object_readable:
  assumes "shortKeys (map fst r)" "distinct (map fst r)" "length r \<le> 256" "d < 32"
    "list_all (\<lambda>(k, v). readable POLICY_JSON_LIMITS (Suc d) v) r"
  shows "readable POLICY_JSON_LIMITS d (JObj Plain r)"
proof -
  have "quoteFits POLICY_JSON_LIMITS k" if "k \<in> set (map fst r)" for k
    using assms(1) that by (intro plain_fits) (force simp: shortKeys_def list_all_iff)+
  with assms(2-5) show ?thesis
    by (auto simp: POLICY_JSON_LIMITS_def list_all_iff)
qed

lemma object_bound:
  assumes "shortKeys (map fst r)" "list_all (\<lambda>(k, v). bytesBound v \<le> n) r"
  shows "bytesBound (JObj Plain r) \<le> 2 + length r * (36 + n)"
proof -
  have "length (utf8 (jsonQuote (fst kv))) + 2 + bytesBound (snd kv) \<le> 36 + n" if "kv \<in> set r" for kv
    using assms that by (auto simp: shortKeys_def list_all_iff plain_length dest!: bspec[where x = kv])
  then have "sum_list (map (\<lambda>kv. length (utf8 (jsonQuote (fst kv))) + 2 + bytesBound (snd kv)) r) \<le> sum_list (map (\<lambda>_. 36 + n) r)"
    by (intro sum_list_mono)
  then show ?thesis by (simp add: sum_list_triv)
qed

lemma observation_written:
  assumes "observationFormed o'"
  shows "readable POLICY_JSON_LIMITS (Suc 0) (JObj Plain (observationFields o'))"
    and "bytesBound (JObj Plain (observationFields o')) \<le> 1800"
proof -
  note f = assms[unfolded observationFormed_def list.pred_inject]
  have l: "length (observationFields o') = 15" by (simp add: observationFields_def)
  have "list_all (\<lambda>(k, v). readable POLICY_JSON_LIMITS (Suc (Suc 0)) v) (observationFields o')"
    using f by (simp add: observationFields_def short_fits)
  then show "readable POLICY_JSON_LIMITS (Suc 0) (JObj Plain (observationFields o'))"
    using document_keys(1) observation_keys(1)[of o'] observation_keys(2) l by (intro object_readable) simp_all
  have "list_all (\<lambda>(k, v). bytesBound v \<le> 80) (observationFields o')"
    using f by (simp add: observationFields_def texts_bound)
  from object_bound[OF _ this] show "bytesBound (JObj Plain (observationFields o')) \<le> 1800"
    using document_keys(1) observation_keys(1)[of o'] observation_keys(2) l by simp
qed

lemma quote_written:
  assumes "quoteFormed q"
  shows "readable POLICY_JSON_LIMITS 0 (JObj Plain (quoteFields q))"
    and "bytesBound (JObj Plain (quoteFields q)) \<le> 21000"
proof -
  note f = assms[unfolded quoteFormed_def list.pred_inject]
  note o' = observation_written[of "fqObservation q"]
  have l: "length (quoteFields q) = 11" by (simp add: quoteFields_def)
  have "list_all (\<lambda>(k, v). readable POLICY_JSON_LIMITS (Suc 0) v) (quoteFields q)"
    using f o'(1) by (simp add: quoteFields_def short_fits plain_fits MAX_SAFE_INTEGER_def plainText_def quoteMark_def backslash_def
        del: readable.simps(6))
  then show "readable POLICY_JSON_LIMITS 0 (JObj Plain (quoteFields q))"
    using document_keys(2) quote_keys(1)[of q] quote_keys(2) l by (intro object_readable) simp_all
  have "list_all (\<lambda>(k, v). bytesBound v \<le> 1800) (quoteFields q)"
    using f o'(2)
    by (simp add: quoteFields_def dec_eval texts_bound plain_length plainText_def quoteMark_def backslash_def del: bytesBound.simps(1))
  from object_bound[OF _ this] show "bytesBound (JObj Plain (quoteFields q)) \<le> 21000"
    using document_keys(2) quote_keys(1)[of q] quote_keys(2) l by simp
qed

lemma planJson_total: "readable limits d v \<Longrightarrow> planJson v = Inr (stringify (sortKeys v))"
proof -
  have "readable limits d v \<Longrightarrow> \<exists>t. planJson v = Inr t"
  proof (induction limits d v rule: readable.induct)
    case (5 limits d sh xs)
    then have "\<forall>x\<in>set xs. \<exists>t. planJson x = Inr t" by auto
    then obtain f where "\<forall>x\<in>set xs. planJson x = Inr (f x)" by metis
    then have "mapE planJson xs = Inr (map f xs)" by (simp add: res_simps list_all2_conv_all_nth)
    then show ?case by (simp add: planJson.simps(6))
  next
    case (6 limits d sh r)
    then have "\<forall>kv\<in>set r. \<exists>t. planJson (snd kv) = Inr t" by auto
    then obtain f where f: "\<forall>kv\<in>set r. planJson (snd kv) = Inr (f kv)" by metis
    let ?g = "\<lambda>kv. bindE (planJson (snd kv)) (\<lambda>t. Inr (jsonQuote (fst kv) @ CHR '':'' # t))"
    let ?r = "toSorted compareEntries r"
    have "mapE ?g ?r = Inr (map (\<lambda>kv. jsonQuote (fst kv) @ CHR '':'' # f kv) ?r)"
      using f by (auto simp: res_simps list.rel_map intro!: list.rel_refl_strong)
    then show ?case by (simp add: planJson.simps(7))
  qed auto
  then show "readable limits d v \<Longrightarrow> ?thesis" using planJson_stringify by blast
qed

text \<open>A document is written, and a reader of records that accepts its object reads it back.\<close>

lemma document_read:
  assumes "readable POLICY_JSON_LIMITS 0 v" "bytesBound v < 65536"
  obtains bytes where "jsonBytes v = Inr bytes" "parseJsonWithoutDuplicates bytes = Inr (sortKeys v)"
proof -
  have w: "jsonBytes v = Inr (utf8 (stringify (sortKeys v) @ [CHR 0x0A]))"
    using planJson_total[OF assms(1)] by (simp add: jsonBytes_def)
  moreover have "length (utf8 (stringify (sortKeys v) @ [CHR 0x0A])) \<le> jlBytes POLICY_JSON_LIMITS"
    using jsonBytes_bound[OF w] assms(2) by (simp add: POLICY_JSON_LIMITS_def)
  ultimately have "parseJsonWithoutDuplicates (utf8 (stringify (sortKeys v) @ [CHR 0x0A])) = Inr (sortKeys v)"
    unfolding parseJsonWithoutDuplicates_def by (intro written_read[OF _ assms(1)])
  with w that show ?thesis by blast
qed

lemma parsed_distinct: "parseJsonWithoutDuplicates bytes = Inr v \<Longrightarrow> distinctKeys v"
  unfolding parseJsonWithoutDuplicates_def using isJson_distinctKeys readable_isJson parsed_readable by blast

lemma sortKeys_object_iff: "sortKeys v = JObj Plain s \<longleftrightarrow> (\<exists>sh r. v = JObj sh r \<and> sortMembers r = s)"
  by (cases v) auto

lemma readFeeQuote_value:
  assumes "distinctKeys v"
  shows "readFeeQuote v = Inr q \<longleftrightarrow> quoteFormed q \<and> sortKeys v = sortKeys (JObj Plain (quoteFields q))"
proof (cases "\<exists>sh r. v = JObj sh r")
  case True
  with assms show ?thesis by (auto simp: readFeeQuote_Inr simp del: distinctKeys.simps)
next
  case False
  then have "readFeeQuote v \<noteq> Inr q" by (auto simp: readFeeQuote_def Let_def bindE_Inr_iff)
  with False show ?thesis by (simp add: sortKeys_object_iff)
qed

lemma parseFeeQuote_Inr:
  "parseFeeQuote bytes = Inr q \<longleftrightarrow> quoteFormed q \<and>
     (\<exists>v. parseJsonWithoutDuplicates bytes = Inr v \<and> sortKeys v = sortKeys (JObj Plain (quoteFields q)))"
  using readFeeQuote_value parsed_distinct unfolding parseFeeQuote_def bindE_Inr_iff by blast

lemma quote_read:
  assumes "quoteFormed q"
  obtains bytes where "jsonBytes (JObj Plain (quoteFields q)) = Inr bytes" "parseFeeQuote bytes = Inr q"
proof -
  have "bytesBound (JObj Plain (quoteFields q)) < 65536" using quote_written(2)[OF assms] by simp
  then obtain bytes where b: "jsonBytes (JObj Plain (quoteFields q)) = Inr bytes"
      "parseJsonWithoutDuplicates bytes = Inr (sortKeys (JObj Plain (quoteFields q)))"
    using document_read[OF quote_written(1)[OF assms]] by blast
  then have "parseFeeQuote bytes = Inr q"
    unfolding parseFeeQuote_Inr using assms sortKeys_idem by blast
  with b(1) that show ?thesis by blast
qed

lemma readStablePlan_value:
  assumes "distinctKeys v"
  shows "readStablePlan v = Inr p \<longleftrightarrow> planFormed p \<and> sortKeys v = sortKeys (JObj Plain (planFields p)) \<and>
    (\<exists>sh. getP (theObj v) ''identity'' = JObj sh (spIdentity p))"
proof (cases "\<exists>sh r. v = JObj sh r")
  case True
  with assms show ?thesis by (auto simp: readStablePlan_Inr)
next
  case False
  then have "readStablePlan v \<noteq> Inr p" by (auto simp: readStablePlan_def Let_def bindE_Inr_iff)
  with False show ?thesis by (simp add: sortKeys_object_iff)
qed

lemma parseStablePlan_Inr:
  "parseStablePlan bytes = Inr p \<longleftrightarrow> planFormed p \<and>
     (\<exists>v sh. parseJsonWithoutDuplicates bytes = Inr v \<and> sortKeys v = sortKeys (JObj Plain (planFields p)) \<and>
        getP (theObj v) ''identity'' = JObj sh (spIdentity p))"
  using readStablePlan_value parsed_distinct unfolding parseStablePlan_def bindE_Inr_iff by blast

lemma plan_read:
  assumes "planFormed p" "readable POLICY_JSON_LIMITS 0 (JObj Plain (planFields p))" "bytesBound (JObj Plain (planFields p)) < 65536"
  obtains bytes where "jsonBytes (JObj Plain (planFields p)) = Inr bytes"
    "parseStablePlan bytes = Inr (p\<lparr>spIdentity := sortMembers (spIdentity p)\<rparr>)"
proof -
  let ?v = "JObj Plain (planFields p)" and ?p = "p\<lparr>spIdentity := sortMembers (spIdentity p)\<rparr>"
  obtain bytes where b: "jsonBytes ?v = Inr bytes" "parseJsonWithoutDuplicates bytes = Inr (sortKeys ?v)"
    using document_read[OF assms(2,3)] by blast
  have d: "distinctKeys ?v" using assms(2) by (intro isJson_distinctKeys readable_isJson)
  have i: "getP (planFields p) ''identity'' = JObj Plain (spIdentity p)" by (simp add: planFields_def getP_Cons)
  have k: "distinct (map fst (planFields p))" by (simp only: plan_keys)
  have "distinctKeys (JObj Plain (spIdentity p))"
    using d i by (auto simp: planFields_def)
  with assms(1) have "planFormed ?p" using identityFormed_sorted by (auto simp: planFormed_def)
  moreover have "sortKeys (JObj Plain (planFields ?p)) = sortKeys ?v"
    unfolding sortKeys_object jsval.inject
    by (intro conjI refl sortMembers_eq) (simp_all add: planFields_def getP_Cons)
  ultimately have "parseStablePlan bytes = Inr ?p"
    unfolding parseStablePlan_Inr using b(2) i k by (auto simp: getP_sortMembers)
  with b(1) that show ?thesis by blast
qed

section \<open>Properties\<close>

text \<open>C19. The reader of fee quotes accepts exactly the JSON texts of well-formed quotes: every digest and
  every canonical decimal of the 256-bit range in its place, no member missing and none added, in any order; and
  the quote it returns is the one whose object it read.\<close>

theorem parseFeeQuote_exact:
  "parseFeeQuote bytes = Inr q \<longleftrightarrow> quoteFormed q \<and>
     (\<exists>v. parseJsonWithoutDuplicates bytes = Inr v \<and> sortKeys v = sortKeys (JObj Plain (quoteFields q)))"
  by (rule parseFeeQuote_Inr)

text \<open>C18. The reader of plans returns a plan exactly on the JSON texts of well-formed plans, none of which allows a
  broadcast, production or mainnet, and it is the plan whose object was read, its identity in the order of the
  text. The strings of a plan \<open>p\<close> have code units below 256, and so have those of its document: the free texts of a
  plan - contract name, build profile, compiler version and settings, closure - may have others, and of the
  plans that the code returns for such documents this says nothing.\<close>

theorem parseStablePlan_exact:
  "parseStablePlan bytes = Inr p \<longleftrightarrow> planFormed p \<and>
     (\<exists>w v sh. parseBoundedJson bytes POLICY_JSON_LIMITS = Inr w \<and> narrow w = Some v \<and>
        sortKeys v = sortKeys (JObj Plain (planFields p)) \<and> getP (theObj v) ''identity'' = JObj sh (spIdentity p))"
  unfolding parseStablePlan_Inr parseJsonWithoutDuplicates_def parseNarrowJson_Inr by blast

text \<open>C20. A well-formed quote survives the file: its document can be written, is within every limit of the
  parser, and is read back as the same quote.\<close>

theorem quote_survives:
  assumes "quoteFormed q"
  shows "\<exists>bytes. jsonBytes (JObj Plain (quoteFields q)) = Inr bytes \<and> parseFeeQuote bytes = Inr q"
  using quote_read[OF assms] by blast

lemma isUint_decInt: "0 \<le> n \<Longrightarrow> n \<le> PLAN_UINT256_MAX \<Longrightarrow> isUint (decInt n)"
  by (auto simp: isUint_def uintText_def)

lemma sample_uints: "list_all isUint [''31337'', ''0'', ''1'', ''2'', ''3'', ''5'', ''6'', ''7'', ''8'', ''9'', ''15'', ''17'', ''30'']"
proof -
  have "list_all (\<lambda>n. isUint (decInt n)) [31337, 0, 1, 2, 3, 5, 6, 7, 8, 9, 15, 17, 30]"
    by (simp add: isUint_decInt PLAN_UINT256_MAX_def)
  then show ?thesis by (simp add: dec_eval)
qed

definition formedQuote :: feeQuote where
  "formedQuote = sampleQuote (''0x'' @ replicate 40 (CHR ''b''))"

lemma formedQuote_formed: "quoteFormed formedQuote"
proof -
  have "matchesHex 64 sampleHash" "matchesHex 40 (''0x'' @ replicate 40 (CHR ''b''))" by code_simp+
  with sample_uints show ?thesis
    by (simp add: quoteFormed_def observationFormed_def formedQuote_def sampleQuote_def sampleObservation_def LOCAL_CHAIN_ID_def)
qed

theorem quote_survives_witness:
  "\<exists>bytes. jsonBytes (JObj Plain (quoteFields formedQuote)) = Inr bytes \<and> parseFeeQuote bytes = Inr formedQuote"
  by (rule quote_survives[OF formedQuote_formed])

end
