(* ===== verification/ForgeArtifact.thy ===== *)
theory ForgeArtifact
  imports StrictJsonProps
begin

text \<open>
  The planner's own reading of the raw inputs (\<open>tooling/deployment-plan/src/adapters/artifact.ts\<close>). The
  helpers below \<open>validateInputDigests\<close> are, word for word, those of \<open>application/raw-artifact-verifier.ts\<close>
  (theory \<open>RawArtifact\<close>); what differs is how the inputs are parsed, whose failures get one code per input,
  and that constructor values may be given beside the fixture.
\<close>

text \<open>\<open>constructorValues\<close> is \<open>unknown\<close>.\<close>

record artifactInputs = rawArtifactInputs +
  aiConstructorValues :: jsval

definition parseForgeJson :: "nat list \<Rightarrow> string \<Rightarrow> jsonLimits \<Rightarrow> js_error + jsval" where
  "parseForgeJson bytes failure limits =
     (case parseNarrowJson bytes limits of Inl _ \<Rightarrow> failPlan (failure @ ''_INVALID'') | Inr v \<Rightarrow> Inr v)"

definition parseForgeObject :: "nat list \<Rightarrow> string \<Rightarrow> jsonLimits \<Rightarrow> js_error + jsrecord" where
  "parseForgeObject bytes failure limits =
     bindE (parseForgeJson bytes failure limits) (\<lambda>v. objectOr (failure @ ''_INVALID'') v)"

definition parseForgeArray :: "nat list \<Rightarrow> string \<Rightarrow> jsonLimits \<Rightarrow> js_error + jsval list" where
  "parseForgeArray bytes failure limits =
     bindE (parseForgeJson bytes failure limits) (\<lambda>v. arrayOr (failure @ ''_INVALID'') v)"

definition parseForgeInputs :: "(nat list \<Rightarrow> string) \<Rightarrow> 'a rawArtifactInputs_scheme \<Rightarrow> js_error + parsedInputs" where
  "parseForgeInputs sha256 inputs =
    bindE (parseForgeObject (raiBuildInfo inputs) ''BUILD_INFO'' FORGE_BUILD_INFO_JSON_LIMITS) (\<lambda>build.
    bindE (parseForgeObject (raiArtifact inputs) ''ARTIFACT'' FORGE_ARTIFACT_JSON_LIMITS) (\<lambda>artifact.
    bindE (parseForgeArray (raiAbi inputs) ''ABI'' FORGE_ARTIFACT_JSON_LIMITS) (\<lambda>abi.
    bindE (parseForgeObject (raiFixture inputs) ''FIXTURE'' POLICY_JSON_LIMITS) (\<lambda>fixture.
    bindE (canonicalBuildInfoSha256 sha256 build) (\<lambda>canonical.
    Inr \<lparr>piBuild = build, piArtifact = artifact, piAbi = abi, piFixture = fixture,
      piArtifactSha256 = sha256Hex sha256 (raiArtifact inputs), piAbiSha256 = sha256Hex sha256 (raiAbi inputs),
      piFixtureSha256 = sha256Hex sha256 (raiFixture inputs), piRawBuildInfoSha256 = sha256Hex sha256 (raiBuildInfo inputs),
      piCanonicalBuildInfoSha256 = canonical\<rparr>)))))"

text \<open>\<open>parseConstructor(inputs.constructorValues ?? parsed.fixture)\<close>\<close>

definition forgeConstructor :: "artifactInputs \<Rightarrow> parsedInputs \<Rightarrow> js_error + constructorValues" where
  "forgeConstructor inputs parsed =
    bindE (objectOr ''CONSTRUCTOR_INVALID'' (nullishOr (aiConstructorValues inputs) (JObj Plain (piFixture parsed)))) parseConstructor"

definition approveForgeArtifact :: "(nat list \<Rightarrow> string) \<Rightarrow> artifactInputs \<Rightarrow> trustRoots \<Rightarrow> js_error + approvedArtifact" where
  "approveForgeArtifact sha256 inputs roots =
    bindE (parseForgeInputs sha256 inputs) (\<lambda>parsed.
    bindE (validateInputDigests parsed roots) (\<lambda>_.
    bindE (validateBuildInfoCompiler (piBuild parsed) roots) (\<lambda>_.
    bindE (readBuildContract sha256 (piBuild parsed) roots) (\<lambda>contract.
    bindE (validateAbis (bcOutputContract contract) (piArtifact parsed) (piAbi parsed)) (\<lambda>_.
    bindE (findConstructor (piAbi parsed)) (\<lambda>ctor.
    bindE (readCreationBytecode (bcOutputContract contract) (piArtifact parsed)) (\<lambda>creationBytecode.
    bindE (forgeConstructor inputs parsed) (\<lambda>vals.
    bindE (encodeConstructor vals) (\<lambda>constructorArguments.
    bindE (planJson (JObj Plain ctor)) (\<lambda>ctorJson.
    let creationInput = creationBytecode @ drop 2 constructorArguments;
        constructorAbiBytes = utf8Hex ctorJson;
        approved = \<lparr>aaRawBuildInfoSha256 = piRawBuildInfoSha256 parsed,
          aaCanonicalBuildInfoSha256 = piCanonicalBuildInfoSha256 parsed,
          aaArtifactSha256 = piArtifactSha256 parsed,
          aaAbiSha256 = piAbiSha256 parsed,
          aaFixtureSha256 = piFixtureSha256 parsed,
          aaSourceDependencyClosure = bcSourceClosure contract,
          aaBuildInfoSolcVersion = trBuildInfoSolcVersion roots,
          aaCompilerInputSha256 = bcCompilerInputSha256 contract,
          aaCompilerSettings = bcNormalizedSettings contract,
          aaCreationBytecode = creationBytecode,
          aaCreationBytecodeHash = hashHex sha256 creationBytecode,
          aaConstructorAbiBytes = constructorAbiBytes,
          aaConstructorAbiHash = hashHex sha256 constructorAbiBytes,
          aaConstructorArguments = constructorArguments,
          aaConstructorArgumentsHash = hashHex sha256 constructorArguments,
          aaCreationInput = creationInput,
          aaCreationInputHash = hashHex sha256 creationInput\<rparr>
    in if aaConstructorArgumentsHash approved \<noteq> trConstructorArgumentsHash roots
         \<or> aaCreationInputHash approved \<noteq> trCreationInputHash roots
       then failPlan ''GOLDEN_INPUT_MISMATCH'' else Inr approved))))))))))"

section \<open>The two readings agree\<close>

text \<open>The inputs as the planner composes them (\<open>composition/index.ts\<close>): the constructor values are the parsed fixture.\<close>

definition plannerInputs :: "artifactInputs \<Rightarrow> bool" where
  "plannerInputs inputs \<longleftrightarrow> parseJsonWithoutDuplicates (raiFixture inputs) = Inr (aiConstructorValues inputs)"

lemma parseForgeObject_Inr:
  "parseForgeObject bytes failure limits = Inr r \<longleftrightarrow> (\<exists>v. parseNarrowJson bytes limits = Inr v \<and> asRecord v = Some r)"
  by (auto simp: parseForgeObject_def parseForgeJson_def objectOr_def failPlan_def bindE_Inr_iff split: sum.splits option.splits)

lemma parseForgeArray_Inr:
  "parseForgeArray bytes failure limits = Inr xs \<longleftrightarrow> (\<exists>v. parseNarrowJson bytes limits = Inr v \<and> arrayOr failure v = Inr xs)"
  by (auto simp: parseForgeArray_def parseForgeJson_def arrayOr_def failPlan_def bindE_Inr_iff split: sum.splits jsval.splits)

lemma objectOr_Inr': "objectOr failure v = Inr r \<longleftrightarrow> asRecord v = Some r"
  by (auto simp: objectOr_def failPlan_def split: option.splits)

lemma arrayOr_Inr: "arrayOr failure v = Inr xs \<longleftrightarrow> (\<exists>sh. v = JArr sh xs)"
  by (auto simp: arrayOr_def failPlan_def split: jsval.splits)

lemma inputs_agree:
  "parseForgeInputs sha256 inputs = Inr parsed \<longleftrightarrow>
   parseArtifactInputs sha256 parseRawArtifactJson (rawArtifactInputs.truncate inputs) = Inr parsed"
  unfolding parseForgeInputs_def parseArtifactInputs_def bindE_Inr_iff parseForgeObject_Inr parseForgeArray_Inr objectOr_Inr' arrayOr_Inr
  by (auto simp: parseRawArtifactJson_def rawArtifactInputs.defs)

lemma asRecord_nullish: "asRecord v = Some r \<Longrightarrow> nullishOr v w = v"
  by (cases v) (auto simp: nullishOr_def)

lemma constructor_agrees:
  assumes "plannerInputs inputs" "parseForgeInputs sha256 inputs = Inr parsed"
  shows "forgeConstructor inputs parsed = parseConstructor (piFixture parsed)"
proof -
  obtain v where v: "parseNarrowJson (raiFixture inputs) POLICY_JSON_LIMITS = Inr v" "asRecord v = Some (piFixture parsed)"
    using assms(2) unfolding parseForgeInputs_def bindE_Inr_iff parseForgeObject_Inr by auto
  then have "aiConstructorValues inputs = v" using assms(1) by (simp add: plannerInputs_def parseJsonWithoutDuplicates_def)
  with v(2) show ?thesis by (simp add: forgeConstructor_def asRecord_nullish[OF v(2)] objectOr_def del: asRecord_Some_iff)
qed

text \<open>
  The two readings of the raw inputs agree: for inputs as the planner composes them, its own reading
  approves an artifact exactly when the independent verification approves it, and it is the same artifact -
  although the one maps every parse failure to a code of the input and reads the constructor values
  from a separate argument.
\<close>

lemma approvals_agree:
  assumes "plannerInputs inputs"
  shows "approveForgeArtifact sha256 inputs roots = Inr a \<longleftrightarrow>
    independentlyApproveRawArtifact sha256 parseRawArtifactJson (rawArtifactInputs.truncate inputs) roots = Inr a"
proof -
  have c: "(\<exists>parsed. parseForgeInputs sha256 inputs = Inr parsed \<and> P parsed (forgeConstructor inputs parsed)) \<longleftrightarrow>
      (\<exists>parsed. parseArtifactInputs sha256 parseRawArtifactJson (rawArtifactInputs.truncate inputs) = Inr parsed \<and>
        P parsed (parseConstructor (piFixture parsed)))" for P
    using constructor_agrees[OF assms] inputs_agree by metis
  show ?thesis
    unfolding approveForgeArtifact_def independentlyApproveRawArtifact_def bindE_Inr_iff[of "parseForgeInputs _ _"] bindE_Inr_iff[of "parseArtifactInputs _ _ _"]
    by (rule c)
qed

end
