(* ===== verification/LocalRpc.thy ===== *)
theory LocalRpc
  imports PlanRpc ForgeArtifact
begin

text \<open>
  The planner's read-only RPC client and its observation of fees
  (\<open>tooling/deployment-plan/src/adapters/rpc.ts\<close>). \<open>new URL\<close> and \<open>fetch\<close> are parameters.
\<close>

section \<open>The client\<close>

definition ALLOWED :: "string list" where
  "ALLOWED = [''eth_chainId'', ''eth_getBlockByNumber'', ''eth_getTransactionCount'', ''eth_feeHistory'', ''eth_estimateGas'']"

record parsedUrl =
  urlHref :: string
  urlProtocol :: string
  urlHostname :: string
  urlPort :: string
  urlUsername :: string
  urlPassword :: string
  urlPathname :: string
  urlSearch :: string
  urlHash :: string

definition isExactLoopbackRoot :: "parsedUrl \<Rightarrow> bool" where
  "isExactLoopbackRoot url \<longleftrightarrow> urlProtocol url = ''http:'' \<and> urlHostname url = ''127.0.0.1'' \<and> urlPort url \<noteq> []
     \<and> urlUsername url = [] \<and> urlPassword url = [] \<and> urlPathname url = ''/'' \<and> urlSearch url = [] \<and> urlHash url = []"

definition assertLoopbackUrl :: "(string \<Rightarrow> parsedUrl option) \<Rightarrow> string \<Rightarrow> js_error + string" where
  "assertLoopbackUrl newUrl text = (case newUrl text of
     None \<Rightarrow> failPlan ''RPC_URL_INVALID''
   | Some url \<Rightarrow> if isExactLoopbackRoot url then Inr (urlHref url) else failPlan ''PUBLIC_RPC_FORBIDDEN'')"

record rpcResponse =
  rrStatus :: int
  rrRedirected :: bool
  rrUrl :: string
  rrOk :: bool
  rrBody :: "js_error + jsval"

text \<open>\<open>fetch\<close> at an URL with the request's id, method and parameters.\<close>

type_synonym rpcFetch = "string \<Rightarrow> nat \<Rightarrow> string \<Rightarrow> jsval list \<Rightarrow> js_error + rpcResponse"

definition validateResponse :: "rpcResponse \<Rightarrow> string \<Rightarrow> js_error + unit" where
  "validateResponse response expectedUrl =
    bindE (failIf ((300 \<le> rrStatus response \<and> rrStatus response < 400) \<or> rrRedirected response) (PlanErr ''RPC_REDIRECT_FORBIDDEN'')) (\<lambda>_.
    bindE (failIf (rrUrl response \<noteq> expectedUrl) (PlanErr ''RPC_FINAL_URL_MISMATCH'')) (\<lambda>_.
    failIf (\<not> rrOk response) (PlanErr ''RPC_HTTP_FAILURE'')))"

definition readResult :: "jsval \<Rightarrow> nat \<Rightarrow> js_error + jsval" where
  "readResult body i = (case asRecord body of
     None \<Rightarrow> failPlan ''RPC_RESPONSE_INVALID''
   | Some r \<Rightarrow> if getP r ''jsonrpc'' \<noteq> JStr ''2.0'' \<or> getP r ''id'' \<noteq> JNum (int i) \<or> ''result'' \<notin> set (map fst r) \<or> getP r ''error'' \<noteq> JUndef
       then failPlan ''RPC_RESPONSE_INVALID'' else Inr (getP r ''result''))"

text \<open>One request: the counter of the client before and after it.\<close>

definition localRequest :: "rpcFetch \<Rightarrow> string \<Rightarrow> nat \<Rightarrow> string \<Rightarrow> jsval list \<Rightarrow> (js_error + jsval) \<times> nat" where
  "localRequest fetch expectedUrl i method params =
    (if method \<notin> set ALLOWED then (failPlan ''RPC_METHOD_FORBIDDEN'', i)
     else (bindE (fetch expectedUrl (i + 1) method params) (\<lambda>response.
       bindE (validateResponse response expectedUrl) (\<lambda>_.
       bindE (rrBody response) (\<lambda>body. readResult body (i + 1)))), i + 1))"

section \<open>The observation\<close>

record rpcBlock =
  rbNumber :: int
  rbNumberHex :: string
  rbHash :: string
  rbTimestamp :: int
  rbGasLimit :: int
  rbBaseFee :: int

record feeRequest =
  frFrom :: string
  frCreationInput :: string
  frNowSeconds :: int
  frMaxPriorityFeePerGas :: int
  frMaxFeePerGas :: int

definition rpcQuantity :: "jsval \<Rightarrow> js_error + int" where
  "rpcQuantity v = (if isQuantity v then Inr (quantityValue v) else failPlan ''RPC_QUANTITY_INVALID'')"

definition readBlock :: "jsval \<Rightarrow> js_error + rpcBlock" where
  "readBlock v = (case asRecord v of
     None \<Rightarrow> failPlan ''BLOCK_INVALID''
   | Some r \<Rightarrow> (case (getP r ''number'', getP r ''hash'') of
       (JStr number, JStr hash) \<Rightarrow>
         bindE (failIf (\<not> matchesHex 64 hash) (PlanErr ''BLOCK_INVALID'')) (\<lambda>_.
         bindE (rpcQuantity (JStr number)) (\<lambda>n.
         bindE (rpcQuantity (getP r ''timestamp'')) (\<lambda>timestamp.
         bindE (rpcQuantity (getP r ''gasLimit'')) (\<lambda>limit.
         bindE (rpcQuantity (getP r ''baseFeePerGas'')) (\<lambda>baseFee.
         Inr \<lparr>rbNumber = n, rbNumberHex = number, rbHash = hash, rbTimestamp = timestamp, rbGasLimit = limit, rbBaseFee = baseFee\<rparr>)))))
     | _ \<Rightarrow> failPlan ''BLOCK_INVALID''))"

text \<open>\<open>readFeeHistory\<close>: the newest block, its base fee and the next one.\<close>

definition readFeeHistory :: "jsval \<Rightarrow> js_error + int \<times> int \<times> int" where
  "readFeeHistory v = (case asRecord v of
     None \<Rightarrow> failPlan ''FEE_HISTORY_INVALID''
   | Some r \<Rightarrow> (case getP r ''baseFeePerGas'' of
       JArr _ [first, second] \<Rightarrow>
         bindE (rpcQuantity (getP r ''oldestBlock'')) (\<lambda>newest.
         bindE (rpcQuantity first) (\<lambda>baseFee.
         bindE (rpcQuantity second) (\<lambda>following. Inr (newest, baseFee, following))))
     | _ \<Rightarrow> failPlan ''FEE_HISTORY_INVALID''))"

definition observeFees :: "planRpc \<Rightarrow> feeRequest \<Rightarrow> js_error + quoteObservation" where
  "observeFees rpc request =
    bindE (bindE (rpc ''eth_chainId'' []) rpcQuantity) (\<lambda>chain.
    bindE (bindE (rpc ''eth_getBlockByNumber'' [JStr ''latest'', JBool False]) readBlock) (\<lambda>head.
    let tag = JStr (rbNumberHex head) in
    bindE (bindE (rpc ''eth_getBlockByNumber'' [tag, JBool False]) readBlock) (\<lambda>bound.
    bindE (failIf (rbHash bound \<noteq> rbHash head) (PlanErr ''REORGED_BLOCK'')) (\<lambda>_.
    bindE (bindE (rpc ''eth_feeHistory'' [JStr ''0x1'', tag, JArr Plain []]) readFeeHistory) (\<lambda>(newest, baseFee, following).
    bindE (failIf (baseFee \<noteq> rbBaseFee bound) (PlanErr ''BASE_FEE_MISMATCH'')) (\<lambda>_.
    bindE (bindE (rpc ''eth_getTransactionCount'' [JStr (frFrom request), tag]) rpcQuantity) (\<lambda>senderNonce.
    bindE (bindE (rpc ''eth_estimateGas'' [JObj Plain [(''from'', JStr (frFrom request)), (''data'', JStr (frCreationInput request)),
        (''value'', JStr ''0x0'')], tag]) rpcQuantity) (\<lambda>gas.
    bindE (deriveCreateAddress (frFrom request) senderNonce) (\<lambda>address.
    Inr \<lparr>qoChainId = decInt chain, qoBlockNumber = decInt (rbNumber head), qoBlockHash = rbHash head,
      qoBlockTimestamp = decInt (rbTimestamp head), qoCurrentHeadNumber = decInt (rbNumber head), qoCurrentHeadHash = rbHash head,
      qoFeeHistoryNewestBlock = decInt newest, qoSenderNonce = decInt senderNonce, qoExpectedCreateAddress = address,
      qoGasEstimate = decInt gas, qoBlockGasLimit = decInt (rbGasLimit head), qoBaseFeePerGas = decInt baseFee,
      qoMaxPriorityFeePerGas = decInt (frMaxPriorityFeePerGas request), qoMaxFeePerGas = decInt (frMaxFeePerGas request),
      qoObservedAt = decInt (frNowSeconds request)\<rparr>)))))))))"

section \<open>What is observed passes the independent check\<close>

lemma rpcQuantity_Inr: "rpcQuantity v = Inr i \<longleftrightarrow> (\<exists>n. v = JStr (quantityText n) \<and> i = int n)"
  by (auto simp: rpcQuantity_def isQuantity_iff failPlan_def)

lemma decInt_nat: "decInt (int n) = dec n"
  by (simp add: decInt_def)

lemma readBlock_Inr:
  assumes "readBlock v = Inr b"
  obtains sh r n t l f where "v = JObj sh r" "getP r ''number'' = JStr (quantityText n)" "getP r ''hash'' = JStr (rbHash b)"
    "matchesHex 64 (rbHash b)" "getP r ''timestamp'' = JStr (quantityText t)" "getP r ''gasLimit'' = JStr (quantityText l)"
    "getP r ''baseFeePerGas'' = JStr (quantityText f)" "rbNumber b = int n" "rbNumberHex b = quantityText n"
    "rbTimestamp b = int t" "rbGasLimit b = int l" "rbBaseFee b = int f"
  using assms unfolding readBlock_def
  by (auto simp: bindE_Inr_iff rpcQuantity_Inr failPlan_def split: option.splits jsval.splits)

lemma readFeeHistory_Inr:
  assumes "readFeeHistory v = Inr (newest, baseFee, following)"
  obtains sh r s n f m where "v = JObj sh r" "getP r ''baseFeePerGas'' = JArr s [JStr (quantityText f), JStr (quantityText m)]"
    "getP r ''oldestBlock'' = JStr (quantityText n)" "newest = int n" "baseFee = int f"
  using assms unfolding readFeeHistory_def
  by (auto simp: bindE_Inr_iff rpcQuantity_Inr failPlan_def split: option.splits jsval.splits list.splits)

text \<open>Blocks of a chain with one hash are one block.\<close>

definition blocksByHash :: "planRpc \<Rightarrow> bool" where
  "blocksByHash rpc \<longleftrightarrow> (\<forall>t u sr ss r s. rpc ''eth_getBlockByNumber'' [t, JBool False] = Inr (JObj sr r) \<longrightarrow>
     rpc ''eth_getBlockByNumber'' [u, JBool False] = Inr (JObj ss s) \<longrightarrow> getP r ''hash'' = getP s ''hash'' \<longrightarrow>
     getP r ''number'' = getP s ''number'' \<and> getP r ''timestamp'' = getP s ''timestamp'' \<and>
     getP r ''gasLimit'' = getP s ''gasLimit'' \<and> getP r ''baseFeePerGas'' = getP s ''baseFeePerGas'')"

lemma observed_node:
  assumes "observeFees rpc request = Inr ob" "blocksByHash rpc" "qoFeeHistoryNewestBlock ob = qoBlockNumber ob"
    "getP (spIdentity plan) ''from'' = JStr (frFrom request)"
  shows "nodeAgrees rpc plan ob (frCreationInput request)"
proof -
  obtain chain hv head bv bound fv newest baseFee following nv nonce gv gas address where
      c: "bindE (rpc ''eth_chainId'' []) rpcQuantity = Inr chain"
      and h: "rpc ''eth_getBlockByNumber'' [JStr ''latest'', JBool False] = Inr hv" "readBlock hv = Inr head"
      and b: "rpc ''eth_getBlockByNumber'' [JStr (rbNumberHex head), JBool False] = Inr bv" "readBlock bv = Inr bound"
      and e: "rbHash bound = rbHash head"
      and f: "rpc ''eth_feeHistory'' [JStr ''0x1'', JStr (rbNumberHex head), JArr Plain []] = Inr fv" "readFeeHistory fv = Inr (newest, baseFee, following)"
        "baseFee = rbBaseFee bound"
      and n: "bindE (rpc ''eth_getTransactionCount'' [JStr (frFrom request), JStr (rbNumberHex head)]) rpcQuantity = Inr nonce"
      and g: "bindE (rpc ''eth_estimateGas'' [JObj Plain [(''from'', JStr (frFrom request)), (''data'', JStr (frCreationInput request)),
        (''value'', JStr ''0x0'')], JStr (rbNumberHex head)]) rpcQuantity = Inr gas"
      and ob: "\<lparr>qoChainId = decInt chain, qoBlockNumber = decInt (rbNumber head), qoBlockHash = rbHash head,
      qoBlockTimestamp = decInt (rbTimestamp head), qoCurrentHeadNumber = decInt (rbNumber head), qoCurrentHeadHash = rbHash head,
      qoFeeHistoryNewestBlock = decInt newest, qoSenderNonce = decInt nonce, qoExpectedCreateAddress = address,
      qoGasEstimate = decInt gas, qoBlockGasLimit = decInt (rbGasLimit head), qoBaseFeePerGas = decInt baseFee,
      qoMaxPriorityFeePerGas = decInt (frMaxPriorityFeePerGas request), qoMaxFeePerGas = decInt (frMaxFeePerGas request),
      qoObservedAt = decInt (frNowSeconds request)\<rparr> = ob"
    using assms(1) unfolding observeFees_def Let_def
    by (simp only: bindE_Inr_iff[of "rpc _ _" readBlock] bindE_Inr_iff[of "rpc _ _" readFeeHistory] bindE_Inr_iff[of "bindE _ _"] bindE_Inr_iff[of "failIf _ _"]
      bindE_Inr_iff[of "deriveCreateAddress _ _"] split_paired_Ex split_conv failIf_Inr_iff not_not sum.inject)
      (elim exE conjE, rule that, assumption+)
  from c obtain i where i: "rpc ''eth_chainId'' [] = Inr (JStr (quantityText i))" "chain = int i"
    by (auto simp: bindE_Inr_iff rpcQuantity_Inr)
  from n obtain j where j: "rpc ''eth_getTransactionCount'' [JStr (frFrom request), JStr (rbNumberHex head)] = Inr (JStr (quantityText j))" "nonce = int j"
    by (auto simp: bindE_Inr_iff rpcQuantity_Inr)
  from g obtain k where k: "rpc ''eth_estimateGas'' [JObj Plain [(''from'', JStr (frFrom request)), (''data'', JStr (frCreationInput request)),
        (''value'', JStr ''0x0'')], JStr (rbNumberHex head)] = Inr (JStr (quantityText k))" "gas = int k"
    by (auto simp: bindE_Inr_iff rpcQuantity_Inr)
  obtain sh r num t l bf where r: "hv = JObj sh r" "getP r ''number'' = JStr (quantityText num)" "getP r ''hash'' = JStr (rbHash head)"
      "getP r ''timestamp'' = JStr (quantityText t)" "getP r ''gasLimit'' = JStr (quantityText l)"
      "rbNumber head = int num" "rbNumberHex head = quantityText num" "rbTimestamp head = int t" "rbGasLimit head = int l"
    using readBlock_Inr[OF h(2)] by metis
  obtain ss s bf' where s: "bv = JObj ss s" "getP s ''hash'' = JStr (rbHash bound)" "getP s ''baseFeePerGas'' = JStr (quantityText bf')" "rbBaseFee bound = int bf'"
    using readBlock_Inr[OF b(2)] by metis
  obtain sf q sq n' f' m' where q: "fv = JObj sf q" "getP q ''baseFeePerGas'' = JArr sq [JStr (quantityText f'), JStr (quantityText m')]"
      "getP q ''oldestBlock'' = JStr (quantityText n')" "newest = int n'" "baseFee = int f'"
    using readFeeHistory_Inr[OF f(2)] by metis
  have same: "getP s ''number'' = getP r ''number''" "getP s ''timestamp'' = getP r ''timestamp''" "getP s ''gasLimit'' = getP r ''gasLimit''"
    using assms(2) h(1) b(1) r(1,3) s(1,2) e unfolding blocksByHash_def by metis+
  have "n' = num" using assms(3) ob[symmetric] q(4) r(6) by (simp add: decInt_nat)
  then show ?thesis
    unfolding nodeAgrees_def callObject_def assms(4)
    using i j k h(1) b(1) r s q f(1,3) e same ob[symmetric]
    by (rule_tac exI[of _ num], rule_tac exI[of _ "JStr (quantityText i)"], rule_tac exI[of _ "JStr (quantityText j)"],
        rule_tac exI[of _ "JStr (quantityText k)"], rule_tac exI[of _ s], rule_tac exI[of _ r], rule_tac exI[of _ q],
        rule_tac exI[of _ "JStr (quantityText f')"], rule_tac exI[of _ "JStr (quantityText m')"],
        rule_tac exI[of _ sh], rule_tac exI[of _ ss], rule_tac exI[of _ sq], rule_tac exI[of _ sf])
      (auto simp: decInt_nat agree_dec isQuantity_iff)
qed

lemma buffer_lower: "list_all isHexLower s \<Longrightarrow> bufferFromHex s = fromHex s"
proof (induction s rule: bufferFromHex.induct)
  case (1 a b s)
  then have "isHex a" "isHex b" "upperHexVal a = hexVal a" "upperHexVal b = hexVal b"
    by (auto simp: isHex_def isHexLower_def isDigit_def less_eq_char_def)
  with 1 show ?case by simp
qed auto

lemma approved_bytecode:
  assumes "independentlyApproveRawArtifact sha256 parse inputs roots = Inr a"
  shows "list_all isHexLower (drop 2 (aaCreationBytecode a)) \<and> take 2 (aaCreationBytecode a) = ''0x''"
  using assms unfolding independentlyApproveRawArtifact_def bindE_Inr_iff Let_def readCreationBytecode_def
  by (auto simp: failPlan_def bindE_Inr_iff split: if_splits jsval.splits)

lemma approved_input_hash:
  assumes "independentlyApproveRawArtifact sha256 parse inputs roots = Inr a"
  shows "aaCreationInputHash a = sha256Hex sha256 (bufferFromHex (drop 2 (aaCreationInput a)))"
proof -
  from approval_bound[OF assms] obtain v where v: "constructorOk v" "aaConstructorArguments a = ''0x'' @ hexBytes (abiConstructor v)"
      "aaCreationInput a = aaCreationBytecode a @ drop 2 (aaConstructorArguments a)" "aaCreationInputHash a = hashHex sha256 (aaCreationInput a)"
    unfolding boundToRoots_def by blast
  obtain raw where raw: "aaCreationBytecode a = ''0x'' @ raw" "list_all isHexLower raw"
    using approved_bytecode[OF assms] by (metis append_take_drop_id)
  have "list_all isHexLower (drop 2 (aaCreationInput a))"
    using v raw hexBytes_hex[OF abiConstructor_bytes[OF v(1)]] by simp
  then show ?thesis using v(4) by (simp add: hashHex_def buffer_lower)
qed

lemma observed_passes:
  assumes "independentlyApproveRawArtifact sha256 parse inputs roots = Inr approved"
    "observeFees rpc request = Inr ob" "frFrom request = trFrom roots" "frCreationInput request = aaCreationInput approved"
    "buildStablePlan sha256 approved roots = Inr plan" "buildFeeQuote plan ob roots = Inr quote" "blocksByHash rpc"
  shows "independentlyVerifyRpc sha256 rpc plan quote (aaCreationInput approved) = Inr ()"
proof -
  note plan = built_plan(2)[OF assms(5)]
  have i: "getP (spIdentity plan) ''creationInput'' = JStr (aaCreationInput approved)" "getP (spIdentity plan) ''from'' = JStr (frFrom request)"
      "getP (spIdentity plan) ''creationInputHash'' = JStr (aaCreationInputHash approved)"
    unfolding plan assms(3) by (simp_all add: planIdentity_def getP_def)
  have "fqObservation quote = ob" "qoFeeHistoryNewestBlock ob = qoBlockNumber ob"
    using assms(6) unfolding buildFeeQuote_def validateQuoteBinding_def parseQuoteTimes_def
    by (auto simp: bindE_Inr_iff parseUint_JStr)
  then show ?thesis
    using i observed_node[OF assms(2,7) _ i(2)] assms(4) approved_input_hash[OF assms(1)] by (simp add: rpc_steps)
qed

text \<open>
  C37. What the planner observed passes the independent check of the node: the quote that is built from an
  observation of fees agrees with the answers of the same node, for the creation input of the approved
  artifact. The node is one snapshot of a chain, on which blocks with one hash are one block.
\<close>

theorem observation_passes_rpc_check:
  assumes "independentlyApproveRawArtifact sha256 parse inputs roots = Inr approved"
    "observeFees rpc request = Inr ob" "frFrom request = trFrom roots" "frCreationInput request = aaCreationInput approved"
    "buildStablePlan sha256 approved roots = Inr plan" "buildFeeQuote plan ob roots = Inr quote" "blocksByHash rpc"
  shows "independentlyVerifyRpc sha256 rpc plan quote (aaCreationInput approved) = Inr ()"
  using assms by (rule observed_passes)

section \<open>A sample\<close>

definition sampleBlock :: jsrecord where
  "sampleBlock = [(''number'', JStr (quantityText 6)), (''hash'', JStr sampleHash), (''timestamp'', JStr (quantityText 7)),
     (''gasLimit'', JStr (quantityText 30)), (''baseFeePerGas'', JStr (quantityText 2))]"

definition sampleRpc :: planRpc where
  "sampleRpc method params = Inr (
     if method = ''eth_chainId'' then JStr (quantityText 31337)
     else if method = ''eth_getBlockByNumber'' then JObj Plain sampleBlock
     else if method = ''eth_feeHistory'' then JObj Plain [(''oldestBlock'', JStr (quantityText 6)),
       (''baseFeePerGas'', JArr Plain [JStr (quantityText 2), JStr (quantityText 2)])]
     else if method = ''eth_getTransactionCount'' then JStr (quantityText 0)
     else JStr (quantityText 3))"

definition sampleFeeRequest :: feeRequest where
  "sampleFeeRequest = \<lparr>frFrom = trFrom sampleRoots, frCreationInput = aaCreationInput sampleApproved, frNowSeconds = 8,
     frMaxPriorityFeePerGas = 1, frMaxFeePerGas = 5\<rparr>"

definition sampleObserved :: "string \<Rightarrow> quoteObservation" where
  "sampleObserved address = sampleObservation address\<lparr>qoBlockNumber := ''6'', qoFeeHistoryNewestBlock := ''6''\<rparr>"

lemma rpcQuantity_text [simp]: "rpcQuantity (JStr (quantityText n)) = Inr (int n)"
  by (auto simp: rpcQuantity_Inr)

lemma sample_observed:
  assumes "deriveCreateAddress (trFrom sampleRoots) 0 = Inr address"
  shows "observeFees sampleRpc sampleFeeRequest = Inr (sampleObserved address)"
proof -
  have h: "matchesHex 64 sampleHash" by code_simp
  have b: "readBlock (JObj Plain sampleBlock) = Inr \<lparr>rbNumber = 6, rbNumberHex = quantityText 6, rbHash = sampleHash,
      rbTimestamp = 7, rbGasLimit = 30, rbBaseFee = 2\<rparr>"
    by (simp add: readBlock_def sampleBlock_def getP_def h)
  show ?thesis
    using assms unfolding observeFees_def
    by (simp add: sampleRpc_def b readFeeHistory_def getP_def sampleFeeRequest_def sampleObserved_def sampleObservation_def dec_eval decInt_def
        LOCAL_CHAIN_ID_def)
qed

lemma sample_observed_quote:
  assumes "deriveCreateAddress (trFrom sampleRoots) 0 = Inr address"
  shows "\<exists>quote. buildFeeQuote samplePlan (sampleObserved address) sampleRoots = Inr quote"
proof -
  let ?ts = "\<lparr>qtBlock = 6, qtHead = 6, qtNewest = 6, qtTimestamp = 7, qtObservedAt = 8, qtTtl = 9\<rparr>"
    and ?costs = "\<lparr>gasLimit = 3, effectiveFee = 3, estimatedWei = 9, worstCaseWei = 15\<rparr>"
  have "parseUint (JStr (qoSenderNonce (sampleObserved address))) True = Inr 0"
      "parseQuoteTimes (sampleObserved address) sampleRoots = Inr ?ts"
      "validateQuoteBinding (sampleObserved address) sampleRoots ?ts = Inr ()"
      "quoteCosts (sampleObserved address) (trGasBufferBps sampleRoots) sampleRoots = Inr ?costs"
      "checkedAdd (qtObservedAt ?ts) (qtTtl ?ts) = Inr 17"
      "qoChainId (sampleObserved address) = trChainId sampleRoots"
      "qoExpectedCreateAddress (sampleObserved address) = address"
    by code_simp+
  then show ?thesis
    unfolding buildFeeQuote_def assms by (simp only: bindE.simps failIf_consts assms HOL.simp_thms not_True_eq_False) blast
qed

lemma observation_passes_rpc_check_witness:
  "\<exists>quote. independentlyVerifyRpc sampleDigest sampleRpc samplePlan quote (aaCreationInput sampleApproved) = Inr ()"
proof -
  obtain address where a: "deriveCreateAddress (trFrom sampleRoots) 0 = Inr address" using sample_address ..
  obtain quote where q: "buildFeeQuote samplePlan (sampleObserved address) sampleRoots = Inr quote" using sample_observed_quote[OF a] ..
  have f: "frFrom sampleFeeRequest = trFrom sampleRoots" "frCreationInput sampleFeeRequest = aaCreationInput sampleApproved"
    by (simp_all add: sampleFeeRequest_def)
  have n: "blocksByHash sampleRpc" by (auto simp: blocksByHash_def sampleRpc_def)
  show ?thesis
    using observation_passes_rpc_check[OF sample_approved sample_observed[OF a] f sample_plan q n] by blast
qed

end
