(* ===== verification/NativePolicy.thy ===== *)
theory NativePolicy
  imports OutputIo StrictJson
begin

text \<open>
  The committed policy of the native rename helper
  (\<open>tooling/deployment-plan/src/adapters/native-policy.ts\<close>): how its file is read and validated, and that
  the validation of the independent verifier (theory \<open>PlanVerifier\<close>) accepts the same policies. The path of the
  lock file is a parameter.
\<close>

section \<open>Validation\<close>

definition exactPolicyObject :: "jsval \<Rightarrow> string list \<Rightarrow> js_error + jsrecord" where
  "exactPolicyObject v keys =
    bindE (objectOr ''NO_REPLACE_POLICY_INVALID'' v) (\<lambda>r.
    bindE (failIf (sortText (map fst r) \<noteq> sortText keys) (PlanErr ''NO_REPLACE_POLICY_INVALID'')) (\<lambda>_. Inr r))"

definition validateTuple :: "jsval \<Rightarrow> string \<Rightarrow> js_error + jsrecord" where
  "validateTuple v compilerPath =
    bindE (exactPolicyObject v [''compilerPath'', ''compilerSha256'', ''executableSha256'']) (\<lambda>t.
    bindE (failIf (getP t ''compilerPath'' \<noteq> JStr compilerPath \<or> \<not> isHashValue (getP t ''compilerSha256'')
        \<or> \<not> isHashValue (getP t ''executableSha256'')) (PlanErr ''NO_REPLACE_POLICY_INVALID'')) (\<lambda>_. Inr t))"

definition validatePlatform :: "jsval \<Rightarrow> string \<Rightarrow> string \<Rightarrow> js_error + unit" where
  "validatePlatform v strategy compilerPath =
    bindE (exactPolicyObject v [''strategy'', ''tuples'']) (\<lambda>platform.
    case getP platform ''tuples'' of
      JArr _ xs \<Rightarrow>
        bindE (failIf (getP platform ''strategy'' \<noteq> JStr strategy \<or> length xs < 1 \<or> length xs > 2)
          (PlanErr ''NO_REPLACE_POLICY_INVALID'')) (\<lambda>_.
        bindE (mapE (\<lambda>x. validateTuple x compilerPath) xs) (\<lambda>tuples.
        bindE (mapE (\<lambda>t. planJson (JObj Plain t)) tuples) (\<lambda>serialized.
        let identities = map (\<lambda>t. stringOf (getP t ''compilerPath'') @ ''|'' @ stringOf (getP t ''compilerSha256'')) tuples in
        failIf (setSize serialized \<noteq> length serialized \<or> setSize identities \<noteq> length identities \<or> \<not> ascendingTexts serialized)
          (PlanErr ''NO_REPLACE_POLICY_INVALID''))))
    | _ \<Rightarrow> failPlan ''NO_REPLACE_POLICY_INVALID'')"

definition validateNativeNoReplacePolicy :: "jsval \<Rightarrow> js_error + jsrecord" where
  "validateNativeNoReplacePolicy v =
    bindE (exactPolicyObject v [''schemaVersion'', ''kind'', ''sourcePath'', ''sourceSha256'', ''compileProfile'', ''platforms'']) (\<lambda>policy.
    bindE (failIf (getP policy ''schemaVersion'' \<noteq> JNum 1 \<or> getP policy ''kind'' \<noteq> JStr ''native-no-replace-build-policy''
        \<or> getP policy ''sourcePath'' \<noteq> JStr ''tooling/deployment-plan/native/no-replace.c''
        \<or> getP policy ''sourceSha256'' \<noteq> JStr ''0xf3bd0279809e011933eb6ed92d55c2c7ee3bb28dedb2294ea47fe49a25483f09''
        \<or> getP policy ''compileProfile'' \<noteq> JStr ''c11-o2-werror-stdin-v1'') (PlanErr ''NO_REPLACE_POLICY_INVALID'')) (\<lambda>_.
    bindE (exactPolicyObject (getP policy ''platforms'') [''darwin-arm64'', ''linux-x64'']) (\<lambda>platforms.
    bindE (validatePlatform (getP platforms ''darwin-arm64'') ''verified-path'' ''/usr/bin/cc'') (\<lambda>_.
    bindE (validatePlatform (getP platforms ''linux-x64'') ''snapshot-fd'' ''/usr/bin/x86_64-linux-gnu-gcc-13'') (\<lambda>_. Inr policy)))))"

definition parseNativeNoReplacePolicyLock :: "nat list \<Rightarrow> js_error + jsrecord" where
  "parseNativeNoReplacePolicyLock bytes =
    bindE (parseNarrowJson bytes POLICY_JSON_LIMITS) (\<lambda>v.
    bindE (exactPolicyObject v [''schemaVersion'', ''retrievedAt'', ''platforms'', ''coreTools'', ''nativeBuilds'',
      ''fixtureTools'', ''policy'', ''tools'', ''securityImages'']) (\<lambda>lock.
    bindE (failIf (getP lock ''schemaVersion'' \<noteq> JNum 2) (PlanErr ''NO_REPLACE_POLICY_INVALID'')) (\<lambda>_.
    bindE (exactPolicyObject (getP lock ''nativeBuilds'') [''noReplace'']) (\<lambda>builds.
    validateNativeNoReplacePolicy (getP builds ''noReplace'')))))"

section \<open>Reading\<close>

text \<open>\<open>try { m } finally { c }\<close>\<close>

definition finallyO :: "'a outM \<Rightarrow> unit outM \<Rightarrow> 'a outM" where
  "finallyO m c = bindO (tryO m) (\<lambda>outcome. bindO c (\<lambda>_. case outcome of Inl e \<Rightarrow> throwO e | Inr x \<Rightarrow> returnO x))"

text \<open>The loop of reads: each returns at most what is missing, nothing means the file became shorter.\<close>

function readRest :: "nat \<Rightarrow> nat \<Rightarrow> nat list \<Rightarrow> nat list outM" where
  "readRest h wanted bytes env s =
    (if wanted \<le> length bytes then returnO bytes env s
     else case callO (ReadFrom h (length bytes) (wanted - length bytes)) anBytes env s of
       (Inl e, t) \<Rightarrow> (Inl e, t)
     | (Inr result, t) \<Rightarrow>
         if result = [] then throwO (outFailure ''NO_REPLACE_POLICY_INVALID'') env t
         else readRest h wanted (bytes @ take (wanted - length bytes) result) env t)"
  by pat_completeness auto

termination
  by (relation "measure (\<lambda>(h, wanted, bytes, env, s). wanted - length bytes)") (auto simp flip: length_greater_0_conv)

declare readRest.simps [simp del]

definition readPolicyBytes :: "string \<Rightarrow> nat list outM" where
  "readPolicyBytes lock =
    bindO (openO (OpenRead lock)) (\<lambda>h.
    finallyO
      (bindO (callO (Stat h) anStats) (\<lambda>before.
       bindO (failIfO (\<not> fsFile before \<or> fsNlink before \<noteq> 1 \<or> \<not> isSafeInteger (JNum (fsSize before))
           \<or> fsSize before > int (jlBytes POLICY_JSON_LIMITS)) ''JSON_LIMIT_BYTES'') (\<lambda>_.
       bindO (if fsSize before < 0 then throwO (Thrown (RangeErr ''size'')) else returnO ()) (\<lambda>_.
       bindO (readRest h (nat (fsSize before)) []) (\<lambda>bytes.
       bindO (callO (ReadFrom h (length bytes) 1) anBytes) (\<lambda>trailing.
       bindO (failIfO (trailing \<noteq> []) ''NO_REPLACE_POLICY_INVALID'') (\<lambda>_.
       bindO (callO (Stat h) anStats) (\<lambda>after.
       bindO (failIfO (fsDev before \<noteq> fsDev after \<or> fsIno before \<noteq> fsIno after \<or> fsSize before \<noteq> fsSize after
           \<or> fsMtime before \<noteq> fsMtime after) ''NO_REPLACE_POLICY_INVALID'') (\<lambda>_.
       returnO bytes)))))))))
      (doO (Close h)))"

definition loadCommittedNativeNoReplacePolicy :: "string \<Rightarrow> jsrecord outM" where
  "loadCommittedNativeNoReplacePolicy lock =
    bindO (readPolicyBytes lock) (\<lambda>bytes. liftO (parseNativeNoReplacePolicyLock bytes))"

section \<open>The two validations agree\<close>

lemma exact_agree: "exactPolicyObject v keys = Inr r \<longleftrightarrow> exactNativePolicyObject v keys = Inr r"
  by (auto simp: exactPolicyObject_def exactNativePolicyObject_def bindE_Inr_iff)

lemma tuples_agree:
  "mapE (\<lambda>x. validateTuple x compilerPath) xs = Inr ts \<longleftrightarrow>
   mapE (\<lambda>v. exactNativePolicyObject v [''compilerPath'', ''compilerSha256'', ''executableSha256'']) xs = Inr ts \<and>
   (\<forall>t\<in>set ts. getP t ''compilerPath'' = JStr compilerPath \<and> isHashValue (getP t ''compilerSha256'') \<and> isHashValue (getP t ''executableSha256''))"
  by (induction xs arbitrary: ts) (auto simp: bindE_Inr_iff validateTuple_def exact_agree)

lemma platform_agrees:
  assumes "compilerPath = (if strategy = ''verified-path'' then ''/usr/bin/cc'' else ''/usr/bin/x86_64-linux-gnu-gcc-13'')"
  shows "validatePlatform v strategy compilerPath = Inr u \<longleftrightarrow> validateNativePolicyPlatform v strategy = Inr u"
proof -
  have "(case v' of
      JArr sh xs \<Rightarrow>
        bindE (failIf (st \<noteq> JStr strategy \<or> length xs < 1 \<or> length xs > 2) (PlanErr ''NO_REPLACE_POLICY_INVALID'')) (\<lambda>_.
        bindE (mapE (\<lambda>x. validateTuple x compilerPath) xs) (\<lambda>tuples.
        bindE (mapE (\<lambda>t. planJson (JObj Plain t)) tuples) (\<lambda>serialized.
        failIf (setSize serialized \<noteq> length serialized \<or> setSize (ids tuples) \<noteq> length (ids tuples) \<or> \<not> ascendingTexts serialized)
          (PlanErr ''NO_REPLACE_POLICY_INVALID''))))
    | _ \<Rightarrow> failPlan ''NO_REPLACE_POLICY_INVALID'') = Inr u \<longleftrightarrow>
   (case v' of
      JArr sh xs \<Rightarrow>
        if st \<noteq> JStr strategy \<or> length xs < 1 \<or> length xs > 2 then Inl policyInvalid
        else bindE (mapE (\<lambda>v. exactNativePolicyObject v [''compilerPath'', ''compilerSha256'', ''executableSha256'']) xs) (\<lambda>tuples.
          bindE (mapE (\<lambda>t. planJson (JObj Plain t)) tuples) (\<lambda>serialized.
          failIf (list_ex (\<lambda>t. getP t ''compilerPath'' \<noteq> JStr compilerPath \<or> \<not> isHashValue (getP t ''compilerSha256'')
                  \<or> \<not> isHashValue (getP t ''executableSha256'')) tuples
              \<or> setSize serialized \<noteq> length serialized \<or> setSize (ids tuples) \<noteq> length (ids tuples)
              \<or> \<not> ascendingTexts serialized) policyInvalid))
    | _ \<Rightarrow> Inl policyInvalid) = Inr u" for v' st ids
  proof (cases v')
    case (JArr sh xs)
    then show ?thesis
      by (simp only: jsval.case bindE_Inr_iff tuples_agree failIf_Inr_iff) (auto simp: list_ex_iff bindE_Inr_iff simp del: planJson.simps)
  qed (simp_all add: failPlan_def)
  then show ?thesis
    unfolding validatePlatform_def validateNativePolicyPlatform_def bindE_Inr_iff[of "exactPolicyObject _ _"] bindE_Inr_iff[of "exactNativePolicyObject _ _"]
      exact_agree assms[symmetric] Let_def by blast
qed

text \<open>
  The loader and the independent verifier validate the policy of the native helper separately, in
  different orders and with different codes; they accept exactly the same policies.
\<close>

lemma native_policies_agree: "validateNativeNoReplacePolicy v = Inr policy \<longleftrightarrow> validateNativePolicy v = Inr policy"
  unfolding validateNativeNoReplacePolicy_def validateNativePolicy_def bindE_Inr_iff exact_agree
  by (simp add: platform_agrees)

end
