(* ===== verification/PlanBundle.thy ===== *)
theory PlanBundle
  imports SafeOutputProps LocalRpc NativePolicy
begin

text \<open>
  The planner's composition (\<open>tooling/deployment-plan/src/composition/index.ts\<close>): a plan and its quote are
  verified, written, verified again from what was written, published and committed with READY last; a bundle
  is verified from its committed bytes.
\<close>

definition PLAN :: string where "PLAN = ''deployment-plan.v2.json''"
definition QUOTE :: string where "QUOTE = ''fee-quote.v2.json''"
definition NATIVE_EVIDENCE :: string where "NATIVE_EVIDENCE = ''native-no-replace-evidence.v1.json''"
definition READY :: string where "READY = ''READY''"

section \<open>Requests and bundles\<close>

record publishRequest =
  prParent :: string
  prBundleName :: string
  prPlan :: stablePlan
  prQuote :: feeQuote
  prRoots :: trustRoots
  prExpected :: approvedArtifact
  prArtifactInputs :: rawArtifactInputs
  prEvidenceBytes :: "nat list"
  prHooks :: "string list"

record bundleIdentity =
  biDirectoryDevice :: string
  biDirectoryInode :: string
  biPlanSha256 :: string
  biQuoteSha256 :: string
  biEvidenceSha256 :: string
  biReadySha256 :: string

record publishedBundle =
  pbOutput :: claimedOutput
  pbDirectory :: string
  pbIdentity :: bundleIdentity

record verifyBundleRequest =
  vbPublication :: publishedBundle
  vbExpectedQuoteSha256 :: string
  vbRoots :: trustRoots
  vbExpected :: approvedArtifact
  vbArtifactInputs :: rawArtifactInputs
  vbCreationInput :: string

text \<open>The documents as the objects that are written.\<close>

definition readyFields :: "readyMarker \<Rightarrow> jsrecord" where
  "readyFields r = [(''schemaVersion'', JNum 3), (''planSha256'', JStr (rmPlanSha256 r)), (''quoteSha256'', JStr (rmQuoteSha256 r)),
     (''nativeNoReplaceEvidenceSha256'', JStr (rmNativeEvidenceSha256 r)), (''planId'', JStr (rmPlanId r)),
     (''creationInputHash'', JStr (rmCreationInputHash r))]"

definition evidenceFields :: "nativeEvidence \<Rightarrow> jsrecord" where
  "evidenceFields e = [(''schemaVersion'', JNum 1), (''kind'', JStr ''native-no-replace-evidence'')] @ nativeFields e
     @ [(''approvalSha256'', JStr (neApprovalSha256 e))]"

section \<open>Clock and files\<close>

definition trustedNowSeconds :: "int outM" where
  "trustedNowSeconds = bindO (callO Now anValue) (\<lambda>ms. case ms of
     JNum n \<Rightarrow> if isSafeInteger (JNum n) \<and> 0 \<le> n then returnO (n div 1000) else throwO (outFailure ''TRUSTED_CLOCK_INVALID'')
   | _ \<Rightarrow> throwO (outFailure ''TRUSTED_CLOCK_INVALID''))"

definition safeRead :: "string \<Rightarrow> nat list outM" where
  "safeRead path =
    bindO (lstatO path) (\<lambda>before.
    bindO (assertRegular before ''BUNDLE_FILE_UNSAFE'') (\<lambda>_.
    bindO (openO (OpenRead path)) (\<lambda>h.
    finallyO
      (bindO (callO (ReadFile h) anBytes) (\<lambda>bytes.
       bindO (statO h) (\<lambda>after.
       bindO (failIfO (fsDev before \<noteq> fsDev after \<or> fsIno before \<noteq> fsIno after \<or> fsSize before \<noteq> fsSize after
           \<or> fsMtime before \<noteq> fsMtime after) ''FILESYSTEM_SUBSTITUTION'') (\<lambda>_.
       returnO bytes))))
      (doO (Close h)))))"

section \<open>Verification with the committed policy\<close>

record authorityRequest =
  auPlan :: stablePlan
  auQuote :: feeQuote
  auRoots :: trustRoots
  auExpected :: approvedArtifact
  auArtifactInputs :: rawArtifactInputs
  auReady :: readyMarker
  auEvidenceBytes :: "nat list"
  auNowSeconds :: int

definition authorityVerification :: "authorityRequest \<Rightarrow> nativeEvidence \<Rightarrow> jsrecord \<Rightarrow> verificationRequest" where
  "authorityVerification request evidence policy = \<lparr>vrPlan = auPlan request, vrQuote = auQuote request, vrRoots = auRoots request,
     vrExpected = auExpected request, vrArtifactInputs = auArtifactInputs request, vrReady = auReady request,
     vrNowSeconds = auNowSeconds request, vrNativeEvidence = evidence, vrNativePolicy = JObj Plain policy\<rparr>"

definition verifyWithCommittedAuthority :: "(nat list \<Rightarrow> string) \<Rightarrow> string \<Rightarrow> authorityRequest \<Rightarrow> unit outM" where
  "verifyWithCommittedAuthority sha256 lock request =
    bindO (loadCommittedNativeNoReplacePolicy lock) (\<lambda>policy.
    bindO (liftO (parseNativeNoReplaceEvidence (auEvidenceBytes request))) (\<lambda>evidence.
    bindO (liftO (jsonBytes (JObj Plain (evidenceFields evidence)))) (\<lambda>canonical.
    bindO (failIfO (auEvidenceBytes request \<noteq> canonical) ''NATIVE_EVIDENCE_NONCANONICAL'') (\<lambda>_.
    liftO (independentlyVerify sha256 parseRawArtifactJson (authorityVerification request evidence policy))))))"

section \<open>The content of the directory\<close>

definition asciiLower :: "string \<Rightarrow> string" where
  "asciiLower s = map (\<lambda>c. if CHR ''A'' \<le> c \<and> c \<le> CHR ''Z'' then char_of (of_char c + 32 :: nat) else c) s"

text \<open>\<open>/\.staging-[0-9a-f]+$/iu\<close>: the hexadecimal tail cannot contain the hyphen before it.\<close>

definition hasStagingTail :: "string \<Rightarrow> bool" where
  "hasStagingTail s = (let r = rev (asciiLower s); tail = takeWhile isHexLower r in
     tail \<noteq> [] \<and> take 9 (drop (length tail) r) = rev ''.staging-'')"

definition assertExactBundle :: "string \<Rightarrow> bool \<Rightarrow> bool \<Rightarrow> unit outM" where
  "assertExactBundle directory rejectStaging readyRequired =
    bindO (lstatO directory) (\<lambda>metadata.
    bindO (assertOwnedPrivateDirectory metadata ''BUNDLE_DIRECTORY_UNSAFE'') (\<lambda>_.
    bindO (failIfO (rejectStaging \<and> (includesText (asciiLower directory) ''.bundle.staging-'' \<or> hasStagingTail directory))
      ''BUNDLE_STAGING_REJECTED'') (\<lambda>_.
    bindO (realpathO directory) (\<lambda>real.
    bindO (failIfO (real \<noteq> directory) ''BUNDLE_DIRECTORY_UNSAFE'') (\<lambda>_.
    bindO (readdirO directory) (\<lambda>names.
    let expected = sortText (if readyRequired then [PLAN, QUOTE, NATIVE_EVIDENCE, READY] else [PLAN, QUOTE, NATIVE_EVIDENCE]) in
    failIfO (names \<noteq> expected) ''BUNDLE_FILES_INVALID''))))))"

record preparedContent =
  pcPlanBytes :: "nat list"
  pcQuoteBytes :: "nat list"
  pcEvidenceBytes :: "nat list"
  pcReady :: readyMarker

definition assertPreparedContent :: "(nat list \<Rightarrow> string) \<Rightarrow> string \<Rightarrow> string \<Rightarrow> preparedContent \<Rightarrow> publishRequest \<Rightarrow> int \<Rightarrow> unit outM" where
  "assertPreparedContent sha256 lock directory expected request nowSeconds =
    bindO (safeRead (joinPath directory PLAN)) (\<lambda>planBytes.
    bindO (safeRead (joinPath directory QUOTE)) (\<lambda>quoteBytes.
    bindO (safeRead (joinPath directory NATIVE_EVIDENCE)) (\<lambda>evidenceBytes.
    bindO (failIfO (planBytes \<noteq> pcPlanBytes expected \<or> quoteBytes \<noteq> pcQuoteBytes expected \<or> evidenceBytes \<noteq> pcEvidenceBytes expected)
      ''OUTPUT_CONTENT_SUBSTITUTED'') (\<lambda>_.
    bindO (liftO (parseStablePlan planBytes)) (\<lambda>plan.
    bindO (liftO (parseFeeQuote quoteBytes)) (\<lambda>quote.
    bindO (liftO (verifyReadyDigests sha256 planBytes quoteBytes evidenceBytes (pcReady expected))) (\<lambda>_.
    verifyWithCommittedAuthority sha256 lock \<lparr>auPlan = plan, auQuote = quote, auRoots = prRoots request,
      auExpected = prExpected request, auArtifactInputs = prArtifactInputs request, auReady = pcReady expected,
      auEvidenceBytes = evidenceBytes, auNowSeconds = nowSeconds\<rparr>)))))))"

section \<open>Publishing\<close>

definition publishOutput :: "(nat list \<Rightarrow> string) \<Rightarrow> string \<Rightarrow> publishRequest \<Rightarrow> preparedContent \<Rightarrow> nat list \<Rightarrow> claimedOutput \<Rightarrow> publishedBundle outM" where
  "publishOutput sha256 lock request prepared readyBytes output =
    bindO (writeExclusive output PLAN (pcPlanBytes prepared)) (\<lambda>_.
    bindO (writeExclusive output QUOTE (pcQuoteBytes prepared)) (\<lambda>_.
    bindO (writeExclusive output NATIVE_EVIDENCE (pcEvidenceBytes prepared)) (\<lambda>_.
    bindO (assertExactBundle (ocPath output) False False) (\<lambda>_.
    bindO trustedNowSeconds (\<lambda>now.
    bindO (assertPreparedContent sha256 lock (ocPath output) prepared request now) (\<lambda>_.
    bindO (publish output) (\<lambda>published.
    bindO (assertExactBundle published True False) (\<lambda>_.
    bindO trustedNowSeconds (\<lambda>now.
    bindO (assertPreparedContent sha256 lock published prepared request now) (\<lambda>_.
    bindO (finalizeReady output readyBytes) (\<lambda>_.
    bindO (assertCommitted output) (\<lambda>_.
    bindO publicationIdentity (\<lambda>(device, inode).
    bindO (modifyO (\<lambda>s. s\<lparr>owBundleClosed := False\<rparr>)) (\<lambda>_.
    returnO \<lparr>pbOutput = output, pbDirectory = published, pbIdentity = \<lparr>biDirectoryDevice = device, biDirectoryInode = inode,
      biPlanSha256 = sha256Hex sha256 (pcPlanBytes prepared), biQuoteSha256 = sha256Hex sha256 (pcQuoteBytes prepared),
      biEvidenceSha256 = sha256Hex sha256 (pcEvidenceBytes prepared), biReadySha256 = sha256Hex sha256 readyBytes\<rparr>\<rparr>))))))))))))))"

definition abandonOutput :: "claimedOutput \<Rightarrow> outError \<Rightarrow> 'a outM" where
  "abandonOutput output error =
    bindO (tryO (closeOutput output)) (\<lambda>closed. case closed of
      Inl closeError \<Rightarrow> throwO (AggregateError [error, closeError])
    | Inr _ \<Rightarrow> throwO error)"

definition publishReadyLast :: "(nat list \<Rightarrow> string) \<Rightarrow> string \<Rightarrow> publishRequest \<Rightarrow> publishedBundle outM" where
  "publishReadyLast sha256 lock request =
    bindO (failIfO (\<not> isLeafName (prBundleName request)) ''BUNDLE_NAME_INVALID'') (\<lambda>_.
    bindO (failIfO (isStagingName (prBundleName request)) ''BUNDLE_STAGING_REJECTED'') (\<lambda>_.
    bindO (liftO (jsonBytes (JObj Plain (planFields (prPlan request))))) (\<lambda>planBytes.
    bindO (liftO (jsonBytes (JObj Plain (quoteFields (prQuote request))))) (\<lambda>quoteBytes.
    let ready = \<lparr>rmPlanSha256 = sha256Hex sha256 planBytes, rmQuoteSha256 = sha256Hex sha256 quoteBytes,
          rmNativeEvidenceSha256 = sha256Hex sha256 (prEvidenceBytes request), rmPlanId = spPlanId (prPlan request),
          rmCreationInputHash = fqCreationInputHash (prQuote request)\<rparr>;
        prepared = \<lparr>pcPlanBytes = planBytes, pcQuoteBytes = quoteBytes, pcEvidenceBytes = prEvidenceBytes request, pcReady = ready\<rparr> in
    bindO (liftO (jsonBytes (JObj Plain (readyFields ready)))) (\<lambda>readyBytes.
    bindO trustedNowSeconds (\<lambda>now.
    bindO (verifyWithCommittedAuthority sha256 lock \<lparr>auPlan = prPlan request, auQuote = prQuote request, auRoots = prRoots request,
      auExpected = prExpected request, auArtifactInputs = prArtifactInputs request, auReady = ready,
      auEvidenceBytes = prEvidenceBytes request, auNowSeconds = now\<rparr>) (\<lambda>_.
    bindO (claimOwnedOutputDirectory (prParent request) (prBundleName request) (prHooks request)) (\<lambda>output.
    catchO (publishOutput sha256 lock request prepared readyBytes output) (abandonOutput output)))))))))"

section \<open>The published bundle\<close>

definition assertOpen :: "unit outM" where
  "assertOpen = bindO (getsO owBundleClosed) (\<lambda>closed. failIfO closed ''OUTPUT_CAPABILITY_CLOSED'')"

definition bundleReadCommitted :: "string \<Rightarrow> nat list outM" where
  "bundleReadCommitted name = bindO assertOpen (\<lambda>_. readCommitted name)"

definition assertCurrent :: "publishedBundle \<Rightarrow> unit outM" where
  "assertCurrent publication = bindO assertOpen (\<lambda>_. assertCommitted (pbOutput publication))"

definition closeBundle :: "publishedBundle \<Rightarrow> unit outM" where
  "closeBundle publication = bindO (getsO owBundleClosed) (\<lambda>closed.
     if closed then returnO ()
     else bindO (modifyO (\<lambda>s. s\<lparr>owBundleClosed := True\<rparr>)) (\<lambda>_. closeOutput (pbOutput publication)))"

section \<open>Verifying a bundle\<close>

definition verifyBundle :: "(nat list \<Rightarrow> string) \<Rightarrow> string \<Rightarrow> planRpc \<Rightarrow> verifyBundleRequest \<Rightarrow> (stablePlan \<times> feeQuote) outM" where
  "verifyBundle sha256 lock rpc request =
    (let publication = vbPublication request; mismatch = ''EXPECTED_QUOTE_DIGEST_MISMATCH'' in
    bindO (failIfO (vbExpectedQuoteSha256 request \<noteq> biQuoteSha256 (pbIdentity publication)) mismatch) (\<lambda>_.
    bindO (bundleReadCommitted READY) (\<lambda>markerBytes.
    bindO (bundleReadCommitted PLAN) (\<lambda>planBytes.
    bindO (bundleReadCommitted QUOTE) (\<lambda>quoteBytes.
    bindO (bundleReadCommitted NATIVE_EVIDENCE) (\<lambda>evidenceBytes.
    bindO (failIfO (sha256Hex sha256 quoteBytes \<noteq> vbExpectedQuoteSha256 request) mismatch) (\<lambda>_.
    bindO (liftO (parseReadyMarker markerBytes)) (\<lambda>ready.
    bindO (liftO (parseStablePlan planBytes)) (\<lambda>plan.
    bindO (liftO (parseFeeQuote quoteBytes)) (\<lambda>quote.
    bindO (liftO (verifyReadyDigests sha256 planBytes quoteBytes evidenceBytes ready)) (\<lambda>_.
    bindO trustedNowSeconds (\<lambda>now.
    bindO (verifyWithCommittedAuthority sha256 lock \<lparr>auPlan = plan, auQuote = quote, auRoots = vbRoots request,
      auExpected = vbExpected request, auArtifactInputs = vbArtifactInputs request, auReady = ready,
      auEvidenceBytes = evidenceBytes, auNowSeconds = now\<rparr>) (\<lambda>_.
    bindO (liftO (independentlyVerifyRpc sha256 rpc plan quote (vbCreationInput request))) (\<lambda>_.
    bindO (assertCurrent publication) (\<lambda>_.
    returnO (plan, quote))))))))))))))))"

section \<open>The planner\<close>

record plannerInput =
  piRpcUrl :: string
  piBuildInfoPath :: string
  piArtifactPath :: string
  piAbiPath :: string
  piFixturePath :: string
  piTrustRootsPath :: string
  piOutputParent :: string
  piBundleName :: string
  piMaxPriorityFeePerGas :: int
  piMaxFeePerGas :: int

text \<open>
  What the planner gets from outside this file: \<open>new URL\<close>, the answers of the node at an URL, and the native
  capability: its evidence once built, and its closing.
\<close>

record plannerPorts =
  ppNewUrl :: "string \<Rightarrow> parsedUrl option"
  ppRpcAt :: "string \<Rightarrow> planRpc"
  ppNative :: "nativeEvidence outM"
  ppCloseNative :: "unit outM"

record plannerResult =
  plDirectory :: string
  plPlanId :: string
  plQuoteSha256 :: string
  plEvidenceSha256 :: string
  plBundleIdentity :: bundleIdentity

definition publishAndVerify :: "(nat list \<Rightarrow> string) \<Rightarrow> string \<Rightarrow> planRpc \<Rightarrow> publishRequest \<Rightarrow> plannerResult outM" where
  "publishAndVerify sha256 lock rpc request =
    bindO (publishReadyLast sha256 lock request) (\<lambda>publication.
    finallyO
      (bindO trustedNowSeconds (\<lambda>_.
       bindO (verifyBundle sha256 lock rpc \<lparr>vbPublication = publication, vbExpectedQuoteSha256 = biQuoteSha256 (pbIdentity publication),
         vbRoots = prRoots request, vbExpected = prExpected request, vbArtifactInputs = prArtifactInputs request,
         vbCreationInput = aaCreationInput (prExpected request)\<rparr>) (\<lambda>_.
       returnO \<lparr>plDirectory = pbDirectory publication, plPlanId = spPlanId (prPlan request),
         plQuoteSha256 = biQuoteSha256 (pbIdentity publication), plEvidenceSha256 = biEvidenceSha256 (pbIdentity publication),
         plBundleIdentity = pbIdentity publication\<rparr>)))
      (closeBundle publication))"

definition runUnsignedPlanner :: "(nat list \<Rightarrow> string) \<Rightarrow> string \<Rightarrow> plannerPorts \<Rightarrow> plannerInput \<Rightarrow> plannerResult outM" where
  "runUnsignedPlanner sha256 lock ports input =
    bindO (safeRead (piTrustRootsPath input)) (\<lambda>rootBytes.
    bindO (liftO (parseTrustRoots rootBytes)) (\<lambda>roots.
    bindO (safeRead (piFixturePath input)) (\<lambda>fixtureBytes.
    bindO (safeRead (piBuildInfoPath input)) (\<lambda>buildInfoBytes.
    bindO (safeRead (piArtifactPath input)) (\<lambda>artifactBytes.
    bindO (safeRead (piAbiPath input)) (\<lambda>abiBytes.
    bindO (liftO (parseJsonWithoutDuplicates fixtureBytes)) (\<lambda>constructorValues.
    let inputs = \<lparr>raiBuildInfo = buildInfoBytes, raiArtifact = artifactBytes, raiAbi = abiBytes, raiFixture = fixtureBytes,
          aiConstructorValues = constructorValues\<rparr> in
    bindO (liftO (approveForgeArtifact sha256 inputs roots)) (\<lambda>approved.
    bindO (liftO (assertLoopbackUrl (ppNewUrl ports) (piRpcUrl input))) (\<lambda>url.
    let rpc = ppRpcAt ports url in
    bindO trustedNowSeconds (\<lambda>now.
    bindO (liftO (observeFees rpc \<lparr>frFrom = trFrom roots, frCreationInput = aaCreationInput approved, frNowSeconds = now,
      frMaxPriorityFeePerGas = piMaxPriorityFeePerGas input, frMaxFeePerGas = piMaxFeePerGas input\<rparr>)) (\<lambda>observation.
    bindO (liftO (buildStablePlan sha256 approved roots)) (\<lambda>plan.
    bindO (liftO (buildFeeQuote plan observation roots)) (\<lambda>quote.
    bindO (liftO (independentlyVerifyRpc sha256 rpc plan quote (aaCreationInput approved))) (\<lambda>_.
    bindO (ppNative ports) (\<lambda>evidence.
    finallyO
      (bindO (liftO (jsonBytes (JObj Plain (evidenceFields evidence)))) (\<lambda>evidenceBytes.
       publishAndVerify sha256 lock rpc \<lparr>prParent = piOutputParent input, prBundleName = piBundleName input, prPlan = plan,
         prQuote = quote, prRoots = roots, prExpected = approved, prArtifactInputs = rawArtifactInputs.truncate inputs,
         prEvidenceBytes = evidenceBytes, prHooks = [''noReplaceDirectoryRename'']\<rparr>))
      (ppCloseNative ports))))))))))))))))"

end
