(* ===== verification/PlanBundleProps.thy ===== *)
theory PlanBundleProps
  imports PlanBundle PlanRpc
begin

text \<open>
  What publishing and verifying a bundle guarantees whatever the file system, the clock and the node answer:
  what is committed when a publication is returned, what a verified bundle contains, and that every
  directory that was claimed is closed.
\<close>

section \<open>The content of an output\<close>

definition leafBytes :: "outWorld \<Rightarrow> string \<Rightarrow> nat list option" where
  "leafBytes s name = map_option hlBytes (map_of (owLeaves s) name)"

definition documentIs :: "(nat list \<Rightarrow> js_error + 'a) \<Rightarrow> string \<Rightarrow> outWorld \<Rightarrow> 'a \<Rightarrow> bool" where
  "documentIs parse name s x \<longleftrightarrow> (\<exists>bytes. leafBytes s name = Some bytes \<and> parse bytes = Inr x)"

lemma leafBytes_quiet: "quietly s t \<Longrightarrow> leafBytes t = leafBytes s"
  by (auto simp: quietly_def leafBytes_def fun_eq_iff)

text \<open>Steps that leave the content alone.\<close>

definition leavesKept :: "'a outM \<Rightarrow> bool" where
  "leavesKept m \<longleftrightarrow> (\<forall>env s. leafBytes (snd (m env s)) = leafBytes s)"

named_theorems kept_intros

lemma kept_quiet: "quiet m \<Longrightarrow> leavesKept m"
  by (simp add: leavesKept_def quiet_def leafBytes_quiet)

lemma kept_bind [kept_intros]: "leavesKept m \<Longrightarrow> (\<And>x. leavesKept (f x)) \<Longrightarrow> leavesKept (bindO m f)"
  unfolding leavesKept_def bindO_def by (auto split: prod.splits sum.splits) (metis snd_conv)+

lemma kept_catch [kept_intros]: "leavesKept m \<Longrightarrow> (\<And>e. leavesKept (h e)) \<Longrightarrow> leavesKept (catchO m h)"
  unfolding leavesKept_def catchO_def by (auto split: prod.splits sum.splits) (metis snd_conv)+

lemma kept_try [kept_intros]: "leavesKept m \<Longrightarrow> leavesKept (tryO m)"
  unfolding leavesKept_def tryO_def by (auto split: prod.splits) (metis snd_conv)

lemma kept_call [kept_intros]: "leavesKept (callO c f)"
  by (auto simp: leavesKept_def callO_def Let_def leafBytes_def split: option.split)

lemma kept_return [kept_intros]: "leavesKept (returnO x)" "leavesKept (throwO e)" "leavesKept (getsO f)"
  "leavesKept (failIfO b failure)" "leavesKept (liftO r)"
  by (rule kept_quiet, rule quiet_return)+

lemma kept_fields [kept_intros]:
  "leavesKept (modifyO (\<lambda>s. s\<lparr>owPublished := p\<rparr>))" "leavesKept (modifyO (\<lambda>s. s\<lparr>owFinalization := f\<rparr>))"
  "leavesKept (modifyO (\<lambda>s. s\<lparr>owStagingDisposed := d\<rparr>))" "leavesKept (modifyO (\<lambda>s. s\<lparr>owStagingDisposed := d, owTargetIdentity := i\<rparr>))"
  "leavesKept (modifyO (\<lambda>s. s\<lparr>owBundleClosed := p\<rparr>))"
  by (simp_all add: leavesKept_def modifyO_def leafBytes_def fun_eq_iff)

lemma kept_if [kept_intros]: "leavesKept m \<Longrightarrow> leavesKept n \<Longrightarrow> leavesKept (if b then m else n)"
  by simp

lemma kept_case_sum [kept_intros]: "(\<And>e. leavesKept (m e)) \<Longrightarrow> (\<And>x. leavesKept (f x)) \<Longrightarrow> leavesKept (case v of Inl e \<Rightarrow> m e | Inr x \<Rightarrow> f x)"
  by (cases v) simp_all

text \<open>What a part does to the content when it returns.\<close>

abbreviation writes :: "outEnv \<Rightarrow> 'a outM \<Rightarrow> (string \<Rightarrow> nat list option) \<Rightarrow> (string \<Rightarrow> nat list option) \<Rightarrow> bool" where
  "writes env m before after \<equiv> (\<forall>s. leafBytes s = before \<longrightarrow> wpO env m (\<lambda>_ t. leafBytes t = after) (\<lambda>_ _. True) s)"

lemma writes_kept: "leavesKept m \<Longrightarrow> writes env m L L"
  unfolding leavesKept_def wpO_def by (auto split: prod.split sum.split) (metis snd_conv)

lemma writes_kept_bind: "leavesKept m \<Longrightarrow> (\<And>x. writes env (f x) L L') \<Longrightarrow> writes env (bindO m f) L L'"
  unfolding wpO_bind using writes_kept[of m L env] by (auto elim!: wpO_mono)

lemma writes_bind: "writes env m L L1 \<Longrightarrow> (\<And>x. writes env (f x) L1 L') \<Longrightarrow> writes env (bindO m f) L L'"
  unfolding wpO_bind by (auto elim!: wpO_mono)

lemma writes_catch: "writes env m L L' \<Longrightarrow> (\<And>e s. wpO env (h e) (\<lambda>_ t. leafBytes t = L') (\<lambda>_ _. True) s) \<Longrightarrow> writes env (catchO m h) L L'"
  unfolding wpO_catch by (auto elim!: wpO_mono)

lemma writes_leaf: "writes env (setLeaf name leaf) L (L(name \<mapsto> hlBytes leaf))"
  by (auto simp: setLeaf_def wpO_modify leafBytes_def fun_eq_iff)

section \<open>What the methods write\<close>

lemma claim_writes: "wpO env (claimOwnedOutputDirectory parent bundleName hooks) (\<lambda>_ t. leafBytes t = Map.empty) (\<lambda>_ _. True) s"
proof -
  have c: "wpO env (constructOutput out) (\<lambda>_ t. leafBytes t = Map.empty) (\<lambda>_ _. True) s" for out s
    by (simp add: constructOutput_def wpO_simps leafBytes_def fun_eq_iff)
  have k: "wpO env (bindO (constructOutput out) (\<lambda>claimed. bindO (assertStagingStable claimed) (\<lambda>_. returnO claimed)))
      (\<lambda>_ t. leafBytes t = Map.empty) (\<lambda>_ _. True) s" for out s
    unfolding wpO_bind by (rule wpO_mono[OF c], rule wpO_quiet, (rule quiet_intros)+) (simp_all add: wpO_return leafBytes_quiet)
  have any: "wpO env (bindO m f) Q (\<lambda>_ _. True) s" if "\<And>x t. wpO env (f x) Q (\<lambda>_ _. True) t" for m f Q s
    using that by (rule wpO_throwing)
  show ?thesis
    unfolding claimOwnedOutputDirectory_def Let_def
    apply (rule any)+
    apply (unfold wpO_catch)
    apply (rule wpO_mono[where E = "\<lambda>_ _. True"])
    apply (rule any, rule any, rule k)
    by (simp_all only: abandonClaim_throws)
qed

lemma writeHeld_writes: "writes env (writeHeld out name bytes h) L (L(name \<mapsto> bytes))"
proof -
  have k: "writes env (bindO (setLeaf name \<lparr>hlHandle = h, hlIdentity = i, hlBytes = bytes\<rparr>) (\<lambda>_. returnO i)) L (L(name \<mapsto> bytes))" for i
    by (rule writes_bind[OF writes_leaf]) (simp add: wpO_return)
  show ?thesis
    unfolding writeHeld_def Let_def
    by (rule writes_kept_bind, rule kept_quiet, (rule quiet_intros)+)+ (rule k)
qed

lemma writeExclusive_writes: "writes env (writeExclusive out name bytes) L (L(name \<mapsto> bytes))"
proof -
  note q = writes_kept_bind[OF kept_quiet]
  have c: "writes env (catchO (writeHeld out name bytes h) (\<lambda>e. bindO (doO (Close h)) (\<lambda>_. throwO e))) L (L(name \<mapsto> bytes))" for h
    by (rule writes_catch[OF writeHeld_writes]) (rule wpO_throwing, simp add: wpO_throw)
  show ?thesis
    unfolding writeExclusive_def
    apply (rule writes_bind[OF c] | (rule q, (rule quiet_intros)+))+
    by (rule writes_kept, rule kept_quiet, (rule quiet_intros)+)
qed

lemma publish_keeps_leaves: "leavesKept (publish out)"
  unfolding publish_def uncertainly_def publishRename_def syncParent_call
  by (intro kept_intros; rule kept_quiet; (rule quiet_intros)+)

lemma finalizing_writes: "writes env m L L' \<Longrightarrow> writes env (finalizing h maybePublished retained m) L L'"
  unfolding finalizing_def by (erule writes_catch) (intro wpO_throwing, simp add: wpO_throw)

lemma finalizeReady_writes: "writes env (finalizeReady out bytes) L (L(''READY'' \<mapsto> bytes))"
proof -
  note q = writes_kept_bind[OF kept_quiet]
  have p: "writes env (finalizing h b r (prepareReady out bytes pending h)) L L" for h b r pending
    unfolding prepareReady_def Let_def by (rule finalizing_writes, rule writes_kept, rule kept_quiet) (rule quiet_intros)+
  have c: "writes env (finalizing h b r (checkReady out i)) L L" for h b r i
    by (rule finalizing_writes, rule writes_kept, rule kept_quiet) (rule quiet_intros)+
  have r: "writes env (renameReady out pending h) L L" for pending h
    unfolding renameReady_def finalizing_def by (rule writes_kept) (intro kept_intros)
  show ?thesis
    unfolding finalizeReady_def Let_def syncMarker_call
    apply (rule writes_bind[OF p] writes_bind[OF r] writes_bind[OF c] writes_bind[OF writes_leaf] | (rule q, (rule quiet_intros)+))+
    apply (unfold heldLeaf.select_convs)
    apply (rule finalizing_writes)
    apply (rule q, (rule quiet_intros)+)+
    by (rule writes_kept) (rule kept_intros)
qed

section \<open>The quiet parts of the composition\<close>

lemma quiet_finally [quiet_intros]: "quiet m \<Longrightarrow> quiet c \<Longrightarrow> quiet (finallyO m c)"
  unfolding finallyO_def by (intro quiet_intros)

lemma quiet_readRest: "quietly s (snd (readRest h wanted bytes env s))"
proof (induction h wanted bytes env s rule: readRest.induct)
  case (1 h wanted bytes env s)
  let ?read = "callO (ReadFrom h (length bytes) (wanted - length bytes)) anBytes"
  have q: "quietly s (snd (?read env s))" by (rule keepsO, rule quiet_call) simp
  show ?case
  proof (cases "wanted \<le> length bytes \<or> (\<exists>e t. ?read env s = (Inl e, t))")
    case True
    then show ?thesis using q by (subst readRest.simps) (auto simp: returnO_def)
  next
    case False
    then obtain result t where r: "?read env s = (Inr result, t)" "\<not> wanted \<le> length bytes"
      by (metis obj_sumE prod.collapse)
    have "quietly t (snd (readRest h wanted (bytes @ take (wanted - length bytes) result) env t))" if "result \<noteq> []"
      using 1[OF r(2) r(1)[symmetric] refl that] .
    with q r show ?thesis by (subst readRest.simps) (auto simp: throwO_def intro: quietly_trans)
  qed
qed

lemma quiet_clock [quiet_intros]: "quiet trustedNowSeconds"
  unfolding trustedNowSeconds_def by (intro quiet_intros) (auto split: jsval.split intro: quiet_intros)

lemma quiet_policy [quiet_intros]: "quiet (readPolicyBytes lock)" "quiet (loadCommittedNativeNoReplacePolicy lock)"
proof -
  have "quiet (readRest h n bytes)" for h n bytes using quiet_readRest by (simp add: quiet_def)
  then show "quiet (readPolicyBytes lock)" unfolding readPolicyBytes_def by (intro quiet_intros; simp)
  then show "quiet (loadCommittedNativeNoReplacePolicy lock)"
    unfolding loadCommittedNativeNoReplacePolicy_def by (intro quiet_intros)
qed

lemma quiet_parts [quiet_intros]:
  "quiet (safeRead path)" "quiet (verifyWithCommittedAuthority sha256 lock request)"
  "quiet (assertExactBundle directory rejectStaging readyRequired)" "quiet (bundleReadCommitted name)"
  "quiet (assertCurrent publication)"
  unfolding safeRead_def verifyWithCommittedAuthority_def assertExactBundle_def bundleReadCommitted_def assertCurrent_def assertOpen_def Let_def
  by (intro quiet_intros; simp)+

lemma quiet_prepared [quiet_intros]: "quiet (assertPreparedContent sha256 lock directory expected request now)"
  unfolding assertPreparedContent_def by (intro quiet_intros)

lemma verifyBundle_quiet [quiet_intros]: "quiet (verifyBundle sha256 lock rpc request)"
  unfolding verifyBundle_def Let_def by (intro quiet_intros)

section \<open>What a verified bundle contains\<close>

text \<open>
  What the committed authority accepts: the documents agree with what is built from the raw inputs under
  the trust roots, the quote is live at the time, and the native evidence, in canonical bytes, is that of
  the committed policy.
\<close>

definition nativeEvidenceCommitted :: "(nat list \<Rightarrow> string) \<Rightarrow> nat list \<Rightarrow> bool" where
  "nativeEvidenceCommitted sha256 bytes \<longleftrightarrow> (\<exists>evidence policy. parseNativeNoReplaceEvidence bytes = Inr evidence
     \<and> jsonBytes (JObj Plain (evidenceFields evidence)) = Inr bytes
     \<and> verifyNativeNoReplaceEvidence sha256 evidence (JObj Plain policy) = Inr ())"

definition trustedDocuments :: "(nat list \<Rightarrow> string) \<Rightarrow> authorityRequest \<Rightarrow> bool" where
  "trustedDocuments sha256 au \<longleftrightarrow>
     (\<exists>a. independentlyApproveRawArtifact sha256 parseRawArtifactJson (auArtifactInputs au) (auRoots au) = Inr a
        \<and> boundToRoots sha256 (auArtifactInputs au) (auRoots au) a
        \<and> agreesWithBuilt (spIdentity (auPlan au)) a (auRoots au))
   \<and> computePlanId sha256 (spIdentity (auPlan au)) = Inr (spPlanId (auPlan au))
   \<and> quoteSpec (auPlan au) (auQuote au) (auRoots au) (auNowSeconds au)
   \<and> rmPlanId (auReady au) = spPlanId (auPlan au)
   \<and> \<not> spBroadcastAllowed (auPlan au) \<and> \<not> spMainnetAllowed (auPlan au)
   \<and> nativeEvidenceCommitted sha256 (auEvidenceBytes au)"

lemma liftO_Inr: "liftO r env s = (Inr x, t) \<longleftrightarrow> r = Inr x \<and> t = s"
  by (auto simp: liftO_def throwO_def returnO_def split: sum.split)

lemma authority_sound:
  assumes "verifyWithCommittedAuthority sha256 lock au env s = (Inr u, t)"
  shows "trustedDocuments sha256 au"
proof -
  from assms obtain evidence policy where e: "parseNativeNoReplaceEvidence (auEvidenceBytes au) = Inr evidence"
      "jsonBytes (JObj Plain (evidenceFields evidence)) = Inr (auEvidenceBytes au)"
      "independentlyVerify sha256 parseRawArtifactJson (authorityVerification au evidence policy) = Inr ()"
    unfolding verifyWithCommittedAuthority_def bindO_Inr liftO_Inr failIfO_Inr by auto
  from e(3) have "verifyNativeNoReplaceEvidence sha256 evidence (JObj Plain policy) = Inr ()"
    unfolding independentlyVerify_def bindE_Inr_iff by (auto simp: authorityVerification_def)
  with accepted_plan[OF e(3)] e show ?thesis
    unfolding trustedDocuments_def nativeEvidenceCommitted_def
    by (auto simp: authorityVerification_def)
qed

text \<open>The four committed documents of a bundle, and that their digests are those of READY.\<close>

record bundleBytes =
  bbPlan :: "nat list"
  bbQuote :: "nat list"
  bbEvidence :: "nat list"
  bbReady :: "nat list"

definition holds :: "outWorld \<Rightarrow> bundleBytes \<Rightarrow> bool" where
  "holds s b \<longleftrightarrow> leafBytes s PLAN = Some (bbPlan b) \<and> leafBytes s QUOTE = Some (bbQuote b)
     \<and> leafBytes s NATIVE_EVIDENCE = Some (bbEvidence b) \<and> leafBytes s READY = Some (bbReady b)"

definition digestsOf :: "(nat list \<Rightarrow> string) \<Rightarrow> bundleBytes \<Rightarrow> readyMarker \<Rightarrow> bool" where
  "digestsOf sha256 b ready \<longleftrightarrow> rmPlanSha256 ready = sha256Hex sha256 (bbPlan b)
     \<and> rmQuoteSha256 ready = sha256Hex sha256 (bbQuote b) \<and> rmNativeEvidenceSha256 ready = sha256Hex sha256 (bbEvidence b)"

definition bundleAuthority :: "verifyBundleRequest \<Rightarrow> stablePlan \<Rightarrow> feeQuote \<Rightarrow> readyMarker \<Rightarrow> nat list \<Rightarrow> int \<Rightarrow> authorityRequest" where
  "bundleAuthority request plan quote ready evidence now = \<lparr>auPlan = plan, auQuote = quote, auRoots = vbRoots request,
     auExpected = vbExpected request, auArtifactInputs = vbArtifactInputs request, auReady = ready,
     auEvidenceBytes = evidence, auNowSeconds = now\<rparr>"

definition verifiedContent :: "(nat list \<Rightarrow> string) \<Rightarrow> planRpc \<Rightarrow> verifyBundleRequest \<Rightarrow> stablePlan \<Rightarrow> feeQuote \<Rightarrow> outWorld \<Rightarrow> bool" where
  "verifiedContent sha256 rpc request plan quote s \<longleftrightarrow>
     (\<exists>b ready now. holds s b \<and> parseReadyMarker (bbReady b) = Inr ready \<and> parseStablePlan (bbPlan b) = Inr plan
        \<and> parseFeeQuote (bbQuote b) = Inr quote \<and> digestsOf sha256 b ready
        \<and> vbExpectedQuoteSha256 request = sha256Hex sha256 (bbQuote b)
        \<and> trustedDocuments sha256 (bundleAuthority request plan quote ready (bbEvidence b) now))
   \<and> getP (spIdentity plan) ''creationInput'' = JStr (vbCreationInput request)
   \<and> nodeAgrees rpc plan (fqObservation quote) (vbCreationInput request)"

lemma quietO: "quiet m \<Longrightarrow> m env s = (r, t) \<Longrightarrow> quietly s t"
  using keepsO[of m s env] by simp

lemma read_bundle:
  assumes "bundleReadCommitted name env s = (Inr bytes, t)"
  shows "leafBytes s name = Some bytes" "owFinalization s = Durable" "\<not> owBundleClosed s" "quietly s t"
proof -
  have "quiet (bundleReadCommitted name)" by (rule quiet_intros)
  from quietO[OF this] assms show "quietly s t" by simp
  from assms show "leafBytes s name = Some bytes" "owFinalization s = Durable" "\<not> owBundleClosed s"
    unfolding bundleReadCommitted_def assertOpen_def readCommitted_def runs by (auto simp: runs leafBytes_def split: option.splits)
qed

lemma digests_Inr:
  "verifyReadyDigests sha256 planBytes quoteBytes evidenceBytes ready = Inr u \<Longrightarrow>
   digestsOf sha256 \<lparr>bbPlan = planBytes, bbQuote = quoteBytes, bbEvidence = evidenceBytes, bbReady = marker\<rparr> ready"
  by (auto simp: verifyReadyDigests_def digestsOf_def)

lemma verifyBundle_returns:
  assumes "verifyBundle sha256 lock rpc request env s = (Inr (plan, quote), t)"
  shows "verifiedContent sha256 rpc request plan quote s \<and> owFinalization s = Durable \<and> \<not> owBundleClosed s"
proof -
  from assms obtain marker planB quoteB evB ready now s1 s2 s3 s4 s5 s6 where
      r: "bundleReadCommitted READY env s = (Inr marker, s1)" "bundleReadCommitted PLAN env s1 = (Inr planB, s2)"
        "bundleReadCommitted QUOTE env s2 = (Inr quoteB, s3)" "bundleReadCommitted NATIVE_EVIDENCE env s3 = (Inr evB, s4)"
      and p: "sha256Hex sha256 quoteB = vbExpectedQuoteSha256 request" "parseReadyMarker marker = Inr ready"
        "parseStablePlan planB = Inr plan" "parseFeeQuote quoteB = Inr quote"
        "verifyReadyDigests sha256 planB quoteB evB ready = Inr ()"
      and a: "verifyWithCommittedAuthority sha256 lock (bundleAuthority request plan quote ready evB now) env s5 = (Inr (), s6)"
      and n: "independentlyVerifyRpc sha256 rpc plan quote (vbCreationInput request) = Inr ()"
    unfolding verifyBundle_def Let_def bindO_Inr liftO_Inr failIfO_Inr returnO_Inr bundleAuthority_def by auto
  note q = leafBytes_quiet[OF read_bundle(4)[OF r(1)]] leafBytes_quiet[OF read_bundle(4)[OF r(2)]] leafBytes_quiet[OF read_bundle(4)[OF r(3)]]
  have "holds s \<lparr>bbPlan = planB, bbQuote = quoteB, bbEvidence = evB, bbReady = marker\<rparr>"
    using read_bundle(1)[OF r(1)] read_bundle(1)[OF r(2)] read_bundle(1)[OF r(3)] read_bundle(1)[OF r(4)] q
    by (simp add: holds_def)
  moreover note digests_Inr[OF p(5), of marker] authority_sound[OF a] n[unfolded rpc_steps]
  ultimately show ?thesis
    using p(1-4) read_bundle(2,3)[OF r(1)] unfolding verifiedContent_def
    by (intro conjI exI[of _ "\<lparr>bbPlan = planB, bbQuote = quoteB, bbEvidence = evB, bbReady = marker\<rparr>"] exI[of _ ready] exI[of _ now]) simp_all
qed

lemma wpO_quiet_returns:
  "quiet m \<Longrightarrow> (\<And>x t. m env s = (Inr x, t) \<Longrightarrow> quietly s t \<Longrightarrow> Q x t) \<Longrightarrow> wpO env m Q (\<lambda>_ t. quietly s t) s"
  unfolding quiet_def wpO_def by (auto split: prod.split sum.split) (metis snd_conv)+

lemma verified_sound:
  assumes "history env out s"
  shows "wpO env (verifyBundle sha256 lock rpc request) (\<lambda>(plan, quote) t. quietly s t \<and> owFinalization s = Durable \<and>
     \<not> owBundleClosed s \<and> committedOrder out s \<and> verifiedContent sha256 rpc request plan quote s) (\<lambda>_ t. quietly s t) s"
proof (rule wpO_quiet_returns[OF verifyBundle_quiet])
  fix x t assume v: "verifyBundle sha256 lock rpc request env s = (Inr x, t)" "quietly s t"
  obtain plan quote where x: "x = (plan, quote)" by (cases x)
  note r = verifyBundle_returns[OF v(1)[unfolded x]]
  then have "committedOrder out s"
    using history_invariant[OF assms] by (auto simp: outputInv_def finalizedOrder_def committedOrder_def)
  with r v(2) show "(case x of (plan, quote) \<Rightarrow> \<lambda>t. quietly s t \<and> owFinalization s = Durable \<and> \<not> owBundleClosed s \<and>
     committedOrder out s \<and> verifiedContent sha256 rpc request plan quote s) t" by (simp add: x)
qed

section \<open>What a publication commits\<close>

text \<open>Steps that stay within the histories of an output, and steps that rename nothing.\<close>

definition historyKept :: "claimedOutput \<Rightarrow> 'a outM \<Rightarrow> bool" where
  "historyKept out m \<longleftrightarrow> (\<forall>env s. history env out s \<longrightarrow> history env out (snd (m env s)))"

definition renameless :: "'a outM \<Rightarrow> bool" where
  "renameless m \<longleftrightarrow> (\<forall>env s. noRenames s \<longrightarrow> noRenames (snd (m env s)))"

named_theorems history_intros

lemma hist_quiet: "quiet m \<Longrightarrow> historyKept out m"
  unfolding historyKept_def by (blast intro: history_quietly keepsO)

lemma hist_bind [history_intros]: "historyKept out m \<Longrightarrow> (\<And>x. historyKept out (f x)) \<Longrightarrow> historyKept out (bindO m f)"
  unfolding historyKept_def bindO_def by (auto split: prod.splits sum.splits) (metis snd_conv)+

lemma renameless_quiet: "quiet m \<Longrightarrow> renameless m"
  unfolding renameless_def quiet_def using noRenames_stable unfolding stableO_def by blast

lemma renameless_bind: "renameless m \<Longrightarrow> (\<And>x. renameless (f x)) \<Longrightarrow> renameless (bindO m f)"
  unfolding renameless_def bindO_def by (auto split: prod.splits sum.splits) (metis snd_conv)+

lemma renameless_catch: "renameless m \<Longrightarrow> (\<And>e. renameless (h e)) \<Longrightarrow> renameless (catchO m h)"
  unfolding renameless_def catchO_def by (auto split: prod.splits sum.splits) (metis snd_conv)+

lemma hist_methods [history_intros]:
  "historyKept out (writeExclusive out name bytes)" "historyKept out (publish out)"
  "historyKept out (finalizeReady out bytes)" "historyKept out (closeOutput out)"
proof -
  have "snd (bindO (publish out) (\<lambda>_. returnO ()) env s) = snd (publish out env s)" for env s
    by (auto simp: bindO_def returnO_def split: prod.split sum.split)
  then show "historyKept out (writeExclusive out name bytes)" "historyKept out (publish out)"
    "historyKept out (finalizeReady out bytes)" "historyKept out (closeOutput out)"
    unfolding historyKept_def using history.performed[of _ out _ "MWrite name bytes"] history.performed[of _ out _ MPublish]
      history.performed[of _ out _ "MFinalize bytes"] history.performed[of _ out _ MClose]
    by auto
qed

lemma hist_mark [history_intros]: "historyKept out (modifyO (\<lambda>s. s\<lparr>owBundleClosed := b\<rparr>))"
  unfolding historyKept_def modifyO_def by (intro allI impI) (erule history.others, simp add: quietly_def)

lemma hist_case_prod [history_intros]: "(\<And>x y. historyKept out (f x y)) \<Longrightarrow> historyKept out (case v of (x, y) \<Rightarrow> f x y)"
  by (cases v) simp_all

lemma publishOutput_history: "historyKept out (publishOutput sha256 lock request prepared readyBytes out)"
  unfolding publishOutput_def
  by (intro history_intros; rule hist_quiet; (rule quiet_intros)+)

lemma claim_renameless: "renameless (claimOwnedOutputDirectory parent bundleName hooks)"
proof -
  have a: "renameless (abandonClaim p st ph i h e)" for p st ph i h e
    unfolding abandonClaim_def quarantineOwnedDirectory_def Let_def by (rule renameless_quiet) (intro quiet_intros; simp)
  have c: "renameless (constructOutput out)" for out
    by (simp add: renameless_def constructOutput_def bindO_def modifyO_def returnO_def noRenames_def)
  show ?thesis
    unfolding claimOwnedOutputDirectory_def Let_def
    by (intro renameless_bind renameless_catch a c; rule renameless_quiet; (rule quiet_intros)+)
qed

lemma closeOutput_closes: "\<exists>outcome. owClosed (snd (closeOutput out env s)) = Some outcome"
proof (cases "owClosed s")
  case None
  then show ?thesis
    by (auto simp: closeOutput_def bindO_def getsO_def tryO_def modifyO_def throwO_def returnO_def split: prod.split sum.split)
qed (auto simp: closeOutput_def bindO_def getsO_def throwO_def returnO_def split: sum.split)

definition closedOutput :: "outEnv \<Rightarrow> outWorld \<Rightarrow> bool" where
  "closedOutput env s \<longleftrightarrow> (\<exists>out outcome. history env out s \<and> owClosed s = Some outcome)"

lemma abandon_closes:
  assumes "history env out s"
  shows "wpO env (abandonOutput out e) Q (\<lambda>_. closedOutput env) s"
proof -
  have "closedOutput env (snd (closeOutput out env s))"
    using hist_methods(4) assms closeOutput_closes unfolding closedOutput_def historyKept_def by blast
  then show ?thesis
    by (auto simp: abandonOutput_def wpO_def bindO_def tryO_def throwO_def split: prod.split sum.split)
qed

text \<open>The documents that a request writes, and their READY marker.\<close>

definition readyOf :: "(nat list \<Rightarrow> string) \<Rightarrow> publishRequest \<Rightarrow> bundleBytes \<Rightarrow> readyMarker" where
  "readyOf sha256 request b = \<lparr>rmPlanSha256 = sha256Hex sha256 (bbPlan b), rmQuoteSha256 = sha256Hex sha256 (bbQuote b),
     rmNativeEvidenceSha256 = sha256Hex sha256 (bbEvidence b), rmPlanId = spPlanId (prPlan request),
     rmCreationInputHash = fqCreationInputHash (prQuote request)\<rparr>"

definition writtenFor :: "(nat list \<Rightarrow> string) \<Rightarrow> publishRequest \<Rightarrow> bundleBytes \<Rightarrow> bool" where
  "writtenFor sha256 request b \<longleftrightarrow> jsonBytes (JObj Plain (planFields (prPlan request))) = Inr (bbPlan b)
     \<and> jsonBytes (JObj Plain (quoteFields (prQuote request))) = Inr (bbQuote b) \<and> bbEvidence b = prEvidenceBytes request
     \<and> jsonBytes (JObj Plain (readyFields (readyOf sha256 request b))) = Inr (bbReady b)"

definition preparedFrom :: "(nat list \<Rightarrow> string) \<Rightarrow> publishRequest \<Rightarrow> bundleBytes \<Rightarrow> preparedContent" where
  "preparedFrom sha256 request b = \<lparr>pcPlanBytes = bbPlan b, pcQuoteBytes = bbQuote b, pcEvidenceBytes = bbEvidence b,
     pcReady = readyOf sha256 request b\<rparr>"

text \<open>The bytes, read again, are a plan and a quote that the committed authority accepts.\<close>

definition trustedBytes :: "(nat list \<Rightarrow> string) \<Rightarrow> publishRequest \<Rightarrow> bundleBytes \<Rightarrow> bool" where
  "trustedBytes sha256 request b \<longleftrightarrow> (\<exists>plan quote now. parseStablePlan (bbPlan b) = Inr plan \<and> parseFeeQuote (bbQuote b) = Inr quote
     \<and> trustedDocuments sha256 \<lparr>auPlan = plan, auQuote = quote, auRoots = prRoots request, auExpected = prExpected request,
         auArtifactInputs = prArtifactInputs request, auReady = readyOf sha256 request b, auEvidenceBytes = bbEvidence b, auNowSeconds = now\<rparr>)"

definition identifies :: "(nat list \<Rightarrow> string) \<Rightarrow> bundleIdentity \<Rightarrow> bundleBytes \<Rightarrow> bool" where
  "identifies sha256 i b \<longleftrightarrow> biPlanSha256 i = sha256Hex sha256 (bbPlan b) \<and> biQuoteSha256 i = sha256Hex sha256 (bbQuote b)
     \<and> biEvidenceSha256 i = sha256Hex sha256 (bbEvidence b) \<and> biReadySha256 i = sha256Hex sha256 (bbReady b)"

abbreviation bundleLeaves :: "bundleBytes \<Rightarrow> string \<Rightarrow> nat list option" where
  "bundleLeaves b \<equiv> [PLAN \<mapsto> bbPlan b, QUOTE \<mapsto> bbQuote b, NATIVE_EVIDENCE \<mapsto> bbEvidence b, READY \<mapsto> bbReady b]"

lemma prepared_sound:
  assumes "assertPreparedContent sha256 lock directory (preparedFrom sha256 request b) request now env s = (Inr u, t)"
  shows "trustedBytes sha256 request b"
proof -
  from assms obtain planB quoteB evB plan quote s1 s2 where
      e: "\<not> (planB \<noteq> bbPlan b \<or> quoteB \<noteq> bbQuote b \<or> evB \<noteq> bbEvidence b)" "parseStablePlan planB = Inr plan" "parseFeeQuote quoteB = Inr quote"
        "verifyWithCommittedAuthority sha256 lock \<lparr>auPlan = plan, auQuote = quote, auRoots = prRoots request,
           auExpected = prExpected request, auArtifactInputs = prArtifactInputs request, auReady = readyOf sha256 request b,
           auEvidenceBytes = evB, auNowSeconds = now\<rparr> env s1 = (Inr u, s2)"
    unfolding assertPreparedContent_def preparedFrom_def bindO_Inr liftO_Inr failIfO_Inr preparedContent.select_convs
    apply (elim exE conjE)
    apply hypsubst
    apply (rule that)
       apply assumption+
    done
  have "planB = bbPlan b" "quoteB = bbQuote b" "evB = bbEvidence b" using e(1) by simp_all
  with e(2-3) authority_sound[OF e(4)] show ?thesis unfolding trustedBytes_def by blast
qed

text \<open>A step of the publication: what it does to the content when it returns.\<close>

lemma wrote: "writes env m L L' \<Longrightarrow> leafBytes s = L \<Longrightarrow> m env s = (Inr x, t) \<Longrightarrow> leafBytes t = L'"
  by (drule spec, drule mp, assumption) (erule (1) wpO_result)

lemma kept: "quiet m \<Longrightarrow> leafBytes s = L \<Longrightarrow> m env s = (Inr x, t) \<Longrightarrow> leafBytes t = L"
  using leafBytes_quiet quietO by metis

lemma publishOutput_returns:
  assumes "publishOutput sha256 lock request (preparedFrom sha256 request b) (bbReady b) out env s = (Inr pub, t)"
    and empty: "leafBytes s = Map.empty"
  shows "pbOutput pub = out \<and> leafBytes t = bundleLeaves b \<and> owFinalization t = Durable \<and> \<not> owBundleClosed t
     \<and> identifies sha256 (pbIdentity pub) b \<and> trustedBytes sha256 request b"
proof -
  let ?p = "preparedFrom sha256 request b"
  from assms(1) obtain s1 s2 s3 s4 s5 s6 s7 s8 s9 s10 s11 s12 s13 now1 now2 published device inode where
      w: "writeExclusive out PLAN (bbPlan b) env s = (Inr (), s1)" "writeExclusive out QUOTE (bbQuote b) env s1 = (Inr (), s2)"
        "writeExclusive out NATIVE_EVIDENCE (bbEvidence b) env s2 = (Inr (), s3)"
      and c: "assertExactBundle (ocPath out) False False env s3 = (Inr (), s4)" "trustedNowSeconds env s4 = (Inr now1, s5)"
        "assertPreparedContent sha256 lock (ocPath out) ?p request now1 env s5 = (Inr (), s6)"
      and p: "publish out env s6 = (Inr published, s7)"
      and d: "assertExactBundle published True False env s7 = (Inr (), s8)" "trustedNowSeconds env s8 = (Inr now2, s9)"
        "assertPreparedContent sha256 lock published ?p request now2 env s9 = (Inr (), s10)"
      and f: "finalizeReady out (bbReady b) env s10 = (Inr (), s11)"
      and a: "assertCommitted out env s11 = (Inr (), s12)" "publicationIdentity env s12 = (Inr (device, inode), s13)"
      and t: "t = s13\<lparr>owBundleClosed := False\<rparr>"
      and pub: "pub = \<lparr>pbOutput = out, pbDirectory = published, pbIdentity = \<lparr>biDirectoryDevice = device, biDirectoryInode = inode,
        biPlanSha256 = sha256Hex sha256 (bbPlan b), biQuoteSha256 = sha256Hex sha256 (bbQuote b),
        biEvidenceSha256 = sha256Hex sha256 (bbEvidence b), biReadySha256 = sha256Hex sha256 (bbReady b)\<rparr>\<rparr>"
    unfolding publishOutput_def bindO_Inr returnO_Inr modifyO_def preparedFrom_def preparedContent.select_convs by (auto split: prod.splits simp: bindO_Inr returnO_Inr)
  have "leafBytes s6 = [PLAN \<mapsto> bbPlan b, QUOTE \<mapsto> bbQuote b, NATIVE_EVIDENCE \<mapsto> bbEvidence b]"
    by (rule kept[OF quiet_prepared kept[OF quiet_clock kept[OF quiet_parts(3) wrote[OF writeExclusive_writes wrote[OF writeExclusive_writes wrote[OF writeExclusive_writes empty w(1)] w(2)] w(3)] c(1)] c(2)] c(3)])
  moreover have "leafBytes s7 = leafBytes s6" using publish_keeps_leaves p unfolding leavesKept_def by (metis snd_conv)
  moreover have "leafBytes s10 = leafBytes s7"
    by (rule kept[OF quiet_prepared kept[OF quiet_clock kept[OF quiet_parts(3) refl d(1)] d(2)] d(3)])
  ultimately have "leafBytes s11 = bundleLeaves b"
    using wrote[OF finalizeReady_writes refl f] by (simp add: READY_def)
  then have "leafBytes s13 = bundleLeaves b" 
    by (intro kept[OF quiet_reads(5) kept[OF quiet_reads(4) _ a(1)] a(2)])
  moreover have "owFinalization s11 = Durable" using a(1) unfolding assertCommitted_def bindO_Inr by (auto simp: assertFinalized_ok)
  then have "owFinalization s13 = Durable"
    using quietO[OF quiet_reads(4) a(1)] quietO[OF quiet_reads(5) a(2)] by (simp add: quietly_def)
  ultimately show ?thesis
    using prepared_sound[OF d(3)] by (simp add: t pub identifies_def leafBytes_def fun_eq_iff)
qed

text \<open>The state in which a publication is handed out, and the states in which publishing fails.\<close>

definition committedFor :: "(nat list \<Rightarrow> string) \<Rightarrow> publishRequest \<Rightarrow> outEnv \<Rightarrow> publishedBundle \<Rightarrow> outWorld \<Rightarrow> bool" where
  "committedFor sha256 request env pub t \<longleftrightarrow> history env (pbOutput pub) t \<and> owFinalization t = Durable \<and> committedOrder (pbOutput pub) t
     \<and> (\<exists>b. writtenFor sha256 request b \<and> leafBytes t = bundleLeaves b \<and> identifies sha256 (pbIdentity pub) b \<and> trustedBytes sha256 request b)"

definition nothingLeftOpen :: "outEnv \<Rightarrow> outWorld \<Rightarrow> bool" where
  "nothingLeftOpen env s \<longleftrightarrow> noRenames s \<or> closedOutput env s"

lemma durable_ordered: "history env out s \<Longrightarrow> owFinalization s = Durable \<Longrightarrow> committedOrder out s"
  using history_invariant[of env out s] by (auto simp: outputInv_def finalizedOrder_def committedOrder_def)

lemma publishing:
  assumes w: "writtenFor sha256 request b" and h: "history env out s" and empty: "leafBytes s = Map.empty"
  shows "wpO env (catchO (publishOutput sha256 lock request (preparedFrom sha256 request b) (bbReady b) out) (abandonOutput out))
    (\<lambda>pub t. committedFor sha256 request env pub t \<and> \<not> owBundleClosed t) (\<lambda>_. nothingLeftOpen env) s"
proof -
  let ?m = "publishOutput sha256 lock request (preparedFrom sha256 request b) (bbReady b) out"
  have "history env out (snd (?m env s))" using publishOutput_history h unfolding historyKept_def by blast
  then have k: "history env out t" if "?m env s = (r, t)" for r t using that by simp
  have "wpO env ?m (\<lambda>pub t. committedFor sha256 request env pub t \<and> \<not> owBundleClosed t) (\<lambda>_. history env out) s"
    unfolding wpO_def
  proof (auto split: prod.split sum.split)
    fix pub t assume m: "?m env s = (Inr pub, t)"
    note r = publishOutput_returns[OF m empty]
    with k[OF m] w durable_ordered[OF k[OF m]] show "committedFor sha256 request env pub t"
      unfolding committedFor_def by blast
    from r show "owBundleClosed t \<Longrightarrow> False" by simp
  qed (rule k)
  then show ?thesis
    unfolding wpO_catch
  proof (rule wpO_mono)
    fix e t assume "history env out t"
    from abandon_closes[OF this] show "wpO env (abandonOutput out e) (\<lambda>pub t. committedFor sha256 request env pub t \<and> \<not> owBundleClosed t) (\<lambda>_. nothingLeftOpen env) t"
      unfolding nothingLeftOpen_def by (rule wpO_mono) auto
  qed
qed

lemma claiming:
  assumes "noRenames s"
  shows "wpO env (claimOwnedOutputDirectory parent bundleName hooks) (\<lambda>out t. history env out t \<and> leafBytes t = Map.empty) (\<lambda>_. noRenames) s"
proof -
  let ?m = "claimOwnedOutputDirectory parent bundleName hooks"
  have "noRenames (snd (?m env s))" using claim_renameless assms unfolding renameless_def by blast
  moreover have "leafBytes t = Map.empty" if "?m env s = (Inr out, t)" for out t
    using that by (rule wpO_result[OF claim_writes])
  ultimately show ?thesis
    using assms unfolding wpO_def by (auto split: prod.split sum.split intro: history.claimed)
qed

lemma unused_open: "noRenames t \<Longrightarrow> nothingLeftOpen env t"
  by (simp add: nothingLeftOpen_def)

lemma lift_step:
  assumes "noRenames t" "\<And>x. r = Inr x \<Longrightarrow> wpO env (f x) Q (\<lambda>_. nothingLeftOpen env) t"
  shows "wpO env (bindO (liftO r) f) Q (\<lambda>_. nothingLeftOpen env) t"
  using assms unused_open by (auto simp: wpO_bind wpO_lift split: sum.split)

lemma publication_commits:
  assumes "noRenames s"
  shows "wpO env (publishReadyLast sha256 lock request) (\<lambda>pub t. committedFor sha256 request env pub t \<and> \<not> owBundleClosed t)
    (\<lambda>_. nothingLeftOpen env) s"
proof -
  note q = wpO_quiet_bind[OF _ noRenames_stable]
  note n = unused_open and lift = lift_step
  let ?Q = "\<lambda>pub t. committedFor sha256 request env pub t \<and> \<not> owBundleClosed t"
  have final: "wpO env (bindO (claimOwnedOutputDirectory p bn hooks) (\<lambda>out.
      catchO (publishOutput sha256 lock request (preparedFrom sha256 request b) (bbReady b) out) (abandonOutput out))) ?Q (\<lambda>_. nothingLeftOpen env) t"
    if "noRenames t" "writtenFor sha256 request b" for t b p bn hooks
    unfolding wpO_bind by (rule wpO_mono[OF claiming[OF that(1)]]) (use publishing[OF that(2)] n in auto)
  show ?thesis
    unfolding publishReadyLast_def Let_def
    apply (rule wpO_guard, rule n, rule assms)
    apply (rule wpO_guard, rule n, rule assms)
    apply (rule lift, rule assms)
    apply (rule lift, rule assms)
    apply (rule lift, rule assms)
    apply (rule q, (rule quiet_intros)+, rule assms)
    apply (rule q, (rule quiet_intros)+, assumption)
    subgoal for planB quoteB readyB
      using final[of _ "\<lparr>bbPlan = planB, bbQuote = quoteB, bbEvidence = prEvidenceBytes request, bbReady = readyB\<rparr>"]
      by (simp add: writtenFor_def preparedFrom_def readyOf_def)
    by (erule n)+
qed

section \<open>What a run of the planner leaves\<close>

definition verifyRequest :: "publishRequest \<Rightarrow> publishedBundle \<Rightarrow> verifyBundleRequest" where
  "verifyRequest request pub = \<lparr>vbPublication = pub, vbExpectedQuoteSha256 = biQuoteSha256 (pbIdentity pub), vbRoots = prRoots request,
     vbExpected = prExpected request, vbArtifactInputs = prArtifactInputs request, vbCreationInput = aaCreationInput (prExpected request)\<rparr>"

definition resultFor :: "publishRequest \<Rightarrow> publishedBundle \<Rightarrow> plannerResult" where
  "resultFor request pub = \<lparr>plDirectory = pbDirectory pub, plPlanId = spPlanId (prPlan request), plQuoteSha256 = biQuoteSha256 (pbIdentity pub),
     plEvidenceSha256 = biEvidenceSha256 (pbIdentity pub), plBundleIdentity = pbIdentity pub\<rparr>"

text \<open>The result of a run: a committed bundle, verified once more against the node, and closed.\<close>

definition planned :: "(nat list \<Rightarrow> string) \<Rightarrow> planRpc \<Rightarrow> publishRequest \<Rightarrow> outEnv \<Rightarrow> plannerResult \<Rightarrow> outWorld \<Rightarrow> bool" where
  "planned sha256 rpc request env result t \<longleftrightarrow> closedOutput env t \<and> (\<exists>pub plan quote. committedFor sha256 request env pub t
     \<and> result = resultFor request pub \<and> verifiedContent sha256 rpc (verifyRequest request pub) plan quote t \<and> spPlanId plan = plPlanId result)"

lemma verifiedContent_cong: "leafBytes s = leafBytes t \<Longrightarrow> verifiedContent sha256 rpc request plan quote s \<Longrightarrow> verifiedContent sha256 rpc request plan quote t"
  unfolding verifiedContent_def holds_def by simp

lemma closedOutput_quietly: "closedOutput env s \<Longrightarrow> quietly s t \<Longrightarrow> closedOutput env t"
  unfolding closedOutput_def by (metis history_quietly quietly_def)

lemma nothingLeftOpen_quietly: "nothingLeftOpen env s \<Longrightarrow> quietly s t \<Longrightarrow> nothingLeftOpen env t"
  unfolding nothingLeftOpen_def using closedOutput_quietly noRenames_stable unfolding stableO_def by blast

lemma committedFor_kept:
  "committedFor sha256 request env pub s \<Longrightarrow> history env (pbOutput pub) t \<Longrightarrow> owFinalization t = owFinalization s \<Longrightarrow> owLeaves t = owLeaves s \<Longrightarrow>
   committedFor sha256 request env pub t"
proof -
  assume a: "committedFor sha256 request env pub s" "history env (pbOutput pub) t" "owFinalization t = owFinalization s" "owLeaves t = owLeaves s"
  then have "leafBytes t = leafBytes s" by (simp add: leafBytes_def fun_eq_iff)
  with a show "committedFor sha256 request env pub t" unfolding committedFor_def by (simp add: durable_ordered)
qed

lemma planned_quietly: "planned sha256 rpc request env result s \<Longrightarrow> quietly s t \<Longrightarrow> planned sha256 rpc request env result t"
proof -
  assume p: "planned sha256 rpc request env result s" and q: "quietly s t"
  have "committedFor sha256 request env pub t" if c: "committedFor sha256 request env pub s" for pub
  proof (rule committedFor_kept[OF c])
    show "history env (pbOutput pub) t" using c q history_quietly unfolding committedFor_def by blast
  qed (use q in \<open>simp_all add: quietly_def\<close>)
  with p q show "planned sha256 rpc request env result t"
    unfolding planned_def using closedOutput_quietly verifiedContent_cong[OF leafBytes_quiet[OF q, symmetric]] by blast
qed

text \<open>Closing an open bundle closes its output and changes nothing else.\<close>

lemma closing:
  assumes c: "committedFor sha256 request env pub s" and o: "\<not> owBundleClosed s"
  shows "closeBundle pub env s = (r, t) \<Longrightarrow> committedFor sha256 request env pub t \<and> closedOutput env t \<and> leafBytes t = leafBytes s"
proof -
  let ?s = "s\<lparr>owBundleClosed := True\<rparr>" and ?out = "pbOutput pub"
  assume "closeBundle pub env s = (r, t)"
  then have t: "t = snd (closeOutput ?out env ?s)" 
    using o by (simp add: closeBundle_def bindO_def getsO_def modifyO_def)
  have "history env ?out s" using c by (simp add: committedFor_def)
  then have "history env ?out ?s" using hist_mark unfolding historyKept_def modifyO_def by (metis snd_conv)
  then have h: "history env ?out t" using hist_methods(4) unfolding t historyKept_def by blast
  moreover have q: "quietly ?s (t\<lparr>owClosed := owClosed ?s\<rparr>)" unfolding t by (rule closeOutput_quietly)
  ultimately have "committedFor sha256 request env pub t" using committedFor_kept[OF c] by (simp add: quietly_def)
  moreover have "closedOutput env t" using h closeOutput_closes[of ?out env ?s] unfolding t closedOutput_def by blast
  moreover have "leafBytes t = leafBytes s" using q by (simp add: quietly_def leafBytes_def fun_eq_iff)
  ultimately show ?thesis by blast
qed

lemma same_plan:
  assumes c: "committedFor sha256 request env pub s" and v: "verifiedContent sha256 rpc vr plan quote s"
  shows "spPlanId plan = spPlanId (prPlan request)"
proof -
  from c obtain b where b: "leafBytes s = bundleLeaves b" "trustedBytes sha256 request b" by (auto simp: committedFor_def)
  moreover from v obtain b' where "holds s b'" "parseStablePlan (bbPlan b') = Inr plan" by (auto simp: verifiedContent_def)
  ultimately have "parseStablePlan (bbPlan b) = Inr plan" by (simp add: holds_def PLAN_def QUOTE_def NATIVE_EVIDENCE_def READY_def)
  with b(2) show ?thesis by (auto simp: trustedBytes_def trustedDocuments_def readyOf_def)
qed

lemma closing_wp:
  "committedFor sha256 request env pub v \<and> \<not> owBundleClosed v \<Longrightarrow>
   wpO env (closeBundle pub) (\<lambda>_ t. committedFor sha256 request env pub t \<and> closedOutput env t \<and> leafBytes t = leafBytes v) (\<lambda>_ t. closedOutput env t) v"
  using closing[of sha256 request env pub v] by (auto simp: wpO_def split: prod.split sum.split)

lemma verifying_wp:
  "wpO env (bindO trustedNowSeconds (\<lambda>_. bindO (verifyBundle sha256 lock rpc (verifyRequest request pub)) (\<lambda>_. returnO (resultFor request pub))))
     (\<lambda>res v. quietly u v \<and> res = resultFor request pub \<and> (\<exists>plan quote. verifiedContent sha256 rpc (verifyRequest request pub) plan quote v))
     (\<lambda>_. quietly u) u" (is "wpO _ ?m _ _ _")
proof (rule wpO_quiet_returns)
  show "quiet ?m" by (intro quiet_intros)
  fix res v assume m: "?m env u = (Inr res, v)" and q: "quietly u v"
  from m obtain n plan quote u1 where "trustedNowSeconds env u = (Inr n, u1)" "res = resultFor request pub"
      "verifyBundle sha256 lock rpc (verifyRequest request pub) env u1 = (Inr (plan, quote), v)"
    unfolding bindO_Inr returnO_Inr by auto
  then have "res = resultFor request pub" "verifiedContent sha256 rpc (verifyRequest request pub) plan quote u1"
      "leafBytes u1 = leafBytes v"
    using verifyBundle_returns leafBytes_quiet[OF quietO[OF verifyBundle_quiet], symmetric] by blast+
  with q show "quietly u v \<and> res = resultFor request pub \<and> (\<exists>plan quote. verifiedContent sha256 rpc (verifyRequest request pub) plan quote v)"
    using verifiedContent_cong by blast
qed

lemma publish_and_verify:
  assumes "noRenames s"
  shows "wpO env (publishAndVerify sha256 lock rpc request) (planned sha256 rpc request env) (\<lambda>_. nothingLeftOpen env) s"
proof -
  have stay: "committedFor sha256 request env pub v \<and> \<not> owBundleClosed v" if "committedFor sha256 request env pub u \<and> \<not> owBundleClosed u" "quietly u v" for pub u v
    using that committedFor_kept[of sha256 request env pub u v] history_quietly by (auto simp: quietly_def committedFor_def)
  have after: "wpO env (bindO (closeBundle pub) (\<lambda>_. case outcome of Inl e \<Rightarrow> throwO e | Inr x \<Rightarrow> returnO x)) (planned sha256 rpc request env) (\<lambda>_. nothingLeftOpen env) v"
    if "committedFor sha256 request env pub v \<and> \<not> owBundleClosed v"
      "\<And>x. outcome = Inr x \<Longrightarrow> x = resultFor request pub \<and> (\<exists>plan quote. verifiedContent sha256 rpc (verifyRequest request pub) plan quote v)" for pub v outcome
    unfolding wpO_bind
  proof (rule wpO_mono[OF closing_wp[OF that(1)]])
    fix u t assume t: "committedFor sha256 request env pub t \<and> closedOutput env t \<and> leafBytes t = leafBytes v"
    then show "wpO env (case outcome of Inl e \<Rightarrow> throwO e | Inr x \<Rightarrow> returnO x) (planned sha256 rpc request env) (\<lambda>_. nothingLeftOpen env) t"
    proof (cases outcome)
      case (Inr x)
      from that(2)[OF Inr] obtain plan quote where x: "x = resultFor request pub" "verifiedContent sha256 rpc (verifyRequest request pub) plan quote t"
        using verifiedContent_cong t by metis
      moreover have "spPlanId plan = plPlanId x" using same_plan[OF conjunct1[OF t] x(2)] by (simp add: x(1) resultFor_def)
      ultimately show ?thesis using t unfolding planned_def Inr sum.case wpO_return by blast
    qed (simp add: wpO_throw nothingLeftOpen_def)
  qed (simp add: nothingLeftOpen_def)
  show ?thesis
    unfolding publishAndVerify_def finallyO_def wpO_bind[of _ "publishReadyLast _ _ _"] verifyRequest_def[symmetric] resultFor_def[symmetric]
  proof (rule wpO_mono[OF publication_commits[OF assms]])
    fix pub u assume u: "committedFor sha256 request env pub u \<and> \<not> owBundleClosed u"
    show "wpO env (bindO (tryO (bindO trustedNowSeconds (\<lambda>_. bindO (verifyBundle sha256 lock rpc (verifyRequest request pub)) (\<lambda>_. returnO (resultFor request pub)))))
        (\<lambda>outcome. bindO (closeBundle pub) (\<lambda>_. case outcome of Inl e \<Rightarrow> throwO e | Inr x \<Rightarrow> returnO x))) (planned sha256 rpc request env) (\<lambda>_. nothingLeftOpen env) u"
      unfolding wpO_bind[of _ "tryO _"] wpO_try
      by (rule wpO_mono[OF verifying_wp]; rule after) (use stay[OF u] in \<open>auto\<close>)
  qed
qed

text \<open>What the planner publishes: a plan and a quote built from an approved artifact and an observation of the node.\<close>

definition builtBy :: "(nat list \<Rightarrow> string) \<Rightarrow> planRpc \<Rightarrow> plannerInput \<Rightarrow> publishRequest \<Rightarrow> bool" where
  "builtBy sha256 rpc input request \<longleftrightarrow> prParent request = piOutputParent input \<and> prBundleName request = piBundleName input
     \<and> (\<exists>inputs. prArtifactInputs request = rawArtifactInputs.truncate inputs \<and> approveForgeArtifact sha256 inputs (prRoots request) = Inr (prExpected request))
     \<and> buildStablePlan sha256 (prExpected request) (prRoots request) = Inr (prPlan request)
     \<and> (\<exists>now observation. observeFees rpc \<lparr>frFrom = trFrom (prRoots request), frCreationInput = aaCreationInput (prExpected request), frNowSeconds = now,
            frMaxPriorityFeePerGas = piMaxPriorityFeePerGas input, frMaxFeePerGas = piMaxFeePerGas input\<rparr> = Inr observation
          \<and> buildFeeQuote (prPlan request) observation (prRoots request) = Inr (prQuote request))"

definition plannerSpec :: "(nat list \<Rightarrow> string) \<Rightarrow> plannerPorts \<Rightarrow> plannerInput \<Rightarrow> outEnv \<Rightarrow> plannerResult \<Rightarrow> outWorld \<Rightarrow> bool" where
  "plannerSpec sha256 ports input env result t \<longleftrightarrow> (\<exists>url request. assertLoopbackUrl (ppNewUrl ports) (piRpcUrl input) = Inr url
     \<and> builtBy sha256 (ppRpcAt ports url) input request \<and> planned sha256 (ppRpcAt ports url) request env result t)"

lemma finally_quiet:
  assumes "wpO env m Q (\<lambda>_. E) s" "quiet c" "\<And>x t u. Q x t \<Longrightarrow> quietly t u \<Longrightarrow> Q x u \<and> E u" "\<And>t u. E t \<Longrightarrow> quietly t u \<Longrightarrow> E u"
  shows "wpO env (finallyO m c) Q (\<lambda>_. E) s"
  unfolding finallyO_def wpO_bind wpO_try
  by (rule wpO_mono[OF assms(1)]; rule wpO_quiet[OF assms(2)]) (use assms(3,4) in \<open>auto simp: wpO_return wpO_throw\<close>)

text \<open>
  A run of the planner, whatever the file system, the clock and the node answer: when it returns, the directory
  holds a committed bundle of a plan and a quote that were built from the approved artifact and the
  observation, were verified again from the committed bytes, and whose digests are those of the result, and
  the output is closed; when it fails after the native rename was tried, the output is closed. The native
  helper's own calls are taken to leave the output alone. A document of the run with a code unit of 256 or above in a
  string is refused by the readers of the model, so of such runs this says nothing.
\<close>

theorem planner_run:
  assumes s: "noRenames s" and native: "quiet (ppNative ports)" "quiet (ppCloseNative ports)"
  shows "wpO env (runUnsignedPlanner sha256 lock ports input) (plannerSpec sha256 ports input env) (\<lambda>_. nothingLeftOpen env) s"
proof -
  note q = wpO_quiet_bind[OF _ noRenames_stable, where E = "\<lambda>_. nothingLeftOpen env"]
  have final: "wpO env (finallyO (bindO (liftO (jsonBytes v)) (\<lambda>bytes. publishAndVerify sha256 lock rpc (request bytes))) (ppCloseNative ports))
      (plannerSpec sha256 ports input env) (\<lambda>_. nothingLeftOpen env) t"
    if "noRenames t" "assertLoopbackUrl (ppNewUrl ports) (piRpcUrl input) = Inr url" "rpc = ppRpcAt ports url"
      "\<And>bytes. builtBy sha256 rpc input (request bytes)" for t v request url rpc
  proof (rule finally_quiet[OF _ native(2)])
    show "wpO env (bindO (liftO (jsonBytes v)) (\<lambda>bytes. publishAndVerify sha256 lock rpc (request bytes)))
      (plannerSpec sha256 ports input env) (\<lambda>_. nothingLeftOpen env) t"
      by (rule lift_step[OF that(1)], rule wpO_mono[OF publish_and_verify[OF that(1)]]) (use that(2-4) in \<open>auto simp: plannerSpec_def\<close>)
  next
    fix x t u assume "plannerSpec sha256 ports input env x t" "quietly t u"
    then have "plannerSpec sha256 ports input env x u" unfolding plannerSpec_def using planned_quietly by blast
    then show "plannerSpec sha256 ports input env x u \<and> nothingLeftOpen env u"
      by (auto simp: plannerSpec_def planned_def nothingLeftOpen_def)
  qed (rule nothingLeftOpen_quietly)
  show ?thesis
    unfolding runUnsignedPlanner_def Let_def
    apply (rule q, (rule quiet_intros)+, rule s)
    apply ((rule lift_step, assumption) | (rule q, (rule quiet_intros)+, assumption))+
    apply (rule q, rule native(1), assumption)
    apply (rule final, assumption, assumption, rule refl)
    apply (auto simp: builtBy_def)[1]
    by (erule unused_open)+
qed

end
