(* ===== verification/Spec2Isabelle.thy ===== *)
theory Spec2Isabelle
  imports Supply CcipMessage GenesisModel GrantSchedule PlanRpc EvmJournal SolanaJournal SlitherGate CustodyRunProps PlanBundleProps
begin

text \<open>
  Verification of the decision code of the AGTMAI token repository.

  The repository creates a fixed-supply token on Ethereum, bridges it to Solana over CCIP and
  operates the deployment with TypeScript tools. Every tool has the same build: pure code decides
  what may be signed, sent or accepted, and adapters behind ports do the input and output. This
  library models the pure code and proves what its decisions mean. Each component has its theory; its
  definitions carry the names of the source and follow its order of checks, since the first
  failing check is what a caller sees.

  \<^bold>\<open>Conventions.\<close> (\<open>Prelude\<close>) A JavaScript \<open>bigint\<close> is an \<open>int\<close>, a string is a \<open>string\<close> (its code
  units, below 256), a value that the code checks at run time is a \<open>jsval\<close>, one that only the
  compiler checks is a record or a text. A function that throws returns \<open>js_error + 'a\<close>; \<open>bindE\<close>,
  \<open>failIf\<close>, \<open>eachE\<close> and \<open>mapE\<close> are its sequencing and loops. A validator that collects diagnostics
  returns their list. SHA-256, clocks and the ports are parameters of the definitions, and so is the JSON
  parser where the code has a port for it.

  \<^bold>\<open>Code units.\<close> The JSON parser (\<open>BoundedJson\<close>) works on texts of all UTF-16 code units (\<open>jstext\<close>) and
  returns a \<open>jsonValue\<close> with such strings; its theorems are about every input. The records of the
  other components have strings of code units below 256, so a parsed document is handed to them through
  \<open>narrow\<close>, and a document with any other unit in a string is refused there (\<open>outsideModel\<close>) although the
  code may accept it: the free texts of plans, build information and policies may have them, and a real
  build information file has. \<open>StrictJson\<close>, \<open>ForgeArtifact\<close>, \<open>NativePolicy\<close> and \<open>PlanBundle\<close> read documents
  this way; what they prove of documents is about those without such units. A quote has only digits and
  hexadecimal texts, so its reader refuses nothing that the code accepts.

  \<^bold>\<open>Texts.\<close> \<open>Decimal\<close>, \<open>HexText\<close>, \<open>Quantity\<close>, \<open>Base64\<close>: the number and byte texts of the code, with
  the locale \<open>decimal_codec\<close> of a parser whose domain is exactly the canonical texts. \<open>JsSort\<close>:
  \<open>toSorted\<close> as insertion sort, and comparators that determine the result. \<open>JsonText\<close>: \<open>JSON.stringify\<close>
  is injective on JSON values and \<open>canonicalJson\<close> (\<open>genesis-manifest/application/canonical.ts\<close>)
  identifies exactly the values that differ in the order of keys.

  \<^bold>\<open>Supply and genesis.\<close> \<open>Supply\<close> (\<open>domain/src/supply.ts\<close>): conservation under any sequence of bridge
  moves. \<open>CcipMessage\<close> (\<open>ccip-status/message.ts\<close>): the projection of observed events refines a
  specification on the set of events, and more observations only move it forward. \<open>GenesisModel\<close>
  (\<open>genesis-manifest/domain/model.ts\<close>): allocations. \<open>GrantSchedule\<close> (\<open>grant-schedule.ts\<close>): vesting
  dates against the civil calendar. \<open>DeploymentModel\<close>, \<open>DeploymentShape\<close>, \<open>Deployment\<close>,
  \<open>DeploymentProps\<close> (\<open>deployment.ts\<close>): the shape of a deployment configuration, its references,
  solvency, policy and role aliases, the bridge limiters and the Solana address test.

  \<^bold>\<open>Custody.\<close> (\<open>tooling/testnet-ccip\<close>) \<open>Custody\<close> (\<open>domain/custody.ts\<close>): snapshots of the vaults and the
  transitions that funding, releasing and cancelling may make. \<open>CustodyVault\<close>: the abstract vault of a
  grant, its steps, their invariant and that they end. \<open>CustodyProps\<close>: an accepted transition is a step of
  the vault at what its curve vests at the time of the block, and the accounts of any history.
  \<open>CustodyRun\<close>, \<open>CustodyRunProps\<close> (\<open>application/custody-run.ts\<close>): the journal of a run over many grants
  sends no operation twice.

  \<^bold>\<open>Deployment plans.\<close> (\<open>tooling/deployment-plan\<close>) \<open>PlanModel\<close>: the costs of a transaction. \<open>Keccak\<close>:
  Keccak-256 against the sponge of the standard. \<open>PlanIdentity\<close>: CREATE addresses and plan ids.
  \<open>PlanPorts\<close>, \<open>RawArtifact\<close>: approval of raw build output and constructor arguments. \<open>PlanBuilder\<close>,
  \<open>PlanVerifier\<close>, \<open>PlanRpc\<close>: what the builder makes passes the independent verification, which
  accepts nothing but plans, quotes and node answers of its specification.

  \<^bold>\<open>Documents.\<close> \<open>BoundedJson\<close>, \<open>BoundedJsonProps\<close> (\<open>adapters/bounded-json.ts\<close>): UTF-8 decoding and the
  parser, against an encoding and a grammar that are stated without them. \<open>StrictJson\<close>, \<open>StrictJsonProps\<close>
  (\<open>adapters/strict-json.ts\<close>): the readers of trust roots, plans, quotes, markers and evidence.

  \<^bold>\<open>Output.\<close> \<open>OutputIo\<close>: calls of the file system with any answers and failures, their log, and a weakest
  precondition calculus. \<open>SafeOutput\<close>, \<open>SafeOutputProps\<close> (\<open>adapters/safe-output.ts\<close>): the claimed
  directory, whose READY file is renamed last and which never changes after it. \<open>ForgeArtifact\<close>
  (\<open>adapters/artifact.ts\<close>), \<open>LocalRpc\<close> (\<open>adapters/rpc.ts\<close>), \<open>NativePolicy\<close> (\<open>adapters/native-policy.ts\<close>): the
  planner's own reading of artifacts, node and policy, which agrees with that of the verifier.
  \<open>PlanBundle\<close>, \<open>PlanBundleProps\<close> (\<open>composition/index.ts\<close>): publishing and verifying a bundle, and the whole run
  of the planner: what is committed when it returns, and that the output is closed.

  \<^bold>\<open>Journals.\<close> (\<open>tooling/testnet-ccip\<close>) \<open>EvmIntent\<close>, \<open>CustodyIntent\<close>, \<open>SolanaMint\<close>: what an intent may
  be. \<open>Journal\<close>: runs of a journal as sequences of reads, durable writes and sends, each of which
  may be the last before a crash; a weakest precondition calculus for them; the locale of a journal
  that sends at most once. \<open>EvmJournal\<close>, \<open>SolanaJournal\<close>: the two journals, interpretations of it. The mint
  journal (\<open>application/solana-journal.ts\<close>) is translated from its own code, its checks, settling and sending
  included, and compared with the generic one.

  \<^bold>\<open>Slither gate.\<close> (\<open>tooling/security/slither\<close>) \<open>SlitherModel\<close>, \<open>SlitherPolicy\<close>, \<open>SlitherGate\<close>: the
  policy over findings, suppressions and triage entries, and the gate around it.

  \<^bold>\<open>Bounds.\<close> Recursion is structural or has a measure, so every definition is total and no theorem
  depends on fuel. Integers are unbounded as in the source; widths are the checks of the code, and
  the lanes of Keccak are \<open>64 word\<close>.

  \<^bold>\<open>Not modelled.\<close> The other adapters and composition roots (processes, the native helper, command lines), the
  supervision of local nodes, the rollback and toolchain scripts, and the Solidity contracts. An
  asynchronous call is its answer, one at a time; \<open>exclusive\<close> is what the ports promise, so one run
  of a journal does not overlap another. Strings with code units of 256 and above, outside the JSON parser.
\<close>

end
